(* ===== verification/Prelude.thy ===== *)
theory Prelude
  imports Main "HOL-Library.Multiset"
begin

text \<open>
  Shared vocabulary of the development: the JavaScript array and string operations that
  the frontend uses, written as total functions with JavaScript's behaviour out of range,
  and the generic invariant rule for the state machines of the later theories.

  Array positions are \<open>int\<close> (the code passes negative and too large positions to
  \<open>slice\<close> and \<open>splice\<close>, which clamp them). Strings are \<open>string\<close>, that is lists of
  8-bit code units: the Latin-1 part of JavaScript's strings, on which
  \<open>trim\<close> and \<open>toLowerCase\<close> are given in full.
\<close>

named_theorems js_simps \<open>executable JavaScript helpers\<close>

section \<open>Arrays\<close>

text \<open>\<open>xs[i]\<close>: \<open>undefined\<close> outside the array.\<close>

definition nth_opt :: "'a list \<Rightarrow> int \<Rightarrow> 'a option" where
  "nth_opt xs i = (if 0 \<le> i \<and> i < int (length xs) then Some (xs ! nat i) else None)"

lemma nth_opt_Some_iff:
  "nth_opt xs i = Some x \<longleftrightarrow> 0 \<le> i \<and> i < int (length xs) \<and> xs ! nat i = x"
  by (auto simp: nth_opt_def)

lemma nth_opt_of_nat [simp]:
  "n < length xs \<Longrightarrow> nth_opt xs (int n) = Some (xs ! n)"
  by (simp add: nth_opt_def)

lemma nth_opt_None_iff: "nth_opt xs i = None \<longleftrightarrow> i < 0 \<or> int (length xs) \<le> i"
  by (auto simp: nth_opt_def)

lemma nth_opt_set: "nth_opt xs i = Some x \<Longrightarrow> x \<in> set xs"
  by (auto simp: nth_opt_def split: if_splits)

text \<open>\<open>xs.map((x, i) => f(i, x))\<close> and \<open>xs.filter((_, i) => p(i))\<close>.\<close>

fun mapi_from :: "int \<Rightarrow> (int \<Rightarrow> 'a \<Rightarrow> 'b) \<Rightarrow> 'a list \<Rightarrow> 'b list" where
  "mapi_from k f [] = []"
| "mapi_from k f (x # xs) = f k x # mapi_from (k + 1) f xs"

definition mapi :: "(int \<Rightarrow> 'a \<Rightarrow> 'b) \<Rightarrow> 'a list \<Rightarrow> 'b list" where
  "mapi f xs = mapi_from 0 f xs"

fun filteri_from :: "int \<Rightarrow> (int \<Rightarrow> bool) \<Rightarrow> 'a list \<Rightarrow> 'a list" where
  "filteri_from k p [] = []"
| "filteri_from k p (x # xs) =
     (if p k then x # filteri_from (k + 1) p xs else filteri_from (k + 1) p xs)"

definition filteri :: "(int \<Rightarrow> bool) \<Rightarrow> 'a list \<Rightarrow> 'a list" where
  "filteri p xs = filteri_from 0 p xs"

lemma length_mapi_from [simp]: "length (mapi_from k f xs) = length xs"
  by (induction xs arbitrary: k) auto

lemma length_mapi [simp]: "length (mapi f xs) = length xs"
  by (simp add: mapi_def)

lemma nth_mapi_from: "i < length xs \<Longrightarrow> mapi_from k f xs ! i = f (k + int i) (xs ! i)"
proof (induction xs arbitrary: k i)
  case Nil
  then show ?case by simp
next
  case (Cons x xs)
  then show ?case by (cases i) (auto simp: algebra_simps)
qed

lemma nth_mapi [simp]: "i < length xs \<Longrightarrow> mapi f xs ! i = f (int i) (xs ! i)"
  by (simp add: mapi_def nth_mapi_from)

lemma nth_opt_mapi: "nth_opt (mapi f xs) i = map_option (f i) (nth_opt xs i)"
proof (cases "0 \<le> i \<and> i < int (length xs)")
  case True
  then have "nat i < length xs" by auto
  with True show ?thesis by (simp add: nth_opt_def)
next
  case False
  then show ?thesis by (auto simp: nth_opt_def)
qed

lemma nth_opt_map: "nth_opt (map f xs) i = map_option f (nth_opt xs i)"
  by (auto simp: nth_opt_def)

lemma mapi_from_cong:
  "(\<And>i. i < length xs \<Longrightarrow> f (k + int i) (xs ! i) = g (k + int i) (xs ! i)) \<Longrightarrow>
   mapi_from k f xs = mapi_from k g xs"
  by (rule nth_equalityI) (auto simp: nth_mapi_from)

lemma mapi_ident: "(\<And>i x. f i x = x) \<Longrightarrow> mapi f xs = xs"
  by (rule nth_equalityI) auto

lemma set_mapi_from_subset: "y \<in> set (mapi_from k f xs) \<Longrightarrow> \<exists>i x. x \<in> set xs \<and> y = f i x"
proof (induction xs arbitrary: k)
  case (Cons x xs)
  then consider "y = f k x" | "y \<in> set (mapi_from (k + 1) f xs)" by auto
  then show ?case using Cons.IH by cases (auto, blast)
qed simp

lemma set_mapiD: "y \<in> set (mapi f xs) \<Longrightarrow> \<exists>i x. x \<in> set xs \<and> y = f i x"
  unfolding mapi_def by (rule set_mapi_from_subset)

lemma map_mapi: "map g (mapi f xs) = mapi (\<lambda>i x. g (f i x)) xs"
  by (rule nth_equalityI) auto

text \<open>
  Removing one position: what \<open>xs.filter((_, i) => i !== k)\<close> returns, for any \<open>k\<close>.
\<close>

lemma filteri_from_all: "(\<And>i. k \<le> i \<Longrightarrow> p i) \<Longrightarrow> filteri_from k p xs = xs"
proof (induction xs arbitrary: k)
  case (Cons x xs)
  have "filteri_from (k + 1) p xs = xs" by (rule Cons.IH) (rule Cons.prems, simp)
  with Cons.prems[of k] show ?case by simp
qed simp

lemma filteri_from_except:
  "k \<le> d \<Longrightarrow> filteri_from k (\<lambda>i. i \<noteq> d) xs = take (nat (d - k)) xs @ drop (Suc (nat (d - k))) xs"
proof (induction xs arbitrary: k)
  case (Cons x xs)
  show ?case
  proof (cases "k = d")
    case True
    then show ?thesis by (simp add: filteri_from_all)
  next
    case False
    with Cons.prems have "k + 1 \<le> d" and e: "nat (d - k) = Suc (nat (d - (k + 1)))" by auto
    with Cons.IH[of "k + 1"] False show ?thesis by simp
  qed
qed simp

lemma filteri_except:
  "filteri (\<lambda>i. i \<noteq> d) xs = (if d < 0 then xs else take (nat d) xs @ drop (Suc (nat d)) xs)"
  by (auto simp: filteri_def filteri_from_except intro: filteri_from_all)

text \<open>
  \<open>slice\<close> and the inserting \<open>splice\<close>: a negative position counts from the end, a
  position past the end is the end.
\<close>

definition js_pos :: "nat \<Rightarrow> int \<Rightarrow> nat" where
  "js_pos len i = (if i < 0 then nat (max 0 (int len + i)) else min (nat i) len)"

definition js_slice :: "'a list \<Rightarrow> int \<Rightarrow> int \<Rightarrow> 'a list" where
  "js_slice xs a b = (let i = js_pos (length xs) a; j = js_pos (length xs) b in drop i (take j xs))"

definition js_slice_from :: "'a list \<Rightarrow> int \<Rightarrow> 'a list" where
  "js_slice_from xs a = drop (js_pos (length xs) a) xs"

definition js_splice_insert :: "int \<Rightarrow> 'a \<Rightarrow> 'a list \<Rightarrow> 'a list" where
  "js_splice_insert i x xs = (let p = js_pos (length xs) i in take p xs @ x # drop p xs)"

lemma js_pos_le [simp]: "js_pos len i \<le> len"
  by (auto simp: js_pos_def)

lemma js_pos_nonneg: "0 \<le> i \<Longrightarrow> js_pos len i = min (nat i) len"
  by (simp add: js_pos_def)

lemma js_slice_prefix: "0 \<le> b \<Longrightarrow> js_slice xs 0 b = take (nat b) xs"
  by (auto simp: js_slice_def js_pos_def min_def)

lemma js_slice_from_nonneg: "0 \<le> a \<Longrightarrow> js_slice_from xs a = drop (nat a) xs"
  by (auto simp: js_slice_from_def js_pos_def min_def)

lemma js_slice_nonneg: "0 \<le> a \<Longrightarrow> 0 \<le> b \<Longrightarrow> js_slice xs a b = drop (nat a) (take (nat b) xs)"
  by (auto simp: js_slice_def js_pos_def min_def)

lemma length_js_splice_insert [simp]: "length (js_splice_insert i x xs) = Suc (length xs)"
  using js_pos_le[of "length xs" i] by (simp add: js_splice_insert_def Let_def)

lemma mset_js_splice_insert: "mset (js_splice_insert i x xs) = add_mset x (mset xs)"
proof -
  have "mset (take p xs) + mset (drop p xs) = mset xs" for p
    by (metis append_take_drop_id mset_append)
  then show ?thesis by (simp add: js_splice_insert_def Let_def)
qed

text \<open>\<open>xs.findIndex(p)\<close>, with \<open>None\<close> for -1.\<close>

fun find_index :: "('a \<Rightarrow> bool) \<Rightarrow> 'a list \<Rightarrow> nat option" where
  "find_index p [] = None"
| "find_index p (x # xs) = (if p x then Some 0 else map_option Suc (find_index p xs))"

lemma find_index_None_iff: "find_index p xs = None \<longleftrightarrow> (\<forall>x \<in> set xs. \<not> p x)"
  by (induction xs) auto

lemma find_index_SomeD:
  "find_index p xs = Some i \<Longrightarrow> i < length xs \<and> p (xs ! i) \<and> (\<forall>j < i. \<not> p (xs ! j))"
proof (induction xs arbitrary: i)
  case (Cons x xs)
  then show ?case by (auto split: if_splits simp: nth_Cons split: nat.splits)
qed simp

text \<open>\<open>xs.find(p)\<close> is the library's \<open>List.find\<close>.\<close>

lemma find_SomeD: "List.find p xs = Some x \<Longrightarrow> x \<in> set xs \<and> p x"
  by (auto simp: find_Some_iff)

section \<open>Strings\<close>

definition is_ws :: "char \<Rightarrow> bool" where
  "is_ws c = (let n = (of_char c :: nat) in (9 \<le> n \<and> n \<le> 13) \<or> n = 32 \<or> n = 160)"

definition js_trim :: "string \<Rightarrow> string" where
  "js_trim s = rev (dropWhile is_ws (rev (dropWhile is_ws s)))"

definition lower_char :: "char \<Rightarrow> char" where
  "lower_char c = (let n = (of_char c :: nat) in
     if (65 \<le> n \<and> n \<le> 90) \<or> (192 \<le> n \<and> n \<le> 222 \<and> n \<noteq> 215) then char_of (n + 32) else c)"

definition js_lower :: "string \<Rightarrow> string" where
  "js_lower s = map lower_char s"

fun js_starts_with :: "string \<Rightarrow> string \<Rightarrow> bool" where
  "js_starts_with [] s = True"
| "js_starts_with (p # ps) [] = False"
| "js_starts_with (p # ps) (c # s) = (p = c \<and> js_starts_with ps s)"

fun js_includes :: "string \<Rightarrow> string \<Rightarrow> bool" where
  "js_includes sub [] = (sub = [])"
| "js_includes sub (c # s) = (js_starts_with sub (c # s) \<or> js_includes sub s)"

fun split_go :: "string \<Rightarrow> string \<Rightarrow> string \<Rightarrow> string list" where
  "split_go d acc [] = [rev acc]"
| "split_go d acc (c # s) =
     (if d \<noteq> [] \<and> js_starts_with d (c # s) then rev acc # split_go d [] (drop (length d - 1) s)
      else split_go d (c # acc) s)"

text \<open>\<open>s.split(d)\<close> for a non-empty delimiter, and \<open>parts.join(d)\<close>.\<close>

definition js_split :: "string \<Rightarrow> string \<Rightarrow> string list" where
  "js_split d s = split_go d [] s"

fun js_join :: "string \<Rightarrow> string list \<Rightarrow> string" where
  "js_join d [] = []"
| "js_join d [s] = s"
| "js_join d (s # t # ts) = s @ d @ js_join d (t # ts)"

lemma js_starts_with_append [simp]: "js_starts_with p (p @ s)"
  by (induction p) auto

lemma js_starts_with_iff: "js_starts_with p s \<longleftrightarrow> (\<exists>t. s = p @ t)"
  by (induction p s rule: js_starts_with.induct) auto

lemma split_go_nonempty: "split_go d acc s \<noteq> []"
  by (induction d acc s rule: split_go.induct) auto

lemma js_join_Cons: "ts \<noteq> [] \<Longrightarrow> js_join d (s # ts) = s @ d @ js_join d ts"
  by (cases ts) auto

lemma join_split_go: "js_join d (split_go d acc s) = rev acc @ s"
proof (induction d acc s rule: split_go.induct)
  case (2 d acc c s)
  show ?case
  proof (cases "d \<noteq> [] \<and> js_starts_with d (c # s)")
    case True
    then obtain t where t: "c # s = d @ t" by (auto simp: js_starts_with_iff)
    then have "drop (length d - 1) s = t"
      using True by (cases d) auto
    with 2(1)[OF True] have "js_join d (split_go d [] (drop (length d - 1) s)) = t" by simp
    moreover have "split_go d acc (c # s) = rev acc # split_go d [] (drop (length d - 1) s)"
      using True by simp
    ultimately show ?thesis
      using t by (simp only: js_join_Cons[OF split_go_nonempty])
  next
    case False
    then have e: "split_go d acc (c # s) = split_go d (c # acc) s" by auto
    show ?thesis using 2(2)[OF False] unfolding e by simp
  qed
qed simp

lemma js_join_split: "js_join d (js_split d s) = s"
  by (simp add: js_split_def join_split_go)

text \<open>\<open>String(n)\<close> of an integer.\<close>

function dec_digits :: "int \<Rightarrow> string" where
  "dec_digits n = (if n < 10 then [char_of (48 + n)] else dec_digits (n div 10) @ [char_of (48 + n mod 10)])"
  by pat_completeness auto
termination by (relation "measure nat") auto

declare dec_digits.simps [simp del]

definition show_int :: "int \<Rightarrow> string" where
  "show_int i = (if i < 0 then CHR ''-'' # dec_digits (- i) else dec_digits i)"

section \<open>State machines\<close>

text \<open>
  The modules with state are event-driven: their state changes only when the event loop
  runs one of their handlers to completion. A machine is its initial state, a handler
  for every event, and a guard that says when the event can arrive.
\<close>

inductive reach :: "('s \<Rightarrow> 'e \<Rightarrow> bool) \<Rightarrow> ('s \<Rightarrow> 'e \<Rightarrow> 's) \<Rightarrow> 's \<Rightarrow> 's \<Rightarrow> bool"
  for enabled handle s0 where
  reach_init: "reach enabled handle s0 s0"
| reach_step: "reach enabled handle s0 s \<Longrightarrow> enabled s e \<Longrightarrow> reach enabled handle s0 (handle s e)"

locale machine =
  fixes enabled :: "'s \<Rightarrow> 'e \<Rightarrow> bool"
    and handle :: "'s \<Rightarrow> 'e \<Rightarrow> 's"
    and s0 :: 's
    and inv :: "'s \<Rightarrow> bool"
  assumes inv_init: "inv s0"
    and inv_step: "inv s \<Longrightarrow> enabled s e \<Longrightarrow> inv (handle s e)"
begin

lemma reach_inv: "reach enabled handle s0 s \<Longrightarrow> inv s"
  by (induction rule: reach.induct) (auto intro: inv_init inv_step)

lemma run_inv: "inv s \<Longrightarrow> (\<And>s e. e \<in> set es \<Longrightarrow> enabled s e) \<Longrightarrow> inv (foldl handle s es)"
proof (induction es arbitrary: s)
  case (Cons e es)
  then have "inv (handle s e)" by (auto intro: inv_step)
  with Cons show ?case by simp
qed simp

end

end
