(* ===== verification/OtText.thy ===== *)
theory OtText
  imports Prelude "HOL-Library.Word"
begin

text \<open>
  \<^verbatim>\<open>frontend/src/lib/collab/ot/text.ts\<close>: replace operations on plain text, their
  operational transformation, and the common-prefix/suffix diff.

  A JavaScript string is a list of 16-bit code units; \<open>[...s]\<close> splits it into code
  points, pairing surrogates. Every position in a replace operation counts code points,
  while concatenation works on code units, so the functions are modelled on code units
  and the algebra is proved on lists of code points (\<open>rsplice\<close>), the two being
  related by \<open>applyReplace_chars\<close> for well-formed UTF-16.
\<close>

type_synonym u16 = "16 word"
type_synonym jstext = "u16 list"

section \<open>Code points\<close>

definition is_high :: "u16 \<Rightarrow> bool" where
  "is_high c \<longleftrightarrow> 0xD800 \<le> c \<and> c \<le> 0xDBFF"

definition is_low :: "u16 \<Rightarrow> bool" where
  "is_low c \<longleftrightarrow> 0xDC00 \<le> c \<and> c \<le> 0xDFFF"

text \<open>\<open>[...s]\<close>: the string iterator pairs a high with a following low surrogate.\<close>

fun chars :: "jstext \<Rightarrow> jstext list" where
  "chars [] = []"
| "chars [c] = [[c]]"
| "chars (c # d # s) =
     (if is_high c \<and> is_low d then [c, d] # chars s else [c] # chars (d # s))"

fun wf16 :: "jstext \<Rightarrow> bool" where
  "wf16 [] = True"
| "wf16 [c] = (\<not> is_high c \<and> \<not> is_low c)"
| "wf16 (c # d # s) =
     (if is_high c then is_low d \<and> wf16 s else \<not> is_low c \<and> wf16 (d # s))"

definition wf_char :: "jstext \<Rightarrow> bool" where
  "wf_char u \<longleftrightarrow> u \<noteq> [] \<and> wf16 u \<and> chars u = [u]"

lemma concat_chars [simp]: "concat (chars s) = s"
  by (induction s rule: chars.induct) auto

lemma chars_eq_iff: "chars s = chars t \<longleftrightarrow> s = t"
  by (metis concat_chars)

lemma high_not_low: "is_high c \<Longrightarrow> \<not> is_low c"
  by (simp add: is_high_def is_low_def word_le_nat_alt)

lemma chars_append: "wf16 s \<Longrightarrow> chars (s @ t) = chars s @ chars t"
proof (induction s rule: wf16.induct)
  case (2 c)
  then show ?case by (cases t) auto
next
  case (3 c d s)
  then show ?case by (auto split: if_splits)
qed simp

lemma wf16_append: "wf16 s \<Longrightarrow> wf16 (s @ t) = wf16 t"
proof (induction s rule: wf16.induct)
  case (2 c)
  then show ?case by (cases t) auto
next
  case (3 c d s)
  then show ?case by (auto split: if_splits)
qed simp

lemma wf_char_chars: "wf16 s \<Longrightarrow> u \<in> set (chars s) \<Longrightarrow> wf_char u"
proof (induction s rule: wf16.induct)
  case (3 c d s)
  then show ?case by (auto simp: wf_char_def high_not_low split: if_splits)
qed (auto simp: wf_char_def)

lemma wf16_concat: "(\<And>u. u \<in> set us \<Longrightarrow> wf_char u) \<Longrightarrow> wf16 (concat us) \<and> chars (concat us) = us"
proof (induction us)
  case (Cons u us)
  then have "wf16 u" "chars u = [u]" "wf16 (concat us)" "chars (concat us) = us"
    by (auto simp: wf_char_def)
  then show ?case by (simp add: chars_append wf16_append)
qed simp

text \<open>
  Cutting a well-formed text at code point boundaries and gluing the pieces keeps it
  well formed, and the pieces stay visible to the iterator.
\<close>

lemma wf16_concat_sub:
  "wf16 s \<Longrightarrow> set us \<subseteq> set (chars s) \<Longrightarrow> wf16 (concat us) \<and> chars (concat us) = us"
  by (rule wf16_concat) (auto intro: wf_char_chars)

section \<open>Replace operations\<close>

record text_replace =
  tr_index :: int
  tr_delete :: int
  tr_insert :: jstext

definition insertLen :: "text_replace \<Rightarrow> int" where
  "insertLen op = int (length (chars (tr_insert op)))"

definition applyReplace :: "jstext \<Rightarrow> text_replace \<Rightarrow> jstext" where
  "applyReplace text op =
     (let cs = chars text;
          len = int (length cs);
          index = min (tr_index op) len;
          end' = min (index + tr_delete op) len
      in concat (js_slice cs 0 index) @ tr_insert op @ concat (js_slice_from cs end'))"

text \<open>Transform \<open>op\<close> so it can be applied after \<open>against\<close> has already been applied.\<close>

definition transformReplace :: "text_replace \<Rightarrow> text_replace \<Rightarrow> text_replace" where
  "transformReplace op against =
     (let aIdx = tr_index op; aDel = tr_delete op; aEnd = aIdx + aDel;
          bIdx = tr_index against; bDel = tr_delete against; bEnd = bIdx + bDel;
          bIns = insertLen against
      in if bEnd \<le> aIdx then
           \<lparr>tr_index = max 0 (aIdx - bDel + bIns), tr_delete = tr_delete op, tr_insert = tr_insert op\<rparr>
         else if bIdx \<ge> aEnd then
           \<lparr>tr_index = tr_index op, tr_delete = tr_delete op, tr_insert = tr_insert op\<rparr>
         else if bIdx \<le> aIdx then
           (let overlap = min aEnd bEnd - aIdx; newDel = max 0 (aDel - overlap)
            in \<lparr>tr_index = max 0 (bIdx + bIns), tr_delete = newDel, tr_insert = tr_insert op\<rparr>)
         else
           (let before = bIdx - aIdx; after = max 0 (aEnd - bEnd)
            in \<lparr>tr_index = tr_index op, tr_delete = before + after, tr_insert = tr_insert op\<rparr>))"

fun transformReplaceThrough :: "text_replace \<Rightarrow> text_replace list \<Rightarrow> text_replace" where
  "transformReplaceThrough op [] = op"
| "transformReplaceThrough op (other # against) =
     transformReplaceThrough (transformReplace op other) against"

definition transformOffset :: "int \<Rightarrow> text_replace \<Rightarrow> int" where
  "transformOffset offset op =
     (let idx = tr_index op; del = tr_delete op; ins = insertLen op
      in if offset \<le> idx then offset
         else if offset \<ge> idx + del then offset - del + ins
         else idx + ins)"

definition transformRange :: "int \<Rightarrow> int \<Rightarrow> text_replace \<Rightarrow> (int \<times> int) option" where
  "transformRange start stop op =
     (if stop \<le> start then None
      else let s = transformOffset start op; e = transformOffset stop op
           in if e > s then Some (s, e) else None)"

text \<open>The two scanning loops of \<open>diffPlainText\<close>.\<close>

function diff_start :: "'a list \<Rightarrow> 'a list \<Rightarrow> nat \<Rightarrow> nat" where
  "diff_start bs as start =
     (if start < min (length bs) (length as) \<and> bs ! start = as ! start
      then diff_start bs as (start + 1) else start)"
  by pat_completeness auto
termination
  by (relation "measure (\<lambda>(bs, as, start). length bs - start)") auto

declare diff_start.simps [simp del]

fun diff_ends :: "'a list \<Rightarrow> 'a list \<Rightarrow> nat \<Rightarrow> nat \<Rightarrow> nat \<Rightarrow> nat \<times> nat" where
  "diff_ends bs as start endB endA =
     (if endB > start \<and> endA > start \<and> bs ! (endB - 1) = as ! (endA - 1)
      then diff_ends bs as start (endB - 1) (endA - 1) else (endB, endA))"

declare diff_ends.simps [simp del]

definition diffPlainText :: "jstext \<Rightarrow> jstext \<Rightarrow> text_replace option" where
  "diffPlainText before after =
     (if before = after then None
      else let bs = chars before; as = chars after;
               start = diff_start bs as 0;
               (endB, endA) = diff_ends bs as start (length bs) (length as)
           in Some \<lparr>tr_index = int start, tr_delete = int endB - int start,
                    tr_insert = concat (js_slice as (int start) (int endA))\<rparr>)"

section \<open>The algebra on lists of code points\<close>

definition rsplice :: "nat \<Rightarrow> nat \<Rightarrow> 'a list \<Rightarrow> 'a list \<Rightarrow> 'a list" where
  "rsplice i d ins xs = take i xs @ ins @ drop (i + d) xs"

lemma length_rsplice: "i + d \<le> length xs \<Longrightarrow> length (rsplice i d ins xs) = length xs - d + length ins"
  by (simp add: rsplice_def)

lemma splice_split3: "rsplice (length p) (length m) ins (p @ m @ q) = p @ ins @ q"
  by (simp add: rsplice_def)

text \<open>Every in-range rsplice acts on a three-way split of the list.\<close>

lemma split3:
  assumes "i + d \<le> length xs"
  shows "\<exists>p m q. xs = p @ m @ q \<and> length p = i \<and> length m = d"
proof (intro exI conjI)
  show "xs = take i xs @ take d (drop i xs) @ drop (i + d) xs"
    by (metis append_take_drop_id drop_drop add.commute)
qed (use assms in auto)

lemma split2: "n \<le> length xs \<Longrightarrow> \<exists>p q. xs = p @ q \<and> length p = n"
  using split3[of 0 n xs] by auto

lemma splice_at: "i = length p \<Longrightarrow> d = length m \<Longrightarrow> rsplice i d ins (p @ m @ q) = p @ ins @ q"
  by (simp add: splice_split3)

lemma splice_disjoint:
  assumes "j + e \<le> i" "i + d \<le> length xs"
  shows "rsplice (i - e + length bs) d as (rsplice j e bs xs) = rsplice j e bs (rsplice i d as xs)"
proof -
  have b1: "j + e \<le> length xs" using assms by arith
  obtain p m r where 1: "xs = p @ m @ r" "length p = j" "length m = e"
    using split3[OF b1] by blast
  have len1: "length xs = length p + length m + length r" using 1(1) by simp
  have b2: "i - (j + e) + d \<le> length r" using assms 1(2-) len1 by arith
  obtain n k q where 2: "r = n @ k @ q" "length n = i - (j + e)" "length k = d"
    using split3[OF b2] by blast
  have len2: "length r = length n + length k + length q" using 2(1) by simp
  have "rsplice (i - e + length bs) d as ((p @ bs @ n) @ k @ q) = (p @ bs @ n) @ as @ q"
    using 1 2 assms by (intro splice_at) auto
  moreover have "rsplice i d as ((p @ m @ n) @ k @ q) = (p @ m @ n) @ as @ q"
    using 1 2 assms by (intro splice_at) auto
  moreover have "rsplice j e bs (p @ m @ n @ t) = p @ bs @ n @ t" for t
    using 1 by (intro splice_at) auto
  ultimately show ?thesis using 1 2 by simp
qed

lemma splice_staggered:
  assumes "j \<le> i" "i \<le> j + e" "j + e \<le> i + d" "i + d \<le> length xs"
  shows "rsplice (j + length bs) (i + d - (j + e)) as (rsplice j e bs xs) =
         rsplice j (i - j) bs (rsplice i d as xs)"
proof -
  have b1: "j + (i - j) \<le> length xs" using assms by arith
  obtain p m r where 1: "xs = p @ m @ r" "length p = j" "length m = i - j"
    using split3[OF b1] by blast
  have len1: "length xs = length p + length m + length r" using 1(1) by simp
  have b2: "j + e - i \<le> length r" using assms 1(2-) len1 by arith
  obtain n q' where 2: "r = n @ q'" "length n = j + e - i"
    using split2[OF b2] by blast
  have len2: "length r = length n + length q'" using 2(1) by simp
  have b3: "i + d - (j + e) \<le> length q'" using assms 1(2-) 2(2-) len1 len2 by arith
  obtain k q where 3: "q' = k @ q" "length k = i + d - (j + e)"
    using split2[OF b3] by blast
  have len3: "length q' = length k + length q" using 3(1) by simp
  have "rsplice j e bs (p @ (m @ n) @ k @ q) = p @ bs @ k @ q"
    using 1 2 3 assms by (intro splice_at) auto
  moreover have "rsplice (j + length bs) (i + d - (j + e)) as ((p @ bs) @ k @ q) = (p @ bs) @ as @ q"
    using 1 2 3 assms by (intro splice_at) auto
  moreover have "rsplice i d as ((p @ m) @ (n @ k) @ q) = (p @ m) @ as @ q"
    using 1 2 3 assms by (intro splice_at) auto
  moreover have "rsplice j (i - j) bs (p @ m @ as @ q) = p @ bs @ as @ q"
    using 1 2 3 assms by (intro splice_at) auto
  ultimately show ?thesis using 1 2 3 by simp
qed

lemma splice_nested_delete:
  assumes "j \<le> i" "i + d \<le> j + e" "j + e \<le> length xs"
  shows "rsplice (j + length bs) 0 [] (rsplice j e bs xs) = rsplice j (e - d) bs (rsplice i d [] xs)"
proof -
  have b1: "j + (i - j) \<le> length xs" using assms by arith
  obtain p m r where 1: "xs = p @ m @ r" "length p = j" "length m = i - j"
    using split3[OF b1] by blast
  have len1: "length xs = length p + length m + length r" using 1(1) by simp
  have b2: "d \<le> length r" using assms 1(2-) len1 by arith
  obtain n q' where 2: "r = n @ q'" "length n = d"
    using split2[OF b2] by blast
  have len2: "length r = length n + length q'" using 2(1) by simp
  have b3: "j + e - (i + d) \<le> length q'" using assms 1(2-) 2(2-) len1 len2 by arith
  obtain k q where 3: "q' = k @ q" "length k = j + e - (i + d)"
    using split2[OF b3] by blast
  have len3: "length q' = length k + length q" using 3(1) by simp
  have "rsplice j e bs (p @ (m @ n @ k) @ q) = p @ bs @ q"
    using 1 2 3 assms by (intro splice_at) auto
  moreover have "rsplice (j + length bs) 0 [] ((p @ bs) @ [] @ q) = (p @ bs) @ [] @ q"
    using 1 by (intro splice_at) auto
  moreover have "rsplice i d [] ((p @ m) @ n @ (k @ q)) = (p @ m) @ [] @ k @ q"
    using 1 2 3 assms by (intro splice_at) auto
  moreover have "rsplice j (e - d) bs (p @ (m @ k) @ q) = p @ bs @ q"
    using 1 2 3 assms by (intro splice_at) auto
  ultimately show ?thesis using 1 2 3 by simp
qed

text \<open>Two replacements that start at the same place, the second one only deleting.\<close>

lemma splice_same_start:
  assumes "i + d \<le> length xs" "i + e \<le> length xs"
  shows "rsplice i (d - e) as (rsplice i e [] xs) = rsplice (i + length as) (e - d) [] (rsplice i d as xs)"
proof (cases "d \<le> e")
  case True
  have b1: "i + d \<le> length xs" using assms by arith
  obtain p m r where 1: "xs = p @ m @ r" "length p = i" "length m = d"
    using split3[OF b1] by blast
  have len1: "length xs = length p + length m + length r" using 1(1) by simp
  have b2: "e - d \<le> length r" using assms True 1(2-) len1 by arith
  obtain n q where 2: "r = n @ q" "length n = e - d"
    using split2[OF b2] by blast
  have len2: "length r = length n + length q" using 2(1) by simp
  have "rsplice i e [] (p @ (m @ n) @ q) = p @ [] @ q"
    using 1 2 True by (intro splice_at) auto
  moreover have "rsplice i (d - e) as (p @ [] @ q) = p @ as @ q"
    using 1 True by (intro splice_at) auto
  moreover have "rsplice i d as (p @ m @ n @ q) = p @ as @ n @ q"
    using 1 by (intro splice_at) auto
  moreover have "rsplice (i + length as) (e - d) [] ((p @ as) @ n @ q) = (p @ as) @ [] @ q"
    using 1 2 by (intro splice_at) auto
  ultimately show ?thesis using 1 2 by simp
next
  case False
  have b1: "i + e \<le> length xs" using assms by arith
  obtain p m r where 1: "xs = p @ m @ r" "length p = i" "length m = e"
    using split3[OF b1] by blast
  have len1: "length xs = length p + length m + length r" using 1(1) by simp
  have b2: "d - e \<le> length r" using assms False 1(2-) len1 by arith
  obtain n q where 2: "r = n @ q" "length n = d - e"
    using split2[OF b2] by blast
  have len2: "length r = length n + length q" using 2(1) by simp
  have "rsplice i e [] (p @ m @ n @ q) = p @ [] @ n @ q"
    using 1 by (intro splice_at) auto
  moreover have "rsplice i (d - e) as (p @ n @ q) = p @ as @ q"
    using 1 2 by (intro splice_at) auto
  moreover have "rsplice i d as (p @ (m @ n) @ q) = p @ as @ q"
    using 1 2 False by (intro splice_at) auto
  moreover have "rsplice (i + length as) (e - d) [] ((p @ as) @ [] @ q) = (p @ as) @ [] @ q"
    using 1 False by (intro splice_at) auto
  ultimately show ?thesis using 1 2 by simp
qed

section \<open>From code units to code points\<close>

definition op_fits :: "jstext \<Rightarrow> text_replace \<Rightarrow> bool" where
  "op_fits text op \<longleftrightarrow> 0 \<le> tr_index op \<and> 0 \<le> tr_delete op \<and>
     tr_index op + tr_delete op \<le> int (length (chars text)) \<and> wf16 (tr_insert op)"

text \<open>On well-formed text an in-range replacement is \<open>rsplice\<close> on the code points.\<close>

lemma applyReplace_splice:
  assumes "wf16 text" "op_fits text op"
  shows "applyReplace text op =
    concat (rsplice (nat (tr_index op)) (nat (tr_delete op)) (chars (tr_insert op)) (chars text))"
  using assms
  by (simp add: applyReplace_def op_fits_def Let_def js_slice_prefix js_slice_from_nonneg
      rsplice_def nat_add_distrib)

lemma applyReplace_wf_chars:
  assumes "wf16 text" "op_fits text op"
  shows "wf16 (applyReplace text op) \<and> chars (applyReplace text op) =
    rsplice (nat (tr_index op)) (nat (tr_delete op)) (chars (tr_insert op)) (chars text)"
  unfolding applyReplace_splice[OF assms]
proof (rule wf16_concat)
  fix u
  assume "u \<in> set (rsplice (nat (tr_index op)) (nat (tr_delete op)) (chars (tr_insert op)) (chars text))"
  then have "u \<in> set (chars text) \<or> u \<in> set (chars (tr_insert op))"
    by (auto simp: rsplice_def dest: in_set_takeD in_set_dropD)
  with assms show "wf_char u" by (auto simp: op_fits_def intro: wf_char_chars)
qed

lemmas wf16_applyReplace = applyReplace_wf_chars [THEN conjunct1]
lemmas applyReplace_chars = applyReplace_wf_chars [THEN conjunct2]

lemma length_applyReplace:
  "wf16 text \<Longrightarrow> op_fits text op \<Longrightarrow>
   int (length (chars (applyReplace text op))) = int (length (chars text)) - tr_delete op + insertLen op"
proof -
  assume t: "wf16 text" and f: "op_fits text op"
  then have "nat (tr_index op) + nat (tr_delete op) \<le> length (chars text)"
    by (auto simp: op_fits_def)
  with t f show ?thesis
    by (simp add: applyReplace_chars length_rsplice insertLen_def of_nat_diff op_fits_def)
qed

lemma tr_insert_transformReplace [simp]: "tr_insert (transformReplace op against) = tr_insert op"
  by (simp add: transformReplace_def Let_def)

lemma transformReplace_fits:
  assumes "wf16 text" "op_fits text op" "op_fits text against"
  shows "op_fits (applyReplace text against) (transformReplace op against)"
proof -
  have ins: "0 \<le> insertLen against" by (simp add: insertLen_def)
  show ?thesis
    unfolding op_fits_def length_applyReplace[OF assms(1,3)]
    using assms(2,3) ins
    by (auto simp: op_fits_def transformReplace_def Let_def)
qed

text \<open>
  When do the two orders of two concurrent operations give the same text? Not when both
  only insert, at the same place (there is no tie-break); not when one inserts inside
  the other's deleted range; not when both replace text from the same position.
\<close>

definition tp1_safe :: "text_replace \<Rightarrow> text_replace \<Rightarrow> bool" where
  "tp1_safe a b =
     (let aIdx = tr_index a; aDel = tr_delete a; aEnd = aIdx + aDel;
          bIdx = tr_index b; bDel = tr_delete b; bEnd = bIdx + bDel;
          silent = (tr_insert a = [] \<or> tr_insert b = [])
      in if bEnd \<le> aIdx \<or> aEnd \<le> bIdx then \<not> (aIdx = bIdx \<and> aDel = 0 \<and> bDel = 0) \<or> silent
         else if aIdx = bIdx then silent
         else if bIdx < aIdx then bEnd \<le> aEnd \<or> tr_insert a = []
         else aEnd \<le> bEnd \<or> tr_insert b = [])"

definition converges :: "jstext \<Rightarrow> text_replace \<Rightarrow> text_replace \<Rightarrow> bool" where
  "converges text a b \<longleftrightarrow>
     applyReplace (applyReplace text a) (transformReplace b a) =
     applyReplace (applyReplace text b) (transformReplace a b)"

lemma converges_sym: "converges text a b = converges text b a"
  by (auto simp: converges_def)

lemma tp1_safe_sym: "tp1_safe a b = tp1_safe b a"
  by (auto simp: tp1_safe_def Let_def)

lemma converges_iff_splice:
  assumes "wf16 text" "op_fits text a" "op_fits text b"
  shows "converges text a b \<longleftrightarrow>
     rsplice (nat (tr_index (transformReplace b a))) (nat (tr_delete (transformReplace b a)))
       (chars (tr_insert b))
       (rsplice (nat (tr_index a)) (nat (tr_delete a)) (chars (tr_insert a)) (chars text)) =
     rsplice (nat (tr_index (transformReplace a b))) (nat (tr_delete (transformReplace a b)))
       (chars (tr_insert a))
       (rsplice (nat (tr_index b)) (nat (tr_delete b)) (chars (tr_insert b)) (chars text))"
proof -
  have "converges text a b \<longleftrightarrow>
    chars (applyReplace (applyReplace text a) (transformReplace b a)) =
    chars (applyReplace (applyReplace text b) (transformReplace a b))"
    by (simp add: converges_def chars_eq_iff)
  then show ?thesis
    using assms by (simp add: applyReplace_chars wf16_applyReplace transformReplace_fits)
qed

lemma int_op_obtain:
  assumes "op_fits text a"
  obtains i d where "tr_index a = int i" "tr_delete a = int d" "i + d \<le> length (chars text)"
proof
  show "tr_index a = int (nat (tr_index a))" "tr_delete a = int (nat (tr_delete a))"
    "nat (tr_index a) + nat (tr_delete a) \<le> length (chars text)"
    using assms by (auto simp: op_fits_def)
qed

lemma converges_before:
  assumes t: "wf16 text" "op_fits text a" "op_fits text b" and safe: "tp1_safe a b"
    and before: "tr_index b + tr_delete b \<le> tr_index a"
  shows "converges text a b"
proof -
  obtain i d where a: "tr_index a = int i" "tr_delete a = int d" "i + d \<le> length (chars text)"
    using int_op_obtain[OF t(2)] by blast
  obtain j e where b: "tr_index b = int j" "tr_delete b = int e" "j + e \<le> length (chars text)"
    using int_op_obtain[OF t(3)] by blast
  have le: "j + e \<le> i" using before a b by simp
  let ?as = "chars (tr_insert a)" and ?bs = "chars (tr_insert b)"
  have ta: "tr_index (transformReplace a b) = int (i - e + length ?bs)"
    "tr_delete (transformReplace a b) = int d"
    using le a b by (auto simp: transformReplace_def Let_def insertLen_def)
  show ?thesis
  proof (cases "i = j \<and> d = 0")
    case tie: True
    then have e: "e = 0" using le by simp
    with tie safe a b have "tr_insert a = [] \<or> tr_insert b = []" by (simp add: tp1_safe_def Let_def)
    moreover have tb: "tr_index (transformReplace b a) = int (j + length ?as)"
      "tr_delete (transformReplace b a) = 0"
      using tie e a b by (auto simp: transformReplace_def Let_def insertLen_def)
    ultimately show ?thesis
      unfolding converges_iff_splice[OF t] ta tb using tie e a b by (auto simp: rsplice_def)
  next
    case False
    have tb: "tr_index (transformReplace b a) = int j" "tr_delete (transformReplace b a) = int e"
      using False le a b by (auto simp: transformReplace_def Let_def)
    show ?thesis
      unfolding converges_iff_splice[OF t] ta tb
      using splice_disjoint[OF le a(3), of ?bs ?as] a b by (simp only: nat_int)
  qed
qed

lemma converges_overlap:
  assumes t: "wf16 text" "op_fits text a" "op_fits text b" and safe: "tp1_safe a b"
    and over: "tr_index b < tr_index a" "tr_index a < tr_index b + tr_delete b"
  shows "converges text a b"
proof -
  obtain i d where a: "tr_index a = int i" "tr_delete a = int d" "i + d \<le> length (chars text)"
    using int_op_obtain[OF t(2)] by blast
  obtain j e where b: "tr_index b = int j" "tr_delete b = int e" "j + e \<le> length (chars text)"
    using int_op_obtain[OF t(3)] by blast
  have ij: "j < i" "i < j + e" using over a b by auto
  let ?as = "chars (tr_insert a)" and ?bs = "chars (tr_insert b)"
  have ta: "nat (tr_index (transformReplace a b)) = j + length ?bs"
    "nat (tr_delete (transformReplace a b)) = i + d - (j + e)"
    using ij a b by (auto simp: transformReplace_def Let_def insertLen_def nat_add_distrib)
  have tb: "nat (tr_index (transformReplace b a)) = j"
    "nat (tr_delete (transformReplace b a)) = i - j + (j + e - (i + d))"
    using ij a b by (auto simp: transformReplace_def Let_def nat_add_distrib)
  show ?thesis
  proof (cases "j + e \<le> i + d")
    case True
    then show ?thesis
      unfolding converges_iff_splice[OF t] ta tb
      using splice_staggered[of j i e d "chars text" ?bs ?as] ij a b by simp
  next
    case False
    with safe ij a b have "tr_insert a = []"
      by (auto simp: tp1_safe_def Let_def split: if_splits)
    moreover have "i - j + (j + e - (i + d)) = e - d" "i + d - (j + e) = 0" using False ij by auto
    ultimately show ?thesis
      unfolding converges_iff_splice[OF t] ta tb
      using splice_nested_delete[of j i d e "chars text" ?bs] False ij a b by simp
  qed
qed

lemma converges_same_start:
  assumes t: "wf16 text" "op_fits text a" "op_fits text b" and silent: "tr_insert b = []"
    and over: "tr_index a = tr_index b" "0 < tr_delete a" "0 < tr_delete b"
  shows "converges text a b"
proof -
  obtain i d where a: "tr_index a = int i" "tr_delete a = int d" "i + d \<le> length (chars text)"
    using int_op_obtain[OF t(2)] by blast
  obtain e where b: "tr_index b = int i" "tr_delete b = int e" "i + e \<le> length (chars text)"
    using int_op_obtain[OF t(3)] over(1) a by (metis of_nat_eq_iff)
  let ?as = "chars (tr_insert a)"
  have "nat (tr_index (transformReplace a b)) = i" "nat (tr_delete (transformReplace a b)) = d - e"
    "nat (tr_index (transformReplace b a)) = i + length ?as" "nat (tr_delete (transformReplace b a)) = e - d"
    using over silent a b by (auto simp: transformReplace_def Let_def insertLen_def nat_add_distrib)
  then show ?thesis
    unfolding converges_iff_splice[OF t]
    using splice_same_start[OF a(3) b(3), of ?as] silent a b by simp
qed

lemma converges_if_safe:
  assumes "wf16 text" "op_fits text a" "op_fits text b" "tp1_safe a b"
  shows "converges text a b"
proof -
  consider "tr_index b + tr_delete b \<le> tr_index a" | "tr_index a + tr_delete a \<le> tr_index b"
    | "tr_index b < tr_index a" "tr_index a < tr_index b + tr_delete b"
    | "tr_index a < tr_index b" "tr_index b < tr_index a + tr_delete a"
    | "tr_index a = tr_index b" "0 < tr_delete a" "0 < tr_delete b"
    by linarith
  then show ?thesis
  proof cases
    case 1
    then show ?thesis using assms by (intro converges_before)
  next
    case 2
    then show ?thesis using assms converges_before converges_sym tp1_safe_sym by metis
  next
    case 3
    then show ?thesis using assms by (intro converges_overlap)
  next
    case 4
    then show ?thesis using assms converges_overlap converges_sym tp1_safe_sym by metis
  next
    case 5
    with assms(4) have "tr_insert a = [] \<or> tr_insert b = []" by (auto simp: tp1_safe_def Let_def)
    then show ?thesis using 5 assms converges_same_start converges_sym by metis
  qed
qed

section \<open>The scanning loops of the diff\<close>

lemma diff_start_spec:
  "start \<le> length bs \<Longrightarrow> start \<le> length as \<Longrightarrow> take start bs = take start as \<Longrightarrow>
   diff_start bs as start \<le> length bs \<and> diff_start bs as start \<le> length as \<and>
   take (diff_start bs as start) bs = take (diff_start bs as start) as"
proof (induction bs as start rule: diff_start.induct)
  case (1 bs as start)
  show ?case
  proof (cases "start < min (length bs) (length as) \<and> bs ! start = as ! start")
    case True
    then have "take (start + 1) bs = take (start + 1) as"
      using "1.prems"(3) by (simp add: take_Suc_conv_app_nth)
    with True "1.IH" show ?thesis by (simp add: diff_start.simps[of bs as start])
  next
    case False
    then have "diff_start bs as start = start" by (subst diff_start.simps) auto
    with "1.prems" show ?thesis by simp
  qed
qed

lemma diff_ends_spec:
  "diff_ends bs as start x y = (eb, ea) \<Longrightarrow> start \<le> x \<Longrightarrow> start \<le> y \<Longrightarrow> x \<le> length bs \<Longrightarrow>
   y \<le> length as \<Longrightarrow> drop x bs = drop y as \<Longrightarrow>
   start \<le> eb \<and> start \<le> ea \<and> eb \<le> length bs \<and> ea \<le> length as \<and> drop eb bs = drop ea as"
proof (induction bs as start x y arbitrary: eb ea rule: diff_ends.induct)
  case (1 bs as start x y)
  show ?case
  proof (cases "x > start \<and> y > start \<and> bs ! (x - 1) = as ! (y - 1)")
    case True
    then have "drop (x - 1) bs = bs ! (x - 1) # drop x bs" "drop (y - 1) as = as ! (y - 1) # drop y as"
      using "1.prems"(4,5) Cons_nth_drop_Suc[of "x - 1" bs] Cons_nth_drop_Suc[of "y - 1" as] by auto
    with True "1.prems" have d: "drop (x - 1) bs = drop (y - 1) as" by simp
    have eq: "diff_ends bs as start (x - 1) (y - 1) = (eb, ea)"
      using "1.prems"(1) True by (simp add: diff_ends.simps[of bs as start x y])
    show ?thesis
      by (rule "1.IH"[OF True eq]) (use True "1.prems" d in auto)
  next
    case False
    then have "diff_ends bs as start x y = (x, y)" by (subst diff_ends.simps) auto
    with "1.prems" show ?thesis by simp
  qed
qed

section \<open>Rebasing one operation through a queue\<close>

text \<open>
  What a client needs of the transformation when a remote operation arrives while it holds
  a queue of its own operations: concurrent operations converge in the safe cases and stay
  in range. From this the whole queue can be crossed: the remote operation transformed
  through the queue, and every queued operation against the remote one as it stands when it
  reaches that operation, give the same document in both orders.
\<close>

locale concurrent_edits =
  fixes apply1 :: "'t \<Rightarrow> 'o \<Rightarrow> 't"
    and trans :: "'o \<Rightarrow> 'o \<Rightarrow> 'o"
    and fits :: "'t \<Rightarrow> 'o \<Rightarrow> bool"
    and safe :: "'o \<Rightarrow> 'o \<Rightarrow> bool"
  assumes tp1: "fits t a \<Longrightarrow> fits t b \<Longrightarrow> safe a b \<Longrightarrow>
      apply1 (apply1 t a) (trans b a) = apply1 (apply1 t b) (trans a b)"
    and fits_trans: "fits t a \<Longrightarrow> fits t b \<Longrightarrow> fits (apply1 t b) (trans a b)"
begin

fun locals_rebased :: "'o \<Rightarrow> 'o list \<Rightarrow> 'o list" where
  "locals_rebased r [] = []"
| "locals_rebased r (p # ps) = trans p r # locals_rebased (trans r p) ps"

fun crossing_ok :: "'t \<Rightarrow> 'o \<Rightarrow> 'o list \<Rightarrow> bool" where
  "crossing_ok t r [] = True"
| "crossing_ok t r (p # ps) = (fits t p \<and> safe r p \<and> crossing_ok (apply1 t p) (trans r p) ps)"

lemma crossing_converges:
  "fits t r \<Longrightarrow> crossing_ok t r ps \<Longrightarrow>
   apply1 (foldl apply1 t ps) (foldl trans r ps) = foldl apply1 (apply1 t r) (locals_rebased r ps)"
proof (induction ps arbitrary: t r)
  case (Cons p ps)
  then have "fits (apply1 t p) (trans r p)" by (auto intro: fits_trans)
  with Cons have "apply1 (foldl apply1 (apply1 t p) ps) (foldl trans (trans r p) ps) =
      foldl apply1 (apply1 (apply1 t p) (trans r p)) (locals_rebased (trans r p) ps)"
    by simp
  moreover have "apply1 (apply1 t p) (trans r p) = apply1 (apply1 t r) (trans p r)"
    using Cons.prems tp1[of t r p] by simp
  ultimately show ?case by simp
qed simp

lemma fits_crossed: "fits t r \<Longrightarrow> crossing_ok t r ps \<Longrightarrow> fits (foldl apply1 t ps) (foldl trans r ps)"
  by (induction ps arbitrary: t r) (auto intro: fits_trans)

end

definition fits_text :: "jstext \<Rightarrow> text_replace \<Rightarrow> bool" where
  "fits_text t op \<longleftrightarrow> wf16 t \<and> op_fits t op"

interpretation edits: concurrent_edits applyReplace transformReplace fits_text tp1_safe
proof
  show "applyReplace (applyReplace t a) (transformReplace b a) =
        applyReplace (applyReplace t b) (transformReplace a b)"
    if "fits_text t a" "fits_text t b" "tp1_safe a b" for t a b
    using converges_if_safe[of t a b] that by (simp add: fits_text_def converges_def)
  show "fits_text (applyReplace t b) (transformReplace a b)"
    if "fits_text t a" "fits_text t b" for t a b
    using that by (simp add: fits_text_def wf16_applyReplace transformReplace_fits)
qed

lemma transformReplaceThrough_foldl: "transformReplaceThrough op against = foldl transformReplace op against"
  by (induction op against rule: transformReplaceThrough.induct) auto

section \<open>Properties\<close>

definition ascii :: "nat list \<Rightarrow> jstext" where
  "ascii ns = map of_nat ns"

text \<open>C1. Two concurrent replacements, each in range of a well-formed text, give the same
  text in both orders once each is transformed against the other, whenever they are not
  two replacements competing for the same place: disjoint edits, staggered overlaps,
  deletions inside deletions and edits of which one inserts nothing all converge.\<close>

theorem transformReplace_converges:
  assumes "wf16 text" "op_fits text a" "op_fits text b" "tp1_safe a b"
  shows "applyReplace (applyReplace text a) (transformReplace b a) =
         applyReplace (applyReplace text b) (transformReplace a b)"
  using converges_if_safe[OF assms] by (simp add: converges_def)

theorem transformReplace_converges_witness:
  "let text = ascii [97, 98, 99, 100, 101];
       a = \<lparr>tr_index = 1, tr_delete = 2, tr_insert = ascii [120]\<rparr>;
       b = \<lparr>tr_index = 2, tr_delete = 2, tr_insert = ascii [121, 122]\<rparr>
   in applyReplace (applyReplace text a) (transformReplace b a) = ascii [97, 120, 121, 122, 101] \<and>
      applyReplace (applyReplace text b) (transformReplace a b) = ascii [97, 120, 121, 122, 101]"
proof -
  let ?t = "ascii [97, 98, 99, 100, 101]"
  let ?a = "\<lparr>tr_index = 1, tr_delete = 2, tr_insert = ascii [120]\<rparr>"
  let ?b = "\<lparr>tr_index = 2, tr_delete = 2, tr_insert = ascii [121, 122]\<rparr>"
  have "wf16 ?t" "op_fits ?t ?a" "op_fits ?t ?b" "tp1_safe ?a ?b"
    by code_simp+
  note eq = transformReplace_converges[OF this]
  have "applyReplace (applyReplace ?t ?a) (transformReplace ?b ?a) = ascii [97, 120, 121, 122, 101]"
    by code_simp
  with eq show ?thesis by (simp only: Let_def)
qed

text \<open>There is no tie-break: two insertions at the same position converge exactly when
  the inserted strings commute under concatenation, so for any other two strings the
  replicas that applied the two edits in different orders end with different texts.\<close>

theorem transformReplace_tie_converges_iff:
  assumes "wf16 text" "op_fits text a" "op_fits text b"
    and "tr_index a = tr_index b" "tr_delete a = 0" "tr_delete b = 0"
  shows "applyReplace (applyReplace text a) (transformReplace b a) =
         applyReplace (applyReplace text b) (transformReplace a b)
         \<longleftrightarrow> tr_insert a @ tr_insert b = tr_insert b @ tr_insert a"
proof -
  obtain i where i: "tr_index a = int i" "tr_index b = int i" "i \<le> length (chars text)"
    using int_op_obtain[OF assms(2)] assms(4) by (metis add_leD1)
  let ?as = "chars (tr_insert a)" and ?bs = "chars (tr_insert b)"
  have t: "nat (tr_index (transformReplace a b)) = i + length ?bs" "nat (tr_delete (transformReplace a b)) = 0"
    "nat (tr_index (transformReplace b a)) = i + length ?as" "nat (tr_delete (transformReplace b a)) = 0"
    using i assms(5,6) by (auto simp: transformReplace_def Let_def insertLen_def nat_add_distrib)
  have "converges text a b \<longleftrightarrow> ?as @ ?bs = ?bs @ ?as"
    unfolding converges_iff_splice[OF assms(1,2,3)] t using i assms(5,6) by (simp add: rsplice_def)
  also have "\<dots> \<longleftrightarrow> tr_insert a @ tr_insert b = tr_insert b @ tr_insert a"
    using assms(2,3) by (metis chars_append chars_eq_iff op_fits_def)
  finally show ?thesis by (simp add: converges_def)
qed

theorem transformReplace_tie_converges_iff_witness:
  "let text = ascii [97]; a = \<lparr>tr_index = 1, tr_delete = 0, tr_insert = ascii [120]\<rparr>;
       b = \<lparr>tr_index = 1, tr_delete = 0, tr_insert = ascii [121]\<rparr>
   in applyReplace (applyReplace text a) (transformReplace b a) \<noteq>
      applyReplace (applyReplace text b) (transformReplace a b)"
proof -
  let ?t = "ascii [97]"
  let ?a = "\<lparr>tr_index = 1, tr_delete = 0, tr_insert = ascii [120]\<rparr>"
  let ?b = "\<lparr>tr_index = 1, tr_delete = 0, tr_insert = ascii [121]\<rparr>"
  have "wf16 ?t" "op_fits ?t ?a" "op_fits ?t ?b" "tr_index ?a = tr_index ?b"
    "tr_delete ?a = 0" "tr_delete ?b = 0"
    by code_simp+
  from transformReplace_tie_converges_iff[OF this]
  have "(applyReplace (applyReplace ?t ?a) (transformReplace ?b ?a) =
         applyReplace (applyReplace ?t ?b) (transformReplace ?a ?b)) =
        (tr_insert ?a @ tr_insert ?b = tr_insert ?b @ tr_insert ?a)" .
  moreover have "tr_insert ?a @ tr_insert ?b \<noteq> tr_insert ?b @ tr_insert ?a" by code_simp
  ultimately show ?thesis by (simp only: Let_def simp_thms)
qed

text \<open>A transformed operation stays in range: if two operations fit the text, either of
  them, transformed against the other, fits the text the other one produces.\<close>

theorem transformReplace_in_range:
  assumes "wf16 text" "op_fits text op" "op_fits text against"
  shows "op_fits (applyReplace text against) (transformReplace op against)"
  using assms by (rule transformReplace_fits)

theorem transformReplace_in_range_witness:
  "let text = ascii [97, 98, 99]; op = \<lparr>tr_index = 2, tr_delete = 1, tr_insert = []\<rparr>;
       against = \<lparr>tr_index = 0, tr_delete = 3, tr_insert = []\<rparr>
   in op_fits (applyReplace text against) (transformReplace op against) \<and>
      transformReplace op against = \<lparr>tr_index = 0, tr_delete = 0, tr_insert = []\<rparr>"
proof -
  let ?t = "ascii [97, 98, 99]"
  let ?o = "\<lparr>tr_index = 2, tr_delete = 1, tr_insert = []\<rparr>"
  let ?g = "\<lparr>tr_index = 0, tr_delete = 3, tr_insert = []\<rparr>"
  have "wf16 ?t" "op_fits ?t ?o" "op_fits ?t ?g"
    by code_simp+
  from transformReplace_in_range[OF this]
  have "op_fits (applyReplace ?t ?g) (transformReplace ?o ?g)" .
  moreover have "transformReplace ?o ?g = \<lparr>tr_index = 0, tr_delete = 0, tr_insert = []\<rparr>"
    by code_simp
  ultimately show ?thesis by (simp only: Let_def simp_thms)
qed

text \<open>C13. The diff is right: equal texts give no operation, and otherwise applying the computed
  replacement to the old text gives the new text, on any strings at all; the replacement
  stays inside the old text.\<close>

theorem diffPlainText_correct:
  "(case diffPlainText before after of
      None \<Rightarrow> before = after
    | Some op \<Rightarrow> before \<noteq> after \<and> applyReplace before op = after \<and> 0 \<le> tr_index op \<and>
        0 \<le> tr_delete op \<and> tr_index op + tr_delete op \<le> int (length (chars before)))"
proof (cases "before = after")
  case True
  then show ?thesis by (simp add: diffPlainText_def)
next
  case False
  let ?bs = "chars before" and ?as = "chars after"
  define s where "s = diff_start ?bs ?as 0"
  obtain eb ea where e: "diff_ends ?bs ?as s (length ?bs) (length ?as) = (eb, ea)" by fastforce
  have s: "s \<le> length ?bs" "s \<le> length ?as" "take s ?bs = take s ?as"
    using diff_start_spec[of 0 ?bs ?as] by (auto simp: s_def)
  have ends: "s \<le> eb" "s \<le> ea" "eb \<le> length ?bs" "ea \<le> length ?as" "drop eb ?bs = drop ea ?as"
    using diff_ends_spec[OF e] s by auto
  have "?as = take s ?bs @ drop s (take ea ?as) @ drop eb ?bs"
    using s ends by (metis append_take_drop_id append_assoc min.absorb1 take_take)
  then have "after = concat (take s ?bs) @ concat (drop s (take ea ?as)) @ concat (drop eb ?bs)"
    by (metis concat_chars concat_append)
  with False e s ends show ?thesis
    by (simp add: diffPlainText_def s_def[symmetric] applyReplace_def Let_def js_slice_prefix
        js_slice_from_nonneg js_slice_nonneg)
qed

text \<open>Selections and caret offsets follow their text: a code point that survives an in-range
  replacement, other than one pushed right by an insertion exactly in front of it, is found
  at the transformed offset.\<close>

theorem transformOffset_tracks:
  assumes "wf16 text" "op_fits text op" "0 \<le> k" "k < int (length (chars text))"
    and "k < tr_index op \<or> tr_index op < k \<and> tr_index op + tr_delete op \<le> k"
  shows "nth_opt (chars (applyReplace text op)) (transformOffset k op) = nth_opt (chars text) k"
proof -
  obtain i d where op: "tr_index op = int i" "tr_delete op = int d" "i + d \<le> length (chars text)"
    using int_op_obtain[OF assms(2)] by blast
  obtain n where n: "k = int n" using assms(3) nonneg_int_cases by blast
  let ?ins = "chars (tr_insert op)"
  have c: "chars (applyReplace text op) = take i (chars text) @ ?ins @ drop (i + d) (chars text)"
    using applyReplace_chars[OF assms(1,2)] op by (simp add: rsplice_def)
  show ?thesis
  proof (cases "n < i")
    case True
    then have "transformOffset k op = int n" using n op by (simp add: transformOffset_def)
    then show ?thesis using True n op by (simp add: c nth_opt_def nth_append)
  next
    case False
    with assms(5) n op have ge: "i < n" "i + d \<le> n" by auto
    then have "transformOffset k op = int (n - d + length ?ins)"
      using n op by (auto simp: transformOffset_def insertLen_def Let_def)
    moreover have "(take i (chars text) @ ?ins @ drop (i + d) (chars text)) ! (n - d + length ?ins) = chars text ! n"
    proof -
      obtain q where q: "n = i + d + q" using ge le_Suc_ex by blast
      then have "n - d + length ?ins = i + (length ?ins + q)" by simp
      moreover have "q < length (chars text) - (i + d)" using q n assms(4) by linarith
      ultimately show ?thesis using q op by (simp add: nth_append)
    qed
    moreover have "n - d + length ?ins < length (chars (applyReplace text op))"
      using ge n op assms(4) by (simp add: c)
    ultimately have "nth_opt (chars (applyReplace text op)) (transformOffset k op) = Some (chars text ! n)"
      by (simp only: nth_opt_of_nat c)
    then show ?thesis using n assms(4) by simp
  qed
qed

theorem transformOffset_tracks_witness:
  "let text = ascii [97, 98, 99, 100]; op = \<lparr>tr_index = 1, tr_delete = 1, tr_insert = ascii [120, 121]\<rparr>
   in nth_opt (chars (applyReplace text op)) (transformOffset 3 op) = Some (ascii [100])"
proof -
  let ?t = "ascii [97, 98, 99, 100]"
  let ?o = "\<lparr>tr_index = 1, tr_delete = 1, tr_insert = ascii [120, 121]\<rparr>"
  have "wf16 ?t" "op_fits ?t ?o" "0 \<le> (3::int)" "3 < int (length (chars ?t))"
    "3 < tr_index ?o \<or> tr_index ?o < 3 \<and> tr_index ?o + tr_delete ?o \<le> 3"
    by code_simp+
  from transformOffset_tracks[OF this]
  have "nth_opt (chars (applyReplace ?t ?o)) (transformOffset 3 ?o) = nth_opt (chars ?t) 3" .
  moreover have "nth_opt (chars ?t) 3 = Some (ascii [100])" by code_simp
  ultimately show ?thesis by (simp only: Let_def)
qed

text \<open>An operation crosses a whole sequence of operations applied one after the other:
  transforming it through the sequence, or every element of the sequence against the
  operation as it stands when it meets that element, gives the same text, when each
  meeting is of two edits that do not compete for the same place.\<close>

theorem transformReplaceThrough_converges:
  assumes "fits_text text op" "edits.crossing_ok text op against"
  shows "applyReplace (foldl applyReplace text against) (transformReplaceThrough op against) =
         foldl applyReplace (applyReplace text op) (edits.locals_rebased op against)"
  unfolding transformReplaceThrough_foldl using assms by (rule edits.crossing_converges)

definition through_example :: "jstext \<times> text_replace \<times> text_replace list" where
  "through_example = (ascii [97, 98, 99], \<lparr>tr_index = 2, tr_delete = 1, tr_insert = ascii [122]\<rparr>,
     [\<lparr>tr_index = 0, tr_delete = 0, tr_insert = ascii [120]\<rparr>,
      \<lparr>tr_index = 1, tr_delete = 1, tr_insert = []\<rparr>])"

theorem transformReplaceThrough_converges_witness:
  "case through_example of (text, op, against) \<Rightarrow>
     fits_text text op \<and> edits.crossing_ok text op against \<and>
     applyReplace (foldl applyReplace text against) (transformReplaceThrough op against) =
     foldl applyReplace (applyReplace text op) (edits.locals_rebased op against)"
proof -
  have "fits_text (fst through_example) (fst (snd through_example))"
    unfolding fits_text_def by (intro conjI) code_simp+
  moreover have "edits.crossing_ok (fst through_example) (fst (snd through_example)) (snd (snd through_example))"
    by (simp add: through_example_def fits_text_def)
      (intro conjI; code_simp)
  ultimately show ?thesis
    using transformReplaceThrough_converges[of "fst through_example" "fst (snd through_example)" "snd (snd through_example)"]
    by (simp add: case_prod_unfold)
qed

end
