(* ===== verification/CollabClient.thy ===== *)
theory CollabClient
  imports OtText
begin

text \<open>
  \<^verbatim>\<open>frontend/src/lib/collab/client.ts\<close> with the wire types of
  \<^verbatim>\<open>frontend/src/lib/collab/types.ts\<close>: the co-editing client.

  The class's fields are the record \<open>client\<close>. A method, or the part of an async method
  between two awaits, is a function from the client to the new client and the list of its
  effects in order: messages sent, HTTP requests issued, timers set and cleared, callbacks
  called. What arrives later (a socket event, a timer, an HTTP response) is an event, and
  \<open>handle\<close> dispatches it to its handler. Numbers are integers; a payload is an
  association list of primitive JSON values, an object or array standing for itself as
  \<open>JObject\<close>, whose \<open>Number\<close> is not finite. The random id of a new operation and the
  result of the \<open>getFormatCommitPayload\<close> callback are arguments.
\<close>

section \<open>Wire types\<close>

datatype room_kind = Document | Spreadsheet
datatype transport_mode = Ws | Poll

datatype jsval = JNull | JBool bool | JNum int | JStr jstext | JObject

type_synonym payload = "(string \<times> jsval) list"

record participant =
  pt_user_id :: string
  pt_display_name :: string
  pt_color :: string
  pt_last_seen :: int
  pt_presence :: "payload option"
  pt_selection_start :: "int option"
  pt_selection_end :: "int option"
  pt_lock_start :: "int option"
  pt_lock_end :: "int option"
  pt_active_cell :: "string option"
  pt_sheet_name :: "string option"

record domain_snapshot =
  snapshot_seq :: int
  snapshot_data :: payload

text \<open>\<open>op_seq\<close> is \<open>None\<close> when the message's \<open>seq\<close> is not a number.\<close>

record collab_op =
  op_id :: string
  op_seq :: "int option"
  op_user_id :: string
  op_ts :: int
  op_base_seq :: int
  op_type :: string
  op_payload :: payload
  op_client_op_id :: "string option"

record collab_session =
  ses_id :: string
  ses_room_kind :: room_kind
  ses_file_id :: string
  ses_participants :: "participant list option"
  ses_latest_seq :: "int option"
  ses_snapshot :: "domain_snapshot option"
  ses_document_html :: "string option"
  ses_document_text :: "string option"

record public_share_auth =
  psa_token :: string
  psa_share_password :: "string option"
  psa_guest_id :: string

section \<open>State\<close>

record client_options =
  opt_room_kind :: room_kind
  opt_file_id :: string
  opt_display_name :: "string option"
  opt_local_user_id :: "string option"
  opt_public_share :: "public_share_auth option"
  opt_seed :: "payload option"

record pending_op =
  clientOpId :: string
  baseSeq :: int
  opType :: string
  payload :: payload
  inFlight :: bool

text \<open>
  \<open>reconnectTimer\<close> is the handle that the class keeps, the last one \<open>setTimeout\<close> returned; it is not reset
  when the timer fires. \<open>reconnectsArmed\<close> are the reconnect timers that the browser still holds: two
  sockets that close one after the other arm two of them, of which the handle names only the second.
\<close>

datatype ready_state = CONNECTING | OPEN | CLOSING | CLOSED

record client =
  opts :: client_options
  sessionId :: "string option"
  latestSeq :: int
  socket :: "(nat \<times> ready_state) option"
  transport :: transport_mode
  closed :: bool
  reconnectAttempt :: nat
  reconnectTimer :: "nat option"
  reconnectsArmed :: "nat list"
  pollTimer :: bool
  presenceTimer :: bool
  pendingPresence :: "payload option"
  pendingOps :: "pending_op list"
  snapshot :: "domain_snapshot option"
  formatRetryTimer :: bool
  formatRetryArmed :: bool
  socketsMade :: nat
  timersMade :: nat

text \<open>The field initialisers and the constructor.\<close>

definition new_client :: "client_options \<Rightarrow> client" where
  "new_client os = \<lparr>opts = os, sessionId = None, latestSeq = 0, socket = None, transport = Poll,
     closed = False, reconnectAttempt = 0, reconnectTimer = None, reconnectsArmed = [], pollTimer = False,
     presenceTimer = False, pendingPresence = None, pendingOps = [], snapshot = None,
     formatRetryTimer = False, formatRetryArmed = False, socketsMade = 0,
     timersMade = 0\<rparr>"

datatype ws_msg =
    WsOp int string payload string
  | WsSync int
  | WsPing
  | WsHeartbeat payload

datatype timer = ReconnectT | PollT | PresenceT | FormatT

datatype eff =
    Send ws_msg
  | OpenSocket nat
  | CloseSocket
  | PostOp pending_op
  | ListOps int
  | GetSession
  | PostHeartbeat payload
  | JoinRequest
  | SetTimer timer nat
  | ClearTimer timer
  | OnSession collab_session
  | OnParticipants "participant list"
  | OnSnapshot domain_snapshot
  | OnOp collab_op bool
  | OnTransport transport_mode
  | OnError string "string option"

section \<open>Payloads\<close>

definition u_ascii :: "string \<Rightarrow> jstext" where
  "u_ascii s = map of_char s"

definition u_ws :: "u16 \<Rightarrow> bool" where
  "u_ws c \<longleftrightarrow> c = 32 \<or> 9 \<le> c \<and> c \<le> 13 \<or> c = 160 \<or> c = 0xFEFF \<or> c = 0x1680 \<or>
     0x2000 \<le> c \<and> c \<le> 0x200A \<or> c = 0x2028 \<or> c = 0x2029 \<or> c = 0x202F \<or> c = 0x205F \<or> c = 0x3000"

fun dec_value :: "int \<Rightarrow> jstext \<Rightarrow> int option" where
  "dec_value acc [] = Some acc"
| "dec_value acc (c # s) = (if 48 \<le> c \<and> c \<le> 57 then dec_value (10 * acc + uint c - 48) s else None)"

text \<open>
  \<open>Number(s)\<close> of a string: white space is trimmed, the empty string is 0, and signed
  decimal integers have their value. Fractional, exponent and radix literals are outside the
  model's integers and count as not finite.
\<close>

definition number_of_text :: "jstext \<Rightarrow> int option" where
  "number_of_text s =
     (case rev (dropWhile u_ws (rev (dropWhile u_ws s))) of
        [] \<Rightarrow> Some 0
      | [c] \<Rightarrow> dec_value 0 [c]
      | c # d # ds \<Rightarrow>
          if c = 45 then map_option uminus (dec_value 0 (d # ds))
          else if c = 43 then dec_value 0 (d # ds)
          else dec_value 0 (c # d # ds))"

fun js_number :: "jsval option \<Rightarrow> int option" where
  "js_number None = None"
| "js_number (Some JNull) = Some 0"
| "js_number (Some (JBool b)) = Some (if b then 1 else 0)"
| "js_number (Some (JNum n)) = Some n"
| "js_number (Some (JStr s)) = number_of_text s"
| "js_number (Some JObject) = None"

text \<open>\<open>x ?? d\<close>.\<close>

fun nullish_or :: "jsval option \<Rightarrow> jsval \<Rightarrow> jsval" where
  "nullish_or None d = d"
| "nullish_or (Some JNull) d = d"
| "nullish_or (Some v) d = v"

definition parseReplacePayload :: "payload \<Rightarrow> text_replace option" where
  "parseReplacePayload p =
     (let index = js_number (map_of p ''index'');
          del = js_number (Some (nullish_or (map_of p ''delete'') (JNum 0)));
          ins = (case map_of p ''insert'' of Some (JStr s) \<Rightarrow> s | _ \<Rightarrow> [])
      in case (index, del) of
           (Some i, Some d) \<Rightarrow>
             if d = 0 \<and> ins = [] then None
             else Some \<lparr>tr_index = i, tr_delete = d, tr_insert = ins\<rparr>
         | _ \<Rightarrow> None)"

definition replaceToPayload :: "text_replace \<Rightarrow> payload" where
  "replaceToPayload op =
     [(''index'', JNum (tr_index op)), (''delete'', JNum (tr_delete op)), (''insert'', JStr (tr_insert op))]"

text \<open>\<open>Boolean(s)\<close> of an optional string.\<close>

fun truthy :: "string option \<Rightarrow> bool" where
  "truthy None = False"
| "truthy (Some s) = (s \<noteq> [])"

section \<open>Methods\<close>

definition wsSend :: "client \<Rightarrow> ws_msg \<Rightarrow> bool \<times> eff list" where
  "wsSend c m = (case socket c of Some (_, OPEN) \<Rightarrow> (True, [Send m]) | _ \<Rightarrow> (False, []))"

definition pollOpsOnce :: "client \<Rightarrow> eff list" where
  "pollOpsOnce c = (if \<not> truthy (sessionId c) \<or> closed c then [] else [ListOps (latestSeq c)])"

definition pollSessionOnce :: "client \<Rightarrow> eff list" where
  "pollSessionOnce c = (if \<not> truthy (sessionId c) \<or> closed c then [] else [GetSession])"

definition requestSync :: "client \<Rightarrow> eff list" where
  "requestSync c = (let (sent, es) = wsSend c (WsSync (latestSeq c)) in if sent then es else pollOpsOnce c)"

definition startPollFallback :: "client \<Rightarrow> client \<times> eff list" where
  "startPollFallback c =
     (if pollTimer c \<or> closed c then (c, [])
      else let c' = c\<lparr>pollTimer := True\<rparr> in (c', SetTimer PollT 1000 # pollOpsOnce c'))"

definition stopPollFallback :: "client \<Rightarrow> client \<times> eff list" where
  "stopPollFallback c =
     (if pollTimer c then (c\<lparr>pollTimer := False\<rparr>, [ClearTimer PollT]) else (c, []))"

definition setTransport :: "client \<Rightarrow> transport_mode \<Rightarrow> client \<times> eff list" where
  "setTransport c mode =
     (if transport c = mode then (c, [])
      else let c1 = c\<lparr>transport := mode\<rparr>;
               (c2, es) = (if mode = Poll then startPollFallback c1 else stopPollFallback c1)
           in (c2, OnTransport mode # es))"

definition applySession :: "client \<Rightarrow> collab_session \<Rightarrow> client \<times> eff list" where
  "applySession c s =
     (let latest = (case ses_latest_seq s of None \<Rightarrow> 0 | Some n \<Rightarrow> n);
          snap = (case ses_snapshot s of None \<Rightarrow> snapshot c | Some x \<Rightarrow> Some x);
          c' = c\<lparr>sessionId := Some (ses_id s), latestSeq := max (latestSeq c) latest, snapshot := snap\<rparr>
      in (c', [OnSession s,
               OnParticipants (case ses_participants s of None \<Rightarrow> [] | Some ps \<Rightarrow> ps)] @
              (case ses_snapshot s of None \<Rightarrow> [] | Some x \<Rightarrow> [OnSnapshot x])))"

text \<open>\<open>new WebSocket\<close> may throw, which the argument \<open>constructible\<close> says.\<close>

definition connectWs :: "client \<Rightarrow> bool \<Rightarrow> client \<times> eff list" where
  "connectWs c constructible =
     (if closed c \<or> \<not> truthy (sessionId c) then (c, [])
      else if \<not> constructible then setTransport c Poll
      else let n = socketsMade c
           in (c\<lparr>socket := Some (n, CONNECTING), socketsMade := n + 1\<rparr>, [OpenSocket n]))"

definition stop :: "client \<Rightarrow> client \<times> eff list" where
  "stop c =
     (c\<lparr>closed := True, reconnectTimer := None,
        reconnectsArmed := filter (\<lambda>k. Some k \<noteq> reconnectTimer c) (reconnectsArmed c), pollTimer := False, presenceTimer := False,
        formatRetryTimer := False, socket := None, pendingOps := []\<rparr>,
      (if reconnectTimer c \<noteq> None then [ClearTimer ReconnectT] else []) @
      (if pollTimer c then [ClearTimer PollT] else []) @
      (if presenceTimer c then [ClearTimer PresenceT] else []) @
      (if formatRetryTimer c then [ClearTimer FormatT] else []) @
      (if socket c = None then [] else [CloseSocket]))"

definition start :: "client \<Rightarrow> client \<times> eff list" where
  "start c = (c\<lparr>closed := False\<rparr>, [JoinRequest])"

definition submitOp :: "client \<Rightarrow> string \<Rightarrow> payload \<Rightarrow> string \<Rightarrow> client \<times> eff list" where
  "submitOp c typ pl newId =
     (let base = latestSeq c;
          pending = \<lparr>clientOpId = newId, baseSeq = base, opType = typ, payload = pl, inFlight = True\<rparr>;
          (sent, es) = wsSend c (WsOp base typ pl newId);
          c' = c\<lparr>pendingOps := pendingOps c @ [pending]\<rparr>
      in (c', if sent then es else if \<not> truthy (sessionId c) then [] else [PostOp pending]))"

definition updatePresence :: "client \<Rightarrow> payload \<Rightarrow> client \<times> eff list" where
  "updatePresence c pr =
     (let merged = pr @ (case pendingPresence c of None \<Rightarrow> [] | Some old \<Rightarrow> old);
          c1 = c\<lparr>pendingPresence := Some merged\<rparr>;
          (sent, es) = wsSend c1 (WsHeartbeat merged)
      in if sent then (c1\<lparr>pendingPresence := None\<rparr>, es)
         else (c1\<lparr>presenceTimer := True\<rparr>,
               (if presenceTimer c1 then [ClearTimer PresenceT] else []) @ [SetTimer PresenceT 50]))"

text \<open>The start of \<open>flushPresenceHttp\<close>, up to its await.\<close>

definition flushPresenceHttp :: "client \<Rightarrow> client \<times> eff list" where
  "flushPresenceHttp c =
     (case pendingPresence c of
        Some body \<Rightarrow>
          if truthy (sessionId c) then (c\<lparr>pendingPresence := None\<rparr>, [PostHeartbeat body]) else (c, [])
      | None \<Rightarrow> (c, []))"

section \<open>Rebasing\<close>

text \<open>The loops over the pending operations that are replacements with a usable payload.\<close>

definition pending_replace :: "pending_op \<Rightarrow> text_replace option" where
  "pending_replace p = (if opType p \<noteq> ''replace'' then None else parseReplacePayload (payload p))"

fun rebase_remote_loop :: "text_replace \<Rightarrow> pending_op list \<Rightarrow> text_replace" where
  "rebase_remote_loop remote [] = remote"
| "rebase_remote_loop remote (p # ps) =
     (case pending_replace p of
        None \<Rightarrow> rebase_remote_loop remote ps
      | Some l \<Rightarrow> rebase_remote_loop (transformReplace remote l) ps)"

definition rebaseRemoteAgainstPending :: "client \<Rightarrow> collab_op \<Rightarrow> collab_op" where
  "rebaseRemoteAgainstPending c op =
     (if op_type op \<noteq> ''replace'' then op
      else case parseReplacePayload (op_payload op) of
             None \<Rightarrow> op
           | Some remote \<Rightarrow>
               op\<lparr>op_payload := replaceToPayload (rebase_remote_loop remote (pendingOps c))\<rparr>)"

definition rebase_pending :: "text_replace \<Rightarrow> int \<Rightarrow> pending_op \<Rightarrow> pending_op" where
  "rebase_pending remote seq p =
     (case pending_replace p of
        None \<Rightarrow> p
      | Some l \<Rightarrow>
          (let p' = p\<lparr>payload := replaceToPayload (transformReplace l remote)\<rparr>
           in if inFlight p then p' else p'\<lparr>baseSeq := max (baseSeq p) seq\<rparr>))"

definition rebasePendingThroughRemote :: "client \<Rightarrow> collab_op \<Rightarrow> int \<Rightarrow> client" where
  "rebasePendingThroughRemote c op seq =
     (if op_type op \<noteq> ''replace'' then c
      else case parseReplacePayload (op_payload op) of
             None \<Rightarrow> c
           | Some remote \<Rightarrow> c\<lparr>pendingOps := map (rebase_pending remote seq) (pendingOps c)\<rparr>)"

definition ingestOp :: "client \<Rightarrow> collab_op \<Rightarrow> bool \<Rightarrow> client \<times> eff list" where
  "ingestOp c op fromAck =
     (case op_seq op of
        None \<Rightarrow> (c, [])
      | Some seq \<Rightarrow>
          if seq \<le> latestSeq c \<and> \<not> fromAck then (c, [])
          else
            (let isLocal =
                   (truthy (opt_local_user_id (opts c)) \<and>
                    Some (op_user_id op) = opt_local_user_id (opts c)) \<or>
                   (truthy (op_client_op_id op) \<and>
                    (\<exists>p \<in> set (pendingOps c). Some (clientOpId p) = op_client_op_id op));
                 c1 = (if truthy (op_client_op_id op)
                       then c\<lparr>pendingOps :=
                              filter (\<lambda>p. Some (clientOpId p) \<noteq> op_client_op_id op) (pendingOps c)\<rparr>
                       else c);
                 remote = (\<not> isLocal \<and> \<not> fromAck);
                 delivery = (if remote then rebaseRemoteAgainstPending c1 op else op);
                 c2 = (if remote then rebasePendingThroughRemote c1 op seq else c1)
             in (c2\<lparr>latestSeq := max (latestSeq c2) seq\<rparr>, [OnOp delivery (isLocal \<or> fromAck)])))"

fun ingestAll :: "client \<Rightarrow> collab_op list \<Rightarrow> client \<times> eff list" where
  "ingestAll c [] = (c, [])"
| "ingestAll c (op # ops) =
     (let (c1, e1) = ingestOp c op False; (c2, e2) = ingestAll c1 ops in (c2, e1 @ e2))"

definition scheduleFormatCommitRetry :: "client \<Rightarrow> client \<times> eff list" where
  "scheduleFormatCommitRetry c =
     (if formatRetryArmed c \<or> closed c then (c, [])
      else (c\<lparr>formatRetryArmed := True, formatRetryTimer := True\<rparr>,
            (if formatRetryTimer c then [ClearTimer FormatT] else []) @ [SetTimer FormatT 120]))"

definition formatRetryFires :: "client \<Rightarrow> (jstext \<times> jstext) option \<Rightarrow> string \<Rightarrow> client \<times> eff list" where
  "formatRetryFires c commit newId =
     (let c1 = c\<lparr>formatRetryTimer := False, formatRetryArmed := False\<rparr>
      in if closed c1 then (c1, [])
         else case commit of
                None \<Rightarrow> (c1, [])
              | Some (html, text) \<Rightarrow>
                  submitOp c1 ''format_commit'' [(''html'', JStr html), (''text'', JStr text)] newId)"

text \<open>The catch block of \<open>postOpHttp\<close>: the failed operation may be sent again.\<close>

definition then_do ::
    "client \<times> eff list \<Rightarrow> (client \<Rightarrow> client \<times> eff list) \<Rightarrow> client \<times> eff list" where
  "then_do r f = (let (c1, e1) = r; (c2, e2) = f c1 in (c2, e1 @ e2))"

definition diverged_message :: "string \<Rightarrow> bool" where
  "diverged_message m = (let l = js_lower m in
     js_includes ''text diverged'' l \<or> js_includes ''text_mismatch'' l \<or> js_includes ''conflict'' l)"

definition postOpFailed :: "client \<Rightarrow> string \<Rightarrow> string \<Rightarrow> string \<Rightarrow> client \<times> eff list" where
  "postOpFailed c typ cid message =
     then_do
       (if diverged_message message \<and> typ = ''format_commit''
        then then_do (c, requestSync c) scheduleFormatCommitRetry else (c, []))
       (\<lambda>c1. (c1\<lparr>pendingOps := map (\<lambda>p. if clientOpId p = cid then p\<lparr>inFlight := False\<rparr> else p)
                (pendingOps c1)\<rparr>, []))"

section \<open>Socket callbacks\<close>

fun resubmit :: "client \<Rightarrow> pending_op list \<Rightarrow> pending_op list \<times> eff list" where
  "resubmit c [] = ([], [])"
| "resubmit c (p # ps) =
     (let (ps', es') = resubmit c ps
      in if inFlight p then (p # ps', es')
         else let p1 = p\<lparr>baseSeq := latestSeq c\<rparr>;
                  (sent, es) = wsSend c (WsOp (baseSeq p1) (opType p1) (payload p1) (clientOpId p1))
              in ((if sent then p1\<lparr>inFlight := True\<rparr> else p1) # ps', es @ es'))"

definition socket_onopen :: "client \<Rightarrow> nat \<Rightarrow> client \<times> eff list" where
  "socket_onopen c0 n =
     (let c = (case socket c0 of
                 Some (m, _) \<Rightarrow> if m = n then c0\<lparr>socket := Some (n, OPEN)\<rparr> else c0
               | None \<Rightarrow> c0)
      in if closed c then (c, [])
         else then_do (setTransport (c\<lparr>reconnectAttempt := 0\<rparr>) Ws)
           (\<lambda>c1. let e1 = snd (wsSend c1 (WsSync (latestSeq c1)));
                     e2 = snd (wsSend c1 WsPing);
                     (ps, e3) = resubmit c1 (pendingOps c1)
                 in (c1\<lparr>pendingOps := ps\<rparr>, e1 @ e2 @ e3)))"

definition socket_onclose :: "client \<Rightarrow> nat \<Rightarrow> client \<times> eff list" where
  "socket_onclose c0 n =
     (let c = (case socket c0 of
                 Some (m, _) \<Rightarrow> if m = n then c0\<lparr>socket := None\<rparr> else c0
               | None \<Rightarrow> c0)
      in if closed c then (c, [])
         else then_do (setTransport c Poll)
           (\<lambda>c1. let attempt = reconnectAttempt c1 + 1; delay = min 4000 (400 * attempt)
                 in (c1\<lparr>reconnectAttempt := attempt, reconnectTimer := Some (timersMade c1),
                        reconnectsArmed := reconnectsArmed c1 @ [timersMade c1], timersMade := timersMade c1 + 1\<rparr>, [SetTimer ReconnectT delay])))"

record server_msg =
  m_type :: "string option"
  m_op :: "collab_op option"
  m_ops :: "collab_op list option"
  m_session :: "collab_session option"
  m_snapshot :: "domain_snapshot option"
  m_client_op_id :: "string option"
  m_seq :: "int option"
  m_code :: "string option"
  m_message :: "string option"
  m_participants :: "participant list option"

definition session_or_snapshot :: "client \<Rightarrow> server_msg \<Rightarrow> client \<times> eff list" where
  "session_or_snapshot c d =
     (case m_session d of
        Some s \<Rightarrow> applySession c s
      | None \<Rightarrow>
          case m_snapshot d of
            Some x \<Rightarrow> (c\<lparr>snapshot := Some x\<rparr>, [OnSnapshot x])
          | None \<Rightarrow> (c, []))"

definition drop_pending :: "client \<Rightarrow> string option \<Rightarrow> client" where
  "drop_pending c cid =
     (if truthy cid then c\<lparr>pendingOps := filter (\<lambda>p. Some (clientOpId p) \<noteq> cid) (pendingOps c)\<rparr> else c)"

definition handle_error :: "client \<Rightarrow> server_msg \<Rightarrow> client \<times> eff list" where
  "handle_error c d =
     then_do
       (let c1 = drop_pending c (m_client_op_id d)
        in if m_code d = Some ''text_mismatch'' then then_do (c1, requestSync c1) scheduleFormatCommitRetry
           else if m_code d = Some ''locked'' then (c1, requestSync c1) else (c1, []))
       (\<lambda>c2. (c2, case m_message d of
                    Some m \<Rightarrow> if m \<noteq> [] then [OnError m (m_code d)] else []
                  | None \<Rightarrow> []))"

definition handleServerMessage :: "client \<Rightarrow> server_msg \<Rightarrow> client \<times> eff list" where
  "handleServerMessage c d =
     (if m_type d = Some ''hello'' then (c, [])
      else if m_type d = Some ''ack'' \<and> m_seq d \<noteq> None then
        (let c1 = c\<lparr>latestSeq := max (latestSeq c) (the (m_seq d))\<rparr>;
             wasMine = truthy (m_client_op_id d) \<and>
               (\<exists>p \<in> set (pendingOps c1). Some (clientOpId p) = m_client_op_id d);
             c2 = drop_pending c1 (m_client_op_id d)
         in case m_op d of Some op \<Rightarrow> ingestOp c2 op wasMine | None \<Rightarrow> (c2, []))
      else if m_type d = Some ''op'' \<and> m_op d \<noteq> None then
        then_do (ingestOp c (the (m_op d)) False) (\<lambda>c1. session_or_snapshot c1 d)
      else if m_type d = Some ''ops'' \<and> m_ops d \<noteq> None then
        then_do (ingestAll c (the (m_ops d))) (\<lambda>c1. session_or_snapshot c1 d)
      else if m_type d = Some ''presence'' then
        (case m_session d of
           Some s \<Rightarrow> applySession c s
         | None \<Rightarrow> (c, case m_participants d of Some ps \<Rightarrow> [OnParticipants ps] | None \<Rightarrow> []))
      else if m_type d = Some ''error'' then handle_error c d
      else (c, []))"

section \<open>Events\<close>

datatype event =
    Start
  | JoinOk collab_session bool
  | JoinFailed
  | Stop
  | Submit string payload string
  | Presence payload
  | RequestSync
  | SockOpen nat
  | SockClose nat
  | SockMessage server_msg
  | ReconnectFires nat bool
  | PollFires
  | PresenceFires
  | FormatFires "(jstext \<times> jstext) option" string
  | PostOk collab_op
  | PostFailed string string string
  | ListOk "collab_op list"
  | SessionOk collab_session

fun handle :: "client \<Rightarrow> event \<Rightarrow> client \<times> eff list" where
  "handle c Start = start c"
| "handle c (JoinOk s constructible) = then_do (applySession c s) (\<lambda>c1. connectWs c1 constructible)"
| "handle c JoinFailed = (c, [OnError ''Live co-editing unavailable'' None])"
| "handle c Stop = stop c"
| "handle c (Submit typ pl newId) = submitOp c typ pl newId"
| "handle c (Presence pr) = updatePresence c pr"
| "handle c RequestSync = (c, requestSync c)"
| "handle c (SockOpen n) = socket_onopen c n"
| "handle c (SockClose n) = socket_onclose c n"
| "handle c (SockMessage d) = handleServerMessage c d"
| "handle c (ReconnectFires k constructible) =
     connectWs (c\<lparr>reconnectsArmed := remove1 k (reconnectsArmed c)\<rparr>) constructible"
| "handle c PollFires = (c, pollOpsOnce c @ pollSessionOnce c)"
| "handle c PresenceFires = flushPresenceHttp (c\<lparr>presenceTimer := False\<rparr>)"
| "handle c (FormatFires commit newId) = formatRetryFires c commit newId"
| "handle c (PostOk op) = ingestOp c op True"
| "handle c (PostFailed typ cid message) = postOpFailed c typ cid message"
| "handle c (ListOk ops) = ingestAll c ops"
| "handle c (SessionOk s) = applySession c s"

definition next_client :: "client \<Rightarrow> event \<Rightarrow> client" where
  "next_client c e = fst (handle c e)"

fun run :: "client \<Rightarrow> event list \<Rightarrow> client \<times> eff list" where
  "run c [] = (c, [])"
| "run c (e # es) = then_do (handle c e) (\<lambda>c1. run c1 es)"

section \<open>Lemmas\<close>

named_theorems client_defs \<open>the methods that never touch sequence numbers\<close>

declare then_do_def [client_defs] setTransport_def [client_defs] startPollFallback_def [client_defs]
  stopPollFallback_def [client_defs] connectWs_def [client_defs] start_def [client_defs]
  stop_def [client_defs] updatePresence_def [client_defs] flushPresenceHttp_def [client_defs]
  scheduleFormatCommitRetry_def [client_defs] requestSync_def [client_defs]
  pollOpsOnce_def [client_defs] pollSessionOnce_def [client_defs] wsSend_def [client_defs]
  drop_pending_def [client_defs] Let_def [client_defs]

lemma fst_then_do: "fst (then_do r f) = fst (f (fst r))"
  by (simp add: then_do_def Let_def case_prod_unfold)

lemma snd_then_do: "snd (then_do r f) = snd r @ snd (f (fst r))"
  by (simp add: then_do_def Let_def case_prod_unfold)

lemma run_append: "run c (xs @ ys) = then_do (run c xs) (\<lambda>c1. run c1 ys)"
  by (induction xs arbitrary: c) (auto simp: then_do_def Let_def case_prod_unfold)

subsection \<open>Sequence numbers\<close>

lemma latestSeq_setTransport [simp]: "latestSeq (fst (setTransport c m)) = latestSeq c"
  by (simp add: client_defs case_prod_unfold)

lemma latestSeq_connectWs [simp]: "latestSeq (fst (connectWs c b)) = latestSeq c"
  by (simp add: connectWs_def Let_def)

lemma latestSeq_submitOp [simp]: "latestSeq (fst (submitOp c t p n)) = latestSeq c"
  by (simp add: submitOp_def Let_def case_prod_unfold)

lemma latestSeq_updatePresence [simp]: "latestSeq (fst (updatePresence c p)) = latestSeq c"
  by (simp add: updatePresence_def Let_def case_prod_unfold)

lemma latestSeq_schedule [simp]: "latestSeq (fst (scheduleFormatCommitRetry c)) = latestSeq c"
  by (simp add: scheduleFormatCommitRetry_def)

lemma latestSeq_drop_pending [simp]: "latestSeq (drop_pending c x) = latestSeq c"
  by (simp add: drop_pending_def)

lemma latestSeq_rebase [simp]: "latestSeq (rebasePendingThroughRemote c op q) = latestSeq c"
  by (simp add: rebasePendingThroughRemote_def split: option.split)

lemma latestSeq_applySession: "latestSeq c \<le> latestSeq (fst (applySession c s))"
  by (simp add: applySession_def Let_def)

lemma ingestOp_latestSeq:
  "latestSeq (fst (ingestOp c op a)) =
     (case op_seq op of None \<Rightarrow> latestSeq c
      | Some q \<Rightarrow> if q \<le> latestSeq c \<and> \<not> a then latestSeq c else max (latestSeq c) q)"
  by (simp add: ingestOp_def Let_def split: option.split)

lemma latestSeq_ingestOp: "latestSeq c \<le> latestSeq (fst (ingestOp c op a))"
  by (simp add: ingestOp_latestSeq split: option.split)

lemma latestSeq_ingestAll: "latestSeq c \<le> latestSeq (fst (ingestAll c ops))"
proof (induction ops arbitrary: c)
  case (Cons op ops)
  have "latestSeq c \<le> latestSeq (fst (ingestOp c op False))" by (rule latestSeq_ingestOp)
  also have "\<dots> \<le> latestSeq (fst (ingestAll (fst (ingestOp c op False)) ops))" by (rule Cons.IH)
  finally show ?case by (simp add: Let_def case_prod_unfold)
qed simp

lemma latestSeq_session_or_snapshot: "latestSeq c \<le> latestSeq (fst (session_or_snapshot c d))"
  by (simp add: session_or_snapshot_def latestSeq_applySession split: option.split)

lemma latestSeq_handle_error [simp]: "latestSeq (fst (handle_error c d)) = latestSeq c"
  by (simp add: handle_error_def fst_then_do Let_def)

lemma latestSeq_handleServerMessage: "latestSeq c \<le> latestSeq (fst (handleServerMessage c d))"
proof -
  have ack: "latestSeq c \<le> latestSeq (fst (ingestOp (drop_pending (c\<lparr>latestSeq := max (latestSeq c) n\<rparr>) i) op a))"
    for n i op a
    using latestSeq_ingestOp[of "drop_pending (c\<lparr>latestSeq := max (latestSeq c) n\<rparr>) i" op a] by simp
  show ?thesis
    by (auto simp: handleServerMessage_def fst_then_do Let_def ack latestSeq_applySession
        intro: order_trans[OF latestSeq_ingestOp latestSeq_session_or_snapshot]
          order_trans[OF latestSeq_ingestAll latestSeq_session_or_snapshot]
        split: option.split)
qed

lemma latestSeq_socket_onopen [simp]: "latestSeq (fst (socket_onopen c n)) = latestSeq c"
  by (auto simp: socket_onopen_def Let_def fst_then_do case_prod_unfold split: option.split prod.split)

lemma latestSeq_socket_onclose [simp]: "latestSeq (fst (socket_onclose c n)) = latestSeq c"
  by (auto simp: socket_onclose_def Let_def fst_then_do split: option.split prod.split)

lemma latestSeq_handle: "latestSeq c \<le> latestSeq (fst (handle c e))"
proof (cases e)
  case (FormatFires m n)
  then show ?thesis by (cases m) (auto simp: formatRetryFires_def Let_def)
next
  case (PostFailed t i m)
  then show ?thesis by (simp add: postOpFailed_def fst_then_do)
qed (simp_all add: latestSeq_applySession latestSeq_ingestOp latestSeq_ingestAll
      latestSeq_handleServerMessage fst_then_do start_def stop_def flushPresenceHttp_def split: option.split)

lemma latestSeq_run: "latestSeq c \<le> latestSeq (fst (run c es))"
proof (induction es arbitrary: c)
  case (Cons e es)
  then show ?case using latestSeq_handle[of c e] by (simp add: fst_then_do) (meson order_trans)
qed simp

subsection \<open>Remote deliveries\<close>

text \<open>The sequence numbers of the operations handed to the editor as another user's.\<close>

definition remote_seq :: "eff \<Rightarrow> int list" where
  "remote_seq e = (case e of
     OnOp op echo \<Rightarrow> if echo then [] else (case op_seq op of Some q \<Rightarrow> [q] | None \<Rightarrow> [])
   | _ \<Rightarrow> [])"

definition remote_seqs :: "eff list \<Rightarrow> int list" where
  "remote_seqs es = concat (map remote_seq es)"

lemma remote_seqs_simps [simp]:
  "remote_seqs [] = []"
  "remote_seqs (e # es) = remote_seq e @ remote_seqs es"
  "remote_seqs (es @ fs) = remote_seqs es @ remote_seqs fs"
  by (simp_all add: remote_seqs_def)

lemma remote_seq_other [simp]:
  "remote_seq (Send m) = []" "remote_seq (OpenSocket n) = []" "remote_seq CloseSocket = []"
  "remote_seq (PostOp p) = []" "remote_seq (ListOps q) = []" "remote_seq GetSession = []"
  "remote_seq (PostHeartbeat b) = []" "remote_seq JoinRequest = []" "remote_seq (SetTimer t d) = []"
  "remote_seq (ClearTimer t) = []" "remote_seq (OnSession ss) = []" "remote_seq (OnParticipants ps) = []"
  "remote_seq (OnSnapshot x) = []" "remote_seq (OnTransport tm) = []" "remote_seq (OnError em cd) = []"
  "remote_seq (OnOp op True) = []"
  by (simp_all add: remote_seq_def)

definition ordered_step :: "client \<Rightarrow> client \<times> eff list \<Rightarrow> bool" where
  "ordered_step c r \<longleftrightarrow> latestSeq c \<le> latestSeq (fst r) \<and> sorted_wrt (<) (remote_seqs (snd r)) \<and>
     (\<forall>q \<in> set (remote_seqs (snd r)). latestSeq c < q \<and> q \<le> latestSeq (fst r))"

lemma ordered_step_then:
  assumes "ordered_step c r" "ordered_step (fst r) (f (fst r))"
  shows "ordered_step c (then_do r f)"
  using assms unfolding ordered_step_def fst_then_do snd_then_do
  by (auto simp: sorted_wrt_append) (metis dual_order.strict_trans2 order_trans)+

lemma ordered_step_silent:
  "latestSeq c \<le> latestSeq (fst r) \<Longrightarrow> remote_seqs (snd r) = [] \<Longrightarrow> ordered_step c r"
  by (simp add: ordered_step_def)

lemma silent_methods [simp]:
  "remote_seqs (snd (wsSend c m)) = []"
  "remote_seqs (pollOpsOnce c) = []"
  "remote_seqs (pollSessionOnce c) = []"
  "remote_seqs (requestSync c) = []"
  "remote_seqs (snd (setTransport c tm)) = []"
  "remote_seqs (snd (connectWs c b)) = []"
  "remote_seqs (snd (submitOp c t p n)) = []"
  "remote_seqs (snd (updatePresence c p)) = []"
  "remote_seqs (snd (flushPresenceHttp c)) = []"
  "remote_seqs (snd (scheduleFormatCommitRetry c)) = []"
  "remote_seqs (snd (applySession c s)) = []"
  "remote_seqs (snd (session_or_snapshot c d)) = []"
  by (auto simp: client_defs submitOp_def applySession_def session_or_snapshot_def case_prod_unfold
      split: option.split ready_state.split prod.split)

lemma silent_resubmit [simp]: "remote_seqs (snd (resubmit c ps)) = []"
  by (induction ps) (auto simp: Let_def case_prod_unfold)

lemma op_seq_rebase [simp]: "op_seq (rebaseRemoteAgainstPending c op) = op_seq op"
  by (simp add: rebaseRemoteAgainstPending_def split: option.split)

lemma ordered_ingestOp: "ordered_step c (ingestOp c op a)"
proof (cases "op_seq op")
  case None
  then show ?thesis by (simp add: ordered_step_def ingestOp_def)
next
  case (Some q)
  show ?thesis
  proof (cases "q \<le> latestSeq c \<and> \<not> a")
    case True
    then show ?thesis using Some by (simp add: ordered_step_def ingestOp_def)
  next
    case False
    then show ?thesis
      using Some by (auto simp: ordered_step_def ingestOp_def Let_def remote_seq_def)
  qed
qed

lemma ordered_ingestAll: "ordered_step c (ingestAll c ops)"
proof (induction ops arbitrary: c)
  case Nil
  then show ?case by (simp add: ordered_step_def)
next
  case (Cons op ops)
  have "ingestAll c (op # ops) = then_do (ingestOp c op False) (\<lambda>c1. ingestAll c1 ops)"
    by (simp add: then_do_def)
  then show ?case by (simp add: ordered_step_then ordered_ingestOp Cons.IH)
qed

lemma ordered_session_or_snapshot: "ordered_step c (session_or_snapshot c d)"
  by (rule ordered_step_silent) (simp_all add: latestSeq_session_or_snapshot)

lemma ordered_applySession: "ordered_step c (applySession c s)"
  by (rule ordered_step_silent) (simp_all add: latestSeq_applySession)

lemma ordered_step_raise: "ordered_step c1 r \<Longrightarrow> latestSeq c \<le> latestSeq c1 \<Longrightarrow> ordered_step c r"
  by (fastforce simp: ordered_step_def)

lemma ordered_handle_error: "ordered_step c (handle_error c d)"
proof (rule ordered_step_silent)
  show "latestSeq c \<le> latestSeq (fst (handle_error c d))" by simp
  show "remote_seqs (snd (handle_error c d)) = []"
    by (auto simp: handle_error_def snd_then_do Let_def split: option.split)
qed

lemma ordered_handleServerMessage: "ordered_step c (handleServerMessage c d)"
proof -
  have ack: "ordered_step c (ingestOp (drop_pending (c\<lparr>latestSeq := max (latestSeq c) n\<rparr>) i) op a)" for n i op a
    by (rule ordered_step_raise[OF ordered_ingestOp]) simp
  have silent: "ordered_step c (drop_pending (c\<lparr>latestSeq := max (latestSeq c) n\<rparr>) i, [])" for n i
    by (rule ordered_step_silent) auto
  have same: "ordered_step c (c, es)" if "remote_seqs es = []" for es
    using that by (intro ordered_step_silent) auto
  show ?thesis
    unfolding handleServerMessage_def Let_def
    by (auto split: option.split
        intro!: ack silent same ordered_applySession ordered_handle_error
          ordered_step_then ordered_ingestOp ordered_ingestAll ordered_session_or_snapshot)
qed

lemma silent_socket_onopen: "remote_seqs (snd (socket_onopen c n)) = []"
  by (auto simp: socket_onopen_def Let_def snd_then_do case_prod_unfold split: option.split prod.split)

lemma silent_socket_onclose: "remote_seqs (snd (socket_onclose c n)) = []"
  by (auto simp: socket_onclose_def Let_def snd_then_do split: option.split prod.split)

lemma ordered_handle: "ordered_step c (handle c e)"
proof (cases e)
  case (JoinOk s b)
  have "ordered_step c1 (connectWs c1 b)" for c1 by (rule ordered_step_silent) simp_all
  then show ?thesis using JoinOk by (auto intro: ordered_step_then ordered_applySession)
next
  case (FormatFires m n)
  then show ?thesis
    by (cases m) (auto simp: formatRetryFires_def Let_def intro!: ordered_step_silent)
next
  case (PostFailed t i m)
  then show ?thesis
    by (auto simp: postOpFailed_def snd_then_do fst_then_do Let_def intro!: ordered_step_silent)
next
  case Stop
  then show ?thesis by (auto simp: stop_def intro!: ordered_step_silent)
next
  case (SockOpen n)
  then show ?thesis by (auto simp: silent_socket_onopen intro!: ordered_step_silent)
next
  case (SockClose n)
  then show ?thesis by (auto simp: silent_socket_onclose intro!: ordered_step_silent)
next
  case PresenceFires
  then show ?thesis
    by (auto simp: flushPresenceHttp_def intro!: ordered_step_silent split: option.split)
qed (auto simp: start_def intro!: ordered_applySession ordered_ingestOp ordered_ingestAll
      ordered_handleServerMessage ordered_step_silent)

lemma ordered_run: "ordered_step c (run c es)"
proof (induction es arbitrary: c)
  case Nil
  then show ?case by (simp add: ordered_step_def)
next
  case (Cons e es)
  then show ?case by (simp add: ordered_step_then ordered_handle)
qed

subsection \<open>What the client asks for\<close>

definition asks :: "eff \<Rightarrow> int option" where
  "asks e = (case e of ListOps q \<Rightarrow> Some q
     | Send m \<Rightarrow> (case m of WsSync q \<Rightarrow> Some q | _ \<Rightarrow> None)
     | _ \<Rightarrow> None)"

definition asks_from :: "int \<Rightarrow> eff list \<Rightarrow> bool" where
  "asks_from n es \<longleftrightarrow> (\<forall>e \<in> set es. \<forall>q. asks e = Some q \<longrightarrow> n \<le> q)"

lemma asks_from_simps [simp]:
  "asks_from n []"
  "asks_from n (e # es) = ((\<forall>q. asks e = Some q \<longrightarrow> n \<le> q) \<and> asks_from n es)"
  "asks_from n (es @ fs) = (asks_from n es \<and> asks_from n fs)"
  by (auto simp: asks_from_def)

lemma asks_simps [simp]:
  "asks (ListOps q) = Some q" "asks (Send (WsSync q)) = Some q" "asks (Send WsPing) = None"
  "asks (Send (WsOp b t p i)) = None" "asks (Send (WsHeartbeat hb)) = None"
  "asks (OpenSocket n) = None" "asks CloseSocket = None" "asks (PostOp po) = None" "asks GetSession = None"
  "asks (PostHeartbeat hb) = None" "asks JoinRequest = None" "asks (SetTimer tt d) = None"
  "asks (ClearTimer tt) = None" "asks (OnSession ss) = None" "asks (OnParticipants ps) = None"
  "asks (OnSnapshot x) = None" "asks (OnTransport tm) = None" "asks (OnError em cd) = None"
  "asks (OnOp op echo) = None"
  by (simp_all add: asks_def)

lemma asks_from_mono: "asks_from n es \<Longrightarrow> m \<le> n \<Longrightarrow> asks_from m es"
  by (meson asks_from_def order_trans)

lemma asks_methods [simp]:
  "asks_from (latestSeq c) (pollOpsOnce c)"
  "asks_from n (pollSessionOnce c)"
  "asks_from (latestSeq c) (requestSync c)"
  "asks_from (latestSeq c) (snd (setTransport c tm))"
  "asks_from (latestSeq c) (snd (connectWs c b))"
  "asks_from n (snd (submitOp c t p i))"
  "asks_from n (snd (updatePresence c p))"
  "asks_from n (snd (flushPresenceHttp c))"
  "asks_from n (snd (scheduleFormatCommitRetry c))"
  "asks_from n (snd (applySession c s))"
  "asks_from n (snd (session_or_snapshot c d))"
  by (auto simp: client_defs submitOp_def applySession_def session_or_snapshot_def case_prod_unfold
      split: option.split ready_state.split prod.split)

lemma asks_resubmit [simp]: "asks_from n (snd (resubmit c ps))"
  by (induction ps) (auto simp: Let_def case_prod_unfold wsSend_def split: option.split ready_state.split)

lemma asks_ingestOp [simp]: "asks_from n (snd (ingestOp c op a))"
  by (simp add: ingestOp_def Let_def split: option.split)

lemma asks_ingestAll [simp]: "asks_from n (snd (ingestAll c ops))"
  by (induction ops arbitrary: c) (auto simp: Let_def case_prod_unfold)

lemma requestSync_cong: "latestSeq c' = n \<Longrightarrow> asks_from n (requestSync c')"
  by auto

lemma asks_handle_error: "asks_from (latestSeq c) (snd (handle_error c d))"
  by (auto simp: handle_error_def snd_then_do Let_def intro!: requestSync_cong split: option.split)

lemma asks_handleServerMessage: "asks_from (latestSeq c) (snd (handleServerMessage c d))"
  by (auto simp: handleServerMessage_def snd_then_do Let_def asks_handle_error split: option.split)

lemma asks_wsSend_sync: "asks_from (latestSeq c) (snd (wsSend c (WsSync (latestSeq c))))"
  by (auto simp: wsSend_def split: option.split ready_state.split prod.split)

lemma asks_wsSend_ping: "asks_from n (snd (wsSend c WsPing))"
  by (auto simp: wsSend_def split: option.split ready_state.split prod.split)

lemma asks_socket_onopen: "asks_from (latestSeq c) (snd (socket_onopen c n))"
proof -
  define d where "d = (case socket c of Some (m, _) \<Rightarrow> if m = n then c\<lparr>socket := Some (n, OPEN)\<rparr> else c | None \<Rightarrow> c)"
  have "latestSeq d = latestSeq c" by (auto simp: d_def split: option.split prod.split)
  then show ?thesis
    using asks_methods(4)[of "d\<lparr>reconnectAttempt := 0\<rparr>" Ws]
      asks_wsSend_sync[of "fst (setTransport (d\<lparr>reconnectAttempt := 0\<rparr>) Ws)"]
    by (simp add: socket_onopen_def d_def[symmetric] Let_def snd_then_do case_prod_unfold asks_wsSend_ping)
qed

lemma asks_socket_onclose: "asks_from (latestSeq c) (snd (socket_onclose c n))"
proof -
  define d where "d = (case socket c of Some (m, _) \<Rightarrow> if m = n then c\<lparr>socket := None\<rparr> else c | None \<Rightarrow> c)"
  have "latestSeq d = latestSeq c" by (auto simp: d_def split: option.split prod.split)
  then show ?thesis
    using asks_methods(4)[of d Poll]
    by (simp add: socket_onclose_def d_def[symmetric] Let_def snd_then_do)
qed

lemma asks_handle: "asks_from (latestSeq c) (snd (handle c e))"
proof (cases e)
  case (ReconnectFires k b)
  then show ?thesis using asks_methods(5)[of "c\<lparr>reconnectsArmed := remove1 k (reconnectsArmed c)\<rparr>" b] by simp
next
  case (JoinOk s b)
  then show ?thesis
    using asks_from_mono[OF asks_methods(5) latestSeq_applySession, of c s b] by (simp add: snd_then_do)
next
  case (FormatFires m n)
  then show ?thesis by (cases m) (auto simp: formatRetryFires_def Let_def)
next
  case (PostFailed t i m)
  then show ?thesis by (auto simp: postOpFailed_def snd_then_do Let_def)
next
  case (SockClose n)
  then show ?thesis by (simp add: asks_socket_onclose)
qed (simp_all add: start_def stop_def asks_socket_onopen asks_handleServerMessage)

lemma asks_run: "asks_from (latestSeq c) (snd (run c es))"
proof (induction es arbitrary: c)
  case (Cons e es)
  then show ?case
    using asks_handle[of c e] asks_from_mono[OF Cons.IH latestSeq_handle] by (simp add: snd_then_do)
qed simp

section \<open>Which events can arrive\<close>

fun can_arrive :: "client \<Rightarrow> event \<Rightarrow> bool" where
  "can_arrive c (ReconnectFires k b) = (k \<in> set (reconnectsArmed c))"
| "can_arrive c PollFires = pollTimer c"
| "can_arrive c PresenceFires = presenceTimer c"
| "can_arrive c (FormatFires m n) = formatRetryTimer c"
| "can_arrive c (SockOpen n) = (n < socketsMade c)"
| "can_arrive c (SockClose n) = (n < socketsMade c)"
| "can_arrive c e = True"

fun user_call :: "event \<Rightarrow> bool" where
  "user_call Start = True"
| "user_call Stop = True"
| "user_call (Submit t p n) = True"
| "user_call (Presence p) = True"
| "user_call RequestSync = True"
| "user_call e = False"

definition late_event :: "client \<Rightarrow> event \<Rightarrow> bool" where
  "late_event c e \<longleftrightarrow> can_arrive c e \<and> \<not> user_call e"

definition quiet :: "client \<Rightarrow> bool" where
  "quiet c \<longleftrightarrow> closed c \<and> socket c = None \<and> pendingOps c = [] \<and>
     \<not> pollTimer c \<and> \<not> presenceTimer c \<and> \<not> formatRetryTimer c"

fun network :: "eff \<Rightarrow> bool" where
  "network (Send m) = True"
| "network (OpenSocket n) = True"
| "network (PostOp p) = True"
| "network (ListOps q) = True"
| "network GetSession = True"
| "network (PostHeartbeat b) = True"
| "network JoinRequest = True"
| "network (SetTimer t d) = True"
| "network e = False"

definition silent_step :: "client \<times> eff list \<Rightarrow> bool" where
  "silent_step r \<longleftrightarrow> quiet (fst r) \<and> \<not> list_ex network (snd r)"

lemma silent_then: "silent_step r \<Longrightarrow> silent_step (f (fst r)) \<Longrightarrow> silent_step (then_do r f)"
  by (simp add: silent_step_def fst_then_do snd_then_do)

lemma silent_same: "quiet c \<Longrightarrow> \<not> list_ex network es \<Longrightarrow> silent_step (c, es)"
  by (simp add: silent_step_def)

lemma silent_ingestOp: "quiet c \<Longrightarrow> silent_step (ingestOp c op a)"
  by (auto simp: silent_step_def quiet_def ingestOp_def Let_def rebasePendingThroughRemote_def split: option.split)

lemma silent_ingestAll: "quiet c \<Longrightarrow> silent_step (ingestAll c ops)"
proof (induction ops arbitrary: c)
  case (Cons op ops)
  then have "quiet (fst (ingestOp c op False))" using silent_ingestOp by (simp add: silent_step_def)
  with Cons silent_ingestOp[of c op False] show ?case
    by (auto simp: silent_step_def Let_def case_prod_unfold)
qed (simp add: silent_same)

lemma silent_applySession: "quiet c \<Longrightarrow> silent_step (applySession c s)"
  by (auto simp: silent_step_def quiet_def applySession_def Let_def split: option.split)

lemma quiet_frames [simp]:
  "quiet (c\<lparr>latestSeq := n\<rparr>) = quiet c"
  "quiet (c\<lparr>snapshot := x\<rparr>) = quiet c"
  "quiet (c\<lparr>sessionId := sid\<rparr>) = quiet c"
  "quiet c \<Longrightarrow> quiet (drop_pending c i)"
  by (simp_all add: quiet_def drop_pending_def)

lemma silent_session_or_snapshot: "quiet c \<Longrightarrow> silent_step (session_or_snapshot c d)"
  by (auto simp: session_or_snapshot_def intro!: silent_applySession silent_same split: option.split)

lemma quiet_requestSync [simp]: "quiet c \<Longrightarrow> requestSync c = []"
  by (simp add: quiet_def requestSync_def wsSend_def pollOpsOnce_def)

lemma quiet_schedule [simp]: "quiet c \<Longrightarrow> scheduleFormatCommitRetry c = (c, [])"
  by (simp add: quiet_def scheduleFormatCommitRetry_def)

lemma silent_handle_error:
  assumes "quiet c"
  shows "silent_step (handle_error c d)"
  using assms unfolding handle_error_def Let_def
  by (auto simp: then_do_def silent_step_def split: option.split)

lemma silent_handleServerMessage:
  assumes "quiet c"
  shows "silent_step (handleServerMessage c d)"
proof -
  have step: "silent_step (then_do r (\<lambda>c1. session_or_snapshot c1 d))" if "silent_step r" for r
    using that by (intro silent_then silent_session_or_snapshot) (simp_all add: silent_step_def)
  show ?thesis
    unfolding handleServerMessage_def Let_def
    using assms
    by (auto intro!: step silent_same silent_ingestOp silent_ingestAll silent_applySession
        silent_handle_error split: option.split)
qed

lemma quiet_socket_onclose:
  "quiet c \<Longrightarrow> silent_step (socket_onclose c n)"
  by (simp add: socket_onclose_def silent_same quiet_def)

lemma quiet_socket_onopen:
  "quiet c \<Longrightarrow> silent_step (socket_onopen c n)"
  by (simp add: socket_onopen_def silent_same quiet_def)

lemma silent_connectWs: "quiet c \<Longrightarrow> silent_step (connectWs c b)"
  by (simp add: connectWs_def silent_step_def quiet_def)

lemma silent_handle:
  assumes "quiet c" "late_event c e"
  shows "silent_step (handle c e)"
proof (cases e)
  case (JoinOk s b)
  have "silent_step (then_do (applySession c s) (\<lambda>c1. connectWs c1 b))"
    using assms silent_applySession[of c s] by (intro silent_then silent_connectWs) (simp_all add: silent_step_def)
  then show ?thesis using JoinOk by simp
next
  case (ReconnectFires k b)
  have "quiet (c\<lparr>reconnectsArmed := remove1 k (reconnectsArmed c)\<rparr>)" using assms(1) by (simp add: quiet_def)
  with ReconnectFires show ?thesis using silent_connectWs by simp
next
  case (PostFailed t i m)
  then show ?thesis
    using assms by (auto simp: postOpFailed_def then_do_def silent_step_def) (simp_all add: quiet_def)
qed (use assms in \<open>auto simp: late_event_def quiet_def silent_same
      intro: silent_applySession silent_ingestOp silent_ingestAll silent_handleServerMessage
        quiet_socket_onopen quiet_socket_onclose\<close>)

lemma quiet_stop: "quiet (fst (stop c))"
  by (simp add: stop_def quiet_def)

end
