(* ===== verification/CollabProps.thy ===== *)
theory CollabProps
  imports CollabClient
begin

text \<open>
  What the co-editing client guarantees, over \<open>CollabClient\<close>: the order of deliveries,
  convergence of the editor's text with the server's, what a stopped client may still do,
  and the cases in which an operation, a retry or the polling fallback is lost.
\<close>

section \<open>Machines over the client's events\<close>

definition no_open :: "client \<Rightarrow> event \<Rightarrow> bool" where
  "no_open c e \<longleftrightarrow> can_arrive c e \<and> (case e of SockOpen n \<Rightarrow> False | _ \<Rightarrow> True)"

definition never_polled :: "client \<Rightarrow> bool" where
  "never_polled c \<longleftrightarrow> transport c = Poll \<and> \<not> pollTimer c"

definition retry_stuck :: "client \<Rightarrow> bool" where
  "retry_stuck c \<longleftrightarrow> formatRetryArmed c \<and> \<not> formatRetryTimer c"

lemma poll_frames [simp]:
  "transport (fst (submitOp c t p n)) = transport c" "pollTimer (fst (submitOp c t p n)) = pollTimer c"
  "transport (fst (updatePresence c pr)) = transport c" "pollTimer (fst (updatePresence c pr)) = pollTimer c"
  "transport (fst (applySession c s)) = transport c" "pollTimer (fst (applySession c s)) = pollTimer c"
  "transport (fst (ingestOp c op a)) = transport c" "pollTimer (fst (ingestOp c op a)) = pollTimer c"
  "transport (drop_pending c i) = transport c" "pollTimer (drop_pending c i) = pollTimer c"
  "transport (fst (scheduleFormatCommitRetry c)) = transport c"
  "pollTimer (fst (scheduleFormatCommitRetry c)) = pollTimer c"
  by (auto simp: submitOp_def updatePresence_def applySession_def ingestOp_def drop_pending_def
      scheduleFormatCommitRetry_def rebasePendingThroughRemote_def Let_def case_prod_unfold split: option.split)

lemma retry_frames [simp]:
  "formatRetryArmed (fst (submitOp c t p n)) = formatRetryArmed c"
  "formatRetryTimer (fst (submitOp c t p n)) = formatRetryTimer c"
  "formatRetryArmed (fst (updatePresence c pr)) = formatRetryArmed c"
  "formatRetryTimer (fst (updatePresence c pr)) = formatRetryTimer c"
  "formatRetryArmed (fst (applySession c s)) = formatRetryArmed c"
  "formatRetryTimer (fst (applySession c s)) = formatRetryTimer c"
  "formatRetryArmed (fst (ingestOp c op a)) = formatRetryArmed c"
  "formatRetryTimer (fst (ingestOp c op a)) = formatRetryTimer c"
  "formatRetryArmed (drop_pending c i) = formatRetryArmed c"
  "formatRetryTimer (drop_pending c i) = formatRetryTimer c"
  "formatRetryArmed (fst (setTransport c m)) = formatRetryArmed c"
  "formatRetryTimer (fst (setTransport c m)) = formatRetryTimer c"
  "formatRetryArmed (fst (connectWs c b)) = formatRetryArmed c"
  "formatRetryTimer (fst (connectWs c b)) = formatRetryTimer c"
  by (auto simp: submitOp_def updatePresence_def applySession_def ingestOp_def drop_pending_def
      setTransport_def startPollFallback_def stopPollFallback_def connectWs_def
      rebasePendingThroughRemote_def Let_def case_prod_unfold split: option.split)

lemma ingestAll_frames [simp]:
  "transport (fst (ingestAll c ops)) = transport c" "pollTimer (fst (ingestAll c ops)) = pollTimer c"
  "formatRetryArmed (fst (ingestAll c ops)) = formatRetryArmed c"
  "formatRetryTimer (fst (ingestAll c ops)) = formatRetryTimer c"
  by (induction ops arbitrary: c) (simp_all add: Let_def case_prod_unfold)

lemma session_or_snapshot_frames [simp]:
  "transport (fst (session_or_snapshot c d)) = transport c"
  "pollTimer (fst (session_or_snapshot c d)) = pollTimer c"
  "formatRetryArmed (fst (session_or_snapshot c d)) = formatRetryArmed c"
  "formatRetryTimer (fst (session_or_snapshot c d)) = formatRetryTimer c"
  by (simp_all add: session_or_snapshot_def split: option.split)

lemma retry_stuck_schedule: "retry_stuck c \<Longrightarrow> scheduleFormatCommitRetry c = (c, [])"
  by (simp add: retry_stuck_def scheduleFormatCommitRetry_def)

lemma message_frames [simp]:
  "transport (fst (handleServerMessage c d)) = transport c"
  "pollTimer (fst (handleServerMessage c d)) = pollTimer c"
  by (auto simp: handleServerMessage_def handle_error_def fst_then_do Let_def split: option.split)

lemma retry_stuck_drop [simp]: "retry_stuck (drop_pending c i) = retry_stuck c"
  by (simp add: retry_stuck_def)

lemma retry_stuck_message: "retry_stuck c \<Longrightarrow> retry_stuck (fst (handleServerMessage c d))"
  using retry_stuck_schedule[of "drop_pending c (m_client_op_id d)"]
  by (auto simp: handleServerMessage_def handle_error_def fst_then_do Let_def split: option.split)
    (simp_all add: retry_stuck_def)

lemma never_polled_step:
  assumes "never_polled c" "no_open c e"
  shows "never_polled (next_client c e)"
proof (cases e)
  case (FormatFires m n)
  then show ?thesis
    using assms by (cases m) (auto simp: never_polled_def next_client_def formatRetryFires_def Let_def)
next
  case (SockClose n)
  then show ?thesis
    using assms
    by (auto simp: never_polled_def next_client_def socket_onclose_def setTransport_def fst_then_do Let_def
        split: option.split)
qed (use assms in \<open>auto simp: never_polled_def no_open_def next_client_def start_def stop_def
      fst_then_do connectWs_def setTransport_def Let_def flushPresenceHttp_def postOpFailed_def
      split: option.split\<close>)

lemma retry_stuck_step:
  assumes "retry_stuck c" "can_arrive c e"
  shows "retry_stuck (next_client c e)"
proof (cases e)
  case (SockOpen n)
  then show ?thesis
    using assms
    by (auto simp: retry_stuck_def next_client_def socket_onopen_def fst_then_do Let_def case_prod_unfold
        split: option.split)
next
  case (SockMessage d)
  then show ?thesis using assms retry_stuck_message by (simp add: next_client_def)
next
  case (PostFailed t i m)
  then show ?thesis
    using assms retry_stuck_schedule[of c]
    by (auto simp: retry_stuck_def next_client_def postOpFailed_def fst_then_do)
qed (use assms in \<open>auto simp: retry_stuck_def next_client_def start_def stop_def socket_onclose_def
      fst_then_do Let_def flushPresenceHttp_def split: option.split\<close>)

interpretation unopened: machine no_open next_client "new_client os" never_polled for os
proof
  show "never_polled (new_client os)" by (simp add: never_polled_def new_client_def)
qed (rule never_polled_step)

interpretation stopped: machine late_event next_client "fst (stop c)" quiet for c
proof
  show "quiet d \<Longrightarrow> late_event d e \<Longrightarrow> quiet (next_client d e)" for d e
    using silent_handle[of d e] by (simp add: next_client_def silent_step_def)
qed (rule quiet_stop)

interpretation stuck: machine can_arrive next_client "fst (stop (c\<lparr>formatRetryArmed := True\<rparr>))" retry_stuck for c
proof
  show "retry_stuck (fst (stop (c\<lparr>formatRetryArmed := True\<rparr>)))" by (simp add: stop_def retry_stuck_def)
qed (rule retry_stuck_step)

section \<open>Order of deliveries\<close>

text \<open>C5. Whatever arrives (sockets old and new, polls, acks, HTTP answers, in any order), the
  operations the editor receives as another user's carry strictly increasing sequence numbers,
  all above the number the client started from: none is delivered twice or out of order.\<close>

theorem remote_ops_in_order:
  "sorted_wrt (<) (latestSeq c # remote_seqs (snd (run c es)))"
  using ordered_run[of c es] by (simp add: ordered_step_def)

text \<open>The number up to which an event makes the client believe it is up to date.\<close>

fun raised_to :: "event \<Rightarrow> int option" where
  "raised_to (PostOk op) = op_seq op"
| "raised_to (SessionOk s) = ses_latest_seq s"
| "raised_to (SockMessage d) = (if m_type d = Some ''ack'' then m_seq d else None)"
| "raised_to e = None"

lemma raised_to_latestSeq:
  "raised_to e = Some n \<Longrightarrow> n \<le> latestSeq (fst (handle c e))"
proof (cases e)
  case (SockMessage d)
  assume "raised_to e = Some n"
  then have ack: "m_type d = Some ''ack''" "m_seq d = Some n"
    using SockMessage by (auto split: if_splits)
  let ?c = "drop_pending (c\<lparr>latestSeq := max (latestSeq c) n\<rparr>) (m_client_op_id d)"
  show ?thesis
  proof (cases "m_op d")
    case None
    then show ?thesis using SockMessage ack by (simp add: handleServerMessage_def Let_def)
  next
    case (Some op)
    have "n \<le> latestSeq (fst (ingestOp ?c op a))" for a
      using latestSeq_ingestOp[of ?c op a] by simp
    then show ?thesis using SockMessage ack Some by (simp add: handleServerMessage_def Let_def)
  qed
qed (auto simp: ingestOp_latestSeq applySession_def Let_def split: if_splits)

text \<open>C31. After an answer that names the number n (the response to an operation of the client's
  own, a polled session or an ack), another user's operation numbered at most n that has not
  arrived yet never will: in every later state it is dropped when it comes, and every later
  request asks only for operations above a number of at least n.\<close>

theorem raised_hides_unseen_ops:
  assumes "raised_to e = Some n" "op_seq op = Some k" "k \<le> n"
  shows "ingestOp (fst (run (fst (handle c e)) es)) op False = (fst (run (fst (handle c e)) es), []) \<and>
    asks_from n (snd (run (fst (handle c e)) es))"
proof
  let ?c = "fst (handle c e)"
  have n: "n \<le> latestSeq ?c" by (rule raised_to_latestSeq[OF assms(1)])
  with latestSeq_run[of ?c es] have "n \<le> latestSeq (fst (run ?c es))" by linarith
  with assms show "ingestOp (fst (run ?c es)) op False = (fst (run ?c es), [])"
    by (simp add: ingestOp_def)
  show "asks_from n (snd (run ?c es))" by (rule asks_from_mono[OF asks_run n])
qed

text \<open>User 2 posts over HTTP while operation 1 of another user is on its way: the answer
  numbers the post 2, and operation 1 is gone.\<close>

definition example_options :: client_options where
  "example_options = \<lparr>opt_room_kind = Document, opt_file_id = ''f'', opt_display_name = None,
     opt_local_user_id = Some ''u2'', opt_public_share = None, opt_seed = None\<rparr>"

definition example_op :: "int \<Rightarrow> string \<Rightarrow> payload \<Rightarrow> collab_op" where
  "example_op n u p = \<lparr>op_id = ''o'', op_seq = Some n, op_user_id = u, op_ts = 0, op_base_seq = 0,
     op_type = ''replace'', op_payload = p, op_client_op_id = None\<rparr>"

theorem raised_hides_unseen_ops_witness:
  "let c = fst (handle (new_client example_options) (PostOk (example_op 2 ''u2'' [])))
   in ingestOp (fst (run c [])) (example_op 1 ''u1'' []) False = (fst (run c []), []) \<and>
      asks_from 2 (snd (run c []))"
  using raised_hides_unseen_ops[of "PostOk (example_op 2 ''u2'' [])" 2 "example_op 1 ''u1'' []" 1
      "new_client example_options" "[]"]
  by (simp add: example_op_def Let_def)

section \<open>Starting and stopping\<close>

text \<open>Until a socket has opened once, the polling fallback never runs: whatever else happens
  (failed joins, sockets that cannot be built or close at once, reconnects), the client that starts
  in transport mode poll never sets its polling timer.\<close>

theorem no_poll_before_first_open:
  assumes "reach no_open next_client (new_client os) c"
  shows "transport c = Poll \<and> \<not> pollTimer c \<and> \<not> can_arrive c PollFires"
  using unopened.reach_inv[OF assms] by (simp add: never_polled_def)

definition example_session :: collab_session where
  "example_session = \<lparr>ses_id = ''s'', ses_room_kind = Document, ses_file_id = ''f'', ses_participants = None,
     ses_latest_seq = Some 0, ses_snapshot = None, ses_document_html = None, ses_document_text = None\<rparr>"

lemma reach_run1: "reach en h s0 s \<Longrightarrow> en s e \<Longrightarrow> h s e = s' \<Longrightarrow> reach en h s0 s'"
  using reach_step by fast

definition refused_client :: client where
  "refused_client = fst (run (new_client example_options) [Start, JoinOk example_session True, SockClose 0])"

theorem no_poll_before_first_open_witness:
  "transport refused_client = Poll \<and> \<not> pollTimer refused_client \<and> \<not> can_arrive refused_client PollFires"
proof -
  let ?c0 = "new_client example_options"
  have "reach no_open next_client ?c0 (next_client ?c0 Start)"
    by (rule reach_step[OF reach_init]) code_simp
  then have "reach no_open next_client ?c0 (next_client (next_client ?c0 Start) (JoinOk example_session True))"
    by (rule reach_step) code_simp
  then have "reach no_open next_client ?c0
      (next_client (next_client (next_client ?c0 Start) (JoinOk example_session True)) (SockClose 0))"
    by (rule reach_step) code_simp
  moreover have "next_client (next_client (next_client ?c0 Start) (JoinOk example_session True)) (SockClose 0) =
      refused_client" by code_simp
  ultimately have "reach no_open next_client ?c0 refused_client" by simp
  then show ?thesis by (rule no_poll_before_first_open)
qed

text \<open>C9. As long as the user calls no method again, a stopped client is silent: whatever still arrives from
  before the stop (socket messages and closings, HTTP answers, a late join, a reconnect timer that the stop
  did not clear), it sends nothing, issues no request, opens no socket and sets no timer.\<close>

theorem stopped_client_silent:
  assumes "reach late_event next_client (fst (stop c)) d" "late_event d e"
  shows "\<not> list_ex network (snd (handle d e)) \<and> closed (next_client d e) \<and> pendingOps (next_client d e) = []"
  using silent_handle[OF stopped.reach_inv[OF assms(1)] assms(2)]
  by (simp add: silent_step_def quiet_def next_client_def)

theorem stopped_client_silent_witness:
  "let d = fst (stop refused_client); e = JoinOk example_session True
   in \<not> list_ex network (snd (handle d e)) \<and> closed (next_client d e) \<and> pendingOps (next_client d e) = []"
proof -
  have "late_event (fst (stop refused_client)) (JoinOk example_session True)" by code_simp
  from stopped_client_silent[OF reach_init this] show ?thesis by (simp add: Let_def)
qed

text \<open>The calls of the user are not part of this: on a stopped client with a session, \<open>submitOp\<close> posts
  the operation over HTTP and \<open>updatePresence\<close> arms its timer.\<close>

theorem stopped_client_still_posts:
  assumes "truthy (sessionId c)"
  shows "\<exists>p. snd (submitOp (fst (stop c)) typ pl i) = [PostOp p]"
    and "list_ex network (snd (updatePresence (fst (stop c)) pr))"
  using assms by (simp_all add: submitOp_def updatePresence_def stop_def wsSend_def Let_def)

text \<open>Stopping while a \<open>format_commit\<close> retry is armed loses the retry for good: the flag stays
  set with no timer behind it, so in every later state, restarts included, a further mismatch
  schedules nothing.\<close>

theorem stop_disarms_format_retry:
  assumes "formatRetryArmed c" "reach can_arrive next_client (fst (stop c)) d"
  shows "scheduleFormatCommitRetry d = (d, []) \<and> \<not> can_arrive d (FormatFires m i)"
proof -
  have "c\<lparr>formatRetryArmed := True\<rparr> = c" using assms(1) by simp
  with assms(2) have "reach can_arrive next_client (fst (stop (c\<lparr>formatRetryArmed := True\<rparr>))) d" by simp
  then have "retry_stuck d" by (rule stuck.reach_inv)
  then show ?thesis using retry_stuck_schedule by (simp add: retry_stuck_def)
qed

definition mismatch_msg :: server_msg where
  "mismatch_msg = \<lparr>m_type = Some ''error'', m_op = None, m_ops = None, m_session = None, m_snapshot = None,
     m_client_op_id = None, m_seq = None, m_code = Some ''text_mismatch'', m_message = None, m_participants = None\<rparr>"

definition armed_client :: client where
  "armed_client = fst (run (new_client example_options)
     [Start, JoinOk example_session True, SockOpen 0, SockMessage mismatch_msg])"

definition restarted_client :: client where
  "restarted_client = next_client (fst (stop armed_client)) Start"

theorem stop_disarms_format_retry_witness:
  "scheduleFormatCommitRetry restarted_client = (restarted_client, []) \<and>
   \<not> can_arrive restarted_client (FormatFires None [])"
proof -
  have "formatRetryArmed armed_client" by code_simp
  moreover have "reach can_arrive next_client (fst (stop armed_client)) restarted_client"
    unfolding restarted_client_def by (rule reach_step[OF reach_init]) simp
  ultimately show ?thesis by (rule stop_disarms_format_retry)
qed

section \<open>Operations that are never sent\<close>

text \<open>The client operation id an effect carries to the server.\<close>

definition carries :: "eff \<Rightarrow> string option" where
  "carries e = (case e of
     Send m \<Rightarrow> (case m of WsOp b t p i \<Rightarrow> Some i | _ \<Rightarrow> None)
   | PostOp p \<Rightarrow> Some (clientOpId p)
   | _ \<Rightarrow> None)"

lemma carries_simps [simp]:
  "carries (Send (WsOp b t p i)) = Some i" "carries (Send (WsSync q)) = None" "carries (Send WsPing) = None"
  "carries (Send (WsHeartbeat hb)) = None" "carries (OpenSocket n) = None" "carries CloseSocket = None"
  "carries (PostOp po) = Some (clientOpId po)" "carries (ListOps q) = None" "carries GetSession = None"
  "carries (PostHeartbeat hb) = None" "carries JoinRequest = None" "carries (SetTimer tt d) = None"
  "carries (ClearTimer tt) = None" "carries (OnSession ss) = None" "carries (OnParticipants ps) = None"
  "carries (OnSnapshot x) = None" "carries (OnTransport tm) = None" "carries (OnError em cd) = None"
  "carries (OnOp op echo) = None"
  by (simp_all add: carries_def)

definition parked :: "string \<Rightarrow> pending_op list \<Rightarrow> bool" where
  "parked i ps \<longleftrightarrow> (\<forall>p \<in> set ps. clientOpId p = i \<longrightarrow> inFlight p)"

definition unsent :: "string \<Rightarrow> client \<times> eff list \<Rightarrow> bool" where
  "unsent i r \<longleftrightarrow> parked i (pendingOps (fst r)) \<and> Some i \<notin> carries ` set (snd r)"

lemma unsent_then: "unsent i r \<Longrightarrow> unsent i (f (fst r)) \<Longrightarrow> unsent i (then_do r f)"
  by (auto simp: unsent_def fst_then_do snd_then_do)

lemma unsent_then': "unsent i r \<Longrightarrow> (\<And>c. parked i (pendingOps c) \<Longrightarrow> unsent i (f c)) \<Longrightarrow> unsent i (then_do r f)"
  by (rule unsent_then) (auto simp: unsent_def)

lemma parked_simps [simp]:
  "parked i []" "parked i (ps @ qs) = (parked i ps \<and> parked i qs)"
  "parked i (p # ps) = ((clientOpId p = i \<longrightarrow> inFlight p) \<and> parked i ps)"
  "parked i ps \<Longrightarrow> parked i (filter P ps)"
  by (auto simp: parked_def)

lemma parked_rebase: "parked i ps \<Longrightarrow> parked i (map (rebase_pending r q) ps)"
  by (auto simp: parked_def rebase_pending_def Let_def split: option.splits)

lemma unsent_methods [intro]:
  assumes "parked i (pendingOps c)"
  shows "unsent i (setTransport c tm)" "unsent i (connectWs c b)" "unsent i (updatePresence c pr)"
    "unsent i (flushPresenceHttp c)" "unsent i (scheduleFormatCommitRetry c)" "unsent i (applySession c s)"
    "unsent i (session_or_snapshot c d)" "unsent i (c, requestSync c)" "unsent i (c, pollOpsOnce c)"
    "unsent i (ingestOp c op a)" "parked i (pendingOps (drop_pending c k))" "unsent i (stop c)" "unsent i (start c)"
  using assms
  by (auto simp: unsent_def client_defs applySession_def session_or_snapshot_def ingestOp_def parked_rebase
      rebasePendingThroughRemote_def case_prod_unfold split: option.split ready_state.split prod.split)

lemma unsent_ingestAll: "parked i (pendingOps c) \<Longrightarrow> unsent i (ingestAll c ops)"
proof (induction ops arbitrary: c)
  case (Cons op ops)
  have "ingestAll c (op # ops) = then_do (ingestOp c op False) (\<lambda>c1. ingestAll c1 ops)"
    by (simp add: then_do_def)
  then show ?case using Cons by (auto intro!: unsent_then')
qed (simp add: unsent_def)

lemma unsent_same: "parked i (pendingOps c) \<Longrightarrow> Some i \<notin> carries ` set es \<Longrightarrow> unsent i (c, es)"
  by (simp add: unsent_def)

lemma unsent_submitOp: "parked i (pendingOps c) \<Longrightarrow> n \<noteq> i \<Longrightarrow> unsent i (submitOp c t p n)"
  by (auto simp: unsent_def submitOp_def wsSend_def Let_def split: option.split ready_state.split)

lemma parked_drop [simp]: "parked i (pendingOps c) \<Longrightarrow> parked i (pendingOps (drop_pending c k))"
  by (simp add: drop_pending_def)

lemma carries_requestSync: "x \<in> set (requestSync c) \<Longrightarrow> carries x \<noteq> Some i"
  by (auto simp: requestSync_def wsSend_def pollOpsOnce_def split: option.splits ready_state.splits if_splits)

lemma unsent_handle_error: "parked i (pendingOps c) \<Longrightarrow> unsent i (handle_error c d)"
  unfolding handle_error_def Let_def
  by (auto intro!: unsent_then' unsent_same dest: carries_requestSync[of _ _ i] split: option.split)

lemma unsent_handleServerMessage: "parked i (pendingOps c) \<Longrightarrow> unsent i (handleServerMessage c d)"
  unfolding handleServerMessage_def Let_def
  by (auto intro!: unsent_then' unsent_same unsent_ingestAll unsent_handle_error unsent_methods(10)
      split: option.split)

lemma unsent_resubmit:
  "parked i ps \<Longrightarrow> parked i (fst (resubmit c ps)) \<and> Some i \<notin> carries ` set (snd (resubmit c ps))"
  by (induction ps) (auto simp: Let_def case_prod_unfold wsSend_def split: option.split ready_state.split)

lemma unsent_socket_onopen:
  assumes "parked i (pendingOps c)"
  shows "unsent i (socket_onopen c n)"
proof -
  have sends: "Some i \<notin> carries ` set (snd (wsSend c1 (WsSync q)))" "Some i \<notin> carries ` set (snd (wsSend c1 WsPing))"
    for c1 q by (auto simp: wsSend_def split: option.split ready_state.split)
  define d where "d = (case socket c of Some (m, _) \<Rightarrow> if m = n then c\<lparr>socket := Some (n, OPEN)\<rparr> else c | None \<Rightarrow> c)"
  have d: "parked i (pendingOps d)" using assms by (auto simp: d_def split: option.split prod.split)
  have rest: "unsent i (c1\<lparr>pendingOps := fst (resubmit c1 (pendingOps c1))\<rparr>,
      snd (wsSend c1 (WsSync (latestSeq c1))) @ snd (wsSend c1 WsPing) @ snd (resubmit c1 (pendingOps c1)))"
    if "parked i (pendingOps c1)" for c1
    using that unsent_resubmit[OF that, of c1] sends(1)[of c1] sends(2)[of c1] by (simp add: unsent_def image_Un)
  have "socket_onopen c n = (if closed d then (d, [])
      else then_do (setTransport (d\<lparr>reconnectAttempt := 0\<rparr>) Ws)
        (\<lambda>c1. (c1\<lparr>pendingOps := fst (resubmit c1 (pendingOps c1))\<rparr>,
          snd (wsSend c1 (WsSync (latestSeq c1))) @ snd (wsSend c1 WsPing) @ snd (resubmit c1 (pendingOps c1)))))"
    by (simp add: socket_onopen_def d_def Let_def case_prod_unfold)
  moreover have "unsent i (setTransport (d\<lparr>reconnectAttempt := 0\<rparr>) Ws)" using d by (intro unsent_methods) simp
  ultimately show ?thesis using d rest by (auto intro!: unsent_then' simp: unsent_same)
qed

lemma unsent_socket_onclose:
  assumes "parked i (pendingOps c)"
  shows "unsent i (socket_onclose c n)"
proof -
  define d where "d = (case socket c of Some (m, _) \<Rightarrow> if m = n then c\<lparr>socket := None\<rparr> else c | None \<Rightarrow> c)"
  have d: "parked i (pendingOps d)" using assms by (auto simp: d_def split: option.split prod.split)
  show ?thesis
    unfolding socket_onclose_def d_def[symmetric] Let_def
    using d by (auto intro!: unsent_then' simp: unsent_same)
qed

text \<open>The events that bring the id back from elsewhere: a second submission that draws the same
  id, or the failure of an HTTP post of it.\<close>

fun revives :: "string \<Rightarrow> event \<Rightarrow> bool" where
  "revives i (Submit t p n) = (n = i)"
| "revives i (FormatFires m n) = (n = i)"
| "revives i (PostFailed t n m) = (n = i)"
| "revives i e = False"

lemma unsent_handle:
  assumes "parked i (pendingOps c)" "\<not> revives i e"
  shows "unsent i (handle c e)"
proof (cases e)
  case (PostFailed t n m)
  then show ?thesis
    using assms
    by (auto simp: postOpFailed_def intro!: unsent_then' unsent_same dest: carries_requestSync[of _ _ i])
      (auto simp: parked_def)
next
  case (FormatFires m n)
  then show ?thesis
    using assms by (cases m) (auto simp: formatRetryFires_def Let_def unsent_same unsent_submitOp)
qed (use assms in \<open>auto intro!: unsent_then' unsent_same unsent_ingestAll unsent_submitOp unsent_handleServerMessage
      unsent_socket_onopen unsent_socket_onclose simp: pollOpsOnce_def pollSessionOnce_def
      dest: carries_requestSync[of _ _ i]\<close>)

lemma unsent_run:
  "parked i (pendingOps c) \<Longrightarrow> \<forall>e \<in> set es. \<not> revives i e \<Longrightarrow> unsent i (run c es)"
proof (induction es arbitrary: c)
  case (Cons e es)
  then show ?case by (auto intro!: unsent_then' unsent_handle)
qed (simp add: unsent_same)

text \<open>C36. An operation submitted before the session is joined (no session id, no socket) is never
  sent: it is marked in flight although neither the socket nor HTTP took it, and the resubmission
  on reconnect skips operations in flight. No later effect carries its id.\<close>

theorem submit_before_join_never_sent:
  assumes "\<not> truthy (sessionId c)" "socket c = None" "parked newId (pendingOps c)"
    and "\<forall>e \<in> set es. \<not> revives newId e"
  shows "Some newId \<notin> carries ` set (snd (run c (Submit typ pl newId # es)))"
proof -
  have "unsent newId (submitOp c typ pl newId)"
    using assms(1-3) by (simp add: submitOp_def wsSend_def unsent_def)
  then have "unsent newId (run c (Submit typ pl newId # es))"
    using assms(4) by (auto intro!: unsent_then' unsent_run)
  then show ?thesis by (simp add: unsent_def)
qed

theorem submit_before_join_never_sent_witness:
  "Some ''id1'' \<notin> carries ` set (snd (run (new_client example_options)
     [Submit ''replace'' [] ''id1'', Start, JoinOk example_session True, SockOpen 0, SockClose 0,
      ReconnectFires 0 True, SockOpen 1, PollFires]))"
  using submit_before_join_never_sent[of "new_client example_options" "''id1''"
      "[Start, JoinOk example_session True, SockOpen 0, SockClose 0, ReconnectFires 0 True, SockOpen 1, PollFires]"]
  by (simp add: new_client_def)

section \<open>Delivery and convergence\<close>

text \<open>\<open>isLocal\<close> of \<open>ingestOp\<close>: the operation is the user's own, or one of the pending ones.\<close>

definition is_local :: "client \<Rightarrow> collab_op \<Rightarrow> bool" where
  "is_local c op \<longleftrightarrow>
     (truthy (opt_local_user_id (opts c)) \<and> Some (op_user_id op) = opt_local_user_id (opts c)) \<or>
     (truthy (op_client_op_id op) \<and> (\<exists>p \<in> set (pendingOps c). Some (clientOpId p) = op_client_op_id op))"

text \<open>The edits of the pending operations, in the order the editor made them.\<close>

fun pending_edits :: "pending_op list \<Rightarrow> text_replace list" where
  "pending_edits [] = []"
| "pending_edits (p # ps) = (case pending_replace p of None \<Rightarrow> pending_edits ps | Some l \<Rightarrow> l # pending_edits ps)"

lemma rebase_remote_loop_foldl: "rebase_remote_loop r ps = foldl transformReplace r (pending_edits ps)"
  by (induction ps arbitrary: r) (auto split: option.split)

lemma ingest_foreign:
  assumes "op_seq op = Some q" "latestSeq c < q" "op_type op = ''replace''"
    and "parseReplacePayload (op_payload op) = Some r" "\<not> is_local c op"
  shows "ingestOp c op False =
    (c\<lparr>pendingOps := map (rebase_pending r q) (pendingOps c), latestSeq := q\<rparr>,
     [OnOp (op\<lparr>op_payload := replaceToPayload (foldl transformReplace r (pending_edits (pendingOps c)))\<rparr>) False])"
proof -
  have "filter (\<lambda>p. Some (clientOpId p) \<noteq> op_client_op_id op) (pendingOps c) = pendingOps c"
    if "truthy (op_client_op_id op)"
    using assms(5) that by (auto simp: is_local_def filter_id_conv)
  then have keep: "(if truthy (op_client_op_id op)
      then c\<lparr>pendingOps := filter (\<lambda>p. Some (clientOpId p) \<noteq> op_client_op_id op) (pendingOps c)\<rparr> else c) = c"
    by simp
  show ?thesis
    unfolding ingestOp_def Let_def keep is_local_def[symmetric, of c op]
    using assms
    by (simp add: rebaseRemoteAgainstPending_def rebasePendingThroughRemote_def rebase_remote_loop_foldl
        max_def)
qed


text \<open>C2. A new replacement of another user, delivered to an editor whose text is the server's
  text t with the user's pending replacements on top: the editor gets one remote operation, and
  applying it gives the server's new text with the pending replacements rebased one after the
  other on top. There can be any number of pending replacements, but none of them may clash with the
  operation where they meet (\<open>crossing_ok\<close>: each pair is \<open>tp1_safe\<close>); two insertions at one place, for
  example, clash, and there the two texts differ unless the inserted texts commute.\<close>

theorem delivery_converges:
  assumes "op_seq op = Some q" "latestSeq c < q" "op_type op = ''replace''"
    and "parseReplacePayload (op_payload op) = Some r" "\<not> is_local c op"
    and "fits_text t r" "edits.crossing_ok t r (pending_edits (pendingOps c))"
  shows "\<exists>r'. snd (ingestOp c op False) = [OnOp (op\<lparr>op_payload := replaceToPayload r'\<rparr>) False] \<and>
    applyReplace (foldl applyReplace t (pending_edits (pendingOps c))) r' =
    foldl applyReplace (applyReplace t r) (edits.locals_rebased r (pending_edits (pendingOps c)))"
  using ingest_foreign[OF assms(1-5)] edits.crossing_converges[OF assms(6,7)] by auto

definition typed :: "string \<Rightarrow> int \<Rightarrow> jstext \<Rightarrow> pending_op" where
  "typed i n s = \<lparr>clientOpId = i, baseSeq = 0, opType = ''replace'',
     payload = replaceToPayload \<lparr>tr_index = n, tr_delete = 0, tr_insert = s\<rparr>, inFlight = True\<rparr>"

definition typing_client :: "pending_op list \<Rightarrow> client" where
  "typing_client ps = (new_client example_options)\<lparr>pendingOps := ps\<rparr>"

definition typed_op :: "int \<Rightarrow> jstext \<Rightarrow> collab_op" where
  "typed_op n s = example_op 1 ''u1'' (replaceToPayload \<lparr>tr_index = n, tr_delete = 0, tr_insert = s\<rparr>)"

theorem delivery_converges_witness:
  "let c = typing_client [typed ''a'' 0 [88]]; t = [97, 98]; op = typed_op 2 [90];
       r = \<lparr>tr_index = 2, tr_delete = 0, tr_insert = [90]\<rparr>
   in \<exists>r'. snd (ingestOp c op False) = [OnOp (op\<lparr>op_payload := replaceToPayload r'\<rparr>) False] \<and>
    applyReplace (foldl applyReplace t (pending_edits (pendingOps c))) r' =
    foldl applyReplace (applyReplace t r) (edits.locals_rebased r (pending_edits (pendingOps c)))"
proof -
  let ?c = "typing_client [typed ''a'' 0 [88]]" and ?r = "\<lparr>tr_index = 2, tr_delete = 0, tr_insert = [90]\<rparr> :: text_replace"
  have 1: "fits_text [97, 98] ?r" unfolding fits_text_def by (intro conjI) code_simp+
  have 2: "pending_edits (pendingOps ?c) = [\<lparr>tr_index = 0, tr_delete = 0, tr_insert = [88]\<rparr>]" by code_simp
  have 3: "edits.crossing_ok [97, 98] ?r (pending_edits (pendingOps ?c))"
    unfolding 2 edits.crossing_ok.simps fits_text_def by (intro conjI; code_simp)
  show ?thesis
    unfolding Let_def
    by (rule delivery_converges[of _ 1]) (rule 1 3 | code_simp)+
qed

text \<open>C37. With one pending replacement that does not clash with the operation (\<open>tp1_safe\<close>) the client and
  the server stay in step: after the delivery
  the pending operation the client keeps is again exactly what separates the editor's text from the
  server's, so the next delivery starts from the same situation.\<close>

theorem delivery_keeps_single_pending_in_step:
  assumes "op_seq op = Some q" "latestSeq c < q" "op_type op = ''replace''"
    and "parseReplacePayload (op_payload op) = Some r" "\<not> is_local c op"
    and "pendingOps c = [p]" "pending_replace p = Some l"
    and "fits_text t r" "fits_text t l" "tp1_safe r l"
  shows "\<exists>c' r' p' l'. ingestOp c op False = (c', [OnOp (op\<lparr>op_payload := replaceToPayload r'\<rparr>) False]) \<and>
    pendingOps c' = [p'] \<and> clientOpId p' = clientOpId p \<and> payload p' = replaceToPayload l' \<and>
    fits_text (applyReplace t r) l' \<and>
    applyReplace (applyReplace t l) r' = applyReplace (applyReplace t r) l'"
proof -
  let ?l = "transformReplace l r"
  obtain p' where p': "rebase_pending r q p = p'" "clientOpId p' = clientOpId p" "payload p' = replaceToPayload ?l"
    using assms(7) by (simp add: rebase_pending_def Let_def)
  have "pending_edits (pendingOps c) = [l]" using assms(6,7) by simp
  then have "ingestOp c op False = (c\<lparr>pendingOps := [p'], latestSeq := q\<rparr>,
      [OnOp (op\<lparr>op_payload := replaceToPayload (transformReplace r l)\<rparr>) False])"
    using ingest_foreign[OF assms(1-5)] assms(6) p'(1) by simp
  moreover have "fits_text (applyReplace t r) ?l" using assms(8,9) by (rule edits.fits_trans[rotated])
  moreover have "applyReplace (applyReplace t l) (transformReplace r l) = applyReplace (applyReplace t r) ?l"
    using edits.tp1[OF assms(8-10)] by simp
  ultimately show ?thesis
    using p'(2,3)
    by (intro exI[of _ "c\<lparr>pendingOps := [p'], latestSeq := q\<rparr>"] exI[of _ "transformReplace r l"]
        exI[of _ p'] exI[of _ ?l]) simp
qed

theorem delivery_keeps_single_pending_in_step_witness:
  "let c = typing_client [typed ''a'' 0 [88]]; op = typed_op 2 [90]; t = [97, 98];
       r = \<lparr>tr_index = 2, tr_delete = 0, tr_insert = [90]\<rparr>; l = \<lparr>tr_index = 0, tr_delete = 0, tr_insert = [88]\<rparr>
   in \<exists>c' r' p' l'. ingestOp c op False = (c', [OnOp (op\<lparr>op_payload := replaceToPayload r'\<rparr>) False]) \<and>
    pendingOps c' = [p'] \<and> clientOpId p' = ''a'' \<and> payload p' = replaceToPayload l' \<and>
    fits_text (applyReplace t r) l' \<and>
    applyReplace (applyReplace t l) r' = applyReplace (applyReplace t r) l'"
proof -
  let ?c = "typing_client [typed ''a'' 0 [88]]" and ?op = "typed_op 2 [90]"
    and ?r = "\<lparr>tr_index = 2, tr_delete = 0, tr_insert = [90]\<rparr> :: text_replace"
    and ?l = "\<lparr>tr_index = 0, tr_delete = 0, tr_insert = [88]\<rparr> :: text_replace"
  have fits: "fits_text [97, 98] ?r" "fits_text [97, 98] ?l"
    unfolding fits_text_def by (intro conjI; code_simp)+
  have pre: "op_seq ?op = Some 1" "latestSeq ?c < 1" "op_type ?op = ''replace''"
    "parseReplacePayload (op_payload ?op) = Some ?r" "\<not> is_local ?c ?op"
    "pendingOps ?c = [typed ''a'' 0 [88]]" "pending_replace (typed ''a'' 0 [88]) = Some ?l" "tp1_safe ?r ?l"
    by code_simp+
  have "clientOpId (typed ''a'' 0 [88]) = ''a''" by code_simp
  with delivery_keeps_single_pending_in_step[OF pre(1-7) fits pre(8)] show ?thesis by (simp only: Let_def)
qed

text \<open>
  With two pending replacements the loop rebases each of them against the operation as the
  server sent it, and not as transformed past the first: the second one is off. Typing XX at the
  start and Y at the end (positions 0 and 5 of the then current text), then receiving Z at 4, leaves
  the second pending at a place that is not where the editor has it.
\<close>

lemma two_pendings_out_of_step:
  "let t = [97, 98, 99, 100, 101, 102]; r = \<lparr>tr_index = 4, tr_delete = 0, tr_insert = [90]\<rparr>;
       c = typing_client [typed ''a'' 0 [88, 88], typed ''b'' 5 [89]];
       c' = fst (ingestOp c (typed_op 4 [90]) False);
       r' = foldl transformReplace r (pending_edits (pendingOps c))
   in pending_edits (pendingOps c') \<noteq> edits.locals_rebased r (pending_edits (pendingOps c)) \<and>
      applyReplace (foldl applyReplace t (pending_edits (pendingOps c))) r' \<noteq>
      foldl applyReplace (applyReplace t r) (pending_edits (pendingOps c'))"
  unfolding Let_def
proof
  let ?c = "typing_client [typed ''a'' 0 [88, 88], typed ''b'' 5 [89]]"
  let ?c' = "fst (ingestOp ?c (typed_op 4 [90]) False)"
  let ?r = "\<lparr>tr_index = 4, tr_delete = 0, tr_insert = [90]\<rparr> :: text_replace"
  show diff: "applyReplace (foldl applyReplace [97, 98, 99, 100, 101, 102] (pending_edits (pendingOps ?c)))
      (foldl transformReplace ?r (pending_edits (pendingOps ?c))) \<noteq>
    foldl applyReplace (applyReplace [97, 98, 99, 100, 101, 102] ?r) (pending_edits (pendingOps ?c'))"
    by code_simp
  have ps: "pending_edits (pendingOps ?c) = [\<lparr>tr_index = 0, tr_delete = 0, tr_insert = [88, 88]\<rparr>,
      \<lparr>tr_index = 5, tr_delete = 0, tr_insert = [89]\<rparr>]" by code_simp
  have "pending_edits (pendingOps ?c') = [\<lparr>tr_index = 0, tr_delete = 0, tr_insert = [88, 88]\<rparr>,
      \<lparr>tr_index = 6, tr_delete = 0, tr_insert = [89]\<rparr>]" by code_simp
  moreover have "edits.locals_rebased ?r (pending_edits (pendingOps ?c)) =
      [\<lparr>tr_index = 0, tr_delete = 0, tr_insert = [88, 88]\<rparr>, \<lparr>tr_index = 5, tr_delete = 0, tr_insert = [89]\<rparr>]"
    unfolding ps edits.locals_rebased.simps by code_simp
  ultimately show "pending_edits (pendingOps ?c') \<noteq> edits.locals_rebased ?r (pending_edits (pendingOps ?c))"
    by simp
qed

end
