(* ===== verification/SheetTypes.thy ===== *)
theory SheetTypes
  imports Complex_Main Prelude
begin

text \<open>
  The spreadsheet's data model: \<^verbatim>\<open>frontend/src/lib/spreadsheet/types.ts\<close> with the rule types of
  \<^verbatim>\<open>conditional-formatting.ts\<close>, \<^verbatim>\<open>data-validation.ts\<close> and \<^verbatim>\<open>named-ranges.ts\<close>.

  An optional property is an \<open>option\<close>; a property that is present with the value
  \<open>undefined\<close> counts as absent. Numbers are exact rationals, row and column indices
  integers. An array of sizes can be sparse in JavaScript, and \<open>filter\<close> skips its holes, so its
  elements are of type \<open>dim\<close>.
\<close>

section \<open>Cells\<close>

datatype h_align = HLeft | HCenter | HRight
datatype v_align = VTop | VMiddle | VBottom

datatype border_line_style =
    Thin | Medium | Thick | Double | Dotted | Dashed | Hair | MediumDashed | DashDot
  | MediumDashDot | DashDotDot | MediumDashDotDot | SlantDashDot

datatype number_format =
    General | Currency | Percent | Number | Accounting | Date | Time | DateTime
  | Scientific | Fraction | FText | Custom

record cell_style =
  bold :: "bool option"
  italic :: "bool option"
  underline :: "bool option"
  doubleUnderline :: "bool option"
  strikethrough :: "bool option"
  horizontalAlign :: "h_align option"
  verticalAlign :: "v_align option"
  numberFormat :: "number_format option"
  customNumberFormat :: "string option"
  backgroundColor :: "string option"
  textColor :: "string option"
  fontFamily :: "string option"
  fontSize :: "rat option"
  wrapText :: "bool option"
  borderTop :: "bool option"
  borderRight :: "bool option"
  borderBottom :: "bool option"
  borderLeft :: "bool option"
  borderColor :: "string option"
  borderStyle :: "border_line_style option"
  borderTopStyle :: "border_line_style option"
  borderRightStyle :: "border_line_style option"
  borderBottomStyle :: "border_line_style option"
  borderLeftStyle :: "border_line_style option"
  borderTopColor :: "string option"
  borderRightColor :: "string option"
  borderBottomColor :: "string option"
  borderLeftColor :: "string option"
  isHeaderRow :: "bool option"
  isTotalRow :: "bool option"

definition no_style :: cell_style where
  "no_style = \<lparr>bold = None, italic = None, underline = None, doubleUnderline = None,
     strikethrough = None, horizontalAlign = None, verticalAlign = None, numberFormat = None,
     customNumberFormat = None, backgroundColor = None, textColor = None, fontFamily = None,
     fontSize = None, wrapText = None, borderTop = None, borderRight = None, borderBottom = None,
     borderLeft = None, borderColor = None, borderStyle = None, borderTopStyle = None,
     borderRightStyle = None, borderBottomStyle = None, borderLeftStyle = None,
     borderTopColor = None, borderRightColor = None, borderBottomColor = None,
     borderLeftColor = None, isHeaderRow = None, isTotalRow = None\<rparr>"

datatype cell_value = VNull | VNum rat | VStr string

record sheet_cell =
  cvalue :: cell_value
  formula :: "string option"
  display :: string
  style :: "cell_style option"
  comment :: "string option"
  hyperlink :: "string option"
  spillFrom :: "string option"

type_synonym grid = "sheet_cell list list"

section \<open>Regions, charts and page settings\<close>

record region =
  startRow :: int
  startCol :: int
  endRow :: int
  endCol :: int

datatype chart_type = ChBar | ChLine | ChPie | ChColumn | ChArea | ChScatter | ChDoughnut

record sheet_chart =
  ch_id :: string
  ch_type :: chart_type
  ch_title :: string
  anchorRow :: int
  anchorCol :: int
  anchorEndRow :: "int option"
  anchorEndCol :: "int option"
  anchorColOff :: "int option"
  anchorRowOff :: "int option"
  anchorEndColOff :: "int option"
  anchorEndRowOff :: "int option"
  dataStartRow :: int
  dataStartCol :: int
  dataEndRow :: int
  dataEndCol :: int
  categoryRef :: "region option"
  valueRef :: "region option"
  fallbackSeries :: "(string \<times> rat) list option"
  widthPx :: "rat option"
  heightPx :: "rat option"
  imported :: "bool option"
  sourceChartPath :: "string option"
  sourceDrawingPath :: "string option"
  drawingChartRelId :: "string option"

datatype page_orientation = Portrait | Landscape
datatype paper_size = Letter | A4 | Legal

record page_setup =
  orientation :: "page_orientation option"
  paperSize :: "paper_size option"
  scalePercent :: "rat option"
  fitToWidth :: "int option"
  fitToHeight :: "int option"
  printTitlesRows :: "string option"
  printTitlesCols :: "string option"
  headerLeft :: "string option"
  headerCenter :: "string option"
  headerRight :: "string option"
  footerLeft :: "string option"
  footerCenter :: "string option"
  footerRight :: "string option"

record sheet_protection =
  pr_password :: "string option"
  pr_locked :: "bool option"

record track_change_entry =
  tc_id :: string
  tc_timestamp :: string
  tc_author :: string
  tc_sheetName :: string
  tc_cell :: string
  tc_before :: string
  tc_after :: string

record drawing_stroke =
  st_id :: string
  st_points :: "(rat \<times> rat) list"
  st_color :: string
  st_width :: rat

record spreadsheet_table =
  tb_name :: string
  tb_bounds :: region

record page_margins =
  pm_top :: rat
  pm_right :: rat
  pm_bottom :: rat
  pm_left :: rat
  pm_header :: "rat option"
  pm_footer :: "rat option"

section \<open>Rules and names\<close>

datatype cf_operator =
    GreaterThan | GreaterThanOrEqual | LessThan | LessThanOrEqual | CfEqual | NotEqual | Between
  | TextContains | NotContains | BeginsWith | EndsWith | ContainsBlanks | NotContainsBlanks

datatype badge_tone = OnTrack | OverBudget | UnderBudget

record cf_style =
  cfs_backgroundColor :: "string option"
  cfs_textColor :: "string option"
  cfs_bold :: "bool option"
  cfs_badge :: "badge_tone option"

datatype cf_type =
    CellIs | TextRule | Expression | ColorScale | DataBar | AboveAverage | Top10
  | DuplicateValues | UniqueValues | IconSet

record cf_rule =
  cf_id :: string
  cf_priority :: int
  cf_range :: region
  cf_kind :: cf_type
  cf_op :: "cf_operator option"
  cf_value :: "string option"
  cf_value2 :: "string option"
  cf_formula :: "string option"
  cf_style_of :: "cf_style option"
  cf_colorScale :: "(string \<times> string option \<times> string) option"
  cf_dataBar :: "string option"
  cf_aboveAverage :: "(bool \<times> bool option \<times> rat option) option"
  cf_top10 :: "(rat \<times> bool \<times> bool) option"
  cf_iconSet :: "string list option"
  cf_stopIfTrue :: "bool option"

datatype dv_type = DvList | DvWhole | DvDecimal | DvTextLength | DvCustom | DvDate

record data_validation_rule =
  dv_kind :: dv_type
  dv_values :: "string list option"
  dv_min :: "rat option"
  dv_max :: "rat option"
  dv_allowBlank :: "bool option"
  dv_errorMessage :: "string option"
  dv_formula :: "string option"

record named_range =
  nr_name :: string
  nr_sheetName :: string
  nr_bounds :: region

section \<open>Sheets and workbooks\<close>

datatype dim = Hole | Undef | Px rat

record sheet =
  name :: string
  rows :: grid
  sourceSheetId :: "string option"
  sourceRelId :: "string option"
  sourceWorksheetPath :: "string option"
  conditionalFormats :: "cf_rule list option"
  columnWidths :: "dim list option"
  rowHeights :: "dim list option"
  showGridlines :: "bool option"
  showFormulas :: "bool option"
  frozenRows :: "int option"
  frozenCols :: "int option"
  columnValidations :: "(int \<times> data_validation_rule) list option"
  cellValidations :: "(string \<times> data_validation_rule) list option"
  tables :: "spreadsheet_table list option"
  printArea :: "region option"
  pageMargins :: "page_margins option"
  mergedRegions :: "region list option"
  charts :: "sheet_chart list option"
  pageSetup :: "page_setup option"
  protection :: "sheet_protection option"
  hiddenRows :: "int list option"
  hiddenCols :: "int list option"
  tabColor :: "string option"
  drawings :: "drawing_stroke list option"
  rowOutlineLevels :: "(int \<times> int) list option"
  zoomPercent :: "int option"

record workbook =
  sheets :: "sheet list"
  sourceBuffer :: "nat option"
  namedRanges :: "named_range list option"
  trackChanges :: "track_change_entry list option"
  trackChangesEnabled :: "bool option"

text \<open>The bytes of the uploaded file are never read here: \<open>sourceBuffer\<close> is a name for them.\<close>

definition new_sheet :: "string \<Rightarrow> grid \<Rightarrow> sheet" where
  "new_sheet n g = \<lparr>name = n, rows = g, sourceSheetId = None, sourceRelId = None,
     sourceWorksheetPath = None, conditionalFormats = None, columnWidths = None, rowHeights = None,
     showGridlines = None, showFormulas = None, frozenRows = None, frozenCols = None,
     columnValidations = None, cellValidations = None, tables = None, printArea = None,
     pageMargins = None, mergedRegions = None, charts = None, pageSetup = None, protection = None,
     hiddenRows = None, hiddenCols = None, tabColor = None, drawings = None,
     rowOutlineLevels = None, zoomPercent = None\<rparr>"

definition only_sheets :: "sheet list \<Rightarrow> workbook" where
  "only_sheets ss = \<lparr>sheets = ss, sourceBuffer = None, namedRanges = None, trackChanges = None,
     trackChangesEnabled = None\<rparr>"

record cell_address =
  row :: int
  col :: int

record selection_stats =
  ss_average :: "rat option"
  ss_count :: int
  ss_sum :: "rat option"

definition empty_cell :: sheet_cell where
  "empty_cell = \<lparr>cvalue = VNull, formula = None, display = [], style = None, comment = None,
     hyperlink = None, spillFrom = None\<rparr>"

definition style_of :: "sheet_cell \<Rightarrow> cell_style" where
  "style_of c = (case style c of None \<Rightarrow> no_style | Some st \<Rightarrow> st)"

definition grid_at :: "grid \<Rightarrow> int \<Rightarrow> int \<Rightarrow> sheet_cell option" where
  "grid_at g r c = (case nth_opt g r of None \<Rightarrow> None | Some line \<Rightarrow> nth_opt line c)"

end
