(* ===== verification/SheetNumbers.thy ===== *)
theory SheetNumbers
  imports SheetTypes
begin

text \<open>
  Numbers as text: JavaScript's \<open>Number(s)\<close>, \<open>String(n)\<close> and \<open>toExponential\<close> on exact
  rationals, and \<^verbatim>\<open>frontend/src/lib/spreadsheet/number-formats.ts\<close>.

  \<open>Number(s)\<close> is \<open>None\<close> where JavaScript gives \<open>NaN\<close> or an infinity. \<open>String(n)\<close> follows the
  standard's placement of the decimal point and the exponent, on the number rounded to 17
  significant digits. What depends on the locale data of the runtime (\<open>Intl.NumberFormat\<close>,
  \<open>toLocaleString\<close>, \<open>localeCompare\<close>, and \<open>localeCompare\<close> with base sensitivity) is the record
  \<open>host\<close>, a parameter.
\<close>

section \<open>JavaScript numbers\<close>

definition pow10 :: "int \<Rightarrow> rat" where
  "pow10 e = (if 0 \<le> e then 10 ^ nat e else 1 / 10 ^ nat (- e))"

definition math_round :: "rat \<Rightarrow> int" where
  "math_round x = \<lfloor>x + 1 / 2\<rfloor>"

definition math_trunc :: "rat \<Rightarrow> int" where
  "math_trunc x = (if 0 \<le> x then \<lfloor>x\<rfloor> else \<lceil>x\<rceil>)"

text \<open>The exponent of the first significant digit of a positive number.\<close>

definition ilog10 :: "rat \<Rightarrow> int" where
  "ilog10 x = (if 1 \<le> x then int (length (dec_digits \<lfloor>x\<rfloor>)) - 1
     else - int (length (dec_digits (\<lceil>1 / x\<rceil> - 1))))"

definition significant :: "nat \<Rightarrow> rat \<Rightarrow> string \<times> int" where
  "significant k x =
     (let e = ilog10 x;
          ds = dec_digits (math_round (x / pow10 (e - int k + 1)))
      in (take k ds, e + int (length ds) - int k))"

definition strip_zeros :: "string \<Rightarrow> string" where
  "strip_zeros ds = rev (dropWhile (\<lambda>c. c = CHR ''0'') (rev ds))"

definition exponent_text :: "int \<Rightarrow> string" where
  "exponent_text e = ''e'' @ (if e < 0 then ''-'' else ''+'') @ dec_digits \<bar>e\<bar>"

definition place_point :: "string \<Rightarrow> int \<Rightarrow> string" where
  "place_point ds n =
     (let k = int (length ds)
      in if k \<le> n \<and> n \<le> 21 then ds @ replicate (nat (n - k)) CHR ''0''
         else if 0 < n \<and> n \<le> 21 then take (nat n) ds @ ''.'' @ drop (nat n) ds
         else if -6 < n \<and> n \<le> 0 then ''0.'' @ replicate (nat (- n)) CHR ''0'' @ ds
         else take 1 ds @ (if k = 1 then [] else ''.'' @ drop 1 ds) @ exponent_text (n - 1))"

definition show_num :: "rat \<Rightarrow> string" where
  "show_num x =
     (if x = 0 then ''0''
      else let (ds, e) = significant 17 \<bar>x\<bar>
           in (if x < 0 then ''-'' else []) @ place_point (strip_zeros ds) (e + 1))"

definition to_exponential2 :: "rat \<Rightarrow> string" where
  "to_exponential2 x =
     (if x = 0 then ''0.00e+0''
      else let (ds, e) = significant 3 \<bar>x\<bar>
           in (if x < 0 then ''-'' else []) @ take 1 ds @ ''.'' @ drop 1 ds @ exponent_text e)"

definition digit_of :: "char \<Rightarrow> int" where
  "digit_of c = (let n = (of_char c :: int) in
     if 48 \<le> n \<and> n \<le> 57 then n - 48
     else if 97 \<le> n \<and> n \<le> 102 then n - 87
     else if 65 \<le> n \<and> n \<le> 70 then n - 55 else 99)"

definition digits_value :: "int \<Rightarrow> string \<Rightarrow> int" where
  "digits_value r ds = foldl (\<lambda>acc c. acc * r + digit_of c) 0 ds"

definition is_digit :: "char \<Rightarrow> bool" where
  "is_digit c \<longleftrightarrow> digit_of c < 10"

definition parse_exponent :: "string \<Rightarrow> int option" where
  "parse_exponent s =
     (case s of
        [] \<Rightarrow> Some 0
      | c # t \<Rightarrow>
          if c \<noteq> CHR ''e'' \<and> c \<noteq> CHR ''E'' then None
          else let (neg, ds) = (case t of
                     d # u \<Rightarrow> if d = CHR ''-'' then (True, u) else if d = CHR ''+'' then (False, u) else (False, t)
                   | [] \<Rightarrow> (False, []))
               in if ds = [] \<or> \<not> list_all is_digit ds then None
                  else Some (if neg then - digits_value 10 ds else digits_value 10 ds))"

definition parse_unsigned :: "string \<Rightarrow> rat option" where
  "parse_unsigned s =
     (let ip = takeWhile is_digit s;
          r1 = dropWhile is_digit s;
          (fp, r2) = (case r1 of
            c # t \<Rightarrow> if c = CHR ''.'' then (takeWhile is_digit t, dropWhile is_digit t) else ([], r1)
          | [] \<Rightarrow> ([], []))
      in if ip = [] \<and> fp = [] then None
         else case parse_exponent r2 of
                None \<Rightarrow> None
              | Some e \<Rightarrow> Some (of_int (digits_value 10 (ip @ fp)) * pow10 (e - int (length fp))))"

definition parse_radix :: "string \<Rightarrow> rat option" where
  "parse_radix s =
     (case s of
        z # x # ds \<Rightarrow>
          (let r = (if x \<in> set ''xX'' then 16 else if x \<in> set ''oO'' then 8 else if x \<in> set ''bB'' then 2 else 0)
           in if z = CHR ''0'' \<and> r \<noteq> 0 \<and> ds \<noteq> [] \<and> list_all (\<lambda>c. digit_of c < r) ds
              then Some (of_int (digits_value r ds)) else None)
      | _ \<Rightarrow> None)"

definition js_number :: "string \<Rightarrow> rat option" where
  "js_number s =
     (let t = js_trim s
      in case t of
           [] \<Rightarrow> Some 0
         | c # u \<Rightarrow>
             case parse_radix t of
               Some x \<Rightarrow> Some x
             | None \<Rightarrow>
                 if c = CHR ''-'' then map_option uminus (parse_unsigned u)
                 else if c = CHR ''+'' then parse_unsigned u
                 else parse_unsigned t)"

text \<open>\<open>s.replace(/[$,%\s,]/g, "")\<close>, and \<open>Number\<close> of it.\<close>

definition strip_money :: "string \<Rightarrow> string" where
  "strip_money s = filter (\<lambda>c. c \<notin> set ''$,%'' \<and> \<not> is_ws c) s"

definition upper_char :: "char \<Rightarrow> string" where
  "upper_char c = (let n = (of_char c :: nat) in
     if n = 223 then ''SS''
     else if (97 \<le> n \<and> n \<le> 122) \<or> (224 \<le> n \<and> n \<le> 254 \<and> n \<noteq> 247) then [char_of (n - 32)] else [c])"

definition js_upper :: "string \<Rightarrow> string" where
  "js_upper s = concat (map upper_char s)"

definition js_string :: "cell_value \<Rightarrow> string" where
  "js_string v = (case v of VNull \<Rightarrow> ''null'' | VNum n \<Rightarrow> show_num n | VStr s \<Rightarrow> s)"

section \<open>The runtime's locale data\<close>

record intl_options =
  io_style :: "string option"
  io_currencySign :: "string option"
  io_useGrouping :: bool
  io_fractionDigits :: nat

record host =
  h_number :: "intl_options \<Rightarrow> rat \<Rightarrow> string"
  h_dateString :: "bool \<Rightarrow> int \<Rightarrow> string"
  h_timeString :: "int \<Rightarrow> string"
  h_dateTimeString :: "int \<Rightarrow> string"
  h_localeCompare :: "string \<Rightarrow> string \<Rightarrow> int"
  h_baseCompare :: "string \<Rightarrow> string \<Rightarrow> int"

text \<open>A runtime with no locale data, for the concrete examples: numbers and times are printed plainly.\<close>

definition plain_host :: host where
  "plain_host = \<lparr>h_number = (\<lambda>io x. show_num x), h_dateString = (\<lambda>full ms. show_int ms),
     h_timeString = show_int, h_dateTimeString = show_int, h_localeCompare = (\<lambda>a b. int (length a) - int (length b)),
     h_baseCompare = (\<lambda>a b. int (length a) - int (length b))\<rparr>"

section \<open>Format codes\<close>

definition ribbon_number_format_options :: "(number_format \<times> string) list" where
  "ribbon_number_format_options =
     [(General, ''General''), (Number, ''Number''), (Currency, ''Currency''),
      (Accounting, ''Accounting''), (Date, ''Short Date''), (DateTime, ''Long Date''),
      (Time, ''Time''), (Percent, ''Percentage''), (Fraction, ''Fraction''),
      (Scientific, ''Scientific''), (FText, ''Text''), (Custom, ''Custom'')]"

definition builtin_numfmt_id_codes :: "(int \<times> string) list" where
  "builtin_numfmt_id_codes =
     [(0, ''General''), (1, ''0''), (2, ''0.00''), (3, ''#,##0''), (4, ''#,##0.00''),
      (5, ''$#,##0_);($#,##0)''), (6, ''$#,##0_);[Red]($#,##0)''),
      (7, ''$#,##0.00_);($#,##0.00)''), (8, ''$#,##0.00_);[Red]($#,##0.00)''),
      (9, ''0%''), (10, ''0.00%''), (11, ''0.00E+00''), (12, ''# ?/?''), (13, ''# ??/??''),
      (14, ''m/d/yyyy''), (15, ''d-mmm-yy''), (16, ''d-mmm''), (17, ''mmm-yy''),
      (18, ''h:mm AM/PM''), (19, ''h:mm:ss AM/PM''), (20, ''h:mm''), (21, ''h:mm:ss''),
      (22, ''m/d/yyyy h:mm''), (37, ''#,##0_);(#,##0)''), (38, ''#,##0_);[Red](#,##0)''),
      (39, ''#,##0.00_);(#,##0.00)''), (40, ''#,##0.00_);[Red](#,##0.00)''), (45, ''mm:ss''),
      (46, ''[h]:mm:ss''), (47, ''mmss.0''), (48, ''##0.0E+0''), (49, ''@'')]"

fun builtin_format_code :: "number_format \<Rightarrow> string option" where
  "builtin_format_code General = Some ''General''"
| "builtin_format_code Number = Some ''#,##0.00''"
| "builtin_format_code Currency = Some ''$#,##0.00''"
| "builtin_format_code Accounting =
     Some ''_(\"$\"* #,##0.00_);_(\"$\"* (#,##0.00);_(\"$\"* \"-\"??_);_(@_)''"
| "builtin_format_code Percent = Some ''0.00%''"
| "builtin_format_code Date = Some ''m/d/yyyy''"
| "builtin_format_code Time = Some ''h:mm:ss AM/PM''"
| "builtin_format_code DateTime = Some ''m/d/yyyy h:mm''"
| "builtin_format_code Scientific = Some ''0.00E+00''"
| "builtin_format_code Fraction = Some ''# ?/?''"
| "builtin_format_code FText = Some ''@''"
| "builtin_format_code Custom = None"

definition opt_text :: "string option \<Rightarrow> string" where
  "opt_text s = (case s of None \<Rightarrow> [] | Some t \<Rightarrow> t)"

definition numberFormatFromXlsxCode :: "string option \<Rightarrow> string option \<Rightarrow> number_format" where
  "numberFormatFromXlsxCode zCode disp =
     (let code = js_trim (opt_text zCode);
          n = js_lower code;
          has = (\<lambda>sub. js_includes sub n)
      in if code = [] \<or> n = ''general'' then General
         else if has ''%'' then Percent
         else if has ''e+'' \<or> has ''e-'' then Scientific
         else if n = ''@'' \<or> has ''@'' then FText
         else if has ''?/?'' then Fraction
         else if has ''am/pm'' \<or> (has ''h:'' \<and> \<not> has ''y'') then Time
         else if has ''y'' \<and> has ''h'' then DateTime
         else if has ''y'' \<or> has ''d'' then Date
         else if has ''_('' \<or> has ''accounting'' then Accounting
         else if has ''$'' \<or> js_includes ''$'' (opt_text disp) then Currency
         else if has ''#'' \<or> has ''0'' then Number
         else Custom)"

text \<open>An id is an integer here; an empty entry of the custom map is skipped, as the code's truth test does.\<close>

definition formatCodeFromNumFmtId :: "int option \<Rightarrow> (int \<times> string) list \<Rightarrow> string option" where
  "formatCodeFromNumFmtId numFmtId customMap =
     (case numFmtId of
        None \<Rightarrow> None
      | Some i \<Rightarrow>
          case map_of customMap i of
            Some (c # cs) \<Rightarrow> Some (c # cs)
          | _ \<Rightarrow> map_of builtin_numfmt_id_codes i)"

definition numberFormatFromXlsxNumFmtId :: "int option \<Rightarrow> (int \<times> string) list \<Rightarrow> number_format" where
  "numberFormatFromXlsxNumFmtId numFmtId customMap =
     numberFormatFromXlsxCode (formatCodeFromNumFmtId numFmtId customMap) None"

definition xlsxFormatCodeFromStyle :: "number_format option \<Rightarrow> string option \<Rightarrow> string option" where
  "xlsxFormatCodeFromStyle nf customNF =
     (let preserved = js_trim (opt_text customNF)
      in if preserved \<noteq> [] then Some preserved
         else builtin_format_code (case nf of None \<Rightarrow> General | Some f \<Rightarrow> f))"

section \<open>Display\<close>

definition excelSerialToDate :: "rat \<Rightarrow> int option" where
  "excelSerialToDate serial =
     (let ms = \<lfloor>serial - 25569\<rfloor> * 86400 * 1000
      in if \<bar>ms\<bar> \<le> 8640000000000000 then Some ms else None)"

function strip_brackets :: "string \<Rightarrow> string" where
  "strip_brackets [] = []"
| "strip_brackets (c # s) =
     (if c = CHR ''['' \<and> CHR '']'' \<in> set s
      then strip_brackets (drop 1 (dropWhile (\<lambda>d. d \<noteq> CHR '']'') s))
      else c # strip_brackets s)"
  by pat_completeness auto
termination
  by (relation "measure length") (auto intro: le_less_trans[OF length_dropWhile_le] simp: less_Suc_eq_le diff_le_mono
      intro!: le_trans[OF diff_le_self length_dropWhile_le])

fun decimals_after_point :: "string \<Rightarrow> nat" where
  "decimals_after_point (p # c # s) =
     (if p = CHR ''.'' \<and> (c = CHR ''0'' \<or> c = CHR ''#'') then length (takeWhile (\<lambda>d. d = c) (c # s))
      else decimals_after_point (c # s))"
| "decimals_after_point s = 0"

definition has_any :: "string \<Rightarrow> string \<Rightarrow> bool" where
  "has_any cs s = list_ex (\<lambda>c. lower_char c \<in> set cs) s"

definition pick_section :: "string \<Rightarrow> rat \<Rightarrow> string" where
  "pick_section cleaned v =
     (let sections = js_split '';'' cleaned;
          second = opt_text (nth_opt sections 1);
          third = opt_text (nth_opt sections 2)
      in if v < 0 \<and> second \<noteq> [] then second
         else if v = 0 \<and> third \<noteq> [] then third
         else hd sections)"

definition plain_intl :: "string option \<Rightarrow> nat \<Rightarrow> intl_options" where
  "plain_intl sty n = \<lparr>io_style = sty, io_currencySign = None, io_useGrouping = True, io_fractionDigits = n\<rparr>"

definition formatWithCustomCode :: "host \<Rightarrow> rat \<Rightarrow> string \<Rightarrow> string" where
  "formatWithCustomCode h v code =
     (let cleaned = js_trim code;
          pattern = strip_brackets (pick_section cleaned v)
      in if cleaned = [] \<or> js_lower cleaned = ''general'' then show_num v
         else if js_includes ''%'' pattern then
           (let decimals = length (filter (\<lambda>c. c = CHR ''0'' \<or> c = CHR ''#'')
                             (opt_text (nth_opt (js_split ''.'' pattern) 1)))
            in h_number h (plain_intl (Some ''percent'') decimals) v)
         else if has_any ''ymdhs'' pattern \<and> \<not> js_includes ''#'' pattern \<and> \<not> js_includes ''0'' pattern then
           (case excelSerialToDate v of
              None \<Rightarrow> show_num v
            | Some d \<Rightarrow>
                if has_any ''hs'' pattern \<and> has_any ''ydm'' pattern then h_dateTimeString h d
                else if has_any ''hs'' pattern then h_timeString h d
                else h_dateString h False d)
         else if js_includes ''E+'' pattern \<or> js_includes ''e+'' pattern then js_upper (to_exponential2 v)
         else
           (let decimals = decimals_after_point pattern;
                formatted = h_number h \<lparr>io_style = None, io_currencySign = None,
                  io_useGrouping = js_includes '','' pattern, io_fractionDigits = decimals\<rparr> \<bar>v\<bar>
            in if js_includes ''$'' cleaned \<and> \<not> js_starts_with ''$'' formatted
               then (if v < 0 then ''($'' @ formatted @ '')'' else ''$'' @ formatted)
               else if v < 0 then ''-'' @ formatted else formatted))"

definition format_number :: "host \<Rightarrow> rat \<Rightarrow> number_format \<Rightarrow> string option \<Rightarrow> string" where
  "format_number h v fmt customCode =
     (case fmt of
        Currency \<Rightarrow> h_number h (plain_intl (Some ''currency'') 2) v
      | Accounting \<Rightarrow> h_number h ((plain_intl (Some ''currency'') 2)\<lparr>io_currencySign := Some ''accounting''\<rparr>) v
      | Percent \<Rightarrow> h_number h (plain_intl (Some ''percent'') 2) v
      | Number \<Rightarrow> h_number h (plain_intl None 2) v
      | Scientific \<Rightarrow> to_exponential2 v
      | Date \<Rightarrow> (case excelSerialToDate v of Some d \<Rightarrow> h_dateString h True d | None \<Rightarrow> show_num v)
      | Time \<Rightarrow> (case excelSerialToDate v of Some d \<Rightarrow> h_timeString h d | None \<Rightarrow> show_num v)
      | DateTime \<Rightarrow> (case excelSerialToDate v of Some d \<Rightarrow> h_dateTimeString h d | None \<Rightarrow> show_num v)
      | Fraction \<Rightarrow>
          (let whole = math_trunc v; frac = v - of_int whole
           in if \<bar>frac\<bar> < 1 / 1000000000 then show_num (of_int whole)
              else show_num (of_int whole) @ '' '' @ show_int (math_round (frac * 8)) @ ''/8'')
      | FText \<Rightarrow> show_num v
      | Custom \<Rightarrow> (case opt_text customCode of [] \<Rightarrow> show_num v | code \<Rightarrow> formatWithCustomCode h v code)
      | General \<Rightarrow> show_num v)"

definition formatValueWithNumberFormat ::
    "host \<Rightarrow> cell_value \<Rightarrow> number_format \<Rightarrow> string option \<Rightarrow> string" where
  "formatValueWithNumberFormat h v fmt customCode =
     (case v of
        VNull \<Rightarrow> []
      | VNum n \<Rightarrow> format_number h n fmt customCode
      | VStr s \<Rightarrow>
          if s = [] then []
          else if fmt \<noteq> FText then
            (case js_number (strip_money s) of
               None \<Rightarrow> s
             | Some n \<Rightarrow> format_number h n fmt customCode)
          else s)"

end
