(* ===== verification/SheetCells.thy ===== *)
theory SheetCells
  imports SheetNumbers
begin

text \<open>
  Addresses, ranges, merged regions and names: \<^verbatim>\<open>cells.ts\<close>, \<^verbatim>\<open>selection.ts\<close>,
  \<^verbatim>\<open>merge-regions.ts\<close> and \<^verbatim>\<open>named-ranges.ts\<close> of \<^verbatim>\<open>frontend/src/lib/spreadsheet\<close>,
  with the round trip between addresses and labels and the geometry of ranges and merges.
\<close>

section \<open>Addresses (cells.ts)\<close>

text \<open>The loop of \<open>columnIndexToLetters\<close>.\<close>

function column_letters :: "int \<Rightarrow> string \<Rightarrow> string" where
  "column_letters v label =
     (if v > 0 then column_letters ((v - 1) div 26) (char_of (65 + (v - 1) mod 26) # label) else label)"
  by pat_completeness auto
termination by (relation "measure (\<lambda>(v, _). nat v)") auto

declare column_letters.simps [simp del]

definition columnIndexToLetters :: "int \<Rightarrow> string" where
  "columnIndexToLetters index = column_letters (index + 1) []"

definition cellAddressLabel :: "cell_address \<Rightarrow> string" where
  "cellAddressLabel a = columnIndexToLetters (col a) @ show_int (row a + 1)"

definition is_upper :: "char \<Rightarrow> bool" where
  "is_upper c \<longleftrightarrow> (let n = (of_char c :: int) in 65 \<le> n \<and> n \<le> 90)"

definition is_alpha :: "char \<Rightarrow> bool" where
  "is_alpha c \<longleftrightarrow> (let n = (of_char c :: int) in (65 \<le> n \<and> n \<le> 90) \<or> (97 \<le> n \<and> n \<le> 122))"

definition drop_dollars :: "string \<Rightarrow> string" where
  "drop_dollars s = filter (\<lambda>c. c \<noteq> CHR ''$'') s"

definition letters_value :: "string \<Rightarrow> int" where
  "letters_value s = foldl (\<lambda>acc c. acc * 26 + (of_char c - 64)) 0 s"

definition columnLettersToIndex :: "string \<Rightarrow> int option" where
  "columnLettersToIndex letters =
     (let normalized = js_upper (drop_dollars letters)
      in if normalized = [] \<or> \<not> list_all is_upper normalized then None
         else Some (letters_value normalized - 1))"

definition drop_dollar :: "string \<Rightarrow> string" where
  "drop_dollar s = (case s of c # t \<Rightarrow> if c = CHR ''$'' then t else s | [] \<Rightarrow> [])"

text \<open>
  The two patterns \<open>^($?)([A-Za-z]+)($?)(digits)$\<close> and \<open>^($?)([A-Za-z]+)$\<close> share their
  beginning; what follows the letters decides.
\<close>

definition parseCellAddressLabel :: "string \<Rightarrow> cell_address option" where
  "parseCellAddressLabel label =
     (let t = drop_dollar (js_trim label);
          letters = takeWhile is_alpha t;
          rest = dropWhile is_alpha t;
          digits = drop_dollar rest
      in if letters = [] then None
         else if digits \<noteq> [] \<and> list_all is_digit digits then
           (case columnLettersToIndex letters of
              None \<Rightarrow> None
            | Some c \<Rightarrow>
                (let r = digits_value 10 digits - 1
                 in if r < 0 \<or> c < 0 then None else Some \<lparr>row = r, col = c\<rparr>))
         else if rest = [] then map_option (\<lambda>c. \<lparr>row = 0, col = c\<rparr>) (columnLettersToIndex letters)
         else None)"

definition formatCellDisplay :: "host \<Rightarrow> cell_value \<Rightarrow> number_format option \<Rightarrow> string option \<Rightarrow> string" where
  "formatCellDisplay h v fmt customCode =
     formatValueWithNumberFormat h v (case fmt of None \<Rightarrow> General | Some f \<Rightarrow> f) customCode"

definition formulaBarValue :: "sheet_cell option \<Rightarrow> string" where
  "formulaBarValue cell =
     (case cell of
        None \<Rightarrow> []
      | Some c \<Rightarrow>
          (case opt_text (formula c) of
             [] \<Rightarrow> if cvalue c = VNull then [] else js_string (cvalue c)
           | f \<Rightarrow> if js_starts_with ''='' f then f else ''='' @ f))"

definition statusBadgeTone :: "string \<Rightarrow> badge_tone option" where
  "statusBadgeTone disp =
     (let normalized = js_lower (js_trim disp)
      in if normalized = ''on track'' then Some OnTrack
         else if normalized = ''over budget'' then Some OverBudget
         else if normalized = ''under budget'' then Some UnderBudget
         else None)"

section \<open>Ranges (selection.ts)\<close>

record cell_range =
  rstart :: cell_address
  rend :: cell_address

definition normalizeRange :: "cell_range \<Rightarrow> cell_range" where
  "normalizeRange r =
     \<lparr>rstart = \<lparr>row = min (row (rstart r)) (row (rend r)), col = min (col (rstart r)) (col (rend r))\<rparr>,
      rend = \<lparr>row = max (row (rstart r)) (row (rend r)), col = max (col (rstart r)) (col (rend r))\<rparr>\<rparr>"

definition singleCellRange :: "cell_address \<Rightarrow> cell_range" where
  "singleCellRange a = \<lparr>rstart = a, rend = a\<rparr>"

definition isCellInRange :: "int \<Rightarrow> int \<Rightarrow> cell_range \<Rightarrow> bool" where
  "isCellInRange r c rng =
     (let n = normalizeRange rng
      in r \<ge> row (rstart n) \<and> r \<le> row (rend n) \<and> c \<ge> col (rstart n) \<and> c \<le> col (rend n))"

definition rangeAddressLabel :: "cell_range \<Rightarrow> string" where
  "rangeAddressLabel rng =
     (let n = normalizeRange rng; s = cellAddressLabel (rstart n); e = cellAddressLabel (rend n)
      in if s = e then s else s @ '':'' @ e)"

text \<open>The callback's calls, in order.\<close>

definition iterateRangeCells :: "cell_range \<Rightarrow> (int \<times> int) list" where
  "iterateRangeCells rng =
     (let n = normalizeRange rng
      in concat (map (\<lambda>r. map (\<lambda>c. (r, c)) [col (rstart n)..col (rend n)]) [row (rstart n)..row (rend n)]))"

definition rangeDimensions :: "cell_range \<Rightarrow> int \<times> int" where
  "rangeDimensions rng =
     (let n = normalizeRange rng
      in (row (rend n) - row (rstart n) + 1, col (rend n) - col (rstart n) + 1))"

definition fullSheetRange :: "int \<Rightarrow> int \<Rightarrow> cell_range" where
  "fullSheetRange rowCount columnCount =
     \<lparr>rstart = \<lparr>row = 0, col = 0\<rparr>, rend = \<lparr>row = max 0 (rowCount - 1), col = max 0 (columnCount - 1)\<rparr>\<rparr>"

definition isFullSheetSelection :: "cell_range \<Rightarrow> int \<Rightarrow> int \<Rightarrow> bool" where
  "isFullSheetSelection rng rowCount columnCount =
     (if rowCount < 1 \<or> columnCount < 1 then False
      else let n = normalizeRange rng
           in row (rstart n) = 0 \<and> col (rstart n) = 0 \<and> row (rend n) = rowCount - 1 \<and>
              col (rend n) = columnCount - 1)"

section \<open>Merged regions (merge-regions.ts)\<close>

record merge_anchor_info =
  mi_region :: region
  mi_rowSpan :: int
  mi_colSpan :: int
  mi_isAnchor :: bool
  mi_isCovered :: bool

definition normalizeMergedRegion :: "region \<Rightarrow> region" where
  "normalizeMergedRegion m =
     \<lparr>startRow = min (startRow m) (endRow m), startCol = min (startCol m) (endCol m),
      endRow = max (startRow m) (endRow m), endCol = max (startCol m) (endCol m)\<rparr>"

definition in_region :: "int \<Rightarrow> int \<Rightarrow> region \<Rightarrow> bool" where
  "in_region r c m \<longleftrightarrow> r \<ge> startRow m \<and> r \<le> endRow m \<and> c \<ge> startCol m \<and> c \<le> endCol m"

fun merge_info_in :: "region list \<Rightarrow> int \<Rightarrow> int \<Rightarrow> merge_anchor_info option" where
  "merge_info_in [] r c = None"
| "merge_info_in (raw # ms) r c =
     (let m = normalizeMergedRegion raw
      in if \<not> in_region r c m then merge_info_in ms r c
         else let isAnchor = (r = startRow m \<and> c = startCol m)
              in Some \<lparr>mi_region = m, mi_rowSpan = endRow m - startRow m + 1,
                   mi_colSpan = endCol m - startCol m + 1, mi_isAnchor = isAnchor,
                   mi_isCovered = (\<not> isAnchor)\<rparr>)"

definition mergeInfoAt :: "region list option \<Rightarrow> int \<Rightarrow> int \<Rightarrow> merge_anchor_info option" where
  "mergeInfoAt regions r c = (case regions of None \<Rightarrow> None | Some ms \<Rightarrow> merge_info_in ms r c)"

definition upsertMergedRegion :: "region list option \<Rightarrow> region \<Rightarrow> region list" where
  "upsertMergedRegion regions nxt =
     (let n = normalizeMergedRegion nxt;
          without = filter (\<lambda>e. \<not> (startRow e = startRow n \<and> startCol e = startCol n))
                      (case regions of None \<Rightarrow> [] | Some ms \<Rightarrow> ms)
      in without @ [n])"

definition removeMergesIntersecting :: "region list option \<Rightarrow> int \<Rightarrow> int \<Rightarrow> int \<Rightarrow> int \<Rightarrow> region list" where
  "removeMergesIntersecting regions sr sc er ec =
     (case regions of
        None \<Rightarrow> []
      | Some ms \<Rightarrow>
          (let minRow = min sr er; maxRow = max sr er; minCol = min sc ec; maxCol = max sc ec
           in filter (\<lambda>raw. let m = normalizeMergedRegion raw
                 in endRow m < minRow \<or> startRow m > maxRow \<or> endCol m < minCol \<or> startCol m > maxCol) ms))"

section \<open>Names (named-ranges.ts)\<close>

definition parseRefToken :: "string \<Rightarrow> cell_address option" where
  "parseRefToken raw =
     (let cleaned = drop_dollars raw;
          letters = takeWhile is_alpha cleaned;
          digits = dropWhile is_alpha cleaned
      in if letters = [] \<or> digits = [] \<or> \<not> list_all is_digit digits then None
         else case columnLettersToIndex letters of
                None \<Rightarrow> None
              | Some c \<Rightarrow> (let r = digits_value 10 digits - 1 in if r < 0 then None else Some \<lparr>row = r, col = c\<rparr>))"

definition unquote :: "string \<Rightarrow> string" where
  "unquote s =
     (let t = (case s of c # u \<Rightarrow> if c = CHR 0x27 then u else s | [] \<Rightarrow> [])
      in if t \<noteq> [] \<and> last t = CHR 0x27 then butlast t else t)"

definition parseDefinedNameValue :: "string \<Rightarrow> string \<Rightarrow> named_range option" where
  "parseDefinedNameValue n raw =
     (case js_split ''!'' raw of
        [sh, ref] \<Rightarrow>
          (let parts = js_split '':'' ref
           in case (parseRefToken (hd parts), parseRefToken (last parts)) of
                (Some s, Some e) \<Rightarrow>
                  Some \<lparr>nr_name = n, nr_sheetName = unquote sh,
                    nr_bounds = \<lparr>startRow = min (row s) (row e), startCol = min (col s) (col e),
                      endRow = max (row s) (row e), endCol = max (col s) (col e)\<rparr>\<rparr>
              | _ \<Rightarrow> None)
      | _ \<Rightarrow> None)"

definition definedNameToSqref :: "named_range \<Rightarrow> string" where
  "definedNameToSqref r =
     (let sh = nr_sheetName r; b = nr_bounds r;
          prefix = (if list_ex (\<lambda>c. is_ws c \<or> c = CHR 0x27) sh
            then [CHR 0x27] @ concat (map (\<lambda>c. if c = CHR 0x27 then [CHR 0x27, CHR 0x27] else [c]) sh) @ [CHR 0x27]
            else sh);
          s = ''$'' @ columnIndexToLetters (startCol b) @ ''$'' @ show_int (startRow b + 1);
          e = ''$'' @ columnIndexToLetters (endCol b) @ ''$'' @ show_int (endRow b + 1)
      in prefix @ ''!'' @ s @ '':'' @ e)"

definition findNamedRange :: "named_range list option \<Rightarrow> string \<Rightarrow> named_range option" where
  "findNamedRange ranges n =
     (case ranges of
        None \<Rightarrow> None
      | Some rs \<Rightarrow> List.find (\<lambda>r. js_lower (nr_name r) = js_lower (js_trim n)) rs)"

section \<open>Lemmas on ranges and regions\<close>

lemma normalizeRange_idem [simp]: "normalizeRange (normalizeRange r) = normalizeRange r"
  by (simp add: normalizeRange_def)

lemma normalizeMergedRegion_idem [simp]: "normalizeMergedRegion (normalizeMergedRegion m) = normalizeMergedRegion m"
  by (simp add: normalizeMergedRegion_def)

lemma normalizeRange_le [simp]:
  "row (rstart (normalizeRange r)) \<le> row (rend (normalizeRange r))"
  "col (rstart (normalizeRange r)) \<le> col (rend (normalizeRange r))"
  by (simp_all add: normalizeRange_def)

lemma set_iterateRangeCells: "set (iterateRangeCells rng) = {(r, c). isCellInRange r c rng}"
  by (auto simp: iterateRangeCells_def isCellInRange_def Let_def)

lemma distinct_grid:
  "distinct xs \<Longrightarrow> distinct ys \<Longrightarrow> distinct (concat (map (\<lambda>r. map (\<lambda>c. (r, c)) ys) xs))"
  by (induction xs) (auto simp: distinct_map inj_on_def)

lemma length_grid: "length (concat (map (\<lambda>r. map (\<lambda>c. (r, c)) ys) xs)) = length xs * length ys"
  by (induction xs) auto

text \<open>Iterating over a range visits every cell of it exactly once and no other, as many as the
  range's dimensions say.\<close>

theorem iterateRangeCells_exact:
  "set (iterateRangeCells rng) = {(r, c). isCellInRange r c rng} \<and> distinct (iterateRangeCells rng) \<and>
   int (length (iterateRangeCells rng)) = fst (rangeDimensions rng) * snd (rangeDimensions rng)"
proof (intro conjI)
  show "set (iterateRangeCells rng) = {(r, c). isCellInRange r c rng}" by (rule set_iterateRangeCells)
  show "distinct (iterateRangeCells rng)"
    unfolding iterateRangeCells_def Let_def by (rule distinct_grid) simp_all
  show "int (length (iterateRangeCells rng)) = fst (rangeDimensions rng) * snd (rangeDimensions rng)"
    using normalizeRange_le[of rng]
    by (simp add: iterateRangeCells_def rangeDimensions_def Let_def length_grid)
qed

section \<open>Labels read back\<close>

lemma of_char_letter: "0 \<le> m \<Longrightarrow> m < 26 \<Longrightarrow> (of_char (char_of (65 + m :: int)) :: int) = 65 + m"
  by simp

lemma column_letters_value:
  "0 \<le> v \<Longrightarrow> foldl (\<lambda>acc c. acc * 26 + (of_char c - 64)) 0 (column_letters v label) =
   foldl (\<lambda>acc c. acc * 26 + (of_char c - 64)) v label"
proof (induction v label rule: column_letters.induct)
  case (1 v label)
  show ?case
  proof (cases "v > 0")
    case True
    have m: "0 \<le> (v - 1) mod 26" "(v - 1) mod 26 < 26" by simp_all
    have "(v - 1) div 26 * 26 + (65 + (v - 1) mod 26 - 64) = v" by simp
    with True 1 show ?thesis
      by (subst column_letters.simps) (simp add: of_char_letter[OF m] del: of_char_of)
  next
    case False
    with 1 show ?thesis by (subst column_letters.simps) simp
  qed
qed

lemma column_letters_upper: "list_all is_upper label \<Longrightarrow> list_all is_upper (column_letters v label)"
proof (induction v label rule: column_letters.induct)
  case (1 v label)
  have m: "0 \<le> (v - 1) mod 26" "(v - 1) mod 26 < 26" by simp_all
  have "is_upper (char_of (65 + (v - 1) mod 26))"
    unfolding is_upper_def Let_def of_char_letter[OF m] using m by simp
  with 1 show ?case by (subst column_letters.simps) simp
qed

lemma column_letters_nonempty: "label \<noteq> [] \<Longrightarrow> column_letters v label \<noteq> []"
proof (induction v label rule: column_letters.induct)
  case (1 v label)
  then show ?case by (subst column_letters.simps) simp
qed

lemma columnIndexToLetters_facts:
  assumes "0 \<le> i"
  shows "columnIndexToLetters i \<noteq> []" "list_all is_upper (columnIndexToLetters i)"
    "letters_value (columnIndexToLetters i) = i + 1"
proof -
  show "columnIndexToLetters i \<noteq> []"
    using assms column_letters_nonempty[of "[c]" v for c v]
    by (simp add: columnIndexToLetters_def column_letters.simps[of "i + 1"])
  show "list_all is_upper (columnIndexToLetters i)"
    by (simp add: columnIndexToLetters_def column_letters_upper)
  show "letters_value (columnIndexToLetters i) = i + 1"
    using column_letters_value[of "i + 1" "[]"] assms by (simp add: letters_value_def columnIndexToLetters_def)
qed

lemma int_of_char: "(of_char c :: int) = int (of_char c)"
  by (simp add: of_nat_of_char)

lemma is_upper_kinds: "is_upper c \<Longrightarrow> is_alpha c \<and> \<not> is_ws c \<and> c \<noteq> CHR ''$'' \<and> upper_char c = [c] \<and> \<not> is_digit c"
  unfolding is_upper_def is_alpha_def is_ws_def upper_char_def is_digit_def digit_of_def Let_def int_of_char
  by auto

lemma is_digit_kinds: "is_digit c \<Longrightarrow> \<not> is_alpha c \<and> \<not> is_ws c \<and> c \<noteq> CHR ''$''"
  unfolding is_alpha_def is_ws_def is_digit_def digit_of_def Let_def int_of_char
  by (auto split: if_splits)

lemma digit_char: "0 \<le> m \<Longrightarrow> m < 10 \<Longrightarrow> is_digit (char_of (48 + m :: int)) \<and> digit_of (char_of (48 + m :: int)) = m"
  by (simp add: is_digit_def digit_of_def Let_def)

lemma dec_digits_facts:
  "0 \<le> n \<Longrightarrow> dec_digits n \<noteq> [] \<and> list_all is_digit (dec_digits n) \<and> digits_value 10 (dec_digits n) = n"
proof (induction n rule: dec_digits.induct)
  case (1 n)
  show ?case
  proof (cases "n < 10")
    case True
    then show ?thesis
      using 1(2) digit_char[of n] by (simp add: dec_digits.simps[of n] digits_value_def)
  next
    case False
    have m: "0 \<le> n mod 10" "n mod 10 < 10" by simp_all
    have "n div 10 * 10 + n mod 10 = n" by simp
    with False 1 digit_char[OF m] show ?thesis
      by (subst (1 2 3) dec_digits.simps) (simp add: digits_value_def)
  qed
qed

lemma js_upper_letters: "list_all is_upper s \<Longrightarrow> js_upper (drop_dollars s) = s"
proof (induction s)
  case (Cons c s)
  then show ?case using is_upper_kinds[of c] by (simp add: js_upper_def drop_dollars_def)
qed (simp add: js_upper_def drop_dollars_def)

lemma columnLettersToIndex_inverse: "0 \<le> i \<Longrightarrow> columnLettersToIndex (columnIndexToLetters i) = Some i"
  using columnIndexToLetters_facts[of i] by (simp add: columnLettersToIndex_def js_upper_letters Let_def)

lemma js_trim_id: "s \<noteq> [] \<Longrightarrow> \<not> is_ws (hd s) \<Longrightarrow> \<not> is_ws (last s) \<Longrightarrow> js_trim s = s"
proof -
  assume a: "s \<noteq> []" "\<not> is_ws (hd s)" "\<not> is_ws (last s)"
  then have "dropWhile is_ws s = s" "dropWhile is_ws (rev s) = rev s"
    by (simp_all add: dropWhile_eq_self_iff hd_rev)
  then show ?thesis by (simp add: js_trim_def)
qed

lemma takeWhile_letters_digits:
  assumes "list_all P xs" "list_all (\<lambda>c. \<not> P c) ys"
  shows "takeWhile P (xs @ ys) = xs" "dropWhile P (xs @ ys) = ys"
  using assms by (induction xs) (auto simp: takeWhile_eq_Nil_iff dropWhile_eq_self_iff list_all_iff hd_in_set)

text \<open>C38. The label of an address reads back as the address, for every row and column.\<close>

theorem cellAddressLabel_roundtrip:
  assumes "0 \<le> row a" "0 \<le> col a"
  shows "parseCellAddressLabel (cellAddressLabel a) = Some a"
proof -
  let ?L = "columnIndexToLetters (col a)" and ?D = "dec_digits (row a + 1)"
  have L: "?L \<noteq> []" "list_all is_upper ?L" using columnIndexToLetters_facts[of "col a"] assms by auto
  have D: "?D \<noteq> []" "list_all is_digit ?D" "digits_value 10 ?D = row a + 1"
    using dec_digits_facts[of "row a + 1"] assms by auto
  have label: "cellAddressLabel a = ?L @ ?D" using assms by (simp add: cellAddressLabel_def show_int_def)
  have la: "list_all is_alpha ?L" using L(2) is_upper_kinds by (auto simp: list_all_iff)
  have da: "list_all (\<lambda>c. \<not> is_alpha c) ?D" using D(2) is_digit_kinds by (auto simp: list_all_iff)
  have hL: "is_upper (hd ?L)" using L by (cases ?L) auto
  have hD: "is_digit (hd ?D)" "is_digit (last ?D)" using D(1,2) by (auto simp: list_all_iff)
  have trim: "js_trim (?L @ ?D) = ?L @ ?D"
    using L D hL hD is_upper_kinds[of "hd ?L"] is_digit_kinds[of "last ?D"] by (intro js_trim_id) auto
  have dollar: "drop_dollar (?L @ ?D) = ?L @ ?D" "drop_dollar ?D = ?D"
    using L(1) D(1) is_upper_kinds[OF hL] is_digit_kinds[OF hD(1)]
    by (auto simp: drop_dollar_def neq_Nil_conv split: list.splits)
  show ?thesis
    unfolding parseCellAddressLabel_def label trim dollar(1) Let_def
      takeWhile_letters_digits[OF la da] dollar(2)
    using L D assms columnLettersToIndex_inverse[of "col a"] by simp
qed

theorem cellAddressLabel_roundtrip_witness:
  "cellAddressLabel \<lparr>row = 11, col = 702\<rparr> = ''AAA12'' \<and>
   parseCellAddressLabel ''AAA12'' = Some \<lparr>row = 11, col = 702\<rparr>"
proof -
  have "cellAddressLabel \<lparr>row = 11, col = 702\<rparr> = ''AAA12''" by code_simp
  with cellAddressLabel_roundtrip[of "\<lparr>row = 11, col = 702\<rparr>"] show ?thesis by simp
qed

section \<open>Merges\<close>

definition disjoint_regions :: "region \<Rightarrow> region \<Rightarrow> bool" where
  "disjoint_regions a b \<longleftrightarrow> endRow a < startRow b \<or> endRow b < startRow a \<or> endCol a < startCol b \<or> endCol b < startCol a"

definition wf_region :: "region \<Rightarrow> bool" where
  "wf_region m \<longleftrightarrow> startRow m \<le> endRow m \<and> startCol m \<le> endCol m"

text \<open>What the grid needs of a sheet's merges: every region is well oriented and no two overlap.\<close>

definition merges_ok :: "region list \<Rightarrow> bool" where
  "merges_ok ms \<longleftrightarrow> list_all wf_region ms \<and> sorted_wrt disjoint_regions ms"

lemma normalize_wf [simp]: "wf_region m \<Longrightarrow> normalizeMergedRegion m = m"
  by (simp add: wf_region_def normalizeMergedRegion_def min_def max_def)

lemma wf_normalize [simp]: "wf_region (normalizeMergedRegion m)"
  by (auto simp: wf_region_def normalizeMergedRegion_def)

lemma merges_ok_filter: "merges_ok ms \<Longrightarrow> merges_ok (filter P ms)"
  by (auto simp: merges_ok_def list_all_iff sorted_wrt_filter)

lemma removeMerges_disjoint:
  assumes "merges_ok ms" "m \<in> set (removeMergesIntersecting (Some ms) sr sc er ec)"
  shows "disjoint_regions m (normalizeMergedRegion \<lparr>startRow = sr, startCol = sc, endRow = er, endCol = ec\<rparr>)"
  using assms
  by (auto simp: removeMergesIntersecting_def Let_def merges_ok_def list_all_iff disjoint_regions_def
      normalizeMergedRegion_def[of "\<lparr>startRow = _, startCol = _, endRow = _, endCol = _\<rparr>"])

lemma removeMerges_ok: "merges_ok ms \<Longrightarrow> merges_ok (removeMergesIntersecting (Some ms) sr sc er ec)"
  by (auto simp: removeMergesIntersecting_def Let_def intro: merges_ok_filter)

lemma merge_replace_ok:
  assumes "merges_ok ms"
  shows "merges_ok (upsertMergedRegion (Some (removeMergesIntersecting (Some ms) sr sc er ec))
    \<lparr>startRow = sr, startCol = sc, endRow = er, endCol = ec\<rparr>)"
proof -
  let ?n = "\<lparr>startRow = sr, startCol = sc, endRow = er, endCol = ec\<rparr>"
  let ?rest = "filter (\<lambda>e. \<not> (startRow e = startRow (normalizeMergedRegion ?n) \<and> startCol e = startCol (normalizeMergedRegion ?n)))
      (removeMergesIntersecting (Some ms) sr sc er ec)"
  have "merges_ok ?rest" using assms by (intro merges_ok_filter removeMerges_ok)
  moreover have "\<forall>m \<in> set ?rest. disjoint_regions m (normalizeMergedRegion ?n)"
    using removeMerges_disjoint[OF assms] by auto
  ultimately show ?thesis
    by (simp add: upsertMergedRegion_def Let_def merges_ok_def sorted_wrt_append)
qed

lemma merge_info_in_Some:
  "merge_info_in ms r c = Some i \<Longrightarrow> \<exists>m \<in> set ms. mi_region i = normalizeMergedRegion m \<and> in_region r c (mi_region i)"
  by (induction ms) (auto simp: Let_def split: if_splits)

lemma merge_info_in_None: "merge_info_in ms r c = None \<longleftrightarrow> (\<forall>m \<in> set ms. \<not> in_region r c (normalizeMergedRegion m))"
  by (induction ms) (auto simp: Let_def)

end
