(* ===== verification/SheetGrid.thy ===== *)
theory SheetGrid
  imports SheetCells
begin

text \<open>
  The size of the grid: \<^verbatim>\<open>grid.ts\<close> (used range, padding, trimming before a save) and
  \<^verbatim>\<open>dimensions.ts\<close> (column widths and row heights) of \<^verbatim>\<open>frontend/src/lib/spreadsheet\<close>.

  The browser's text measurement (a canvas) is the argument \<open>gauge\<close> of the auto-fit
  functions. Worksheet metadata of the xlsx library is a list of optional records.
\<close>

section \<open>Dimensions (dimensions.ts)\<close>

definition scaledPx :: "rat \<Rightarrow> int" where
  "scaledPx base = math_round (base * (5 / 4))"

definition grid_default_row_height :: int where "grid_default_row_height = scaledPx 25"
definition grid_min_row_height :: int where "grid_min_row_height = scaledPx 14"
definition grid_default_col_width :: int where "grid_default_col_width = 64"
definition grid_min_col_width :: int where "grid_min_col_width = 20"
definition grid_max_col_width :: int where "grid_max_col_width = 255 * 7 + 5"

definition clampColumnWidth :: "rat \<Rightarrow> int" where
  "clampColumnWidth width = min grid_max_col_width (max grid_min_col_width (math_round width))"

definition wpxToDisplayPx :: "rat \<Rightarrow> int" where "wpxToDisplayPx wpx = clampColumnWidth wpx"
definition displayPxToWpx :: "rat \<Rightarrow> int" where "displayPxToWpx px = max 1 (math_round px)"
definition hpxToDisplayPx :: "rat \<Rightarrow> int" where "hpxToDisplayPx hpx = max grid_min_row_height (math_round hpx)"
definition displayPxToHpx :: "rat \<Rightarrow> int" where "displayPxToHpx px = max 1 (math_round px)"
definition hptToDisplayPx :: "rat \<Rightarrow> int" where "hptToDisplayPx hpt = hpxToDisplayPx (hpt * 96 / 72)"

definition isDefaultColumnWidth :: "dim \<Rightarrow> bool" where
  "isDefaultColumnWidth w = (case w of Px x \<Rightarrow> \<bar>x - of_int grid_default_col_width\<bar> \<le> 1 | _ \<Rightarrow> True)"

definition isDefaultRowHeight :: "dim \<Rightarrow> bool" where
  "isDefaultRowHeight w = (case w of Px x \<Rightarrow> \<bar>x - of_int grid_default_row_height\<bar> \<le> 1 | _ \<Rightarrow> True)"

text \<open>The downward loops: the last index with a property, or -1.\<close>

definition last_index :: "('a \<Rightarrow> bool) \<Rightarrow> 'a list \<Rightarrow> int" where
  "last_index p xs = int (length (dropWhile (\<lambda>x. \<not> p x) (rev xs))) - 1"

definition lastNonDefaultColumnIndex :: "dim list option \<Rightarrow> int" where
  "lastNonDefaultColumnIndex widths =
     (case widths of None \<Rightarrow> -1 | Some ws \<Rightarrow> last_index (\<lambda>w. \<not> isDefaultColumnWidth w) ws)"

definition lastNonDefaultRowIndex :: "dim list option \<Rightarrow> int" where
  "lastNonDefaultRowIndex heights =
     (case heights of None \<Rightarrow> -1 | Some hs \<Rightarrow> last_index (\<lambda>w. \<not> isDefaultRowHeight w) hs)"

definition storedCustomColumnExtent :: "dim list option \<Rightarrow> int" where
  "storedCustomColumnExtent widths =
     (let l = lastNonDefaultColumnIndex widths in if l < 0 then 0 else l + 1)"

definition storedCustomRowExtent :: "dim list option \<Rightarrow> int" where
  "storedCustomRowExtent heights =
     (let l = lastNonDefaultRowIndex heights in if l < 0 then 0 else l + 1)"

record col_meta =
  m_wpx :: "rat option"
  m_wch :: "rat option"
  m_width :: "rat option"

definition positive_of :: "rat option \<Rightarrow> rat option" where
  "positive_of x = (case x of Some v \<Rightarrow> if v > 0 then Some v else None | None \<Rightarrow> None)"

definition columnWidthFromColMeta :: "col_meta option \<Rightarrow> int" where
  "columnWidthFromColMeta meta =
     (case meta of
        None \<Rightarrow> grid_default_col_width
      | Some m \<Rightarrow>
          (let fromWch = map_option (\<lambda>w. clampColumnWidth (w * 7 + 5)) (positive_of (m_wch m));
               fromWpx = map_option clampColumnWidth (positive_of (m_wpx m))
           in case (fromWpx, fromWch) of
                (Some px, Some ch) \<Rightarrow>
                  (let wchIsDefault = isDefaultColumnWidth (Px (of_int ch));
                       wpxIsDefault = isDefaultColumnWidth (Px (of_int px))
                   in if wchIsDefault \<and> wpxIsDefault then grid_default_col_width
                      else if \<not> wpxIsDefault then px
                      else if \<not> wchIsDefault then ch
                      else grid_default_col_width)
              | (Some px, None) \<Rightarrow> px
              | (None, Some ch) \<Rightarrow> ch
              | (None, None) \<Rightarrow>
                  (case positive_of (m_width m) of
                     Some w \<Rightarrow> clampColumnWidth (w * 7 + 5)
                   | None \<Rightarrow> grid_default_col_width)))"

definition px_positive :: "dim \<Rightarrow> rat option" where
  "px_positive d = (case d of Px x \<Rightarrow> if x > 0 then Some x else None | _ \<Rightarrow> None)"

definition strip_holes :: "dim list \<Rightarrow> dim list" where
  "strip_holes ws = rev (dropWhile (\<lambda>d. d = Hole) (rev ws))"

text \<open>
  The sparse array \<open>merged\<close>: assigned at the custom widths only, so the positions before
  its last one are holes where the width is the default.
\<close>

definition grid_width :: "dim \<Rightarrow> int" where
  "grid_width raw = (case px_positive raw of Some x \<Rightarrow> clampColumnWidth x | None \<Rightarrow> grid_default_col_width)"

definition custom_entry :: "dim \<Rightarrow> dim" where
  "custom_entry raw =
     (if isDefaultColumnWidth (Px (of_int (grid_width raw))) then Hole else Px (of_int (grid_width raw)))"

definition applyGridColumnWidths :: "dim list \<Rightarrow> dim list option" where
  "applyGridColumnWidths gridWidths =
     (let merged = strip_holes (map custom_entry gridWidths)
      in if lastNonDefaultColumnIndex (Some merged) \<ge> 0 then Some merged else None)"

definition stored_at :: "dim list option \<Rightarrow> nat \<Rightarrow> dim" where
  "stored_at ds i = (case ds of None \<Rightarrow> Undef | Some xs \<Rightarrow> if i < length xs then xs ! i else Undef)"

definition resolveColumnWidths :: "dim list option \<Rightarrow> nat \<Rightarrow> int list" where
  "resolveColumnWidths widths columnCount =
     map (\<lambda>i. grid_width (stored_at widths i)) [0..<columnCount]"

definition resolveRowHeights :: "dim list option \<Rightarrow> nat \<Rightarrow> rat list" where
  "resolveRowHeights heights rowCount =
     map (\<lambda>i. case px_positive (stored_at heights i) of
                Some x \<Rightarrow> x | None \<Rightarrow> of_int grid_default_row_height) [0..<rowCount]"

definition columnWidthsFromWorksheet :: "col_meta option list \<Rightarrow> nat \<Rightarrow> int list" where
  "columnWidthsFromWorksheet cols columnCount =
     map (\<lambda>i. columnWidthFromColMeta (if i < length cols then cols ! i else None)) [0..<columnCount]"

record row_meta =
  m_hpx :: "rat option"
  m_hpt :: "rat option"

definition rowHeightsFromWorksheet :: "row_meta option list \<Rightarrow> nat \<Rightarrow> int list" where
  "rowHeightsFromWorksheet metas rowCount =
     map (\<lambda>i. case (if i < length metas then metas ! i else None) of
            None \<Rightarrow> grid_default_row_height
          | Some m \<Rightarrow>
              (case positive_of (m_hpx m) of
                 Some x \<Rightarrow> hpxToDisplayPx x
               | None \<Rightarrow>
                   (case positive_of (m_hpt m) of
                      Some t \<Rightarrow> hptToDisplayPx t
                    | None \<Rightarrow> grid_default_row_height))) [0..<rowCount]"

definition max_row_length :: "grid \<Rightarrow> nat" where
  "max_row_length g = fold max (map length g) 0"

text \<open>What is written to the worksheet's column and row entries: a size, or an empty object.\<close>

definition applyDimensionsToWorksheet :: "sheet \<Rightarrow> int option list \<times> int option list" where
  "applyDimensionsToWorksheet s =
     (let widths = resolveColumnWidths (columnWidths s) (max (max_row_length (rows s)) 1);
          heights = resolveRowHeights (rowHeights s) (length (rows s))
      in (map (\<lambda>w. if isDefaultColumnWidth (Px (of_int w)) then None else Some (displayPxToWpx (of_int w))) widths,
          map (\<lambda>h. if isDefaultRowHeight (Px h) then None else Some (displayPxToHpx h)) heights))"

definition cellFontSizePx :: "cell_style option \<Rightarrow> rat" where
  "cellFontSizePx st =
     (case (case st of None \<Rightarrow> None | Some s \<Rightarrow> positive_of (fontSize s)) of Some x \<Rightarrow> x | None \<Rightarrow> 11) * (96 / 72)"

definition is_true :: "bool option \<Rightarrow> bool" where
  "is_true b \<longleftrightarrow> b = Some True"

definition autoFitColumnWidth :: "(string \<Rightarrow> rat \<Rightarrow> bool \<Rightarrow> rat) \<Rightarrow> grid \<Rightarrow> nat \<Rightarrow> int" where
  "autoFitColumnWidth gauge g c =
     clampColumnWidth (foldl (\<lambda>maxContent line.
       case (if c < length line then Some (line ! c) else None) of
         None \<Rightarrow> maxContent
       | Some cell \<Rightarrow>
           if display cell = [] then maxContent
           else let w = gauge (display cell) (cellFontSizePx (style cell)) (is_true (bold (style_of cell))) + of_int (scaledPx 16);
                    m1 = max maxContent w
                in if is_true (isHeaderRow (style_of cell))
                   then max m1 (gauge (display cell) (of_int (scaledPx 10)) True + of_int (scaledPx 16))
                   else m1) (of_int grid_min_col_width) g)"

definition autoFitRowHeight :: "(string \<Rightarrow> rat \<Rightarrow> bool \<Rightarrow> rat) \<Rightarrow> grid \<Rightarrow> nat \<Rightarrow> dim list \<Rightarrow> int" where
  "autoFitRowHeight gauge g r widths =
     (let line = (if r < length g then g ! r else []);
          lines_of = (\<lambda>c. let cell = line ! c;
              colWidth = (case stored_at (Some widths) c of Px x \<Rightarrow> x | _ \<Rightarrow> of_int grid_default_col_width);
              innerWidth = max (colWidth - of_int (scaledPx 16)) (of_int (scaledPx 20));
              textWidth = gauge (display cell) (cellFontSizePx (style cell)) (is_true (bold (style_of cell)))
            in if display cell = [] then 1 else max 1 \<lceil>textWidth / innerWidth\<rceil>);
          maxLines = fold max (map lines_of [0..<length line]) 1
      in max grid_min_row_height (maxLines * scaledPx 16 + scaledPx 8))"

section \<open>The grid (grid.ts)\<close>

definition grid_min_column_count :: int where "grid_min_column_count = 26"
definition grid_min_row_count :: int where "grid_min_row_count = 500"
definition grid_padding_columns :: int where "grid_padding_columns = 10"
definition grid_padding_rows :: int where "grid_padding_rows = 50"

definition cellHasContent :: "sheet_cell option \<Rightarrow> bool" where
  "cellHasContent cell =
     (case cell of
        None \<Rightarrow> False
      | Some c \<Rightarrow>
          if opt_text (formula c) \<noteq> [] then True
          else if cvalue c \<noteq> VNull \<and> cvalue c \<noteq> VStr [] then True
          else (case style c of Some st \<Rightarrow> st \<noteq> no_style | None \<Rightarrow> False))"

definition rowHasContent :: "sheet_cell list option \<Rightarrow> bool" where
  "rowHasContent line = (case line of None \<Rightarrow> False | Some cs \<Rightarrow> list_ex (\<lambda>c. cellHasContent (Some c)) cs)"

definition usedColumnCount :: "grid \<Rightarrow> int" where
  "usedColumnCount g =
     foldl (\<lambda>maxCol line. max maxCol (last_index (\<lambda>c. cellHasContent (Some c)) line + 1)) 0 g"

definition usedRowCount :: "grid \<Rightarrow> int" where
  "usedRowCount g = last_index (\<lambda>line. rowHasContent (Some line)) g + 1"

definition targetGridColumnCount :: "grid \<Rightarrow> dim list option \<Rightarrow> int" where
  "targetGridColumnCount g widths =
     max (max grid_min_column_count (usedColumnCount g + grid_padding_columns))
         (max (int (max_row_length g)) (storedCustomColumnExtent widths))"

definition targetGridRowCount :: "grid \<Rightarrow> dim list option \<Rightarrow> int" where
  "targetGridRowCount g heights =
     max (max grid_min_row_count (usedRowCount g + grid_padding_rows))
         (max (int (length g)) (storedCustomRowExtent heights))"

definition padRow :: "sheet_cell list \<Rightarrow> int \<Rightarrow> sheet_cell list" where
  "padRow line columnCount =
     (let nxt = line @ replicate (nat columnCount - length line) empty_cell
      in js_slice nxt 0 columnCount)"

definition padSheetToSize :: "sheet \<Rightarrow> int \<Rightarrow> int \<Rightarrow> sheet" where
  "padSheetToSize s rowCount columnCount =
     s\<lparr>rows := map (\<lambda>i. padRow (if i < length (rows s) then rows s ! i else []) columnCount) [0..<nat rowCount]\<rparr>"

definition normalizeSheetGrid :: "sheet \<Rightarrow> sheet" where
  "normalizeSheetGrid s =
     padSheetToSize s (targetGridRowCount (rows s) (rowHeights s)) (targetGridColumnCount (rows s) (columnWidths s))"

definition expandSheetToAddress :: "sheet \<Rightarrow> int \<Rightarrow> int \<Rightarrow> sheet" where
  "expandSheetToAddress s r c =
     padSheetToSize s
       (max (targetGridRowCount (rows s) (rowHeights s)) (r + 1 + grid_padding_rows))
       (max (targetGridColumnCount (rows s) (columnWidths s)) (c + 1 + grid_padding_columns))"

definition trimSheetForSave :: "sheet \<Rightarrow> sheet" where
  "trimSheetForSave s =
     (let maxRow = max (usedRowCount (rows s) - 1) (lastNonDefaultRowIndex (rowHeights s));
          maxCol = max (usedColumnCount (rows s) - 1) (lastNonDefaultColumnIndex (columnWidths s))
      in if maxRow < 0 \<or> maxCol < 0
         then s\<lparr>rows := [[empty_cell]], columnWidths := None, rowHeights := None\<rparr>
         else let rowCount = maxRow + 1; columnCount = maxCol + 1
              in s\<lparr>rows := map (\<lambda>line. padRow line columnCount) (js_slice (rows s) 0 rowCount),
                   columnWidths := map_option (\<lambda>ws. js_slice ws 0 columnCount) (columnWidths s),
                   rowHeights := map_option (\<lambda>hs. js_slice hs 0 rowCount) (rowHeights s)\<rparr>)"

section \<open>Padding keeps the cells\<close>

lemma last_index_bounds: "-1 \<le> last_index p xs \<and> last_index p xs < int (length xs)"
  using length_dropWhile_le[of "\<lambda>x. \<not> p x" "rev xs"] by (auto simp: last_index_def)

lemma last_index_snoc: "last_index p (xs @ [x]) = (if p x then int (length xs) else last_index p xs)"
  by (simp add: last_index_def)

lemma last_index_after: "last_index p xs < int i \<Longrightarrow> i < length xs \<Longrightarrow> \<not> p (xs ! i)"
proof (induction xs rule: rev_induct)
  case (snoc x xs)
  then show ?case by (cases "i = length xs") (auto simp: last_index_snoc nth_append split: if_splits)
qed simp

lemma last_index_at: "0 \<le> last_index p xs \<Longrightarrow> p (xs ! nat (last_index p xs))"
proof (induction xs rule: rev_induct)
  case (snoc x xs)
  then show ?case
    using last_index_bounds[of p xs] by (auto simp: last_index_snoc nth_append split: if_splits)
qed (simp add: last_index_def)

lemma max_row_length_ge:
  assumes "line \<in> set g"
  shows "length line \<le> max_row_length g"
proof -
  have "max_row_length g = Max (set (0 # map length g))"
    unfolding max_row_length_def by (rule Max.set_eq_fold[symmetric])
  moreover have "length line \<in> set (0 # map length g)" using assms by simp
  ultimately show ?thesis by (simp only: Max_ge[OF finite_set])
qed

lemma usedColumnCount_ge:
  assumes "line \<in> set g"
  shows "last_index (\<lambda>c. cellHasContent (Some c)) line + 1 \<le> usedColumnCount g"
proof -
  let ?f = "\<lambda>maxCol line. max maxCol (last_index (\<lambda>c. cellHasContent (Some c)) line + 1)"
  have mono: "m \<le> foldl ?f m xs" for m xs by (induction xs arbitrary: m) (auto, meson max.boundedE)
  have "\<forall>l \<in> set xs. last_index (\<lambda>c. cellHasContent (Some c)) l + 1 \<le> foldl ?f m xs" for m xs
  proof (induction xs arbitrary: m)
    case (Cons x xs)
    then show ?case using mono[of "?f m x" xs] by auto
  qed simp
  with assms show ?thesis by (simp add: usedColumnCount_def)
qed

lemma length_padRow [simp]: "0 \<le> n \<Longrightarrow> length (padRow line n) = nat n"
  by (simp add: padRow_def Let_def js_slice_prefix)

lemma nth_padRow:
  "0 \<le> n \<Longrightarrow> i < nat n \<Longrightarrow> padRow line n ! i = (if i < length line then line ! i else empty_cell)"
  by (simp add: padRow_def Let_def js_slice_prefix nth_append)

lemma grid_at_nat:
  "grid_at g (int i) (int j) =
     (if i < length g \<and> j < length (g ! i) then Some (g ! i ! j) else None)"
  by (simp add: grid_at_def nth_opt_def)

lemma grid_at_neg: "r < 0 \<or> c < 0 \<Longrightarrow> grid_at g r c = None"
  by (auto simp: grid_at_def nth_opt_def split: option.split)

text \<open>The cells of the padded sheet: the old ones, empty ones around, nothing outside.\<close>

lemma grid_at_padSheetToSize:
  assumes "int (length (rows s)) \<le> m" "int (max_row_length (rows s)) \<le> n"
  shows "grid_at (rows (padSheetToSize s m n)) r c =
    (if 0 \<le> r \<and> r < m \<and> 0 \<le> c \<and> c < n
     then Some (case grid_at (rows s) r c of Some x \<Rightarrow> x | None \<Rightarrow> empty_cell) else None)"
proof (cases "0 \<le> r \<and> 0 \<le> c")
  case True
  then obtain i j where ij: "r = int i" "c = int j" by (metis nonneg_int_cases)
  have n: "0 \<le> n" using assms(2) by linarith
  show ?thesis
    unfolding ij grid_at_nat padSheetToSize_def
    using n by (auto simp: nth_padRow zless_nat_eq_int_zless)
next
  case False
  then show ?thesis by (auto simp: grid_at_neg)
qed

lemma target_bounds:
  "int (length g) \<le> targetGridRowCount g hs" "int (max_row_length g) \<le> targetGridColumnCount g ws"
  by (simp_all add: targetGridRowCount_def targetGridColumnCount_def)

text \<open>Making room for a cell keeps every cell of the sheet, adds only empty cells, and the address
  asked for is then inside the grid with the scroll padding after it.\<close>

theorem expandSheetToAddress_keeps_cells:
  assumes "0 \<le> r" "0 \<le> c"
  shows "(\<forall>i j x. grid_at (rows s) i j = Some x \<longrightarrow> grid_at (rows (expandSheetToAddress s r c)) i j = Some x) \<and>
    (\<forall>i j x. grid_at (rows s) i j = None \<longrightarrow> grid_at (rows (expandSheetToAddress s r c)) i j \<in> {None, Some empty_cell}) \<and>
    (\<forall>i j. 0 \<le> i \<and> i \<le> r + grid_padding_rows \<and> 0 \<le> j \<and> j \<le> c + grid_padding_columns \<longrightarrow>
       grid_at (rows (expandSheetToAddress s r c)) i j \<noteq> None) \<and>
    (expandSheetToAddress s r c)\<lparr>rows := rows s\<rparr> = s"
proof -
  let ?m = "max (targetGridRowCount (rows s) (rowHeights s)) (r + 1 + grid_padding_rows)"
  let ?n = "max (targetGridColumnCount (rows s) (columnWidths s)) (c + 1 + grid_padding_columns)"
  have b: "int (length (rows s)) \<le> ?m" "int (max_row_length (rows s)) \<le> ?n"
    using target_bounds[of "rows s"] by (meson max.coboundedI1)+
  note at = grid_at_padSheetToSize[OF b, folded expandSheetToAddress_def]
  have inside: "0 \<le> i \<and> i < int (length (rows s)) \<and> 0 \<le> j \<and> j < int (max_row_length (rows s))"
    if "grid_at (rows s) i j = Some x" for i j x
    using that max_row_length_ge[of "rows s ! nat i" "rows s"]
    by (auto simp: grid_at_def nth_opt_def split: option.splits if_splits)
  show ?thesis
  proof (intro conjI allI impI)
    show "grid_at (rows (expandSheetToAddress s r c)) i j = Some x" if "grid_at (rows s) i j = Some x" for i j x
      using inside[OF that] b that by (simp add: at)
    show "grid_at (rows (expandSheetToAddress s r c)) i j \<in> {None, Some empty_cell}" if "grid_at (rows s) i j = None" for i j
      using that by (simp add: at)
    show "grid_at (rows (expandSheetToAddress s r c)) i j \<noteq> None"
      if "0 \<le> i \<and> i \<le> r + grid_padding_rows \<and> 0 \<le> j \<and> j \<le> c + grid_padding_columns" for i j
      using that by (auto simp: at)
    show "(expandSheetToAddress s r c)\<lparr>rows := rows s\<rparr> = s"
      by (simp add: expandSheetToAddress_def padSheetToSize_def)
  qed
qed

theorem expandSheetToAddress_keeps_cells_witness:
  "let s = new_sheet ''S'' [[empty_cell\<lparr>cvalue := VNum 7\<rparr>]]; t = expandSheetToAddress s 600 30
   in (\<forall>i j x. grid_at (rows s) i j = Some x \<longrightarrow> grid_at (rows t) i j = Some x) \<and>
      grid_at (rows t) 650 40 \<noteq> None"
  using expandSheetToAddress_keeps_cells[of 600 30 "new_sheet ''S'' [[empty_cell\<lparr>cvalue := VNum 7\<rparr>]]"]
  by (simp add: Let_def grid_padding_rows_def grid_padding_columns_def)

section \<open>Trimming keeps the content\<close>

lemma last_index_ge: "i < length xs \<Longrightarrow> p (xs ! i) \<Longrightarrow> int i \<le> last_index p xs"
  using last_index_after[of p xs i] by linarith

lemma content_in_used:
  assumes "grid_at (rows s) i j = Some x" "cellHasContent (Some x)"
  shows "0 \<le> i" "0 \<le> j" "i < usedRowCount (rows s)" "j < usedColumnCount (rows s)"
proof -
  obtain line where line: "nth_opt (rows s) i = Some line" "nth_opt line j = Some x"
    using assms(1) by (auto simp: grid_at_def split: option.splits)
  then have i: "0 \<le> i" "nat i < length (rows s)" "rows s ! nat i = line"
    and j: "0 \<le> j" "nat j < length line" "line ! nat j = x"
    by (auto simp: nth_opt_Some_iff)
  show "0 \<le> i" "0 \<le> j" by (fact i(1), fact j(1))
  have "rowHasContent (Some line)"
    using j assms(2) by (auto simp: rowHasContent_def list_ex_iff intro!: bexI[of _ x])
  with i have "int (nat i) \<le> last_index (\<lambda>line. rowHasContent (Some line)) (rows s)"
    by (intro last_index_ge) auto
  then show "i < usedRowCount (rows s)" using i(1) by (simp add: usedRowCount_def)
  have "int (nat j) \<le> last_index (\<lambda>c. cellHasContent (Some c)) line"
    using j assms(2) by (intro last_index_ge) auto
  moreover have "line \<in> set (rows s)" using i by auto
  ultimately show "j < usedColumnCount (rows s)" using j(1) usedColumnCount_ge by fastforce
qed

lemma grid_at_trimmed:
  assumes "0 \<le> m" "0 \<le> n"
  shows "grid_at (map (\<lambda>line. padRow line n) (js_slice g 0 m)) i j =
    (if 0 \<le> i \<and> i < m \<and> i < int (length g) \<and> 0 \<le> j \<and> j < n
     then Some (case grid_at g i j of Some x \<Rightarrow> x | None \<Rightarrow> empty_cell) else None)"
proof (cases "0 \<le> i \<and> 0 \<le> j")
  case True
  then obtain a b where ab: "i = int a" "j = int b" by (metis nonneg_int_cases)
  show ?thesis
    unfolding ab grid_at_nat using assms
    by (auto simp: js_slice_prefix nth_padRow zless_nat_eq_int_zless nat_less_iff)
next
  case False
  then show ?thesis by (auto simp: grid_at_neg)
qed

text \<open>C22. Trimming a sheet for the save loses no content: every cell with a formula, a value or a
  style is at its place in the trimmed sheet, and every cell of the trimmed sheet is the old cell
  or an empty one.\<close>

theorem trimSheetForSave_keeps_content:
  "(grid_at (rows s) i j = Some x \<and> cellHasContent (Some x) \<longrightarrow> grid_at (rows (trimSheetForSave s)) i j = Some x) \<and>
   (grid_at (rows (trimSheetForSave s)) i j = Some y \<longrightarrow> y = empty_cell \<or> grid_at (rows s) i j = Some y)"
proof -
  define m where "m = max (usedRowCount (rows s) - 1) (lastNonDefaultRowIndex (rowHeights s))"
  define n where "n = max (usedColumnCount (rows s) - 1) (lastNonDefaultColumnIndex (columnWidths s))"
  show ?thesis
  proof (cases "m < 0 \<or> n < 0")
    case True
    have t: "rows (trimSheetForSave s) = [[empty_cell]]"
      using True by (simp add: trimSheetForSave_def m_def[symmetric] n_def[symmetric] Let_def)
    have "\<not> (grid_at (rows s) i j = Some x \<and> cellHasContent (Some x))"
      using True content_in_used[of s i j x] by (auto simp: m_def n_def)
    moreover have "grid_at [[empty_cell]] i j = Some y \<Longrightarrow> y = empty_cell"
      by (auto simp: grid_at_def nth_opt_def split: option.splits if_splits)
    ultimately show ?thesis unfolding t by blast
  next
    case False
    then have t: "rows (trimSheetForSave s) = map (\<lambda>line. padRow line (n + 1)) (js_slice (rows s) 0 (m + 1))"
      by (simp add: trimSheetForSave_def m_def[symmetric] n_def[symmetric] Let_def)
    have mn: "0 \<le> m + 1" "0 \<le> n + 1" using False by auto
    have "i < m + 1 \<and> j < n + 1 \<and> 0 \<le> i \<and> 0 \<le> j \<and> i < int (length (rows s))"
      if "grid_at (rows s) i j = Some x" "cellHasContent (Some x)"
      using content_in_used[OF that] that(1)
      by (auto simp: m_def n_def grid_at_def nth_opt_def split: option.splits if_splits)
    then show ?thesis
      unfolding t grid_at_trimmed[OF mn] by (auto split: if_splits option.splits)
  qed
qed

theorem trimSheetForSave_keeps_content_witness:
  "let s = new_sheet ''S'' [[empty_cell, empty_cell\<lparr>cvalue := VNum 7\<rparr>, empty_cell], [empty_cell, empty_cell, empty_cell]]
   in grid_at (rows (trimSheetForSave s)) 0 1 = Some (empty_cell\<lparr>cvalue := VNum 7\<rparr>) \<and>
      rows (trimSheetForSave s) = [[empty_cell, empty_cell\<lparr>cvalue := VNum 7\<rparr>]]"
proof -
  let ?s = "new_sheet ''S'' [[empty_cell, empty_cell\<lparr>cvalue := VNum 7\<rparr>, empty_cell], [empty_cell, empty_cell, empty_cell]]"
  have "grid_at (rows ?s) 0 1 = Some (empty_cell\<lparr>cvalue := VNum 7\<rparr>)"
    and "cellHasContent (Some (empty_cell\<lparr>cvalue := VNum 7\<rparr>))"
    and "rows (trimSheetForSave ?s) = [[empty_cell, empty_cell\<lparr>cvalue := VNum 7\<rparr>]]" by code_simp+
  then show ?thesis
    using trimSheetForSave_keeps_content[of ?s 0 1 "empty_cell\<lparr>cvalue := VNum 7\<rparr>" empty_cell] by (simp add: Let_def)
qed

section \<open>Column widths\<close>

text \<open>What the grid shows for a width it was given: the width itself, clamped, unless it is within
  a pixel of the default.\<close>

definition shown_width :: "dim \<Rightarrow> int" where
  "shown_width raw =
     (if isDefaultColumnWidth (Px (of_int (grid_width raw))) then grid_default_col_width else grid_width raw)"

lemma clampColumnWidth_int: "20 \<le> w \<Longrightarrow> w \<le> 1790 \<Longrightarrow> clampColumnWidth (of_int w) = w"
proof -
  have "math_round (of_int w) = w" unfolding math_round_def by (simp add: floor_unique)
  then show "20 \<le> w \<Longrightarrow> w \<le> 1790 \<Longrightarrow> clampColumnWidth (of_int w) = w"
    by (simp add: clampColumnWidth_def grid_max_col_width_def grid_min_col_width_def)
qed

lemma clampColumnWidth_range: "20 \<le> clampColumnWidth x \<and> clampColumnWidth x \<le> 1790"
  by (auto simp: clampColumnWidth_def grid_max_col_width_def grid_min_col_width_def)

lemma strip_holes_nth:
  "i < length ds \<Longrightarrow> (if i < length (strip_holes ds) then strip_holes ds ! i else Hole) = ds ! i"
proof (induction ds rule: rev_induct)
  case (snoc d ds)
  show ?case
  proof (cases "d = Hole")
    case True
    then have e: "strip_holes (ds @ [d]) = strip_holes ds" by (simp add: strip_holes_def)
    have le: "length (strip_holes ds) \<le> length ds"
      using length_dropWhile_le[of "\<lambda>d. d = Hole" "rev ds"] by (simp add: strip_holes_def)
    show ?thesis
    proof (cases "i < length ds")
      case i: True
      then show ?thesis using snoc.IH[OF i] e by (simp add: nth_append split: if_splits)
    next
      case False
      then show ?thesis using snoc.prems e le True by (simp add: nth_append)
    qed
  next
    case False
    then have "strip_holes (ds @ [d]) = ds @ [d]" by (simp add: strip_holes_def)
    with snoc.prems show ?thesis by simp
  qed
qed simp

lemma last_index_neg: "last_index p xs < 0 \<longleftrightarrow> (\<forall>x \<in> set xs. \<not> p x)"
  by (induction xs rule: rev_induct) (auto simp: last_index_snoc, simp add: last_index_def)

lemma grid_width_simps [simp]:
  "grid_width Hole = grid_default_col_width" "grid_width Undef = grid_default_col_width"
  by (simp_all add: grid_width_def px_positive_def)

lemma grid_width_range: "20 \<le> grid_width d \<and> grid_width d \<le> 1790"
  using clampColumnWidth_range by (auto simp: grid_width_def grid_default_col_width_def split: option.split)

lemma grid_width_int: "20 \<le> w \<Longrightarrow> w \<le> 1790 \<Longrightarrow> grid_width (Px (of_int w)) = w"
  by (simp add: grid_width_def px_positive_def clampColumnWidth_int)

lemma grid_width_entry [simp]: "grid_width (custom_entry d) = shown_width d"
  using grid_width_range[of d] by (simp add: custom_entry_def shown_width_def grid_width_int)

lemma custom_entry_default: "isDefaultColumnWidth (custom_entry d) \<longleftrightarrow> custom_entry d = Hole"
  by (simp add: custom_entry_def) (simp add: isDefaultColumnWidth_def)

lemma isDefaultColumnWidth_Hole [simp]: "isDefaultColumnWidth Hole"
  by (simp add: isDefaultColumnWidth_def)

text \<open>Column widths survive the sparse storage: storing the grid's widths and reading them back
  gives every width as the grid shows it, holes of the sparse array included.\<close>

theorem columnWidths_roundtrip:
  "resolveColumnWidths (applyGridColumnWidths ws) (length ws) = map shown_width ws"
proof (rule nth_equalityI)
  let ?m = "strip_holes (map custom_entry ws)"
  fix i assume "i < length (resolveColumnWidths (applyGridColumnWidths ws) (length ws))"
  then have i: "i < length ws" by (simp add: resolveColumnWidths_def)
  have at: "(if i < length ?m then ?m ! i else Hole) = custom_entry (ws ! i)"
    using strip_holes_nth[of i "map custom_entry ws"] i by simp
  show "resolveColumnWidths (applyGridColumnWidths ws) (length ws) ! i = map shown_width ws ! i"
  proof (cases "lastNonDefaultColumnIndex (Some ?m) \<ge> 0")
    case True
    then have "applyGridColumnWidths ws = Some ?m" by (simp add: applyGridColumnWidths_def)
    moreover have "grid_width (stored_at (Some ?m) i) = grid_width (if i < length ?m then ?m ! i else Hole)"
      by (simp add: stored_at_def)
    ultimately show ?thesis
      unfolding at using i by (simp add: resolveColumnWidths_def)
  next
    case False
    then have none: "applyGridColumnWidths ws = None" by (simp add: applyGridColumnWidths_def)
    from False have "\<forall>d \<in> set ?m. isDefaultColumnWidth d"
      by (simp add: lastNonDefaultColumnIndex_def last_index_neg not_le)
    then have "isDefaultColumnWidth (if i < length ?m then ?m ! i else Hole)" by simp
    then have "custom_entry (ws ! i) = Hole" unfolding at by (simp add: custom_entry_default)
    then have "shown_width (ws ! i) = grid_default_col_width" using grid_width_entry[of "ws ! i"] by simp
    then show ?thesis using i none by (simp add: resolveColumnWidths_def stored_at_def)
  qed
qed (simp add: resolveColumnWidths_def)

end
