(* ===== verification/SheetOps.thy ===== *)
theory SheetOps
  imports SheetGrid "HOL-Library.AList"
begin

text \<open>
  The structural operations on a workbook: \<^verbatim>\<open>frontend/src/lib/spreadsheet/workbook-ops.ts\<close> and
  \<^verbatim>\<open>csv-import.ts\<close>. Every operation takes a workbook and returns the new one, with the fields the
  code gives it: some operations spread the old workbook, others return an object that has only
  \<open>sheets\<close> (\<open>only_sheets\<close>).
\<close>

section \<open>Helpers\<close>

definition on_sheet :: "int \<Rightarrow> (sheet \<Rightarrow> sheet) \<Rightarrow> sheet list \<Rightarrow> sheet list" where
  "on_sheet k f ss = mapi (\<lambda>i s. if i = k then f s else s) ss"

definition map_cells :: "(int \<Rightarrow> int \<Rightarrow> sheet_cell \<Rightarrow> sheet_cell) \<Rightarrow> grid \<Rightarrow> grid" where
  "map_cells f g = mapi (\<lambda>r line. mapi (\<lambda>c x. f r c x) line) g"

definition in_norm :: "cell_range \<Rightarrow> int \<Rightarrow> int \<Rightarrow> bool" where
  "in_norm n r c \<longleftrightarrow> r \<ge> row (rstart n) \<and> r \<le> row (rend n) \<and> c \<ge> col (rstart n) \<and> c \<le> col (rend n)"

definition or_else :: "'a option \<Rightarrow> 'a \<Rightarrow> 'a" where
  "or_else x d = (case x of Some v \<Rightarrow> v | None \<Rightarrow> d)"

definition non_empty :: "'a list \<Rightarrow> 'a list option" where
  "non_empty xs = (if xs = [] then None else Some xs)"

text \<open>An entry's number when the text is one after removing currency signs, separators and spaces.\<close>

definition parse_entry :: "string \<Rightarrow> cell_value" where
  "parse_entry s = (if s = [] then VNull else case js_number (strip_money s) of Some n \<Rightarrow> VNum n | None \<Rightarrow> VStr s)"

definition emptyRow :: "nat \<Rightarrow> sheet_cell list" where
  "emptyRow n = replicate n empty_cell"

definition padRows :: "grid \<Rightarrow> nat \<Rightarrow> nat \<Rightarrow> grid" where
  "padRows g minRows minCols =
     (let cols = max (max minCols (max_row_length g)) 1;
          nxt = map (\<lambda>line. line @ replicate (cols - length line) empty_cell) g
      in nxt @ replicate (minRows - length nxt) (emptyRow cols))"

section \<open>Sheets\<close>

definition addSheet :: "workbook \<Rightarrow> string option \<Rightarrow> workbook" where
  "addSheet w n =
     (let baseName = or_else n (''Sheet'' @ show_int (int (length (sheets w)) + 1))
      in only_sheets (sheets w @ [normalizeSheetGrid (new_sheet baseName [[empty_cell]])]))"

definition removeSheet :: "workbook \<Rightarrow> int \<Rightarrow> workbook" where
  "removeSheet w k = (if length (sheets w) \<le> 1 then w else only_sheets (filteri (\<lambda>i. i \<noteq> k) (sheets w)))"

definition renameSheet :: "workbook \<Rightarrow> int \<Rightarrow> string \<Rightarrow> workbook" where
  "renameSheet w k n =
     (let trimmed = js_trim n
      in if trimmed = [] then w else only_sheets (on_sheet k (\<lambda>s. s\<lparr>name := trimmed\<rparr>) (sheets w)))"

text \<open>\<open>splice(i, 1)\<close>: the element removed, when there is one, and the rest.\<close>

definition js_splice_remove :: "int \<Rightarrow> 'a list \<Rightarrow> 'a option \<times> 'a list" where
  "js_splice_remove i xs =
     (let p = js_pos (length xs) i
      in (if p < length xs then Some (xs ! p) else None, take p xs @ drop (Suc p) xs))"

definition moveSheet :: "workbook \<Rightarrow> int \<Rightarrow> int \<Rightarrow> workbook" where
  "moveSheet w fromIndex toIndex =
     (if fromIndex = toIndex then w
      else case js_splice_remove fromIndex (sheets w) of
             (None, _) \<Rightarrow> w
           | (Some s, rest) \<Rightarrow> only_sheets (js_splice_insert toIndex s rest))"

definition activeSheetIndexAfterMove :: "int \<Rightarrow> int \<Rightarrow> int \<Rightarrow> int" where
  "activeSheetIndexAfterMove active fromIndex toIndex =
     (if active = fromIndex then toIndex
      else if fromIndex < toIndex then
        (if active > fromIndex \<and> active \<le> toIndex then active - 1 else active)
      else if fromIndex > toIndex then
        (if active \<ge> toIndex \<and> active < fromIndex then active + 1 else active)
      else active)"

section \<open>Rows and columns\<close>

definition dim_at :: "dim list \<Rightarrow> int \<Rightarrow> rat option" where
  "dim_at ds i = (case nth_opt ds i of Some (Px x) \<Rightarrow> Some x | _ \<Rightarrow> None)"

definition fill_holes :: "dim list \<Rightarrow> dim list" where
  "fill_holes ds = map (\<lambda>d. if d = Hole then Undef else d) ds"

definition splice_dim :: "int \<Rightarrow> rat \<Rightarrow> dim list \<Rightarrow> dim list" where
  "splice_dim pos dflt ds =
     js_splice_insert pos (Px (or_else (dim_at ds pos) (or_else (dim_at ds (pos - 1)) dflt))) (fill_holes ds)"

text \<open>\<open>filter\<close> on a sparse array visits, and keeps, no hole.\<close>

definition filter_dims :: "int \<Rightarrow> dim list \<Rightarrow> dim list" where
  "filter_dims pos ds = filter (\<lambda>d. d \<noteq> Hole) (filteri (\<lambda>i. i \<noteq> pos) ds)"

definition insertRow :: "workbook \<Rightarrow> int \<Rightarrow> int \<Rightarrow> workbook" where
  "insertRow w k atRow =
     only_sheets (on_sheet k (\<lambda>s.
       let colCount = max (max_row_length (rows s)) (nat grid_min_column_count);
           nextRows = js_splice_insert atRow (emptyRow colCount) (rows s)
       in s\<lparr>rows := padRows nextRows (nat grid_min_row_count) colCount,
            rowHeights := map_option (splice_dim atRow 24) (rowHeights s)\<rparr>) (sheets w))"

definition deleteRow :: "workbook \<Rightarrow> int \<Rightarrow> int \<Rightarrow> workbook" where
  "deleteRow w k atRow =
     only_sheets (on_sheet k (\<lambda>s.
       if length (rows s) \<le> 1 then s
       else s\<lparr>rows := filteri (\<lambda>i. i \<noteq> atRow) (rows s),
              rowHeights := map_option (filter_dims atRow) (rowHeights s)\<rparr>) (sheets w))"

definition insertColumn :: "workbook \<Rightarrow> int \<Rightarrow> int \<Rightarrow> workbook" where
  "insertColumn w k atCol =
     only_sheets (on_sheet k (\<lambda>s.
       s\<lparr>rows := map (js_splice_insert atCol empty_cell) (rows s),
         columnWidths := map_option (splice_dim atCol 80) (columnWidths s)\<rparr>) (sheets w))"

definition deleteColumn :: "workbook \<Rightarrow> int \<Rightarrow> int \<Rightarrow> workbook" where
  "deleteColumn w k atCol =
     only_sheets (on_sheet k (\<lambda>s.
       s\<lparr>rows := map (\<lambda>line. if length line \<le> 1 then line else filteri (\<lambda>i. i \<noteq> atCol) line) (rows s),
         columnWidths := map_option (filter_dims atCol) (columnWidths s)\<rparr>) (sheets w))"

section \<open>Sorting and filtering\<close>

datatype sort_direction = Asc | Desc

text \<open>
  \<open>Array.prototype.sort\<close> is stable; for a comparison that is a total preorder its result is
  determined, and any stable sort computes it.
\<close>

fun insert_by :: "('a \<Rightarrow> 'a \<Rightarrow> int) \<Rightarrow> 'a \<Rightarrow> 'a list \<Rightarrow> 'a list" where
  "insert_by cmp x [] = [x]"
| "insert_by cmp x (y # ys) = (if cmp x y \<le> 0 then x # y # ys else y # insert_by cmp x ys)"

definition js_sort :: "('a \<Rightarrow> 'a \<Rightarrow> int) \<Rightarrow> 'a list \<Rightarrow> 'a list" where
  "js_sort cmp xs = foldr (insert_by cmp) xs []"

definition sort_value :: "sheet_cell list \<Rightarrow> int \<Rightarrow> cell_value" where
  "sort_value line c =
     (case nth_opt line c of
        None \<Rightarrow> VStr []
      | Some x \<Rightarrow> if cvalue x = VNull then VStr (display x) else cvalue x)"

definition to_number :: "cell_value \<Rightarrow> rat option" where
  "to_number v = (case v of VNull \<Rightarrow> Some 0 | VNum n \<Rightarrow> Some n | VStr s \<Rightarrow> js_number s)"

definition compare_values :: "host \<Rightarrow> cell_value \<Rightarrow> cell_value \<Rightarrow> int" where
  "compare_values h a b =
     (case (to_number a, to_number b) of
        (Some x, Some y) \<Rightarrow> (if x < y then -1 else if x = y then 0 else 1)
      | _ \<Rightarrow> h_localeCompare h (js_string a) (js_string b))"

definition sort_body :: "(sheet_cell list \<Rightarrow> sheet_cell list \<Rightarrow> int) \<Rightarrow> grid \<Rightarrow> grid" where
  "sort_body cmp g = (case g of [] \<Rightarrow> [] | header # body \<Rightarrow> header # js_sort cmp body)"

definition directed :: "sort_direction \<Rightarrow> int \<Rightarrow> int" where
  "directed d c = (if d = Asc then c else - c)"

definition sortSheetByColumn :: "host \<Rightarrow> workbook \<Rightarrow> int \<Rightarrow> int \<Rightarrow> sort_direction \<Rightarrow> workbook" where
  "sortSheetByColumn h w k c d =
     only_sheets (on_sheet k (\<lambda>s. s\<lparr>rows :=
       sort_body (\<lambda>a b. directed d (compare_values h (sort_value a c) (sort_value b c))) (rows s)\<rparr>) (sheets w))"

fun compare_by_keys :: "host \<Rightarrow> (int \<times> sort_direction) list \<Rightarrow> sheet_cell list \<Rightarrow> sheet_cell list \<Rightarrow> int" where
  "compare_by_keys h [] a b = 0"
| "compare_by_keys h ((c, d) # keys) a b =
     (let v = compare_values h (sort_value a c) (sort_value b c)
      in if v \<noteq> 0 then directed d v else compare_by_keys h keys a b)"

definition sortSheetByColumns :: "host \<Rightarrow> workbook \<Rightarrow> int \<Rightarrow> (int \<times> sort_direction) list \<Rightarrow> workbook" where
  "sortSheetByColumns h w k keys =
     only_sheets (on_sheet k (\<lambda>s. s\<lparr>rows := sort_body (compare_by_keys h keys) (rows s)\<rparr>) (sheets w))"

text \<open>The workbook and the rows to hide, in the order the loop adds them.\<close>

definition applyColumnFilter :: "workbook \<Rightarrow> int \<Rightarrow> int \<Rightarrow> string \<Rightarrow> workbook \<times> int list" where
  "applyColumnFilter w k c query =
     (let q = js_lower (js_trim query);
          hidden_in = (\<lambda>s. concat (mapi (\<lambda>r line.
            if r = 0 then []
            else if q \<noteq> [] \<and> \<not> js_includes q (js_lower (case nth_opt line c of Some x \<Rightarrow> display x | None \<Rightarrow> []))
                 then [r] else []) (rows s)))
      in (only_sheets (sheets w), concat (mapi (\<lambda>i s. if i = k then hidden_in s else []) (sheets w))))"

definition js_rem :: "int \<Rightarrow> int \<Rightarrow> int" where
  "js_rem a b = (if a < 0 then - ((- a) mod b) else a mod b)"

definition findInSheet :: "sheet \<Rightarrow> string \<Rightarrow> cell_address \<Rightarrow> cell_address option" where
  "findInSheet s query st =
     (let normalized = js_lower (js_trim query);
          nrows = int (length (rows s));
          cols = int (max (max_row_length (rows s)) 1);
          spot = (\<lambda>k. let flat = js_rem (row st * cols + col st + k + 1) (nrows * cols)
                    in \<lparr>row = flat div cols, col = js_rem flat cols\<rparr>)
      in if normalized = [] then None
         else map_option spot (List.find (\<lambda>k.
           js_includes normalized (js_lower (case grid_at (rows s) (row (spot k)) (col (spot k)) of
             Some x \<Rightarrow> display x | None \<Rightarrow> []))) [0..nrows * cols - 1]))"

text \<open>
  \<open>String.prototype.replace\<close> with an escaped pattern and the flags \<open>gi\<close>: every occurrence in
  turn, letters compared without case, and the replacement's \<open>$\<close> patterns expanded with the text
  matched, before and after the match.
\<close>

fun expand_replacement :: "string \<Rightarrow> string \<Rightarrow> string \<Rightarrow> string \<Rightarrow> string" where
  "expand_replacement m pre post (a # b # t) =
     (if a \<noteq> CHR ''$'' then a # expand_replacement m pre post (b # t)
      else if b = CHR ''$'' then CHR ''$'' # expand_replacement m pre post t
      else if b = CHR ''&'' then m @ expand_replacement m pre post t
      else if b = CHR 0x60 then pre @ expand_replacement m pre post t
      else if b = CHR 0x27 then post @ expand_replacement m pre post t
      else a # expand_replacement m pre post (b # t))"
| "expand_replacement m pre post s = s"

fun replace_ci :: "string \<Rightarrow> string \<Rightarrow> string \<Rightarrow> nat \<Rightarrow> string \<Rightarrow> string" where
  "replace_ci pat repl pre skip [] = []"
| "replace_ci pat repl pre skip (c # s) =
     (if skip > 0 then replace_ci pat repl (c # pre) (skip - 1) s
      else if pat \<noteq> [] \<and> length pat \<le> length (c # s) \<and>
              js_lower (take (length pat) (c # s)) = js_lower pat
      then expand_replacement (take (length pat) (c # s)) (rev pre) (drop (length pat) (c # s)) repl @
           replace_ci pat repl (c # pre) (length pat - 1) s
      else c # replace_ci pat repl (c # pre) 0 s)"

definition replace_in_cell :: "host \<Rightarrow> string \<Rightarrow> string \<Rightarrow> sheet_cell \<Rightarrow> sheet_cell" where
  "replace_in_cell h findText replaceText x =
     (let v = parse_entry (replace_ci findText replaceText [] 0 (display x))
      in x\<lparr>formula := None, cvalue := v,
           display := formatCellDisplay h v (numberFormat (style_of x)) None\<rparr>)"

text \<open>The flag \<open>replaced\<close> is threaded through the cells in reading order.\<close>

fun replace_row :: "host \<Rightarrow> (int \<Rightarrow> int \<Rightarrow> bool) \<Rightarrow> string \<Rightarrow> string \<Rightarrow> bool \<Rightarrow> int \<Rightarrow> int \<Rightarrow> bool \<Rightarrow>
    sheet_cell list \<Rightarrow> bool \<times> sheet_cell list" where
  "replace_row h inside f t all r c done [] = (done, [])"
| "replace_row h inside f t all r c done (x # xs) =
     (if inside r c \<and> js_includes (js_lower f) (js_lower (display x)) \<and> (\<not> done \<or> all)
      then let (d, ys) = replace_row h inside f t all r (c + 1) True xs in (d, replace_in_cell h f t x # ys)
      else let (d, ys) = replace_row h inside f t all r (c + 1) done xs in (d, x # ys))"

fun replace_rows :: "host \<Rightarrow> (int \<Rightarrow> int \<Rightarrow> bool) \<Rightarrow> string \<Rightarrow> string \<Rightarrow> bool \<Rightarrow> int \<Rightarrow> bool \<Rightarrow> grid \<Rightarrow> grid" where
  "replace_rows h inside f t all r done [] = []"
| "replace_rows h inside f t all r done (line # g) =
     (let (d, ys) = replace_row h inside f t all r 0 done line
      in ys # replace_rows h inside f t all (r + 1) d g)"

definition replaceInWorkbook ::
    "host \<Rightarrow> workbook \<Rightarrow> int \<Rightarrow> cell_range option \<Rightarrow> string \<Rightarrow> string \<Rightarrow> bool \<Rightarrow> workbook" where
  "replaceInWorkbook h w k rng findText replaceText replaceAll =
     (if js_lower findText = [] then w
      else let inside = (case rng of None \<Rightarrow> (\<lambda>r c. True) | Some g \<Rightarrow> in_norm (normalizeRange g))
           in only_sheets (on_sheet k (\<lambda>s. s\<lparr>rows :=
                replace_rows h inside findText replaceText replaceAll 0 False (rows s)\<rparr>) (sheets w)))"

end
