(* ===== verification/SheetEdits.thy ===== *)
theory SheetEdits
  imports SheetOps
begin

text \<open>
  The rest of \<^verbatim>\<open>frontend/src/lib/spreadsheet/workbook-ops.ts\<close>: merges, duplicates, panes, rules,
  comments, tables, names, print and page settings, hidden and grouped rows, charts, change
  tracking and clearing; with \<^verbatim>\<open>csv-import.ts\<close> and \<^verbatim>\<open>data-validation.ts\<close>.
\<close>

section \<open>Merges and duplicates\<close>

definition bounds_of :: "cell_range \<Rightarrow> region" where
  "bounds_of n = \<lparr>startRow = row (rstart n), startCol = col (rstart n), endRow = row (rend n), endCol = col (rend n)\<rparr>"

definition blank_cell :: "sheet_cell \<Rightarrow> sheet_cell" where
  "blank_cell x = x\<lparr>cvalue := VNull, formula := None, display := []\<rparr>"

definition mergeCellsInRange :: "workbook \<Rightarrow> int \<Rightarrow> cell_range \<Rightarrow> workbook" where
  "mergeCellsInRange w k rng =
     (let n = normalizeRange rng; b = bounds_of n
      in only_sheets (on_sheet k (\<lambda>s.
           let topLeft = or_else (grid_at (rows s) (startRow b) (startCol b)) empty_cell;
               mergedDisplay = display topLeft
           in s\<lparr>rows := map_cells (\<lambda>r c x.
                  if \<not> in_norm n r c then x
                  else if r = startRow b \<and> c = startCol b then x\<lparr>display := mergedDisplay\<rparr>
                  else blank_cell x) (rows s),
                mergedRegions := Some (upsertMergedRegion
                  (Some (removeMergesIntersecting (mergedRegions s) (startRow b) (startCol b) (endRow b) (endCol b))) b)\<rparr>)
         (sheets w)))"

definition unmergeCellsInRange :: "workbook \<Rightarrow> int \<Rightarrow> cell_range \<Rightarrow> workbook" where
  "unmergeCellsInRange w k rng =
     (let b = bounds_of (normalizeRange rng)
      in only_sheets (on_sheet k (\<lambda>s. s\<lparr>mergedRegions :=
           Some (removeMergesIntersecting (mergedRegions s) (startRow b) (startCol b) (endRow b) (endCol b))\<rparr>)
         (sheets w)))"

definition duplicate_key :: "int \<Rightarrow> sheet_cell list \<Rightarrow> string" where
  "duplicate_key c line = js_lower (case nth_opt line c of Some x \<Rightarrow> display x | None \<Rightarrow> [])"

fun dedup_rows :: "int \<Rightarrow> string set \<Rightarrow> grid \<Rightarrow> grid" where
  "dedup_rows c seen [] = []"
| "dedup_rows c seen (line # g) =
     (let key = duplicate_key c line
      in if key = [] then line # dedup_rows c seen g
         else if key \<in> seen then dedup_rows c seen g
         else line # dedup_rows c (insert key seen) g)"

definition removeDuplicateRows :: "workbook \<Rightarrow> int \<Rightarrow> int \<Rightarrow> workbook" where
  "removeDuplicateRows w k c =
     only_sheets (on_sheet k (\<lambda>s. s\<lparr>rows :=
       (case rows s of [] \<Rightarrow> [] | header # body \<Rightarrow> header # dedup_rows c {} body)\<rparr>) (sheets w))"

section \<open>Panes and imports\<close>

definition freezePanesAt :: "workbook \<Rightarrow> int \<Rightarrow> int \<Rightarrow> int \<Rightarrow> workbook" where
  "freezePanesAt w k r c =
     only_sheets (on_sheet k (\<lambda>s. s\<lparr>frozenRows := Some r, frozenCols := Some c\<rparr>) (sheets w))"

definition unfreezePanes :: "workbook \<Rightarrow> int \<Rightarrow> workbook" where
  "unfreezePanes w k =
     only_sheets (on_sheet k (\<lambda>s. s\<lparr>frozenRows := Some 0, frozenCols := Some 0\<rparr>) (sheets w))"

definition quote_char :: char where "quote_char = CHR 0x22"

text \<open>The character loop of \<open>parseCsvLine\<close>; \<open>current\<close> is kept reversed.\<close>

fun csv_loop :: "string \<Rightarrow> bool \<Rightarrow> string \<Rightarrow> string list" where
  "csv_loop current inQuotes [] = [rev current]"
| "csv_loop current inQuotes [c] =
     (if c = quote_char then [rev current]
      else if c = CHR '','' \<and> \<not> inQuotes then [rev current, []]
      else [rev (c # current)])"
| "csv_loop current inQuotes (c # d # s) =
     (if c = quote_char then
        (if inQuotes \<and> d = quote_char then csv_loop (quote_char # current) inQuotes s
         else csv_loop current (\<not> inQuotes) (d # s))
      else if c = CHR '','' \<and> \<not> inQuotes then rev current # csv_loop [] inQuotes (d # s)
      else csv_loop (c # current) inQuotes (d # s))"

definition parseCsvLine :: "string \<Rightarrow> string list" where
  "parseCsvLine line = csv_loop [] False line"

definition cellFromText :: "host \<Rightarrow> string \<Rightarrow> sheet_cell" where
  "cellFromText h t =
     (let v = parse_entry (js_trim t)
      in empty_cell\<lparr>cvalue := v, display := formatCellDisplay h v (Some General) None\<rparr>)"

definition cr :: char where "cr = CHR 0x0D"
definition lf :: char where "lf = CHR 0x0A"
definition tab :: char where "tab = CHR 0x09"

fun unix_newlines :: "string \<Rightarrow> string" where
  "unix_newlines [] = []"
| "unix_newlines [c] = [if c = cr then lf else c]"
| "unix_newlines (c # d # s) =
     (if c = cr then (if d = lf then lf # unix_newlines s else lf # unix_newlines (d # s))
      else c # unix_newlines (d # s))"

definition csvTextToSheet :: "host \<Rightarrow> string \<Rightarrow> string \<Rightarrow> sheet" where
  "csvTextToSheet h text sheetName =
     (let lines = filter (\<lambda>l. l \<noteq> []) (js_split [lf] (js_trim (unix_newlines text)));
          tabbed = (case lines of [] \<Rightarrow> False | l # _ \<Rightarrow> tab \<in> set l \<and> CHR '','' \<notin> set l);
          g = map (\<lambda>l. map (cellFromText h) (if tabbed then js_split [tab] l else parseCsvLine l)) lines
      in normalizeSheetGrid (new_sheet sheetName (if g = [] then [[empty_cell]] else g)))"

definition importCsvAsNewSheet :: "host \<Rightarrow> workbook \<Rightarrow> string \<Rightarrow> string \<Rightarrow> workbook" where
  "importCsvAsNewSheet h w csvText sheetName = only_sheets (sheets w @ [csvTextToSheet h csvText sheetName])"

section \<open>Validation rules (data-validation.ts)\<close>

definition cellValidationKey :: "int \<Rightarrow> int \<Rightarrow> string" where
  "cellValidationKey r c = show_int r @ '':'' @ show_int c"

definition setColumnValidation :: "workbook \<Rightarrow> int \<Rightarrow> int \<Rightarrow> data_validation_rule option \<Rightarrow> workbook" where
  "setColumnValidation w k c rule =
     only_sheets (on_sheet k (\<lambda>s.
       let old = or_else (columnValidations s) [];
           nxt = (case rule of Some r \<Rightarrow> AList.update c r old | None \<Rightarrow> AList.delete c old)
       in s\<lparr>columnValidations := non_empty nxt\<rparr>) (sheets w))"

definition setCellValidation :: "workbook \<Rightarrow> int \<Rightarrow> int \<Rightarrow> int \<Rightarrow> data_validation_rule option \<Rightarrow> workbook" where
  "setCellValidation w k r c rule =
     w\<lparr>sheets := on_sheet k (\<lambda>s.
       let old = or_else (cellValidations s) [];
           key = cellValidationKey r c;
           nxt = (case rule of Some v \<Rightarrow> AList.update key v old | None \<Rightarrow> AList.delete key old)
       in s\<lparr>cellValidations := non_empty nxt\<rparr>) (sheets w)\<rparr>"

definition default_message :: string where
  "default_message = ''The value you entered is not valid for this cell.''"

definition in_limits :: "data_validation_rule \<Rightarrow> rat \<Rightarrow> bool" where
  "in_limits rule n \<longleftrightarrow>
     (case dv_min rule of Some m \<Rightarrow> \<not> n < m | None \<Rightarrow> True) \<and>
     (case dv_max rule of Some m \<Rightarrow> \<not> n > m | None \<Rightarrow> True)"

text \<open>
  The number after the first comparison sign that has one, as the patterns
  \<open>/>(\s*)(-?\d+(?:\.\d+)?)/\<close> and its mirror find it.
\<close>

fun number_after :: "char \<Rightarrow> string \<Rightarrow> rat option" where
  "number_after g [] = None"
| "number_after g (c # s) =
     (let t = dropWhile is_ws s;
          (neg, u) = (case t of d # v \<Rightarrow> if d = CHR ''-'' then (True, v) else (False, t) | [] \<Rightarrow> (False, []));
          ip = takeWhile is_digit u;
          r = dropWhile is_digit u;
          fp = (case r of p # v \<Rightarrow> if p = CHR ''.'' then takeWhile is_digit v else [] | [] \<Rightarrow> []);
          x = of_int (digits_value 10 (ip @ fp)) * pow10 (- int (length fp))
      in if c = g \<and> ip \<noteq> [] then Some (if neg then - x else x) else number_after g s)"

text \<open>
  The outcome is the message to show, or \<open>None\<close> when the entry is valid. \<open>parseDate\<close> is
  \<open>Date.parse\<close>, whose reading of free-form dates is the runtime's.
\<close>

definition validateCellInput :: "(string \<Rightarrow> rat option) \<Rightarrow> data_validation_rule \<Rightarrow> string \<Rightarrow> string option option" where
  "validateCellInput parseDate rule rawInput =
     (let fallback = Some (Some (or_else (dv_errorMessage rule) default_message));
          input = js_trim rawInput;
          numeric = js_number (strip_money input);
          check = (\<lambda>b. if b then None else fallback)
      in if input = [] then check (dv_allowBlank rule \<noteq> Some False)
         else case dv_kind rule of
           DvList \<Rightarrow>
             (let allowed = map (\<lambda>v. js_lower (js_trim v)) (or_else (dv_values rule) [])
              in check (allowed = [] \<or> js_lower input \<in> set allowed))
         | DvWhole \<Rightarrow> check (case numeric of None \<Rightarrow> False | Some n \<Rightarrow> of_int \<lfloor>n\<rfloor> = n \<and> in_limits rule n)
         | DvDecimal \<Rightarrow> check (case numeric of None \<Rightarrow> False | Some n \<Rightarrow> in_limits rule n)
         | DvDate \<Rightarrow> check (case parseDate input of None \<Rightarrow> False | Some ms \<Rightarrow> in_limits rule (ms / 86400000))
         | DvCustom \<Rightarrow>
             (case opt_text (dv_formula rule) of
                [] \<Rightarrow> None
              | f \<Rightarrow>
                  (case (numeric, number_after CHR ''>'' (js_trim f), number_after CHR ''<'' (js_trim f)) of
                     (Some n, Some g, _) \<Rightarrow> check (n > g)
                   | (Some n, None, Some l) \<Rightarrow> check (n < l)
                   | _ \<Rightarrow> None))
         | DvTextLength \<Rightarrow> check (in_limits rule (of_nat (length input))))"

definition parseValidationListInput :: "string \<Rightarrow> string list" where
  "parseValidationListInput raw = filter (\<lambda>e. e \<noteq> []) (map js_trim (js_split '','' raw))"

section \<open>Comments, links and tables\<close>

definition at_cell :: "int \<Rightarrow> int \<Rightarrow> (sheet_cell \<Rightarrow> sheet_cell) \<Rightarrow> grid \<Rightarrow> grid" where
  "at_cell r c f g = map_cells (\<lambda>i j x. if i \<noteq> r \<or> j \<noteq> c then x else f x) g"

definition setCellComment :: "workbook \<Rightarrow> int \<Rightarrow> int \<Rightarrow> int \<Rightarrow> string option \<Rightarrow> workbook" where
  "setCellComment w k r c note =
     only_sheets (on_sheet k (\<lambda>s.
       s\<lparr>rows := at_cell r c (\<lambda>x. x\<lparr>comment := non_empty (js_trim (opt_text note))\<rparr>)
          (rows (expandSheetToAddress s r c))\<rparr>) (sheets w))"

definition setCellHyperlink :: "workbook \<Rightarrow> int \<Rightarrow> int \<Rightarrow> int \<Rightarrow> string option \<Rightarrow> workbook" where
  "setCellHyperlink w k r c url =
     w\<lparr>sheets := on_sheet k (\<lambda>s.
       s\<lparr>rows := at_cell r c (\<lambda>x.
            if js_trim (opt_text url) = [] then x\<lparr>hyperlink := None\<rparr>
            else x\<lparr>hyperlink := Some (js_trim (opt_text url)),
                   style := Some ((style_of x)\<lparr>textColor := Some ''#2563EB'', underline := Some True\<rparr>)\<rparr>)
          (rows (expandSheetToAddress s r c))\<rparr>) (sheets w)\<rparr>"

definition formatRangeAsTable :: "workbook \<Rightarrow> int \<Rightarrow> cell_range \<Rightarrow> string \<Rightarrow> workbook" where
  "formatRangeAsTable w k rng tableName =
     (let n = normalizeRange rng;
          existing = (case nth_opt (sheets w) k of Some s \<Rightarrow> length (or_else (tables s) []) | None \<Rightarrow> 0);
          trimmedName = (if js_trim tableName \<noteq> [] then js_trim tableName
                         else ''Table'' @ show_int (int existing + 1))
      in w\<lparr>sheets := on_sheet k (\<lambda>s.
           s\<lparr>rows := map_cells (\<lambda>r c x.
                if \<not> in_norm n r c then x
                else let isHeader = (r = row (rstart n));
                         band = r - row (rstart n);
                         st = style_of x
                     in x\<lparr>style := Some (st\<lparr>
                          bold := (if isHeader then Some True else bold st),
                          textColor := (if isHeader then Some ''#FFFFFF'' else textColor st),
                          backgroundColor := Some (if isHeader then ''#1F4E79''
                            else if band mod 2 = 1 then ''#DEEBF7'' else ''#FFFFFF'')\<rparr>)\<rparr>) (rows s),
             tables := Some (or_else (tables s) [] @ [\<lparr>tb_name = trimmedName, tb_bounds = bounds_of n\<rparr>])\<rparr>)
         (sheets w)\<rparr>)"

section \<open>Names, printing and pages\<close>

definition setNamedRange :: "workbook \<Rightarrow> named_range \<Rightarrow> workbook" where
  "setNamedRange w r =
     w\<lparr>namedRanges := Some (filter (\<lambda>e. js_lower (nr_name e) \<noteq> js_lower (nr_name r)) (or_else (namedRanges w) []) @ [r])\<rparr>"

definition removeNamedRange :: "workbook \<Rightarrow> string \<Rightarrow> workbook" where
  "removeNamedRange w n =
     w\<lparr>namedRanges := non_empty (filter (\<lambda>e. js_lower (nr_name e) \<noteq> js_lower (js_trim n)) (or_else (namedRanges w) []))\<rparr>"

definition setPrintArea :: "workbook \<Rightarrow> int \<Rightarrow> cell_range \<Rightarrow> workbook" where
  "setPrintArea w k rng =
     w\<lparr>sheets := on_sheet k (\<lambda>s. s\<lparr>printArea := Some (bounds_of (normalizeRange rng))\<rparr>) (sheets w)\<rparr>"

definition clearPrintArea :: "workbook \<Rightarrow> int \<Rightarrow> workbook" where
  "clearPrintArea w k = w\<lparr>sheets := on_sheet k (\<lambda>s. s\<lparr>printArea := None\<rparr>) (sheets w)\<rparr>"

definition setPageMargins :: "workbook \<Rightarrow> int \<Rightarrow> page_margins \<Rightarrow> workbook" where
  "setPageMargins w k m = w\<lparr>sheets := on_sheet k (\<lambda>s. s\<lparr>pageMargins := Some m\<rparr>) (sheets w)\<rparr>"

definition text_cell :: "string \<Rightarrow> sheet_cell" where
  "text_cell t = empty_cell\<lparr>cvalue := VStr t, display := t\<rparr>"

definition insertPivotSummaryAsNewSheet :: "workbook \<Rightarrow> string \<Rightarrow> string list \<Rightarrow> grid \<Rightarrow> workbook" where
  "insertPivotSummaryAsNewSheet w sheetName headers body =
     (let headerRow = map (\<lambda>t. (text_cell t)\<lparr>style := Some (no_style\<lparr>bold := Some True, isHeaderRow := Some True\<rparr>)\<rparr>) headers
      in w\<lparr>sheets := sheets w @ [normalizeSheetGrid (new_sheet sheetName (headerRow # body))]\<rparr>)"

definition over :: "'a option \<Rightarrow> 'a option \<Rightarrow> 'a option" where
  "over new old = (case new of None \<Rightarrow> old | Some v \<Rightarrow> Some v)"

definition no_setup :: page_setup where
  "no_setup = \<lparr>orientation = None, paperSize = None, scalePercent = None, fitToWidth = None,
     fitToHeight = None, printTitlesRows = None, printTitlesCols = None, headerLeft = None,
     headerCenter = None, headerRight = None, footerLeft = None, footerCenter = None, footerRight = None\<rparr>"

definition merge_setup :: "page_setup \<Rightarrow> page_setup \<Rightarrow> page_setup" where
  "merge_setup p q =
     \<lparr>orientation = over (orientation q) (orientation p), paperSize = over (paperSize q) (paperSize p),
      scalePercent = over (scalePercent q) (scalePercent p), fitToWidth = over (fitToWidth q) (fitToWidth p),
      fitToHeight = over (fitToHeight q) (fitToHeight p),
      printTitlesRows = over (printTitlesRows q) (printTitlesRows p),
      printTitlesCols = over (printTitlesCols q) (printTitlesCols p),
      headerLeft = over (headerLeft q) (headerLeft p), headerCenter = over (headerCenter q) (headerCenter p),
      headerRight = over (headerRight q) (headerRight p), footerLeft = over (footerLeft q) (footerLeft p),
      footerCenter = over (footerCenter q) (footerCenter p), footerRight = over (footerRight q) (footerRight p)\<rparr>"

definition setPageSetup :: "workbook \<Rightarrow> int \<Rightarrow> page_setup \<Rightarrow> workbook" where
  "setPageSetup w k p =
     only_sheets (on_sheet k (\<lambda>s. s\<lparr>pageSetup := Some (merge_setup (or_else (pageSetup s) no_setup) p)\<rparr>) (sheets w))"

definition setSheetProtection :: "workbook \<Rightarrow> int \<Rightarrow> sheet_protection option \<Rightarrow> workbook" where
  "setSheetProtection w k p = only_sheets (on_sheet k (\<lambda>s. s\<lparr>protection := p\<rparr>) (sheets w))"

definition setSheetZoom :: "workbook \<Rightarrow> int \<Rightarrow> rat \<Rightarrow> workbook" where
  "setSheetZoom w k z =
     only_sheets (on_sheet k (\<lambda>s. s\<lparr>zoomPercent := Some (min 200 (max 50 (math_round z)))\<rparr>) (sheets w))"

definition setSheetTabColor :: "workbook \<Rightarrow> int \<Rightarrow> string option \<Rightarrow> workbook" where
  "setSheetTabColor w k c = only_sheets (on_sheet k (\<lambda>s. s\<lparr>tabColor := non_empty (opt_text c)\<rparr>) (sheets w))"

section \<open>Hidden and grouped rows\<close>

definition toggle_in :: "int \<Rightarrow> int list option \<Rightarrow> int list option" where
  "toggle_in i xs =
     (let hidden = remdups (or_else xs []);
          nxt = (if i \<in> set hidden then filter (\<lambda>j. j \<noteq> i) hidden else hidden @ [i])
      in non_empty (sort nxt))"

definition toggleRowHidden :: "workbook \<Rightarrow> int \<Rightarrow> int \<Rightarrow> workbook" where
  "toggleRowHidden w k i = w\<lparr>sheets := on_sheet k (\<lambda>s. s\<lparr>hiddenRows := toggle_in i (hiddenRows s)\<rparr>) (sheets w)\<rparr>"

definition toggleColumnHidden :: "workbook \<Rightarrow> int \<Rightarrow> int \<Rightarrow> workbook" where
  "toggleColumnHidden w k i = w\<lparr>sheets := on_sheet k (\<lambda>s. s\<lparr>hiddenCols := toggle_in i (hiddenCols s)\<rparr>) (sheets w)\<rparr>"

definition unhideAllRows :: "workbook \<Rightarrow> int \<Rightarrow> workbook" where
  "unhideAllRows w k = w\<lparr>sheets := on_sheet k (\<lambda>s. s\<lparr>hiddenRows := None\<rparr>) (sheets w)\<rparr>"

definition unhideAllColumns :: "workbook \<Rightarrow> int \<Rightarrow> workbook" where
  "unhideAllColumns w k = w\<lparr>sheets := on_sheet k (\<lambda>s. s\<lparr>hiddenCols := None\<rparr>) (sheets w)\<rparr>"

fun raise_levels :: "int list \<Rightarrow> (int \<times> int) list \<Rightarrow> (int \<times> int) list" where
  "raise_levels [] levels = levels"
| "raise_levels (r # rs) levels = raise_levels rs (AList.update r (or_else (map_of levels r) 0 + 1) levels)"

fun lower_levels :: "int list \<Rightarrow> (int \<times> int) list \<Rightarrow> (int \<times> int) list" where
  "lower_levels [] levels = levels"
| "lower_levels (r # rs) levels =
     (let nxt = max 0 (or_else (map_of levels r) 0 - 1)
      in lower_levels rs (if nxt = 0 then AList.delete r levels else AList.update r nxt levels))"

definition groupRowsInRange :: "workbook \<Rightarrow> int \<Rightarrow> int \<Rightarrow> int \<Rightarrow> workbook" where
  "groupRowsInRange w k a b =
     only_sheets (on_sheet k (\<lambda>s. s\<lparr>rowOutlineLevels :=
       Some (raise_levels [min a b..max a b] (or_else (rowOutlineLevels s) []))\<rparr>) (sheets w))"

definition ungroupRowsInRange :: "workbook \<Rightarrow> int \<Rightarrow> int \<Rightarrow> int \<Rightarrow> workbook" where
  "ungroupRowsInRange w k a b =
     only_sheets (on_sheet k (\<lambda>s. s\<lparr>rowOutlineLevels :=
       Some (lower_levels [min a b..max a b] (or_else (rowOutlineLevels s) []))\<rparr>) (sheets w))"

section \<open>Text, charts and changes\<close>

fun write_parts :: "int \<Rightarrow> string list \<Rightarrow> sheet_cell list \<Rightarrow> sheet_cell list" where
  "write_parts c [] line = line"
| "write_parts c (p # ps) line =
     (let copy = line @ replicate (nat (c + 1) - length line) empty_cell;
          old = copy ! nat c
      in write_parts (c + 1) ps (copy[nat c := old\<lparr>cvalue := VStr p, formula := None, display := p\<rparr>]))"

text \<open>The start column is an index of the grid, so it is not negative.\<close>

definition textToColumns :: "workbook \<Rightarrow> int \<Rightarrow> nat \<Rightarrow> string \<Rightarrow> workbook" where
  "textToColumns w k startColumn delimiter =
     (let delim = (if delimiter = [] then '','' else delimiter)
      in only_sheets (on_sheet k (\<lambda>s. s\<lparr>rows := map (\<lambda>line.
           let raw = (case nth_opt line (int startColumn) of
                 None \<Rightarrow> []
               | Some x \<Rightarrow> if cvalue x = VNull then display x else js_string (cvalue x))
           in write_parts (int startColumn) (map js_trim (js_split delim raw)) line) (rows s)\<rparr>) (sheets w)))"

definition insertChartOnSheet :: "workbook \<Rightarrow> int \<Rightarrow> sheet_chart \<Rightarrow> workbook" where
  "insertChartOnSheet w k ch =
     only_sheets (on_sheet k (\<lambda>s. s\<lparr>charts := Some (or_else (charts s) [] @ [ch])\<rparr>) (sheets w))"

record chart_anchor =
  an_row :: int
  an_col :: int
  an_endRow :: "int option"
  an_endCol :: "int option"
  an_colOff :: "int option"
  an_rowOff :: "int option"
  an_endColOff :: "int option"
  an_endRowOff :: "int option"

definition move_chart :: "chart_anchor \<Rightarrow> sheet_chart \<Rightarrow> sheet_chart" where
  "move_chart a ch = ch\<lparr>anchorRow := an_row a, anchorCol := an_col a,
     anchorEndRow := over (an_endRow a) (anchorEndRow ch), anchorEndCol := over (an_endCol a) (anchorEndCol ch),
     anchorColOff := over (an_colOff a) (anchorColOff ch), anchorRowOff := over (an_rowOff a) (anchorRowOff ch),
     anchorEndColOff := over (an_endColOff a) (anchorEndColOff ch),
     anchorEndRowOff := over (an_endRowOff a) (anchorEndRowOff ch)\<rparr>"

definition updateChartAnchorOnSheet :: "workbook \<Rightarrow> int \<Rightarrow> string \<Rightarrow> chart_anchor \<Rightarrow> workbook" where
  "updateChartAnchorOnSheet w k chartId a =
     only_sheets (on_sheet k (\<lambda>s. s\<lparr>charts :=
       map_option (map (\<lambda>ch. if ch_id ch = chartId then move_chart a ch else ch)) (charts s)\<rparr>) (sheets w))"

definition appendTrackChange :: "workbook \<Rightarrow> track_change_entry \<Rightarrow> workbook" where
  "appendTrackChange w e =
     (if trackChangesEnabled w \<noteq> Some True then w
      else w\<lparr>trackChanges := Some (or_else (trackChanges w) [] @ [e])\<rparr>)"

definition setTrackChangesEnabled :: "workbook \<Rightarrow> bool \<Rightarrow> workbook" where
  "setTrackChangesEnabled w b = w\<lparr>trackChangesEnabled := Some b\<rparr>"

definition clearTrackChanges :: "workbook \<Rightarrow> workbook" where
  "clearTrackChanges w = w\<lparr>trackChanges := Some []\<rparr>"

definition clear_cell :: "bool option \<Rightarrow> bool option \<Rightarrow> sheet_cell \<Rightarrow> sheet_cell" where
  "clear_cell keepStyle keepComments x =
     empty_cell\<lparr>style := (if keepStyle = Some False then None else style x),
                comment := (if keepComments = Some False then None else comment x)\<rparr>"

definition clearContentsInRange :: "workbook \<Rightarrow> int \<Rightarrow> cell_range \<Rightarrow> bool option \<Rightarrow> bool option \<Rightarrow> workbook" where
  "clearContentsInRange w k rng keepStyle keepComments =
     w\<lparr>sheets := on_sheet k (\<lambda>s. s\<lparr>rows := map_cells (\<lambda>r c x.
       if in_norm (normalizeRange rng) r c then clear_cell keepStyle keepComments x else x) (rows s)\<rparr>) (sheets w)\<rparr>"

end
