(* ===== verification/SheetProps.thy ===== *)
theory SheetProps
  imports SheetEdits
begin

text \<open>
  What the workbook operations promise: the contract of an operation on one sheet (a locale,
  interpreted on the operations of \<open>SheetOps\<close> and \<open>SheetEdits\<close>), the geometry of inserting and
  deleting rows and columns, sorting, merging, moving sheets, and what some operations lose.
\<close>

section \<open>Operations on one sheet\<close>

lemma on_sheet_single [simp]: "on_sheet 0 f [s] = [f s]"
  by (simp add: on_sheet_def mapi_def)

lemma on_sheet_cong: "(\<And>s. nth_opt ss k = Some s \<Longrightarrow> f s = g s) \<Longrightarrow> on_sheet k f ss = on_sheet k g ss"
  unfolding on_sheet_def by (rule nth_equalityI) auto

lemma nth_opt_on_sheet: "nth_opt (on_sheet k f ss) i = (if i = k then map_option f (nth_opt ss i) else nth_opt ss i)"
  by (simp add: on_sheet_def nth_opt_mapi) (cases "nth_opt ss i"; simp)

lemma length_on_sheet [simp]: "length (on_sheet k f ss) = length ss"
  by (simp add: on_sheet_def)

lemma on_sheet_commute: "i \<noteq> j \<Longrightarrow> on_sheet i f (on_sheet j g ss) = on_sheet j g (on_sheet i f ss)"
  unfolding on_sheet_def by (rule nth_equalityI) auto

lemma map_on_sheet: "(\<And>s. p (f s) = p s) \<Longrightarrow> map p (on_sheet k f ss) = map p ss"
  unfolding on_sheet_def by (rule nth_equalityI) auto

lemma sheets_only_sheets [simp]: "sheets (only_sheets ss) = ss"
  by (simp add: only_sheets_def)

text \<open>
  The contract: the operation's effect on sheet \<open>k\<close> is the effect it has on that sheet alone, the
  other sheets stay, and the sheet keeps its name.
\<close>

definition alone :: "(workbook \<Rightarrow> int \<Rightarrow> workbook) \<Rightarrow> sheet \<Rightarrow> sheet" where
  "alone edit s = hd (sheets (edit (only_sheets [s]) 0))"

locale sheet_edit =
  fixes edit :: "'a \<Rightarrow> workbook \<Rightarrow> int \<Rightarrow> workbook"
  assumes local: "sheets (edit a w k) = on_sheet k (alone (edit a)) (sheets w)"
    and keeps_name: "name (alone (edit a) s) = name s"
begin

lemma others_unchanged: "i \<noteq> k \<Longrightarrow> nth_opt (sheets (edit a w k)) i = nth_opt (sheets w) i"
  by (simp add: local nth_opt_on_sheet)

lemma same_count: "length (sheets (edit a w k)) = length (sheets w)"
  by (simp add: local)

lemma same_names: "map name (sheets (edit a w k)) = map name (sheets w)"
  unfolding local by (rule map_on_sheet) (rule keeps_name)

lemma at_target: "nth_opt (sheets w) k = Some s \<Longrightarrow> nth_opt (sheets (edit a w k)) k = Some (alone (edit a) s)"
  by (simp add: local nth_opt_on_sheet)

lemma different_sheets_commute:
  "i \<noteq> j \<Longrightarrow> sheets (edit a (edit b w j) i) = sheets (edit b (edit a w i) j)"
  by (simp add: local on_sheet_commute)

end

lemma alone_simps [simp]:
  "alone (\<lambda>w k. only_sheets (on_sheet k f (sheets w))) = f"
  "alone (\<lambda>w k. w\<lparr>sheets := on_sheet k f (sheets w)\<rparr>) = f"
  "alone (\<lambda>w k. w) = (\<lambda>s. s)"
  by (auto simp: alone_def fun_eq_iff)

lemma alone_if [simp]: "alone (\<lambda>w k. if b then w else e w k) s = (if b then s else alone e s)"
  by (simp add: alone_def)

lemma on_sheet_id: "(\<And>s. f s = s) \<Longrightarrow> on_sheet k f ss = ss"
  unfolding on_sheet_def by (rule mapi_ident) auto

interpretation insert_row: sheet_edit "\<lambda>r w k. insertRow w k r"
  by unfold_locales (auto simp: insertRow_def Let_def)

interpretation delete_row: sheet_edit "\<lambda>r w k. deleteRow w k r"
  by unfold_locales (auto simp: deleteRow_def)

interpretation insert_column: sheet_edit "\<lambda>c w k. insertColumn w k c"
  by unfold_locales (auto simp: insertColumn_def)

interpretation delete_column: sheet_edit "\<lambda>c w k. deleteColumn w k c"
  by unfold_locales (auto simp: deleteColumn_def)

interpretation sort_column: sheet_edit "\<lambda>(h, c, d) w k. sortSheetByColumn h w k c d"
  by unfold_locales (auto simp: sortSheetByColumn_def)

interpretation sort_columns: sheet_edit "\<lambda>(h, keys) w k. sortSheetByColumns h w k keys"
  by unfold_locales (auto simp: sortSheetByColumns_def)

interpretation replace: sheet_edit "\<lambda>(h, rng, f, t, all) w k. replaceInWorkbook h w k rng f t all"
  by unfold_locales (auto simp: replaceInWorkbook_def Let_def on_sheet_id)

interpretation merge_cells: sheet_edit "\<lambda>rng w k. mergeCellsInRange w k rng"
  by unfold_locales (auto simp: mergeCellsInRange_def Let_def)

interpretation unmerge_cells: sheet_edit "\<lambda>rng w k. unmergeCellsInRange w k rng"
  by unfold_locales (auto simp: unmergeCellsInRange_def Let_def)

interpretation remove_duplicates: sheet_edit "\<lambda>c w k. removeDuplicateRows w k c"
  by unfold_locales (auto simp: removeDuplicateRows_def)

interpretation set_comment: sheet_edit "\<lambda>(r, c, t) w k. setCellComment w k r c t"
  by unfold_locales (auto simp: setCellComment_def)

interpretation set_link: sheet_edit "\<lambda>(r, c, t) w k. setCellHyperlink w k r c t"
  by unfold_locales (auto simp: setCellHyperlink_def)

interpretation clear_contents: sheet_edit "\<lambda>(rng, st, cm) w k. clearContentsInRange w k rng st cm"
  by unfold_locales (auto simp: clearContentsInRange_def)

interpretation text_columns: sheet_edit "\<lambda>(c, d) w k. textToColumns w k c d"
  by unfold_locales (auto simp: textToColumns_def Let_def)

interpretation toggle_row: sheet_edit "\<lambda>r w k. toggleRowHidden w k r"
  by unfold_locales (auto simp: toggleRowHidden_def)

interpretation group_rows: sheet_edit "\<lambda>(a, b) w k. groupRowsInRange w k a b"
  by unfold_locales (auto simp: groupRowsInRange_def)

lemma alone_table: "alone (\<lambda>w k. formatRangeAsTable w k rng n) s = hd (sheets (formatRangeAsTable (only_sheets [s]) 0 rng n))"
  by (simp add: alone_def)

interpretation table_format: sheet_edit "\<lambda>(rng, n) w k. formatRangeAsTable w k rng n"
proof
  fix a :: "cell_range \<times> string" and w k s
  obtain rng n where a: "a = (rng, n)" by (cases a)
  show "sheets ((case a of (rng, n) \<Rightarrow> \<lambda>w k. formatRangeAsTable w k rng n) w k) =
      on_sheet k (alone (case a of (rng, n) \<Rightarrow> \<lambda>w k. formatRangeAsTable w k rng n)) (sheets w)"
    unfolding a prod.case
  proof -
    have "alone (\<lambda>w k. formatRangeAsTable w k rng n) s =
        hd (sheets (formatRangeAsTable (only_sheets [s]) 0 rng n))" for s by (rule alone_table)
    then show "sheets (formatRangeAsTable w k rng n) = on_sheet k (alone (\<lambda>w k. formatRangeAsTable w k rng n)) (sheets w)"
      by (subst formatRangeAsTable_def)
        (auto simp: formatRangeAsTable_def[of "only_sheets _"] Let_def nth_opt_def[of "[_]"] intro!: on_sheet_cong)
  qed
  show "name (alone (case a of (rng, n) \<Rightarrow> \<lambda>w k. formatRangeAsTable w k rng n) s) = name s"
    unfolding a prod.case alone_table by (simp add: formatRangeAsTable_def Let_def)
qed

section \<open>Inserting and deleting rows\<close>

lemma nth_opt_int: "nth_opt xs (int n) = (if n < length xs then Some (xs ! n) else None)"
  by (simp add: nth_opt_def)

lemma nth_opt_neg: "i < 0 \<Longrightarrow> nth_opt xs i = None"
  by (simp add: nth_opt_def)

lemma nth_splice: "q \<le> length xs \<Longrightarrow> n \<le> length xs \<Longrightarrow>
    (take q xs @ x # drop q xs) ! n = (if n < q then xs ! n else if n = q then x else xs ! (n - 1))"
  by (auto simp: nth_append min_def nth_Cons')

lemma nth_opt_splice_insert:
  assumes "0 \<le> p" "p \<le> int (length xs)"
  shows "nth_opt (js_splice_insert p x xs) i =
    (if i < p then nth_opt xs i else if i = p then Some x else nth_opt xs (i - 1))"
proof -
  obtain q where q: "p = int q" "q \<le> length xs" using assms by (metis nonneg_int_cases of_nat_le_iff)
  have pos: "js_pos (length xs) (int q) = q" using q by (simp add: js_pos_def)
  show ?thesis
  proof (cases i)
    case (nonneg n)
    show ?thesis
    proof (cases "n \<le> length xs")
      case True
      then show ?thesis
        using q nonneg nth_splice[OF q(2) True, of x]
        by (auto simp: js_splice_insert_def q(1) pos Let_def nth_opt_def nat_diff_distrib')
    next
      case False
      then show ?thesis using q nonneg by (auto simp: nth_opt_def)
    qed
  next
    case (neg n)
    then show ?thesis using q by (simp add: nth_opt_neg)
  qed
qed

lemma nth_opt_replicate: "nth_opt (replicate n e) i = (if 0 \<le> i \<and> i < int n then Some e else None)"
  by (auto simp: nth_opt_def)

lemma nth_opt_append:
  "nth_opt (xs @ ys) i = (if i < int (length xs) then nth_opt xs i else nth_opt ys (i - int (length xs)))"
  by (auto simp: nth_opt_def nth_append nat_diff_distrib)

lemma grid_at_padRows:
  "grid_at g r c = Some x \<Longrightarrow> grid_at (padRows g m n) r c = Some x"
  "grid_at g r c = None \<Longrightarrow> grid_at (padRows g m n) r c \<in> {None, Some empty_cell}"
proof -
  show "grid_at g r c = Some x \<Longrightarrow> grid_at (padRows g m n) r c = Some x"
    by (auto simp: grid_at_def padRows_def Let_def nth_opt_append nth_opt_map nth_opt_Some_iff split: option.splits)
  show "grid_at g r c = None \<Longrightarrow> grid_at (padRows g m n) r c \<in> {None, Some empty_cell}"
    by (auto simp: grid_at_def padRows_def Let_def nth_opt_append nth_opt_map nth_opt_replicate emptyRow_def
        split: option.splits if_splits)
qed

lemma grid_at_splice:
  assumes "0 \<le> p" "p \<le> int (length g)"
  shows "grid_at (js_splice_insert p line g) r c =
    (if r < p then grid_at g r c else if r = p then nth_opt line c else grid_at g (r - 1) c)"
  by (simp add: grid_at_def nth_opt_splice_insert[OF assms])

lemma nth_opt_emptyRow: "nth_opt (emptyRow n) c \<in> {None, Some empty_cell}"
  by (simp add: nth_opt_replicate emptyRow_def)

lemma nth_opt_delete:
  assumes "0 \<le> p" "p < int (length xs)"
  shows "nth_opt (filteri (\<lambda>i. i \<noteq> p) xs) i = (if i < p then nth_opt xs i else nth_opt xs (i + 1))"
proof -
  obtain q where q: "p = int q" "q < length xs" using assms by (metis nonneg_int_cases of_nat_less_iff)
  show ?thesis
  proof (cases i)
    case (nonneg n)
    then show ?thesis
      using q by (auto simp: filteri_except nth_opt_def nth_append min_def Suc_nat_eq_nat_zadd1 nat_add_distrib)
  next
    case (neg n)
    then show ?thesis using q by (simp add: nth_opt_neg)
  qed
qed

definition inserted_row :: "sheet \<Rightarrow> int \<Rightarrow> sheet" where
  "inserted_row s p = alone (\<lambda>w k. insertRow w k p) s"

lemma rows_inserted:
  "rows (inserted_row s p) = padRows (js_splice_insert p (emptyRow (max (max_row_length (rows s)) 26)) (rows s))
     500 (max (max_row_length (rows s)) 26)"
  "mergedRegions (inserted_row s p) = mergedRegions s"
  by (simp_all add: inserted_row_def insertRow_def Let_def grid_min_column_count_def grid_min_row_count_def)

text \<open>Inserting a row moves every cell from the row on down by one and leaves the others; the new
  row is empty.\<close>

theorem insertRow_shifts:
  assumes "nth_opt (sheets w) k = Some s" "0 \<le> p" "p \<le> int (length (rows s))"
  shows "\<exists>s'. nth_opt (sheets (insertRow w k p)) k = Some s' \<and>
    (\<forall>r c x. grid_at (rows s) r c = Some x \<longrightarrow> grid_at (rows s') (if r < p then r else r + 1) c = Some x) \<and>
    (\<forall>c. grid_at (rows s') p c \<in> {None, Some empty_cell})"
proof (intro exI conjI allI impI)
  show "nth_opt (sheets (insertRow w k p)) k = Some (inserted_row s p)"
    using insert_row.at_target[OF assms(1)] by (simp add: inserted_row_def)
  show "grid_at (rows (inserted_row s p)) (if r < p then r else r + 1) c = Some x"
    if "grid_at (rows s) r c = Some x" for r c x
    unfolding rows_inserted using that by (intro grid_at_padRows) (simp add: grid_at_splice[OF assms(2,3)])
  show "grid_at (rows (inserted_row s p)) p c \<in> {None, Some empty_cell}" for c
  proof (cases "grid_at (js_splice_insert p (emptyRow (max (max_row_length (rows s)) 26)) (rows s)) p c")
    case None
    then show ?thesis unfolding rows_inserted by (rule grid_at_padRows)
  next
    case (Some x)
    then have "x = empty_cell"
      using nth_opt_emptyRow[of "max (max_row_length (rows s)) 26" c] by (simp add: grid_at_splice[OF assms(2,3)])
    then show ?thesis unfolding rows_inserted using grid_at_padRows(1)[OF Some] by simp
  qed
qed

definition small_sheet :: sheet where
  "small_sheet = new_sheet ''S'' [[text_cell ''a'', text_cell ''b''], [text_cell ''c'', text_cell ''d'']]"

theorem insertRow_shifts_witness:
  "\<exists>s'. nth_opt (sheets (insertRow (only_sheets [small_sheet]) 0 1)) 0 = Some s' \<and>
    grid_at (rows s') 2 1 = Some (text_cell ''d'') \<and> grid_at (rows s') 0 0 = Some (text_cell ''a'') \<and>
    grid_at (rows s') 1 0 \<in> {None, Some empty_cell}"
proof -
  have "nth_opt (sheets (only_sheets [small_sheet])) 0 = Some small_sheet"
    and "1 \<le> int (length (rows small_sheet))"
    and at: "grid_at (rows small_sheet) 1 1 = Some (text_cell ''d'')"
      "grid_at (rows small_sheet) 0 0 = Some (text_cell ''a'')" by code_simp+
  then obtain s' where "nth_opt (sheets (insertRow (only_sheets [small_sheet]) 0 1)) 0 = Some s'"
    and s': "\<forall>r c x. grid_at (rows small_sheet) r c = Some x \<longrightarrow>
      grid_at (rows s') (if r < 1 then r else r + 1) c = Some x"
      "\<forall>c. grid_at (rows s') 1 c \<in> {None, Some empty_cell}"
    using insertRow_shifts[of "only_sheets [small_sheet]" 0 small_sheet 1] by auto
  moreover have "grid_at (rows s') 2 1 = Some (text_cell ''d'')" "grid_at (rows s') 0 0 = Some (text_cell ''a'')"
    using s'(1)[rule_format, OF at(1)] s'(1)[rule_format, OF at(2)] by simp_all
  ultimately show ?thesis by blast
qed

definition deleted_row :: "sheet \<Rightarrow> int \<Rightarrow> sheet" where
  "deleted_row s p = alone (\<lambda>w k. deleteRow w k p) s"

lemma deleted_row_eq:
  "deleted_row s p = (if length (rows s) \<le> 1 then s
     else s\<lparr>rows := filteri (\<lambda>i. i \<noteq> p) (rows s), rowHeights := map_option (filter_dims p) (rowHeights s)\<rparr>)"
  unfolding deleted_row_def deleteRow_def alone_simps ..

lemma inserted_row_eq:
  "inserted_row s p = s\<lparr>rows := rows (inserted_row s p), rowHeights := map_option (splice_dim p 24) (rowHeights s)\<rparr>"
  unfolding inserted_row_def insertRow_def alone_simps Let_def by simp

lemma length_padRows: "length (padRows g m n) = max m (length g)"
  by (simp add: padRows_def Let_def max_def)

text \<open>Deleting the row that was just inserted gives back every cell at its place, with only empty
  cells around, and no other part of the sheet but the row heights is touched.\<close>

theorem deleteRow_undoes_insertRow:
  assumes "nth_opt (sheets w) k = Some s" "0 \<le> p" "p \<le> int (length (rows s))"
  shows "\<exists>s'. nth_opt (sheets (deleteRow (insertRow w k p) k p)) k = Some s' \<and>
    (\<forall>r c x. grid_at (rows s) r c = Some x \<longrightarrow> grid_at (rows s') r c = Some x) \<and>
    (\<forall>r c. grid_at (rows s) r c = None \<longrightarrow> grid_at (rows s') r c \<in> {None, Some empty_cell}) \<and>
    s'\<lparr>rows := rows s, rowHeights := rowHeights s\<rparr> = s"
proof (intro exI conjI allI impI)
  let ?i = "inserted_row s p" and ?m = "max (max_row_length (rows s)) 26"
  let ?g = "js_splice_insert p (emptyRow ?m) (rows s)"
  show "nth_opt (sheets (deleteRow (insertRow w k p) k p)) k = Some (deleted_row ?i p)"
    using delete_row.at_target[OF insert_row.at_target[OF assms(1)]] by (simp add: inserted_row_def deleted_row_def)
  have long: "\<not> length (rows ?i) \<le> 1" "p < int (length (rows ?i))"
    using assms(3) by (simp_all add: rows_inserted length_padRows)
  have at: "grid_at (rows (deleted_row ?i p)) r c = grid_at (rows ?i) (if r < p then r else r + 1) c" for r c
    using long assms(2) by (simp add: deleted_row_eq grid_at_def nth_opt_delete)
  have old: "grid_at ?g (if r < p then r else r + 1) c = grid_at (rows s) r c" for r c
    by (simp add: grid_at_splice[OF assms(2,3)])
  show "grid_at (rows (deleted_row ?i p)) r c = Some x" if "grid_at (rows s) r c = Some x" for r c x
    unfolding at rows_inserted by (rule grid_at_padRows) (simp only: old that)
  show "grid_at (rows (deleted_row ?i p)) r c \<in> {None, Some empty_cell}" if "grid_at (rows s) r c = None" for r c
    unfolding at rows_inserted by (rule grid_at_padRows) (simp only: old that)
  show "(deleted_row ?i p)\<lparr>rows := rows s, rowHeights := rowHeights s\<rparr> = s"
    unfolding deleted_row_eq using long by (subst inserted_row_eq) simp
qed

theorem deleteRow_undoes_insertRow_witness:
  "\<exists>s'. nth_opt (sheets (deleteRow (insertRow (only_sheets [small_sheet]) 0 1) 0 1)) 0 = Some s' \<and>
    grid_at (rows s') 1 1 = Some (text_cell ''d'')"
proof -
  have "nth_opt (sheets (only_sheets [small_sheet])) 0 = Some small_sheet"
    and "1 \<le> int (length (rows small_sheet))"
    and "grid_at (rows small_sheet) 1 1 = Some (text_cell ''d'')" by code_simp+
  then show ?thesis using deleteRow_undoes_insertRow[of "only_sheets [small_sheet]" 0 small_sheet 1] by auto
qed

text \<open>The merges of a sheet do not move with its rows: inserting a row at or above a merged block
  of several rows leaves the merge where it was, so the block's former top-left cell, the one that
  carries its content, is now a covered cell inside the merge.\<close>

theorem insertRow_hides_merged_content:
  assumes "nth_opt (sheets w) k = Some s" "0 \<le> p" "p \<le> startRow m" "startRow m < int (length (rows s))"
    and "mergedRegions s = Some [m]" "startRow m < endRow m" "startCol m \<le> endCol m"
    and "grid_at (rows s) (startRow m) (startCol m) = Some x"
  shows "\<exists>s' info. nth_opt (sheets (insertRow w k p)) k = Some s' \<and>
    grid_at (rows s') (startRow m + 1) (startCol m) = Some x \<and>
    mergeInfoAt (mergedRegions s') (startRow m + 1) (startCol m) = Some info \<and> mi_isCovered info"
proof -
  have p: "p \<le> int (length (rows s))" using assms by linarith
  have "nth_opt (sheets (insertRow w k p)) k = Some (inserted_row s p)"
    using insert_row.at_target[OF assms(1)] by (simp add: inserted_row_def)
  moreover have "grid_at (rows (inserted_row s p)) (startRow m + 1) (startCol m) = Some x"
    unfolding rows_inserted using assms by (intro grid_at_padRows) (simp add: grid_at_splice[OF assms(2) p])
  moreover have "\<exists>info. mergeInfoAt (mergedRegions (inserted_row s p)) (startRow m + 1) (startCol m) = Some info \<and> mi_isCovered info"
    using assms(6,7) unfolding rows_inserted assms(5)
    by (simp add: mergeInfoAt_def Let_def in_region_def normalizeMergedRegion_def min_def max_def)
  ultimately show ?thesis by blast
qed

theorem insertRow_hides_merged_content_witness:
  "\<exists>s' info. nth_opt (sheets (insertRow (only_sheets
      [small_sheet\<lparr>mergedRegions := Some [\<lparr>startRow = 0, startCol = 0, endRow = 1, endCol = 0\<rparr>]\<rparr>]) 0 0)) 0 = Some s' \<and>
    grid_at (rows s') (0 + 1) 0 = Some (text_cell ''a'') \<and>
    mergeInfoAt (mergedRegions s') (0 + 1) 0 = Some info \<and> mi_isCovered info"
proof -
  let ?m = "\<lparr>startRow = 0, startCol = 0, endRow = 1, endCol = 0\<rparr> :: region"
  let ?s = "small_sheet\<lparr>mergedRegions := Some [?m]\<rparr>"
  have "nth_opt (sheets (only_sheets [?s])) 0 = Some ?s" "startRow ?m < int (length (rows ?s))"
    "grid_at (rows ?s) (startRow ?m) (startCol ?m) = Some (text_cell ''a'')" by code_simp+
  then show ?thesis using insertRow_hides_merged_content[of "only_sheets [?s]" 0 ?s 0 ?m] by simp
qed

section \<open>Merging\<close>

lemma grid_at_map_cells: "grid_at (map_cells f g) r c = map_option (f r c) (grid_at g r c)"
  by (simp add: grid_at_def map_cells_def nth_opt_mapi split: option.split)

lemma merge_info_in_append:
  "merge_info_in (xs @ ys) r c = (case merge_info_in xs r c of None \<Rightarrow> merge_info_in ys r c | Some i \<Rightarrow> Some i)"
  by (induction xs) (auto simp: Let_def)

lemma merge_info_in_disjoint:
  assumes "\<forall>m \<in> set ms. wf_region m \<and> disjoint_regions m n" "in_region r c n"
  shows "merge_info_in ms r c = None"
  using assms by (auto simp: merge_info_in_None disjoint_regions_def in_region_def)

lemma wf_bounds [simp]: "wf_region (bounds_of (normalizeRange rng))"
  using normalizeRange_le[of rng] by (simp add: wf_region_def bounds_of_def)

lemma in_norm_region: "in_norm n r c = in_region r c (bounds_of n)"
  by (simp add: in_norm_def in_region_def bounds_of_def)

lemma removeMerges_or_else:
  "removeMergesIntersecting ms sr sc er ec = removeMergesIntersecting (Some (or_else ms [])) sr sc er ec"
  by (simp add: removeMergesIntersecting_def or_else_def split: option.split)

definition merged_sheet :: "sheet \<Rightarrow> cell_range \<Rightarrow> sheet" where
  "merged_sheet s rng = alone (\<lambda>w k. mergeCellsInRange w k rng) s"

lemma merged_sheet_regions:
  "mergedRegions (merged_sheet s rng) =
     (let b = bounds_of (normalizeRange rng)
      in Some (upsertMergedRegion (Some (removeMergesIntersecting (Some (or_else (mergedRegions s) []))
           (startRow b) (startCol b) (endRow b) (endCol b))) b))"
  using removeMerges_or_else[of "mergedRegions s"]
  by (simp add: merged_sheet_def mergeCellsInRange_def Let_def)

text \<open>C17. Merging a range keeps the sheet's merges well oriented and pairwise disjoint, makes the whole
  range one merge anchored at its top-left cell, and empties exactly the other cells of the range.\<close>

theorem mergeCellsInRange_correct:
  assumes "nth_opt (sheets w) k = Some s" "merges_ok (or_else (mergedRegions s) [])"
  shows "\<exists>s'. nth_opt (sheets (mergeCellsInRange w k rng)) k = Some s' \<and>
    merges_ok (or_else (mergedRegions s') []) \<and>
    (\<forall>r c. isCellInRange r c rng \<longrightarrow> (\<exists>i. mergeInfoAt (mergedRegions s') r c = Some i \<and>
       mi_region i = bounds_of (normalizeRange rng) \<and>
       (mi_isAnchor i \<longleftrightarrow> r = row (rstart (normalizeRange rng)) \<and> c = col (rstart (normalizeRange rng))))) \<and>
    (\<forall>r c. grid_at (rows s') r c = map_option (\<lambda>x.
       if isCellInRange r c rng \<and> \<not> (r = row (rstart (normalizeRange rng)) \<and> c = col (rstart (normalizeRange rng)))
       then blank_cell x else x) (grid_at (rows s) r c))"
proof (intro exI[of _ "merged_sheet s rng"] conjI allI impI)
  let ?n = "normalizeRange rng" let ?b = "bounds_of ?n" let ?s' = "merged_sheet s rng"
  let ?rest = "removeMergesIntersecting (Some (or_else (mergedRegions s) [])) (startRow ?b) (startCol ?b) (endRow ?b) (endCol ?b)"
  have in_rng: "isCellInRange r c rng = in_region r c ?b" for r c
    by (simp add: isCellInRange_def in_norm_region[symmetric] in_norm_def Let_def)
  have b: "\<lparr>startRow = startRow ?b, startCol = startCol ?b, endRow = endRow ?b, endCol = endCol ?b\<rparr> = ?b" by simp
  show "nth_opt (sheets (mergeCellsInRange w k rng)) k = Some ?s'"
    using merge_cells.at_target[OF assms(1)] by (simp add: merged_sheet_def)
  have regions: "mergedRegions ?s' = Some (upsertMergedRegion (Some ?rest) ?b)"
    by (simp add: merged_sheet_regions Let_def)
  show "merges_ok (or_else (mergedRegions ?s') [])"
    using merge_replace_ok[OF assms(2), of "startRow ?b" "startCol ?b" "endRow ?b" "endCol ?b"]
    unfolding regions b by (simp add: or_else_def)
  have rest: "\<forall>m \<in> set ?rest. wf_region m \<and> disjoint_regions m ?b"
    using removeMerges_disjoint[OF assms(2), of _ "startRow ?b" "startCol ?b" "endRow ?b" "endCol ?b"]
      removeMerges_ok[OF assms(2), of "startRow ?b" "startCol ?b" "endRow ?b" "endCol ?b"]
    unfolding b by (auto simp: merges_ok_def list_all_iff)
  have corner: "startRow ?b = row (rstart ?n)" "startCol ?b = col (rstart ?n)" by (simp_all add: bounds_of_def)
  show "\<exists>i. mergeInfoAt (mergedRegions ?s') r c = Some i \<and> mi_region i = ?b \<and>
      (mi_isAnchor i \<longleftrightarrow> r = row (rstart ?n) \<and> c = col (rstart ?n))" if "isCellInRange r c rng" for r c
  proof -
    let ?kept = "filter (\<lambda>e. startRow e = startRow ?b \<longrightarrow> startCol e \<noteq> startCol ?b) ?rest"
    have inb: "in_region r c ?b" using that in_rng by simp
    have none: "merge_info_in ?kept r c = None"
      by (rule merge_info_in_disjoint[OF _ inb]) (use rest in auto)
    have "mergeInfoAt (mergedRegions ?s') r c = merge_info_in (?kept @ [?b]) r c"
      unfolding regions by (simp add: mergeInfoAt_def upsertMergedRegion_def Let_def)
    also have "\<dots> = merge_info_in [?b] r c" by (simp add: merge_info_in_append none del: merge_info_in.simps)
    finally show ?thesis using inb by (simp add: Let_def corner)
  qed
  show "grid_at (rows ?s') r c = map_option (\<lambda>x. if isCellInRange r c rng \<and>
      \<not> (r = row (rstart ?n) \<and> c = col (rstart ?n)) then blank_cell x else x) (grid_at (rows s) r c)" for r c
  proof (cases "grid_at (rows s) r c")
    case (Some x)
    then show ?thesis
      by (auto simp: merged_sheet_def mergeCellsInRange_def Let_def grid_at_map_cells in_norm_region in_rng
          bounds_of_def or_else_def)
  qed (simp add: merged_sheet_def mergeCellsInRange_def Let_def grid_at_map_cells)
qed

theorem mergeCellsInRange_correct_witness:
  "let rng = \<lparr>rstart = \<lparr>row = 1, col = 1\<rparr>, rend = \<lparr>row = 0, col = 0\<rparr>\<rparr>
   in \<exists>s'. nth_opt (sheets (mergeCellsInRange (only_sheets [small_sheet]) 0 rng)) 0 = Some s' \<and>
      merges_ok (or_else (mergedRegions s') []) \<and> grid_at (rows s') 1 1 = Some (blank_cell (text_cell ''d''))"
proof -
  let ?rng = "\<lparr>rstart = \<lparr>row = 1, col = 1\<rparr>, rend = \<lparr>row = 0, col = 0\<rparr>\<rparr>"
  have "nth_opt (sheets (only_sheets [small_sheet])) 0 = Some small_sheet"
    "merges_ok (or_else (mergedRegions small_sheet) [])" by code_simp+
  from mergeCellsInRange_correct[OF this, of ?rng] obtain s' where
    s': "nth_opt (sheets (mergeCellsInRange (only_sheets [small_sheet]) 0 ?rng)) 0 = Some s'"
      "merges_ok (or_else (mergedRegions s') [])"
      "grid_at (rows s') 1 1 = map_option (\<lambda>x.
       if isCellInRange 1 1 ?rng \<and> \<not> (1 = row (rstart (normalizeRange ?rng)) \<and> 1 = col (rstart (normalizeRange ?rng)))
       then blank_cell x else x) (grid_at (rows small_sheet) 1 1)" by blast
  have "isCellInRange 1 1 ?rng" "row (rstart (normalizeRange ?rng)) = 0"
    "grid_at (rows small_sheet) 1 1 = Some (text_cell ''d'')" by code_simp+
  with s' show ?thesis by (auto simp: Let_def)
qed

section \<open>Sorting\<close>

lemma mset_insert_by [simp]: "mset (insert_by cmp x ys) = add_mset x (mset ys)"
  by (induction ys) auto

lemma mset_js_sort [simp]: "mset (js_sort cmp xs) = mset xs"
  by (induction xs) (auto simp: js_sort_def)

lemma set_insert_by [simp]: "set (insert_by cmp x ys) = insert x (set ys)"
  by (induction ys) auto

lemma sorted_insert_by:
  assumes "\<forall>y \<in> insert x (set ys). \<forall>z \<in> insert x (set ys). cmp y z \<le> 0 \<longleftrightarrow> le (key y) (key z)"
    and "\<And>a b. le a b \<or> le b a" "\<And>a b c. le a b \<Longrightarrow> le b c \<Longrightarrow> le a c"
    and "sorted_wrt (\<lambda>y z. le (key y) (key z)) ys"
  shows "sorted_wrt (\<lambda>y z. le (key y) (key z)) (insert_by cmp x ys)"
  using assms(1,4)
proof (induction ys)
  case (Cons y ys)
  show ?case
  proof (cases "cmp x y \<le> 0")
    case True
    then have "le (key x) (key y)" using Cons.prems(1) by auto
    then show ?thesis using Cons.prems(2) True assms(3) by auto
  next
    case False
    then have "le (key y) (key x)" using Cons.prems(1) assms(2)[of "key x" "key y"] by auto
    then show ?thesis using Cons False by auto
  qed
qed simp

lemma sorted_js_sort:
  assumes "\<forall>y \<in> set xs. \<forall>z \<in> set xs. cmp y z \<le> 0 \<longleftrightarrow> le (key y) (key z)"
    and "\<And>a b. le a b \<or> le b a" "\<And>a b c. le a b \<Longrightarrow> le b c \<Longrightarrow> le a c"
  shows "sorted_wrt (\<lambda>y z. le (key y) (key z)) (js_sort cmp xs)"
  using assms(1)
proof (induction xs)
  case (Cons x xs)
  have "set (js_sort cmp xs) = set xs" by (metis mset_js_sort set_mset_mset)
  then show ?case
    using Cons sorted_insert_by[of x "js_sort cmp xs" cmp le key] assms(2,3) by (simp add: js_sort_def)
qed (simp add: js_sort_def)

lemma stable_insert_by:
  assumes "\<forall>z \<in> set ys. cmp x z > 0 \<longrightarrow> key z \<noteq> key x"
  shows "filter (\<lambda>z. key z = v) (insert_by cmp x ys) = filter (\<lambda>z. key z = v) (x # ys)"
  using assms by (induction ys) auto

lemma stable_js_sort:
  assumes "\<forall>y \<in> set xs. \<forall>z \<in> set xs. cmp y z > 0 \<longrightarrow> key z \<noteq> key y"
  shows "filter (\<lambda>z. key z = v) (js_sort cmp xs) = filter (\<lambda>z. key z = v) xs"
  using assms
proof (induction xs)
  case (Cons x xs)
  have "set (js_sort cmp xs) = set xs" by (metis mset_js_sort set_mset_mset)
  with Cons stable_insert_by[of "js_sort cmp xs" cmp x key v] show ?case by (simp add: js_sort_def)
qed (simp add: js_sort_def)

definition column_number :: "int \<Rightarrow> sheet_cell list \<Rightarrow> rat" where
  "column_number c line = or_else (to_number (sort_value line c)) 0"

definition in_direction :: "sort_direction \<Rightarrow> rat \<Rightarrow> rat \<Rightarrow> bool" where
  "in_direction d a b \<longleftrightarrow> (if d = Asc then a \<le> b else b \<le> a)"

lemma compare_numeric:
  assumes "to_number (sort_value a c) \<noteq> None" "to_number (sort_value b c) \<noteq> None"
  shows "compare_values h (sort_value a c) (sort_value b c) =
    (if column_number c a < column_number c b then -1 else if column_number c a = column_number c b then 0 else 1)"
  using assms by (auto simp: compare_values_def column_number_def or_else_def)

text \<open>C25. Sorting by a column whose body cells all read as numbers keeps the header row, permutes the
  other rows into the order asked for, and keeps the order of rows with equal numbers.\<close>

theorem sortSheetByColumn_numeric:
  assumes "nth_opt (sheets w) k = Some s" "rows s = header # body"
    and "\<forall>line \<in> set body. to_number (sort_value line c) \<noteq> None"
  shows "\<exists>s' body'. nth_opt (sheets (sortSheetByColumn h w k c d)) k = Some s' \<and> rows s' = header # body' \<and>
    mset body' = mset body \<and>
    sorted_wrt (\<lambda>a b. in_direction d (column_number c a) (column_number c b)) body' \<and>
    (\<forall>v. filter (\<lambda>line. column_number c line = v) body' = filter (\<lambda>line. column_number c line = v) body)"
proof -
  let ?cmp = "\<lambda>a b. directed d (compare_values h (sort_value a c) (sort_value b c))"
  let ?s' = "s\<lparr>rows := sort_body ?cmp (rows s)\<rparr>"
  have "nth_opt (sheets (sortSheetByColumn h w k c d)) k = Some ?s'"
    using assms(1) by (simp add: sortSheetByColumn_def nth_opt_on_sheet)
  moreover have "rows ?s' = header # js_sort ?cmp body" by (simp add: assms(2) sort_body_def)
  moreover have "sorted_wrt (\<lambda>a b. in_direction d (column_number c a) (column_number c b)) (js_sort ?cmp body)"
    using assms(3) by (intro sorted_js_sort) (auto simp: compare_numeric directed_def in_direction_def)
  moreover have "filter (\<lambda>line. column_number c line = v) (js_sort ?cmp body) = filter (\<lambda>line. column_number c line = v) body" for v
    using assms(3) by (intro stable_js_sort) (auto simp: compare_numeric directed_def)
  ultimately show ?thesis by (intro exI[of _ ?s'] exI[of _ "js_sort ?cmp body"]) simp
qed

definition number_cell :: "rat \<Rightarrow> sheet_cell" where
  "number_cell x = empty_cell\<lparr>cvalue := VNum x, display := show_num x\<rparr>"

definition number_sheet :: sheet where
  "number_sheet = new_sheet ''N'' [[text_cell ''n''], [number_cell 3], [text_cell ''1''], [number_cell 2]]"

theorem sortSheetByColumn_numeric_witness:
  "\<exists>s' body'. nth_opt (sheets (sortSheetByColumn plain_host (only_sheets [number_sheet]) 0 0 Desc)) 0 = Some s' \<and>
    rows s' = [text_cell ''n''] # body' \<and>
    sorted_wrt (\<lambda>a b. in_direction Desc (column_number 0 a) (column_number 0 b)) body'"
proof -
  have "nth_opt (sheets (only_sheets [number_sheet])) 0 = Some number_sheet"
    "rows number_sheet = [text_cell ''n''] # [[number_cell 3], [text_cell ''1''], [number_cell 2]]"
    "\<forall>line \<in> set [[number_cell 3], [text_cell ''1''], [number_cell 2]]. to_number (sort_value line 0) \<noteq> None"
    by code_simp+
  from sortSheetByColumn_numeric[OF this, of plain_host Desc] show ?thesis by blast
qed

section \<open>Moving sheets\<close>

text \<open>After a sheet is dragged to another place, the index the editor computes for the active tab
  still names the sheet that was active, and no sheet is lost or duplicated.\<close>

theorem moveSheet_keeps_active:
  assumes "0 \<le> f" "f < int (length (sheets w))" "0 \<le> t" "t < int (length (sheets w))"
    and "0 \<le> a" "a < int (length (sheets w))"
  shows "nth_opt (sheets (moveSheet w f t)) (activeSheetIndexAfterMove a f t) = nth_opt (sheets w) a \<and>
    mset (sheets (moveSheet w f t)) = mset (sheets w)"
proof (cases "f = t")
  case True
  then show ?thesis by (simp add: moveSheet_def activeSheetIndexAfterMove_def)
next
  case False
  obtain n where n: "f = int n" "n < length (sheets w)" using assms(1,2) by (metis nonneg_int_cases of_nat_less_iff)
  let ?rest = "take n (sheets w) @ drop (Suc n) (sheets w)" and ?x = "sheets w ! n"
  have pos: "js_pos (length (sheets w)) (int n) = n" using n by (simp add: js_pos_def)
  have move: "sheets (moveSheet w f t) = js_splice_insert t ?x ?rest"
    using False n pos by (simp add: moveSheet_def js_splice_remove_def Let_def)
  have len: "length ?rest = length (sheets w) - 1" using n by simp
  have rest: "nth_opt ?rest i = (if i < f then nth_opt (sheets w) i else nth_opt (sheets w) (i + 1))" for i
    using nth_opt_delete[of f "sheets w" i] assms(1,2) n by (simp add: filteri_except)
  have t: "t \<le> int (length ?rest)" using assms(4) len by simp
  have "mset (sheets w) = add_mset ?x (mset ?rest)"
    using n(2) by (metis id_take_nth_drop mset.simps(2) mset_append union_mset_add_mset_right)
  then have "mset (sheets (moveSheet w f t)) = mset (sheets w)" unfolding move by (simp add: mset_js_splice_insert)
  moreover have "nth_opt (sheets w) f = Some ?x" using n by simp
  ultimately show ?thesis
    unfolding move nth_opt_splice_insert[OF assms(3) t] rest activeSheetIndexAfterMove_def
    using False by auto
qed

theorem moveSheet_keeps_active_witness:
  "let w = only_sheets [new_sheet ''A'' [], new_sheet ''B'' [], new_sheet ''C'' []]
   in nth_opt (sheets (moveSheet w 0 2)) (activeSheetIndexAfterMove 1 0 2) = nth_opt (sheets w) 1 \<and>
      mset (sheets (moveSheet w 0 2)) = mset (sheets w)"
  using moveSheet_keeps_active[of 0 "only_sheets [new_sheet ''A'' [], new_sheet ''B'' [], new_sheet ''C'' []]" 2 1]
  by (simp add: Let_def)

section \<open>Sparse widths\<close>

text \<open>Deleting a column moves custom widths: the stored widths have holes where a column has the
  default width, the deletion's \<open>filter\<close> skips holes, and the width of the one resized column n ends
  up on column 0 although the deleted column lies to the right of both.\<close>

theorem deleteColumn_moves_custom_width:
  assumes "nth_opt (sheets w) k = Some s" "columnWidths s = Some (replicate n Hole @ [Px x])"
    and "0 < n" "int n < c"
  shows "\<exists>s'. nth_opt (sheets (deleteColumn w k c)) k = Some s' \<and>
    stored_at (columnWidths s') 0 = Px x \<and> stored_at (columnWidths s') n = Undef"
proof -
  have "filter_dims c (replicate n Hole @ [Px x]) = [Px x]"
    using assms(4) by (simp add: filter_dims_def filteri_except)
  then have "columnWidths (alone (\<lambda>w k. deleteColumn w k c) s) = Some [Px x]"
    using assms(2) by (simp add: deleteColumn_def)
  then show ?thesis
    using delete_column.at_target[OF assms(1), of c] assms(3) by (simp add: stored_at_def)
qed

definition widened_sheet :: sheet where
  "widened_sheet = small_sheet\<lparr>columnWidths := applyGridColumnWidths [Px 64, Px 200, Px 64, Px 64]\<rparr>"

theorem deleteColumn_moves_custom_width_witness:
  "\<exists>s'. nth_opt (sheets (deleteColumn (only_sheets [widened_sheet]) 0 3)) 0 = Some s' \<and>
    stored_at (columnWidths s') 0 = Px 200 \<and> stored_at (columnWidths s') 1 = Undef"
proof -
  have "nth_opt (sheets (only_sheets [widened_sheet])) 0 = Some widened_sheet"
    "columnWidths widened_sheet = Some (replicate 1 Hole @ [Px 200])" by code_simp+
  from deleteColumn_moves_custom_width[OF this, of 3] show ?thesis by simp
qed

end
