(* ===== verification/SheetClipboard.thy ===== *)
theory SheetClipboard
  imports SheetProps
begin

text \<open>
  Copy and paste (\<^verbatim>\<open>clipboard.ts\<close>), drag-fill (\<^verbatim>\<open>fill-handle.ts\<close>) and the undo history
  (\<^verbatim>\<open>undo.ts\<close>, with the parts of \<^verbatim>\<open>hooks/useSpreadsheetEditor.ts\<close> that drive it) of
  \<^verbatim>\<open>frontend/src/lib/spreadsheet\<close>.

  A cell is cloned through JSON, which keeps every defined property, so a clone is the cell. A
  workbook's clone also turns the holes of its sparse arrays into stored entries.
\<close>

section \<open>Clipboard (clipboard.ts)\<close>

record clipboard_payload =
  cb_cells :: grid
  cb_rows :: int
  cb_cols :: int

datatype paste_mode = PasteAll | PasteValues | PasteFormats | PasteFormulas

definition copyRangeFromSheet :: "sheet \<Rightarrow> cell_range \<Rightarrow> clipboard_payload" where
  "copyRangeFromSheet s rng =
     (let n = normalizeRange rng;
          nrows = row (rend n) - row (rstart n) + 1;
          cols = col (rend n) - col (rstart n) + 1
      in \<lparr>cb_cells = map (\<lambda>i. map (\<lambda>j. or_else (grid_at (rows s) (row (rstart n) + i) (col (rstart n) + j)) empty_cell)
            [0..cols - 1]) [0..nrows - 1],
          cb_rows = nrows, cb_cols = cols\<rparr>)"

definition transposeClipboardPayload :: "clipboard_payload \<Rightarrow> clipboard_payload" where
  "transposeClipboardPayload p =
     \<lparr>cb_cells = map (\<lambda>c. map (\<lambda>r. or_else (grid_at (cb_cells p) r c) empty_cell) [0..cb_rows p - 1]) [0..cb_cols p - 1],
      cb_rows = cb_cols p, cb_cols = cb_rows p\<rparr>"

definition paste_cell :: "host \<Rightarrow> paste_mode \<Rightarrow> sheet_cell \<Rightarrow> sheet_cell \<Rightarrow> sheet_cell" where
  "paste_cell h mode source x =
     (let shown = formatCellDisplay h (cvalue source) (numberFormat (style_of x)) (customNumberFormat (style_of x))
      in case mode of
           PasteValues \<Rightarrow> x\<lparr>formula := None, cvalue := cvalue source, display := shown\<rparr>
         | PasteFormats \<Rightarrow> x\<lparr>style := style source\<rparr>
         | PasteFormulas \<Rightarrow>
             (if opt_text (formula source) \<noteq> []
              then x\<lparr>formula := formula source, cvalue := cvalue source, display := display source\<rparr>
              else x\<lparr>formula := None, cvalue := cvalue source, display := shown\<rparr>)
         | PasteAll \<Rightarrow> source)"

text \<open>Whether the block has a cell at every place of its \<open>rows\<close> by \<open>cols\<close> rectangle.\<close>

definition full_payload :: "clipboard_payload \<Rightarrow> bool" where
  "full_payload p \<longleftrightarrow> list_all (\<lambda>i. list_all (\<lambda>j. grid_at (cb_cells p) i j \<noteq> None) [0..cb_cols p - 1]) [0..cb_rows p - 1]"

text \<open>
  Every place of the block is visited once the sheet has been grown (the target is an address
  of the grid), and reading a property of a missing cell throws: \<open>None\<close>.
\<close>

definition pasteRangeIntoWorkbook ::
    "host \<Rightarrow> workbook \<Rightarrow> int \<Rightarrow> cell_address \<Rightarrow> clipboard_payload \<Rightarrow> paste_mode \<Rightarrow> bool \<Rightarrow> workbook option" where
  "pasteRangeIntoWorkbook h w k target payload mode transposed =
     (let p = (if transposed then transposeClipboardPayload payload else payload)
      in if nth_opt (sheets w) k \<noteq> None \<and> \<not> full_payload p then None
         else Some (only_sheets (on_sheet k (\<lambda>s.
           let expanded = expandSheetToAddress s (row target + cb_rows p - 1) (col target + cb_cols p - 1)
           in expanded\<lparr>rows := map_cells (\<lambda>r c x.
                let relRow = r - row target; relCol = c - col target
                in if relRow < 0 \<or> relCol < 0 \<or> relRow \<ge> cb_rows p \<or> relCol \<ge> cb_cols p then x
                   else case grid_at (cb_cells p) relRow relCol of
                          Some source \<Rightarrow> paste_cell h mode source x | None \<Rightarrow> x) (rows expanded)\<rparr>) (sheets w))))"

definition clearRangeInWorkbook :: "workbook \<Rightarrow> int \<Rightarrow> cell_range \<Rightarrow> workbook" where
  "clearRangeInWorkbook w k rng =
     only_sheets (on_sheet k (\<lambda>s. s\<lparr>rows := map_cells (\<lambda>r c x.
       if in_norm (normalizeRange rng) r c then blank_cell x else x) (rows s)\<rparr>) (sheets w))"

definition clipboardToTsv :: "clipboard_payload \<Rightarrow> string" where
  "clipboardToTsv p = js_join [lf] (map (\<lambda>line. js_join [tab] (map display line)) (cb_cells p))"

definition tsv_cell :: "string \<Rightarrow> sheet_cell" where
  "tsv_cell t = (let trimmed = js_trim t in empty_cell\<lparr>cvalue := parse_entry trimmed, display := trimmed\<rparr>)"

definition tsvToClipboardPayload :: "string \<Rightarrow> clipboard_payload" where
  "tsvToClipboardPayload text =
     (let cells = map (\<lambda>l. map tsv_cell (js_split [tab] l)) (js_split [lf] (unix_newlines text))
      in \<lparr>cb_cells = cells, cb_rows = int (length cells), cb_cols = int (max (max_row_length cells) 1)\<rparr>)"

section \<open>Drag-fill (fill-handle.ts)\<close>

definition cellNumericStep :: "rat list \<Rightarrow> rat option" where
  "cellNumericStep vs =
     (case vs of
        a # b # rest \<Rightarrow>
          if list_all (\<lambda>(x, y). y - x = b - a) (zip vs (tl vs)) then Some (b - a) else None
      | _ \<Rightarrow> None)"

definition numeric_series :: "sheet_cell list \<Rightarrow> rat list" where
  "numeric_series cells = concat (map (\<lambda>x. case cvalue x of VNum n \<Rightarrow> [n] | _ \<Rightarrow> []) cells)"

definition fillValueForOffset :: "host \<Rightarrow> sheet_cell list \<Rightarrow> int \<Rightarrow> int \<Rightarrow> sheet_cell" where
  "fillValueForOffset h sourceCells offset axisLength =
     (if sourceCells = [] then empty_cell
      else let index = js_rem offset axisLength;
               base = or_else (nth_opt sourceCells index) (last sourceCells)
           in case (cellNumericStep (numeric_series sourceCells), cvalue base) of
                (Some stp, VNum b) \<Rightarrow>
                  (let v = b + stp * of_int ((offset div axisLength) * axisLength + index)
                   in base\<lparr>formula := None, cvalue := VNum v,
                        display := formatCellDisplay h (VNum v) (numberFormat (style_of base)) None\<rparr>)
              | _ \<Rightarrow> base)"

definition fillRangeInWorkbook :: "host \<Rightarrow> workbook \<Rightarrow> int \<Rightarrow> cell_range \<Rightarrow> cell_range \<Rightarrow> workbook" where
  "fillRangeInWorkbook h w k sourceRange targetRange =
     (let source = normalizeRange sourceRange; target = normalizeRange targetRange;
          bounds = normalizeRange
            \<lparr>rstart = \<lparr>row = min (row (rstart source)) (row (rstart target)), col = min (col (rstart source)) (col (rstart target))\<rparr>,
             rend = \<lparr>row = max (row (rend source)) (row (rend target)), col = max (col (rend source)) (col (rend target))\<rparr>\<rparr>;
          sourceRows = row (rend source) - row (rstart source) + 1;
          sourceCols = col (rend source) - col (rstart source) + 1
      in only_sheets (on_sheet k (\<lambda>s.
           let expanded = expandSheetToAddress s (row (rend bounds)) (col (rend bounds));
               cell_or_empty = (\<lambda>r c. or_else (grid_at (rows expanded) r c) empty_cell)
           in expanded\<lparr>rows := map_cells (\<lambda>r c x.
                if in_norm source r c then x
                else if \<not> in_norm bounds r c then x
                else if row (rend bounds) > row (rend source) \<and> c \<ge> col (rstart source) \<and> c \<le> col (rend source)
                then fillValueForOffset h (map (\<lambda>i. cell_or_empty (row (rstart source) + i) c) [0..sourceRows - 1])
                       (r - row (rstart source)) sourceRows
                else if col (rend bounds) > col (rend source) \<and> r \<ge> row (rstart source) \<and> r \<le> row (rend source)
                then fillValueForOffset h (map (\<lambda>i. cell_or_empty r (col (rstart source) + i)) [0..sourceCols - 1])
                       (c - col (rstart source)) sourceCols
                else x) (rows expanded)\<rparr>) (sheets w)))"

definition fillTargetRange :: "cell_range \<Rightarrow> cell_address \<Rightarrow> cell_range option" where
  "fillTargetRange sourceRange dragEnd =
     (let source = normalizeRange sourceRange;
          extendRows = row dragEnd > row (rend source);
          extendCols = col dragEnd > col (rend source)
      in if row dragEnd \<le> row (rend source) \<and> col dragEnd \<le> col (rend source) then None
         else if extendRows \<and> (\<not> extendCols \<or> row dragEnd - row (rend source) \<ge> col dragEnd - col (rend source))
         then Some (normalizeRange \<lparr>rstart = rstart source, rend = \<lparr>row = row dragEnd, col = col (rend source)\<rparr>\<rparr>)
         else if extendCols
         then Some (normalizeRange \<lparr>rstart = rstart source, rend = \<lparr>row = row (rend source), col = col dragEnd\<rparr>\<rparr>)
         else None)"

section \<open>History (undo.ts)\<close>

definition max_undo_depth :: nat where "max_undo_depth = 50"

record undo_stack =
  past :: "workbook list"
  future :: "workbook list"

definition clone_sheet :: "sheet \<Rightarrow> sheet" where
  "clone_sheet s = s\<lparr>columnWidths := map_option fill_holes (columnWidths s),
     rowHeights := map_option fill_holes (rowHeights s)\<rparr>"

definition cloneWorkbook :: "workbook \<Rightarrow> workbook" where
  "cloneWorkbook w = w\<lparr>sheets := map clone_sheet (sheets w)\<rparr>"

definition createUndoStack :: "workbook option \<Rightarrow> undo_stack" where
  "createUndoStack initial =
     \<lparr>past = (case initial of None \<Rightarrow> [] | Some w \<Rightarrow> [cloneWorkbook w]), future = []\<rparr>"

definition pushUndo :: "undo_stack \<Rightarrow> workbook \<Rightarrow> undo_stack" where
  "pushUndo st w =
     (let p = past st @ [cloneWorkbook w]
      in \<lparr>past = (if length p > max_undo_depth then tl p else p), future = []\<rparr>)"

definition undo :: "undo_stack \<Rightarrow> workbook \<Rightarrow> undo_stack \<times> workbook option" where
  "undo st current =
     (if length (past st) \<le> 1 then (st, None)
      else let p = butlast (past st)
           in (\<lparr>past = p, future = cloneWorkbook current # future st\<rparr>, Some (cloneWorkbook (last p))))"

definition redo :: "undo_stack \<Rightarrow> workbook \<Rightarrow> undo_stack \<times> workbook option" where
  "redo st current =
     (case future st of
        [] \<Rightarrow> (st, None)
      | nxt # rest \<Rightarrow> (\<lparr>past = past st @ [cloneWorkbook current], future = rest\<rparr>, Some (cloneWorkbook nxt)))"

definition canUndo :: "undo_stack \<Rightarrow> bool" where "canUndo st \<longleftrightarrow> length (past st) > 1"
definition canRedo :: "undo_stack \<Rightarrow> bool" where "canRedo st \<longleftrightarrow> length (future st) > 0"

text \<open>
  The editor's use of it: committing a mutation pushes the workbook it is about to replace;
  undo and redo replace the workbook by the one they return, recalculated. \<open>recalc\<close> is the formula
  engine. A read-only or protected sheet stops each of them before it does anything.
\<close>

record editor =
  ed_workbook :: workbook
  ed_stack :: undo_stack

datatype edit_event = Commit "workbook \<Rightarrow> workbook" | Undo | Redo

definition open_editor :: "workbook \<Rightarrow> editor" where
  "open_editor w = \<lparr>ed_workbook = w, ed_stack = createUndoStack (Some w)\<rparr>"

fun edit_step :: "(workbook \<Rightarrow> workbook) \<Rightarrow> editor \<Rightarrow> edit_event \<Rightarrow> editor" where
  "edit_step recalc e (Commit m) =
     \<lparr>ed_workbook = recalc (m (ed_workbook e)), ed_stack = pushUndo (ed_stack e) (ed_workbook e)\<rparr>"
| "edit_step recalc e Undo =
     (case undo (ed_stack e) (ed_workbook e) of
        (st, None) \<Rightarrow> e
      | (st, Some w) \<Rightarrow> \<lparr>ed_workbook = recalc w, ed_stack = st\<rparr>)"
| "edit_step recalc e Redo =
     (case redo (ed_stack e) (ed_workbook e) of
        (st, None) \<Rightarrow> e
      | (st, Some w) \<Rightarrow> \<lparr>ed_workbook = recalc w, ed_stack = st\<rparr>)"

section \<open>Lemmas\<close>

lemma grid_at_table:
  "grid_at (map (\<lambda>i. map (\<lambda>j. f i j) [0..n]) [0..m]) r c =
     (if 0 \<le> r \<and> r \<le> m \<and> 0 \<le> c \<and> c \<le> n then Some (f r c) else None)"
proof (cases "0 \<le> r \<and> 0 \<le> c")
  case True
  then obtain i j where "r = int i" "c = int j" by (metis nonneg_int_cases)
  then show ?thesis by (auto simp: grid_at_nat)
next
  case False
  then show ?thesis by (auto simp: grid_at_neg)
qed

lemma copied_cell:
  assumes "0 \<le> i" "i < cb_rows (copyRangeFromSheet s rng)" "0 \<le> j" "j < cb_cols (copyRangeFromSheet s rng)"
  shows "grid_at (cb_cells (copyRangeFromSheet s rng)) i j =
    Some (or_else (grid_at (rows s) (row (rstart (normalizeRange rng)) + i) (col (rstart (normalizeRange rng)) + j)) empty_cell)"
  using assms by (simp add: copyRangeFromSheet_def Let_def grid_at_table)

lemma full_payload_iff:
  "full_payload p \<longleftrightarrow> (\<forall>i j. 0 \<le> i \<and> i < cb_rows p \<and> 0 \<le> j \<and> j < cb_cols p \<longrightarrow> grid_at (cb_cells p) i j \<noteq> None)"
  by (auto simp: full_payload_def list_all_iff)

lemma copied_full [simp]: "full_payload (copyRangeFromSheet s rng)"
  by (auto simp: full_payload_iff copied_cell)

lemma expand_covers:
  "0 \<le> i \<Longrightarrow> i \<le> r \<Longrightarrow> 0 \<le> j \<Longrightarrow> j \<le> c \<Longrightarrow>
   grid_at (rows (expandSheetToAddress s r c)) i j = Some (or_else (grid_at (rows s) i j) empty_cell)"
  unfolding expandSheetToAddress_def or_else_def
  by (subst grid_at_padSheetToSize)
    (auto simp: le_max_iff_disj target_bounds grid_padding_rows_def grid_padding_columns_def split: option.split)

lemma expand_keeps: "grid_at (rows s) i j = Some x \<Longrightarrow> grid_at (rows (expandSheetToAddress s r c)) i j = Some x"
proof -
  assume x: "grid_at (rows s) i j = Some x"
  then have "0 \<le> i \<and> i < int (length (rows s)) \<and> 0 \<le> j \<and> j < int (max_row_length (rows s))"
    using max_row_length_ge[of "rows s ! nat i" "rows s"]
    by (auto simp: grid_at_def nth_opt_def split: option.splits if_splits)
  then show ?thesis
    unfolding expandSheetToAddress_def using x target_bounds[of "rows s"]
    by (subst grid_at_padSheetToSize) (auto simp: le_max_iff_disj less_max_iff_disj intro: less_le_trans)
qed

section \<open>Copy and paste\<close>

text \<open>C28. Copying a range of one sheet and pasting it at an address of the same or another sheet gives,
  at every place of the pasted rectangle, the copied cell (an empty one where the source had none),
  and leaves every other cell of the target sheet and every other sheet as they were. Of the workbook only
  the sheets are kept: the named ranges, the change log and the uploaded bytes are dropped.\<close>

theorem paste_of_copy:
  assumes "nth_opt (sheets w) k = Some s" "0 \<le> row target" "0 \<le> col target"
  shows "\<exists>w' s'. pasteRangeIntoWorkbook h w k target (copyRangeFromSheet src rng) PasteAll False = Some w' \<and>
    nth_opt (sheets w') k = Some s' \<and>
    (\<forall>i j. 0 \<le> i \<and> i < fst (rangeDimensions rng) \<and> 0 \<le> j \<and> j < snd (rangeDimensions rng) \<longrightarrow>
       grid_at (rows s') (row target + i) (col target + j) =
       Some (or_else (grid_at (rows src) (row (rstart (normalizeRange rng)) + i) (col (rstart (normalizeRange rng)) + j)) empty_cell)) \<and>
    (\<forall>r c x. \<not> (row target \<le> r \<and> r < row target + fst (rangeDimensions rng) \<and>
              col target \<le> c \<and> c < col target + snd (rangeDimensions rng)) \<and>
       grid_at (rows s) r c = Some x \<longrightarrow> grid_at (rows s') r c = Some x) \<and>
    (\<forall>j. j \<noteq> k \<longrightarrow> nth_opt (sheets w') j = nth_opt (sheets w) j) \<and> w' = only_sheets (sheets w')"
proof -
  let ?p = "copyRangeFromSheet src rng"
  have dims: "cb_rows ?p = fst (rangeDimensions rng)" "cb_cols ?p = snd (rangeDimensions rng)"
    by (simp_all add: copyRangeFromSheet_def rangeDimensions_def Let_def)
  let ?e = "expandSheetToAddress s (row target + cb_rows ?p - 1) (col target + cb_cols ?p - 1)"
  let ?f = "\<lambda>r c x. let relRow = r - row target; relCol = c - col target
      in if relRow < 0 \<or> relCol < 0 \<or> relRow \<ge> cb_rows ?p \<or> relCol \<ge> cb_cols ?p then x
         else case grid_at (cb_cells ?p) relRow relCol of Some source \<Rightarrow> paste_cell h PasteAll source x | None \<Rightarrow> x"
  obtain w' where w': "pasteRangeIntoWorkbook h w k target ?p PasteAll False = Some w'"
    "nth_opt (sheets w') k = Some (?e\<lparr>rows := map_cells ?f (rows ?e)\<rparr>)"
    "\<And>j. j \<noteq> k \<Longrightarrow> nth_opt (sheets w') j = nth_opt (sheets w) j" "w' = only_sheets (sheets w')"
    using assms(1) by (simp add: pasteRangeIntoWorkbook_def nth_opt_on_sheet Let_def)
  have at: "grid_at (rows (?e\<lparr>rows := map_cells ?f (rows ?e)\<rparr>)) r c = map_option (?f r c) (grid_at (rows ?e) r c)" for r c
    by (simp add: grid_at_map_cells)
  show ?thesis
  proof (intro exI[of _ w'] exI[of _ "?e\<lparr>rows := map_cells ?f (rows ?e)\<rparr>"] conjI allI impI, rule w'(1), rule w'(2))
    fix i j assume ij: "0 \<le> i \<and> i < fst (rangeDimensions rng) \<and> 0 \<le> j \<and> j < snd (rangeDimensions rng)"
    then have "grid_at (rows ?e) (row target + i) (col target + j) =
        Some (or_else (grid_at (rows s) (row target + i) (col target + j)) empty_cell)"
      using assms(2,3) by (intro expand_covers) (auto simp: dims)
    then show "grid_at (rows (?e\<lparr>rows := map_cells ?f (rows ?e)\<rparr>)) (row target + i) (col target + j) =
       Some (or_else (grid_at (rows src) (row (rstart (normalizeRange rng)) + i) (col (rstart (normalizeRange rng)) + j)) empty_cell)"
      unfolding at using ij copied_cell[of i src rng j] by (simp add: dims paste_cell_def Let_def)
  next
    show "w' = only_sheets (sheets w')" by (rule w'(4))
  next
    fix j assume "j \<noteq> k"
    then show "nth_opt (sheets w') j = nth_opt (sheets w) j" by (rule w'(3))
  next
    fix r c x
    assume "\<not> (row target \<le> r \<and> r < row target + fst (rangeDimensions rng) \<and>
        col target \<le> c \<and> c < col target + snd (rangeDimensions rng)) \<and> grid_at (rows s) r c = Some x"
    then show "grid_at (rows (?e\<lparr>rows := map_cells ?f (rows ?e)\<rparr>)) r c = Some x"
      unfolding at using expand_keeps[of s r c x] by (auto simp: dims Let_def)
  qed
qed

theorem paste_of_copy_witness:
  "\<exists>w' s'. pasteRangeIntoWorkbook plain_host (only_sheets [small_sheet]) 0 \<lparr>row = 3, col = 4\<rparr>
      (copyRangeFromSheet small_sheet \<lparr>rstart = \<lparr>row = 0, col = 0\<rparr>, rend = \<lparr>row = 1, col = 1\<rparr>\<rparr>) PasteAll False = Some w' \<and>
    nth_opt (sheets w') 0 = Some s' \<and> grid_at (rows s') 4 5 = Some (text_cell ''d'')"
proof -
  let ?rng = "\<lparr>rstart = \<lparr>row = 0, col = 0\<rparr>, rend = \<lparr>row = 1, col = 1\<rparr>\<rparr> :: cell_range"
  have n: "nth_opt (sheets (only_sheets [small_sheet])) 0 = Some small_sheet" by code_simp
  have dims: "fst (rangeDimensions ?rng) = 2" "snd (rangeDimensions ?rng) = 2"
    "row (rstart (normalizeRange ?rng)) = 0" "col (rstart (normalizeRange ?rng)) = 0"
    "grid_at (rows small_sheet) 1 1 = Some (text_cell ''d'')" by code_simp+
  from paste_of_copy[OF n, of "\<lparr>row = 3, col = 4\<rparr>" plain_host small_sheet ?rng] obtain w' s' where
    p: "pasteRangeIntoWorkbook plain_host (only_sheets [small_sheet]) 0 \<lparr>row = 3, col = 4\<rparr> (copyRangeFromSheet small_sheet ?rng) PasteAll False = Some w'"
       "nth_opt (sheets w') 0 = Some s'"
    and at: "\<forall>i j. 0 \<le> i \<and> i < fst (rangeDimensions ?rng) \<and> 0 \<le> j \<and> j < snd (rangeDimensions ?rng) \<longrightarrow>
       grid_at (rows s') (row \<lparr>row = 3, col = 4\<rparr> + i) (col \<lparr>row = 3, col = 4\<rparr> + j) =
       Some (or_else (grid_at (rows small_sheet) (row (rstart (normalizeRange ?rng)) + i) (col (rstart (normalizeRange ?rng)) + j)) empty_cell)"
    by auto
  have "grid_at (rows s') 4 5 = Some (text_cell ''d'')"
    using at[rule_format, of 1 1] unfolding dims by (simp add: dims(5) or_else_def)
  with p show ?thesis by blast
qed

text \<open>Pasting from the system clipboard works exactly for rectangular text: a paste into an existing
  sheet throws when some line has fewer fields than the longest one.\<close>

theorem ragged_paste_throws:
  assumes "nth_opt (sheets w) k = Some s"
  shows "pasteRangeIntoWorkbook h w k target (tsvToClipboardPayload text) mode False = None \<longleftrightarrow>
    (\<exists>l \<in> set (js_split [lf] (unix_newlines text)). \<exists>l' \<in> set (js_split [lf] (unix_newlines text)).
       length (js_split [tab] l) < length (js_split [tab] l'))"
proof -
  let ?lines = "js_split [lf] (unix_newlines text)"
  let ?g = "map (\<lambda>l. map tsv_cell (js_split [tab] l)) ?lines"
  let ?p = "tsvToClipboardPayload text"
  have p: "cb_cells ?p = ?g" "cb_rows ?p = int (length ?lines)" "cb_cols ?p = int (max (max_row_length ?g) 1)"
    by (simp_all add: tsvToClipboardPayload_def Let_def)
  have field: "1 \<le> length (js_split [tab] l)" for l
    using split_go_nonempty[of "[tab]" "[]" l] by (simp add: js_split_def Suc_le_eq)
  have max_in: "\<exists>l' \<in> set ?lines. max_row_length ?g = length (js_split [tab] l')"
  proof -
    have "max_row_length ?g = Max (set (0 # map length ?g))"
      unfolding max_row_length_def by (rule Max.set_eq_fold[symmetric])
    moreover have "Max (set (0 # map length ?g)) \<in> set (0 # map length ?g)" by (rule Max_in) simp_all
    ultimately have "max_row_length ?g = 0 \<or> (\<exists>l' \<in> set ?lines. max_row_length ?g = length (js_split [tab] l'))"
      by auto
    moreover have "max_row_length ?g \<noteq> 0"
    proof -
      have "?lines \<noteq> []" using split_go_nonempty by (simp add: js_split_def)
      then obtain l where "l \<in> set ?lines" using hd_in_set by blast
      then show ?thesis using max_row_length_ge[of "map tsv_cell (js_split [tab] l)" ?g] field[of l] by force
    qed
    ultimately show ?thesis by blast
  qed
  have cols: "cb_cols ?p = int (max_row_length ?g)"
    using max_in field unfolding p by (metis max.absorb1)
  have full: "full_payload ?p \<longleftrightarrow> (\<forall>l \<in> set ?lines. max_row_length ?g \<le> length (js_split [tab] l))"
  proof
    assume f: "full_payload ?p"
    show "\<forall>l \<in> set ?lines. max_row_length ?g \<le> length (js_split [tab] l)"
    proof
      fix l assume "l \<in> set ?lines"
      then obtain n where n: "n < length ?lines" "?lines ! n = l" by (meson in_set_conv_nth)
      have "max_row_length ?g \<noteq> 0" using max_in field by (metis not_one_le_zero)
      with f n(1) have "grid_at ?g (int n) (int (max_row_length ?g - 1)) \<noteq> None"
        unfolding full_payload_iff cols p by auto
      then show "max_row_length ?g \<le> length (js_split [tab] l)"
        using n by (auto simp: grid_at_nat split: if_splits)
    qed
  next
    assume a: "\<forall>l \<in> set ?lines. max_row_length ?g \<le> length (js_split [tab] l)"
    show "full_payload ?p"
      unfolding full_payload_iff cols p(1,2)
    proof (intro allI impI)
      fix i j assume "0 \<le> i \<and> i < int (length ?lines) \<and> 0 \<le> j \<and> j < int (max_row_length ?g)"
      moreover then obtain a b where "i = int a" "j = int b" by (metis nonneg_int_cases)
      ultimately show "grid_at ?g i j \<noteq> None"
        using a by (auto simp: grid_at_nat) (meson less_le_trans nth_mem)
    qed
  qed
  have "pasteRangeIntoWorkbook h w k target ?p mode False = None \<longleftrightarrow> \<not> full_payload ?p"
    using assms unfolding pasteRangeIntoWorkbook_def Let_def[of "if False then _ else _"] by simp
  also have "\<dots> \<longleftrightarrow> (\<exists>l \<in> set ?lines. length (js_split [tab] l) < max_row_length ?g)"
    unfolding full by (simp add: not_le)
  also have "\<dots> \<longleftrightarrow> (\<exists>l \<in> set ?lines. \<exists>l' \<in> set ?lines. length (js_split [tab] l) < length (js_split [tab] l'))"
  proof -
    have le: "length (js_split [tab] l') \<le> max_row_length ?g" if "l' \<in> set ?lines" for l'
      using max_row_length_ge[of "map tsv_cell (js_split [tab] l')" ?g] that by simp
    obtain m where m: "m \<in> set ?lines" "max_row_length ?g = length (js_split [tab] m)" using max_in by blast
    show ?thesis
    proof (intro iffI; elim bexE)
      fix l assume "l \<in> set ?lines" "length (js_split [tab] l) < max_row_length ?g"
      then show "\<exists>l \<in> set ?lines. \<exists>l' \<in> set ?lines. length (js_split [tab] l) < length (js_split [tab] l')"
        using m(1) unfolding m(2) by blast
    next
      fix l l' assume "l \<in> set ?lines" "l' \<in> set ?lines" "length (js_split [tab] l) < length (js_split [tab] l')"
      then show "\<exists>l \<in> set ?lines. length (js_split [tab] l) < max_row_length ?g"
        using le[of l'] by (intro bexI[of _ l]) auto
    qed
  qed
  finally show ?thesis .
qed

theorem ragged_paste_throws_witness:
  "pasteRangeIntoWorkbook plain_host (only_sheets [small_sheet]) 0 \<lparr>row = 0, col = 0\<rparr>
     (tsvToClipboardPayload (''a'' @ [tab] @ ''b'' @ [lf] @ ''c'')) PasteAll False = None"
proof -
  have n: "nth_opt (sheets (only_sheets [small_sheet])) 0 = Some small_sheet" by code_simp
  have "js_split [lf] (unix_newlines (''a'' @ [tab] @ ''b'' @ [lf] @ ''c'')) = [''a'' @ [tab] @ ''b'', ''c'']"
    "length (js_split [tab] ''c'') < length (js_split [tab] (''a'' @ [tab] @ ''b''))" by code_simp+
  then show ?thesis unfolding ragged_paste_throws[OF n] by auto
qed

section \<open>Drag-fill\<close>

lemma numeric_series_numbers:
  "map cvalue cells = map VNum vs \<Longrightarrow> numeric_series cells = vs"
proof (induction cells arbitrary: vs)
  case (Cons x cells)
  then obtain v vs' where "vs = v # vs'" by (cases vs) auto
  with Cons show ?case by (simp add: numeric_series_def)
qed (simp add: numeric_series_def)

lemma cellNumericStep_arith:
  assumes "2 \<le> n"
  shows "cellNumericStep (map (\<lambda>i. v0 + stp * of_nat i) [0..<n]) = Some stp"
proof -
  let ?vs = "map (\<lambda>i. v0 + stp * of_nat i) [0..<n] :: rat list"
  obtain a b rest where vs: "?vs = a # b # rest"
    using assms by (cases ?vs; cases "tl ?vs") (auto dest!: arg_cong[of _ _ length])
  have "a = ?vs ! 0" "b = ?vs ! 1" unfolding vs by simp_all
  then have ab: "b - a = stp" using assms by (simp add: algebra_simps)
  have "list_all (\<lambda>(x, y). y - x = stp) (zip ?vs (tl ?vs))"
    by (auto simp: list_all_length nth_tl algebra_simps)
  then show ?thesis unfolding vs cellNumericStep_def using ab by simp
qed

text \<open>Filling from a source of two or more numbers with a constant step: the cell at distance
  \<open>off\<close> from the start of the source, which would continue the series with v0 + step * off, gets
  v0 + step * (off + off mod n), because the code adds the position inside the source a second
  time. It continues the series only where off is a multiple of the source's length.\<close>

theorem fill_series_value:
  assumes "map cvalue cells = map (\<lambda>i. VNum (v0 + stp * of_nat i)) [0..<n]" "2 \<le> n" "0 \<le> off"
  shows "cvalue (fillValueForOffset h cells off (int n)) = VNum (v0 + stp * of_int (off + off mod int n)) \<and>
    (stp \<noteq> 0 \<longrightarrow> (cvalue (fillValueForOffset h cells off (int n)) = VNum (v0 + stp * of_int off) \<longleftrightarrow> off mod int n = 0))"
proof -
  have len: "length cells = n" using assms(1) by (metis length_map diff_zero length_upt)
  have series: "numeric_series cells = map (\<lambda>i. v0 + stp * of_nat i) [0..<n]"
    by (rule numeric_series_numbers) (simp add: assms(1) comp_def)
  have idx: "js_rem off (int n) = off mod int n" using assms(3) by (simp add: js_rem_def)
  have range: "0 \<le> off mod int n" "off mod int n < int n" using assms(2) by simp_all
  then have at: "nth_opt cells (off mod int n) = Some (cells ! nat (off mod int n))"
    using len by (simp add: nth_opt_def)
  have "cvalue (cells ! nat (off mod int n)) = map cvalue cells ! nat (off mod int n)"
    using len range by simp
  also have "\<dots> = VNum (v0 + stp * of_int (off mod int n))"
  proof -
    obtain m where m: "off mod int n = int m" "m < n" using range by (metis nonneg_int_cases of_nat_less_iff)
    show ?thesis unfolding assms(1) m(1) using m(2) by simp
  qed
  finally have base: "cvalue (or_else (nth_opt cells (off mod int n)) (last cells)) = VNum (v0 + stp * of_int (off mod int n))"
    by (simp add: at or_else_def)
  have whole: "off div int n * int n + off mod int n = off" by simp
  have v: "cvalue (fillValueForOffset h cells off (int n)) = VNum (v0 + stp * of_int (off mod int n) + stp * of_int off)"
    unfolding fillValueForOffset_def Let_def idx series cellNumericStep_arith[OF assms(2)] whole
    using len assms(2) base by (auto simp: algebra_simps)
  have "v0 + stp * of_int (off mod int n) + stp * of_int off = v0 + stp * of_int (off + off mod int n)"
    by (simp add: algebra_simps)
  with v show ?thesis by (auto simp: algebra_simps)
qed

theorem fill_series_value_witness:
  "cvalue (fillValueForOffset plain_host [number_cell 1, number_cell 2] 3 (int 2)) = VNum 5"
proof -
  have "map cvalue [number_cell 1, number_cell 2] = map (\<lambda>i. VNum (1 + 1 * of_nat i)) [0..<2]" by code_simp
  from fill_series_value[OF this, of 3 plain_host] show ?thesis by simp
qed

section \<open>Undo\<close>

definition history_ok :: "undo_stack \<Rightarrow> bool" where
  "history_ok st \<longleftrightarrow> 1 \<le> length (past st) \<and> length (past st) + length (future st) \<le> max_undo_depth"

lemma history_ok_push: "history_ok st \<Longrightarrow> history_ok (pushUndo st w)"
  by (auto simp: history_ok_def pushUndo_def Let_def max_undo_depth_def)

lemma history_ok_undo: "history_ok st \<Longrightarrow> history_ok (fst (undo st w))"
  by (auto simp: history_ok_def undo_def Let_def)

lemma history_ok_redo: "history_ok st \<Longrightarrow> history_ok (fst (redo st w))"
  by (auto simp: history_ok_def redo_def split: list.split)

lemma ed_stack_step:
  "ed_stack (edit_step recalc e ev) =
     (case ev of
        Commit m \<Rightarrow> pushUndo (ed_stack e) (ed_workbook e)
      | Undo \<Rightarrow> fst (undo (ed_stack e) (ed_workbook e))
      | Redo \<Rightarrow> fst (redo (ed_stack e) (ed_workbook e)))"
  by (cases ev) (auto simp: undo_def redo_def Let_def split: list.split)

interpretation history: machine "\<lambda>e ev. True" "edit_step recalc" "open_editor w" "\<lambda>e. history_ok (ed_stack e)"
  for recalc w
proof
  show "history_ok (ed_stack (open_editor w))"
    by (simp add: open_editor_def createUndoStack_def history_ok_def max_undo_depth_def)
  show "history_ok (ed_stack (edit_step recalc e ev))" if "history_ok (ed_stack e)" for e ev
    using that by (simp add: ed_stack_step history_ok_push history_ok_undo history_ok_redo split: edit_event.split)
qed

text \<open>The history stays bounded: after any sequence of edits, undos and redos the two stacks
  together hold at most 50 workbooks, and the stack of past ones is never empty.\<close>

theorem history_bounded:
  assumes "reach (\<lambda>e ev. True) (edit_step recalc) (open_editor w) e"
  shows "1 \<le> length (past (ed_stack e)) \<and> length (past (ed_stack e)) + length (future (ed_stack e)) \<le> 50"
  using history.reach_inv[OF assms] by (simp add: history_ok_def max_undo_depth_def)

theorem history_bounded_witness:
  "let e = edit_step id (edit_step id (open_editor (only_sheets [])) (Commit id)) Undo
   in 1 \<le> length (past (ed_stack e)) \<and> length (past (ed_stack e)) + length (future (ed_stack e)) \<le> 50"
proof -
  have "reach (\<lambda>e ev. True) (edit_step id) (open_editor (only_sheets []))
      (edit_step id (edit_step id (open_editor (only_sheets [])) (Commit id)) Undo)"
    by (intro reach_step reach_init) simp_all
  from history_bounded[OF this] show ?thesis by (simp add: Let_def)
qed

lemma fill_holes_idem [simp]: "fill_holes (fill_holes ds) = fill_holes ds"
  by (auto simp: fill_holes_def)

lemma clone_idem [simp]: "cloneWorkbook (cloneWorkbook w) = cloneWorkbook w"
  by (auto simp: cloneWorkbook_def clone_sheet_def option.map_comp comp_def)

lemma pushUndo_past: "\<exists>p. past (pushUndo st w) = p @ [cloneWorkbook w] \<and> length p \<le> length (past st)"
proof (cases "past st")
  case Nil
  then show ?thesis by (simp add: pushUndo_def max_undo_depth_def)
next
  case (Cons x xs)
  then show ?thesis
    by (cases "length (past st @ [cloneWorkbook w]) > max_undo_depth") (auto simp: pushUndo_def Let_def)
qed

lemma pushUndo_twice:
  "\<exists>p. past (pushUndo (pushUndo st v) w) = p @ [cloneWorkbook v, cloneWorkbook w]"
proof -
  obtain p where p: "past (pushUndo st v) = p @ [cloneWorkbook v]" using pushUndo_past by blast
  show ?thesis
  proof (cases "length (past (pushUndo st v) @ [cloneWorkbook w]) > max_undo_depth")
    case True
    with p have "p \<noteq> []" by (auto simp: max_undo_depth_def)
    with True p show ?thesis by (cases p) (auto simp: pushUndo_def[of "pushUndo st v"] Let_def)
  next
    case False
    with p show ?thesis by (auto simp: pushUndo_def[of "pushUndo st v"] Let_def)
  qed
qed

text \<open>C15. Undo goes back one edit too far: whatever the history, after two edits a single undo returns
  to the workbook before both, and the redo that follows returns to the one after both. The state
  between the two edits is not reachable.\<close>

theorem undo_skips_an_edit:
  "let e2 = edit_step recalc (edit_step recalc e (Commit f)) (Commit g); u = edit_step recalc e2 Undo
   in ed_workbook u = recalc (cloneWorkbook (ed_workbook e)) \<and>
      ed_workbook (edit_step recalc u Redo) = recalc (cloneWorkbook (ed_workbook e2))"
proof -
  let ?e1 = "edit_step recalc e (Commit f)"
  let ?e2 = "edit_step recalc ?e1 (Commit g)"
  obtain p where p: "past (ed_stack ?e2) = p @ [cloneWorkbook (ed_workbook e), cloneWorkbook (ed_workbook ?e1)]"
    using pushUndo_twice[of "ed_stack e" "ed_workbook e" "ed_workbook ?e1"] by auto
  then have u: "undo (ed_stack ?e2) (ed_workbook ?e2) =
      (\<lparr>past = p @ [cloneWorkbook (ed_workbook e)], future = cloneWorkbook (ed_workbook ?e2) # future (ed_stack ?e2)\<rparr>,
       Some (cloneWorkbook (ed_workbook e)))"
    by (simp add: undo_def Let_def butlast_append)
  then show ?thesis
    by (simp only: Let_def edit_step.simps(2)) (simp add: redo_def)
qed

end
