(* ===== verification/SheetCollab.thy ===== *)
theory SheetCollab
  imports SheetClipboard
begin

text \<open>
  Remote edits of a shared workbook: \<^verbatim>\<open>collab-ops.ts\<close>, the style patches of \<^verbatim>\<open>cell-styles.ts\<close> and
  \<open>applyFormulaBarEdit\<close> of \<^verbatim>\<open>parse.ts\<close> (all in \<^verbatim>\<open>frontend/src/lib/spreadsheet\<close>).

  The formula engine \<open>recalculateWorkbook\<close> is the argument \<open>recalc\<close>, and the id and the time stamp of
  a change entry the argument \<open>stamp\<close>. Positions in a payload are integers.
\<close>

section \<open>Style patches (cell-styles.ts)\<close>

text \<open>A patch is the list of its keys, each with its value; \<open>None\<close> is \<open>undefined\<close>, which removes the key.\<close>

datatype style_entry =
    PBold "bool option"
  | PItalic "bool option"
  | PUnderline "bool option"
  | PDoubleUnderline "bool option"
  | PStrikethrough "bool option"
  | PHorizontalAlign "h_align option"
  | PVerticalAlign "v_align option"
  | PNumberFormat "number_format option"
  | PCustomNumberFormat "string option"
  | PBackgroundColor "string option"
  | PTextColor "string option"
  | PFontFamily "string option"
  | PFontSize "rat option"
  | PWrapText "bool option"
  | PBorderTop "bool option"
  | PBorderRight "bool option"
  | PBorderBottom "bool option"
  | PBorderLeft "bool option"
  | PBorderColor "string option"
  | PBorderStyle "border_line_style option"
  | PBorderTopStyle "border_line_style option"
  | PBorderRightStyle "border_line_style option"
  | PBorderBottomStyle "border_line_style option"
  | PBorderLeftStyle "border_line_style option"
  | PBorderTopColor "string option"
  | PBorderRightColor "string option"
  | PBorderBottomColor "string option"
  | PBorderLeftColor "string option"
  | PIsHeaderRow "bool option"
  | PIsTotalRow "bool option"

fun patch_field :: "style_entry \<Rightarrow> cell_style \<Rightarrow> cell_style" where
  "patch_field (PBold v) st = st\<lparr>bold := v\<rparr>"
| "patch_field (PItalic v) st = st\<lparr>italic := v\<rparr>"
| "patch_field (PUnderline v) st = st\<lparr>underline := v\<rparr>"
| "patch_field (PDoubleUnderline v) st = st\<lparr>doubleUnderline := v\<rparr>"
| "patch_field (PStrikethrough v) st = st\<lparr>strikethrough := v\<rparr>"
| "patch_field (PHorizontalAlign v) st = st\<lparr>horizontalAlign := v\<rparr>"
| "patch_field (PVerticalAlign v) st = st\<lparr>verticalAlign := v\<rparr>"
| "patch_field (PNumberFormat v) st = st\<lparr>numberFormat := v\<rparr>"
| "patch_field (PCustomNumberFormat v) st = st\<lparr>customNumberFormat := v\<rparr>"
| "patch_field (PBackgroundColor v) st = st\<lparr>backgroundColor := v\<rparr>"
| "patch_field (PTextColor v) st = st\<lparr>textColor := v\<rparr>"
| "patch_field (PFontFamily v) st = st\<lparr>fontFamily := v\<rparr>"
| "patch_field (PFontSize v) st = st\<lparr>fontSize := v\<rparr>"
| "patch_field (PWrapText v) st = st\<lparr>wrapText := v\<rparr>"
| "patch_field (PBorderTop v) st = st\<lparr>borderTop := v\<rparr>"
| "patch_field (PBorderRight v) st = st\<lparr>borderRight := v\<rparr>"
| "patch_field (PBorderBottom v) st = st\<lparr>borderBottom := v\<rparr>"
| "patch_field (PBorderLeft v) st = st\<lparr>borderLeft := v\<rparr>"
| "patch_field (PBorderColor v) st = st\<lparr>borderColor := v\<rparr>"
| "patch_field (PBorderStyle v) st = st\<lparr>borderStyle := v\<rparr>"
| "patch_field (PBorderTopStyle v) st = st\<lparr>borderTopStyle := v\<rparr>"
| "patch_field (PBorderRightStyle v) st = st\<lparr>borderRightStyle := v\<rparr>"
| "patch_field (PBorderBottomStyle v) st = st\<lparr>borderBottomStyle := v\<rparr>"
| "patch_field (PBorderLeftStyle v) st = st\<lparr>borderLeftStyle := v\<rparr>"
| "patch_field (PBorderTopColor v) st = st\<lparr>borderTopColor := v\<rparr>"
| "patch_field (PBorderRightColor v) st = st\<lparr>borderRightColor := v\<rparr>"
| "patch_field (PBorderBottomColor v) st = st\<lparr>borderBottomColor := v\<rparr>"
| "patch_field (PBorderLeftColor v) st = st\<lparr>borderLeftColor := v\<rparr>"
| "patch_field (PIsHeaderRow v) st = st\<lparr>isHeaderRow := v\<rparr>"
| "patch_field (PIsTotalRow v) st = st\<lparr>isTotalRow := v\<rparr>"

definition applyCellStylePatch :: "cell_style option \<Rightarrow> style_entry list \<Rightarrow> cell_style" where
  "applyCellStylePatch base patch = fold patch_field patch (or_else base no_style)"

definition applyStylePatchToCell :: "host \<Rightarrow> sheet_cell \<Rightarrow> style_entry list \<Rightarrow> sheet_cell" where
  "applyStylePatchToCell h x patch =
     (let st = applyCellStylePatch (style x) patch
      in if opt_text (formula x) \<noteq> [] then x\<lparr>style := Some st\<rparr>
         else x\<lparr>style := Some st, display := formatCellDisplay h (cvalue x) (numberFormat st) (customNumberFormat st)\<rparr>)"

definition clearCellStylePatch :: "style_entry list" where
  "clearCellStylePatch = [PBold None, PItalic None, PUnderline None, PDoubleUnderline None, PStrikethrough None, PHorizontalAlign None, PVerticalAlign None, PNumberFormat None, PCustomNumberFormat None, PBackgroundColor None, PTextColor None, PFontFamily None, PFontSize None, PWrapText None, PBorderTop None, PBorderRight None, PBorderBottom None, PBorderLeft None, PBorderColor None, PBorderStyle None, PBorderTopStyle None, PBorderRightStyle None, PBorderBottomStyle None, PBorderLeftStyle None, PBorderTopColor None, PBorderRightColor None, PBorderBottomColor None, PBorderLeftColor None, PIsHeaderRow None, PIsTotalRow None]"

definition replaceCellStyleOnCell :: "host \<Rightarrow> sheet_cell \<Rightarrow> style_entry list \<Rightarrow> sheet_cell" where
  "replaceCellStyleOnCell h x patch =
     (let cleared = applyStylePatchToCell h x clearCellStylePatch
      in if patch = [] then cleared\<lparr>style := None\<rparr> else applyStylePatchToCell h cleared patch)"

section \<open>Editing a cell (parse.ts)\<close>

definition entered :: "host \<Rightarrow> string \<Rightarrow> sheet_cell \<Rightarrow> sheet_cell" where
  "entered h input x =
     (let trimmed = js_trim input
      in if js_starts_with ''='' trimmed
         then x\<lparr>formula := Some trimmed, cvalue := VStr trimmed, display := trimmed, spillFrom := None\<rparr>
         else let v = parse_entry trimmed
              in x\<lparr>formula := None, cvalue := v,
                   display := formatCellDisplay h v (numberFormat (style_of x)) (customNumberFormat (style_of x)),
                   spillFrom := None\<rparr>)"

definition before_text :: "sheet_cell option \<Rightarrow> string" where
  "before_text x =
     (case x of
        None \<Rightarrow> []
      | Some c \<Rightarrow>
          (case formula c of
             Some f \<Rightarrow> f
           | None \<Rightarrow> if cvalue c = VNull then [] else js_string (cvalue c)))"

definition applyFormulaBarEdit ::
    "host \<Rightarrow> (workbook \<Rightarrow> workbook) \<Rightarrow> string \<times> string \<Rightarrow> workbook \<Rightarrow> int \<Rightarrow> int \<Rightarrow> int \<Rightarrow> string \<Rightarrow> workbook" where
  "applyFormulaBarEdit h recalc stamp w k r c input =
     (let target = nth_opt (sheets w) k;
          before = before_text (case target of Some s \<Rightarrow> grid_at (rows s) r c | None \<Rightarrow> None);
          nxt = recalc (w\<lparr>sheets := on_sheet k (\<lambda>s.
            let expanded = expandSheetToAddress s r c
            in expanded\<lparr>rows := at_cell r c (entered h input) (rows expanded)\<rparr>) (sheets w)\<rparr>);
          after = js_trim input
      in if trackChangesEnabled w = Some True \<and> before \<noteq> after
         then appendTrackChange nxt
           \<lparr>tc_id = fst stamp, tc_timestamp = snd stamp, tc_author = ''You'',
            tc_sheetName = (case target of Some s \<Rightarrow> name s | None \<Rightarrow> ''Sheet''),
            tc_cell = columnIndexToLetters c @ show_int (r + 1), tc_before = before, tc_after = after\<rparr>
         else nxt)"

section \<open>Remote operations (collab-ops.ts)\<close>

datatype sheet_json = SNull | SBool bool | SNum int | SStr string | SPatch "style_entry list" | SObject

type_synonym sheet_payload = "(string \<times> sheet_json) list"

record sheet_op =
  so_type :: string
  so_user :: string
  so_seq :: int
  so_payload :: sheet_payload

definition sheetIndexByName :: "workbook \<Rightarrow> string \<Rightarrow> nat option" where
  "sheetIndexByName w n = find_index (\<lambda>s. js_lower (name s) = js_lower n) (sheets w)"

definition asString :: "sheet_json option \<Rightarrow> string option" where
  "asString v = (case v of Some (SStr s) \<Rightarrow> Some s | _ \<Rightarrow> None)"

definition asNumber :: "sheet_json option \<Rightarrow> int option" where
  "asNumber v = (case v of Some (SNum n) \<Rightarrow> Some n | _ \<Rightarrow> None)"

definition asRange :: "sheet_payload \<Rightarrow> region option" where
  "asRange p =
     (case (asNumber (map_of p ''startRow''), asNumber (map_of p ''startCol'')) of
        (Some sr, Some sc) \<Rightarrow>
          Some \<lparr>startRow = sr, startCol = sc, endRow = or_else (asNumber (map_of p ''endRow'')) sr,
                endCol = or_else (asNumber (map_of p ''endCol'')) sc\<rparr>
      | _ \<Rightarrow> None)"

definition range_of :: "region \<Rightarrow> cell_range" where
  "range_of b = \<lparr>rstart = \<lparr>row = startRow b, col = startCol b\<rparr>, rend = \<lparr>row = endRow b, col = endCol b\<rparr>\<rparr>"

definition edit_text :: "sheet_json option \<Rightarrow> string" where
  "edit_text v =
     (case v of
        Some (SStr s) \<Rightarrow> s
      | None \<Rightarrow> []
      | Some SNull \<Rightarrow> []
      | Some (SBool b) \<Rightarrow> if b then ''true'' else ''false''
      | Some (SNum n) \<Rightarrow> show_int n
      | Some (SPatch p) \<Rightarrow> ''[object Object]''
      | Some SObject \<Rightarrow> ''[object Object]'')"

text \<open>The prologue the sheet-addressed cases share: a non-empty sheet name that names a sheet.\<close>

definition target_sheet :: "workbook \<Rightarrow> sheet_payload \<Rightarrow> int option" where
  "target_sheet w p =
     (case asString (map_of p ''sheet'') of
        Some (c # cs) \<Rightarrow> map_option int (sheetIndexByName w (c # cs))
      | _ \<Rightarrow> None)"

definition target_cell :: "sheet_payload \<Rightarrow> cell_address option" where
  "target_cell p =
     (case asString (map_of p ''cell'') of
        Some (c # cs) \<Rightarrow> parseCellAddressLabel (drop_dollars (c # cs))
      | _ \<Rightarrow> None)"

definition patch_sheet :: "host \<Rightarrow> region \<Rightarrow> style_entry list \<Rightarrow> sheet \<Rightarrow> sheet" where
  "patch_sheet h b patch s = s\<lparr>rows := map_cells (\<lambda>r c x.
     if r < startRow b \<or> r > endRow b \<or> c < startCol b \<or> c > endCol b then x
     else applyStylePatchToCell h x patch) (rows s)\<rparr>"

definition applyStylePatchOp :: "host \<Rightarrow> workbook \<Rightarrow> int \<Rightarrow> region \<Rightarrow> style_entry list \<Rightarrow> workbook" where
  "applyStylePatchOp h w k b patch = w\<lparr>sheets := on_sheet k (patch_sheet h b patch) (sheets w)\<rparr>"

definition apply_op ::
    "host \<Rightarrow> (workbook \<Rightarrow> workbook) \<Rightarrow> string \<times> string \<Rightarrow> workbook \<Rightarrow> string \<Rightarrow> sheet_payload \<Rightarrow> workbook" where
  "apply_op h recalc stamp w t p =
     (let k = target_sheet w p; a = target_cell p; rng = map_option range_of (asRange p);
          pos = asNumber (map_of p ''at'')
      in if t = ''cell_edit'' then
           (case (k, a) of (Some k, Some a) \<Rightarrow>
              applyFormulaBarEdit h recalc stamp w k (row a) (col a) (edit_text (map_of p ''value'')) | _ \<Rightarrow> w)
         else if t = ''style_patch'' then
           (case (k, asRange p, map_of p ''patch'') of
              (Some k, Some b, Some (SPatch patch)) \<Rightarrow> applyStylePatchOp h w k b patch
            | (Some k, Some b, Some SObject) \<Rightarrow> applyStylePatchOp h w k b [] | _ \<Rightarrow> w)
         else if t = ''clear_contents'' then
           (case (k, rng) of (Some k, Some g) \<Rightarrow> clearContentsInRange w k g (Some True) (Some True) | _ \<Rightarrow> w)
         else if t = ''comment'' then
           (case (k, a) of (Some k, Some a) \<Rightarrow> setCellComment w k (row a) (col a) (asString (map_of p ''comment'')) | _ \<Rightarrow> w)
         else if t = ''hyperlink'' then
           (case (k, a) of (Some k, Some a) \<Rightarrow> setCellHyperlink w k (row a) (col a) (asString (map_of p ''url'')) | _ \<Rightarrow> w)
         else if t = ''merge'' then (case (k, rng) of (Some k, Some g) \<Rightarrow> mergeCellsInRange w k g | _ \<Rightarrow> w)
         else if t = ''unmerge'' then (case (k, rng) of (Some k, Some g) \<Rightarrow> unmergeCellsInRange w k g | _ \<Rightarrow> w)
         else if t = ''insert_row'' then (case (k, pos) of (Some k, Some n) \<Rightarrow> insertRow w k n | _ \<Rightarrow> w)
         else if t = ''delete_row'' then (case (k, pos) of (Some k, Some n) \<Rightarrow> deleteRow w k n | _ \<Rightarrow> w)
         else if t = ''insert_column'' then (case (k, pos) of (Some k, Some n) \<Rightarrow> insertColumn w k n | _ \<Rightarrow> w)
         else if t = ''delete_column'' then (case (k, pos) of (Some k, Some n) \<Rightarrow> deleteColumn w k n | _ \<Rightarrow> w)
         else if t = ''sheet_add'' then addSheet w (asString (map_of p ''name''))
         else if t = ''sheet_remove'' then
           (case asNumber (map_of p ''index'') of Some i \<Rightarrow> removeSheet w i | None \<Rightarrow> w)
         else if t = ''sheet_rename'' then
           (case (asNumber (map_of p ''index''), asString (map_of p ''name'')) of
              (Some i, Some n) \<Rightarrow> if n = [] then w else renameSheet w i n | _ \<Rightarrow> w)
         else if t = ''sheet_move'' then
           (case (asNumber (map_of p ''fromIndex''), asNumber (map_of p ''toIndex'')) of
              (Some i, Some j) \<Rightarrow> moveSheet w i j | _ \<Rightarrow> w)
         else w)"

definition applyCollabOpToWorkbook ::
    "host \<Rightarrow> (workbook \<Rightarrow> workbook) \<Rightarrow> string \<times> string \<Rightarrow> workbook \<Rightarrow> sheet_op \<Rightarrow> string option \<Rightarrow> workbook" where
  "applyCollabOpToWorkbook h recalc stamp w op skipUserId =
     (if opt_text skipUserId \<noteq> [] \<and> so_user op = opt_text skipUserId then w
      else apply_op h recalc stamp w (so_type op) (so_payload op))"

definition applyCollabOpsToWorkbook ::
    "host \<Rightarrow> (workbook \<Rightarrow> workbook) \<Rightarrow> (sheet_op \<Rightarrow> string \<times> string) \<Rightarrow> workbook \<Rightarrow> sheet_op list \<Rightarrow> string option \<Rightarrow> workbook" where
  "applyCollabOpsToWorkbook h recalc stamp w ops skipUserId =
     foldl (\<lambda>v op. applyCollabOpToWorkbook h recalc (stamp op) v op skipUserId) w
       (js_sort (\<lambda>a b. so_seq a - so_seq b) ops)"

definition parseCellEditPayload :: "sheet_payload \<Rightarrow> (string \<times> string \<times> string) option" where
  "parseCellEditPayload p =
     (case (asString (map_of p ''sheet''), asString (map_of p ''cell'')) of
        (Some (s # ss), Some (c # cs)) \<Rightarrow> Some (s # ss, c # cs, edit_text (map_of p ''value''))
      | _ \<Rightarrow> None)"

section \<open>Properties\<close>

interpretation style_patch: sheet_edit "\<lambda>(h, b, patch) w k. applyStylePatchOp h w k b patch"
  by unfold_locales (auto simp: applyStylePatchOp_def patch_sheet_def)

text \<open>The cases of the dispatch, one equation each.\<close>

lemma apply_op_cases:
  "apply_op h recalc stamp w ''clear_contents'' p =
     (case (target_sheet w p, map_option range_of (asRange p)) of (Some k, Some g) \<Rightarrow> clearContentsInRange w k g (Some True) (Some True) | _ \<Rightarrow> w)"
  "apply_op h recalc stamp w ''comment'' p =
     (case (target_sheet w p, target_cell p) of (Some k, Some a) \<Rightarrow> setCellComment w k (row a) (col a) (asString (map_of p ''comment'')) | _ \<Rightarrow> w)"
  "apply_op h recalc stamp w ''hyperlink'' p =
     (case (target_sheet w p, target_cell p) of (Some k, Some a) \<Rightarrow> setCellHyperlink w k (row a) (col a) (asString (map_of p ''url'')) | _ \<Rightarrow> w)"
  "apply_op h recalc stamp w ''merge'' p =
     (case (target_sheet w p, map_option range_of (asRange p)) of (Some k, Some g) \<Rightarrow> mergeCellsInRange w k g | _ \<Rightarrow> w)"
  "apply_op h recalc stamp w ''unmerge'' p =
     (case (target_sheet w p, map_option range_of (asRange p)) of (Some k, Some g) \<Rightarrow> unmergeCellsInRange w k g | _ \<Rightarrow> w)"
  "apply_op h recalc stamp w ''insert_row'' p =
     (case (target_sheet w p, asNumber (map_of p ''at'')) of (Some k, Some n) \<Rightarrow> insertRow w k n | _ \<Rightarrow> w)"
  "apply_op h recalc stamp w ''delete_row'' p =
     (case (target_sheet w p, asNumber (map_of p ''at'')) of (Some k, Some n) \<Rightarrow> deleteRow w k n | _ \<Rightarrow> w)"
  "apply_op h recalc stamp w ''insert_column'' p =
     (case (target_sheet w p, asNumber (map_of p ''at'')) of (Some k, Some n) \<Rightarrow> insertColumn w k n | _ \<Rightarrow> w)"
  "apply_op h recalc stamp w ''delete_column'' p =
     (case (target_sheet w p, asNumber (map_of p ''at'')) of (Some k, Some n) \<Rightarrow> deleteColumn w k n | _ \<Rightarrow> w)"
  "apply_op h recalc stamp w ''style_patch'' p =
     (case (target_sheet w p, asRange p, map_of p ''patch'') of (Some k, Some b, Some (SPatch patch)) \<Rightarrow> applyStylePatchOp h w k b patch
       | (Some k, Some b, Some SObject) \<Rightarrow> applyStylePatchOp h w k b [] | _ \<Rightarrow> w)"
  by (simp_all only: apply_op_def Let_def list.inject char.inject list.distinct simp_thms if_True if_False)

definition sheet_addressed :: "string list" where
  "sheet_addressed = [''style_patch'', ''clear_contents'', ''comment'', ''hyperlink'', ''merge'', ''unmerge'',
     ''insert_row'', ''delete_row'', ''insert_column'', ''delete_column'']"

definition only_changes :: "int \<Rightarrow> workbook \<Rightarrow> workbook \<Rightarrow> bool" where
  "only_changes k w w' \<longleftrightarrow> (\<forall>i. i \<noteq> k \<longrightarrow> nth_opt (sheets w') i = nth_opt (sheets w) i) \<and>
     map name (sheets w') = map name (sheets w)"

lemma only_changes_refl [intro]: "only_changes k w w"
  by (simp add: only_changes_def)

lemma only_changes_ops [intro]:
  "only_changes k w (applyStylePatchOp h w k b patch)"
  "only_changes k w (clearContentsInRange w k rng st cm)"
  "only_changes k w (setCellComment w k r c t)"
  "only_changes k w (setCellHyperlink w k r c t)"
  "only_changes k w (mergeCellsInRange w k rng)"
  "only_changes k w (unmergeCellsInRange w k rng)"
  "only_changes k w (insertRow w k n)"
  "only_changes k w (deleteRow w k n)"
  "only_changes k w (insertColumn w k n)"
  "only_changes k w (deleteColumn w k n)"
  using style_patch.others_unchanged[of _ k "(h, b, patch)" w] style_patch.same_names[of "(h, b, patch)" w k]
    clear_contents.others_unchanged[of _ k "(rng, st, cm)" w] clear_contents.same_names[of "(rng, st, cm)" w k]
    set_comment.others_unchanged[of _ k "(r, c, t)" w] set_comment.same_names[of "(r, c, t)" w k]
    set_link.others_unchanged[of _ k "(r, c, t)" w] set_link.same_names[of "(r, c, t)" w k]
    merge_cells.others_unchanged[of _ k w rng] merge_cells.same_names[of w k rng]
    unmerge_cells.others_unchanged[of _ k w rng] unmerge_cells.same_names[of w k rng]
    insert_row.others_unchanged[of _ k w n] insert_row.same_names[of w k n]
    delete_row.others_unchanged[of _ k w n] delete_row.same_names[of w k n]
    insert_column.others_unchanged[of _ k w n] insert_column.same_names[of w k n]
    delete_column.others_unchanged[of _ k w n] delete_column.same_names[of w k n]
  by (simp_all add: only_changes_def)

lemma only_changes_option:
  "(\<And>v. only_changes k w (f v)) \<Longrightarrow> only_changes k w (case x of None \<Rightarrow> w | Some v \<Rightarrow> f v)"
  by (cases x) (simp_all add: only_changes_refl)

lemma only_changes_patch:
  "(\<And>patch. only_changes k w (f patch)) \<Longrightarrow> only_changes k w e \<Longrightarrow>
   only_changes k w (case v of SNull \<Rightarrow> w | SBool b \<Rightarrow> w | SNum n \<Rightarrow> w | SStr s \<Rightarrow> w | SPatch patch \<Rightarrow> f patch | SObject \<Rightarrow> e)"
  by (cases v) (simp_all add: only_changes_refl)

lemma only_changes_on_sheet:
  "(\<And>s. name (f s) = name s) \<Longrightarrow> only_changes k w (w\<lparr>sheets := on_sheet k f (sheets w)\<rparr>)"
  by (auto simp: only_changes_def nth_opt_on_sheet map_on_sheet)

lemma cell_edit_one_sheet:
  "apply_op h recalc stamp w ''cell_edit'' p = w \<or>
   (\<exists>k w'. target_sheet w p = Some k \<and> only_changes k w w' \<and> sheets (apply_op h recalc stamp w ''cell_edit'' p) = sheets (recalc w'))"
proof (cases "target_sheet w p")
  case None
  then show ?thesis by (simp add: apply_op_def)
next
  case (Some k)
  show ?thesis
  proof (cases "target_cell p")
    case None
    with Some show ?thesis by (simp add: apply_op_def)
  next
    case a: (Some a)
    let ?w = "w\<lparr>sheets := on_sheet k (\<lambda>s. let expanded = expandSheetToAddress s (row a) (col a)
      in expanded\<lparr>rows := at_cell (row a) (col a) (entered h (edit_text (map_of p ''value''))) (rows expanded)\<rparr>) (sheets w)\<rparr>"
    have "only_changes k w ?w" by (rule only_changes_on_sheet) (simp add: expandSheetToAddress_def padSheetToSize_def Let_def)
    moreover have "sheets (apply_op h recalc stamp w ''cell_edit'' p) = sheets (recalc ?w)"
      by (simp add: apply_op_def Some a applyFormulaBarEdit_def appendTrackChange_def Let_def)
    ultimately show ?thesis using Some by blast
  qed
qed

text \<open>C11. A remote operation that is addressed to a sheet by name (an edit of a cell, formatting, clearing, comments,
  links, merges, rows and columns) changes at most that sheet: every other sheet stays exactly as it was,
  and the names and the order of the sheets do not change, whatever the payload holds. Only after the edit
  of a cell is the workbook recalculated, which can change the results of formulas elsewhere.\<close>

theorem remote_op_one_sheet:
  assumes "target_sheet w (so_payload op) = Some k" "so_type op \<in> set (''cell_edit'' # sheet_addressed)"
  shows "\<exists>w'. only_changes k w w' \<and> (applyCollabOpToWorkbook h recalc stamp w op skipUserId = w' \<or>
    so_type op = ''cell_edit'' \<and> sheets (applyCollabOpToWorkbook h recalc stamp w op skipUserId) = sheets (recalc w'))"
proof -
  have "only_changes k w (apply_op h recalc stamp w t p)"
    if "target_sheet w p = Some k" "t \<in> set sheet_addressed" for t p
  proof -
    have "t = ''style_patch'' \<or> t = ''clear_contents'' \<or> t = ''comment'' \<or> t = ''hyperlink'' \<or> t = ''merge'' \<or>
        t = ''unmerge'' \<or> t = ''insert_row'' \<or> t = ''delete_row'' \<or> t = ''insert_column'' \<or> t = ''delete_column''"
      using that(2) by (simp only: sheet_addressed_def list.set insert_iff empty_iff simp_thms)
    then consider "t = ''style_patch''" | "t = ''clear_contents''" | "t = ''comment''" | "t = ''hyperlink''"
      | "t = ''merge''" | "t = ''unmerge''" | "t = ''insert_row''" | "t = ''delete_row''" | "t = ''insert_column''"
      | "t = ''delete_column''" by (elim disjE)
    then show ?thesis
      by cases (simp only: apply_op_cases that(1) prod.case option.case,
        (rule only_changes_option only_changes_patch only_changes_refl only_changes_ops)+)+
  qed
  then have "only_changes k w (applyCollabOpToWorkbook h recalc stamp w op skipUserId)" if "so_type op \<noteq> ''cell_edit''"
    using assms that by (auto simp: applyCollabOpToWorkbook_def)
  moreover have "\<exists>w'. only_changes k w w' \<and> (applyCollabOpToWorkbook h recalc stamp w op skipUserId = w' \<or>
      sheets (applyCollabOpToWorkbook h recalc stamp w op skipUserId) = sheets (recalc w'))" if "so_type op = ''cell_edit''"
    using cell_edit_one_sheet[of h recalc stamp w "so_payload op"] assms(1) that only_changes_refl
    by (auto simp: applyCollabOpToWorkbook_def)
  ultimately show ?thesis by blast
qed

definition remote :: "int \<Rightarrow> string \<Rightarrow> sheet_payload \<Rightarrow> sheet_op" where
  "remote n t p = \<lparr>so_type = t, so_user = ''u1'', so_seq = n, so_payload = p\<rparr>"

definition two_sheets :: workbook where
  "two_sheets = only_sheets [small_sheet, new_sheet ''N'' [[text_cell ''x''], [text_cell ''y''], [text_cell ''z'']]]"

theorem remote_op_one_sheet_witness:
  "only_changes 1 two_sheets (applyCollabOpToWorkbook plain_host id (''tc-1'', ''noon'') two_sheets
     (remote 1 ''delete_row'' [(''sheet'', SStr ''n''), (''at'', SNum 2)]) (Some ''me''))"
proof -
  have "target_sheet two_sheets (so_payload (remote 1 ''delete_row'' [(''sheet'', SStr ''n''), (''at'', SNum 2)])) = Some 1"
    "so_type (remote 1 ''delete_row'' [(''sheet'', SStr ''n''), (''at'', SNum 2)]) \<in> set (''cell_edit'' # sheet_addressed)"
    "so_type (remote 1 ''delete_row'' [(''sheet'', SStr ''n''), (''at'', SNum 2)]) \<noteq> ''cell_edit''" by code_simp+
  with remote_op_one_sheet[OF this(1,2), of plain_host id "(''tc-1'', ''noon'')" "Some ''me''"] show ?thesis by blast
qed

lemma sorted_distinct_seq_unique:
  fixes f :: "'a \<Rightarrow> int"
  assumes "mset xs = mset ys" "distinct (map f xs)" "sorted_wrt (\<lambda>a b. f a \<le> f b) xs" "sorted_wrt (\<lambda>a b. f a \<le> f b) ys"
  shows "xs = ys"
proof -
  have s: "sorted (map f xs)" "sorted (map f ys)" using assms(3,4) by (simp_all add: sorted_wrt_map)
  have "mset (map f xs) = mset (map f ys)" using assms(1) by simp
  then have m: "map f xs = map f ys" using s by (metis properties_for_sort sorted_sort_id)
  have "set xs = set ys" using assms(1) by (metis set_mset_mset)
  moreover have "inj_on f (set xs)" using assms(2) by (simp add: distinct_map)
  ultimately show ?thesis using m by (metis inj_on_map_eq_map sup.idem)
qed

lemma sorted_by_seq: "sorted_wrt (\<lambda>a b. so_seq a \<le> so_seq b) (js_sort (\<lambda>a b. so_seq a - so_seq b) ops)"
  by (rule sorted_js_sort) auto

text \<open>Replicas converge: a batch of operations with distinct sequence numbers has one result, however
  the operations were ordered when they arrived.\<close>

theorem batch_order_irrelevant:
  assumes "mset ops = mset ops'" "distinct (map so_seq ops)"
  shows "applyCollabOpsToWorkbook h recalc stamp w ops u = applyCollabOpsToWorkbook h recalc stamp w ops' u"
proof -
  let ?cmp = "\<lambda>a b. so_seq a - so_seq b"
  have "distinct (map so_seq (js_sort ?cmp ops))"
  proof -
    have "mset (map so_seq (js_sort ?cmp ops)) = mset (map so_seq ops)" by simp
    then show ?thesis using assms(2) by (metis mset_eq_imp_distinct_iff)
  qed
  then have "js_sort ?cmp ops = js_sort ?cmp ops'"
    using assms(1) by (intro sorted_distinct_seq_unique[of _ _ so_seq]) (auto simp: sorted_by_seq)
  then show ?thesis by (simp add: applyCollabOpsToWorkbook_def)
qed

theorem batch_order_irrelevant_witness:
  "applyCollabOpsToWorkbook plain_host id (\<lambda>op. (''tc-1'', ''noon'')) two_sheets
     [remote 2 ''sheet_rename'' [(''index'', SNum 0), (''name'', SStr ''X'')], remote 1 ''sheet_remove'' [(''index'', SNum 0)]] None =
   applyCollabOpsToWorkbook plain_host id (\<lambda>op. (''tc-1'', ''noon'')) two_sheets
     [remote 1 ''sheet_remove'' [(''index'', SNum 0)], remote 2 ''sheet_rename'' [(''index'', SNum 0), (''name'', SStr ''X'')]] None"
  by (rule batch_order_irrelevant) (simp_all add: remote_def)

end
