(* ===== verification/SheetSpill.thy ===== *)
theory SheetSpill
  imports SheetProps "HOL-Library.Sublist"
begin

text \<open>
  Dynamic arrays: \<^verbatim>\<open>frontend/src/lib/spreadsheet/formula-dynamic-arrays.ts\<close> and the part of
  \<^verbatim>\<open>formulas.ts\<close> that writes an array into the cells next to its formula.

  A value of a formula is an \<open>fval\<close>; \<open>FNan\<close> and \<open>FInf\<close> (\<open>True\<close> for the negative one) are the
  numbers NaN and the infinities, which a cell holds as their texts. A dimension of an array is \<open>None\<close> where the code computes NaN.
\<close>

section \<open>Values\<close>

datatype fval = FNull | FBool bool | FNum rat | FNan | FInf bool | FStr string

record eval_array =
  ea_values :: "fval list"
  spillRows :: "int option"
  spillCols :: "int option"

datatype fresult = Scalar fval | Arr eval_array

text \<open>\<open>String(v)\<close>, \<open>String(v ?? "")\<close>, and the same in lower case.\<close>

definition val_string :: "fval \<Rightarrow> string" where
  "val_string v = (case v of FNull \<Rightarrow> ''null'' | FBool b \<Rightarrow> (if b then ''true'' else ''false'')
     | FNum n \<Rightarrow> show_num n | FNan \<Rightarrow> ''NaN'' | FInf neg \<Rightarrow> (if neg then ''-Infinity'' else ''Infinity'')
     | FStr s \<Rightarrow> s)"

definition val_text :: "fval \<Rightarrow> string" where
  "val_text v = (if v = FNull then [] else val_string v)"

definition val_lower :: "fval \<Rightarrow> string" where
  "val_lower v = js_lower (val_text v)"

text \<open>\<open>a ?? b\<close> where \<open>a\<close> is an array element.\<close>

definition elem_or :: "fval \<Rightarrow> fval option \<Rightarrow> fval" where
  "elem_or d v = (case v of None \<Rightarrow> d | Some x \<Rightarrow> if x = FNull then d else x)"

definition sort_number :: "fval \<Rightarrow> rat option" where
  "sort_number v = js_number (strip_money (val_text v))"

definition flattenToNumbers :: "fval list \<Rightarrow> rat list" where
  "flattenToNumbers vs = List.map_filter (\<lambda>v. case v of
       FNum n \<Rightarrow> Some n | FBool b \<Rightarrow> Some (if b then 1 else 0) | _ \<Rightarrow> sort_number v) vs"

definition isTruthyFlag :: "fval \<Rightarrow> bool" where
  "isTruthyFlag v \<longleftrightarrow> v = FBool True \<or> v = FNum 1 \<or> val_lower v = ''true'' \<or>
     (case v of FNum n \<Rightarrow> n \<noteq> 0 | FNan \<Rightarrow> True | FInf _ \<Rightarrow> True | _ \<Rightarrow> False)"

definition compareValues :: "host \<Rightarrow> rat option \<Rightarrow> fval \<Rightarrow> fval \<Rightarrow> int" where
  "compareValues h order a b =
     (let c = (case (sort_number a, sort_number b) of
          (Some x, Some y) \<Rightarrow> (if x < y then -1 else if x = y then 0 else 1)
        | _ \<Rightarrow> h_baseCompare h (val_text a) (val_text b))
      in case order of Some r \<Rightarrow> if r < 0 then - c else c | None \<Rightarrow> c)"

section \<open>The array functions\<close>

definition row_count :: "'a list \<Rightarrow> int \<Rightarrow> int" where
  "row_count xs n = (int (length xs) + n - 1) div n"

definition array_row :: "fval list \<Rightarrow> int \<Rightarrow> int \<Rightarrow> fval list" where
  "array_row xs n r = map (\<lambda>c. elem_or FNull (nth_opt xs (r * n + c))) [0..n - 1]"

definition array_rows :: "fval list \<Rightarrow> int \<Rightarrow> fval list list" where
  "array_rows xs n = map (array_row xs n) [0..row_count xs n - 1]"

definition evalFilter :: "fval list \<Rightarrow> fval list \<Rightarrow> int \<Rightarrow> eval_array" where
  "evalFilter arr flags k =
     (let n = max 1 k;
          keep = (\<lambda>r. isTruthyFlag (elem_or (elem_or FNull (nth_opt flags (r * n))) (nth_opt flags r)));
          vs = concat (map (array_row arr n) (filter keep [0..row_count arr n - 1]))
      in \<lparr>ea_values = vs, spillRows = Some (int (length vs) div n), spillCols = Some n\<rparr>)"

definition key_column :: "int option \<Rightarrow> fval list \<Rightarrow> fval" where
  "key_column k line = (case k of None \<Rightarrow> FNull | Some i \<Rightarrow> elem_or FNull (nth_opt line i))"

definition evalSort :: "host \<Rightarrow> fval list \<Rightarrow> int \<Rightarrow> int option \<Rightarrow> rat option \<Rightarrow> eval_array" where
  "evalSort h arr k sortIndex sortOrder =
     (let n = max 1 k;
          keyCol = map_option (\<lambda>i. min n (max 1 i) - 1) sortIndex;
          rws = js_sort (\<lambda>a b. compareValues h sortOrder (key_column keyCol a) (key_column keyCol b)) (array_rows arr n)
      in \<lparr>ea_values = concat rws, spillRows = Some (int (length rws)), spillCols = Some n\<rparr>)"

definition row_identity :: "fval list \<Rightarrow> string" where
  "row_identity line = js_join [CHR 0x01] (map val_lower line)"

fun unique_loop :: "fval list list \<Rightarrow> string list \<Rightarrow> fval list list" where
  "unique_loop [] seen = []"
| "unique_loop (line # rest) seen =
     (if row_identity line \<in> set seen then unique_loop rest seen
      else line # unique_loop rest (row_identity line # seen))"

definition evalUnique :: "fval list \<Rightarrow> int \<Rightarrow> eval_array" where
  "evalUnique arr k =
     (let n = max 1 k; rws = unique_loop (array_rows arr n) []
      in \<lparr>ea_values = concat rws, spillRows = Some (int (length rws)), spillCols = Some n\<rparr>)"

definition sequence_size :: "int \<Rightarrow> rat option \<Rightarrow> int option" where
  "sequence_size cap x = map_option (\<lambda>r. max 1 (min (math_round r) cap)) x"

definition evalSequence :: "rat option \<Rightarrow> rat option \<Rightarrow> rat option \<Rightarrow> rat option \<Rightarrow> eval_array" where
  "evalSequence nrows ncols start stp =
     (let r = sequence_size 1000 nrows; c = sequence_size 100 ncols;
          entry = (\<lambda>i. case (start, stp) of (Some a, Some d) \<Rightarrow> FNum (a + of_int i * d) | _ \<Rightarrow> FNan)
      in \<lparr>ea_values = (case (r, c) of (Some m, Some n) \<Rightarrow> map entry [0..m * n - 1] | _ \<Rightarrow> []),
          spillRows = r, spillCols = c\<rparr>)"

definition evalSortBy :: "host \<Rightarrow> fval list \<Rightarrow> fval list \<Rightarrow> eval_array" where
  "evalSortBy h arr keys =
     (let pairs = mapi (\<lambda>i v. (elem_or FNull (nth_opt keys i), v)) arr;
          vs = map snd (js_sort (\<lambda>a b. compareValues h None (fst a) (fst b)) pairs)
      in \<lparr>ea_values = vs, spillRows = Some (int (length vs)), spillCols = Some 1\<rparr>)"

definition evalArrayFirstValue :: "eval_array \<Rightarrow> fval" where
  "evalArrayFirstValue a = elem_or FNull (nth_opt (ea_values a) 0)"

definition toScalar :: "fresult \<Rightarrow> fval" where
  "toScalar r = (case r of Scalar v \<Rightarrow> v | Arr a \<Rightarrow> evalArrayFirstValue a)"

section \<open>Spilling\<close>

definition to_cell_value :: "fval \<Rightarrow> cell_value" where
  "to_cell_value v = (case v of FNull \<Rightarrow> VNull | FBool b \<Rightarrow> VNum (if b then 1 else 0) | FNum n \<Rightarrow> VNum n
     | FNan \<Rightarrow> VStr (val_string v) | FInf _ \<Rightarrow> VStr (val_string v) | FStr s \<Rightarrow> VStr s)"

definition displayFromEvaluated :: "host \<Rightarrow> fval \<Rightarrow> number_format option \<Rightarrow> string option \<Rightarrow> string" where
  "displayFromEvaluated h v nf custom =
     (case v of
        FBool b \<Rightarrow> if b then ''TRUE'' else ''FALSE''
      | FStr s \<Rightarrow> if js_starts_with ''#'' s then s else formatCellDisplay h (VStr s) (Some (or_else nf General)) custom
      | _ \<Rightarrow> formatCellDisplay h (to_cell_value v) (Some (or_else nf General)) custom)"

definition has_formula :: "sheet_cell \<Rightarrow> bool" where
  "has_formula c \<longleftrightarrow> opt_text (formula c) \<noteq> []"

definition spillOriginKey :: "int \<Rightarrow> int \<Rightarrow> string" where
  "spillOriginKey r c = show_int r @ '':'' @ show_int c"

definition cellIsEmptyForSpill :: "sheet_cell option \<Rightarrow> bool" where
  "cellIsEmptyForSpill cell =
     (case cell of
        None \<Rightarrow> True
      | Some c \<Rightarrow>
          if has_formula c then False
          else if opt_text (spillFrom c) \<noteq> [] then True
          else cvalue c = VNull \<or> cvalue c = VStr [])"

definition clearSpillTargets :: "sheet \<Rightarrow> sheet" where
  "clearSpillTargets s = s\<lparr>rows := map (map (\<lambda>c.
     if opt_text (spillFrom c) = [] \<or> has_formula c then c
     else c\<lparr>spillFrom := None, cvalue := VNull, display := []\<rparr>)) (rows s)\<rparr>"

text \<open>\<open>while (xs.length < n) xs.push(x)\<close>; nothing happens when \<open>n\<close> is NaN.\<close>

definition grow_to :: "'a \<Rightarrow> int option \<Rightarrow> 'a list \<Rightarrow> 'a list" where
  "grow_to x n xs = (case n of None \<Rightarrow> xs | Some k \<Rightarrow> xs @ replicate (nat k - length xs) x)"

definition spill_grid :: "int \<Rightarrow> int \<Rightarrow> eval_array \<Rightarrow> grid \<Rightarrow> grid" where
  "spill_grid r0 c0 a g =
     map (grow_to empty_cell (map_option ((+) c0) (spillCols a))) (grow_to [] (map_option ((+) r0) (spillRows a)) g)"

definition dim_range :: "int option \<Rightarrow> int list" where
  "dim_range n = (case n of None \<Rightarrow> [] | Some k \<Rightarrow> [0..k - 1])"

definition spill_blocked :: "grid \<Rightarrow> int \<Rightarrow> int \<Rightarrow> int \<Rightarrow> int \<Rightarrow> bool" where
  "spill_blocked g r0 c0 r c =
     (let existing = grid_at g r c in
      (r, c) \<noteq> (r0, c0) \<and>
        ((case existing of None \<Rightarrow> False | Some e \<Rightarrow> has_formula e) \<or>
         (\<not> cellIsEmptyForSpill existing \<and>
           (case existing of None \<Rightarrow> True | Some e \<Rightarrow> spillFrom e \<noteq> Some (spillOriginKey r0 c0)))))"

text \<open>The cells that the array covers, from the origin.\<close>

definition spill_targets :: "int \<Rightarrow> int \<Rightarrow> eval_array \<Rightarrow> (int \<times> int) list" where
  "spill_targets r0 c0 a = concat (map (\<lambda>i. map (\<lambda>j. (r0 + i, c0 + j)) (dim_range (spillCols a))) (dim_range (spillRows a)))"

definition spill_value :: "int \<Rightarrow> int \<Rightarrow> eval_array \<Rightarrow> int \<Rightarrow> int \<Rightarrow> fval" where
  "spill_value r0 c0 a r c =
     elem_or FNull (nth_opt (ea_values a) ((r - r0) * or_else (spillCols a) 0 + (c - c0)))"

definition applySpillResult :: "host \<Rightarrow> sheet \<Rightarrow> int \<Rightarrow> int \<Rightarrow> eval_array \<Rightarrow> sheet" where
  "applySpillResult h s r0 c0 a =
     (let g = spill_grid r0 c0 a (rows s); ts = spill_targets r0 c0 a in
      if list_ex (\<lambda>(r, c). spill_blocked g r0 c0 r c) ts
      then s\<lparr>rows := mapi (\<lambda>r line. mapi (\<lambda>c e.
             if (r, c) = (r0, c0) then e\<lparr>cvalue := VStr ''#SPILL!'', display := ''#SPILL!''\<rparr> else e) line) g\<rparr>
      else s\<lparr>rows := mapi (\<lambda>r line. mapi (\<lambda>c e.
             if (r, c) \<noteq> (r0, c0) \<and> (r, c) \<in> set ts
             then (let v = spill_value r0 c0 a r c in e\<lparr>cvalue := to_cell_value v,
               display := displayFromEvaluated h v None None, formula := None,
               spillFrom := Some (spillOriginKey r0 c0)\<rparr>)
             else e) line) g\<rparr>)"

section \<open>What a spill does to the sheet\<close>

lemma grid_at_mapi:
  "grid_at (mapi (\<lambda>r line. mapi (\<lambda>c e. f r c e) line) g) r c = map_option (f r c) (grid_at g r c)"
  by (simp add: grid_at_def nth_opt_mapi split: option.split)

lemma nth_opt_prefix: "nth_opt xs i = Some x \<Longrightarrow> nth_opt (xs @ ys) i = Some x"
  by (auto simp: nth_opt_Some_iff nth_append)

lemma nth_opt_grow: "nth_opt xs i = Some x \<Longrightarrow> nth_opt (grow_to d n xs) i = Some x"
  by (simp add: grow_to_def nth_opt_prefix split: option.split)

lemma length_grow [simp]: "length (grow_to d n xs) = max (length xs) (case n of None \<Rightarrow> 0 | Some k \<Rightarrow> nat k)"
  by (auto simp: grow_to_def max_def split: option.split)

lemma grid_at_spill_grid: "grid_at g r c = Some e \<Longrightarrow> grid_at (spill_grid r0 c0 a g) r c = Some e"
proof -
  assume "grid_at g r c = Some e"
  then obtain line where l: "nth_opt g r = Some line" "nth_opt line c = Some e" by (auto simp: grid_at_def split: option.splits)
  with nth_opt_grow[OF l(1)] nth_opt_grow[OF l(2)] show ?thesis by (simp add: spill_grid_def grid_at_def nth_opt_map)
qed

lemma grid_at_spill_target:
  assumes "spillRows a = Some m" "spillCols a = Some n" "0 \<le> r0" "0 \<le> c0" "0 \<le> i" "i < m" "0 \<le> j" "j < n"
  shows "grid_at (spill_grid r0 c0 a g) (r0 + i) (c0 + j) \<noteq> None"
proof -
  let ?R = "grow_to [] (Some (r0 + m)) g"
  have "r0 + i < int (length ?R)" using assms by simp
  then obtain line where l: "nth_opt ?R (r0 + i) = Some line" using assms by (simp add: nth_opt_def)
  have "int (length (grow_to empty_cell (Some (c0 + n)) line)) > c0 + j" using assms by auto
  then have "nth_opt (grow_to empty_cell (Some (c0 + n)) line) (c0 + j) \<noteq> None" using assms by (simp add: nth_opt_def)
  with l assms(1,2) show ?thesis
    by (auto simp: spill_grid_def grid_at_def nth_opt_def split: if_splits)
qed

lemma set_spill_targets:
  "spillRows a = Some m \<Longrightarrow> spillCols a = Some n \<Longrightarrow>
   (r, c) \<in> set (spill_targets r0 c0 a) \<longleftrightarrow> r0 \<le> r \<and> r < r0 + m \<and> c0 \<le> c \<and> c < c0 + n"
  by (auto simp: spill_targets_def dim_range_def intro!: bexI[of _ "r - r0"] image_eqI[of _ _ "c - c0"])

definition spills :: "sheet \<Rightarrow> int \<Rightarrow> int \<Rightarrow> eval_array \<Rightarrow> bool" where
  "spills s r0 c0 a \<longleftrightarrow>
     \<not> list_ex (\<lambda>(r, c). spill_blocked (spill_grid r0 c0 a (rows s)) r0 c0 r c) (spill_targets r0 c0 a)"

text \<open>A cell with content of its own: a formula, or a value that no earlier spill has put there.\<close>

definition own_content :: "sheet_cell \<Rightarrow> bool" where
  "own_content e \<longleftrightarrow> has_formula e \<or> (cvalue e \<noteq> VNull \<and> cvalue e \<noteq> VStr [] \<and> opt_text (spillFrom e) = [])"

lemma own_content_blocks:
  assumes "grid_at g r c = Some e" and "own_content e" and "(r, c) \<noteq> (r0, c0)"
  shows "spill_blocked g r0 c0 r c"
proof -
  have "spillOriginKey r0 c0 \<noteq> []" by (simp add: spillOriginKey_def)
  then show ?thesis using assms
    by (auto simp: spill_blocked_def Let_def own_content_def cellIsEmptyForSpill_def opt_text_def)
qed

text \<open>Writing a dynamic array never destroys anything: every cell other than the formula's own
  that has a formula, or a value that is not left from a spill, is the same afterwards. Either
  the origin shows \<open>#SPILL!\<close> and no other cell changes, or every cell that the array covers holds
  its element of the array, tagged with the origin.\<close>

theorem applySpillResult_safe:
  assumes "grid_at (rows s) r0 c0 = Some origin" and "spillRows a = Some m" and "spillCols a = Some n"
  shows "let g = rows (applySpillResult h s r0 c0 a) in
    (\<forall>r c e. grid_at (rows s) r c = Some e \<longrightarrow> (r, c) \<noteq> (r0, c0) \<longrightarrow> own_content e \<longrightarrow> grid_at g r c = Some e) \<and>
    (if spills s r0 c0 a
     then \<forall>i j. 0 \<le> i \<longrightarrow> i < m \<longrightarrow> 0 \<le> j \<longrightarrow> j < n \<longrightarrow> (i, j) \<noteq> (0, 0) \<longrightarrow>
       (\<exists>e. grid_at g (r0 + i) (c0 + j) = Some e \<and> formula e = None \<and> spillFrom e = Some (spillOriginKey r0 c0) \<and>
          cvalue e = to_cell_value (elem_or FNull (nth_opt (ea_values a) (i * n + j))))
     else grid_at g r0 c0 = Some (origin\<lparr>cvalue := VStr ''#SPILL!'', display := ''#SPILL!''\<rparr>) \<and>
       (\<forall>r c e. grid_at (rows s) r c = Some e \<longrightarrow> (r, c) \<noteq> (r0, c0) \<longrightarrow> grid_at g r c = Some e))"
proof -
  let ?g0 = "spill_grid r0 c0 a (rows s)" and ?ts = "spill_targets r0 c0 a"
  have nn: "0 \<le> r0" "0 \<le> c0" using assms(1) by (auto simp: grid_at_def nth_opt_def split: option.splits if_splits)
  show ?thesis
  proof (cases "spills s r0 c0 a")
    case True
    then have e: "rows (applySpillResult h s r0 c0 a) = mapi (\<lambda>r line. mapi (\<lambda>c e.
             if (r, c) \<noteq> (r0, c0) \<and> (r, c) \<in> set ?ts
             then (let v = spill_value r0 c0 a r c in e\<lparr>cvalue := to_cell_value v,
               display := displayFromEvaluated h v None None, formula := None,
               spillFrom := Some (spillOriginKey r0 c0)\<rparr>)
             else e) line) ?g0"
      by (simp add: applySpillResult_def spills_def Let_def)
    have at: "grid_at (rows (applySpillResult h s r0 c0 a)) r c = map_option (\<lambda>e.
             if (r, c) \<noteq> (r0, c0) \<and> (r, c) \<in> set ?ts
             then (let v = spill_value r0 c0 a r c in e\<lparr>cvalue := to_cell_value v,
               display := displayFromEvaluated h v None None, formula := None,
               spillFrom := Some (spillOriginKey r0 c0)\<rparr>)
             else e) (grid_at ?g0 r c)" for r c
      unfolding e by (rule grid_at_mapi)
    have free: "\<not> spill_blocked ?g0 r0 c0 r c" if "(r, c) \<in> set ?ts" for r c
      using True that by (auto simp: spills_def list_ex_iff)
    have "grid_at (rows (applySpillResult h s r0 c0 a)) r c = Some x"
      if "grid_at (rows s) r c = Some x" "(r, c) \<noteq> (r0, c0)" "own_content x" for r c x
    proof -
      note x = grid_at_spill_grid[OF that(1), of r0 c0 a]
      then have "(r, c) \<notin> set ?ts" using own_content_blocks[OF x that(3,2)] free by blast
      then show ?thesis unfolding at x by simp
    qed
    moreover have "\<exists>x. grid_at (rows (applySpillResult h s r0 c0 a)) (r0 + i) (c0 + j) = Some x \<and> formula x = None \<and>
          spillFrom x = Some (spillOriginKey r0 c0) \<and>
          cvalue x = to_cell_value (elem_or FNull (nth_opt (ea_values a) (i * n + j)))"
      if b: "0 \<le> i" "i < m" "0 \<le> j" "j < n" "(i, j) \<noteq> (0, 0)" for i j
    proof -
      obtain x where x: "grid_at ?g0 (r0 + i) (c0 + j) = Some x"
        using grid_at_spill_target[OF assms(2,3) nn b(1-4), of "rows s"] by blast
      have t: "(r0 + i, c0 + j) \<in> set ?ts" using set_spill_targets[OF assms(2,3)] b by simp
      have ne: "(r0 + i, c0 + j) \<noteq> (r0, c0)" using b(5) by auto
      have v: "spill_value r0 c0 a (r0 + i) (c0 + j) = elem_or FNull (nth_opt (ea_values a) (i * n + j))"
        using assms(3) by (simp add: spill_value_def or_else_def)
      show ?thesis unfolding at x using t ne v by (simp add: Let_def)
    qed
    ultimately show ?thesis using True by (simp add: Let_def)
  next
    case False
    then have e: "rows (applySpillResult h s r0 c0 a) = mapi (\<lambda>r line. mapi (\<lambda>c e.
             if (r, c) = (r0, c0) then e\<lparr>cvalue := VStr ''#SPILL!'', display := ''#SPILL!''\<rparr> else e) line) ?g0"
      by (simp add: applySpillResult_def spills_def Let_def)
    have at: "grid_at (rows (applySpillResult h s r0 c0 a)) r c = map_option (\<lambda>e.
             if (r, c) = (r0, c0) then e\<lparr>cvalue := VStr ''#SPILL!'', display := ''#SPILL!''\<rparr> else e) (grid_at ?g0 r c)" for r c
      unfolding e by (rule grid_at_mapi)
    show ?thesis using False grid_at_spill_grid[of "rows s" _ _ _ r0 c0 a] assms(1)
      by (auto simp: Let_def at)
  qed
qed

definition value_cell :: "rat \<Rightarrow> sheet_cell" where
  "value_cell n = empty_cell\<lparr>cvalue := VNum n\<rparr>"

definition two_numbers :: eval_array where
  "two_numbers = \<lparr>ea_values = [FNum 10, FNum 11], spillRows = Some 2, spillCols = Some 1\<rparr>"

definition column_of :: "sheet_cell list \<Rightarrow> sheet" where
  "column_of cs = new_sheet ''S'' (map (\<lambda>c. [c]) cs)"

theorem applySpillResult_safe_witness:
  "map_option cvalue (grid_at (rows (applySpillResult plain_host (column_of [value_cell 1]) 0 0 two_numbers)) 1 0) = Some (VNum 11) \<and>
   map_option cvalue (grid_at (rows (applySpillResult plain_host (column_of [value_cell 1, value_cell 5]) 0 0 two_numbers)) 0 0) = Some (VStr ''#SPILL!'') \<and>
   grid_at (rows (applySpillResult plain_host (column_of [value_cell 1, value_cell 5]) 0 0 two_numbers)) 1 0 = Some (value_cell 5)"
proof -
  let ?a = "column_of [value_cell 1]" and ?b = "column_of [value_cell 1, value_cell 5]"
  have g: "grid_at (rows ?a) 0 0 = Some (value_cell 1)" "grid_at (rows ?b) 0 0 = Some (value_cell 1)"
    "grid_at (rows ?b) 1 0 = Some (value_cell 5)"
    by (simp_all add: column_of_def new_sheet_def grid_at_def nth_opt_def)
  have d: "spillRows two_numbers = Some 2" "spillCols two_numbers = Some 1" by (simp_all add: two_numbers_def)
  have f: "spills ?a 0 0 two_numbers" "\<not> spills ?b 0 0 two_numbers" by code_simp+
  note A = applySpillResult_safe[OF g(1) d, of plain_host, unfolded Let_def]
  note B = applySpillResult_safe[OF g(2) d, of plain_host, unfolded Let_def]
  have "\<exists>e. grid_at (rows (applySpillResult plain_host ?a 0 0 two_numbers)) (0 + 1) (0 + 0) = Some e \<and>
      cvalue e = to_cell_value (elem_or FNull (nth_opt (ea_values two_numbers) (1 * 1 + 0)))"
  proof -
    from conjunct2[OF A] f(1) have "\<forall>i j. 0 \<le> i \<longrightarrow> i < 2 \<longrightarrow> 0 \<le> j \<longrightarrow> j < 1 \<longrightarrow> (i, j) \<noteq> (0, 0) \<longrightarrow>
       (\<exists>e. grid_at (rows (applySpillResult plain_host ?a 0 0 two_numbers)) (0 + i) (0 + j) = Some e \<and> formula e = None \<and>
          spillFrom e = Some (spillOriginKey 0 0) \<and> cvalue e = to_cell_value (elem_or FNull (nth_opt (ea_values two_numbers) (i * 1 + j))))"
      by (simp only: if_True)
    from this[rule_format, of 1 0] show ?thesis by auto
  qed
  moreover have "to_cell_value (elem_or FNull (nth_opt (ea_values two_numbers) (1 * 1 + 0))) = VNum 11" by code_simp
  moreover have "grid_at (rows (applySpillResult plain_host ?b 0 0 two_numbers)) 1 0 = Some (value_cell 5)"
    using B f(2) g(3) by simp
  ultimately show ?thesis using B f(2) by auto
qed

section \<open>The array functions against their descriptions\<close>

lemma unique_loop_spec:
  "subseq (unique_loop xs seen) xs \<and> distinct (map row_identity (unique_loop xs seen)) \<and>
   row_identity ` set (unique_loop xs seen) = row_identity ` set xs - set seen"
proof (induction xs seen rule: unique_loop.induct)
  case (2 line rest seen)
  then show ?case by (cases "row_identity line \<in> set seen") auto
qed simp

lemma evalUnique_spec:
  assumes "0 < k"
  shows "\<exists>rws. ea_values (evalUnique arr k) = concat rws \<and> spillRows (evalUnique arr k) = Some (int (length rws)) \<and>
    subseq rws (array_rows arr k) \<and> distinct (map row_identity rws) \<and>
    row_identity ` set rws = row_identity ` set (array_rows arr k)"
  using unique_loop_spec[of "array_rows arr k" "[]"] assms
  by (intro exI[of _ "unique_loop (array_rows arr k) []"]) (simp add: evalUnique_def Let_def)

lemma evalFilter_rows:
  "0 < k \<Longrightarrow> ea_values (evalFilter arr flags k) =
     concat (map (array_row arr k) (filter (\<lambda>r. isTruthyFlag (elem_or (elem_or FNull (nth_opt flags (r * k))) (nth_opt flags r)))
       [0..row_count arr k - 1]))"
  by (simp add: evalFilter_def Let_def)

lemma length_array_row [simp]: "0 \<le> n \<Longrightarrow> length (array_row xs n r) = nat n"
  by (simp add: array_row_def)

text \<open>\<open>SORT\<close> of a range whose key column holds numbers is a stable sort of its rows: the rows of
  the result are a permutation of the rows of the range, ordered by the key (downwards for a
  negative order), and rows with the same key keep their order.\<close>

theorem evalSort_stable:
  assumes "\<forall>line \<in> set (array_rows arr n). sort_number (key_column (Some k) line) = Some (key line)"
    and "1 \<le> n" and "0 \<le> k" and "k < n"
  shows "\<exists>rws. ea_values (evalSort h arr n (Some (k + 1)) (Some d)) = concat rws \<and> mset rws = mset (array_rows arr n) \<and>
    sorted_wrt (\<lambda>a b. if d < 0 then key b \<le> key a else key a \<le> key b) rws \<and>
    (\<forall>v. filter (\<lambda>line. key line = v) rws = filter (\<lambda>line. key line = v) (array_rows arr n))"
proof -
  let ?cmp = "\<lambda>a b. compareValues h (Some d) (key_column (Some k) a) (key_column (Some k) b)"
  let ?le = "\<lambda>x y. if d < 0 then y \<le> x else (x :: rat) \<le> y"
  have c: "?cmp a b \<le> 0 \<longleftrightarrow> ?le (key a) (key b)" "?cmp a b > 0 \<Longrightarrow> key b \<noteq> key a"
    if "a \<in> set (array_rows arr n)" "b \<in> set (array_rows arr n)" for a b
    using assms(1) that by (auto simp: compareValues_def Let_def split: if_splits)
  have e: "ea_values (evalSort h arr n (Some (k + 1)) (Some d)) = concat (js_sort ?cmp (array_rows arr n))"
  proof -
    have "max 1 n = n" "min n (max 1 (k + 1)) - 1 = k" using assms(2-4) by simp_all
    then show ?thesis by (simp add: evalSort_def Let_def)
  qed
  have "sorted_wrt (\<lambda>y z. ?le (key y) (key z)) (js_sort ?cmp (array_rows arr n))"
    by (rule sorted_js_sort) (use c in auto)
  moreover have "filter (\<lambda>line. key line = v) (js_sort ?cmp (array_rows arr n)) = filter (\<lambda>line. key line = v) (array_rows arr n)" for v
    by (rule stable_js_sort) (use c in blast)
  ultimately show ?thesis using e by (intro exI[of _ "js_sort ?cmp (array_rows arr n)"]) (simp add: if_distrib)
qed

definition first_number :: "fval list \<Rightarrow> rat" where
  "first_number line = (case line of FNum q # _ \<Rightarrow> q | _ \<Rightarrow> 0)"

theorem evalSort_stable_witness:
  "\<exists>rws. ea_values (evalSort plain_host [FNum 2, FStr ''b'', FNum 1, FStr ''a'', FNum 2, FStr ''c''] 2 (Some 1) (Some (- 1))) = concat rws \<and>
     mset rws = {#[FNum 2, FStr ''b''], [FNum 1, FStr ''a''], [FNum 2, FStr ''c'']#} \<and>
     sorted_wrt (\<lambda>a b. first_number b \<le> first_number a) rws \<and>
     filter (\<lambda>line. first_number line = 2) rws = [[FNum 2, FStr ''b''], [FNum 2, FStr ''c'']]"
proof -
  let ?arr = "[FNum 2, FStr ''b'', FNum 1, FStr ''a'', FNum 2, FStr ''c'']"
  have r: "array_rows ?arr 2 = [[FNum 2, FStr ''b''], [FNum 1, FStr ''a''], [FNum 2, FStr ''c'']]" by code_simp
  have "list_all (\<lambda>line. sort_number (key_column (Some 0) line) = Some (first_number line)) (array_rows ?arr 2)"
    unfolding r by code_simp
  then have k: "\<forall>line \<in> set (array_rows ?arr 2). sort_number (key_column (Some 0) line) = Some (first_number line)"
    by (simp add: list_all_iff)
  obtain rws where w: "ea_values (evalSort plain_host ?arr 2 (Some (0 + 1)) (Some (- 1))) = concat rws"
      "mset rws = mset (array_rows ?arr 2)"
      "sorted_wrt (\<lambda>a b. if (- 1 :: rat) < 0 then first_number b \<le> first_number a else first_number a \<le> first_number b) rws"
      "\<forall>v. filter (\<lambda>line. first_number line = v) rws = filter (\<lambda>line. first_number line = v) (array_rows ?arr 2)"
    using evalSort_stable[OF k, of plain_host "- 1"] by auto
  have "filter (\<lambda>line. first_number line = 2) (array_rows ?arr 2) = [[FNum 2, FStr ''b''], [FNum 2, FStr ''c'']]"
    unfolding r by (simp add: first_number_def)
  with w show ?thesis unfolding r by (intro exI[of _ rws]) simp
qed

end
