(* ===== verification/JsNum.thy ===== *)
theory JsNum
  imports SheetSpill
begin

text \<open>
  JavaScript's numbers with NaN and the infinities, as the formula evaluator uses them:
  arithmetic, comparison, the functions of \<open>Math\<close>, \<open>toFixed\<close>, and the coercions of a formula's
  value (\<open>coerceNumber\<close> of \<^verbatim>\<open>frontend/src/lib/spreadsheet/formulas.ts\<close>, \<open>num\<close> of
  \<^verbatim>\<open>formula-extended.ts\<close>).

  A finite number is an exact rational: neither the rounding nor the overflow of doubles is
  modelled, and -0 is 0. \<open>Inf True\<close> is the negative infinity.
\<close>

section \<open>Numbers\<close>

datatype jsn = Fin rat | Inf bool | NaN

definition jneg :: "jsn \<Rightarrow> jsn" where
  "jneg x = (case x of Fin a \<Rightarrow> Fin (- a) | Inf s \<Rightarrow> Inf (\<not> s) | NaN \<Rightarrow> NaN)"

definition jadd :: "jsn \<Rightarrow> jsn \<Rightarrow> jsn" where
  "jadd x y = (case (x, y) of
       (Fin a, Fin b) \<Rightarrow> Fin (a + b)
     | (Inf s, Inf t) \<Rightarrow> if s = t then Inf s else NaN
     | (Inf s, Fin b) \<Rightarrow> Inf s
     | (Fin a, Inf t) \<Rightarrow> Inf t
     | _ \<Rightarrow> NaN)"

definition jsub :: "jsn \<Rightarrow> jsn \<Rightarrow> jsn" where
  "jsub x y = jadd x (jneg y)"

definition jmul :: "jsn \<Rightarrow> jsn \<Rightarrow> jsn" where
  "jmul x y = (case (x, y) of
       (Fin a, Fin b) \<Rightarrow> Fin (a * b)
     | (Inf s, Inf t) \<Rightarrow> Inf (s \<noteq> t)
     | (Inf s, Fin b) \<Rightarrow> if b = 0 then NaN else Inf (s \<noteq> (b < 0))
     | (Fin a, Inf t) \<Rightarrow> if a = 0 then NaN else Inf ((a < 0) \<noteq> t)
     | _ \<Rightarrow> NaN)"

definition jdiv :: "jsn \<Rightarrow> jsn \<Rightarrow> jsn" where
  "jdiv x y = (case (x, y) of
       (Fin a, Fin b) \<Rightarrow> if b \<noteq> 0 then Fin (a / b) else if a = 0 then NaN else Inf (a < 0)
     | (Inf s, Fin b) \<Rightarrow> Inf (s \<noteq> (b < 0))
     | (Fin a, Inf t) \<Rightarrow> Fin 0
     | _ \<Rightarrow> NaN)"

text \<open>The remainder \<open>%\<close>, with the sign of the dividend.\<close>

definition jrem :: "jsn \<Rightarrow> jsn \<Rightarrow> jsn" where
  "jrem x y = (case (x, y) of
       (Fin a, Fin b) \<Rightarrow> if b = 0 then NaN else Fin (a - b * of_int (math_trunc (a / b)))
     | (Fin a, Inf t) \<Rightarrow> Fin a
     | _ \<Rightarrow> NaN)"

definition jlt :: "jsn \<Rightarrow> jsn \<Rightarrow> bool" where
  "jlt x y = (case (x, y) of
       (Fin a, Fin b) \<Rightarrow> a < b
     | (Inf s, Inf t) \<Rightarrow> s \<and> \<not> t
     | (Inf s, Fin b) \<Rightarrow> s
     | (Fin a, Inf t) \<Rightarrow> \<not> t
     | _ \<Rightarrow> False)"

definition jeq :: "jsn \<Rightarrow> jsn \<Rightarrow> bool" where
  "jeq x y \<longleftrightarrow> x = y \<and> x \<noteq> NaN"

definition jle :: "jsn \<Rightarrow> jsn \<Rightarrow> bool" where
  "jle x y \<longleftrightarrow> jlt x y \<or> jeq x y"

definition is_finite :: "jsn \<Rightarrow> bool" where
  "is_finite x \<longleftrightarrow> (case x of Fin a \<Rightarrow> True | _ \<Rightarrow> False)"

definition fin_of :: "jsn \<Rightarrow> rat option" where
  "fin_of x = (case x of Fin a \<Rightarrow> Some a | _ \<Rightarrow> None)"

text \<open>A function of \<open>Math\<close> that keeps NaN and the infinities.\<close>

definition jfin :: "(rat \<Rightarrow> rat) \<Rightarrow> jsn \<Rightarrow> jsn" where
  "jfin f x = (case x of Fin a \<Rightarrow> Fin (f a) | _ \<Rightarrow> x)"

definition jround :: "jsn \<Rightarrow> jsn" where "jround = jfin (\<lambda>a. of_int (math_round a))"
definition jfloor :: "jsn \<Rightarrow> jsn" where "jfloor = jfin (\<lambda>a. of_int \<lfloor>a\<rfloor>)"
definition jceil :: "jsn \<Rightarrow> jsn" where "jceil = jfin (\<lambda>a. of_int \<lceil>a\<rceil>)"
definition jtrunc :: "jsn \<Rightarrow> jsn" where "jtrunc = jfin (\<lambda>a. of_int (math_trunc a))"

definition jabs :: "jsn \<Rightarrow> jsn" where
  "jabs x = (case x of Fin a \<Rightarrow> Fin \<bar>a\<bar> | Inf s \<Rightarrow> Inf False | NaN \<Rightarrow> NaN)"

definition jmax :: "jsn \<Rightarrow> jsn \<Rightarrow> jsn" where
  "jmax x y = (if x = NaN \<or> y = NaN then NaN else if jlt x y then y else x)"

definition jmin :: "jsn \<Rightarrow> jsn \<Rightarrow> jsn" where
  "jmin x y = (if x = NaN \<or> y = NaN then NaN else if jlt y x then y else x)"

text \<open>
  \<open>x ** y\<close> for a whole exponent; any other power of two numbers is the runtime's (\<open>pw\<close>).
\<close>

definition jpow :: "(jsn \<Rightarrow> jsn \<Rightarrow> jsn) \<Rightarrow> jsn \<Rightarrow> jsn \<Rightarrow> jsn" where
  "jpow pw x y = (case (x, y) of
       (_, NaN) \<Rightarrow> NaN
     | (Fin a, Fin b) \<Rightarrow>
         if b = of_int \<lfloor>b\<rfloor> then
           (if 0 \<le> b then Fin (a ^ nat \<lfloor>b\<rfloor>) else jdiv (Fin 1) (Fin (a ^ nat \<lfloor>- b\<rfloor>)))
         else pw x y
     | (NaN, Fin b) \<Rightarrow> if b = 0 then Fin 1 else NaN
     | _ \<Rightarrow> pw x y)"

definition num_text :: "jsn \<Rightarrow> string" where
  "num_text x = (case x of Fin a \<Rightarrow> show_num a | Inf s \<Rightarrow> (if s then ''-Infinity'' else ''Infinity'') | NaN \<Rightarrow> ''NaN'')"

text \<open>
  \<open>x.toFixed(d)\<close>: \<open>None\<close> is the RangeError for a number of digits outside 0 to 100. The sign
  comes from the number before rounding.
\<close>

definition to_fixed :: "int \<Rightarrow> jsn \<Rightarrow> string option" where
  "to_fixed d x =
     (if d < 0 \<or> 100 < d then None
      else case x of
        Fin a \<Rightarrow> Some (
          if 10 ^ 21 \<le> \<bar>a\<bar> then show_num a
          else let n = math_round (\<bar>a\<bar> * 10 ^ nat d);
                   ds = dec_digits n;
                   padded = replicate (nat d + 1 - length ds) CHR ''0'' @ ds;
                   k = length padded - nat d
               in (if a < 0 then ''-'' else []) @ take k padded @ (if d = 0 then [] else ''.'' @ drop k padded))
      | _ \<Rightarrow> Some (num_text x))"

section \<open>The values of formulas as numbers\<close>

definition fnum :: "jsn \<Rightarrow> fval" where
  "fnum x = (case x of Fin a \<Rightarrow> FNum a | Inf s \<Rightarrow> FInf s | NaN \<Rightarrow> FNan)"

definition of_option :: "rat option \<Rightarrow> jsn" where
  "of_option x = (case x of Some a \<Rightarrow> Fin a | None \<Rightarrow> NaN)"

text \<open>A string of a formula that begins with \<open>#\<close> is an error.\<close>

definition is_error :: "fval \<Rightarrow> bool" where
  "is_error v \<longleftrightarrow> (case v of FStr s \<Rightarrow> js_starts_with ''#'' s | _ \<Rightarrow> False)"

definition coerceNumber :: "fval \<Rightarrow> jsn" where
  "coerceNumber v =
     (case v of
        FNum n \<Rightarrow> Fin n
      | FNan \<Rightarrow> NaN
      | FInf s \<Rightarrow> Inf s
      | FBool b \<Rightarrow> Fin (if b then 1 else 0)
      | FNull \<Rightarrow> Fin 0
      | FStr s \<Rightarrow> if s = [] then Fin 0 else if js_starts_with ''#'' s then NaN else of_option (js_number (strip_money s)))"

text \<open>An argument \<open>args[i]\<close>: \<open>undefined\<close> reads as NaN, as the text \<open>""\<close> and as false.\<close>

definition arg_num :: "fval list \<Rightarrow> int \<Rightarrow> jsn" where
  "arg_num args i = (case nth_opt args i of None \<Rightarrow> NaN | Some v \<Rightarrow> coerceNumber v)"

text \<open>\<open>coerceNumber(args[i] ?? d)\<close>.\<close>

definition arg_num_or :: "jsn \<Rightarrow> fval list \<Rightarrow> int \<Rightarrow> jsn" where
  "arg_num_or d args i = (case nth_opt args i of None \<Rightarrow> d | Some v \<Rightarrow> if v = FNull then d else coerceNumber v)"

text \<open>\<open>args[i] !== undefined ? f(coerceNumber(args[i])) : d\<close>.\<close>

definition arg_given :: "(jsn \<Rightarrow> jsn) \<Rightarrow> jsn \<Rightarrow> fval list \<Rightarrow> int \<Rightarrow> jsn" where
  "arg_given f d args i = (case nth_opt args i of None \<Rightarrow> d | Some v \<Rightarrow> f (coerceNumber v))"

definition arg_text :: "fval list \<Rightarrow> int \<Rightarrow> string" where
  "arg_text args i = (case nth_opt args i of None \<Rightarrow> [] | Some v \<Rightarrow> val_text v)"

text \<open>\<open>args[i] ?? null\<close>.\<close>

definition arg_or_null :: "fval list \<Rightarrow> int \<Rightarrow> fval" where
  "arg_or_null args i = elem_or FNull (nth_opt args i)"

text \<open>\<open>Boolean(v)\<close>.\<close>

definition truthy :: "fval \<Rightarrow> bool" where
  "truthy v = (case v of FNull \<Rightarrow> False | FBool b \<Rightarrow> b | FNum n \<Rightarrow> n \<noteq> 0 | FNan \<Rightarrow> False | FInf _ \<Rightarrow> True | FStr s \<Rightarrow> s \<noteq> [])"

definition arg_truthy :: "fval list \<Rightarrow> int \<Rightarrow> bool" where
  "arg_truthy args i = (case nth_opt args i of None \<Rightarrow> False | Some v \<Rightarrow> truthy v)"

text \<open>\<open>values.map(coerceNumber).filter(Number.isFinite)\<close>.\<close>

definition finite_nums :: "fval list \<Rightarrow> rat list" where
  "finite_nums vs = List.map_filter (\<lambda>v. fin_of (coerceNumber v)) vs"

definition sum_rats :: "rat list \<Rightarrow> rat" where
  "sum_rats xs = foldl (+) 0 xs"

definition max_rats :: "rat list \<Rightarrow> rat" where
  "max_rats xs = (case xs of [] \<Rightarrow> 0 | y # ys \<Rightarrow> foldl max y ys)"

definition min_rats :: "rat list \<Rightarrow> rat" where
  "min_rats xs = (case xs of [] \<Rightarrow> 0 | y # ys \<Rightarrow> foldl min y ys)"

definition sort_up :: "rat list \<Rightarrow> rat list" where
  "sort_up xs = js_sort (\<lambda>a b. if a < b then -1 else if a = b then 0 else 1) xs"

definition sort_down :: "rat list \<Rightarrow> rat list" where
  "sort_down xs = js_sort (\<lambda>a b. if b < a then -1 else if a = b then 0 else 1) xs"

text \<open>
  A position that comes from a number: \<open>xs[n]\<close> is \<open>undefined\<close> when \<open>n\<close> is not a whole number,
  and \<open>slice\<close> reads NaN as 0 and clamps the infinities to the ends.
\<close>

definition whole_index :: "jsn \<Rightarrow> int option" where
  "whole_index x = (case x of Fin a \<Rightarrow> if a = of_int \<lfloor>a\<rfloor> then Some \<lfloor>a\<rfloor> else None | _ \<Rightarrow> None)"

definition at_index :: "'a list \<Rightarrow> jsn \<Rightarrow> 'a option" where
  "at_index xs x = Option.bind (whole_index x) (nth_opt xs)"

definition slice_pos :: "'a list \<Rightarrow> jsn \<Rightarrow> int" where
  "slice_pos xs x = (case x of Fin a \<Rightarrow> math_trunc a | NaN \<Rightarrow> 0
     | Inf s \<Rightarrow> if s then - int (length xs) else int (length xs))"

definition jslice :: "'a list \<Rightarrow> jsn \<Rightarrow> jsn \<Rightarrow> 'a list" where
  "jslice xs x y = js_slice xs (slice_pos xs x) (slice_pos xs y)"

definition jslice_from :: "'a list \<Rightarrow> jsn \<Rightarrow> 'a list" where
  "jslice_from xs x = js_slice_from xs (slice_pos xs x)"

text \<open>\<open>s.indexOf(sub, from)\<close>, -1 when there is none.\<close>

fun index_from :: "string \<Rightarrow> int \<Rightarrow> string \<Rightarrow> int" where
  "index_from sub k [] = (if sub = [] then k else -1)"
| "index_from sub k (c # s) = (if js_starts_with sub (c # s) then k else index_from sub (k + 1) s)"

definition index_of :: "string \<Rightarrow> jsn \<Rightarrow> string \<Rightarrow> int" where
  "index_of sub start s =
     (let k = max 0 (min (slice_pos s start) (int (length s))) in index_from sub k (drop (nat k) s))"

section \<open>Facts\<close>

lemma coerceNumber_simps [simp]:
  "coerceNumber (FNum n) = Fin n" "coerceNumber (FBool b) = Fin (if b then 1 else 0)" "coerceNumber FNull = Fin 0"
  by (simp_all add: coerceNumber_def)

lemma finite_nums_simps [simp]:
  "finite_nums [] = []"
  "finite_nums (v # vs) = (case coerceNumber v of Fin a \<Rightarrow> a # finite_nums vs | _ \<Rightarrow> finite_nums vs)"
  by (auto simp: finite_nums_def map_filter_def fin_of_def split: jsn.split)

lemma finite_nums_append [simp]: "finite_nums (vs @ ws) = finite_nums vs @ finite_nums ws"
  by (simp add: finite_nums_def map_filter_def)

lemma foldl_plus: "foldl (+) (x :: rat) ys = x + sum_list ys"
  by (induction ys arbitrary: x) auto

lemma sum_rats_sum_list: "sum_rats xs = sum_list xs"
  by (simp add: sum_rats_def foldl_plus)

end
