(* ===== verification/JsExpr.thy ===== *)
theory JsExpr
  imports JsNum
begin

text \<open>
  The JavaScript expressions that the formula evaluator builds and runs with
  \<open>Function('"use strict"; return (' + text + ');')()\<close>: number, string, boolean and null
  literals, the operators \<open>+ - * / < > <= >= == != === !== || !\<close>, the comma, parentheses and
  calls. \<open>lex\<close>, \<open>parse\<close> and \<open>jeval\<close> follow the standard's grammar and semantics for them.

  The text can hold other JavaScript as well (\<open>**\<close>, bit operators, arrow functions, regular
  expressions, comments, property accesses, escapes in strings, line breaks); such a text is \<open>Outside\<close>,
  and what the runtime makes of it is a parameter of \<open>js_run\<close>.
\<close>

section \<open>Values\<close>

datatype jval = JNum jsn | JStr string | JBool bool | JNull | JOther string

text \<open>\<open>JOther s\<close> is any other object, by its \<open>String(..)\<close>.\<close>

datatype js_result = Returns jval | Throws

definition jval_number :: "jval \<Rightarrow> jsn" where
  "jval_number v =
     (case v of
        JNum x \<Rightarrow> x
      | JStr s \<Rightarrow>
          (let t = js_trim s in
           if t = ''Infinity'' \<or> t = ''+Infinity'' then Inf False
           else if t = ''-Infinity'' then Inf True
           else of_option (js_number s))
      | JBool b \<Rightarrow> Fin (if b then 1 else 0)
      | JNull \<Rightarrow> Fin 0
      | JOther s \<Rightarrow> NaN)"

definition jval_text :: "jval \<Rightarrow> string" where
  "jval_text v = (case v of JNum x \<Rightarrow> num_text x | JStr s \<Rightarrow> s | JBool b \<Rightarrow> (if b then ''true'' else ''false'')
     | JNull \<Rightarrow> ''null'' | JOther s \<Rightarrow> s)"

definition jval_truthy :: "jval \<Rightarrow> bool" where
  "jval_truthy v = (case v of JNum x \<Rightarrow> x \<noteq> Fin 0 \<and> x \<noteq> NaN | JStr s \<Rightarrow> s \<noteq> [] | JBool b \<Rightarrow> b
     | JNull \<Rightarrow> False | JOther s \<Rightarrow> True)"

fun string_less :: "string \<Rightarrow> string \<Rightarrow> bool" where
  "string_less [] t = (t \<noteq> [])"
| "string_less (c # s) [] = False"
| "string_less (c # s) (d # t) =
     (if c = d then string_less s t else (of_char c :: nat) < of_char d)"

definition jval_less :: "jval \<Rightarrow> jval \<Rightarrow> bool" where
  "jval_less a b = (case (a, b) of (JStr s, JStr t) \<Rightarrow> string_less s t
     | _ \<Rightarrow> jlt (jval_number a) (jval_number b))"

definition jval_less_eq :: "jval \<Rightarrow> jval \<Rightarrow> bool" where
  "jval_less_eq a b = (case (a, b) of (JStr s, JStr t) \<Rightarrow> \<not> string_less t s
     | _ \<Rightarrow> jle (jval_number a) (jval_number b))"

definition strict_equal :: "jval \<Rightarrow> jval \<Rightarrow> bool" where
  "strict_equal a b = (case (a, b) of (JNum x, JNum y) \<Rightarrow> jeq x y | _ \<Rightarrow> a = b)"

definition loose_equal :: "jval \<Rightarrow> jval \<Rightarrow> bool" where
  "loose_equal a b = (case (a, b) of
       (JStr s, JStr t) \<Rightarrow> s = t
     | (JNull, JNull) \<Rightarrow> True
     | (JNull, _) \<Rightarrow> False
     | (_, JNull) \<Rightarrow> False
     | _ \<Rightarrow> jeq (jval_number a) (jval_number b))"

section \<open>Tokens\<close>

datatype tok = TNum rat | TStr string | TWord string | TOp string | TLp | TRp

datatype 'a reading = Ok 'a | Bad | Outside

definition plain_ops :: "string list" where
  "plain_ops = [''+'', ''-'', ''*'', ''/'', ''<'', ''>'', ''<='', ''>='', ''=='', ''!='', ''==='', ''!=='', ''||'', ''!'', '','']"

text \<open>Operators that need a reference as operand, which no expression of the fragment is: a SyntaxError.\<close>

definition assign_ops :: "string list" where
  "assign_ops = [''++'', ''--'', ''='', ''+='', ''-='', ''*='', ''/='', ''**='', ''<<='', ''>>='', ''>>>='', ''|='', ''||='']"

text \<open>The punctuators over these characters, the longest first.\<close>

definition punctuators :: "string list" where
  "punctuators = [''>>>='', ''==='', ''!=='', ''**='', ''<<='', ''>>='', ''>>>'', ''||='', ''...'',
     ''=='', ''!='', ''<='', ''>='', ''=>'', ''++'', ''--'', ''**'', ''+='', ''-='', ''*='', ''/='', ''<<'', ''>>'', ''||'', ''|='',
     ''+'', ''-'', ''*'', ''/'', ''<'', ''>'', ''='', ''!'', ''|'', ''.'', '','']"

definition op_at :: "string \<Rightarrow> string option" where
  "op_at s = List.find (\<lambda>p. js_starts_with p s) punctuators"

definition word_char :: "char \<Rightarrow> bool" where
  "word_char c \<longleftrightarrow> is_alpha c \<or> is_digit c \<or> c = CHR ''_''"

definition ident_char :: "char \<Rightarrow> bool" where
  "ident_char c \<longleftrightarrow> word_char c \<or> c = CHR ''$''"

definition push :: "'a \<Rightarrow> 'a list reading \<Rightarrow> 'a list reading" where
  "push x r = (case r of Ok ts \<Rightarrow> Ok (x # ts) | Bad \<Rightarrow> Bad | Outside \<Rightarrow> Outside)"

definition mark_bad :: "'a reading \<Rightarrow> 'a reading" where
  "mark_bad r = (case r of Outside \<Rightarrow> Outside | _ \<Rightarrow> Bad)"

text \<open>A decimal literal at the start of the text: its value, whether it is allowed, and the rest.\<close>

definition number_at :: "string \<Rightarrow> rat \<times> bool \<times> string" where
  "number_at s =
     (let ip = takeWhile is_digit s;
          r1 = dropWhile is_digit s;
          (fp, r2) = (case r1 of
            c # t \<Rightarrow> if c = CHR ''.'' then (takeWhile is_digit t, dropWhile is_digit t) else ([], r1)
          | [] \<Rightarrow> ([], []))
      in (of_int (digits_value 10 (ip @ fp)) * pow10 (- int (length fp)),
          \<not> (1 < length ip \<and> hd ip = CHR ''0''), r2))"

definition starts_number :: "string \<Rightarrow> bool" where
  "starts_number s = (case s of [] \<Rightarrow> False | c # t \<Rightarrow> is_digit c \<or>
     (c = CHR ''.'' \<and> (case t of [] \<Rightarrow> False | d # _ \<Rightarrow> is_digit d)))"

lemma length_dropWhile_lt: "s = c # t \<Longrightarrow> P c \<Longrightarrow> length (dropWhile P s) < length s"
  by (simp add: le_imp_less_Suc length_dropWhile_le)

lemma length_number_at: "starts_number s \<Longrightarrow> length (snd (snd (number_at s))) < length s"
proof -
  assume s: "starts_number s"
  then obtain c t where st: "s = c # t" by (cases s) (auto simp: starts_number_def)
  show ?thesis
  proof (cases "is_digit c")
    case True
    have "length (dropWhile is_digit s) < length s" using st True by (rule length_dropWhile_lt)
    moreover have "length (snd (snd (number_at s))) \<le> length (dropWhile is_digit s)"
      using length_dropWhile_le[of is_digit "tl (dropWhile is_digit s)"]
      by (auto simp: number_at_def Let_def split: list.splits prod.splits)
    ultimately show ?thesis by simp
  next
    case False
    then show ?thesis using s st length_dropWhile_le[of is_digit t]
      by (auto simp: number_at_def starts_number_def Let_def le_imp_less_Suc)
  qed
qed

lemma op_at_nonempty: "op_at s = Some p \<Longrightarrow> p \<noteq> []"
  by (auto simp: op_at_def punctuators_def split: if_splits)

function lex :: "bool \<Rightarrow> string \<Rightarrow> tok list reading" where
  "lex operand s =
     (case s of
        [] \<Rightarrow> Ok []
      | c # t \<Rightarrow>
          if c = CHR 0x0A \<or> c = CHR 0x0D then Outside
          else if is_ws c then lex operand t
          else if c = CHR 0x22 then
            (let body = takeWhile (\<lambda>d. d \<noteq> CHR 0x22) t; rest = dropWhile (\<lambda>d. d \<noteq> CHR 0x22) t
             in if CHR 0x5C \<in> set body \<or> CHR 0x0A \<in> set body \<or> CHR 0x0D \<in> set body then Outside
                else if rest = [] then Bad
                else push (TStr body) (lex True (tl rest)))
          else if starts_number s then
            (let (v, allowed, rest) = number_at s
             in if rest \<noteq> [] \<and> ident_char (hd rest) then Outside
                else if allowed then push (TNum v) (lex True rest)
                else mark_bad (lex True rest))
          else if ident_char c then
            (let word = takeWhile ident_char s
             in if word \<in> set [''true'', ''false'', ''null''] then push (TWord word) (lex True (dropWhile ident_char s))
                else Outside)
          else if c = CHR ''('' then push TLp (lex False t)
          else if c = CHR '')'' then push TRp (lex True t)
          else if c = CHR ''/'' \<and> (\<not> operand \<or> js_starts_with ''/'' t \<or> js_starts_with ''*'' t) then Outside
          else if js_starts_with ''<!--'' s then Outside
          else (case op_at s of
                  None \<Rightarrow> Outside
                | Some p \<Rightarrow>
                    if p \<in> set plain_ops then push (TOp p) (lex False (drop (length p) s))
                    else if p \<in> set assign_ops then mark_bad (lex False (drop (length p) s))
                    else Outside))"
  by pat_completeness auto
termination
proof (relation "measure (length \<circ> snd)", goal_cases)
  case 1 show ?case by simp
next
  case (2 operand s c t) then show ?case by simp
next
  case (3 operand s c t x xa)
  then show ?case using length_dropWhile_le[of "\<lambda>d. d \<noteq> CHR 0x22" t] by (simp add: le_imp_less_Suc)
next
  case (4 operand s c t x xa y xb ya)
  then show ?case using length_number_at[of s] by (auto simp: prod_eq_iff)
next
  case (5 operand s c t x xa y xb ya)
  then show ?case using length_number_at[of s] by (auto simp: prod_eq_iff)
next
  case (6 operand s c t x)
  then show ?case using length_dropWhile_lt[of s c t ident_char] by simp
next
  case (7 operand s c t) then show ?case by simp
next
  case (8 operand s c t) then show ?case by simp
next
  case (9 operand s c t p) then show ?case using op_at_nonempty[of s p] by (cases p) auto
next
  case (10 operand s c t p) then show ?case using op_at_nonempty[of s p] by (cases p) auto
qed

declare lex.simps [simp del]

section \<open>The grammar\<close>

datatype jexp =
    ENum rat | EStr string | EWord string
  | EUn string jexp
  | EBin string jexp jexp
  | ECall jexp

text \<open>
  Levels 0 to 5 are the left-associative binary operators from the comma to the products, 6 the
  prefix operators, 7 calls and primary expressions.
\<close>

definition level_ops :: "nat \<Rightarrow> string list" where
  "level_ops l = [['',''], [''||''], [''=='', ''!='', ''==='', ''!==''], [''<'', ''>'', ''<='', ''>=''],
     [''+'', ''-''], [''*'', ''/'']] ! l"

text \<open>
  Each parser returns what it has read and the remaining tokens, or \<open>None\<close> for a SyntaxError. The
  comparisons of lengths only make the recursion visibly terminating: they always hold
  (\<open>parse_consumes\<close>).
\<close>

function (sequential) parse :: "nat \<Rightarrow> tok list \<Rightarrow> (jexp \<times> tok list) option"
  and parse_tail :: "nat \<Rightarrow> jexp \<Rightarrow> tok list \<Rightarrow> (jexp \<times> tok list) option"
  and parse_calls :: "jexp \<Rightarrow> tok list \<Rightarrow> (jexp \<times> tok list) option"
  and parse_args :: "tok list \<Rightarrow> tok list option" where
  "parse l ts =
     (if l < 6 then
        (case parse (l + 1) ts of
           None \<Rightarrow> None
         | Some (e, rest) \<Rightarrow> if length rest < length ts then parse_tail l e rest else None)
      else if l = 6 then
        (case ts of
           TOp p # rest \<Rightarrow>
             if p \<in> set [''+'', ''-'', ''!''] then map_option (\<lambda>(e, r). (EUn p e, r)) (parse 6 rest) else None
         | _ \<Rightarrow> parse 7 ts)
      else
        (case ts of
           TNum n # rest \<Rightarrow> parse_calls (ENum n) rest
         | TStr s # rest \<Rightarrow> parse_calls (EStr s) rest
         | TWord w # rest \<Rightarrow> parse_calls (EWord w) rest
         | TLp # rest \<Rightarrow>
             (case parse 0 rest of
                Some (e, TRp # r) \<Rightarrow> if length r < length rest then parse_calls e r else None
              | _ \<Rightarrow> None)
         | _ \<Rightarrow> None))"
| "parse_tail l e ts =
     (case ts of
        TOp p # rest \<Rightarrow>
          if l < 6 \<and> p \<in> set (level_ops l) then
            (case parse (l + 1) rest of
               None \<Rightarrow> None
             | Some (e2, r) \<Rightarrow> if length r < length rest then parse_tail l (EBin p e e2) r else None)
          else Some (e, ts)
      | _ \<Rightarrow> Some (e, ts))"
| "parse_calls e ts =
     (case ts of
        TLp # rest \<Rightarrow>
          (case parse_args rest of
             None \<Rightarrow> None
           | Some r \<Rightarrow> if length r < length rest then parse_calls (ECall e) r else None)
      | _ \<Rightarrow> Some (e, ts))"
| "parse_args ts =
     (case ts of
        TRp # rest \<Rightarrow> Some rest
      | _ \<Rightarrow>
          (case parse 1 ts of
             Some (e, TRp # r) \<Rightarrow> Some r
           | Some (e, TOp p # r) \<Rightarrow> if p = '','' \<and> length r < length ts then parse_args r else None
           | _ \<Rightarrow> None))"
  by pat_completeness auto
termination
  by (relation "measure (\<lambda>x. case x of
       Inl (Inl (l, ts)) \<Rightarrow> 10 * length ts + (8 - l)
     | Inl (Inr (l, e, ts)) \<Rightarrow> 10 * length ts + 9
     | Inr (Inl (e, ts)) \<Rightarrow> 10 * length ts + 9
     | Inr (Inr ts) \<Rightarrow> 10 * length ts + 9)") auto

declare parse.simps [simp del] parse_tail.simps [simp del] parse_calls.simps [simp del] parse_args.simps [simp del]

section \<open>Evaluation\<close>

definition word_value :: "string \<Rightarrow> jval" where
  "word_value w = (if w = ''true'' then JBool True else if w = ''false'' then JBool False else JNull)"

definition unary_value :: "string \<Rightarrow> jval \<Rightarrow> jval" where
  "unary_value p v =
     (if p = ''-'' then JNum (jneg (jval_number v))
      else if p = ''+'' then JNum (jval_number v)
      else JBool (\<not> jval_truthy v))"

definition is_jstr :: "jval \<Rightarrow> bool" where
  "is_jstr v = (case v of JStr s \<Rightarrow> True | JOther s \<Rightarrow> True | _ \<Rightarrow> False)"

definition binary_value :: "string \<Rightarrow> jval \<Rightarrow> jval \<Rightarrow> jval" where
  "binary_value p a b =
     (if p = ''+'' then
        if is_jstr a \<or> is_jstr b then JStr (jval_text a @ jval_text b) else JNum (jadd (jval_number a) (jval_number b))
      else if p = ''-'' then JNum (jsub (jval_number a) (jval_number b))
      else if p = ''*'' then JNum (jmul (jval_number a) (jval_number b))
      else if p = ''/'' then JNum (jdiv (jval_number a) (jval_number b))
      else if p = ''<'' then JBool (jval_less a b)
      else if p = ''>'' then JBool (jval_less b a)
      else if p = ''<='' then JBool (jval_less_eq a b)
      else if p = ''>='' then JBool (jval_less_eq b a)
      else if p = ''=='' then JBool (loose_equal a b)
      else if p = ''!='' then JBool (\<not> loose_equal a b)
      else if p = ''==='' then JBool (strict_equal a b)
      else if p = ''!=='' then JBool (\<not> strict_equal a b)
      else b)"

text \<open>A call has no function to call in these expressions: it throws a TypeError.\<close>

fun jeval :: "jexp \<Rightarrow> jval option" where
  "jeval (ENum n) = Some (JNum (Fin n))"
| "jeval (EStr s) = Some (JStr s)"
| "jeval (EWord w) = Some (word_value w)"
| "jeval (EUn p e) = map_option (unary_value p) (jeval e)"
| "jeval (EBin p e f) =
     (case jeval e of
        None \<Rightarrow> None
      | Some a \<Rightarrow>
          if p = ''||'' \<and> jval_truthy a then Some a
          else map_option (binary_value p a) (jeval f))"
| "jeval (ECall e) = None"

definition js_run :: "(string \<Rightarrow> js_result) \<Rightarrow> string \<Rightarrow> js_result" where
  "js_run outside text =
     (case lex False (''('' @ text @ '')'') of
        Outside \<Rightarrow> outside text
      | Bad \<Rightarrow> Throws
      | Ok ts \<Rightarrow>
          (case parse 0 ts of
             Some (e, []) \<Rightarrow> (case jeval e of Some v \<Rightarrow> Returns v | None \<Rightarrow> Throws)
           | _ \<Rightarrow> Throws))"

section \<open>The parsers consume their input\<close>

lemma parse_tail_length: "parse_tail l d ts = Some (e, r) \<Longrightarrow> length r \<le> length ts"
proof (induction ts arbitrary: d rule: length_induct)
  case (1 ts)
  note eq = "1.prems"[unfolded parse_tail.simps[of l d ts]]
  show ?case
  proof (cases "\<exists>p rest. ts = TOp p # rest \<and> l < 6 \<and> p \<in> set (level_ops l)")
    case True
    then obtain p rest where t: "ts = TOp p # rest" "l < 6 \<and> p \<in> set (level_ops l)" by blast
    with eq obtain f r' where "length r' < length rest" "parse_tail l (EBin p d f) r' = Some (e, r)"
      by (auto split: option.splits if_splits)
    moreover have "length r' < length ts" using t(1) calculation by simp
    ultimately have "length r \<le> length r'" using "1.IH" by blast
    with \<open>length r' < length ts\<close> show ?thesis by simp
  next
    case False
    with eq show ?thesis by (auto split: list.splits tok.splits if_splits)
  qed
qed

lemma parse_calls_length: "parse_calls d ts = Some (e, r) \<Longrightarrow> length r \<le> length ts"
proof (induction ts arbitrary: d rule: length_induct)
  case (1 ts)
  note eq = "1.prems"[unfolded parse_calls.simps[of d ts]]
  show ?case
  proof (cases "\<exists>rest. ts = TLp # rest")
    case True
    then obtain rest where t: "ts = TLp # rest" by blast
    with eq obtain r' where "length r' < length rest" "parse_calls (ECall d) r' = Some (e, r)"
      by (auto split: option.splits if_splits)
    moreover have "length r' < length ts" using t calculation by simp
    ultimately have "length r \<le> length r'" using "1.IH" by blast
    with \<open>length r' < length ts\<close> show ?thesis by simp
  next
    case False
    with eq show ?thesis by (auto split: list.splits tok.splits)
  qed
qed

lemma parse_primary_length: "parse 7 ts = Some (e, r) \<Longrightarrow> length r < length ts"
  by (subst (asm) parse.simps)
    (auto split: list.splits tok.splits option.splits if_splits dest!: parse_calls_length)

lemma parse_6_other: "(\<And>p. a \<noteq> TOp p) \<Longrightarrow> parse 6 (a # ts) = parse 7 (a # ts)"
  by (subst parse.simps) (cases a, auto)

lemma parse_prefix_length: "parse 6 ts = Some (e, r) \<Longrightarrow> length r < length ts"
proof (induction ts arbitrary: e)
  case Nil
  then show ?case using parse_primary_length[of "[]"] by (simp add: parse.simps[of 6 "[]"])
next
  case (Cons a ts)
  show ?case
  proof (cases a)
    case (TOp p)
    with Cons.prems obtain d where "parse 6 ts = Some (d, r)"
      by (auto simp: parse.simps[of 6 "TOp p # ts"] split: if_splits)
    with Cons.IH show ?thesis by fastforce
  qed (metis Cons.prems parse_primary_length parse_6_other tok.distinct)+
qed

lemma parse_consumes: "l < 8 \<Longrightarrow> parse l ts = Some (e, r) \<Longrightarrow> length r < length ts"
proof -
  assume l: "l < 8" and p: "parse l ts = Some (e, r)"
  consider "l < 6" | "l = 6" | "l = 7" using l by linarith
  then show ?thesis
  proof cases
    case 1
    with p show ?thesis
      by (subst (asm) parse.simps) (auto split: option.splits if_splits dest!: parse_tail_length)
  qed (use p parse_prefix_length parse_primary_length in blast)+
qed

lemma parse_args_consumes: "parse_args ts = Some r \<Longrightarrow> length r < length ts"
proof (induction ts rule: length_induct)
  case (1 ts)
  note eq = "1.prems"[unfolded parse_args.simps[of ts]]
  show ?case
  proof (cases "\<exists>rest. ts = TRp # rest")
    case True
    with eq show ?thesis by auto
  next
    case False
    then have "(case parse 1 ts of
             Some (e, TRp # r) \<Rightarrow> Some r
           | Some (e, TOp p # r) \<Rightarrow> if p = '','' \<and> length r < length ts then parse_args r else None
           | _ \<Rightarrow> None) = Some r"
      using eq by (cases ts) (auto split: tok.splits)
    then consider e where "parse 1 ts = Some (e, TRp # r)"
      | e p r' where "parse 1 ts = Some (e, TOp p # r')" "length r' < length ts" "parse_args r' = Some r"
      by (auto split: option.splits prod.splits list.splits tok.splits if_splits)
    then show ?thesis
    proof cases
      case 1
      then show ?thesis using parse_consumes[of 1 ts] by fastforce
    next
      case 2
      then show ?thesis using "1.IH" by fastforce
    qed
  qed
qed

end
