(* ===== verification/FormulaText.thy ===== *)
theory FormulaText
  imports JsExpr
begin

text \<open>
  The formula evaluator works on text: it finds pieces of a formula with regular expressions and
  puts values in their place. This theory has the matchers of those expressions
  (\<^verbatim>\<open>frontend/src/lib/spreadsheet/formulas.ts\<close>), references to cells, sheets and tables
  (\<^verbatim>\<open>formula-sheet-refs.ts\<close>, \<^verbatim>\<open>formula-table-refs.ts\<close>), the splitting of arguments, and the
  criteria of COUNTIF and its kin.

  A matcher gets the character before the position and the text from the position, and says how
  many characters match there. Every expression here is such that its first match in backtracking
  order is the only one, so a matcher needs no backtracking.
\<close>

section \<open>Replacing all matches\<close>

type_synonym matcher = "char option \<Rightarrow> string \<Rightarrow> nat option"

datatype seg = Keep char | Hit string

function segs :: "matcher \<Rightarrow> char option \<Rightarrow> string \<Rightarrow> seg list" where
  "segs m prev [] = []"
| "segs m prev (c # s) =
     (case m prev (c # s) of
        Some (Suc n) \<Rightarrow> Hit (take (Suc n) (c # s)) # segs m (Some (last (take (Suc n) (c # s)))) (drop n s)
      | _ \<Rightarrow> Keep c # segs m (Some c) s)"
  by pat_completeness auto
termination by (relation "measure (length \<circ> snd \<circ> snd)") auto

definition seg_text :: "(string \<Rightarrow> string) \<Rightarrow> seg \<Rightarrow> string" where
  "seg_text f x = (case x of Keep c \<Rightarrow> [c] | Hit h \<Rightarrow> f h)"

definition re_replace :: "matcher \<Rightarrow> (string \<Rightarrow> string) \<Rightarrow> string \<Rightarrow> string" where
  "re_replace m f s = concat (map (seg_text f) (segs m None s))"

definition hits :: "seg list \<Rightarrow> string list" where
  "hits xs = List.map_filter (\<lambda>x. case x of Hit h \<Rightarrow> Some h | Keep c \<Rightarrow> None) xs"

text \<open>The \<open>i\<close>-th match replaced by \<open>f i\<close>.\<close>

fun numbered :: "(int \<Rightarrow> string) \<Rightarrow> int \<Rightarrow> seg list \<Rightarrow> string" where
  "numbered f i [] = []"
| "numbered f i (Keep c # xs) = c # numbered f i xs"
| "numbered f i (Hit h # xs) = f i @ numbered f (i + 1) xs"

section \<open>The expressions\<close>

definition dquote :: char where "dquote = CHR 0x22"

definition is_name_start :: "char \<Rightarrow> bool" where
  "is_name_start c \<longleftrightarrow> is_alpha c \<or> c = CHR ''_''"

text \<open>\<open>"([^"]*)"\<close>\<close>

definition m_string :: matcher where
  "m_string prev s =
     (case s of
        [] \<Rightarrow> None
      | c # t \<Rightarrow>
          let body = takeWhile (\<lambda>d. d \<noteq> dquote) t
          in if c = dquote \<and> length body < length t then Some (length body + 2) else None)"

text \<open>\<open>__STR\d+__\<close> and the digits in it.\<close>

definition m_str_mark :: matcher where
  "m_str_mark prev s =
     (let digits = takeWhile is_digit (drop 5 s)
      in if js_starts_with ''__STR'' s \<and> digits \<noteq> [] \<and> js_starts_with ''__'' (drop (5 + length digits) s)
         then Some (5 + length digits + 2) else None)"

definition mark_index :: "string \<Rightarrow> int" where
  "mark_index h = digits_value 10 (takeWhile is_digit (drop 5 h))"

text \<open>The rest of a call after its opening parenthesis: at most one more level of parentheses inside.\<close>

fun call_tail :: "bool \<Rightarrow> string \<Rightarrow> nat option" where
  "call_tail inner [] = None"
| "call_tail inner (c # s) =
     (if inner then
        if c = CHR ''('' then None
        else map_option Suc (call_tail (c \<noteq> CHR '')'') s)
      else if c = CHR '')'' then Some 1
      else map_option Suc (call_tail (c = CHR ''('') s))"

definition call_char :: "char \<Rightarrow> bool" where
  "call_char c \<longleftrightarrow> word_char c \<or> c = CHR ''.''"

text \<open>\<open>([A-Za-z_][A-Za-z0-9_.]*)\(([^()]*(?:\([^()]*\)[^()]*)*)\)\<close>\<close>

definition m_call :: matcher where
  "m_call prev s =
     (let name = takeWhile call_char s; rest = dropWhile call_char s
      in if name \<noteq> [] \<and> is_name_start (hd name) \<and> js_starts_with ''('' rest
         then map_option (\<lambda>n. length name + 1 + n) (call_tail False (drop 1 rest)) else None)"

definition call_name :: "string \<Rightarrow> string" where
  "call_name h = takeWhile call_char h"

definition call_args :: "string \<Rightarrow> string" where
  "call_args h = butlast (drop (length (call_name h) + 1) h)"

text \<open>\<open>[A-Za-z]+\d+\<close>, and the same with optional \<open>$\<close> before both parts.\<close>

definition m_cell :: matcher where
  "m_cell prev s =
     (let letters = takeWhile is_alpha s; digits = takeWhile is_digit (dropWhile is_alpha s)
      in if letters \<noteq> [] \<and> digits \<noteq> [] then Some (length letters + length digits) else None)"

definition m_dollar_cell :: matcher where
  "m_dollar_cell prev s =
     (let t = drop_dollar s;
          letters = takeWhile is_alpha t;
          u = drop_dollar (dropWhile is_alpha t);
          digits = takeWhile is_digit u
      in if letters \<noteq> [] \<and> digits \<noteq> [] then Some (length s - length u + length digits) else None)"

text \<open>Two references with a colon between them.\<close>

definition m_pair :: "matcher \<Rightarrow> matcher" where
  "m_pair m prev s =
     (case m prev s of
        None \<Rightarrow> None
      | Some n \<Rightarrow>
          (case drop n s of
             c # t \<Rightarrow> if c = CHR '':'' then map_option (\<lambda>k. n + 1 + k) (m None t) else None
           | [] \<Rightarrow> None))"

text \<open>The length of the rest of a quoted sheet name, with its closing quote; \<open>''\<close> stands for a quote.\<close>

fun quoted_tail :: "string \<Rightarrow> nat option" where
  "quoted_tail [] = None"
| "quoted_tail [c] = (if c = CHR 0x27 then Some 1 else None)"
| "quoted_tail (c # d # s) =
     (if c = CHR 0x27 then
        if d = CHR 0x27 then map_option (\<lambda>n. n + 2) (quoted_tail s) else Some 1
      else map_option Suc (quoted_tail (d # s)))"

text \<open>\<open>(?:'[^']*(?:''[^']*)*'|[A-Za-z0-9_]+)!\<close>\<close>

definition m_sheet :: matcher where
  "m_sheet prev s =
     (let n = (case s of
          [] \<Rightarrow> None
        | c # t \<Rightarrow> if c = CHR 0x27 then map_option Suc (quoted_tail t)
            else if word_char c then Some (length (takeWhile word_char s)) else None)
      in case n of
           None \<Rightarrow> None
         | Some k \<Rightarrow> if js_starts_with ''!'' (drop k s) then Some (k + 1) else None)"

definition m_qualified :: "matcher \<Rightarrow> matcher" where
  "m_qualified m prev s =
     (case m_sheet prev s of None \<Rightarrow> None | Some k \<Rightarrow> map_option (\<lambda>n. k + n) (m None (drop k s)))"

text \<open>\<open>SHEET_QUALIFIED_RANGE_PATTERN\<close>, \<open>SHEET_QUALIFIED_CELL_PATTERN\<close> and the two on the active sheet.\<close>

definition sheet_qualified_range :: matcher where "sheet_qualified_range = m_qualified (m_pair m_dollar_cell)"
definition sheet_qualified_cell :: matcher where "sheet_qualified_cell = m_qualified m_dollar_cell"
definition m_range :: matcher where "m_range = m_pair m_cell"

text \<open>A word in any case, with word boundaries on both sides.\<close>

definition at_boundary :: "char option \<Rightarrow> bool" where
  "at_boundary c \<longleftrightarrow> (case c of None \<Rightarrow> True | Some d \<Rightarrow> \<not> word_char d)"

definition first_char :: "string \<Rightarrow> char option" where
  "first_char s = (case s of [] \<Rightarrow> None | c # t \<Rightarrow> Some c)"

definition m_word :: "string \<Rightarrow> matcher" where
  "m_word w prev s =
     (let n = length w
      in if js_lower (take n s) = js_lower w \<and> at_boundary prev \<and> at_boundary (first_char (drop n s))
         then Some n else None)"

section \<open>References (formulas.ts, formula-sheet-refs.ts, formula-table-refs.ts)\<close>

definition parseCellRef :: "string \<Rightarrow> cell_address option" where
  "parseCellRef raw =
     (let t = drop_dollar (js_trim raw);
          letters = takeWhile is_alpha t;
          digits = drop_dollar (dropWhile is_alpha t)
      in if letters = [] \<or> digits = [] \<or> \<not> list_all is_digit digits then None
         else case columnLettersToIndex (js_upper letters) of
                None \<Rightarrow> None
              | Some c \<Rightarrow>
                  let r = digits_value 10 digits - 1
                  in if r < 0 then None else Some \<lparr>row = r, col = c\<rparr>)"

definition parseRangeRef :: "string \<Rightarrow> cell_range option" where
  "parseRangeRef raw =
     (case js_split '':'' raw of
        [a, b] \<Rightarrow>
          (case (parseCellRef a, parseCellRef b) of
             (Some s, Some e) \<Rightarrow> Some (normalizeRange \<lparr>rstart = s, rend = e\<rparr>)
           | _ \<Rightarrow> None)
      | _ \<Rightarrow> None)"

definition last_bang :: "string \<Rightarrow> int" where
  "last_bang s = (if CHR ''!'' \<in> set s then int (length s) - 1 - int (length (takeWhile (\<lambda>c. c \<noteq> CHR ''!'') (rev s))) else -1)"

definition index_or :: "nat option \<Rightarrow> int \<Rightarrow> int" where
  "index_or i d = (case i of None \<Rightarrow> d | Some k \<Rightarrow> int k)"

definition splitSheetQualifiedToken :: "string \<Rightarrow> sheet list \<Rightarrow> int \<Rightarrow> int \<times> string" where
  "splitSheetQualifiedToken raw ss active =
     (let trimmed = js_trim raw; bang = last_bang trimmed
      in if bang < 0 then (active, trimmed)
         else
           let s0 = js_trim (take (nat bang) trimmed);
               sheetName = (if js_starts_with [CHR 0x27] s0 \<and> js_starts_with [CHR 0x27] (rev s0)
                 then js_join [CHR 0x27] (js_split [CHR 0x27, CHR 0x27] (js_slice s0 1 (-1))) else s0)
           in (index_or (find_index (\<lambda>s. js_lower (name s) = js_lower sheetName) ss) active,
               js_trim (drop (nat bang + 1) trimmed)))"

definition parseCellRefPart :: "string \<Rightarrow> cell_address option" where
  "parseCellRefPart refPart =
     (let t = drop_dollars refPart
      in if t \<noteq> [] \<and> (is_ws (hd t) \<or> is_ws (last t)) then None else parseCellRef t)"

definition parseRangeRefPart :: "string \<Rightarrow> cell_range option" where
  "parseRangeRefPart refPart =
     (case js_split '':'' refPart of
        [a, b] \<Rightarrow>
          (case (parseCellRefPart a, parseCellRefPart b) of
             (Some s, Some e) \<Rightarrow> Some (normalizeRange \<lparr>rstart = s, rend = e\<rparr>)
           | _ \<Rightarrow> None)
      | _ \<Rightarrow> None)"

text \<open>The sheet, and a range or a cell on it.\<close>

definition resolveSheetQualifiedRef :: "string \<Rightarrow> sheet list \<Rightarrow> int \<Rightarrow> (int \<times> (cell_range + cell_address)) option" where
  "resolveSheetQualifiedRef raw ss active =
     (let (i, refPart) = splitSheetQualifiedToken raw ss active
      in case parseRangeRefPart (drop_dollars refPart) of
           Some r \<Rightarrow> Some (i, Inl r)
         | None \<Rightarrow> map_option (\<lambda>c. (i, Inr c)) (parseCellRefPart refPart))"

text \<open>\<open>^([A-Za-z_][A-Za-z0-9_]*)\[([^\]]+)\]$\<close>: the table's and the column's name.\<close>

definition parseTableColumnRef :: "string \<Rightarrow> (string \<times> string) option" where
  "parseTableColumnRef raw =
     (let t = js_trim raw;
          tname = takeWhile word_char t;
          rest = dropWhile word_char t;
          body = takeWhile (\<lambda>c. c \<noteq> CHR '']'') (drop 1 rest)
      in if tname \<noteq> [] \<and> is_name_start (hd tname) \<and> js_starts_with ''['' rest \<and> body \<noteq> []
            \<and> drop (1 + length body) rest = '']''
         then Some (tname, js_trim body) else None)"

definition header_text :: "sheet_cell list \<Rightarrow> int \<Rightarrow> string" where
  "header_text line c = (case nth_opt line c of None \<Rightarrow> [] | Some x \<Rightarrow> js_trim (display x))"

text \<open>The table's bounds and the column.\<close>

definition resolveTableColumnIndex :: "sheet \<Rightarrow> string \<Rightarrow> string \<Rightarrow> (region \<times> int) option" where
  "resolveTableColumnIndex s tableName columnName =
     (case List.find (\<lambda>t. js_lower (tb_name t) = js_lower tableName) (case tables s of None \<Rightarrow> [] | Some ts \<Rightarrow> ts) of
        None \<Rightarrow> None
      | Some t \<Rightarrow>
          (case nth_opt (rows s) (startRow (tb_bounds t)) of
             None \<Rightarrow> None
           | Some line \<Rightarrow>
               map_option (Pair (tb_bounds t))
                 (List.find (\<lambda>c. js_lower (header_text line c) = js_lower columnName)
                   [startCol (tb_bounds t)..endCol (tb_bounds t)])))"

section \<open>Arguments (splitFunctionArgs)\<close>

text \<open>\<open>current\<close> is kept reversed. The depth can become negative.\<close>

fun split_args :: "string \<Rightarrow> int \<Rightarrow> bool \<Rightarrow> string \<Rightarrow> string list" where
  "split_args current depth inString [] =
     (if js_trim (rev current) = [] then [] else [rev current])"
| "split_args current depth inString (c # s) =
     (if c = dquote then split_args (c # current) depth (\<not> inString) s
      else
        let d = (if \<not> inString \<and> c = CHR ''('' then depth + 1
                 else if \<not> inString \<and> c = CHR '')'' then depth - 1 else depth)
        in if \<not> inString \<and> d = 0 \<and> (c = CHR '','' \<or> c = CHR '';'')
           then rev current # split_args [] d inString s
           else split_args (c # current) d inString s)"

definition splitFunctionArgs :: "string \<Rightarrow> string list" where
  "splitFunctionArgs raw = split_args [] 0 False raw"

text \<open>\<open>parts[i]?.trim() ?? ""\<close>.\<close>

definition part :: "string list \<Rightarrow> int \<Rightarrow> string" where
  "part ps i = (case nth_opt ps i of None \<Rightarrow> [] | Some p \<Rightarrow> js_trim p)"

section \<open>Criteria (countIfValues)\<close>

text \<open>\<open>s.replace(/^"|"$/g, "")\<close>.\<close>

definition strip_quotes :: "string \<Rightarrow> string" where
  "strip_quotes s =
     (let t = (case s of c # u \<Rightarrow> if c = dquote then u else s | [] \<Rightarrow> [])
      in if t \<noteq> [] \<and> last t = dquote then butlast t else t)"

definition is_newline :: "char \<Rightarrow> bool" where
  "is_newline c \<longleftrightarrow> c = CHR 0x0A \<or> c = CHR 0x0D"

text \<open>\<open>^(<>|>=|<=|>|<|=)(.+)$\<close>: the operator and the rest.\<close>

definition op_match :: "string \<Rightarrow> (string \<times> string) option" where
  "op_match s =
     map_option (\<lambda>p. (p, drop (length p) s))
       (List.find (\<lambda>p. js_starts_with p s \<and> length p < length s \<and> \<not> list_ex is_newline (drop (length p) s))
         [''<>'', ''>='', ''<='', ''>'', ''<'', ''=''])"

text \<open>The expression built from a text with wildcards, matched against the whole value in any case.\<close>

fun glob :: "string \<Rightarrow> string \<Rightarrow> bool" where
  "glob [] s = (s = [])"
| "glob (p # ps) [] = (p = CHR ''*'' \<and> glob ps [])"
| "glob (p # ps) (c # s) =
     (if p = CHR ''*'' then glob ps (c # s) \<or> (\<not> is_newline c \<and> glob (p # ps) s)
      else if p = CHR ''?'' then \<not> is_newline c \<and> glob ps s
      else lower_char p = lower_char c \<and> glob ps s)"

text \<open>A value that is compared can be \<open>undefined\<close>, when the ranges of SUMIFS differ in size.\<close>

definition value_text :: "fval option \<Rightarrow> string" where
  "value_text v = (case v of None \<Rightarrow> [] | Some x \<Rightarrow> val_text x)"

definition value_number :: "fval option \<Rightarrow> rat option" where
  "value_number v = (case v of None \<Rightarrow> None | Some x \<Rightarrow> fin_of (coerceNumber x))"

definition compare_criteria :: "string \<Rightarrow> string \<Rightarrow> fval option \<Rightarrow> bool" where
  "compare_criteria p rawTarget v =
     (let target = js_number (strip_money rawTarget); num = value_number v in
      if p = ''<>'' \<or> p = ''='' then
        (let equal = (case (target, num) of
             (Some t, Some n) \<Rightarrow> n = t
           | _ \<Rightarrow> js_lower (value_text v) = js_lower rawTarget)
         in if p = ''='' then equal else \<not> equal)
      else case (target, num) of
             (Some t, Some n) \<Rightarrow>
               if p = ''>'' then n > t else if p = ''>='' then n \<ge> t else if p = ''<'' then n < t else n \<le> t
           | _ \<Rightarrow> False)"

definition matches_criteria :: "string \<Rightarrow> fval option \<Rightarrow> bool" where
  "matches_criteria criteria v =
     (let trimmed = strip_quotes (js_trim criteria) in
      case op_match trimmed of
        Some (p, rest) \<Rightarrow> compare_criteria p (strip_quotes (js_trim rest)) v
      | None \<Rightarrow>
          if CHR ''*'' \<in> set trimmed \<or> CHR ''?'' \<in> set trimmed then glob trimmed (value_text v)
          else js_lower (value_text v) = js_lower trimmed)"

definition countIfValues :: "fval list \<Rightarrow> string \<Rightarrow> int" where
  "countIfValues vs criteria = int (length (filter (\<lambda>v. matches_criteria criteria (Some v)) vs))"

section \<open>Names bound by LET (applyLetBindings)\<close>

text \<open>A dot in a name is any character for the regular expression.\<close>

definition name_char_matches :: "char \<Rightarrow> char \<Rightarrow> bool" where
  "name_char_matches p c \<longleftrightarrow> (if p = CHR ''.'' then \<not> is_newline c else lower_char p = lower_char c)"

definition m_bound :: "string \<Rightarrow> matcher" where
  "m_bound w prev s =
     (let n = length w; h = take n s; after = first_char (drop n s)
      in if n \<noteq> 0 \<and> list_all2 name_char_matches w h \<and> at_boundary prev \<and>
            (at_boundary (Some (last h)) \<noteq> at_boundary after)
         then Some n else None)"

text \<open>\<open>text.replace(pattern, value)\<close>, with the patterns that begin with \<open>$\<close> in the value; \<open>pre\<close> is
  what has been read, reversed.\<close>

fun replace_bound :: "matcher \<Rightarrow> string \<Rightarrow> string \<Rightarrow> nat \<Rightarrow> string \<Rightarrow> string" where
  "replace_bound m value pre skip [] = []"
| "replace_bound m value pre skip (c # s) =
     (if skip > 0 then replace_bound m value (c # pre) (skip - 1) s
      else case m (first_char pre) (c # s) of
             Some (Suc n) \<Rightarrow>
               expand_replacement (take (Suc n) (c # s)) (rev pre) (drop (Suc n) (c # s)) value @
               replace_bound m value (c # pre) n s
           | _ \<Rightarrow> c # replace_bound m value (c # pre) 0 s)"

definition applyLetBindings :: "string \<Rightarrow> (string \<times> string) list \<Rightarrow> string" where
  "applyLetBindings expr bindings =
     foldl (\<lambda>e (n, v). replace_bound (m_bound n) (''('' @ v @ '')'') [] 0 e) expr bindings"

text \<open>\<open>bindings.set(n, v)\<close>: a Map keeps the position of a key that it has.\<close>

definition set_binding :: "string \<Rightarrow> string \<Rightarrow> (string \<times> string) list \<Rightarrow> (string \<times> string) list" where
  "set_binding n v bs =
     (if n \<in> fst ` set bs then map (\<lambda>(k, w). if k = n then (k, v) else (k, w)) bs else bs @ [(n, v)])"

text \<open>\<open>^[A-Za-z_][A-Za-z0-9_.]*$\<close>\<close>

definition is_let_name :: "string \<Rightarrow> bool" where
  "is_let_name s \<longleftrightarrow> s \<noteq> [] \<and> is_name_start (hd s) \<and> list_all call_char s"

section \<open>The last steps before evaluation\<close>

text \<open>\<open>=\<close> between characters other than \<open>< > = !\<close> and before one other than \<open>=\<close> becomes \<open>===\<close>.\<close>

fun triple_equals :: "string \<Rightarrow> string" where
  "triple_equals (a # b # c # s) =
     (if a \<notin> set ''<>=!'' \<and> b = CHR ''='' \<and> c \<noteq> CHR ''=''
      then a # ''==='' @ c # triple_equals s
      else a # triple_equals (b # c # s))"
| "triple_equals s = s"

definition leading_equals :: "string \<Rightarrow> string" where
  "leading_equals s =
     (case s of
        a # c # t \<Rightarrow> if a = CHR ''='' \<and> c \<noteq> CHR ''='' then ''==='' @ c # t else s
      | _ \<Rightarrow> s)"

fun not_equals :: "string \<Rightarrow> string" where
  "not_equals (a # b # s) =
     (if a = CHR ''<'' \<and> b = CHR ''>'' then ''!=='' @ not_equals s else a # not_equals (b # s))"
| "not_equals s = s"

definition to_js :: "string \<Rightarrow> string" where
  "to_js s = leading_equals (triple_equals (not_equals s))"

text \<open>What the text may contain outside its strings, once \<open>true\<close>, \<open>false\<close> and \<open>null\<close> are put aside.\<close>

definition allowed_char :: "char \<Rightarrow> bool" where
  "allowed_char c \<longleftrightarrow> is_digit c \<or> is_ws c \<or> c \<in> set ''+-*/().,<>!=&|'' \<or> c = dquote"

definition sanitized :: "string \<Rightarrow> string" where
  "sanitized s =
     re_replace (m_word ''null'') (\<lambda>_. ''0'') (re_replace (m_word ''false'') (\<lambda>_. ''0'')
       (re_replace (m_word ''true'') (\<lambda>_. ''0'') (re_replace m_string (\<lambda>_. [dquote, dquote]) s)))"

definition is_clean :: "string \<Rightarrow> bool" where
  "is_clean s \<longleftrightarrow> list_all allowed_char (sanitized s)"

section \<open>AutoSum\<close>

definition buildAutoSumFormula :: "cell_range \<Rightarrow> string" where
  "buildAutoSumFormula r =
     (let n = normalizeRange r;
          startLabel = columnIndexToLetters (col (rstart n)) @ show_int (row (rstart n) + 1);
          endLabel = columnIndexToLetters (col (rend n)) @ show_int (row (rend n) + 1)
      in if startLabel = endLabel then ''='' @ startLabel else ''=SUM('' @ startLabel @ '':'' @ endLabel @ '')'')"

section \<open>Character codes\<close>

lemma digit_code: "is_digit c \<longleftrightarrow> 48 \<le> (of_char c :: nat) \<and> (of_char c :: nat) \<le> 57"
  unfolding is_digit_def digit_of_def int_of_char by (auto simp: Let_def)

lemma alpha_code: "is_alpha c \<longleftrightarrow> (65 \<le> (of_char c :: nat) \<and> (of_char c :: nat) \<le> 90) \<or> (97 \<le> (of_char c :: nat) \<and> (of_char c :: nat) \<le> 122)"
  unfolding is_alpha_def int_of_char by (auto simp: Let_def)

lemma upper_code: "is_upper c \<longleftrightarrow> 65 \<le> (of_char c :: nat) \<and> (of_char c :: nat) \<le> 90"
  unfolding is_upper_def int_of_char by (auto simp: Let_def)

end
