(* ===== verification/FormulaDates.thy ===== *)
theory FormulaDates
  imports FormulaText
begin

text \<open>
  The calendar arithmetic behind the date functions of \<^verbatim>\<open>frontend/src/lib/spreadsheet/formula-extended.ts\<close>: JavaScript's
  \<open>Date\<close> in UTC on whole days, as the standard defines it, and the functions of serial day numbers
  that are built on it (serial 25569 is 1970-01-01).
\<close>

section \<open>Days and years\<close>

definition day_from_year :: "int \<Rightarrow> int" where
  "day_from_year y = 365 * (y - 1970) + (y - 1969) div 4 - (y - 1901) div 100 + (y - 1601) div 400"

definition is_leap :: "int \<Rightarrow> bool" where
  "is_leap y \<longleftrightarrow> y mod 4 = 0 \<and> (y mod 100 \<noteq> 0 \<or> y mod 400 = 0)"

text \<open>The year of a day: an estimate that is at most one year off, corrected.\<close>

definition year_from_day :: "int \<Rightarrow> int" where
  "year_from_day d =
     (let y = 1970 + (400 * d) div 146097
      in if day_from_year (y + 1) \<le> d then y + 1 else if d < day_from_year y then y - 1 else y)"

definition month_starts :: "int list" where
  "month_starts = [0, 31, 59, 90, 120, 151, 181, 212, 243, 273, 304, 334]"

text \<open>The days of a year before its month \<open>m\<close> (0 to 11).\<close>

definition month_start :: "int \<Rightarrow> int \<Rightarrow> int" where
  "month_start y m = month_starts ! nat m + (if 2 \<le> m \<and> is_leap y then 1 else 0)"

definition month_from_day :: "int \<Rightarrow> int" where
  "month_from_day d =
     (let y = year_from_day d; k = d - day_from_year y
      in int (length (takeWhile (\<lambda>m. month_start y m \<le> k) [0..11])) - 1)"

definition date_from_day :: "int \<Rightarrow> int" where
  "date_from_day d = d - day_from_year (year_from_day d) - month_start (year_from_day d) (month_from_day d) + 1"

text \<open>\<open>MakeDay\<close>: month and date may lie outside their ranges.\<close>

definition make_day :: "int \<Rightarrow> int \<Rightarrow> int \<Rightarrow> int" where
  "make_day y m dt = day_from_year (y + m div 12) + month_start (y + m div 12) (m mod 12) + dt - 1"

definition week_day :: "int \<Rightarrow> int" where
  "week_day d = (4 + d) mod 7"

text \<open>\<open>new Date((serial - 25569) * 86400 * 1000)\<close>: the time, or \<open>None\<close> for an invalid date.\<close>

definition time_clip :: "int \<Rightarrow> int option" where
  "time_clip t = (if \<bar>t\<bar> \<le> 8640000000000000 then Some t else None)"

definition serial_time :: "jsn \<Rightarrow> int option" where
  "serial_time x = (case x of Fin s \<Rightarrow> time_clip (math_trunc ((s - 25569) * 86400 * 1000)) | _ \<Rightarrow> None)"

definition day_of :: "int \<Rightarrow> int" where
  "day_of t = t div 86400000"

text \<open>\<open>Date.UTC(y, ..)\<close> takes the years 0 to 99 for 1900 to 1999.\<close>

definition utc_year :: "int \<Rightarrow> int" where
  "utc_year y = (if 0 \<le> y \<and> y \<le> 99 then 1900 + y else y)"

section \<open>The date functions\<close>

definition int_or_nan :: "int option \<Rightarrow> jsn" where
  "int_or_nan x = (case x of Some i \<Rightarrow> Fin (of_int i) | None \<Rightarrow> NaN)"

definition weekday_fn :: "jsn \<Rightarrow> jsn" where
  "weekday_fn serial = int_or_nan (map_option (\<lambda>t. if week_day (day_of t) = 0 then 7 else week_day (day_of t)) (serial_time serial))"

text \<open>\<open>setUTCMonth\<close> to the month \<open>months + shift\<close> later; the date is \<open>dt\<close>, or kept.\<close>

definition shift_months :: "int \<Rightarrow> int option \<Rightarrow> jsn \<Rightarrow> jsn \<Rightarrow> jsn" where
  "shift_months shift dt serial months =
     int_or_nan (case (serial_time serial, fin_of months) of
         (Some t, Some k) \<Rightarrow>
           (let d = day_of t;
                e = make_day (year_from_day d) (month_from_day d + \<lfloor>k\<rfloor> + shift) (case dt of Some x \<Rightarrow> x | None \<Rightarrow> date_from_day d)
            in map_option (\<lambda>u. day_of u + 25569) (time_clip (e * 86400000 + t mod 86400000)))
       | _ \<Rightarrow> None)"

definition eomonth_fn :: "jsn \<Rightarrow> jsn \<Rightarrow> jsn" where
  "eomonth_fn serial months = shift_months 1 (Some 0) serial months"

definition edate_fn :: "jsn \<Rightarrow> jsn \<Rightarrow> jsn" where
  "edate_fn serial months = shift_months 0 None serial months"

definition weeknum_fn :: "jsn \<Rightarrow> jsn" where
  "weeknum_fn serial =
     int_or_nan (map_option (\<lambda>t. (t - make_day (utc_year (year_from_day (day_of t))) 0 1 * 86400000) div 86400000 div 7 + 1)
       (serial_time serial))"

definition isoweeknum_fn :: "jsn \<Rightarrow> jsn" where
  "isoweeknum_fn serial =
     int_or_nan (map_option (\<lambda>t.
       (let d = day_of t;
            target = make_day (utc_year (year_from_day d)) (month_from_day d) (date_from_day d);
            dayNum = (if week_day target = 0 then 7 else week_day target);
            thursday = target + 4 - dayNum;
            yearStart = make_day (utc_year (year_from_day thursday)) 0 1
        in \<lceil>(of_int (thursday - yearStart + 1) :: rat) / 7\<rceil>)) (serial_time serial))"

definition weekend :: "int \<Rightarrow> bool" where
  "weekend serial =
     (case serial_time (Fin (of_int serial)) of None \<Rightarrow> False
      | Some t \<Rightarrow> week_day (day_of t) = 0 \<or> week_day (day_of t) = 6)"

definition step_of :: "bool \<Rightarrow> int" where
  "step_of forward = (if forward then 1 else -1)"

text \<open>How many weekend days follow in the direction of the step.\<close>

definition weekend_run :: "bool \<Rightarrow> int \<Rightarrow> nat" where
  "weekend_run forward serial =
     (if weekend (serial + step_of forward) then if weekend (serial + 2 * step_of forward) then 2 else 1 else 0)"

lemma weekend_iff: "weekend s \<longleftrightarrow> \<bar>(s - 25569) * 86400000\<bar> \<le> 8640000000000000 \<and> ((4 + (s - 25569)) mod 7 = 0 \<or> (4 + (s - 25569)) mod 7 = 6)"
proof -
  have "(of_int s - 25569) * 86400 * 1000 = (of_int ((s - 25569) * 86400000) :: rat)" by simp
  then have "math_trunc ((of_int s - 25569) * 86400 * 1000) = (s - 25569) * 86400000"
    by (simp only: math_trunc_def floor_of_int ceiling_of_int if_cancel)
  then show ?thesis by (auto simp: weekend_def serial_time_def time_clip_def week_day_def day_of_def)
qed

definition saturday_sunday :: "int \<Rightarrow> bool" where
  "saturday_sunday s \<longleftrightarrow> s mod 7 = 0 \<or> s mod 7 = 1"

lemma weekend_mod: "weekend s \<Longrightarrow> saturday_sunday s"
proof -
  assume "weekend s"
  moreover have "(4 + (s - 25569)) mod 7 = (s - 1) mod 7"
    using mod_mult_self2[of "s - 1" 7 "-3652"] by (simp add: algebra_simps)
  ultimately have "(s - 1) mod 7 = 0 \<or> (s - 1) mod 7 = 6" by (simp add: weekend_iff)
  then show ?thesis unfolding saturday_sunday_def by presburger
qed

lemma two_days_later: "saturday_sunday s \<Longrightarrow> \<not> saturday_sunday (s + 2)"
  using mod_add_left_eq[of s 7 2] by (auto simp: saturday_sunday_def)

lemma not_three_weekend_days: "\<not> (weekend s \<and> weekend (s + step_of f) \<and> weekend (s + 2 * step_of f))"
proof (cases f)
  case True
  then have "s + 2 * step_of f = s + 2" by (simp add: step_of_def)
  then show ?thesis using weekend_mod[of s] weekend_mod[of "s + 2"] two_days_later[of s] by metis
next
  case False
  then have "s + 2 * step_of f = s - 2" "s - 2 + 2 = s" by (simp_all add: step_of_def)
  then show ?thesis using weekend_mod[of s] weekend_mod[of "s - 2"] two_days_later[of "s - 2"] by metis
qed

lemma weekend_run_less: "weekend (s + step_of f) \<Longrightarrow> weekend_run f (s + step_of f) < weekend_run f s"
proof -
  assume w: "weekend (s + step_of f)"
  define a b c where "a = s + step_of f" and "b = a + step_of f" and "c = a + 2 * step_of f"
  have e: "s + 2 * step_of f = b" by (simp add: a_def b_def)
  have "\<not> (weekend a \<and> weekend b \<and> weekend c)" unfolding b_def c_def by (rule not_three_weekend_days)
  then show ?thesis using w unfolding weekend_run_def e a_def[symmetric] b_def[symmetric] c_def[symmetric] by simp
qed

function workday_loop :: "bool \<Rightarrow> int \<Rightarrow> int \<Rightarrow> int" where
  "workday_loop forward serial days =
     (if days > 0 then
        workday_loop forward (serial + step_of forward) (if weekend (serial + step_of forward) then days else days - 1)
      else serial)"
  by pat_completeness auto
termination
  by (relation "measure (\<lambda>(f, s, d). 3 * nat d + weekend_run f s)")
    (auto dest!: weekend_run_less, auto simp: weekend_run_def nat_diff_distrib)

declare workday_loop.simps [simp del]

definition workday_fn :: "jsn \<Rightarrow> jsn \<Rightarrow> jsn" where
  "workday_fn serial days =
     (case (jfloor serial, jround days) of
        (Fin s, Fin d) \<Rightarrow> Fin (of_int (workday_loop (0 \<le> d) \<lfloor>s\<rfloor> \<lfloor>\<bar>d\<bar>\<rfloor>))
      | (s, _) \<Rightarrow> s)"

section \<open>Facts about the calendar\<close>

lemma div_bounds: "0 < k \<Longrightarrow> k * (a div k) \<le> a \<and> a < k * (a div k) + (k :: int)"
  using mult_div_mod_eq[of k a] pos_mod_sign[of k a] pos_mod_bound[of k a] by linarith

lemma year_arith:
  fixes q d a b c a' b' c' :: int
  assumes "146097 * q \<le> 400 * d" "400 * d < 146097 * q + 146097"
    and "4 * a \<le> q" "q + 68 < 100 * b + 100" "400 * c \<le> q + 368"
    and "q + 3 < 4 * a' + 4" "100 * b' \<le> q + 71" "q + 371 < 400 * c' + 400"
  shows "365 * (q - 1) + a - b + c \<le> d" and "d < 365 * (q + 2) + a' - b' + c'"
proof -
  have "400 * a \<le> 100 * q" "4 * q - 128 < 400 * b" using assms(3,4) by simp_all
  then have "146000 * q - 146000 + 400 * a - 400 * b + 400 * c \<le> 400 * d" using assms(1,5) by linarith
  then show "365 * (q - 1) + a - b + c \<le> d" by simp
  have "100 * q - 100 < 400 * a'" "400 * b' \<le> 4 * q + 284" using assms(6,7) by simp_all
  then have "400 * d < 146000 * q + 292000 + 400 * a' - 400 * b' + 400 * c'" using assms(2,8) by linarith
  then show "d < 365 * (q + 2) + a' - b' + c'" by simp
qed

lemma year_estimate:
  "day_from_year (1970 + (400 * d) div 146097 - 1) \<le> d" "d < day_from_year (1970 + (400 * d) div 146097 + 2)"
proof -
  define q where "q = (400 * d) div 146097"
  have q: "146097 * q \<le> 400 * d" "400 * d < 146097 * q + 146097"
    using div_bounds[of 146097 "400 * d"] by (simp_all add: q_def)
  have y: "1970 + q - 1 - 1970 = q - 1" "1970 + q - 1 - 1969 = q" "1970 + q - 1 - 1901 = q + 68" "1970 + q - 1 - 1601 = q + 368"
    "1970 + q + 2 - 1970 = q + 2" "1970 + q + 2 - 1969 = q + 3" "1970 + q + 2 - 1901 = q + 71" "1970 + q + 2 - 1601 = q + 371"
    by simp_all
  note b = div_bounds[of 4, THEN conjunct1] div_bounds[of 4, THEN conjunct2] div_bounds[of 100, THEN conjunct1]
    div_bounds[of 100, THEN conjunct2] div_bounds[of 400, THEN conjunct1] div_bounds[of 400, THEN conjunct2]
  show "day_from_year (1970 + (400 * d) div 146097 - 1) \<le> d"
    unfolding day_from_year_def q_def[symmetric] y by (rule year_arith(1)[OF q b(1,4,5) b(2,3,6)]) simp_all
  show "d < day_from_year (1970 + (400 * d) div 146097 + 2)"
    unfolding day_from_year_def q_def[symmetric] y by (rule year_arith(2)[OF q b(1,4,5) b(2,3,6)]) simp_all
qed

lemma year_from_day: "day_from_year (year_from_day d) \<le> d \<and> d < day_from_year (year_from_day d + 1)"
proof -
  define y where "y = 1970 + (400 * d) div 146097"
  have e: "day_from_year (y - 1) \<le> d" "d < day_from_year (y + 2)" unfolding y_def using year_estimate[of d] by blast+
  have s: "y + 1 + 1 = y + 2" "y - 1 + 1 = y" by simp_all
  have f: "year_from_day d = (if day_from_year (y + 1) \<le> d then y + 1 else if d < day_from_year y then y - 1 else y)"
    by (simp only: year_from_day_def y_def Let_def)
  show ?thesis
  proof (cases "day_from_year (y + 1) \<le> d")
    case True
    then show ?thesis unfolding f using e(2) by (simp only: if_True s simp_thms)
  next
    case False
    then have "d < day_from_year (y + 1)" by simp
    show ?thesis
    proof (cases "d < day_from_year y")
      case True
      then show ?thesis unfolding f using False e(1) by (simp only: if_True if_False s simp_thms)
    next
      case later: False
      show ?thesis unfolding f if_not_P[OF False] if_not_P[OF later]
        using later \<open>d < day_from_year (y + 1)\<close> by simp
    qed
  qed
qed

end
