(* ===== verification/FormulaExtended.thy ===== *)
theory FormulaExtended
  imports FormulaDates "HOL-Library.Word"
begin

text \<open>
  \<^verbatim>\<open>frontend/src/lib/spreadsheet/formula-extended.ts\<close>: the functions that the main evaluator does not know itself.
  \<open>evaluateExtendedFunction\<close> gets the values of the arguments; the cases of its switch are
  grouped in the definitions \<open>ext_..\<close> in the order of the file.

  What the runtime computes is in the record \<open>formula_env\<close>: the functions of \<open>Math\<close> beyond
  arithmetic, powers with a fractional exponent, random numbers, the clock, the parsing of dates
  and the formats of the locale. The \<open>k\<close>-th call of a function in a recalculation sees the
  \<open>k\<close>-th random number and the \<open>k\<close>-th reading of the clock.
\<close>

section \<open>The runtime\<close>

record formula_env =
  fe_host :: host
  fe_js :: "string \<Rightarrow> js_result"
  fe_math :: "string \<Rightarrow> jsn \<Rightarrow> jsn"
  fe_atan2 :: "jsn \<Rightarrow> jsn \<Rightarrow> jsn"
  fe_pi :: rat
  fe_pow :: "jsn \<Rightarrow> jsn \<Rightarrow> jsn"
  fe_random :: "nat \<Rightarrow> rat"
  fe_now :: "nat \<Rightarrow> string"
  fe_dateParts :: "string \<Rightarrow> (int \<times> int \<times> int) option"
  fe_currency :: "jsn \<Rightarrow> string"
  fe_usd :: "jsn \<Rightarrow> jsn \<Rightarrow> string option"
  fe_grouped :: "jsn \<Rightarrow> string"

text \<open>\<open>Raised\<close>: the function leaves with a RangeError. \<open>Unknown\<close>: no such function.\<close>

datatype outcome = Done fval | Unknown | Raised

definition out_num :: "jsn \<Rightarrow> outcome" where "out_num x = Done (fnum x)"
definition out_int :: "int \<Rightarrow> outcome" where "out_int i = Done (FNum (of_int i))"
definition out_bool :: "bool \<Rightarrow> outcome" where "out_bool b = Done (FBool b)"
definition out_text :: "string \<Rightarrow> outcome" where "out_text s = Done (FStr s)"
definition out_opt :: "string option \<Rightarrow> outcome" where
  "out_opt s = (case s of None \<Rightarrow> Raised | Some t \<Rightarrow> Done (FStr t))"

section \<open>Statistics (stdDev, variance, correl, irr)\<close>

definition fsum :: "rat list \<Rightarrow> jsn" where "fsum xs = Fin (sum_rats xs)"
definition len :: "'a list \<Rightarrow> rat" where "len xs = of_nat (length xs)"

definition sum_squares_around :: "rat \<Rightarrow> rat list \<Rightarrow> rat" where
  "sum_squares_around m xs = sum_rats (map (\<lambda>x. (x - m) ^ 2) xs)"

definition variance_value :: "rat list \<Rightarrow> bool \<Rightarrow> rat" where
  "variance_value xs population =
     sum_squares_around (sum_rats xs / len xs) xs / (if population then len xs else len xs - 1)"

definition too_few :: "rat list \<Rightarrow> bool \<Rightarrow> bool" where
  "too_few xs population \<longleftrightarrow> length xs < (if population then 1 else 2)"

definition stdDev :: "formula_env \<Rightarrow> rat list \<Rightarrow> bool \<Rightarrow> outcome" where
  "stdDev env xs population =
     (if too_few xs population then out_text ''#DIV/0!''
      else out_num (fe_math env ''sqrt'' (Fin (variance_value xs population))))"

definition variance :: "rat list \<Rightarrow> bool \<Rightarrow> outcome" where
  "variance xs population =
     (if too_few xs population then out_text ''#DIV/0!'' else out_num (Fin (variance_value xs population)))"

definition correl :: "formula_env \<Rightarrow> rat list \<Rightarrow> rat list \<Rightarrow> outcome" where
  "correl env xs ys =
     (let n = min (length xs) (length ys);
          k = (of_nat n :: rat);
          meanX = sum_rats (take n xs) / k;
          meanY = sum_rats (take n ys) / k;
          ds = zip (map (\<lambda>x. x - meanX) xs) (map (\<lambda>y. y - meanY) ys);
          num = sum_rats (map (\<lambda>(dx, dy). dx * dy) ds);
          denX = sum_rats (map (\<lambda>(dx, dy). dx * dx) ds);
          denY = sum_rats (map (\<lambda>(dx, dy). dy * dy) ds)
      in if n < 2 \<or> denX = 0 \<or> denY = 0 then out_text ''#DIV/0!''
         else out_num (jdiv (Fin num) (fe_math env ''sqrt'' (Fin (denX * denY)))))"

definition jsum :: "jsn list \<Rightarrow> jsn" where "jsum xs = foldl jadd (Fin 0) xs"

text \<open>The Newton iterations of RATE and IRR.\<close>

definition pw :: "formula_env \<Rightarrow> jsn \<Rightarrow> jsn \<Rightarrow> jsn" where
  "pw env x y = jpow (fe_pow env) x y"

definition irr_npv :: "formula_env \<Rightarrow> rat list \<Rightarrow> jsn \<Rightarrow> jsn" where
  "irr_npv env cs rate = jsum (mapi (\<lambda>i c. jdiv (Fin c) (pw env (jadd (Fin 1) rate) (Fin (of_int i)))) cs)"

definition irr_derivative :: "formula_env \<Rightarrow> rat list \<Rightarrow> jsn \<Rightarrow> jsn" where
  "irr_derivative env cs rate =
     foldl jsub (Fin 0) (mapi (\<lambda>i c. jdiv (Fin (of_int i * c)) (pw env (jadd (Fin 1) rate) (Fin (of_int i + 1)))) cs)"

definition tiny :: "rat \<Rightarrow> jsn \<Rightarrow> bool" where
  "tiny eps x \<longleftrightarrow> jlt (jabs x) (Fin eps)"

primrec irr_loop :: "formula_env \<Rightarrow> rat list \<Rightarrow> nat \<Rightarrow> jsn \<Rightarrow> outcome" where
  "irr_loop env cs 0 rate = out_num rate"
| "irr_loop env cs (Suc k) rate =
     (let derivative = irr_derivative env cs rate;
          next = jsub rate (jdiv (irr_npv env cs rate) derivative)
      in if tiny (1 / 10 ^ 12) derivative then out_num rate
         else if \<not> is_finite next then out_text ''#NUM!''
         else if tiny (1 / 10 ^ 8) (jsub next rate) then out_num next
         else irr_loop env cs k next)"

definition irr :: "formula_env \<Rightarrow> rat list \<Rightarrow> jsn \<Rightarrow> outcome" where
  "irr env cs guess =
     (if length cs < 2 then out_text ''#NUM!''
      else irr_loop env cs 50 (if is_finite guess then guess else Fin (1 / 10)))"

definition rate_f :: "formula_env \<Rightarrow> jsn \<Rightarrow> jsn \<Rightarrow> jsn \<Rightarrow> jsn \<Rightarrow> jsn \<Rightarrow> jsn" where
  "rate_f env nper pmt pv fv rate =
     (let g = pw env (jadd (Fin 1) rate) nper
      in jadd (jadd (jmul pv g) (jdiv (jmul pmt (jsub g (Fin 1))) rate)) fv)"

definition rate_df :: "formula_env \<Rightarrow> jsn \<Rightarrow> jsn \<Rightarrow> jsn \<Rightarrow> jsn \<Rightarrow> jsn" where
  "rate_df env nper pmt pv rate =
     (let one = jadd (Fin 1) rate;
          g1 = pw env one (jsub nper (Fin 1));
          g = pw env one nper
      in jadd (jmul (jmul nper pv) g1)
           (jdiv (jmul pmt (jsub (jmul (jmul nper g1) rate) (jsub g (Fin 1)))) (jmul rate rate)))"

primrec rate_loop :: "formula_env \<Rightarrow> jsn \<Rightarrow> jsn \<Rightarrow> jsn \<Rightarrow> jsn \<Rightarrow> nat \<Rightarrow> jsn \<Rightarrow> jsn" where
  "rate_loop env nper pmt pv fv 0 rate = rate"
| "rate_loop env nper pmt pv fv (Suc k) rate =
     (let df = rate_df env nper pmt pv rate;
          next = jsub rate (jdiv (rate_f env nper pmt pv fv rate) df)
      in if tiny (1 / 10 ^ 12) df then rate
         else if \<not> is_finite next then rate
         else if tiny (1 / 10 ^ 8) (jsub next rate) then next
         else rate_loop env nper pmt pv fv k next)"

section \<open>Finance\<close>

definition payment :: "formula_env \<Rightarrow> jsn \<Rightarrow> jsn \<Rightarrow> jsn \<Rightarrow> jsn" where
  "payment env rate nper pv =
     (if rate = Fin 0 then jdiv (jneg pv) nper
      else jdiv (jmul (jneg pv) rate) (jsub (Fin 1) (pw env (jadd (Fin 1) rate) (jneg nper))))"

definition balance :: "formula_env \<Rightarrow> jsn \<Rightarrow> jsn \<Rightarrow> jsn \<Rightarrow> jsn \<Rightarrow> jsn" where
  "balance env rate per pv pmt =
     (let g = pw env (jadd (Fin 1) rate) (jsub per (Fin 1))
      in jadd (jmul pv g) (jmul pmt (jdiv (jsub g (Fin 1)) rate)))"

definition ext_finance :: "formula_env \<Rightarrow> string \<Rightarrow> fval list \<Rightarrow> outcome" where
  "ext_finance env n args =
     (let a = arg_num args; one = jadd (Fin 1) (a 0) in
      if n = ''NPV'' then
        (if \<not> is_finite (a 0) then out_text ''#VALUE!''
         else out_num (jsum (mapi (\<lambda>i c. jdiv (Fin c) (pw env one (Fin (of_int i + 1)))) (finite_nums (drop 1 args)))))
      else if n = ''PMT'' then
        (if \<not> is_finite (a 0) \<or> \<not> is_finite (a 1) \<or> \<not> is_finite (a 2) then out_text ''#VALUE!''
         else out_num (payment env (a 0) (a 1) (a 2)))
      else if n = ''FV'' then
        (let pv = arg_num_or (Fin 0) args 3; g = pw env one (a 1) in
         if \<not> is_finite (a 0) \<or> \<not> is_finite (a 1) then out_text ''#VALUE!''
         else if a 0 = Fin 0 then out_num (jneg (jadd pv (jmul (a 2) (a 1))))
         else out_num (jneg (jadd (jmul pv g) (jdiv (jmul (a 2) (jsub g (Fin 1))) (a 0)))))
      else if n = ''PV'' then
        (let fv = arg_num_or (Fin 0) args 3; g = pw env one (a 1) in
         if \<not> is_finite (a 0) \<or> \<not> is_finite (a 1) then out_text ''#VALUE!''
         else if a 0 = Fin 0 then out_num (jneg (jadd fv (jmul (a 2) (a 1))))
         else out_num (jdiv (jneg (jadd fv (jdiv (jmul (a 2) (jsub g (Fin 1))) (a 0)))) g))
      else if n = ''NPER'' then
        (let fv = arg_num_or (Fin 0) args 3 in
         if \<not> is_finite (a 0) \<or> \<not> is_finite (a 1) \<or> \<not> is_finite (a 2) then out_text ''#VALUE!''
         else if a 0 = Fin 0 then out_num (jdiv (jneg (jadd (a 2) fv)) (a 1))
         else out_num (jdiv (fe_math env ''log'' (jdiv (jsub (a 1) (jmul fv (a 0))) (jadd (a 1) (jmul (a 2) (a 0)))))
                            (fe_math env ''log'' one)))
      else if n = ''RATE'' then
        out_num (rate_loop env (a 0) (a 1) (a 2) (arg_num_or (Fin 0) args 3) 40 (Fin (1 / 10)))
      else if n = ''IPMT'' then
        out_num (jmul (jneg (balance env (a 0) (jround (a 1)) (a 3) (payment env (a 0) (a 2) (a 3)))) (a 0))
      else if n = ''PPMT'' then
        (let per = jround (a 1);
             pmt = payment env (a 0) (a 2) (a 3);
             bal = (if a 0 = Fin 0 then jadd (a 3) (jmul pmt (jsub per (Fin 1))) else balance env (a 0) per (a 3) pmt)
         in out_num (jsub pmt (jmul (jneg bal) (a 0))))
      else if n = ''IRR'' then irr env (finite_nums args) (arg_num_or (Fin (1 / 10)) args 1)
      else if n = ''MIRR'' then
        (let vs = finite_nums (js_slice args 0 (-2));
             m = of_nat (length vs) - 1;
             financeRate = arg_num args (int (length args) - 2);
             reinvestRate = arg_num args (int (length args) - 1);
             neg = jsum (concat (mapi (\<lambda>i c. if c < 0 then [jdiv (Fin c) (pw env (jadd (Fin 1) financeRate) (Fin (of_int i)))] else []) vs));
             pos = jsum (concat (mapi (\<lambda>i c. if c < 0 then [] else [jmul (Fin c) (pw env (jadd (Fin 1) reinvestRate) (Fin (m - of_int i)))]) vs))
         in if length vs < 2 \<or> neg = Fin 0 \<or> pos = Fin 0 then out_text ''#DIV/0!''
            else out_num (jsub (pw env (jdiv pos (jneg neg)) (Fin (1 / m))) (Fin 1)))
      else if n = ''SLN'' then
        (if a 2 = Fin 0 then out_text ''#DIV/0!'' else out_num (jdiv (jsub (a 0) (a 1)) (a 2)))
      else if n = ''SYD'' then
        out_num (jdiv (jmul (jmul (jsub (a 0) (a 1)) (jadd (jsub (a 2) (a 3)) (Fin 1))) (Fin 2)) (jmul (a 2) (jadd (a 2) (Fin 1))))
      else if n = ''DB'' then
        (let rate = jsub (Fin 1) (pw env (jdiv (a 1) (a 0)) (jdiv (Fin 1) (a 2)));
             k = (case jround (a 3) of Fin p \<Rightarrow> nat \<lfloor>p\<rfloor> | _ \<Rightarrow> 0)
         in out_num (snd (((\<lambda>(book, dep). (jsub book (jmul book rate), jmul book rate)) ^^ k) (a 0, Fin 0))))
      else Unknown)"

section \<open>Numbers, information and text\<close>

definition is_fstr :: "fval \<Rightarrow> bool" where
  "is_fstr v = (case v of FStr s \<Rightarrow> True | _ \<Rightarrow> False)"

definition plain_text :: "fval option \<Rightarrow> bool" where
  "plain_text v = (case v of Some x \<Rightarrow> is_fstr x \<and> \<not> is_error x | None \<Rightarrow> False)"

text \<open>\<open>s.repeat(n)\<close>.\<close>

definition js_repeat :: "string \<Rightarrow> jsn \<Rightarrow> string" where
  "js_repeat s x = (case x of Fin k \<Rightarrow> concat (replicate (nat \<lfloor>k\<rfloor>) s) | _ \<Rightarrow> [])"

text \<open>\<open>replace(/\w\S*/g, ..)\<close>.\<close>

definition m_proper :: matcher where
  "m_proper prev s =
     (case s of [] \<Rightarrow> None | c # t \<Rightarrow> if word_char c then Some (1 + length (takeWhile (\<lambda>d. \<not> is_ws d) t)) else None)"

definition proper_word :: "string \<Rightarrow> string" where
  "proper_word w = js_upper (take 1 w) @ js_lower (drop 1 w)"

definition find_position :: "string \<Rightarrow> string \<Rightarrow> jsn \<Rightarrow> outcome" where
  "find_position needle haystack start =
     (let i = index_of needle (jsub (jmax (Fin 1) start) (Fin 1)) haystack
      in if i < 0 then out_text ''#VALUE!'' else out_int (i + 1))"

text \<open>A character by its UTF-8 bytes, which is how a character above 255 stands in our strings.\<close>

definition utf8 :: "int \<Rightarrow> string" where
  "utf8 n =
     (if n < 256 then [char_of n]
      else if n < 2048 then [char_of (192 + n div 64), char_of (128 + n mod 64)]
      else if n < 65536 then [char_of (224 + n div 4096), char_of (128 + n div 64 mod 64), char_of (128 + n mod 64)]
      else [char_of (240 + n div 262144), char_of (128 + n div 4096 mod 64), char_of (128 + n div 64 mod 64), char_of (128 + n mod 64)])"

definition ext_basic :: "formula_env \<Rightarrow> nat \<Rightarrow> string \<Rightarrow> fval list \<Rightarrow> outcome" where
  "ext_basic env tick n args =
     (let a = arg_num args in
      if n = ''POWER'' \<or> n = ''POW'' then out_num (pw env (a 0) (a 1))
      else if n = ''SQRT'' then out_num (fe_math env ''sqrt'' (a 0))
      else if n = ''MOD'' then out_num (jrem (a 0) (a 1))
      else if n = ''INT'' then out_num (jtrunc (a 0))
      else if n = ''CEILING'' then out_num (jceil (a 0))
      else if n = ''FLOOR'' then out_num (jfloor (a 0))
      else if n = ''LN'' then out_num (fe_math env ''log'' (a 0))
      else if n = ''LOG'' then out_num (fe_math env ''log10'' (a 0))
      else if n = ''EXP'' then out_num (fe_math env ''exp'' (a 0))
      else if n = ''PI'' then out_num (Fin (fe_pi env))
      else if n = ''RAND'' then out_num (Fin (fe_random env tick))
      else if n = ''RANDBETWEEN'' then
        (let low = jceil (a 0); high = jfloor (a 1)
         in out_num (jadd (jfloor (jmul (Fin (fe_random env tick)) (jadd (jsub high low) (Fin 1)))) low))
      else if n = ''ISNUMBER'' then out_bool (is_finite (a 0))
      else if n = ''ISTEXT'' then out_bool (plain_text (nth_opt args 0))
      else if n = ''ISERROR'' then out_bool (case nth_opt args 0 of Some v \<Rightarrow> is_error v | None \<Rightarrow> False)
      else if n = ''NA'' then out_text ''#N/A''
      else if n = ''CHOOSE'' then
        (case at_index args (jround (a 0)) of None \<Rightarrow> out_text ''#VALUE!'' | Some v \<Rightarrow> Done v)
      else if n = ''REPT'' then out_text (js_repeat (arg_text args 1) (jmax (Fin 0) (jround (a 0))))
      else if n = ''FIND'' then find_position (arg_text args 0) (arg_text args 1) (jround (arg_num_or (Fin 1) args 2))
      else if n = ''SEARCH'' then
        find_position (js_lower (arg_text args 0)) (js_lower (arg_text args 1)) (jround (arg_num_or (Fin 1) args 2))
      else if n = ''PROPER'' then out_text (re_replace m_proper proper_word (arg_text args 0))
      else if n = ''CLEAN'' then out_text (filter (\<lambda>c. 32 \<le> (of_char c :: int)) (arg_text args 0))
      else if n = ''VALUE'' then out_num (a 0)
      else if n = ''DATEDIF'' then
        (let unit = js_upper (case nth_opt args 2 of None \<Rightarrow> ''D'' | Some v \<Rightarrow> if v = FNull then ''D'' else val_text v);
             diff = jsub (a 1) (a 0)
         in if unit = ''Y'' then out_num (jfloor (jdiv diff (Fin 365)))
            else if unit = ''M'' then out_num (jfloor (jdiv diff (Fin 30)))
            else out_num diff)
      else if n = ''NETWORKDAYS'' then out_num (jmax (Fin 0) (jround (jsub (a 1) (a 0))))
      else if n = ''WEEKDAY'' then out_num (weekday_fn (a 0))
      else if n = ''TEXTJOIN'' then
        (let ps = map val_text (drop 2 args)
         in out_text (js_join (arg_text args 0) (if arg_truthy args 1 then filter (\<lambda>p. p \<noteq> []) ps else ps)))
      else if n = ''EXACT'' then out_bool (arg_text args 0 = arg_text args 1)
      else if n = ''CHAR'' then out_text (utf8 (case jround (a 0) of Fin k \<Rightarrow> \<lfloor>k\<rfloor> mod 65536 | _ \<Rightarrow> 0))
      else if n = ''CODE'' then out_int (case arg_text args 0 of [] \<Rightarrow> 0 | c # _ \<Rightarrow> of_char c)
      else Unknown)"

text \<open>Euclid's loop.\<close>

fun euclid :: "nat \<Rightarrow> nat \<Rightarrow> nat" where
  "euclid x y = (if y = 0 then x else euclid y (x mod y))"

declare euclid.simps [simp del]

definition whole_abs :: "rat list \<Rightarrow> nat list" where
  "whole_abs xs = map (\<lambda>x. nat \<bar>math_round x\<bar>) xs"

definition next_parity :: "bool \<Rightarrow> jsn \<Rightarrow> jsn" where
  "next_parity to_odd x =
     (let v = jceil x in
      if jeq (jrem v (Fin 2)) (Fin 0) \<noteq> to_odd then v else jadd v (if jle (Fin 0) v then Fin 1 else Fin (-1)))"

definition split_half :: "fval list \<Rightarrow> rat list \<times> rat list" where
  "split_half args = (let k = length args div 2 in (finite_nums (take k args), finite_nums (drop k args)))"

definition percentile :: "rat list \<Rightarrow> jsn \<Rightarrow> fval" where
  "percentile xs k =
     (let pos = jmul (Fin (len xs - 1)) k; base = jfloor pos in
      if xs = [] \<or> jlt k (Fin 0) \<or> jlt (Fin 1) k then FStr ''#NUM!''
      else case (at_index xs base, at_index xs (jadd base (Fin 1))) of
             (Some b, Some c) \<Rightarrow> fnum (jadd (Fin b) (jmul (jsub pos base) (Fin (c - b))))
           | (Some b, None) \<Rightarrow> FNum b
           | _ \<Rightarrow> FNull)"

text \<open>In the extended functions an \<open>undefined\<close> result means that the name is not known.\<close>

definition out_known :: "fval \<Rightarrow> outcome" where
  "out_known v = (if v = FNull then Unknown else Done v)"

text \<open>\<open>value.toFixed\<close> with thousands separated.\<close>

fun group_thousands :: "bool \<Rightarrow> string \<Rightarrow> string" where
  "group_thousands prev [] = []"
| "group_thousands prev (c # s) =
     (if prev \<and> is_digit c \<and> length (takeWhile is_digit (c # s)) mod 3 = 0 then CHR '','' # c # group_thousands True s
      else c # group_thousands (word_char c) s)"

definition fixed_text :: "jsn \<Rightarrow> jsn \<Rightarrow> bool \<Rightarrow> string option" where
  "fixed_text v decimals noCommas =
     map_option (\<lambda>fixed.
       if noCommas then fixed
       else (let whole = takeWhile (\<lambda>c. c \<noteq> CHR ''.'') fixed; frac = dropWhile (\<lambda>c. c \<noteq> CHR ''.'') fixed
             in group_thousands False whole @ frac))
       (to_fixed (case jmax (Fin 0) decimals of Fin d \<Rightarrow> \<lfloor>d\<rfloor> | _ \<Rightarrow> 0) v)"

text \<open>Rounding at a decimal place: \<open>f(value * 10 ** digits) / 10 ** digits\<close>.\<close>

definition at_digits :: "formula_env \<Rightarrow> (jsn \<Rightarrow> jsn) \<Rightarrow> jsn \<Rightarrow> jsn \<Rightarrow> jsn" where
  "at_digits env f v digits = (let factor = pw env (Fin 10) digits in jdiv (f (jmul v factor)) factor)"

definition round_up :: "formula_env \<Rightarrow> jsn \<Rightarrow> jsn \<Rightarrow> jsn" where
  "round_up env v digits = at_digits env (if jle (Fin 0) v then jceil else jfloor) v digits"

definition round_down :: "formula_env \<Rightarrow> jsn \<Rightarrow> jsn \<Rightarrow> jsn" where
  "round_down env v digits = at_digits env (if jle (Fin 0) v then jfloor else jceil) v digits"

definition digits_arg :: "fval list \<Rightarrow> jsn" where
  "digits_arg args = arg_given jround (Fin 0) args 1"

definition replace_part :: "fval list \<Rightarrow> string" where
  "replace_part args =
     (let txt = arg_text args 0;
          start = jmax (Fin 1) (jround (arg_num args 1));
          count = jmax (Fin 0) (jround (arg_num args 2));
          from = jsub start (Fin 1)
      in jslice txt (Fin 0) from @ arg_text args 3 @ jslice_from txt (jadd from count))"

definition ext_more :: "formula_env \<Rightarrow> string \<Rightarrow> fval list \<Rightarrow> outcome" where
  "ext_more env n args =
     (let a = arg_num args; numericArgs = finite_nums args in
      if n = ''SIGN'' then
        (case a 0 of Fin v \<Rightarrow> out_int (if v = 0 then 0 else if v > 0 then 1 else -1) | _ \<Rightarrow> out_text ''#VALUE!'')
      else if n = ''EVEN'' then out_num (next_parity False (a 0))
      else if n = ''ODD'' then out_num (next_parity True (a 0))
      else if n = ''GCD'' then
        (case whole_abs numericArgs of [] \<Rightarrow> out_text ''#VALUE!'' | x # xs \<Rightarrow> out_int (int (foldl euclid x xs)))
      else if n = ''LCM'' then
        (case whole_abs numericArgs of [] \<Rightarrow> out_text ''#VALUE!''
         | x # xs \<Rightarrow> out_num (Fin (foldl (\<lambda>p q. p * of_nat q / (let g = euclid (nat \<lfloor>p\<rfloor>) q in if g = 0 then 1 else of_nat g)) (of_nat x) xs)))
      else if n = ''QUOTIENT'' then out_num (jtrunc (jdiv (a 0) (a 1)))
      else if n = ''PRODUCT'' then out_num (if numericArgs = [] then Fin 0 else Fin (foldl (*) 1 numericArgs))
      else if n = ''SUMSQ'' then out_num (fsum (map (\<lambda>v. v * v) numericArgs))
      else if n = ''AVERAGEA'' then
        (let vs = List.map_filter (\<lambda>v. if is_fstr v \<and> v \<noteq> FStr [] \<and> \<not> is_error v then Some 0 else fin_of (coerceNumber v)) args
         in if vs = [] then out_text ''#DIV/0!'' else out_num (Fin (sum_rats vs / len vs)))
      else if n = ''COUNTBLANK'' then out_int (int (length (filter (\<lambda>v. v = FNull \<or> v = FStr []) args)))
      else if n = ''EOMONTH'' then out_num (eomonth_fn (a 0) (jround (a 1)))
      else if n = ''EDATE'' then out_num (edate_fn (a 0) (jround (a 1)))
      else if n = ''YEARFRAC'' then out_num (jdiv (jsub (a 1) (a 0)) (Fin 365))
      else if n = ''N'' then out_num (a 0)
      else if n = ''T'' then out_text (if plain_text (nth_opt args 0) then arg_text args 0 else [])
      else if n = ''TYPE'' then
        out_int (case nth_opt args 0 of
            Some (FStr s) \<Rightarrow> if s = [] then 1 else if is_error (FStr s) then 16 else 2
          | Some (FBool b) \<Rightarrow> 4
          | _ \<Rightarrow> 1)
      else if n = ''TEXTBEFORE'' then
        (let txt = arg_text args 0; d = arg_text args 1; i = index_of d (Fin 0) txt
         in out_text (if d = [] \<or> i < 0 then txt else take (nat i) txt))
      else if n = ''TEXTAFTER'' then
        (let txt = arg_text args 0; d = arg_text args 1; i = index_of d (Fin 0) txt
         in out_text (if d = [] then txt else if i < 0 then [] else drop (nat i + length d) txt))
      else if n = ''TEXTSPLIT'' then
        (let txt = arg_text args 0; d = (case nth_opt args 1 of None \<Rightarrow> '','' | Some v \<Rightarrow> if v = FNull then '','' else val_text v)
         in out_text (if d = [] then take 1 txt else hd (js_split d txt)))
      else if n = ''REPLACE'' then out_text (replace_part args)
      else if n = ''DOLLAR'' then out_opt (fe_usd env (jmax (Fin 0) (arg_given jround (Fin 2) args 1)) (a 0))
      else if n = ''FIXED'' then out_opt (fixed_text (a 0) (arg_given jround (Fin 2) args 1) (arg_truthy args 2))
      else if n = ''ROUND'' then out_num (at_digits env jround (a 0) (digits_arg args))
      else if n = ''TRUNC'' then out_num (at_digits env jtrunc (a 0) (digits_arg args))
      else if n = ''MROUND'' then
        out_num (if a 1 = Fin 0 then Fin 0 else jmul (jround (jdiv (a 0) (a 1))) (a 1))
      else if n = ''RANK'' \<or> n = ''RANK.EQ'' then
        (case find_index (\<lambda>v. a 0 = Fin v) (sort_down (finite_nums (drop 1 args))) of
           None \<Rightarrow> out_text ''#N/A'' | Some i \<Rightarrow> out_int (int i + 1))
      else if n = ''PERCENTILE'' \<or> n = ''PERCENTILE.INC'' then
        out_known (percentile (sort_up (finite_nums (butlast args))) (arg_num args (int (length args) - 1)))
      else if n = ''LARGE'' \<or> n = ''SMALL'' then
        (let xs = (if n = ''LARGE'' then sort_down else sort_up) (finite_nums (butlast args))
         in case at_index xs (jsub (jround (arg_num args (int (length args) - 1))) (Fin 1)) of
              None \<Rightarrow> out_text ''#NUM!'' | Some v \<Rightarrow> out_num (Fin v))
      else if n = ''TRIMMEAN'' then
        (let xs = sort_up (finite_nums (butlast args));
             dropped = jfloor (jmul (Fin (len xs)) (arg_num args (int (length args) - 1)));
             upper = jsub (Fin (len xs)) dropped;
             trimmed = (if upper = NaN \<or> upper = Fin 0 then jslice_from xs dropped else jslice xs dropped upper)
         in if trimmed = [] then out_text ''#DIV/0!'' else out_num (Fin (sum_rats trimmed / len trimmed)))
      else if n = ''HYPERLINK'' then
        out_text (case nth_opt args 1 of Some v \<Rightarrow> if v = FNull then arg_text args 0 else val_text v | None \<Rightarrow> arg_text args 0)
      else if n = ''FORMULATEXT'' then
        (case nth_opt args 0 of
           Some (FStr s) \<Rightarrow> out_text (if js_starts_with ''='' s then s else ''#N/A'')
         | _ \<Rightarrow> out_text ''#N/A'')
      else Unknown)"

section \<open>Trigonometry, number systems and dates\<close>

definition digit36 :: "char \<Rightarrow> int" where
  "digit36 c = (let n = (of_char c :: int) in
     if 48 \<le> n \<and> n \<le> 57 then n - 48
     else if 97 \<le> n \<and> n \<le> 122 then n - 87
     else if 65 \<le> n \<and> n \<le> 90 then n - 55 else 99)"

text \<open>\<open>Number.parseInt(s, radix)\<close>; a radix of NaN counts as 0.\<close>

definition parse_int :: "jsn \<Rightarrow> string \<Rightarrow> jsn" where
  "parse_int radix s =
     (let t = dropWhile is_ws s;
          neg = js_starts_with ''-'' t;
          u = (if neg \<or> js_starts_with ''+'' t then drop 1 t else t);
          r0 = (case radix of Fin r \<Rightarrow> \<lfloor>r\<rfloor> | _ \<Rightarrow> 0);
          hex = (r0 = 0 \<or> r0 = 16) \<and> (js_starts_with ''0x'' u \<or> js_starts_with ''0X'' u);
          r = (if hex then 16 else if r0 = 0 then 10 else r0);
          ds = takeWhile (\<lambda>c. digit36 c < r) (if hex then drop 2 u else u);
          v = foldl (\<lambda>acc c. acc * r + digit36 c) 0 ds
      in if ds = [] then NaN else Fin (of_int (if neg then - v else v)))"

definition radix_char :: "int \<Rightarrow> char" where
  "radix_char d = char_of (if d < 10 then 48 + d else 55 + d)"

function radix_digits :: "int \<Rightarrow> int \<Rightarrow> string" where
  "radix_digits r n = (if r < 2 \<or> n < r then [radix_char n] else radix_digits r (n div r) @ [radix_char (n mod r)])"
  by pat_completeness auto
termination
proof (relation "measure (\<lambda>(r, n). nat n)", goal_cases)
  case (2 r n)
  then have "n div r < n" by (intro int_div_less_self) auto
  with 2 show ?case by simp
qed simp

declare radix_digits.simps [simp del]

text \<open>\<open>x.toString(radix).toUpperCase()\<close> of a whole number.\<close>

definition radix_text :: "int \<Rightarrow> jsn \<Rightarrow> string" where
  "radix_text r x =
     (case x of
        Fin a \<Rightarrow> if r = 10 then js_upper (show_num a)
          else (if a < 0 then ''-'' else []) @ radix_digits r \<bar>\<lfloor>a\<rfloor>\<bar>
      | _ \<Rightarrow> js_upper (num_text x))"

definition pad_start :: "int \<Rightarrow> string \<Rightarrow> string" where
  "pad_start n s = replicate (nat n - length s) CHR ''0'' @ s"

definition base_text :: "jsn \<Rightarrow> jsn \<Rightarrow> jsn \<Rightarrow> outcome" where
  "base_text value radix minLength =
     (case radix of
        Fin r \<Rightarrow>
          if r < 2 \<or> 36 < r then out_text ''#NUM!''
          else (let txt = radix_text \<lfloor>r\<rfloor> (jabs value);
                    padded = (case minLength of Fin m \<Rightarrow> pad_start \<lfloor>m\<rfloor> txt | _ \<Rightarrow> txt)
                in out_text (if jlt value (Fin 0) then ''-'' @ padded else padded))
      | _ \<Rightarrow> Raised)"

text \<open>Each entry of the table is taken as often as it fits.\<close>

fun roman_loop :: "(int \<times> string) list \<Rightarrow> int \<Rightarrow> string" where
  "roman_loop [] remaining = []"
| "roman_loop ((v, glyph) # rest) remaining =
     concat (replicate (nat (remaining div v)) glyph) @ roman_loop rest (remaining mod v)"

definition roman_table :: "(int \<times> string) list" where
  "roman_table = [(1000, ''M''), (900, ''CM''), (500, ''D''), (400, ''CD''), (100, ''C''), (90, ''XC''), (50, ''L''), (40, ''XL''),
     (10, ''X''), (9, ''IX''), (5, ''V''), (4, ''IV''), (1, ''I'')]"

definition arabic_value :: "char \<Rightarrow> int" where
  "arabic_value c =
     (case map_of [(CHR ''I'', 1), (CHR ''V'', 5), (CHR ''X'', 10), (CHR ''L'', 50), (CHR ''C'', 100), (CHR ''D'', 500), (CHR ''M'', 1000)] c of
        Some v \<Rightarrow> v | None \<Rightarrow> 0)"

fun arabic_loop :: "string \<Rightarrow> int" where
  "arabic_loop [] = 0"
| "arabic_loop [c] = arabic_value c"
| "arabic_loop (c # d # s) =
     (if arabic_value c < arabic_value d then - arabic_value c else arabic_value c) + arabic_loop (d # s)"

text \<open>\<open>for (i = a; i <= x; ..)\<close>: no rounds when \<open>x\<close> is NaN.\<close>

definition count_up :: "int \<Rightarrow> jsn \<Rightarrow> int list" where
  "count_up a x = (case x of Fin b \<Rightarrow> [a..\<lfloor>b\<rfloor>] | _ \<Rightarrow> [])"

definition of_int_jsn :: "int \<Rightarrow> jsn" where "of_int_jsn i = Fin (of_int i)"

definition ext_trig :: "formula_env \<Rightarrow> string \<Rightarrow> fval list \<Rightarrow> outcome" where
  "ext_trig env n args =
     (let a = arg_num args; m = (\<lambda>f. out_num (fe_math env f (a 0))) in
      if n = ''SIN'' then m ''sin''
      else if n = ''COS'' then m ''cos''
      else if n = ''TAN'' then m ''tan''
      else if n = ''ASIN'' then m ''asin''
      else if n = ''ACOS'' then m ''acos''
      else if n = ''ATAN'' then m ''atan''
      else if n = ''ATAN2'' then out_num (fe_atan2 env (a 1) (a 0))
      else if n = ''SINH'' then m ''sinh''
      else if n = ''COSH'' then m ''cosh''
      else if n = ''TANH'' then m ''tanh''
      else if n = ''DEGREES'' then out_num (jdiv (jmul (a 0) (Fin 180)) (Fin (fe_pi env)))
      else if n = ''RADIANS'' then out_num (jdiv (jmul (a 0) (Fin (fe_pi env))) (Fin 180))
      else if n = ''ABS'' then out_num (jabs (a 0))
      else if n = ''FACT'' then
        (let k = jfloor (a 0)
         in if jlt k (Fin 0) \<or> jlt (Fin 170) k then out_text ''#NUM!''
            else out_num (Fin (of_int (foldl (*) 1 (count_up 2 k)))))
      else if n = ''COMBIN'' then
        (let m = jfloor (a 0); k = jfloor (a 1)
         in if jlt m (Fin 0) \<or> jlt k (Fin 0) \<or> jlt m k then out_text ''#NUM!''
            else out_num (jround (foldl (\<lambda>r i. jdiv (jmul r (jadd (jsub m k) (of_int_jsn i))) (of_int_jsn i)) (Fin 1) (count_up 1 k))))
      else if n = ''PERMUT'' then
        (let m = jfloor (a 0); k = jfloor (a 1)
         in if jlt m (Fin 0) \<or> jlt k (Fin 0) \<or> jlt m k then out_text ''#NUM!''
            else out_num (foldl (\<lambda>r i. jmul r (jsub m (of_int_jsn i))) (Fin 1) (count_up 0 (jsub k (Fin 1)))))
      else if n = ''BASE'' then base_text (jfloor (a 0)) (jround (a 1)) (arg_given jround (Fin 0) args 2)
      else if n = ''DECIMAL'' then
        (let radix = jround (a 1); v = parse_int radix (arg_text args 0)
         in if jlt radix (Fin 2) \<or> jlt (Fin 36) radix then out_text ''#NUM!''
            else if is_finite v then out_num v else out_text ''#NUM!'')
      else if n = ''ROMAN'' then
        (let k = jround (a 0)
         in if jlt k (Fin 1) \<or> jlt (Fin 3999) k then out_text ''#VALUE!''
            else out_text (case k of Fin r \<Rightarrow> roman_loop roman_table \<lfloor>r\<rfloor> | _ \<Rightarrow> []))
      else if n = ''ARABIC'' then out_int (arabic_loop (js_upper (arg_text args 0)))
      else if n = ''DAYS'' then out_num (jround (jsub (a 0) (a 1)))
      else if n = ''WEEKNUM'' then out_num (weeknum_fn (a 0))
      else if n = ''ISOWEEKNUM'' then out_num (isoweeknum_fn (a 0))
      else if n = ''WORKDAY'' then out_num (workday_fn (a 0) (a 1))
      else if n = ''HOUR'' then out_num (jfloor (jmul (jsub (a 0) (jfloor (a 0))) (Fin 24)))
      else if n = ''MINUTE'' then out_num (jfloor (jrem (jmul (jsub (a 0) (jfloor (a 0))) (Fin 1440)) (Fin 60)))
      else if n = ''SECOND'' then out_num (jfloor (jrem (jmul (jsub (a 0) (jfloor (a 0))) (Fin 86400)) (Fin 60)))
      else if n = ''TIME'' then
        out_num (jdiv (jadd (jadd (jmul (a 0) (Fin 3600)) (jmul (a 1) (Fin 60))) (a 2)) (Fin 86400))
      else if n = ''ISEVEN'' then out_bool (jeq (jrem (jfloor (a 0)) (Fin 2)) (Fin 0))
      else if n = ''ISODD'' then out_bool (\<not> jeq (jrem (jfloor (a 0)) (Fin 2)) (Fin 0))
      else if n = ''ISLOGICAL'' then out_bool (case nth_opt args 0 of Some (FBool b) \<Rightarrow> True | _ \<Rightarrow> False)
      else if n = ''ISNONTEXT'' then out_bool (\<not> plain_text (nth_opt args 0))
      else if n = ''ISREF'' then out_bool False
      else if n = ''ISEMPTY'' \<or> n = ''ISBLANK'' then out_bool (nth_opt args 0 = Some FNull \<or> nth_opt args 0 = Some (FStr []))
      else if n = ''NUMBERVALUE'' then
        (case js_number (filter (\<lambda>c. c \<noteq> CHR '','') (arg_text args 0)) of Some v \<Rightarrow> out_num (Fin v) | None \<Rightarrow> out_text ''#VALUE!'')
      else if n = ''UNICHAR'' then
        (case jround (a 0) of
           Fin k \<Rightarrow> if 0 \<le> k \<and> k \<le> 1114111 then out_text (utf8 \<lfloor>k\<rfloor>) else Raised
         | _ \<Rightarrow> Raised)
      else if n = ''UNICODE'' then out_int (case arg_text args 0 of [] \<Rightarrow> 0 | c # _ \<Rightarrow> of_char c)
      else Unknown)"

section \<open>Statistics, conversions and bit operations\<close>

text \<open>The most frequent value, the first among equally frequent ones.\<close>

fun first_seen :: "rat list \<Rightarrow> rat list \<Rightarrow> rat list" where
  "first_seen seen [] = []"
| "first_seen seen (x # xs) = (if x \<in> set seen then first_seen seen xs else x # first_seen (x # seen) xs)"

definition mode_value :: "rat list \<Rightarrow> outcome" where
  "mode_value xs =
     (case xs of
        [] \<Rightarrow> out_text ''#N/A''
      | y # _ \<Rightarrow>
          (let (best, bestCount) = foldl (\<lambda>(b, k) v. if count_list xs v > k then (v, count_list xs v) else (b, k)) (y, 0) (first_seen [] xs)
           in if bestCount < 2 then out_text ''#N/A'' else out_num (Fin best)))"

definition horner :: "jsn \<Rightarrow> rat list \<Rightarrow> jsn" where
  "horner t cs = foldr (\<lambda>c acc. jadd (Fin c) (jmul t acc)) cs (Fin 0)"

definition norm_dist :: "formula_env \<Rightarrow> jsn \<Rightarrow> jsn" where
  "norm_dist env z =
     (let t = jdiv (Fin 1) (jadd (Fin 1) (jmul (Fin (2316419 / 10 ^ 7)) (jabs z)));
          d = jmul (Fin (3989423 / 10 ^ 7)) (fe_math env ''exp'' (jdiv (jmul (jneg z) z) (Fin 2)));
          p = jmul (jmul d t) (horner t [3193815 / 10 ^ 7, - 3565638 / 10 ^ 7, 1781478 / 10 ^ 6, - 1821256 / 10 ^ 6, 1330274 / 10 ^ 6])
      in if jlt (Fin 0) z then jsub (Fin 1) p else p)"

definition significance_arg :: "fval list \<Rightarrow> jsn" where
  "significance_arg args = arg_given jabs (Fin 1) args 1"

definition to_multiple :: "(jsn \<Rightarrow> jsn) \<Rightarrow> jsn \<Rightarrow> jsn \<Rightarrow> jsn" where
  "to_multiple f v s = (if s = Fin 0 then Fin 0 else jmul (f (jdiv v s)) s)"

definition paired_sum :: "(rat \<Rightarrow> rat \<Rightarrow> rat) \<Rightarrow> fval list \<Rightarrow> outcome" where
  "paired_sum f args = (let (xs, ys) = split_half args in out_num (fsum (map (\<lambda>(x, y). f x y) (zip xs ys))))"

text \<open>\<open>ToInt32\<close> and \<open>ToUint32\<close>.\<close>

definition to_word32 :: "jsn \<Rightarrow> 32 word" where
  "to_word32 x = (case x of Fin a \<Rightarrow> word_of_int (math_trunc a) | _ \<Rightarrow> 0)"

definition out_signed :: "32 word \<Rightarrow> outcome" where
  "out_signed w = out_int (sint w)"

definition shift_count :: "jsn \<Rightarrow> nat" where
  "shift_count x = unat (to_word32 x) mod 32"

text \<open>\<open>[+-]?\d*\.?\d+\<close> at the start of the text (the longest), and the whole of it.\<close>

definition numeral_prefix :: "string \<Rightarrow> string" where
  "numeral_prefix s =
     (let sign = (case s of c # _ \<Rightarrow> if c = CHR ''+'' \<or> c = CHR ''-'' then [c] else [] | [] \<Rightarrow> []);
          t = drop (length sign) s;
          ip = takeWhile is_digit t;
          fp = (case dropWhile is_digit t of c # u \<Rightarrow> if c = CHR ''.'' then takeWhile is_digit u else [] | [] \<Rightarrow> [])
      in if fp \<noteq> [] then sign @ ip @ ''.'' @ fp else if ip \<noteq> [] then sign @ ip else [])"

fun imaginary_part :: "string \<Rightarrow> string" where
  "imaginary_part [] = []"
| "imaginary_part (c # s) = (if numeral_prefix (c # s) = c # s then c # s else imaginary_part s)"

definition numeral_value :: "string \<Rightarrow> outcome" where
  "numeral_value s = (if s = [] then out_int 0 else out_num (of_option (js_number s)))"

definition subtotal :: "fval list \<Rightarrow> outcome" where
  "subtotal args =
     (let code = jrem (jround (arg_num args 0)) (Fin 100); vs = finite_nums (drop 1 args) in
      if code = Fin 1 then (if vs = [] then out_text ''#DIV/0!'' else out_num (Fin (sum_rats vs / len vs)))
      else if code = Fin 2 then out_int (int (length vs))
      else if code = Fin 3 then out_int (int (length (filter (\<lambda>v. v \<noteq> FNull \<and> v \<noteq> FStr []) (drop 1 args))))
      else if code = Fin 4 then out_num (Fin (max_rats vs))
      else if code = Fin 5 then out_num (Fin (min_rats vs))
      else out_num (fsum vs))"

text \<open>The table is an object: its inherited properties count as units too, with no number.\<close>

definition unit_factor :: "string \<Rightarrow> jsn option" where
  "unit_factor u =
     map_of [(''m'', Fin 1), (''km'', Fin 1000), (''cm'', Fin (1 / 100)), (''mm'', Fin (1 / 1000)), (''in'', Fin (254 / 10000)),
       (''ft'', Fin (3048 / 10000)), (''yd'', Fin (9144 / 10000)), (''g'', Fin (1 / 1000)), (''kg'', Fin 1),
       (''lbm'', Fin (45359237 / 10 ^ 8)), (''constructor'', NaN), (''__proto__'', NaN)] u"

definition convert_units :: "jsn \<Rightarrow> string \<Rightarrow> string \<Rightarrow> outcome" where
  "convert_units v src dst =
     (let mass = (\<lambda>u. u \<in> set [''g'', ''kg'', ''lbm'']) in
      case (unit_factor src, unit_factor dst) of
        (Some p, Some q) \<Rightarrow> if mass src \<noteq> mass dst then out_text ''#N/A'' else out_num (jdiv (jmul v p) q)
      | _ \<Rightarrow> out_text ''#N/A'')"

definition ext_stats :: "formula_env \<Rightarrow> string \<Rightarrow> fval list \<Rightarrow> outcome" where
  "ext_stats env n args =
     (let a = arg_num args; xs = finite_nums args in
      if n = ''GEOMEAN'' then
        (if xs = [] \<or> list_ex (\<lambda>v. v \<le> 0) xs then out_text ''#NUM!''
         else out_num (fe_math env ''exp'' (jdiv (jsum (map (\<lambda>v. fe_math env ''log'' (Fin v)) xs)) (Fin (len xs)))))
      else if n = ''HARMEAN'' then
        (if xs = [] \<or> list_ex (\<lambda>v. v \<le> 0) xs then out_text ''#N/A''
         else out_num (Fin (len xs / sum_rats (map (\<lambda>v. 1 / v) xs))))
      else if n = ''MODE'' \<or> n = ''MODE.SNGL'' then mode_value xs
      else if n = ''QUARTILE'' \<or> n = ''QUARTILE.INC'' then
        (let q = jround (arg_num args (int (length args) - 1))
         in if xs = [] \<or> jlt q (Fin 0) \<or> jlt (Fin 4) q then out_text ''#NUM!''
            else out_known (percentile (sort_up xs) (jdiv q (Fin 4))))
      else if n = ''AVEDEV'' then
        (if xs = [] then out_text ''#NUM!''
         else out_num (Fin (sum_rats (map (\<lambda>v. \<bar>v - sum_rats xs / len xs\<bar>) xs) / len xs)))
      else if n = ''DEVSQ'' then
        (if xs = [] then out_text ''#DIV/0!'' else out_num (Fin (sum_squares_around (sum_rats xs / len xs) xs)))
      else if n = ''FISHER'' then
        (if jle (a 0) (Fin (-1)) \<or> jle (Fin 1) (a 0) then out_text ''#NUM!''
         else out_num (jmul (Fin (1 / 2)) (fe_math env ''log'' (jdiv (jadd (Fin 1) (a 0)) (jsub (Fin 1) (a 0))))))
      else if n = ''FISHERINV'' then
        (let e = fe_math env ''exp'' (jmul (Fin 2) (a 0)) in out_num (jdiv (jsub e (Fin 1)) (jadd e (Fin 1))))
      else if n = ''NORM.S.DIST'' \<or> n = ''NORMSDIST'' then out_num (norm_dist env (a 0))
      else if n = ''PHI'' then
        out_num (jdiv (fe_math env ''exp'' (jdiv (jmul (jneg (a 0)) (a 0)) (Fin 2))) (fe_math env ''sqrt'' (Fin (2 * fe_pi env))))
      else if n = ''TRUE'' then out_bool True
      else if n = ''FALSE'' then out_bool False
      else if n = ''CEILING.MATH'' \<or> n = ''CEILING.PRECISE'' then out_num (to_multiple jceil (a 0) (significance_arg args))
      else if n = ''FLOOR.MATH'' \<or> n = ''FLOOR.PRECISE'' then out_num (to_multiple jfloor (a 0) (significance_arg args))
      else if n = ''ROUNDUP'' then out_num (round_up env (a 0) (digits_arg args))
      else if n = ''ROUNDDOWN'' then out_num (round_down env (a 0) (digits_arg args))
      else if n = ''SERIESSUM'' then
        out_num (jsum (mapi (\<lambda>i c. jmul (Fin c) (pw env (a 0) (jadd (a 1) (jmul (of_int_jsn i) (a 2))))) (finite_nums (drop 3 args))))
      else if n = ''SQRTPI'' then out_num (fe_math env ''sqrt'' (jmul (a 0) (Fin (fe_pi env))))
      else if n = ''SUMX2MY2'' then paired_sum (\<lambda>x y. x ^ 2 - y ^ 2) args
      else if n = ''SUMX2PY2'' then paired_sum (\<lambda>x y. x ^ 2 + y ^ 2) args
      else if n = ''SUMXMY2'' then paired_sum (\<lambda>x y. (x - y) ^ 2) args
      else Unknown)"

definition left_text :: "fval list \<Rightarrow> string" where
  "left_text args = jslice (arg_text args 0) (Fin 0) (jmax (Fin 0) (jround (arg_num_or (Fin 1) args 1)))"

definition right_text :: "fval list \<Rightarrow> string" where
  "right_text args =
     (let txt = arg_text args 0; count = jmax (Fin 0) (jround (arg_num_or (Fin 1) args 1))
      in jslice_from txt (jmax (Fin 0) (jsub (Fin (of_nat (length txt))) count)))"

definition mid_text :: "fval list \<Rightarrow> string" where
  "mid_text args =
     (let start = jsub (jmax (Fin 1) (jround (arg_num args 1))) (Fin 1);
          count = jmax (Fin 0) (jround (arg_num_or (Fin 0) args 2))
      in jslice (arg_text args 0) start (jadd start count))"

definition percent_text :: "jsn \<Rightarrow> string" where
  "percent_text v = (case to_fixed 0 (jmul v (Fin 100)) of Some s \<Rightarrow> s | None \<Rightarrow> []) @ ''%''"

definition ext_text :: "formula_env \<Rightarrow> string \<Rightarrow> fval list \<Rightarrow> outcome" where
  "ext_text env n args =
     (let a = arg_num args in
      if n = ''BAHTTEXT'' then out_text (num_text (a 0))
      else if n \<in> set [''ASC'', ''DBCS'', ''JIS'', ''PHONETIC'', ''WIDECHAR''] then out_text (arg_text args 0)
      else if n = ''FINDB'' then find_position (arg_text args 0) (arg_text args 1) (jround (arg_num_or (Fin 1) args 2))
      else if n = ''SEARCHB'' then
        find_position (js_lower (arg_text args 0)) (js_lower (arg_text args 1)) (jround (arg_num_or (Fin 1) args 2))
      else if n = ''LEFTB'' then out_text (left_text args)
      else if n = ''RIGHTB'' then out_text (right_text args)
      else if n = ''MIDB'' then out_text (mid_text args)
      else if n = ''LENB'' then out_int (int (length (arg_text args 0)))
      else if n = ''REPLACEB'' then out_text (replace_part args)
      else if n = ''TEXT'' then
        (let format = (case nth_opt args 1 of None \<Rightarrow> ''0'' | Some v \<Rightarrow> if v = FNull then ''0'' else val_text v)
         in out_text (if js_includes ''%'' format then percent_text (a 0)
              else if js_includes ''0.00'' format \<or> js_includes ''#,##0.00'' format then fe_grouped env (a 0)
              else num_text (a 0)))
      else Unknown)"

definition parsed_or_num :: "jsn \<Rightarrow> outcome" where
  "parsed_or_num v = (if is_finite v then out_num v else out_text ''#NUM!'')"

definition ext_engineering :: "formula_env \<Rightarrow> string \<Rightarrow> fval list \<Rightarrow> outcome" where
  "ext_engineering env n args =
     (let a = arg_num args; w = (\<lambda>i. to_word32 (jfloor (a i))); xs = finite_nums args in
      if n = ''BIN2DEC'' then parsed_or_num (parse_int (Fin 2) (arg_text args 0))
      else if n = ''DEC2BIN'' then
        (let v = jfloor (a 0)
         in if jlt v (Fin (-512)) \<or> jlt (Fin 511) v then out_text ''#NUM!''
            else (case v of
                    Fin k \<Rightarrow> out_text (radix_text 2 (if k < 0 then Fin (k + 1024) else v))
                  | _ \<Rightarrow> out_text (num_text v)))
      else if n = ''HEX2DEC'' then parsed_or_num (parse_int (Fin 16) (arg_text args 0))
      else if n = ''DEC2HEX'' then out_text (radix_text 16 (of_int_jsn (uint (w 0))))
      else if n = ''OCT2DEC'' then parsed_or_num (parse_int (Fin 8) (arg_text args 0))
      else if n = ''DEC2OCT'' then out_text (radix_text 8 (of_int_jsn (uint (w 0))))
      else if n = ''BITAND'' then out_signed (and (w 0) (w 1))
      else if n = ''BITOR'' then out_signed (or (w 0) (w 1))
      else if n = ''BITXOR'' then out_signed (xor (w 0) (w 1))
      else if n = ''BITLSHIFT'' then out_signed (push_bit (shift_count (jfloor (a 1))) (w 0))
      else if n = ''BITRSHIFT'' then out_signed (signed_drop_bit (shift_count (jfloor (a 1))) (w 0))
      else if n = ''DELTA'' then out_int (if jlt (jabs (jsub (a 0) (arg_num_or (Fin 0) args 1))) (Fin (1 / 10 ^ 12)) then 1 else 0)
      else if n = ''GESTEP'' then out_int (if jle (arg_num_or (Fin 0) args 1) (a 0) then 1 else 0)
      else if n = ''COMPLEX'' then out_text (num_text (a 0) @ ''+'' @ num_text (a 1) @ ''i'')
      else if n = ''IMREAL'' then numeral_value (numeral_prefix (arg_text args 0))
      else if n = ''IMAGINARY'' then
        (let txt = arg_text args 0
         in if txt \<noteq> [] \<and> lower_char (last txt) = CHR ''i'' then numeral_value (imaginary_part (butlast txt)) else out_int 0)
      else if n = ''STDEVA'' then stdDev env xs False
      else if n = ''VARA'' then variance xs False
      else if n = ''MAXA'' then out_num (Fin (max_rats xs))
      else if n = ''MINA'' then out_num (Fin (min_rats xs))
      else if n = ''SUBTOTAL'' then subtotal args
      else if n = ''AGGREGATE'' then subtotal (take 1 args @ drop 2 args)
      else if n = ''CONVERT'' then convert_units (a 0) (js_lower (arg_text args 1)) (js_lower (arg_text args 2))
      else Unknown)"

section \<open>The dispatch\<close>

definition ext_variance :: "formula_env \<Rightarrow> string \<Rightarrow> fval list \<Rightarrow> outcome" where
  "ext_variance env n args =
     (let xs = finite_nums args; k = length args div 2 in
      if n = ''STDEV'' \<or> n = ''STDEV.S'' then stdDev env xs False
      else if n = ''STDEVP'' \<or> n = ''STDEV.P'' then stdDev env xs True
      else if n = ''VAR'' \<or> n = ''VAR.S'' then variance xs False
      else if n = ''VARP'' \<or> n = ''VAR.P'' then variance xs True
      else if n = ''CORREL'' then correl env (finite_nums (take k args)) (finite_nums (drop k args))
      else Unknown)"

fun first_known :: "(unit \<Rightarrow> outcome) list \<Rightarrow> outcome" where
  "first_known [] = Unknown"
| "first_known (f # fs) = (case f () of Unknown \<Rightarrow> first_known fs | r \<Rightarrow> r)"

definition evaluateExtendedFunction :: "formula_env \<Rightarrow> nat \<Rightarrow> string \<Rightarrow> fval list \<Rightarrow> outcome" where
  "evaluateExtendedFunction env tick fname args =
     (let n = js_upper fname in
      first_known [\<lambda>_. ext_variance env n args, \<lambda>_. ext_finance env n args, \<lambda>_. ext_basic env tick n args,
        \<lambda>_. ext_more env n args, \<lambda>_. ext_trig env n args, \<lambda>_. ext_stats env n args, \<lambda>_. ext_text env n args,
        \<lambda>_. ext_engineering env n args])"

end
