(* ===== verification/FormulaEngine.thy ===== *)
theory FormulaEngine
  imports FormulaExtended
begin

text \<open>
  The evaluator of \<^verbatim>\<open>frontend/src/lib/spreadsheet/formulas.ts\<close>: \<open>evaluateExpression\<close>,
  \<open>evaluateFunction\<close> with its switch, the values of cells and ranges, and the recalculation of a
  sheet and of a workbook.

  A computation has type \<open>'a ev\<close>: it reads and extends the cache of the pass and counts the calls of
  functions (\<open>es_tick\<close>); it returns a value or leaves with an exception. The two exceptions are the
  stack overflow of the runtime and a RangeError of a library function. Evaluation calls itself
  through cells and arguments: the first argument of \<open>evaluateExpression\<close> is the depth
  of nested calls that the stack allows. The set \<open>visiting\<close> of the code is filled before
  and emptied after each evaluation of a cell, so it is an argument here.
\<close>

section \<open>Computations\<close>

type_synonym cell_key = "int \<times> int \<times> int"

record ev_state =
  es_cache :: "cell_key \<Rightarrow> fresult option"
  es_tick :: nat

datatype fault = StackOverflow | RangeError

type_synonym 'a ev = "ev_state \<Rightarrow> fault + 'a \<times> ev_state"

definition ev_return :: "'a \<Rightarrow> 'a ev" where
  "ev_return x = (\<lambda>s. Inr (x, s))"

definition ev_raise :: "fault \<Rightarrow> 'a ev" where
  "ev_raise f = (\<lambda>s. Inl f)"

definition ev_bind :: "'a ev \<Rightarrow> ('a \<Rightarrow> 'b ev) \<Rightarrow> 'b ev" where
  "ev_bind m f = (\<lambda>s. case m s of Inl e \<Rightarrow> Inl e | Inr (x, s') \<Rightarrow> f x s')"

definition ev_lift :: "('a \<Rightarrow> 'b) \<Rightarrow> 'a ev \<Rightarrow> 'b ev" where
  "ev_lift f m = ev_bind m (\<lambda>x. ev_return (f x))"

primrec ev_map :: "('a \<Rightarrow> 'b ev) \<Rightarrow> 'a list \<Rightarrow> 'b list ev" where
  "ev_map f [] = ev_return []"
| "ev_map f (x # xs) = ev_bind (f x) (\<lambda>y. ev_lift (\<lambda>ys. y # ys) (ev_map f xs))"

text \<open>The number of this call, and the count raised by one.\<close>

definition ev_next_tick :: "nat ev" where
  "ev_next_tick = (\<lambda>s. Inr (es_tick s, s\<lparr>es_tick := Suc (es_tick s)\<rparr>))"

definition ev_cached :: "cell_key \<Rightarrow> fresult option ev" where
  "ev_cached k = (\<lambda>s. Inr (es_cache s k, s))"

definition ev_store :: "cell_key \<Rightarrow> fresult \<Rightarrow> fresult ev" where
  "ev_store k v = (\<lambda>s. Inr (v, s\<lparr>es_cache := (es_cache s)(k \<mapsto> v)\<rparr>))"

text \<open>\<open>text.replace(pattern, f)\<close>.\<close>

definition ev_replace :: "matcher \<Rightarrow> (string \<Rightarrow> string ev) \<Rightarrow> string \<Rightarrow> string ev" where
  "ev_replace m f s =
     ev_lift concat (ev_map (\<lambda>x. case x of Keep c \<Rightarrow> ev_return [c] | Hit h \<Rightarrow> f h) (segs m None s))"

section \<open>Cells and ranges\<close>

record eval_context =
  ec_env :: formula_env
  ec_sheets :: "sheet list"
  ec_names :: "named_range list option"

text \<open>\<open>evaluateExpression(ctx, sheetIndex, row, col, expression)\<close>, with the cells being visited.\<close>

type_synonym evaluator = "cell_key list \<Rightarrow> int \<Rightarrow> int \<Rightarrow> int \<Rightarrow> string \<Rightarrow> fresult ev"

definition of_cell_value :: "cell_value \<Rightarrow> fval" where
  "of_cell_value v = (case v of VNull \<Rightarrow> FNull | VNum n \<Rightarrow> FNum n | VStr s \<Rightarrow> FStr s)"

definition error_result :: "string \<Rightarrow> fresult" where
  "error_result s = Scalar (FStr s)"

definition evaluateFormulaCell :: "evaluator \<Rightarrow> cell_key list \<Rightarrow> int \<Rightarrow> int \<Rightarrow> int \<Rightarrow> string \<Rightarrow> fresult ev" where
  "evaluateFormulaCell ev visiting i r c f =
     (let key = (i, r, c) in
      if key \<in> set visiting then ev_return (error_result ''#ERROR!'')
      else ev_bind (ev_cached key) (\<lambda>hit. case hit of
             Some v \<Rightarrow> ev_return v
           | None \<Rightarrow>
               ev_bind (ev (key # visiting) i r c (if js_starts_with ''='' f then drop 1 f else f)) (ev_store key)))"

definition cell_of :: "sheet list \<Rightarrow> int \<Rightarrow> int \<Rightarrow> int \<Rightarrow> sheet_cell option" where
  "cell_of ss i r c = (case nth_opt ss i of None \<Rightarrow> None | Some s \<Rightarrow> grid_at (rows s) r c)"

definition getRawCellValue :: "eval_context \<Rightarrow> evaluator \<Rightarrow> cell_key list \<Rightarrow> int \<Rightarrow> int \<Rightarrow> int \<Rightarrow> fval ev" where
  "getRawCellValue C ev visiting i r c =
     (case cell_of (ec_sheets C) i r c of
        None \<Rightarrow> ev_return FNull
      | Some cell \<Rightarrow>
          if has_formula cell then ev_lift toScalar (evaluateFormulaCell ev visiting i r c (opt_text (formula cell)))
          else ev_return (of_cell_value (cvalue cell)))"

definition cells_between :: "int \<Rightarrow> int \<Rightarrow> int \<Rightarrow> int \<Rightarrow> (int \<times> int) list" where
  "cells_between r0 c0 r1 c1 = concat (map (\<lambda>r. map (Pair r) [c0..c1]) [r0..r1])"

definition collectRangeValues :: "eval_context \<Rightarrow> evaluator \<Rightarrow> cell_key list \<Rightarrow> int \<Rightarrow> cell_range \<Rightarrow> fval list ev" where
  "collectRangeValues C ev visiting i rng =
     (let n = normalizeRange rng
      in ev_map (\<lambda>(r, c). getRawCellValue C ev visiting i r c)
           (cells_between (row (rstart n)) (col (rstart n)) (row (rend n)) (col (rend n))))"

definition named_sheet :: "eval_context \<Rightarrow> int \<Rightarrow> named_range \<Rightarrow> int" where
  "named_sheet C i named = index_or (find_index (\<lambda>s. name s = nr_sheetName named) (ec_sheets C)) i"

definition range_of_bounds :: "region \<Rightarrow> cell_range" where
  "range_of_bounds b = \<lparr>rstart = \<lparr>row = startRow b, col = startCol b\<rparr>, rend = \<lparr>row = endRow b, col = endCol b\<rparr>\<rparr>"

definition table_column :: "eval_context \<Rightarrow> int \<Rightarrow> string \<Rightarrow> (region \<times> int) option" where
  "table_column C i trimmed =
     (case parseTableColumnRef trimmed of
        None \<Rightarrow> None
      | Some (t, c) \<Rightarrow> Option.bind (nth_opt (ec_sheets C) i) (\<lambda>s. resolveTableColumnIndex s t c))"

definition collectRangeValuesFromArg :: "eval_context \<Rightarrow> evaluator \<Rightarrow> cell_key list \<Rightarrow> int \<Rightarrow> string \<Rightarrow> fval list ev" where
  "collectRangeValuesFromArg C ev visiting i arg =
     (let trimmed = js_trim arg in
      case table_column C i trimmed of
        Some (b, c) \<Rightarrow> ev_map (\<lambda>r. getRawCellValue C ev visiting i r c) [startRow b + 1..endRow b]
      | None \<Rightarrow>
          (case findNamedRange (ec_names C) trimmed of
             Some named \<Rightarrow> collectRangeValues C ev visiting (named_sheet C i named) (range_of_bounds (nr_bounds named))
           | None \<Rightarrow>
               (let (j, refPart) = splitSheetQualifiedToken trimmed (ec_sheets C) i
                in case parseRangeRef (drop_dollars refPart) of
                     Some rng \<Rightarrow> collectRangeValues C ev visiting j rng
                   | None \<Rightarrow>
                       (case parseCellRef (drop_dollars refPart) of
                          Some a \<Rightarrow> ev_lift (\<lambda>v. [v]) (getRawCellValue C ev visiting j (row a) (col a))
                        | None \<Rightarrow> ev_return []))))"

definition table_rows :: "eval_context \<Rightarrow> evaluator \<Rightarrow> cell_key list \<Rightarrow> int \<Rightarrow> region \<Rightarrow> fval list list ev" where
  "table_rows C ev visiting i b =
     ev_map (\<lambda>r. ev_map (\<lambda>c. getRawCellValue C ev visiting i r c) [startCol b..endCol b]) [startRow b..endRow b]"

definition bounds_of_range :: "cell_range \<Rightarrow> region" where
  "bounds_of_range rng = (let n = normalizeRange rng in
     \<lparr>startRow = row (rstart n), startCol = col (rstart n), endRow = row (rend n), endCol = col (rend n)\<rparr>)"

definition getTableFromRangeArg :: "eval_context \<Rightarrow> evaluator \<Rightarrow> cell_key list \<Rightarrow> int \<Rightarrow> string \<Rightarrow> fval list list ev" where
  "getTableFromRangeArg C ev visiting i arg =
     (case findNamedRange (ec_names C) (js_trim arg) of
        Some named \<Rightarrow> table_rows C ev visiting (named_sheet C i named) (nr_bounds named)
      | None \<Rightarrow>
          (case parseRangeRef (drop_dollars arg) of
             None \<Rightarrow> ev_return []
           | Some rng \<Rightarrow> table_rows C ev visiting i (bounds_of_range rng)))"

text \<open>Rows and columns of a range argument.\<close>

definition region_size :: "region \<Rightarrow> int \<times> int" where
  "region_size b = (endRow b - startRow b + 1, endCol b - startCol b + 1)"

definition getRangeMetaFromArg :: "eval_context \<Rightarrow> int \<Rightarrow> string \<Rightarrow> (int \<times> int) option" where
  "getRangeMetaFromArg C i arg =
     (let trimmed = js_trim arg;
          qualified = (if CHR ''!'' \<in> set trimmed
            then parseRangeRef (drop_dollars (snd (splitSheetQualifiedToken trimmed (ec_sheets C) i))) else None)
      in case parseRangeRef (drop_dollars trimmed) of
           Some rng \<Rightarrow> Some (region_size (bounds_of_range rng))
         | None \<Rightarrow>
             (case qualified of
                Some rng \<Rightarrow> Some (region_size (bounds_of_range rng))
              | None \<Rightarrow>
                  (case findNamedRange (ec_names C) trimmed of
                     Some named \<Rightarrow> Some (region_size (nr_bounds named))
                   | None \<Rightarrow> if parseCellRef (drop_dollars trimmed) \<noteq> None then Some (1, 1) else None)))"

definition meta_cols :: "(int \<times> int) option \<Rightarrow> int" where
  "meta_cols m = (case m of Some (r, c) \<Rightarrow> c | None \<Rightarrow> 1)"

definition meta_rows :: "(int \<times> int) option \<Rightarrow> int" where
  "meta_rows m = (case m of Some (r, c) \<Rightarrow> r | None \<Rightarrow> 1)"

section \<open>Functions of the values of their arguments\<close>

definition ev_outcome :: "outcome \<Rightarrow> fresult ev" where
  "ev_outcome r = (case r of Done v \<Rightarrow> ev_return (Scalar v) | Unknown \<Rightarrow> ev_return (error_result ''#NAME?'') | Raised \<Rightarrow> ev_raise RangeError)"

fun ifs_loop :: "fval list \<Rightarrow> fval" where
  "ifs_loop (c # v # rest) = (if truthy c then v else ifs_loop rest)"
| "ifs_loop vs = FStr ''#N/A''"

text \<open>Equal values have equal texts, so the comparison of texts in any case decides.\<close>

fun switch_loop :: "string \<Rightarrow> fval list \<Rightarrow> fval option" where
  "switch_loop t (c # v # rest) = (if t = val_lower c then Some v else switch_loop t rest)"
| "switch_loop t vs = None"

definition switch_value :: "fval list \<Rightarrow> fval" where
  "switch_value args =
     (case switch_loop (js_lower (arg_text args 0)) (drop 1 args) of
        Some v \<Rightarrow> v
      | None \<Rightarrow> if 4 \<le> length args \<and> (length args - 1) mod 2 = 1 then last args else FStr ''#N/A'')"

definition average_value :: "rat list \<Rightarrow> fval" where
  "average_value xs = (if xs = [] then FStr ''#DIV/0!'' else FNum (sum_rats xs / len xs))"

definition median_value :: "rat list \<Rightarrow> fval" where
  "median_value xs =
     (let ys = sort_up xs; m = length ys div 2 in
      if ys = [] then FStr ''#NUM!''
      else if even (length ys) then FNum ((ys ! (m - 1) + ys ! m) / 2) else FNum (ys ! m))"

definition round_value :: "fval list \<Rightarrow> jsn \<Rightarrow> outcome" where
  "round_value args r = (if is_finite (arg_num args 0) then out_num r else out_text ''#VALUE!'')"

text \<open>The text with the \<open>k\<close>-th occurrence of \<open>search\<close> replaced.\<close>

fun join_replacing :: "string \<Rightarrow> string \<Rightarrow> jsn \<Rightarrow> int \<Rightarrow> string list \<Rightarrow> string" where
  "join_replacing search new k i [] = []"
| "join_replacing search new k i [p] = p"
| "join_replacing search new k i (p # q # ps) =
     p @ (if k = Fin (of_int i) then new else search) @ join_replacing search new k (i + 1) (q # ps)"

definition substitute_text :: "fval list \<Rightarrow> string" where
  "substitute_text args =
     (let txt = arg_text args 0; search = arg_text args 1; new = arg_text args 2 in
      if search = [] then txt
      else if int (length args) \<le> 3 then js_join new (js_split search txt)
      else join_replacing search new (jmax (Fin 1) (jround (arg_num args 3))) 1 (js_split search txt))"

definition text_value :: "formula_env \<Rightarrow> fval list \<Rightarrow> string" where
  "text_value env args =
     (let v = arg_or_null args 0;
          format = (case nth_opt args 1 of None \<Rightarrow> ''General'' | Some f \<Rightarrow> if f = FNull then ''General'' else val_text f);
          number = (case v of FNum _ \<Rightarrow> True | FNan \<Rightarrow> True | FInf _ \<Rightarrow> True | _ \<Rightarrow> False)
      in if number \<and> js_includes ''%'' format then percent_text (coerceNumber v)
         else if number \<and> (js_includes ''$'' format \<or> js_includes ''0.00'' format) then fe_currency env (coerceNumber v)
         else val_text v)"

definition pad2 :: "jsn \<Rightarrow> string" where
  "pad2 x = pad_start 2 (num_text x)"

definition date_value :: "fval list \<Rightarrow> outcome" where
  "date_value args =
     (let y = jround (arg_num args 0); m = jround (arg_num args 1); d = jround (arg_num args 2) in
      if is_finite y \<and> is_finite m \<and> is_finite d then out_text (num_text y @ ''-'' @ pad2 m @ ''-'' @ pad2 d)
      else out_text ''#VALUE!'')"

definition date_part :: "formula_env \<Rightarrow> (int \<times> int \<times> int \<Rightarrow> int) \<Rightarrow> fval list \<Rightarrow> outcome" where
  "date_part env f args = (case fe_dateParts env (arg_text args 0) of None \<Rightarrow> out_text ''#VALUE!'' | Some p \<Rightarrow> out_int (f p))"

definition address_text :: "fval list \<Rightarrow> string" where
  "address_text args =
     (let rowNum = num_text (jmax (Fin 1) (jround (arg_num args 0)));
          letters = (case jmax (Fin 1) (jround (arg_num args 1)) of Fin k \<Rightarrow> columnIndexToLetters (\<lfloor>k\<rfloor> - 1) | _ \<Rightarrow> []);
          absNum = arg_given jround (Fin 1) args 2
      in if absNum = Fin 1 then ''$'' @ letters @ ''$'' @ rowNum
         else if absNum = Fin 2 then letters @ ''$'' @ rowNum
         else if absNum = Fin 3 then ''$'' @ letters @ rowNum
         else letters @ rowNum)"

definition replace_first_T :: "string \<Rightarrow> string" where
  "replace_first_T s = takeWhile (\<lambda>c. c \<noteq> CHR ''T'') s @
     (case dropWhile (\<lambda>c. c \<noteq> CHR ''T'') s of [] \<Rightarrow> [] | _ # t \<Rightarrow> '' '' @ t)"

text \<open>The cases of the switch that need only the values; \<open>None\<close>: not one of them.\<close>

definition value_function :: "formula_env \<Rightarrow> nat \<Rightarrow> string \<Rightarrow> fval list \<Rightarrow> outcome option" where
  "value_function env tick n args =
     (let a = arg_num args; xs = finite_nums args; val = (\<lambda>v. Some (Done v)) in
      if n = ''SUM'' then Some (out_num (fsum xs))
      else if n = ''AVERAGE'' then val (average_value xs)
      else if n = ''COUNT'' then Some (out_int (int (length xs)))
      else if n = ''MIN'' then Some (out_num (Fin (min_rats xs)))
      else if n = ''MAX'' then Some (out_num (Fin (max_rats xs)))
      else if n = ''ABS'' then Some (out_num (jabs (a 0)))
      else if n = ''ROUND'' then Some (round_value args (at_digits env jround (a 0) (digits_arg args)))
      else if n = ''ROUNDUP'' then Some (round_value args (round_up env (a 0) (digits_arg args)))
      else if n = ''ROUNDDOWN'' then Some (round_value args (round_down env (a 0) (digits_arg args)))
      else if n = ''IF'' then val (if arg_truthy args 0 then arg_or_null args 1 else arg_or_null args 2)
      else if n = ''IFS'' then val (ifs_loop args)
      else if n = ''SWITCH'' then val (switch_value args)
      else if n = ''XOR'' then Some (out_bool (odd (length (filter truthy args))))
      else if n = ''AND'' then Some (out_bool (list_all truthy args))
      else if n = ''OR'' then Some (out_bool (list_ex truthy args))
      else if n = ''NOT'' then Some (out_bool (\<not> arg_truthy args 0))
      else if n = ''CONCATENATE'' \<or> n = ''CONCAT'' then Some (out_text (concat (map val_text args)))
      else if n = ''LEN'' then Some (out_int (int (length (arg_text args 0))))
      else if n = ''LEFT'' then Some (out_text (left_text args))
      else if n = ''RIGHT'' then Some (out_text (right_text args))
      else if n = ''MID'' then Some (out_text (mid_text args))
      else if n = ''TEXT'' then Some (out_text (text_value env args))
      else if n = ''UPPER'' then Some (out_text (js_upper (arg_text args 0)))
      else if n = ''LOWER'' then Some (out_text (js_lower (arg_text args 0)))
      else if n = ''TRIM'' then Some (out_text (js_trim (arg_text args 0)))
      else if n = ''TODAY'' then Some (out_text (take 10 (fe_now env tick)))
      else if n = ''NOW'' then Some (out_text (take 19 (replace_first_T (fe_now env tick))))
      else if n = ''MEDIAN'' then val (median_value xs)
      else if n = ''IFERROR'' then val (if is_error (arg_or_null args 0) then arg_or_null args 1 else arg_or_null args 0)
      else if n = ''YEAR'' then Some (date_part env (\<lambda>(y, m, d). y) args)
      else if n = ''MONTH'' then Some (date_part env (\<lambda>(y, m, d). m) args)
      else if n = ''DAY'' then Some (date_part env (\<lambda>(y, m, d). d) args)
      else if n = ''DATE'' then Some (date_value args)
      else if n = ''ISBLANK'' then Some (out_bool (nth_opt args 0 = Some FNull \<or> nth_opt args 0 = Some (FStr [])))
      else if n = ''IFNA'' then val (if arg_or_null args 0 = FStr ''#N/A'' then arg_or_null args 1 else arg_or_null args 0)
      else if n = ''SUBSTITUTE'' then Some (out_text (substitute_text args))
      else if n = ''TEXTJOIN'' then
        (let ps = map val_text (drop 2 args)
         in Some (out_text (js_join (arg_text args 0) (if arg_truthy args 1 then filter (\<lambda>p. p \<noteq> []) ps else ps))))
      else if n = ''ADDRESS'' then Some (out_text (address_text args))
      else if n = ''AREAS'' then Some (out_int 1)
      else None)"

section \<open>Functions of ranges\<close>

text \<open>What these cases of the switch use of the evaluator.\<close>

record access =
  ac_collect :: "string \<Rightarrow> fval list ev"
  ac_table :: "string \<Rightarrow> fval list list ev"
  ac_meta :: "string \<Rightarrow> (int \<times> int) option"
  ac_cell :: "int \<Rightarrow> int \<Rightarrow> int \<Rightarrow> fval ev"
  ac_range :: "int \<Rightarrow> cell_range \<Rightarrow> fval list ev"
  ac_expr :: "string \<Rightarrow> fresult ev"
  ac_split :: "string \<Rightarrow> int \<times> string"
  ac_sheet_exists :: "string \<Rightarrow> bool"
  ac_sheet :: int
  ac_row :: int
  ac_col :: int

definition indices :: "'a list \<Rightarrow> int list" where
  "indices xs = [0..int (length xs) - 1]"

text \<open>\<open>matchesAllCriteria\<close> over the pairs of a range and a criterion.\<close>

fun matchesAllCriteria :: "access \<Rightarrow> string list \<Rightarrow> int \<Rightarrow> bool ev" where
  "matchesAllCriteria A (p # q # rest) i =
     ev_bind (ac_collect A (js_trim p)) (\<lambda>vs.
       if matches_criteria (js_trim q) (nth_opt vs i) then matchesAllCriteria A rest i else ev_return False)"
| "matchesAllCriteria A ps i = ev_return True"

text \<open>The values of the first range at which all pairs from position \<open>start\<close> on match.\<close>

definition values_where :: "access \<Rightarrow> string list \<Rightarrow> nat \<Rightarrow> fval list ev" where
  "values_where A ps start =
     ev_bind (ac_collect A (part ps 0)) (\<lambda>vs.
     ev_lift (\<lambda>flags. map fst (filter snd (zip vs flags))) (ev_map (matchesAllCriteria A (drop start ps)) (indices vs)))"

definition scalar_fn :: "fval \<Rightarrow> fresult ev" where
  "scalar_fn v = ev_return (Scalar v)"

definition int_fn :: "int \<Rightarrow> fresult ev" where
  "int_fn i = ev_return (Scalar (FNum (of_int i)))"

definition array_fn :: "fval list \<Rightarrow> int \<Rightarrow> int \<Rightarrow> fresult ev" where
  "array_fn vs r c = ev_return (Arr \<lparr>ea_values = vs, spillRows = Some r, spillCols = Some c\<rparr>)"

definition criterion :: "string list \<Rightarrow> fval list \<Rightarrow> string" where
  "criterion ps args = (case nth_opt ps 1 of Some p \<Rightarrow> js_trim p | None \<Rightarrow> arg_text args 1)"

definition na :: fval where "na = FStr ''#N/A''"

definition countif_fn :: "access \<Rightarrow> string list \<Rightarrow> fval list \<Rightarrow> fresult ev" where
  "countif_fn A ps args = ev_bind (ac_collect A (part ps 0)) (\<lambda>vs. int_fn (countIfValues vs (criterion ps args)))"

text \<open>The numbers of SUMIF and AVERAGEIF: at each match, the value of the third range or, where it
  has none, the tested value.\<close>

definition if_numbers :: "string \<Rightarrow> fval list \<Rightarrow> fval list \<Rightarrow> rat list" where
  "if_numbers crit tested summed =
     concat (mapi (\<lambda>i v. if matches_criteria crit (Some v) then finite_nums [elem_or v (nth_opt summed i)] else []) tested)"

definition if_fn :: "access \<Rightarrow> (rat list \<Rightarrow> fval) \<Rightarrow> string list \<Rightarrow> fval list \<Rightarrow> fresult ev" where
  "if_fn A result ps args =
     ev_bind (ac_collect A (part ps 0)) (\<lambda>tested.
     ev_bind (if part ps 2 \<noteq> [] then ac_collect A (part ps 2) else ev_return tested) (\<lambda>summed.
     scalar_fn (result (if_numbers (criterion ps args) tested summed))))"

definition sum_value :: "rat list \<Rightarrow> fval" where "sum_value xs = FNum (sum_rats xs)"

definition ifs_fn :: "access \<Rightarrow> (rat list \<Rightarrow> fval) \<Rightarrow> string list \<Rightarrow> fresult ev" where
  "ifs_fn A result ps = ev_bind (values_where A ps 1) (\<lambda>vs. scalar_fn (result (finite_nums vs)))"

definition countifs_fn :: "access \<Rightarrow> string list \<Rightarrow> fresult ev" where
  "countifs_fn A ps = ev_bind (values_where A ps 0) (\<lambda>vs. int_fn (int (length vs)))"

definition filled :: "fval list \<Rightarrow> int" where
  "filled vs = int (length (filter (\<lambda>v. v \<noteq> FNull \<and> v \<noteq> FStr []) vs))"

definition counta_part :: "access \<Rightarrow> string \<Rightarrow> int ev" where
  "counta_part A p =
     ev_bind (ac_collect A (js_trim p)) (\<lambda>vs.
       if vs \<noteq> [] then ev_return (filled vs) else ev_lift (\<lambda>r. filled [toScalar r]) (ac_expr A (js_trim p)))"

definition counta_fn :: "access \<Rightarrow> string list \<Rightarrow> fresult ev" where
  "counta_fn A ps = ev_bind (ev_map (counta_part A) ps) (\<lambda>ks. int_fn (sum_list ks))"

definition countblank_fn :: "access \<Rightarrow> string list \<Rightarrow> fresult ev" where
  "countblank_fn A ps = ev_bind (ac_collect A (part ps 0)) (\<lambda>vs. int_fn (int (length vs) - filled vs))"

definition index_arg :: "fval list \<Rightarrow> int \<Rightarrow> jsn" where
  "index_arg args i = jsub (jmax (Fin 1) (jround (arg_num args i))) (Fin 1)"

definition vlookup_fn :: "access \<Rightarrow> string list \<Rightarrow> fval list \<Rightarrow> fresult ev" where
  "vlookup_fn A ps args =
     ev_bind (ac_table A (part ps 1)) (\<lambda>table.
       scalar_fn (case List.find (\<lambda>line. js_lower (value_text (nth_opt line 0)) = js_lower (arg_text args 0)) table of
           None \<Rightarrow> na | Some line \<Rightarrow> elem_or na (at_index line (index_arg args 2))))"

definition position_of :: "string \<Rightarrow> fval list \<Rightarrow> nat option" where
  "position_of t vs = find_index (\<lambda>v. val_lower v = js_lower t) vs"

definition match_fn :: "access \<Rightarrow> string list \<Rightarrow> fval list \<Rightarrow> fresult ev" where
  "match_fn A ps args =
     ev_bind (ac_collect A (part ps 1)) (\<lambda>vs.
       scalar_fn (case position_of (arg_text args 0) vs of None \<Rightarrow> na | Some i \<Rightarrow> FNum (of_nat i + 1)))"

definition index_fn :: "access \<Rightarrow> string list \<Rightarrow> fval list \<Rightarrow> fresult ev" where
  "index_fn A ps args =
     ev_bind (ac_table A (part ps 0)) (\<lambda>table.
       scalar_fn (case Option.bind (at_index table (index_arg args 1))
             (\<lambda>line. at_index line (if 2 < length ps then index_arg args 2 else Fin 0)) of
           None \<Rightarrow> FStr ''#REF!'' | Some v \<Rightarrow> v))"

definition xlookup_fn :: "access \<Rightarrow> string list \<Rightarrow> fval list \<Rightarrow> fresult ev" where
  "xlookup_fn A ps args =
     ev_bind (ac_collect A (part ps 1)) (\<lambda>lookupValues.
     ev_bind (ac_collect A (part ps 2)) (\<lambda>returnValues.
       case position_of (arg_text args 0) lookupValues of
         None \<Rightarrow> (case nth_opt ps 3 of
             Some p \<Rightarrow> if p \<noteq> [] then ac_expr A (js_trim p) else scalar_fn na
           | None \<Rightarrow> scalar_fn na)
       | Some i \<Rightarrow> scalar_fn (elem_or na (nth_opt returnValues (int i)))))"

definition hlookup_fn :: "access \<Rightarrow> string list \<Rightarrow> fval list \<Rightarrow> fresult ev" where
  "hlookup_fn A ps args =
     ev_bind (ac_table A (part ps 1)) (\<lambda>table.
       scalar_fn (case table of
           [] \<Rightarrow> na
         | header # _ \<Rightarrow>
             (case position_of (arg_text args 0) header of
                None \<Rightarrow> na
              | Some c \<Rightarrow> elem_or na (Option.bind (at_index table (index_arg args 2)) (\<lambda>line. nth_opt line (int c))))))"

definition own_ref :: "string list \<Rightarrow> cell_address option" where
  "own_ref ps = parseCellRef (drop_dollars (part ps 0))"

definition offset_fn :: "access \<Rightarrow> string list \<Rightarrow> fval list \<Rightarrow> fresult ev" where
  "offset_fn A ps args =
     (case own_ref ps of
        None \<Rightarrow> scalar_fn (FStr ''#REF!'')
      | Some anchor \<Rightarrow>
          (let r = jadd (Fin (of_int (row anchor))) (jround (arg_num args 1));
               c = jadd (Fin (of_int (col anchor))) (jround (arg_num args 2))
           in if jlt r (Fin 0) \<or> jlt c (Fin 0) then scalar_fn (FStr ''#REF!'')
              else case (whole_index r, whole_index c) of
                     (Some i, Some j) \<Rightarrow> ev_lift Scalar (ac_cell A (ac_sheet A) i j)
                   | _ \<Rightarrow> scalar_fn FNull))"

definition lookup_fn :: "access \<Rightarrow> string list \<Rightarrow> fval list \<Rightarrow> fresult ev" where
  "lookup_fn A ps args =
     ev_bind (ac_collect A (part ps 1)) (\<lambda>vs.
     ev_bind (case nth_opt ps 2 of
         Some p \<Rightarrow> if p \<noteq> [] then ac_collect A (js_trim p) else ev_return vs
       | None \<Rightarrow> ev_return vs) (\<lambda>results.
       let below = (case arg_num args 0 of
              Fin t \<Rightarrow> filter (\<lambda>i. case value_number (nth_opt vs i) of Some v \<Rightarrow> v \<le> t | None \<Rightarrow> False) (indices vs)
            | _ \<Rightarrow> []);
           found = (case position_of (arg_text args 0) vs of
              Some i \<Rightarrow> Some (int i)
            | None \<Rightarrow> if below = [] then None else Some (last below))
       in scalar_fn (case found of None \<Rightarrow> na | Some i \<Rightarrow> elem_or na (nth_opt results i))))"

definition filter_fn :: "access \<Rightarrow> string list \<Rightarrow> fresult ev" where
  "filter_fn A ps =
     ev_bind (ac_collect A (part ps 0)) (\<lambda>vs. ev_bind (ac_collect A (part ps 1)) (\<lambda>flags.
       ev_return (Arr (evalFilter vs flags (meta_cols (ac_meta A (part ps 0)))))))"

definition sort_fn :: "formula_env \<Rightarrow> access \<Rightarrow> string list \<Rightarrow> fval list \<Rightarrow> fresult ev" where
  "sort_fn env A ps args =
     ev_bind (ac_collect A (part ps 0)) (\<lambda>vs.
       let sortIndex = (if 1 < length ps then jmax (Fin 1) (jround (arg_num args 1)) else Fin 1);
           sortOrder = (if 2 < length ps then jround (arg_num args 2) else Fin 1)
       in ev_return (Arr (evalSort (fe_host env) vs (meta_cols (ac_meta A (part ps 0))) (whole_index sortIndex) (fin_of sortOrder))))"

definition unique_fn :: "access \<Rightarrow> string list \<Rightarrow> fresult ev" where
  "unique_fn A ps =
     ev_bind (ac_collect A (part ps 0)) (\<lambda>vs. ev_return (Arr (evalUnique vs (meta_cols (ac_meta A (part ps 0))))))"

definition sequence_fn :: "fval list \<Rightarrow> fresult ev" where
  "sequence_fn args =
     ev_return (Arr (evalSequence (fin_of (jround (arg_num args 0))) (fin_of (arg_given jround (Fin 1) args 1))
       (fin_of (arg_given (\<lambda>x. x) (Fin 1) args 2)) (fin_of (arg_given (\<lambda>x. x) (Fin 1) args 3))))"

definition sortby_fn :: "formula_env \<Rightarrow> access \<Rightarrow> string list \<Rightarrow> fresult ev" where
  "sortby_fn env A ps =
     ev_bind (ac_collect A (part ps 0)) (\<lambda>vs. ev_bind (ac_collect A (part ps 1)) (\<lambda>keys.
       ev_return (Arr (evalSortBy (fe_host env) vs keys))))"

definition transpose_fn :: "access \<Rightarrow> string list \<Rightarrow> fresult ev" where
  "transpose_fn A ps =
     ev_bind (ac_collect A (part ps 0)) (\<lambda>vs.
       let meta = ac_meta A (part ps 0);
           cs = meta_cols meta;
           rs = (case meta of Some (r, _) \<Rightarrow> r | None \<Rightarrow> int (length vs))
       in array_fn (concat (map (\<lambda>c. map (\<lambda>r. elem_or FNull (nth_opt vs (r * cs + c))) [0..rs - 1]) [0..cs - 1])) cs rs)"

definition column_fn :: "access \<Rightarrow> string list \<Rightarrow> fresult ev" where
  "column_fn A ps = ev_bind (ac_collect A (part ps 0)) (\<lambda>vs. array_fn vs (int (length vs)) 1)"

definition row_fn :: "access \<Rightarrow> string list \<Rightarrow> fresult ev" where
  "row_fn A ps = ev_bind (ac_collect A (part ps 0)) (\<lambda>vs. array_fn vs 1 (max 1 (int (length vs))))"

definition collect_all :: "access \<Rightarrow> string list \<Rightarrow> fval list list ev" where
  "collect_all A ps = ev_map (\<lambda>p. ac_collect A (js_trim p)) ps"

definition vstack_fn :: "access \<Rightarrow> string list \<Rightarrow> fresult ev" where
  "vstack_fn A ps = ev_bind (collect_all A ps) (\<lambda>vss. array_fn (concat vss) (int (length (concat vss))) 1)"

definition hstack_fn :: "access \<Rightarrow> string list \<Rightarrow> fresult ev" where
  "hstack_fn A ps = ev_bind (collect_all A ps) (\<lambda>vss. array_fn (concat vss) 1 (max 1 (int (length (concat vss)))))"

definition choosecols_fn :: "access \<Rightarrow> string list \<Rightarrow> fval list \<Rightarrow> fresult ev" where
  "choosecols_fn A ps args =
     ev_bind (ac_collect A (part ps 0)) (\<lambda>vs.
       let meta = ac_meta A (part ps 0); cs = meta_cols meta; rs = meta_rows meta
       in array_fn (map (\<lambda>r. elem_or FNull (at_index vs (jadd (Fin (of_int (r * cs))) (index_arg args 1)))) [0..rs - 1]) rs 1)"

definition chooserows_fn :: "access \<Rightarrow> string list \<Rightarrow> fval list \<Rightarrow> fresult ev" where
  "chooserows_fn A ps args =
     ev_bind (ac_collect A (part ps 0)) (\<lambda>vs.
       let cs = meta_cols (ac_meta A (part ps 0))
       in array_fn (map (\<lambda>c. elem_or FNull (at_index vs (jadd (jmul (index_arg args 1) (Fin (of_int cs))) (Fin (of_int c))))) [0..cs - 1]) 1 cs)"

definition product_at :: "fval list list \<Rightarrow> nat \<Rightarrow> rat" where
  "product_at vss i = foldl (\<lambda>p vs. p * (case value_number (nth_opt vs (int i)) of Some v \<Rightarrow> v | None \<Rightarrow> 0)) 1 vss"

definition sumproduct_fn :: "access \<Rightarrow> string list \<Rightarrow> fresult ev" where
  "sumproduct_fn A ps =
     (if ps = [] then int_fn 0
      else ev_bind (collect_all A ps) (\<lambda>vss.
        scalar_fn (FNum (sum_rats (map (product_at vss) [0..<Min (set (map length vss))])))))"

text \<open>\<open>sheetName.replace(/^'|'$/g, "")\<close>.\<close>

definition strip_single_quotes :: "string \<Rightarrow> string" where
  "strip_single_quotes s =
     (let t = (case s of c # u \<Rightarrow> if c = CHR 0x27 then u else s | [] \<Rightarrow> [])
      in if t \<noteq> [] \<and> last t = CHR 0x27 then butlast t else t)"

definition indirect_fn :: "access \<Rightarrow> fval list \<Rightarrow> fresult ev" where
  "indirect_fn A args =
     (let refText = js_trim (arg_text args 0);
          (i, ref) = ac_split A refText;
          sheetName = strip_single_quotes (take (nat (last_bang refText)) refText)
      in if refText = [] then scalar_fn (FStr ''#REF!'')
         else if CHR ''!'' \<in> set refText \<and> i = ac_sheet A \<and> \<not> ac_sheet_exists A sheetName then scalar_fn (FStr ''#REF!'')
         else case parseRangeRef (drop_dollars ref) of
           Some rng \<Rightarrow>
             ev_bind (ac_range A i rng) (\<lambda>vs.
               array_fn vs (row (rend rng) - row (rstart rng) + 1) (col (rend rng) - col (rstart rng) + 1))
         | None \<Rightarrow>
             (case parseCellRef (drop_dollars ref) of
                None \<Rightarrow> scalar_fn (FStr ''#REF!'')
              | Some a \<Rightarrow> ev_lift Scalar (ac_cell A i (row a) (col a))))"

text \<open>The bindings of LET, from the first name on; \<open>None\<close> at a name that is not allowed.\<close>

fun let_bindings :: "access \<Rightarrow> (string \<times> string) list \<Rightarrow> string list \<Rightarrow> (string \<times> string) list option ev" where
  "let_bindings A bs (n # v # rest) =
     (if \<not> is_let_name (js_trim n) then ev_return None
      else ev_bind (ac_expr A (applyLetBindings (js_trim v) bs)) (\<lambda>r.
        let_bindings A (set_binding (js_upper (js_trim n)) (if toScalar r = FNull then ''0'' else val_string (toScalar r)) bs) rest))"
| "let_bindings A bs ps = ev_return (Some bs)"

definition let_fn :: "access \<Rightarrow> string list \<Rightarrow> fresult ev" where
  "let_fn A ps =
     (if length ps < 3 \<or> even (length ps) then scalar_fn (FStr ''#VALUE!'')
      else ev_bind (let_bindings A [] (butlast ps)) (\<lambda>bs. case bs of
          None \<Rightarrow> scalar_fn (FStr ''#VALUE!'')
        | Some bound \<Rightarrow> ac_expr A (applyLetBindings (js_trim (last ps)) bound)))"

definition kth_fn :: "access \<Rightarrow> (rat list \<Rightarrow> rat list) \<Rightarrow> string list \<Rightarrow> fval list \<Rightarrow> fresult ev" where
  "kth_fn A order ps args =
     ev_bind (ac_collect A (part ps 0)) (\<lambda>vs.
       scalar_fn (case at_index (order (finite_nums vs)) (index_arg args (int (length args) - 1)) of
           None \<Rightarrow> FStr ''#NUM!'' | Some v \<Rightarrow> FNum v))"

definition percentile_fn :: "access \<Rightarrow> string list \<Rightarrow> fval list \<Rightarrow> fresult ev" where
  "percentile_fn A ps args =
     ev_bind (ac_collect A (part ps 0)) (\<lambda>vs.
       scalar_fn (percentile (sort_up (finite_nums vs)) (arg_num args (int (length args) - 1))))"

text \<open>The cases of the switch that read ranges; \<open>None\<close>: not one of them.\<close>

definition range_function ::
    "formula_env \<Rightarrow> access \<Rightarrow> string \<Rightarrow> string \<Rightarrow> string list \<Rightarrow> fval list \<Rightarrow> fresult ev option" where
  "range_function env A n argsRaw ps args =
     (if n = ''COUNTIF'' then Some (countif_fn A ps args)
      else if n = ''SUMIF'' then Some (if_fn A sum_value ps args)
      else if n = ''AVERAGEIF'' then Some (if_fn A average_value ps args)
      else if n = ''SUMIFS'' then Some (ifs_fn A sum_value ps)
      else if n = ''COUNTIFS'' then Some (countifs_fn A ps)
      else if n = ''COUNTA'' then Some (counta_fn A ps)
      else if n = ''COUNTBLANK'' then Some (countblank_fn A ps)
      else if n = ''AVERAGEIFS'' then Some (ifs_fn A average_value ps)
      else if n = ''VLOOKUP'' then Some (vlookup_fn A ps args)
      else if n = ''MATCH'' then Some (match_fn A ps args)
      else if n = ''INDEX'' then Some (index_fn A ps args)
      else if n = ''XLOOKUP'' then Some (xlookup_fn A ps args)
      else if n = ''HLOOKUP'' then Some (hlookup_fn A ps args)
      else if n = ''ROW'' then Some (int_fn ((case own_ref ps of Some a \<Rightarrow> row a | None \<Rightarrow> ac_row A) + 1))
      else if n = ''COLUMN'' then Some (int_fn ((case own_ref ps of Some a \<Rightarrow> col a | None \<Rightarrow> ac_col A) + 1))
      else if n = ''OFFSET'' then Some (offset_fn A ps args)
      else if n = ''MAXIFS'' then Some (ifs_fn A (\<lambda>xs. FNum (max_rats xs)) ps)
      else if n = ''MINIFS'' then Some (ifs_fn A (\<lambda>xs. FNum (min_rats xs)) ps)
      else if n = ''FILTER'' then Some (filter_fn A ps)
      else if n = ''SORT'' then Some (sort_fn env A ps args)
      else if n = ''UNIQUE'' then Some (unique_fn A ps)
      else if n = ''SEQUENCE'' then Some (sequence_fn args)
      else if n = ''SORTBY'' then Some (sortby_fn env A ps)
      else if n = ''TRANSPOSE'' then Some (transpose_fn A ps)
      else if n = ''XMATCH'' then Some (match_fn A ps args)
      else if n = ''LOOKUP'' then Some (lookup_fn A ps args)
      else if n = ''COLUMNS'' then Some (int_fn (meta_cols (ac_meta A (part ps 0))))
      else if n = ''ROWS'' then Some (int_fn (meta_rows (ac_meta A (part ps 0))))
      else if n = ''TOCOL'' then Some (column_fn A ps)
      else if n = ''TOROW'' then Some (row_fn A ps)
      else if n = ''VSTACK'' then Some (vstack_fn A ps)
      else if n = ''HSTACK'' then Some (hstack_fn A ps)
      else if n = ''CHOOSECOLS'' then Some (choosecols_fn A ps args)
      else if n = ''CHOOSEROWS'' then Some (chooserows_fn A ps args)
      else if n = ''SUMPRODUCT'' then Some (sumproduct_fn A ps)
      else if n = ''INDIRECT'' then Some (indirect_fn A args)
      else if n = ''LET'' then Some (let_fn A ps)
      else if n = ''LAMBDA'' then Some (scalar_fn (FStr (''#LAMBDA('' @ argsRaw @ '')'')))
      else if n = ''LARGE'' then Some (kth_fn A sort_down ps args)
      else if n = ''SMALL'' then Some (kth_fn A sort_up ps args)
      else if n = ''PERCENTILE'' \<or> n = ''PERCENTILE.INC'' then Some (percentile_fn A ps args)
      else None)"

definition access_of :: "eval_context \<Rightarrow> evaluator \<Rightarrow> cell_key list \<Rightarrow> int \<Rightarrow> int \<Rightarrow> int \<Rightarrow> access" where
  "access_of C ev visiting i r c =
     \<lparr>ac_collect = collectRangeValuesFromArg C ev visiting i,
      ac_table = getTableFromRangeArg C ev visiting i,
      ac_meta = getRangeMetaFromArg C i,
      ac_cell = getRawCellValue C ev visiting,
      ac_range = collectRangeValues C ev visiting,
      ac_expr = ev visiting i r c,
      ac_split = (\<lambda>s. splitSheetQualifiedToken s (ec_sheets C) i),
      ac_sheet_exists = (\<lambda>n. list_ex (\<lambda>s. js_lower (name s) = js_lower n) (ec_sheets C)),
      ac_sheet = i, ac_row = r, ac_col = c\<rparr>"

definition run_function :: "formula_env \<Rightarrow> access \<Rightarrow> string \<Rightarrow> string \<Rightarrow> nat \<Rightarrow> fval list \<Rightarrow> fresult ev" where
  "run_function env A upper argsRaw tick args =
     (case value_function env tick upper args of
        Some r \<Rightarrow> ev_outcome r
      | None \<Rightarrow>
          (case range_function env A upper argsRaw (splitFunctionArgs argsRaw) args of
             Some m \<Rightarrow> m
           | None \<Rightarrow> ev_outcome (evaluateExtendedFunction env tick upper args)))"

definition evaluateFunction :: "formula_env \<Rightarrow> access \<Rightarrow> string \<Rightarrow> string \<Rightarrow> fresult ev" where
  "evaluateFunction env A fname argsRaw =
     ev_bind (ev_map (\<lambda>arg. ev_lift toScalar (ac_expr A (js_trim arg))) (splitFunctionArgs argsRaw)) (\<lambda>args.
     ev_bind ev_next_tick (\<lambda>tick. run_function env A (js_upper fname) argsRaw tick args))"

section \<open>Expressions\<close>

definition quoted :: "string \<Rightarrow> string" where
  "quoted s = [dquote] @ s @ [dquote]"

definition str_mark :: "int \<Rightarrow> string" where "str_mark k = ''__STR'' @ show_int k @ ''__''"
definition arr_mark :: "int \<Rightarrow> string" where "arr_mark k = ''__ARR'' @ show_int k @ ''__''"

text \<open>\<open>value.replace(/"/g, by)\<close>.\<close>

definition escape_quotes :: "string \<Rightarrow> string \<Rightarrow> string" where
  "escape_quotes by s = concat (map (\<lambda>c. if c = dquote then by else [c]) s)"

text \<open>The placeholders in the arguments of a call replaced by their strings.\<close>

definition resolve_args :: "string list \<Rightarrow> string \<Rightarrow> string" where
  "resolve_args strings args =
     re_replace m_str_mark (\<lambda>h. case nth_opt strings (mark_index h) of
       None \<Rightarrow> h | Some s \<Rightarrow> quoted (escape_quotes [dquote, dquote] s)) args"

definition scalar_text :: "fval \<Rightarrow> string" where
  "scalar_text v =
     (case v of
        FStr s \<Rightarrow> if js_starts_with ''#'' s then quoted s else quoted (escape_quotes [CHR 0x5C, dquote] s)
      | _ \<Rightarrow> val_string v)"

text \<open>The calls from left to right; array results are kept aside and leave a marker.\<close>

fun replace_calls :: "formula_env \<Rightarrow> access \<Rightarrow> string list \<Rightarrow> eval_array list \<Rightarrow> seg list \<Rightarrow> (string \<times> eval_array list) ev" where
  "replace_calls env A strings arrays [] = ev_return ([], arrays)"
| "replace_calls env A strings arrays (Keep c # xs) =
     ev_lift (\<lambda>(t, as). (c # t, as)) (replace_calls env A strings arrays xs)"
| "replace_calls env A strings arrays (Hit h # xs) =
     ev_bind (evaluateFunction env A (call_name h) (resolve_args strings (call_args h))) (\<lambda>r.
       case r of
         Arr a \<Rightarrow> ev_lift (\<lambda>(t, as). (arr_mark (int (length arrays)) @ t, as)) (replace_calls env A strings (arrays @ [a]) xs)
       | Scalar v \<Rightarrow> ev_lift (\<lambda>(t, as). (scalar_text v @ t, as)) (replace_calls env A strings arrays xs))"

text \<open>\<open>^__ARR(\d+)__$\<close> and \<open>^__STR\d+__$\<close> of a whole text.\<close>

definition sole_mark :: "string \<Rightarrow> string \<Rightarrow> int option" where
  "sole_mark pre s =
     (let digits = takeWhile is_digit (drop 5 s)
      in if digits \<noteq> [] \<and> s = pre @ digits @ ''__'' then Some (digits_value 10 digits) else None)"

definition sum_text :: "fval list \<Rightarrow> string" where
  "sum_text vs = (let xs = finite_nums vs in if xs = [] then ''0'' else js_join ''+'' (map show_num xs))"

definition cell_text :: "fval \<Rightarrow> string" where
  "cell_text v =
     (if is_error v then ''0''
      else case v of
        FStr s \<Rightarrow> (case coerceNumber v of Fin x \<Rightarrow> show_num x | _ \<Rightarrow> quoted s)
      | FBool b \<Rightarrow> if b then ''1'' else ''0''
      | FNull \<Rightarrow> ''0''
      | _ \<Rightarrow> val_string v)"

definition replace_qualified_ranges :: "eval_context \<Rightarrow> access \<Rightarrow> string \<Rightarrow> string ev" where
  "replace_qualified_ranges C A = ev_replace sheet_qualified_range (\<lambda>h.
     let (j, ref) = ac_split A h in
     case parseRangeRef (drop_dollars ref) of
       None \<Rightarrow> ev_return h
     | Some rng \<Rightarrow> ev_lift sum_text (ac_range A j rng))"

definition replace_ranges :: "access \<Rightarrow> string \<Rightarrow> string ev" where
  "replace_ranges A = ev_replace m_range (\<lambda>h.
     case parseRangeRef h of None \<Rightarrow> ev_return h | Some rng \<Rightarrow> ev_lift sum_text (ac_range A (ac_sheet A) rng))"

definition replace_qualified_cells :: "access \<Rightarrow> string \<Rightarrow> string ev" where
  "replace_qualified_cells A = ev_replace sheet_qualified_cell (\<lambda>h.
     let (j, ref) = ac_split A h in
     case parseCellRef (drop_dollars ref) of
       None \<Rightarrow> ev_return h
     | Some a \<Rightarrow> ev_lift cell_text (ac_cell A j (row a) (col a)))"

definition replace_cells :: "access \<Rightarrow> string \<Rightarrow> string ev" where
  "replace_cells A = ev_replace m_cell (\<lambda>h.
     case parseCellRef h of
       None \<Rightarrow> ev_return h
     | Some a \<Rightarrow> ev_lift cell_text (ac_cell A (ac_sheet A) (row a) (col a)))"

definition restore_strings :: "string list \<Rightarrow> string \<Rightarrow> string" where
  "restore_strings strings s =
     re_replace m_str_mark (\<lambda>h. quoted (case nth_opt strings (mark_index h) of Some t \<Rightarrow> t | None \<Rightarrow> ''undefined'')) s"

text \<open>What is left is JavaScript, when it has no other characters than it may have.\<close>

definition js_scalar :: "js_result \<Rightarrow> fval" where
  "js_scalar r =
     (case r of
        Throws \<Rightarrow> FStr ''#ERROR!''
      | Returns v \<Rightarrow>
          (case v of
             JNum x \<Rightarrow> if is_finite x then fnum x else FStr ''#DIV/0!''
           | JBool b \<Rightarrow> FBool b
           | JStr s \<Rightarrow> FStr (strip_quotes s)
           | JNull \<Rightarrow> FNull
           | JOther s \<Rightarrow> FStr s))"

definition finish_expression :: "formula_env \<Rightarrow> string list \<Rightarrow> string \<Rightarrow> fval" where
  "finish_expression env strings text =
     (let t1 = re_replace (m_word ''false'') (\<lambda>_. ''false'') (re_replace (m_word ''true'') (\<lambda>_. ''true'') text);
          t2 = map (\<lambda>c. if c = CHR ''&'' then CHR ''+'' else c) (restore_strings strings t1)
      in if is_clean t2 then js_scalar (js_run (fe_js env) (to_js t2)) else FStr ''#ERROR!'')"

definition string_segs :: "string \<Rightarrow> seg list" where "string_segs s = segs m_string None s"
definition inner_text :: "string \<Rightarrow> string" where "inner_text h = butlast (drop 1 h)"

definition expression_body :: "eval_context \<Rightarrow> access \<Rightarrow> string \<Rightarrow> fresult ev" where
  "expression_body C A expression =
     (let env = ec_env C;
          e0 = js_trim expression;
          strings = map inner_text (hits (string_segs e0));
          e1 = numbered str_mark 0 (string_segs e0);
          sole = Option.bind (sole_mark ''__STR'' e1) (nth_opt strings)
      in if e0 = [] then ev_return (Scalar FNull)
         else if js_lower e0 = ''true'' then ev_return (Scalar (FBool True))
         else if js_lower e0 = ''false'' then ev_return (Scalar (FBool False))
         else case sole of
           Some s \<Rightarrow> ev_return (Scalar (FStr s))
         | None \<Rightarrow>
             ev_bind (replace_calls env A strings [] (segs m_call None e1)) (\<lambda>(e2, arrays).
               case sole_mark ''__ARR'' (js_trim e2) of
                 Some k \<Rightarrow> ev_return (case nth_opt arrays k of Some a \<Rightarrow> Arr a | None \<Rightarrow> Scalar FNull)
               | None \<Rightarrow>
                   ev_bind (replace_qualified_ranges C A e2) (\<lambda>e3.
                   ev_bind (replace_ranges A e3) (\<lambda>e4.
                   ev_bind (replace_qualified_cells A e4) (\<lambda>e5.
                   ev_bind (replace_cells A e5) (\<lambda>e6.
                   ev_return (Scalar (finish_expression env strings e6))))))))"

primrec evaluateExpression :: "eval_context \<Rightarrow> nat \<Rightarrow> evaluator" where
  "evaluateExpression C 0 = (\<lambda>visiting i r c e. ev_raise StackOverflow)"
| "evaluateExpression C (Suc depth) =
     (\<lambda>visiting i r c e. expression_body C (access_of C (evaluateExpression C depth) visiting i r c) e)"

section \<open>Recalculation\<close>

definition recalculated_cell :: "formula_env \<Rightarrow> fresult \<Rightarrow> sheet_cell \<Rightarrow> sheet_cell" where
  "recalculated_cell env r cell =
     (let v = toScalar r; st = style cell in
      cell\<lparr>cvalue := to_cell_value v,
        display := displayFromEvaluated (fe_host env) v (Option.bind st numberFormat) (Option.bind st customNumberFormat),
        spillFrom := None\<rparr>)"

definition recalculate_cell ::
    "eval_context \<Rightarrow> evaluator \<Rightarrow> int \<Rightarrow> int \<Rightarrow> int \<Rightarrow> sheet_cell \<Rightarrow> (sheet_cell \<times> (int \<times> int \<times> eval_array) list) ev" where
  "recalculate_cell C ev i r c cell =
     (if \<not> has_formula cell then ev_return (cell, [])
      else ev_lift (\<lambda>res. (recalculated_cell (ec_env C) res cell, case res of Arr a \<Rightarrow> [(r, c, a)] | Scalar v \<Rightarrow> []))
        (evaluateFormulaCell ev [] i r c (opt_text (formula cell))))"

definition recalculate_rows ::
    "eval_context \<Rightarrow> evaluator \<Rightarrow> int \<Rightarrow> grid \<Rightarrow> (sheet_cell \<times> (int \<times> int \<times> eval_array) list) list list ev" where
  "recalculate_rows C ev i g =
     ev_map (\<lambda>(r, line). ev_map (\<lambda>(c, cell). recalculate_cell C ev i r c cell) (zip (indices line) line)) (zip (indices g) g)"

definition recalculateSheet ::
    "formula_env \<Rightarrow> nat \<Rightarrow> sheet \<Rightarrow> int \<Rightarrow> sheet list \<Rightarrow> named_range list option \<Rightarrow> nat \<Rightarrow> fault + sheet \<times> nat" where
  "recalculateSheet env depth s i allSheets ranges tick =
     (let cleared = clearSpillTargets s;
          C = \<lparr>ec_env = env, ec_sheets = mapi (\<lambda>k entry. if k = i then cleared else entry) allSheets, ec_names = ranges\<rparr>
      in case recalculate_rows C (evaluateExpression C depth) i (rows cleared) \<lparr>es_cache = Map.empty, es_tick = tick\<rparr> of
           Inl e \<Rightarrow> Inl e
         | Inr (lines, st) \<Rightarrow>
             Inr (foldl (\<lambda>sh (r, c, a). applySpillResult (fe_host env) sh r c a)
                    (cleared\<lparr>rows := map (map fst) lines\<rparr>) (concat (map (concat \<circ> map snd) lines)),
                  es_tick st))"

fun recalculate_sheets ::
    "formula_env \<Rightarrow> nat \<Rightarrow> int \<Rightarrow> sheet list \<Rightarrow> sheet list \<Rightarrow> named_range list option \<Rightarrow> nat \<Rightarrow> fault + sheet list" where
  "recalculate_sheets env depth i [] allSheets ranges tick = Inr []"
| "recalculate_sheets env depth i (s # ss) allSheets ranges tick =
     (case recalculateSheet env depth s i allSheets ranges tick of
        Inl e \<Rightarrow> Inl e
      | Inr (s', tick') \<Rightarrow> map_sum id (Cons s') (recalculate_sheets env depth (i + 1) ss allSheets ranges tick'))"

definition recalculateWorkbook :: "formula_env \<Rightarrow> nat \<Rightarrow> workbook \<Rightarrow> workbook" where
  "recalculateWorkbook env depth w =
     (case recalculate_sheets env depth 0 (sheets w) (sheets w) (namedRanges w) 0 of
        Inl e \<Rightarrow> w
      | Inr ss \<Rightarrow> w\<lparr>sheets := ss\<rparr>)"

section \<open>A runtime for the concrete examples\<close>

definition plain_env :: formula_env where
  "plain_env = \<lparr>fe_host = plain_host, fe_js = (\<lambda>_. Throws), fe_math = (\<lambda>f x. x), fe_atan2 = (\<lambda>x y. x), fe_pi = 3,
     fe_pow = (\<lambda>x y. NaN), fe_random = (\<lambda>k. 1 / 2), fe_now = (\<lambda>k. ''2026-01-01T00:00:00.000Z''),
     fe_dateParts = (\<lambda>s. None), fe_currency = num_text, fe_usd = (\<lambda>d x. Some (num_text x)), fe_grouped = num_text\<rparr>"

definition formula_cell :: "string \<Rightarrow> sheet_cell" where
  "formula_cell f = empty_cell\<lparr>formula := Some f\<rparr>"

end
