(* ===== verification/FormulaDepth.thy ===== *)
theory FormulaDepth
  imports FormulaEngine "HOL-Library.Sublist"
begin

text \<open>
  How deep the evaluator calls itself. \<open>ev_rel\<close> compares two runs of the same computation at
  two depths: \<open>ev_rel True m m'\<close> allows the first to overflow, \<open>ev_rel False m m'\<close>
  says that it does not and that both agree. The locale \<open>related_access\<close> carries the comparison
  through the functions of ranges, through a call and through an expression; it is interpreted
  for the evaluator at a depth and at the next one.
\<close>

section \<open>Comparing computations\<close>

definition ev_rel :: "bool \<Rightarrow> 'a ev \<Rightarrow> 'a ev \<Rightarrow> bool" where
  "ev_rel B m m' \<longleftrightarrow> (\<forall>s. if m s = Inl StackOverflow then B else m s = m' s)"

named_theorems ev_rules \<open>rules for ev_rel\<close>

lemma ev_rel_return [ev_rules]: "ev_rel B (ev_return x) (ev_return x)"
  by (simp add: ev_rel_def ev_return_def)

lemma ev_rel_range_error [ev_rules]: "ev_rel B (ev_raise RangeError) (ev_raise RangeError)"
  by (simp add: ev_rel_def ev_raise_def)

lemma ev_rel_tick [ev_rules]: "ev_rel B ev_next_tick ev_next_tick"
  by (simp add: ev_rel_def ev_next_tick_def)

lemma ev_rel_cached [ev_rules]: "ev_rel B (ev_cached k) (ev_cached k)"
  by (simp add: ev_rel_def ev_cached_def)

lemma ev_rel_store [ev_rules]: "ev_rel B (ev_store k v) (ev_store k v)"
  by (simp add: ev_rel_def ev_store_def)

lemma ev_rel_bind [ev_rules]:
  "ev_rel B m m' \<Longrightarrow> (\<And>x. ev_rel B (f x) (f' x)) \<Longrightarrow> ev_rel B (ev_bind m f) (ev_bind m' f')"
proof (unfold ev_rel_def ev_bind_def, intro allI)
  fix s
  assume m: "\<forall>s. if m s = Inl StackOverflow then B else m s = m' s"
    and f: "\<And>x. \<forall>s. if f x s = Inl StackOverflow then B else f x s = f' x s"
  show "if (case m s of Inl e \<Rightarrow> Inl e | Inr (x, t) \<Rightarrow> f x t) = Inl StackOverflow then B
    else (case m s of Inl e \<Rightarrow> Inl e | Inr (x, t) \<Rightarrow> f x t) = (case m' s of Inl e \<Rightarrow> Inl e | Inr (x, t) \<Rightarrow> f' x t)"
  proof (cases "m s")
    case (Inl e)
    with m[rule_format, of s] show ?thesis by (cases "m' s") (auto split: if_splits)
  next
    case (Inr y)
    with m[rule_format, of s] have "m' s = Inr y" by simp
    with Inr f[rule_format, of "fst y" "snd y"] show ?thesis by (simp add: case_prod_beta)
  qed
qed

lemma ev_rel_lift [ev_rules]: "ev_rel B m m' \<Longrightarrow> ev_rel B (ev_lift f m) (ev_lift f m')"
  unfolding ev_lift_def by (intro ev_rules)

lemma ev_rel_map: "(\<And>x. x \<in> set xs \<Longrightarrow> ev_rel B (f x) (f' x)) \<Longrightarrow> ev_rel B (ev_map f xs) (ev_map f' xs)"
  by (induction xs) (auto intro!: ev_rules)

lemma ev_rel_map_all [ev_rules]: "(\<And>x. ev_rel B (f x) (f' x)) \<Longrightarrow> ev_rel B (ev_map f xs) (ev_map f' xs)"
  by (rule ev_rel_map)

lemma ev_rel_replace [ev_rules]: "(\<And>h. ev_rel B (f h) (f' h)) \<Longrightarrow> ev_rel B (ev_replace m f s) (ev_replace m f' s)"
  unfolding ev_replace_def by (auto intro!: ev_rules split: seg.split)

lemma ev_rel_outcome [ev_rules]: "ev_rel B (ev_outcome r) (ev_outcome r)"
  by (auto simp: ev_outcome_def intro!: ev_rules split: outcome.split)

lemma ev_rel_scalar [ev_rules]: "ev_rel B (scalar_fn v) (scalar_fn v)" "ev_rel B (int_fn i) (int_fn i)"
    "ev_rel B (array_fn vs r c) (array_fn vs r c)"
  by (simp_all add: scalar_fn_def int_fn_def array_fn_def ev_rel_return)

section \<open>Functions, calls and expressions\<close>

locale related_access =
  fixes B :: bool and P :: "string \<Rightarrow> bool" and A A' :: access
  assumes collect [ev_rules]: "ev_rel B (ac_collect A s) (ac_collect A' s)"
    and table [ev_rules]: "ev_rel B (ac_table A s) (ac_table A' s)"
    and cell [ev_rules]: "ev_rel B (ac_cell A i r c) (ac_cell A' i r c)"
    and of_range [ev_rules]: "ev_rel B (ac_range A i rng) (ac_range A' i rng)"
    and expr: "P e \<Longrightarrow> ev_rel B (ac_expr A e) (ac_expr A' e)"
    and every: "B \<Longrightarrow> P e"
    and same [simp]: "ac_meta A' = ac_meta A" "ac_split A' = ac_split A" "ac_sheet_exists A' = ac_sheet_exists A"
      "ac_sheet A' = ac_sheet A" "ac_row A' = ac_row A" "ac_col A' = ac_col A"
begin

lemma matches_all: "ev_rel B (matchesAllCriteria A ps i) (matchesAllCriteria A' ps i)"
  by (induction ps rule: induct_list012) (auto intro!: ev_rules)

lemma range_cases [ev_rules]:
  "ev_rel B (values_where A ps k) (values_where A' ps k)"
  "ev_rel B (countif_fn A ps args) (countif_fn A' ps args)"
  "ev_rel B (if_fn A result ps args) (if_fn A' result ps args)"
  "ev_rel B (countblank_fn A ps) (countblank_fn A' ps)"
  "ev_rel B (vlookup_fn A ps args) (vlookup_fn A' ps args)"
  "ev_rel B (match_fn A ps args) (match_fn A' ps args)"
  "ev_rel B (index_fn A ps args) (index_fn A' ps args)"
  "ev_rel B (hlookup_fn A ps args) (hlookup_fn A' ps args)"
  "ev_rel B (kth_fn A order ps args) (kth_fn A' order ps args)"
  "ev_rel B (percentile_fn A ps args) (percentile_fn A' ps args)"
  by (auto simp: values_where_def countif_fn_def if_fn_def countblank_fn_def vlookup_fn_def match_fn_def
      index_fn_def hlookup_fn_def kth_fn_def percentile_fn_def intro!: ev_rules matches_all)

lemma criteria_cases [ev_rules]:
  "ev_rel B (ifs_fn A result ps) (ifs_fn A' result ps)"
  "ev_rel B (countifs_fn A ps) (countifs_fn A' ps)"
  by (auto simp: ifs_fn_def countifs_fn_def intro!: ev_rules)

lemma offset_case [ev_rules]: "ev_rel B (offset_fn A ps args) (offset_fn A' ps args)"
  by (auto simp: offset_fn_def Let_def intro!: ev_rules split: option.split)

lemma lookup_case [ev_rules]: "ev_rel B (lookup_fn A ps args) (lookup_fn A' ps args)"
  by (auto simp: lookup_fn_def Let_def intro!: ev_rules split: option.split)

lemma array_cases [ev_rules]:
  "ev_rel B (filter_fn A ps) (filter_fn A' ps)"
  "ev_rel B (sort_fn env A ps args) (sort_fn env A' ps args)"
  "ev_rel B (unique_fn A ps) (unique_fn A' ps)"
  "ev_rel B (sortby_fn env A ps) (sortby_fn env A' ps)"
  "ev_rel B (transpose_fn A ps) (transpose_fn A' ps)"
  "ev_rel B (column_fn A ps) (column_fn A' ps)"
  "ev_rel B (row_fn A ps) (row_fn A' ps)"
  "ev_rel B (collect_all A ps) (collect_all A' ps)"
  "ev_rel B (choosecols_fn A ps args) (choosecols_fn A' ps args)"
  "ev_rel B (chooserows_fn A ps args) (chooserows_fn A' ps args)"
  by (auto simp: filter_fn_def sort_fn_def unique_fn_def sortby_fn_def transpose_fn_def column_fn_def row_fn_def
      collect_all_def choosecols_fn_def chooserows_fn_def Let_def intro!: ev_rules)

lemma stack_cases [ev_rules]:
  "ev_rel B (vstack_fn A ps) (vstack_fn A' ps)"
  "ev_rel B (hstack_fn A ps) (hstack_fn A' ps)"
  "ev_rel B (sumproduct_fn A ps) (sumproduct_fn A' ps)"
  by (auto simp: vstack_fn_def hstack_fn_def sumproduct_fn_def intro!: ev_rules)

lemma indirect_case [ev_rules]: "ev_rel B (indirect_fn A args) (indirect_fn A' args)"
  by (auto simp: indirect_fn_def Let_def intro!: ev_rules split: option.split prod.split)

lemma counta_case:
  "(\<And>p. p \<in> set ps \<Longrightarrow> P (js_trim p)) \<Longrightarrow> ev_rel B (counta_fn A ps) (counta_fn A' ps)"
  unfolding counta_fn_def counta_part_def by (auto intro!: ev_rules ev_rel_map expr)

lemma xlookup_case:
  "(\<And>p. p \<in> set ps \<Longrightarrow> P (js_trim p)) \<Longrightarrow> ev_rel B (xlookup_fn A ps args) (xlookup_fn A' ps args)"
  using nth_opt_set[of ps 3] unfolding xlookup_fn_def by (auto intro!: ev_rules expr split: option.split)

lemma let_case: "B \<Longrightarrow> ev_rel B (let_fn A ps) (let_fn A' ps)"
proof -
  assume B
  note expr = expr[OF every[OF this]]
  have "ev_rel B (let_bindings A bs qs) (let_bindings A' bs qs)" for bs qs
    by (induction qs arbitrary: bs rule: induct_list012) (auto intro!: ev_rules expr)
  then show ?thesis unfolding let_fn_def by (auto intro!: ev_rules expr split: option.split)
qed

definition opt_rel :: "fresult ev option \<Rightarrow> fresult ev option \<Rightarrow> bool" where
  "opt_rel m m' \<longleftrightarrow> rel_option (ev_rel B) m m'"

lemma opt_rel_if: "(b \<Longrightarrow> opt_rel m m') \<Longrightarrow> (\<not> b \<Longrightarrow> opt_rel n n') \<Longrightarrow>
    opt_rel (if b then m else n) (if b then m' else n')"
  by simp

lemma opt_rel_Some: "ev_rel B m m' \<Longrightarrow> opt_rel (Some m) (Some m')" and opt_rel_None: "opt_rel None None"
  by (simp_all add: opt_rel_def)

lemma range_function_rel:
  assumes "\<And>p. p \<in> set ps \<Longrightarrow> P (js_trim p)" and "B \<or> n \<noteq> ''LET''"
  shows "opt_rel (range_function env A n raw ps args) (range_function env A' n raw ps args)"
  unfolding range_function_def
  by (intro opt_rel_if opt_rel_Some opt_rel_None ev_rules counta_case xlookup_case)
    (use assms let_case in \<open>auto intro: ev_rules simp: sequence_fn_def split: option.split\<close>)

lemma run_function_rel:
  assumes "\<And>p. p \<in> set (splitFunctionArgs raw) \<Longrightarrow> P (js_trim p)" and "B \<or> n \<noteq> ''LET''"
  shows "ev_rel B (run_function env A n raw tick args) (run_function env A' n raw tick args)"
proof -
  have "opt_rel (range_function env A n raw (splitFunctionArgs raw) args) (range_function env A' n raw (splitFunctionArgs raw) args)"
    using assms by (rule range_function_rel)
  then show ?thesis unfolding run_function_def opt_rel_def by (auto intro!: ev_rules elim: option.rel_cases split: option.split)
qed

text \<open>Every argument of the call may be evaluated, and the call is not a LET that could go on for ever.\<close>

definition call_ok :: "string \<Rightarrow> string \<Rightarrow> bool" where
  "call_ok fname raw \<longleftrightarrow> (\<forall>p \<in> set (splitFunctionArgs raw). P (js_trim p)) \<and> (B \<or> js_upper fname \<noteq> ''LET'')"

lemma evaluateFunction_rel:
  "call_ok fname raw \<Longrightarrow> ev_rel B (evaluateFunction env A fname raw) (evaluateFunction env A' fname raw)"
  unfolding evaluateFunction_def call_ok_def
  by (auto intro!: ev_rules ev_rel_map expr run_function_rel)

lemma replace_calls_rel:
  "(\<And>h. Hit h \<in> set xs \<Longrightarrow> call_ok (call_name h) (resolve_args strings (call_args h))) \<Longrightarrow>
   ev_rel B (replace_calls env A strings arrays xs) (replace_calls env A' strings arrays xs)"
proof (induction xs arbitrary: arrays)
  case Nil
  then show ?case by (simp add: ev_rules)
next
  case (Cons x xs)
  show ?case
  proof (cases x)
    case (Keep c)
    with Cons show ?thesis by (auto intro!: ev_rules)
  next
    case (Hit h)
    with Cons show ?thesis by (auto intro!: ev_rules evaluateFunction_rel split: fresult.split)
  qed
qed

lemma references_rel [ev_rules]:
  "ev_rel B (replace_qualified_ranges C A e) (replace_qualified_ranges C A' e)"
  "ev_rel B (replace_ranges A e) (replace_ranges A' e)"
  "ev_rel B (replace_qualified_cells A e) (replace_qualified_cells A' e)"
  "ev_rel B (replace_cells A e) (replace_cells A' e)"
  unfolding replace_qualified_ranges_def replace_ranges_def replace_qualified_cells_def replace_cells_def
  by (auto intro!: ev_rules split: option.split prod.split)

text \<open>The calls of an expression, and the strings taken out of it.\<close>

definition expr_ok :: "string \<Rightarrow> bool" where
  "expr_ok e \<longleftrightarrow> (let xs = string_segs (js_trim e) in
     \<forall>h. Hit h \<in> set (segs m_call None (numbered str_mark 0 xs)) \<longrightarrow>
       call_ok (call_name h) (resolve_args (map inner_text (hits xs)) (call_args h)))"

lemma expression_rel: "expr_ok e \<Longrightarrow> ev_rel B (expression_body C A e) (expression_body C A' e)"
  unfolding expression_body_def expr_ok_def Let_def
  by (auto intro!: ev_rules replace_calls_rel split: option.split prod.split)

lemma every_expr_ok: "B \<Longrightarrow> expr_ok e"
  unfolding expr_ok_def call_ok_def Let_def using every by blast

end

section \<open>The evaluator at two depths\<close>

text \<open>The formula of a cell, as the evaluator gets it.\<close>

definition formula_body :: "eval_context \<Rightarrow> cell_key \<Rightarrow> string option" where
  "formula_body C key =
     (case key of (i, r, c) \<Rightarrow> case cell_of (ec_sheets C) i r c of
        None \<Rightarrow> None
      | Some x \<Rightarrow> if has_formula x then
            (let f = opt_text (formula x) in Some (if js_starts_with ''='' f then drop 1 f else f)) else None)"

text \<open>Both evaluators agree, up to \<open>B\<close>, on the formulas of the cells that are not being visited.\<close>

definition cells_rel :: "bool \<Rightarrow> eval_context \<Rightarrow> evaluator \<Rightarrow> evaluator \<Rightarrow> cell_key list \<Rightarrow> bool" where
  "cells_rel B C ev ev' V \<longleftrightarrow>
     (\<forall>i r c e. formula_body C (i, r, c) = Some e \<and> (i, r, c) \<notin> set V \<longrightarrow>
        ev_rel B (ev ((i, r, c) # V) i r c e) (ev' ((i, r, c) # V) i r c e))"

lemma formula_cell_rel:
  assumes "cells_rel B C ev ev' V" and "cell_of (ec_sheets C) i r c = Some x" and "has_formula x"
  shows "ev_rel B (evaluateFormulaCell ev V i r c (opt_text (formula x))) (evaluateFormulaCell ev' V i r c (opt_text (formula x)))"
proof (cases "(i, r, c) \<in> set V")
  case True
  then show ?thesis by (simp add: evaluateFormulaCell_def ev_rules)
next
  case False
  moreover have "formula_body C (i, r, c) =
      Some (if js_starts_with ''='' (opt_text (formula x)) then drop 1 (opt_text (formula x)) else opt_text (formula x))"
    using assms by (simp add: formula_body_def)
  ultimately have "ev_rel B
      (ev ((i, r, c) # V) i r c (if js_starts_with ''='' (opt_text (formula x)) then drop 1 (opt_text (formula x)) else opt_text (formula x)))
      (ev' ((i, r, c) # V) i r c (if js_starts_with ''='' (opt_text (formula x)) then drop 1 (opt_text (formula x)) else opt_text (formula x)))"
    using assms(1) unfolding cells_rel_def by blast
  with False show ?thesis unfolding evaluateFormulaCell_def Let_def by (auto intro!: ev_rules split: option.split)
qed

lemma raw_cell_rel: "cells_rel B C ev ev' V \<Longrightarrow> ev_rel B (getRawCellValue C ev V i r c) (getRawCellValue C ev' V i r c)"
  unfolding getRawCellValue_def by (auto intro!: ev_rules formula_cell_rel split: option.split)

lemma collect_range_rel: "cells_rel B C ev ev' V \<Longrightarrow> ev_rel B (collectRangeValues C ev V i rng) (collectRangeValues C ev' V i rng)"
  unfolding collectRangeValues_def Let_def by (auto intro!: ev_rules raw_cell_rel split: prod.split)

lemma collect_arg_rel:
  "cells_rel B C ev ev' V \<Longrightarrow> ev_rel B (collectRangeValuesFromArg C ev V i s) (collectRangeValuesFromArg C ev' V i s)"
  unfolding collectRangeValuesFromArg_def Let_def
  by (auto intro!: ev_rules raw_cell_rel collect_range_rel split: option.split prod.split)

lemma table_arg_rel:
  "cells_rel B C ev ev' V \<Longrightarrow> ev_rel B (getTableFromRangeArg C ev V i s) (getTableFromRangeArg C ev' V i s)"
  unfolding getTableFromRangeArg_def table_rows_def
  by (auto intro!: ev_rules raw_cell_rel split: option.split)

lemma access_related:
  assumes "cells_rel B C ev ev' V" and "\<And>e. P e \<Longrightarrow> ev_rel B (ev V i r c e) (ev' V i r c e)" and "\<And>e. B \<Longrightarrow> P e"
  shows "related_access B P (access_of C ev V i r c) (access_of C ev' V i r c)"
  by unfold_locales (use assms in \<open>auto simp: access_of_def intro: raw_cell_rel collect_range_rel collect_arg_rel table_arg_rel\<close>)

subsection \<open>A deeper stack gives the same values\<close>

lemma one_deeper: "ev_rel True (evaluateExpression C n V i r c e) (evaluateExpression C (Suc n) V i r c e)"
proof (induction n arbitrary: V i r c e)
  case 0
  then show ?case by (simp add: ev_rel_def ev_raise_def)
next
  case (Suc n)
  have "related_access True (\<lambda>_. True) (access_of C (evaluateExpression C n) V i r c)
      (access_of C (evaluateExpression C (Suc n)) V i r c)"
    by (rule access_related) (auto simp: cells_rel_def simp del: evaluateExpression.simps intro: Suc.IH)
  from related_access.expression_rel[OF this related_access.every_expr_ok[OF this]]
  show ?case by simp
qed

lemma ev_rel_trans: "ev_rel B m m' \<Longrightarrow> ev_rel B m' m'' \<Longrightarrow> ev_rel B m m''"
  unfolding ev_rel_def by (metis)

lemma ev_rel_refl: "ev_rel True m m"
  by (simp add: ev_rel_def)

lemma deeper: "n \<le> k \<Longrightarrow> ev_rel True (evaluateExpression C n V i r c e) (evaluateExpression C k V i r c e)"
proof (induction k)
  case 0
  then show ?case by (simp add: ev_rel_refl)
next
  case (Suc k)
  then show ?case
    by (cases "n = Suc k") (auto simp: ev_rel_refl simp del: evaluateExpression.simps intro: ev_rel_trans one_deeper)
qed

end
