(* ===== verification/FormulaHalting.thy ===== *)
theory FormulaHalting
  imports FormulaDepth
begin

text \<open>
  The recalculation of a workbook ends. Each argument of a call is a part of the formula with fewer
  opening parentheses, and each reference goes on to a cell that is not being visited, so the depth
  of the nested calls is bounded by the cells and their parentheses. This needs two things of the
  formulas: no underscore, because a text such as \<open>__STR0__\<close> in a formula is taken for the
  evaluator's own placeholder, and no LET, which evaluates texts that it has built from values.
\<close>

section \<open>Segments\<close>

definition source :: "seg list \<Rightarrow> string" where
  "source xs = concat (map (seg_text (\<lambda>h. h)) xs)"

lemma source_simps [simp]:
  "source [] = []" "source (Keep c # xs) = c # source xs" "source (Hit h # xs) = h @ source xs"
  "source (xs @ ys) = source xs @ source ys"
  by (simp_all add: source_def seg_text_def)

lemma source_segs: "source (segs m prev s) = s"
  by (induction m prev s rule: segs.induct) (auto split: option.split nat.split)

lemma segs_hit:
  "Hit h \<in> set (segs m prev s) \<Longrightarrow> \<exists>p u w n. s = u @ h @ w \<and> m p (h @ w) = Some n \<and> h = take n (h @ w)"
proof (induction m prev s rule: segs.induct)
  case (1 m prev)
  then show ?case by simp
next
  case (2 m prev c s)
  show ?case
  proof (cases "\<exists>n. m prev (c # s) = Some (Suc n)")
    case False
    then have none: "m prev (c # s) = None \<or> m prev (c # s) = Some 0" by (metis not0_implies_Suc option.exhaust)
    with "2.prems" have "Hit h \<in> set (segs m (Some c) s)" by auto
    with none "2.IH"(1,2) obtain p u w n where "s = u @ h @ w" "m p (h @ w) = Some n" "h = take n (h @ w)"
      by (elim disjE) (blast, blast)
    then show ?thesis by (intro exI[of _ p] exI[of _ "c # u"] exI[of _ w] exI[of _ n]) auto
  next
    case True
    then obtain n where n: "m prev (c # s) = Some (Suc n)" by blast
    show ?thesis
    proof (cases "h = c # take n s")
      case True
      with n show ?thesis by (intro exI[of _ prev] exI[of _ "[]"] exI[of _ "drop n s"] exI[of _ "Suc n"]) auto
    next
      case False
      with n "2.prems" have in_rest: "Hit h \<in> set (segs m (Some (last (take (Suc n) (c # s)))) (drop n s))" by auto
      obtain p u w k where "drop n s = u @ h @ w" "m p (h @ w) = Some k" "h = take k (h @ w)"
        using "2.IH"(3)[OF n refl in_rest] by blast
      moreover from this(1) have "c # s = (c # take n s @ u) @ h @ w"
        by (metis append.assoc append_Cons append_take_drop_id)
      ultimately show ?thesis by blast
    qed
  qed
qed

lemma string_hit: "Hit h \<in> set (string_segs s) \<Longrightarrow> \<exists>b. h = dquote # b @ [dquote] \<and> dquote \<notin> set b"
proof -
  assume "Hit h \<in> set (string_segs s)"
  then obtain p w n where m: "m_string p (h @ w) = Some n" and h: "h = take n (h @ w)"
    unfolding string_segs_def using segs_hit by blast
  obtain t where t: "h @ w = dquote # t" and l: "length (takeWhile (\<lambda>d. d \<noteq> dquote) t) < length t"
    and n: "n = length (takeWhile (\<lambda>d. d \<noteq> dquote) t) + 2"
    using m by (auto simp: m_string_def Let_def split: list.splits if_splits)
  define b where "b = takeWhile (\<lambda>d. d \<noteq> dquote) t"
  have tb: "t = b @ dropWhile (\<lambda>d. d \<noteq> dquote) t" by (simp add: b_def)
  with l obtain y ys where d: "dropWhile (\<lambda>d. d \<noteq> dquote) t = y # ys"
    by (cases "dropWhile (\<lambda>d. d \<noteq> dquote) t") (auto simp: b_def)
  then have "y = dquote" using hd_dropWhile[of "\<lambda>d. d \<noteq> dquote" t] by simp
  with d tb have "h @ w = dquote # b @ dquote # ys" using t by simp
  then have "take n (h @ w) = take n (dquote # b @ dquote # ys)" by simp
  also have "\<dots> = dquote # b @ [dquote]" using n by (simp add: b_def[symmetric])
  finally have "h = dquote # b @ [dquote]" using h by simp
  moreover have "dquote \<notin> set b" unfolding b_def by (auto dest: set_takeWhileD)
  ultimately show ?thesis by blast
qed

section \<open>Placeholders of strings\<close>

definition mark_char :: "char \<Rightarrow> bool" where
  "mark_char c \<longleftrightarrow> c \<in> set ''_STR'' \<or> is_digit c"

lemma show_int_digits: "0 \<le> k \<Longrightarrow> show_int k \<noteq> [] \<and> list_all is_digit (show_int k) \<and> digits_value 10 (show_int k) = k"
  using dec_digits_facts[of k] by (simp add: show_int_def)

lemma str_mark_chars: "0 \<le> k \<Longrightarrow> c \<in> set (str_mark k) \<Longrightarrow> mark_char c"
  using show_int_digits[of k] by (auto simp: str_mark_def mark_char_def list_all_iff)

definition hit_count :: "seg list \<Rightarrow> int" where
  "hit_count xs = int (length (hits xs))"

lemma hits_simps [simp]: "hits [] = []" "hits (Keep c # xs) = hits xs" "hits (Hit h # xs) = h # hits xs"
    "hits (xs @ ys) = hits xs @ hits ys"
  by (simp_all add: hits_def map_filter_def)

lemma hit_count_simps [simp]: "hit_count [] = 0" "hit_count (Keep c # xs) = hit_count xs" "hit_count (Hit h # xs) = 1 + hit_count xs"
    "0 \<le> hit_count xs"
  by (simp_all add: hit_count_def)

text \<open>A character that no placeholder has comes from the text itself.\<close>

lemma numbered_split:
  assumes "numbered str_mark k xs = p @ c # q" and "0 \<le> k" and "\<not> mark_char c"
  shows "\<exists>ys zs. xs = ys @ Keep c # zs \<and> p = numbered str_mark k ys \<and> q = numbered str_mark (k + hit_count ys) zs"
  using assms
proof (induction xs arbitrary: k p)
  case Nil
  then show ?case by simp
next
  case (Cons x xs)
  show ?case
  proof (cases x)
    case (Keep d)
    show ?thesis
    proof (cases p)
      case Nil
      with Cons.prems Keep show ?thesis by (intro exI[of _ "[]"] exI[of _ xs]) auto
    next
      case (Cons d' p')
      with Cons.prems Keep have "numbered str_mark k xs = p' @ c # q" and d: "d' = d" by auto
      with Cons.IH Cons.prems obtain ys zs where "xs = ys @ Keep c # zs" "p' = numbered str_mark k ys"
        "q = numbered str_mark (k + hit_count ys) zs" by blast
      with Keep Cons d show ?thesis by (intro exI[of _ "Keep d # ys"] exI[of _ zs]) auto
    qed
  next
    case (Hit h)
    with Cons.prems have eq: "str_mark k @ numbered str_mark (k + 1) xs = p @ c # q" by simp
    have fresh: "c \<notin> set (str_mark k)" using Cons.prems str_mark_chars by blast
    consider us where "p = str_mark k @ us" "numbered str_mark (k + 1) xs = us @ c # q"
      | us where "str_mark k = p @ us" "us @ numbered str_mark (k + 1) xs = c # q"
      using eq by (auto simp: append_eq_append_conv2)
    then have "\<exists>p'. p = str_mark k @ p' \<and> numbered str_mark (k + 1) xs = p' @ c # q"
    proof cases
      case 2
      with fresh have "us = []" by (cases us) auto
      with 2 show ?thesis by simp
    qed simp
    then obtain p' where p: "p = str_mark k @ p'" and "numbered str_mark (k + 1) xs = p' @ c # q" by blast
    with Cons.IH[of "k + 1" p'] Cons.prems obtain ys zs where "xs = ys @ Keep c # zs" "p' = numbered str_mark (k + 1) ys"
        "q = numbered str_mark (k + 1 + hit_count ys) zs" by auto
    with Hit p show ?thesis by (intro exI[of _ "Hit h # ys"] exI[of _ zs]) (auto simp: add.assoc)
  qed
qed

lemma numbered_short:
  "length (numbered str_mark k ys) \<le> 1 \<Longrightarrow> source ys = numbered str_mark k ys"
proof (induction ys)
  case (Cons y ys)
  then show ?case by (cases y) (auto simp: str_mark_def)
qed simp

section \<open>The placeholders replaced by their strings\<close>

lemma takeWhile_digits: "list_all P ds \<Longrightarrow> \<not> P c \<Longrightarrow> takeWhile P (ds @ c # t) = ds"
  by (induction ds) auto

lemma str_mark_matches:
  "0 \<le> k \<Longrightarrow> m_str_mark prev (str_mark k @ t) = Some (length (str_mark k)) \<and> mark_index (str_mark k) = k"
proof -
  assume "0 \<le> k"
  note D = show_int_digits[OF this]
  have u: "\<not> is_digit (CHR ''_'')" by code_simp
  then have "takeWhile is_digit (show_int k @ CHR ''_'' # t') = show_int k" for t'
    by (intro takeWhile_digits) (use D u in simp_all)
  moreover have "drop (length (show_int k) + 5) (''__STR'' @ show_int k @ ''__'' @ t) = ''__'' @ t"
    by (simp add: drop_drop[symmetric] del: drop_drop)
  ultimately show ?thesis using D by (simp add: str_mark_def m_str_mark_def mark_index_def Let_def add.commute)
qed

lemmas seg_step = segs.simps(2)
declare segs.simps(2) [simp del]

lemma segs_str_mark: "0 \<le> k \<Longrightarrow> segs m_str_mark prev (str_mark k @ t) = Hit (str_mark k) # segs m_str_mark (Some (CHR ''_'')) t"
proof -
  assume "0 \<le> k"
  from str_mark_matches[OF this, of prev t] obtain n where
    m: "m_str_mark prev (str_mark k @ t) = Some (Suc n)" and n: "Suc n = length (str_mark k)"
    by (auto simp: str_mark_def)
  obtain c u where c: "str_mark k = c # u" by (cases "str_mark k") (auto simp: str_mark_def)
  have "last (str_mark k) = CHR ''_''" by (simp add: str_mark_def)
  with m n c show ?thesis by (auto simp: seg_step)
qed

lemma segs_no_mark: "c \<noteq> CHR ''_'' \<Longrightarrow> segs m_str_mark prev (c # t) = Keep c # segs m_str_mark (Some c) t"
  by (simp add: seg_step m_str_mark_def split: option.split)

lemma resolve_source:
  assumes "0 \<le> k" and "\<And>c. Keep c \<in> set zs \<Longrightarrow> c \<noteq> CHR ''_''"
    and "\<And>j. j < length (hits zs) \<Longrightarrow> f (str_mark (k + int j)) = hits zs ! j"
  shows "concat (map (seg_text f) (segs m_str_mark prev (numbered str_mark k zs))) = source zs"
  using assms
proof (induction zs arbitrary: k prev)
  case Nil
  then show ?case by simp
next
  case (Cons z zs)
  show ?case
  proof (cases z)
    case (Keep c)
    with Cons show ?thesis by (simp add: segs_no_mark seg_text_def)
  next
    case (Hit h)
    have "f (str_mark (k + 1 + int j)) = hits zs ! j" if "j < length (hits zs)" for j
      using Cons.prems(3)[of "Suc j"] Hit that by (simp add: algebra_simps)
    then have "concat (map (seg_text f) (segs m_str_mark (Some (CHR ''_'')) (numbered str_mark (k + 1) zs))) = source zs"
      by (intro Cons.IH) (use Cons.prems in auto)
    moreover have "f (str_mark k) = h" using Cons.prems(3)[of 0] Hit by simp
    ultimately show ?thesis using Hit Cons.prems(1) by (simp add: segs_str_mark) (simp add: seg_text_def)
  qed
qed

section \<open>Calls and their arguments\<close>

lemma call_tail_shape: "call_tail b s = Some n \<Longrightarrow> \<exists>a t. s = a @ CHR '')'' # t \<and> n = Suc (length a)"
proof (induction b s arbitrary: n rule: call_tail.induct)
  case (1 inner)
  then show ?case by simp
next
  case (2 inner c s)
  show ?case
  proof (cases "\<not> inner \<and> c = CHR '')''")
    case True
    with "2.prems" show ?thesis by (intro exI[of _ "[]"] exI[of _ s]) auto
  next
    case False
    with "2.prems" obtain b m where "call_tail b s = Some m" "n = Suc m"
        and b: "b = (if inner then c \<noteq> CHR '')'' else c = CHR ''('')" and "\<not> (inner \<and> c = CHR ''('')"
      by (auto split: if_splits)
    with "2.IH" False obtain a t where "s = a @ CHR '')'' # t" "m = Suc (length a)" by (cases inner) fastforce+
    with \<open>n = Suc m\<close> show ?thesis by (intro exI[of _ "c # a"] exI[of _ t]) auto
  qed
qed

lemma call_shape:
  assumes "m_call p s = Some n" and "h = take n s"
  shows "\<exists>f a. h = f @ CHR ''('' # a @ [CHR '')''] \<and> call_name h = f \<and> call_args h = a \<and> list_all call_char f"
proof -
  define f where "f = takeWhile call_char s"
  obtain k where rest: "js_starts_with ''('' (dropWhile call_char s)"
    and k: "call_tail False (drop 1 (dropWhile call_char s)) = Some k" and n: "n = length f + 1 + k"
    using assms(1) by (auto simp: m_call_def Let_def f_def split: if_splits)
  obtain u where u: "dropWhile call_char s = CHR ''('' # u" using rest by (auto simp: js_starts_with_iff)
  with k obtain a t where a: "u = a @ CHR '')'' # t" "k = Suc (length a)" using call_tail_shape by fastforce
  have s: "s = f @ CHR ''('' # a @ CHR '')'' # t" using u a by (metis f_def takeWhile_dropWhile_id)
  have h: "h = f @ CHR ''('' # a @ [CHR '')'']" using assms(2) unfolding s n a(2) by simp
  have all: "list_all call_char f" by (simp add: f_def list_all_iff) (meson set_takeWhileD)
  moreover have "\<not> call_char (CHR ''('')" by code_simp
  ultimately have "call_name h = f" unfolding call_name_def h by (rule takeWhile_digits)
  with h all show ?thesis by (intro exI[of _ f] exI[of _ a]) (auto simp: call_args_def butlast_append)
qed

text \<open>The names of calls are ASCII, so LET in any case is recognised by its lower case.\<close>

lemma call_char_ascii: "call_char c \<Longrightarrow> (of_char c :: nat) < 128"
  by (auto simp: call_char_def word_char_def alpha_code digit_code)

lemma call_char_upper: "call_char c \<Longrightarrow> \<exists>d. upper_char c = [d] \<and> lower_char d = lower_char c"
proof -
  assume "call_char c"
  note n = call_char_ascii[OF this]
  show ?thesis
  proof (cases "97 \<le> (of_char c :: nat) \<and> (of_char c :: nat) \<le> 122")
    case True
    then show ?thesis by (auto simp: upper_char_def lower_char_def Let_def)
  next
    case False
    with n have "upper_char c = [c]" by (auto simp: upper_char_def Let_def)
    then show ?thesis by simp
  qed
qed

fun mentions_let :: "string \<Rightarrow> bool" where
  "mentions_let [] = False"
| "mentions_let (c # s) = (js_lower (take 4 (c # s)) = ''let('' \<or> mentions_let s)"

definition tame :: "string \<Rightarrow> bool" where
  "tame e \<longleftrightarrow> CHR ''_'' \<notin> set e \<and> \<not> mentions_let e"

definition parens :: "string \<Rightarrow> nat" where
  "parens e = length (filter (\<lambda>c. c = CHR ''('') e)"

lemma mentions_let_iff: "mentions_let e \<longleftrightarrow> (\<exists>p q. e = p @ q \<and> js_lower (take 4 q) = ''let('')"
proof (induction e)
  case Nil
  then show ?case by (simp add: js_lower_def)
next
  case (Cons c e)
  show ?case
  proof
    assume "mentions_let (c # e)"
    then consider "js_lower (take 4 (c # e)) = ''let(''" | p q where "e = p @ q" "js_lower (take 4 q) = ''let(''"
      using Cons.IH by auto
    then show "\<exists>p q. c # e = p @ q \<and> js_lower (take 4 q) = ''let(''"
    proof cases
      case 1
      then show ?thesis by (intro exI[of _ "[]"] exI[of _ "c # e"]) simp
    next
      case 2
      then show ?thesis by (intro exI[of _ "c # p"] exI[of _ q]) simp
    qed
  next
    assume "\<exists>p q. c # e = p @ q \<and> js_lower (take 4 q) = ''let(''"
    then show "mentions_let (c # e)" using Cons.IH by (auto simp: Cons_eq_append_conv)
  qed
qed

lemma mentions_let_sublist: "sublist x e \<Longrightarrow> mentions_let x \<Longrightarrow> mentions_let e"
proof -
  assume "sublist x e" and "mentions_let x"
  then obtain u w p q where e: "e = u @ x @ w" and x: "x = p @ q" and q: "js_lower (take 4 q) = ''let(''"
    by (auto simp: mentions_let_iff sublist_def)
  have "length (js_lower (take 4 q)) = 4" by (simp add: q)
  then have "4 \<le> length q" by (simp add: js_lower_def)
  with q have "js_lower (take 4 (q @ w)) = ''let(''" by simp
  with e x show ?thesis unfolding mentions_let_iff by (intro exI[of _ "u @ p"] exI[of _ "q @ w"]) simp
qed

lemma tame_sublist: "sublist x e \<Longrightarrow> tame e \<Longrightarrow> tame x"
  unfolding tame_def using mentions_let_sublist by (auto simp: sublist_def)

lemma parens_append [simp]: "parens (x @ y) = parens x + parens y" "parens (c # x) = (if c = CHR ''('' then 1 else 0) + parens x"
  "parens [] = 0"
  by (simp_all add: parens_def)

lemma parens_sublist: "sublist x e \<Longrightarrow> parens x \<le> parens e"
  by (auto simp: sublist_def)

lemma trim_sublist: "sublist (js_trim s) s"
proof -
  have "sublist (rev (dropWhile is_ws (rev (dropWhile is_ws s)))) (dropWhile is_ws s)"
    by (simp add: sublist_rev_left suffix_imp_sublist suffix_dropWhile)
  moreover have "sublist (dropWhile is_ws s) s" by (simp add: suffix_imp_sublist suffix_dropWhile)
  ultimately show ?thesis unfolding js_trim_def by (rule sublist_order.order_trans)
qed

lemma split_sublist: "p \<in> set (split_args cur d b s) \<Longrightarrow> sublist p (rev cur @ s)"
proof (induction cur d b s rule: split_args.induct)
  case (1 cur d b)
  then show ?case by (auto split: if_splits)
next
  case (2 cur d b c s)
  show ?case
  proof (cases "p = rev cur")
    case False
    with 2 have "sublist p (rev (c # cur) @ s) \<or> sublist p s"
      by (auto simp: Let_def split: if_splits)
    moreover have "sublist s (rev cur @ c # s)" by (simp add: suffix_imp_sublist suffix_def)
    ultimately show ?thesis by (auto intro: sublist_order.order_trans)
  qed auto
qed

lemma argument_sublist: "p \<in> set (splitFunctionArgs s) \<Longrightarrow> sublist (js_trim p) s"
  using split_sublist[of p "[]" 0 False s] trim_sublist[of p] unfolding splitFunctionArgs_def
  by (auto intro: sublist_order.order_trans)

section \<open>The calls of a formula that is tame\<close>

lemma upper_name:
  "list_all call_char f \<Longrightarrow> js_lower (js_upper f) = js_lower f"
proof (induction f)
  case (Cons c f)
  with call_char_upper[of c] show ?case by (auto simp: js_upper_def js_lower_def)
qed (simp add: js_upper_def js_lower_def)

lemma mark_char_lower: "mark_char c \<Longrightarrow> lower_char c \<noteq> CHR ''l'' \<and> lower_char c \<noteq> CHR ''e''"
proof -
  assume "mark_char c"
  then consider "c \<in> set ''_STR''" | "is_digit c" by (auto simp: mark_char_def)
  then show ?thesis
  proof cases
    case 1
    have "lower_char (CHR ''_'') = CHR ''_''" "lower_char (CHR ''S'') = CHR ''s''"
      "lower_char (CHR ''T'') = CHR ''t''" "lower_char (CHR ''R'') = CHR ''r''" by code_simp+
    with 1 show ?thesis by auto
  next
    case 2
    then have "lower_char c = c" and "(of_char c :: nat) \<noteq> 108" "(of_char c :: nat) \<noteq> 101"
      by (auto simp: digit_code lower_char_def Let_def)
    then show ?thesis by auto
  qed
qed

lemma not_let:
  assumes u: "u @ f = numbered str_mark 0 ys" and f: "list_all call_char f" "js_upper f = ''LET''"
  shows "mentions_let (source ys @ CHR ''('' # t)"
proof -
  have "js_lower ''LET'' = ''let''" "lower_char (CHR ''('') = CHR ''(''" by code_simp+
  then have lt: "js_lower f = ''let''" and paren: "lower_char (CHR ''('') = CHR ''(''"
    using upper_name[OF f(1)] unfolding f(2) by simp_all
  obtain a b c where abc: "f = [a, b, c]" "lower_char a = CHR ''l''" "lower_char b = CHR ''e''" "lower_char c = CHR ''t''"
    using lt by (auto simp: js_lower_def map_eq_Cons_conv)
  have "\<not> mark_char a" "\<not> mark_char b" using abc mark_char_lower by auto
  then obtain y1 y2 where y1: "ys = y1 @ Keep a # y2" and y2: "numbered str_mark (hit_count y1) y2 = [] @ b # [c]"
    using numbered_split[of 0 ys u a "[b, c]"] u abc(1) by auto
  then obtain y3 y4 k where y3: "y2 = y3 @ Keep b # y4" "numbered str_mark (hit_count y1) y3 = []" "numbered str_mark k y4 = [c]"
    using numbered_split[OF y2] \<open>\<not> mark_char b\<close> by auto
  have "source y3 = []" "source y4 = [c]"
    using y3 numbered_short[of "hit_count y1" y3] numbered_short[of k y4] by simp_all
  then have e: "source ys @ CHR ''('' # t = source y1 @ ([a, b, c, CHR ''(''] @ t)" using y1 y3 by simp
  have "js_lower (take 4 ([a, b, c, CHR ''(''] @ t)) = ''let(''" using abc paren by (simp add: js_lower_def)
  with e show ?thesis unfolding mentions_let_iff by blast
qed

lemma keep_in_source: "Keep c \<in> set xs \<Longrightarrow> c \<in> set (source xs)"
  by (force simp: source_def seg_text_def)

lemma hit_in: "h \<in> set (hits xs) \<Longrightarrow> Hit h \<in> set xs"
  by (auto simp: hits_def map_filter_def split: seg.splits)

lemma escape_fresh: "dquote \<notin> set b \<Longrightarrow> escape_quotes new b = b"
  by (induction b) (auto simp: escape_quotes_def)

lemma call_of_tame:
  assumes tame: "tame e" and call: "Hit h \<in> set (segs m_call None (numbered str_mark 0 (string_segs e)))"
  defines "r \<equiv> resolve_args (map inner_text (hits (string_segs e))) (call_args h)"
  shows "js_upper (call_name h) \<noteq> ''LET''" "sublist r e" "parens r < parens e"
proof -
  define xs where "xs = string_segs e"
  have e: "source xs = e" by (simp add: xs_def string_segs_def source_segs)
  obtain p u w n where 1: "numbered str_mark 0 xs = u @ h @ w" "m_call p (h @ w) = Some n" "h = take n (h @ w)"
    using segs_hit[OF call] by (auto simp: xs_def)
  from call_shape[OF 1(2,3)] obtain f a where h: "h = f @ CHR ''('' # a @ [CHR '')'']" "call_name h = f" "call_args h = a"
    "list_all call_char f" by blast
  have "\<not> mark_char (CHR ''('')" "\<not> mark_char (CHR '')'')" by (simp_all add: mark_char_def is_digit_def digit_of_def)
  moreover have "numbered str_mark 0 xs = (u @ f) @ CHR ''('' # (a @ CHR '')'' # w)" using 1(1) h(1) by simp
  ultimately obtain ys zs where ys: "xs = ys @ Keep (CHR ''('') # zs" "u @ f = numbered str_mark 0 ys"
      and zs: "numbered str_mark (hit_count ys) zs = a @ CHR '')'' # w"
    using numbered_split[of 0 xs "u @ f" "CHR ''(''" "a @ CHR '')'' # w"] by auto
  then obtain as bs where as: "zs = as @ Keep (CHR '')'') # bs" "a = numbered str_mark (hit_count ys) as"
    using numbered_split[OF zs] \<open>\<not> mark_char (CHR '')'')\<close> by auto
  have e': "e = source ys @ CHR ''('' # source as @ CHR '')'' # source bs" using ys(1) as(1) e by simp
  have "r = source as"
    unfolding r_def resolve_args_def re_replace_def h(3) as(2)
  proof (rule resolve_source)
    fix c assume "Keep c \<in> set as"
    then have "c \<in> set e" using keep_in_source e' by auto
    with tame show "c \<noteq> CHR ''_''" by (auto simp: tame_def)
  next
    fix j assume j: "j < length (hits as)"
    let ?strings = "map inner_text (hits (string_segs e))"
    have split: "hits xs = hits ys @ hits as @ hits bs" using ys(1) as(1) by simp
    have "hits as ! j \<in> set (hits xs)" using j split by simp
    then obtain b where b: "hits as ! j = dquote # b @ [dquote]" "dquote \<notin> set b"
      using string_hit hit_in unfolding xs_def by blast
    have "nth_opt ?strings (hit_count ys + int j) = Some (inner_text (hits as ! j))"
      using j split by (simp add: xs_def[symmetric] nth_opt_def hit_count_def nth_append nat_add_distrib)
    then show "(case nth_opt ?strings (mark_index (str_mark (hit_count ys + int j))) of None \<Rightarrow> str_mark (hit_count ys + int j)
        | Some s \<Rightarrow> quoted (escape_quotes [dquote, dquote] s)) = hits as ! j"
      using b str_mark_matches[of "hit_count ys + int j" None "[]"]
      by (simp add: inner_text_def escape_fresh quoted_def)
  qed simp
  then show "sublist r e" "parens r < parens e" using e' by (auto simp: sublist_def intro: exI[of _ "source ys @ [CHR ''('']"])
  show "js_upper (call_name h) \<noteq> ''LET''"
    using not_let[OF ys(2) h(4), of "source as @ CHR '')'' # source bs"] tame e' h(2) unfolding tame_def by auto
qed

section \<open>Enough depth\<close>

text \<open>The cells \<open>K\<close> have the formulas of the workbook, each tame and with at most \<open>M\<close> parentheses.\<close>

definition formulas_in :: "eval_context \<Rightarrow> cell_key set \<Rightarrow> nat \<Rightarrow> bool" where
  "formulas_in C K M \<longleftrightarrow> finite K \<and>
     (\<forall>key e. formula_body C key = Some e \<longrightarrow> key \<in> K \<and> tame e \<and> parens e \<le> M)"

lemma tame_access:
  assumes "tame e" and "cells_rel False C ev ev' V"
    and "\<And>x. tame x \<Longrightarrow> parens x < parens e \<Longrightarrow> ev_rel False (ev V i r c x) (ev' V i r c x)"
  shows "ev_rel False (expression_body C (access_of C ev V i r c) e) (expression_body C (access_of C ev' V i r c) e)"
proof -
  define P where "P = (\<lambda>x. tame x \<and> parens x < parens e)"
  have rel: "related_access False P (access_of C ev V i r c) (access_of C ev' V i r c)"
    by (rule access_related) (use assms in \<open>auto simp: P_def\<close>)
  have trim: "tame (js_trim e)" "parens (js_trim e) \<le> parens e"
    using trim_sublist[of e] assms(1) tame_sublist parens_sublist by blast+
  have "P x" if "Hit h \<in> set (segs m_call None (numbered str_mark 0 (string_segs (js_trim e))))"
      and "x = js_trim p" "p \<in> set (splitFunctionArgs (resolve_args (map inner_text (hits (string_segs (js_trim e)))) (call_args h)))"
    for h p x
  proof -
    note call = call_of_tame(2,3)[OF trim(1) that(1)]
    from argument_sublist[OF that(3)] call(1) have "sublist x (js_trim e)" using that(2) by (blast intro: sublist_order.order_trans)
    moreover have "parens x < parens e"
      unfolding that(2) using parens_sublist[OF argument_sublist[OF that(3)]] call(2) trim(2) by linarith
    ultimately show ?thesis unfolding P_def using trim(1) tame_sublist by blast
  qed
  with call_of_tame(1)[OF trim(1)] have "related_access.expr_ok False P e"
    unfolding related_access.expr_ok_def[OF rel] related_access.call_ok_def[OF rel] Let_def by blast
  with rel show ?thesis by (rule related_access.expression_rel)
qed

lemma ev_rel_FalseD: "ev_rel False m m' \<Longrightarrow> m s \<noteq> Inl StackOverflow \<and> m s = m' s"
  unfolding ev_rel_def by metis

lemma agree: "ev_rel False m m \<Longrightarrow> ev_rel True m m' \<Longrightarrow> ev_rel False m m'"
  unfolding ev_rel_def by metis

lemma visit_card:
  assumes "finite K" and "key \<in> K" and "key \<notin> set V"
  shows "card (K - set V) * Suc M = card (K - set (key # V)) * Suc M + Suc M"
proof -
  have "K - set (key # V) = K - set V - {key}" by auto
  moreover have "Suc (card (K - set V - {key})) = card (K - set V)" by (rule card_Suc_Diff1) (use assms in auto)
  ultimately have "card (K - set V) = Suc (card (K - set (key # V)))" by simp
  then show ?thesis by simp
qed

lemma enough_depth:
  assumes K: "formulas_in C K M"
  shows "tame e \<Longrightarrow> card (K - set V) * Suc M + parens e < n \<Longrightarrow>
    ev_rel False (evaluateExpression C n V i r c e) (evaluateExpression C n V i r c e)"
proof (induction n arbitrary: V i r c e)
  case 0
  then show ?case by simp
next
  case (Suc n)
  have "cells_rel False C (evaluateExpression C n) (evaluateExpression C n) V"
    unfolding cells_rel_def
  proof (intro allI impI)
    fix j s t f
    assume f: "formula_body C (j, s, t) = Some f \<and> (j, s, t) \<notin> set V"
    with K have tame: "tame f" and M: "parens f \<le> M" and key: "finite K" "(j, s, t) \<in> K" "(j, s, t) \<notin> set V"
      by (auto simp: formulas_in_def)
    from visit_card[OF key, of M] have "card (K - set ((j, s, t) # V)) * Suc M + parens f < n" using Suc.prems(2) M by linarith
    with tame show "ev_rel False (evaluateExpression C n ((j, s, t) # V) j s t f) (evaluateExpression C n ((j, s, t) # V) j s t f)"
      by (rule Suc.IH)
  qed
  moreover have "ev_rel False (evaluateExpression C n V i r c x) (evaluateExpression C n V i r c x)"
    if "tame x" "parens x < parens e" for x
    using that Suc.prems(2) by (intro Suc.IH) auto
  ultimately show ?case using Suc.prems(1) by (simp add: tame_access)
qed

lemma enough_cells:
  assumes K: "formulas_in C K M" and n: "card K * Suc M \<le> n" "n \<le> k"
  shows "cells_rel False C (evaluateExpression C n) (evaluateExpression C k) []"
  unfolding cells_rel_def
proof (intro allI impI)
  fix i r c e
  assume "formula_body C (i, r, c) = Some e \<and> (i, r, c) \<notin> set []"
  with K have key: "finite K" "(i, r, c) \<in> K" "(i, r, c) \<notin> set []" and "tame e" "parens e \<le> M"
    by (auto simp: formulas_in_def)
  moreover have "card K * Suc M = card (K - set [(i, r, c)]) * Suc M + Suc M" using visit_card[OF key, of M] by simp
  ultimately have "card (K - set [(i, r, c)]) * Suc M + parens e < n" using n by linarith
  with \<open>tame e\<close> have "ev_rel False (evaluateExpression C n [(i, r, c)] i r c e) (evaluateExpression C n [(i, r, c)] i r c e)"
    by (rule enough_depth[OF K])
  then show "ev_rel False (evaluateExpression C n [(i, r, c)] i r c e) (evaluateExpression C k [(i, r, c)] i r c e)"
    by (rule agree[OF _ deeper[OF n(2)]])
qed

section \<open>Recalculation\<close>

lemma zip_indices: "(k, x) \<in> set (zip (indices xs) xs) \<Longrightarrow> nth_opt xs k = Some x"
  by (auto simp: indices_def in_set_zip nth_opt_def nth_upto)

lemma recalculate_cell_rel:
  "cells_rel B C ev ev' [] \<Longrightarrow> cell_of (ec_sheets C) i r c = Some x \<Longrightarrow>
   ev_rel B (recalculate_cell C ev i r c x) (recalculate_cell C ev' i r c x)"
  unfolding recalculate_cell_def by (auto intro!: ev_rules formula_cell_rel)

lemma recalculate_rows_rel:
  assumes "cells_rel B C ev ev' []" and "nth_opt (ec_sheets C) i = Some s"
  shows "ev_rel B (recalculate_rows C ev i (rows s)) (recalculate_rows C ev' i (rows s))"
proof -
  have "ev_rel B (recalculate_cell C ev i r c x) (recalculate_cell C ev' i r c x)"
    if "(r, line) \<in> set (zip (indices (rows s)) (rows s))" "(c, x) \<in> set (zip (indices line) line)" for r line c x
    using that[THEN zip_indices] assms by (auto intro!: recalculate_cell_rel simp: cell_of_def grid_at_def)
  then show ?thesis unfolding recalculate_rows_def by (auto intro!: ev_rel_map)
qed

definition formula_cells :: "sheet list \<Rightarrow> (cell_key \<times> string) list" where
  "formula_cells ss = concat (mapi (\<lambda>i s. concat (mapi (\<lambda>r line. concat (mapi (\<lambda>c x.
     if has_formula x then [((i, r, c), opt_text (formula x))] else []) line)) (rows s))) ss)"

definition max_parens :: "sheet list \<Rightarrow> nat" where
  "max_parens ss = foldr max (map (parens \<circ> snd) (formula_cells ss)) 0"

text \<open>The depth of calls that is enough for the workbook.\<close>

definition stack_need :: "sheet list \<Rightarrow> nat" where
  "stack_need ss = length (formula_cells ss) * Suc (max_parens ss)"

lemma in_concat_mapi: "y \<in> set (concat (mapi f xs)) \<longleftrightarrow> (\<exists>k x. nth_opt xs k = Some x \<and> y \<in> set (f k x))"
proof
  assume "y \<in> set (concat (mapi f xs))"
  then obtain i where "i < length xs" "y \<in> set (f (int i) (xs ! i))"
    by (auto simp: in_set_conv_nth[of _ "mapi f xs"])
  then show "\<exists>k x. nth_opt xs k = Some x \<and> y \<in> set (f k x)" by (intro exI[of _ "int i"] exI[of _ "xs ! i"]) auto
next
  assume "\<exists>k x. nth_opt xs k = Some x \<and> y \<in> set (f k x)"
  then obtain k where "0 \<le> k" "k < int (length xs)" "y \<in> set (f k (xs ! nat k))" by (auto simp: nth_opt_Some_iff)
  then have "nat k < length xs" and "y \<in> set (mapi f xs ! nat k)" by (auto simp: nat_less_iff)
  then show "y \<in> set (concat (mapi f xs))" by (metis UN_I length_mapi nth_mem set_concat)
qed

lemma cell_of_Some: "cell_of ss i r c = Some x \<longleftrightarrow>
    (\<exists>s line. nth_opt ss i = Some s \<and> nth_opt (rows s) r = Some line \<and> nth_opt line c = Some x)"
  by (auto simp: cell_of_def grid_at_def split: option.splits)

lemma formula_cells_iff:
  "(key, f) \<in> set (formula_cells ss) \<longleftrightarrow>
   (\<exists>i r c x. key = (i, r, c) \<and> cell_of ss i r c = Some x \<and> has_formula x \<and> f = opt_text (formula x))"
  unfolding formula_cells_def in_concat_mapi cell_of_Some by (auto split: if_splits) blast+

lemma cleared_cell:
  assumes "nth_opt ss i = Some s"
    and "cell_of (mapi (\<lambda>k entry. if k = i then clearSpillTargets s else entry) ss) j r c = Some x"
  shows "\<exists>y. cell_of ss j r c = Some y \<and> formula y = formula x"
  using assms unfolding cell_of_Some by (auto simp: nth_opt_mapi clearSpillTargets_def nth_opt_map split: if_splits)

lemma max_parens: "(key, f) \<in> set (formula_cells ss) \<Longrightarrow> parens f \<le> max_parens ss"
proof -
  assume f: "(key, f) \<in> set (formula_cells ss)"
  have "x \<in> set xs \<Longrightarrow> x \<le> foldr max xs 0" for x :: nat and xs by (induction xs) auto
  then show ?thesis unfolding max_parens_def using f by force
qed

lemma formulas_of_sheets:
  assumes tame: "list_all (tame \<circ> snd) (formula_cells ss)" and i: "nth_opt ss i = Some s"
  shows "formulas_in \<lparr>ec_env = env, ec_sheets = mapi (\<lambda>k entry. if k = i then clearSpillTargets s else entry) ss, ec_names = names\<rparr>
    (set (map fst (formula_cells ss))) (max_parens ss)"
  unfolding formulas_in_def
proof (rule conjI, simp, intro allI, rule impI)
  fix key e
  assume "formula_body \<lparr>ec_env = env, ec_sheets = mapi (\<lambda>k entry. if k = i then clearSpillTargets s else entry) ss, ec_names = names\<rparr> key = Some e"
  then obtain j r c x where key: "key = (j, r, c)" "has_formula x"
      "cell_of (mapi (\<lambda>k entry. if k = i then clearSpillTargets s else entry) ss) j r c = Some x"
      "e = (if js_starts_with ''='' (opt_text (formula x)) then drop 1 (opt_text (formula x)) else opt_text (formula x))"
    by (cases key) (auto simp: formula_body_def Let_def split: option.splits if_splits)
  from cleared_cell[OF i key(3)] key(1,2) have cell: "(key, opt_text (formula x)) \<in> set (formula_cells ss)"
    by (auto simp: formula_cells_iff has_formula_def)
  moreover have part: "sublist e (opt_text (formula x))"
    unfolding key(4) using sublist_drop[of 1 "opt_text (formula x)"] by simp
  ultimately show "key \<in> set (map fst (formula_cells ss)) \<and> tame e \<and> parens e \<le> max_parens ss"
    using tame max_parens[OF cell] parens_sublist[OF part] tame_sublist[OF part] by (force simp: list_all_iff)
qed

lemma sheet_recalculation_halts:
  assumes tame: "list_all (tame \<circ> snd) (formula_cells ss)" and i: "nth_opt ss i = Some s"
    and n: "stack_need ss \<le> n" "n \<le> k"
  shows "recalculateSheet env n s i ss names tick \<noteq> Inl StackOverflow"
    "recalculateSheet env n s i ss names tick = recalculateSheet env k s i ss names tick"
proof -
  define C where "C = \<lparr>ec_env = env, ec_sheets = mapi (\<lambda>k entry. if k = i then clearSpillTargets s else entry) ss, ec_names = names\<rparr>"
  have "card (set (map fst (formula_cells ss))) * Suc (max_parens ss) \<le> n"
    using n(1) mult_le_mono1[OF card_length[of "map fst (formula_cells ss)"], of "Suc (max_parens ss)"]
    unfolding stack_need_def by simp
  from enough_cells[OF formulas_of_sheets[OF tame i] this n(2)]
  have "cells_rel False C (evaluateExpression C n) (evaluateExpression C k) []" by (simp add: C_def)
  moreover have "nth_opt (ec_sheets C) i = Some (clearSpillTargets s)" by (simp add: C_def nth_opt_mapi i)
  ultimately have "ev_rel False (recalculate_rows C (evaluateExpression C n) i (rows (clearSpillTargets s)))
      (recalculate_rows C (evaluateExpression C k) i (rows (clearSpillTargets s)))"
    by (rule recalculate_rows_rel)
  note run = ev_rel_FalseD[OF this, of "\<lparr>es_cache = Map.empty, es_tick = tick\<rparr>"]
  show "recalculateSheet env n s i ss names tick \<noteq> Inl StackOverflow"
    using run unfolding recalculateSheet_def Let_def C_def[symmetric] by (auto split: sum.split prod.split)
  show "recalculateSheet env n s i ss names tick = recalculateSheet env k s i ss names tick"
    using run unfolding recalculateSheet_def Let_def C_def[symmetric] by simp
qed

lemma sheets_recalculation_halts:
  assumes tame: "list_all (tame \<circ> snd) (formula_cells ss)" and n: "stack_need ss \<le> n" "n \<le> k"
  shows "ss = pre @ rest \<Longrightarrow>
    recalculate_sheets env n (int (length pre)) rest ss names tick \<noteq> Inl StackOverflow \<and>
    recalculate_sheets env n (int (length pre)) rest ss names tick = recalculate_sheets env k (int (length pre)) rest ss names tick"
proof (induction rest arbitrary: pre tick)
  case Nil
  then show ?case by simp
next
  case (Cons s rest)
  then have "nth_opt ss (int (length pre)) = Some s" by (simp add: nth_opt_def nth_append)
  note sheet = sheet_recalculation_halts[OF tame this n]
  have IH: "recalculate_sheets env n (int (length pre) + 1) rest ss names t \<noteq> Inl StackOverflow \<and>
    recalculate_sheets env n (int (length pre) + 1) rest ss names t = recalculate_sheets env k (int (length pre) + 1) rest ss names t"
    for t using Cons.IH[of "pre @ [s]" t] Cons.prems by (auto simp: add.commute)
  have noS: "map_sum id f x = Inl StackOverflow \<longleftrightarrow> x = Inl StackOverflow" for f :: "sheet list \<Rightarrow> sheet list" and x :: "fault + sheet list"
    by (cases x) auto
  show ?case using sheet(1)[of env names tick] sheet(2)[of env names tick] IH[THEN conjunct1, unfolded IH[THEN conjunct2]] IH[THEN conjunct2]
    by (auto simp: noS split: sum.split prod.split)
qed

end
