(* ===== verification/FormulaArith.thy ===== *)
theory FormulaArith
  imports FormulaDepth
begin

text \<open>
  What the evaluator makes of arithmetic: a formula of number literals, references and parenthesised operations
  gets the value of the expression over what its cells hold or compute. The proof follows the text through every
  replacement of the evaluator and through the lexer and parser of the JavaScript that it becomes.
\<close>

section \<open>Monad laws\<close>

lemma ev_bind_return [simp]: "ev_bind (ev_return x) f = f x"
  by (simp add: ev_bind_def ev_return_def)

lemma ev_return_inject [simp]: "ev_return x = ev_return y \<longleftrightarrow> x = y"
  by (auto simp: ev_return_def fun_eq_iff)

lemma ev_lift_return [simp]: "ev_lift f (ev_return x) = ev_return (f x)"
  by (simp add: ev_lift_def)

lemma ev_map_return: "(\<And>x. x \<in> set xs \<Longrightarrow> f x = ev_return (g x)) \<Longrightarrow> ev_map f xs = ev_return (map g xs)"
  by (induction xs) auto

section \<open>Texts without a match\<close>

lemma segs_keep: "(\<And>p u. suffix u s \<Longrightarrow> u \<noteq> [] \<Longrightarrow> m p u = None) \<Longrightarrow> segs m p s = map Keep s"
proof (induction s arbitrary: p)
  case (Cons c s)
  have "segs m (Some c) s = map Keep s" by (rule Cons.IH) (auto intro: Cons.prems suffix_ConsI)
  with Cons.prems[of "c # s" p] show ?case by simp
qed simp

lemma re_replace_keep: "segs m None s = map Keep s \<Longrightarrow> re_replace m f s = s"
  by (simp add: re_replace_def seg_text_def o_def)

lemma ev_map_keep: "ev_map (\<lambda>x. case x of Keep c \<Rightarrow> ev_return [c] | Hit h \<Rightarrow> f h) (map Keep s) = ev_return (map (\<lambda>c. [c]) s)"
  by (induction s) auto

lemma ev_replace_keep: "segs m None s = map Keep s \<Longrightarrow> ev_replace m f s = ev_return s"
  by (simp add: ev_replace_def ev_map_keep)

lemma replace_calls_keep: "replace_calls env A strings arrays (map Keep s) = ev_return (s, arrays)"
  by (induction s) auto

lemma numbered_keep: "numbered f k (map Keep s) = s"
  by (induction s) auto

lemma hits_keep: "hits (map Keep s) = []"
  by (induction s) (auto simp: hits_def map_filter_def)

lemma no_string: "dquote \<notin> set s \<Longrightarrow> segs m_string p s = map Keep s"
  by (rule segs_keep) (auto simp: m_string_def suffix_def split: list.split)

lemma no_mark: "CHR ''_'' \<notin> set s \<Longrightarrow> segs m_str_mark p s = map Keep s"
  by (rule segs_keep) (auto simp: m_str_mark_def suffix_def js_starts_with_iff Let_def)

lemma no_sheet: "CHR ''!'' \<notin> set s \<Longrightarrow> m_sheet p s = None"
proof -
  assume a: "CHR ''!'' \<notin> set s"
  have "\<not> js_starts_with ''!'' (drop k s)" for k
  proof
    assume "js_starts_with ''!'' (drop k s)"
    then have "CHR ''!'' \<in> set (drop k s)" by (auto simp: js_starts_with_iff)
    with a show False using in_set_dropD by fast
  qed
  then show ?thesis by (auto simp: m_sheet_def Let_def split: option.split)
qed

lemma no_qualified: "CHR ''!'' \<notin> set s \<Longrightarrow> segs (m_qualified m) p s = map Keep s"
  by (rule segs_keep) (auto simp: m_qualified_def no_sheet suffix_def)

lemma no_range: "CHR '':'' \<notin> set s \<Longrightarrow> segs m_range p s = map Keep s"
proof (rule segs_keep)
  fix p u
  assume "CHR '':'' \<notin> set s" "suffix u s"
  then have "CHR '':'' \<notin> set (drop n u)" for n using in_set_dropD by (fastforce simp: suffix_def)
  then show "m_range p u = None"
    unfolding m_range_def m_pair_def by (auto split: option.split list.split) (metis list.set_intros(1))
qed

text \<open>A call needs a character of a name before its parenthesis.\<close>

definition no_call_start :: "string \<Rightarrow> bool" where
  "no_call_start s \<longleftrightarrow> successively (\<lambda>a b. call_char a \<longrightarrow> b \<noteq> CHR ''('') s"

lemma no_call: "no_call_start s \<Longrightarrow> segs m_call p s = map Keep s"
proof (rule segs_keep)
  fix p u
  assume s: "no_call_start s" and "suffix u s"
  then obtain w where "s = w @ u" by (auto simp: suffix_def)
  with s have u: "no_call_start u" by (auto simp: no_call_start_def successively_append_iff)
  have "\<not> (takeWhile call_char u \<noteq> [] \<and> js_starts_with ''('' (dropWhile call_char u))"
  proof
    assume a: "takeWhile call_char u \<noteq> [] \<and> js_starts_with ''('' (dropWhile call_char u)"
    then obtain t where t: "dropWhile call_char u = CHR ''('' # t" by (auto simp: js_starts_with_iff)
    have "no_call_start (takeWhile call_char u @ dropWhile call_char u)" using u by simp
    with a t have "\<not> call_char (last (takeWhile call_char u))"
      by (simp add: no_call_start_def successively_append_iff)
    moreover have "call_char (last (takeWhile call_char u))" using a by (meson last_in_set set_takeWhileD)
    ultimately show False by simp
  qed
  then show "m_call p u = None" by (auto simp: m_call_def Let_def)
qed

section \<open>Arithmetic formulas\<close>

datatype arith = ALit string | ARef cell_address | AOp char arith arith

fun arith_text :: "arith \<Rightarrow> string" where
  "arith_text (ALit t) = t"
| "arith_text (ARef a) = cellAddressLabel a"
| "arith_text (AOp p x y) = ''('' @ arith_text x @ [p] @ arith_text y @ '')''"

text \<open>A text of digits and points that is one number of JavaScript, and its value.\<close>

definition literal :: "string \<Rightarrow> bool" where
  "literal t \<longleftrightarrow> list_all (\<lambda>c. is_digit c \<or> c = CHR ''.'') t \<and> starts_number t \<and> snd (number_at t) = (True, [])"

definition literal_value :: "string \<Rightarrow> rat" where
  "literal_value t = fst (number_at t)"

definition address_ok :: "cell_address \<Rightarrow> bool" where
  "address_ok a \<longleftrightarrow> 0 \<le> row a \<and> 0 \<le> col a"

fun arith_ok :: "arith \<Rightarrow> bool" where
  "arith_ok (ALit t) = literal t"
| "arith_ok (ARef a) = address_ok a"
| "arith_ok (AOp p x y) = (p \<in> set ''+-*/'' \<and> arith_ok x \<and> arith_ok y)"

text \<open>
  The decimal text of a number can be pasted into an expression when it is a literal of JavaScript, after a
  minus if the number is negative: it has no exponent.
\<close>

definition negative_text :: "string \<Rightarrow> bool" where
  "negative_text t \<longleftrightarrow> js_starts_with ''-'' t"

definition signed_literal :: "string \<Rightarrow> bool" where
  "signed_literal t \<longleftrightarrow> (if negative_text t then literal (tl t) else literal t)"

definition signed_value :: "string \<Rightarrow> rat" where
  "signed_value t = (if negative_text t then - literal_value (tl t) else literal_value t)"

definition readable :: "rat \<Rightarrow> bool" where
  "readable q \<longleftrightarrow> signed_literal (show_num q) \<and> signed_value (show_num q) = q"

text \<open>
  The number that the value of a cell stands for in an expression: 0 for an error, otherwise the number of the
  value (0 for an empty cell, 1 and 0 for booleans, the number that a text holds). \<open>None\<close> where there is no such
  number or its text has an exponent.
\<close>

definition operand_number :: "fval \<Rightarrow> rat option" where
  "operand_number v =
     (if is_error v then Some 0
      else case coerceNumber v of Fin q \<Rightarrow> if readable q then Some q else None | _ \<Rightarrow> None)"

definition arith_op :: "char \<Rightarrow> jsn \<Rightarrow> jsn \<Rightarrow> jsn" where
  "arith_op p = (if p = CHR ''+'' then jadd else if p = CHR ''-'' then jsub else if p = CHR ''*'' then jmul else jdiv)"

text \<open>
  The value of the expression: its references are read from left to right by \<open>get\<close>, which may evaluate formulas
  and change the cache. \<open>None\<close> when a reference has no number or when a negative number stands right after a minus.
\<close>

definition below_zero :: "jsn \<Rightarrow> bool" where
  "below_zero x \<longleftrightarrow> (case x of Fin q \<Rightarrow> q < 0 | _ \<Rightarrow> False)"

definition is_reference :: "arith \<Rightarrow> bool" where
  "is_reference e \<longleftrightarrow> (case e of ARef a \<Rightarrow> True | _ \<Rightarrow> False)"

definition combined :: "char \<Rightarrow> bool \<Rightarrow> jsn option \<Rightarrow> jsn option \<Rightarrow> jsn option" where
  "combined p bare u v =
     (case (u, v) of
        (Some x, Some y) \<Rightarrow> if p = CHR ''-'' \<and> bare \<and> below_zero y then None else Some (arith_op p x y)
      | _ \<Rightarrow> None)"

fun arith_run :: "(cell_address \<Rightarrow> rat option ev) \<Rightarrow> arith \<Rightarrow> jsn option ev" where
  "arith_run get (ALit t) = ev_return (Some (Fin (literal_value t)))"
| "arith_run get (ARef a) = ev_lift (map_option Fin) (get a)"
| "arith_run get (AOp p x y) =
     ev_bind (arith_run get x) (\<lambda>u. ev_lift (combined p (is_reference y) u) (arith_run get y))"

text \<open>The expression once its references are replaced by numbers.\<close>

datatype numexp = NLit string | NOp char numexp numexp

fun num_text :: "numexp \<Rightarrow> string" where
  "num_text (NLit t) = t"
| "num_text (NOp p x y) = ''('' @ num_text x @ [p] @ num_text y @ '')''"

fun num_ok :: "numexp \<Rightarrow> bool" where
  "num_ok (NLit t) = signed_literal t"
| "num_ok (NOp p x y) = (p \<in> set ''+-*/'' \<and> num_ok x \<and> num_ok y \<and> \<not> (p = CHR ''-'' \<and> negative_text (num_text y)))"

fun num_value :: "numexp \<Rightarrow> jsn" where
  "num_value (NLit t) = Fin (signed_value t)"
| "num_value (NOp p x y) = arith_op p (num_value x) (num_value y)"

subsection \<open>Its characters\<close>

definition number_char :: "char \<Rightarrow> bool" where
  "number_char c \<longleftrightarrow> is_digit c \<or> c \<in> set ''.()+-*/''"

definition formula_char :: "char \<Rightarrow> bool" where
  "formula_char c \<longleftrightarrow> number_char c \<or> is_upper c"

lemma formula_char_facts:
  assumes "formula_char c"
  shows "c \<noteq> dquote" "c \<noteq> CHR ''_''" "c \<noteq> CHR ''!''" "c \<noteq> CHR '':''" "\<not> is_ws c"
proof -
  have "c \<noteq> dquote \<and> c \<noteq> CHR ''_'' \<and> c \<noteq> CHR ''!'' \<and> c \<noteq> CHR '':''"
    using assms by (auto simp: formula_char_def number_char_def digit_code upper_code dquote_def)
  moreover have "\<not> is_ws c" using assms is_upper_kinds[of c] is_digit_kinds[of c]
    by (auto simp: formula_char_def number_char_def is_ws_def)
  ultimately show "c \<noteq> dquote" "c \<noteq> CHR ''_''" "c \<noteq> CHR ''!''" "c \<noteq> CHR '':''" "\<not> is_ws c" by auto
qed

text \<open>The two parts of a label.\<close>

lemma label_parts:
  assumes "0 \<le> row a" "0 \<le> col a"
  obtains L D where "cellAddressLabel a = L @ D" "L \<noteq> []" "D \<noteq> []" "list_all is_upper L" "list_all is_digit D"
    "columnLettersToIndex L = Some (col a)" "digits_value 10 D = row a + 1"
  using that[of "columnIndexToLetters (col a)" "dec_digits (row a + 1)"] assms columnIndexToLetters_facts[of "col a"]
    columnLettersToIndex_inverse[of "col a"] dec_digits_facts[of "row a + 1"]
  by (simp add: cellAddressLabel_def show_int_def)

lemma takeWhile_parts:
  assumes "list_all is_upper L" "list_all is_digit D" "D \<noteq> []" "rest = [] \<or> \<not> is_digit (hd rest)"
  shows "takeWhile is_alpha (L @ D @ rest) = L" "dropWhile is_alpha (L @ D @ rest) = D @ rest" "takeWhile is_digit (D @ rest) = D"
proof -
  have l: "\<forall>c \<in> set L. is_alpha c" using assms(1) is_upper_kinds by (auto simp: list_all_iff)
  have d: "\<not> is_alpha (hd (D @ rest))" using assms(2,3) is_digit_kinds by (cases D) auto
  show "takeWhile is_alpha (L @ D @ rest) = L" "dropWhile is_alpha (L @ D @ rest) = D @ rest"
    using l d assms(3) by (auto simp: takeWhile_append dropWhile_append takeWhile_eq_Nil_iff dropWhile_eq_self_iff)
  show "takeWhile is_digit (D @ rest) = D"
    using assms(2,4) by (auto simp: takeWhile_append list_all_iff takeWhile_eq_Nil_iff)
qed

lemma literal_facts:
  assumes "literal t"
  shows "t \<noteq> []" "list_all number_char t" "\<And>c. c \<in> set t \<Longrightarrow> is_digit c \<or> c = CHR ''.''"
  using assms by (auto simp: literal_def number_char_def starts_number_def list_all_iff)

definition edge_ok :: "string \<Rightarrow> bool" where
  "edge_ok s \<longleftrightarrow> s \<noteq> [] \<and> (is_digit (hd s) \<or> hd s = CHR ''.'' \<or> hd s = CHR ''('' \<or> is_upper (hd s)) \<and>
     (is_digit (last s) \<or> last s = CHR ''.'' \<or> last s = CHR '')'')"

lemma label_text:
  assumes "0 \<le> row a" "0 \<le> col a"
  shows "list_all formula_char (cellAddressLabel a) \<and> edge_ok (cellAddressLabel a) \<and> CHR ''('' \<notin> set (cellAddressLabel a)"
proof -
  obtain L D where p: "cellAddressLabel a = L @ D" "L \<noteq> []" "D \<noteq> []" "list_all is_upper L" "list_all is_digit D"
    using assms by (rule label_parts)
  have "\<not> is_upper (CHR ''('')" "\<not> is_digit (CHR ''('')" by (simp_all add: upper_code digit_code)
  moreover have "is_upper (hd L)" "is_digit (last D)" using p by (auto simp: list_all_iff)
  ultimately show ?thesis using p by (auto simp: list_all_iff formula_char_def number_char_def edge_ok_def)
qed

lemma literal_text: "literal t \<Longrightarrow> list_all formula_char t \<and> edge_ok t \<and> CHR ''('' \<notin> set t"
proof -
  assume t: "literal t"
  note f = literal_facts[OF t]
  have "\<not> is_digit (CHR ''('')" by (simp add: digit_code)
  moreover have "edge_ok t" using f(1) f(3)[of "hd t"] f(3)[of "last t"] by (auto simp: edge_ok_def)
  ultimately show ?thesis using f by (auto simp: formula_char_def number_char_def list_all_iff)
qed

lemma no_paren_no_call: "CHR ''('' \<notin> set s \<Longrightarrow> no_call_start s"
  unfolding no_call_start_def by (induction s rule: induct_list012) auto

lemma arith_text_facts:
  "arith_ok e \<Longrightarrow> list_all formula_char (arith_text e) \<and> edge_ok (arith_text e) \<and> no_call_start (arith_text e)"
proof (induction e)
  case (ALit t)
  then show ?case using literal_text no_paren_no_call by auto
next
  case (ARef a)
  then show ?case using label_text no_paren_no_call by (auto simp: address_ok_def)
next
  case (AOp p x y)
  have ops: "\<not> call_char (CHR ''('')" "\<not> call_char p" "p \<noteq> CHR ''(''" "number_char p"
    using AOp.prems by (auto simp: call_char_def word_char_def alpha_code digit_code number_char_def)
  from AOp have x: "list_all formula_char (arith_text x)" "edge_ok (arith_text x)" "no_call_start (arith_text x)"
    and y: "list_all formula_char (arith_text y)" "edge_ok (arith_text y)" "no_call_start (arith_text y)" by auto
  have "no_call_start (arith_text (AOp p x y))"
    using x y ops by (simp add: no_call_start_def successively_append_iff edge_ok_def successively_Cons)
  moreover have "list_all formula_char (arith_text (AOp p x y))" using x(1) y(1) ops(4) by (simp add: formula_char_def number_char_def)
  moreover have "edge_ok (arith_text (AOp p x y))" by (simp add: edge_ok_def)
  ultimately show ?case by blast
qed

lemma signed_chars: "signed_literal t \<Longrightarrow> t \<noteq> [] \<and> list_all number_char t"
  using literal_facts(1,2)[of t] literal_facts(2)[of "tl t"]
  by (cases t) (auto simp: signed_literal_def number_char_def negative_text_def split: if_splits)

lemma num_chars: "num_ok n \<Longrightarrow> list_all number_char (num_text n)"
  by (induction n) (auto simp: signed_chars number_char_def)

lemma literal_signed: "literal t \<Longrightarrow> \<not> negative_text t \<and> signed_literal t \<and> signed_value t = literal_value t"
proof -
  assume t: "literal t"
  then have "\<not> negative_text t"
    using literal_facts(1)[OF t] literal_facts(3)[OF t, of "hd t"] by (cases t) (auto simp: negative_text_def digit_code)
  with t show ?thesis by (simp add: signed_literal_def signed_value_def)
qed

lemma digits_value_nonneg: "list_all is_digit ds \<Longrightarrow> 0 \<le> digits_value 10 ds"
proof (induction ds rule: rev_induct)
  case (snoc d ds)
  have "0 \<le> digit_of d" using snoc.prems by (auto simp: digit_of_def digit_code Let_def)
  with snoc show ?case by (simp add: digits_value_def)
qed (simp add: digits_value_def)

lemma literal_value_nonneg: "0 \<le> literal_value t"
proof -
  have "0 \<le> pow10 k" for k by (simp add: pow10_def)
  moreover have "0 \<le> digits_value 10 (takeWhile is_digit u @ takeWhile is_digit w)" "0 \<le> digits_value 10 (takeWhile is_digit u)" for u w
    by (rule digits_value_nonneg, auto simp: list_all_iff dest: set_takeWhileD)+
  ultimately show ?thesis by (auto simp: literal_value_def number_at_def Let_def split: list.split)
qed

text \<open>Only the text of a negative number starts with a minus.\<close>

lemma readable_negative:
  assumes "readable q" "negative_text (show_num q)"
  shows "q < 0"
proof -
  have "q \<le> 0" using assms literal_value_nonneg[of "tl (show_num q)"] by (simp add: readable_def signed_value_def)
  moreover have "q \<noteq> 0" using assms(2) by (auto simp: show_num_def negative_text_def)
  ultimately show ?thesis by simp
qed

subsection \<open>Replacing its references\<close>

lemma parseCellRef_label:
  assumes "0 \<le> row a" "0 \<le> col a"
  shows "parseCellRef (cellAddressLabel a) = Some a"
proof -
  obtain L D where p: "cellAddressLabel a = L @ D" "L \<noteq> []" "D \<noteq> []" "list_all is_upper L" "list_all is_digit D"
    "columnLettersToIndex L = Some (col a)" "digits_value 10 D = row a + 1"
    using assms by (rule label_parts)
  have h: "is_upper (hd L)" "is_digit (hd D)" "is_digit (last D)" using p by (auto simp: list_all_iff)
  have trim: "js_trim (L @ D) = L @ D"
    using p h is_upper_kinds[of "hd L"] is_digit_kinds[of "last D"] by (intro js_trim_id) auto
  have dollar: "drop_dollar (L @ D) = L @ D" "drop_dollar D = D"
    using p h is_upper_kinds[of "hd L"] is_digit_kinds[of "hd D"] by (auto simp: drop_dollar_def neq_Nil_conv split: list.splits)
  have parts: "takeWhile is_alpha (L @ D) = L" "dropWhile is_alpha (L @ D) = D"
    using takeWhile_parts[OF p(4,5,3), of "[]"] by auto
  have "js_upper L = L" using p(4) is_upper_kinds by (induction L) (auto simp: js_upper_def)
  then show ?thesis
    using p assms by (simp add: parseCellRef_def trim dollar parts Let_def)
qed

lemma m_cell_prev: "segs m_cell p s = segs m_cell q s"
proof (induction s arbitrary: p q)
  case (Cons c s)
  have "m_cell p = m_cell q" by (simp add: m_cell_def fun_eq_iff)
  with Cons[of "Some c" "Some c"] show ?case by (simp split: option.split nat.split)
qed simp

definition no_name_start :: "string \<Rightarrow> bool" where
  "no_name_start s \<longleftrightarrow> (s = [] \<or> \<not> is_digit (hd s) \<and> hd s \<noteq> CHR ''.'' \<and> \<not> is_alpha (hd s))"

lemma segs_label:
  assumes "0 \<le> row a" "0 \<le> col a" "no_name_start rest"
  shows "segs m_cell p (cellAddressLabel a @ rest) = Hit (cellAddressLabel a) # segs m_cell None rest"
proof -
  obtain L D where l: "cellAddressLabel a = L @ D" "L \<noteq> []" "D \<noteq> []" "list_all is_upper L" "list_all is_digit D"
    using assms(1,2) by (rule label_parts)
  have "m_cell p ((L @ D) @ rest) = Some (length (L @ D))"
  proof -
    have "rest = [] \<or> \<not> is_digit (hd rest)" using assms(3) by (auto simp: no_name_start_def)
    note w = takeWhile_parts[OF l(4,5,3) this]
    show ?thesis using l(2,3) unfolding m_cell_def append.assoc w Let_def by simp
  qed
  moreover obtain c u where "L @ D = c # u" using l(2) by (cases L) auto
  ultimately show ?thesis unfolding l(1) using m_cell_prev[of "Some (last (L @ D))" rest None] by simp
qed

lemma segs_no_alpha: "\<not> is_alpha c \<Longrightarrow> segs m_cell p (c # s) = Keep c # segs m_cell None s"
  using m_cell_prev[of "Some c" s None] by (simp add: m_cell_def)

lemma segs_no_alphas: "list_all (\<lambda>c. \<not> is_alpha c) t \<Longrightarrow> segs m_cell p (t @ s) = map Keep t @ segs m_cell None s"
proof (induction t arbitrary: p)
  case Nil
  then show ?case using m_cell_prev[of p s None] by simp
next
  case (Cons c t)
  then show ?case using segs_no_alpha by simp
qed

fun arith_segs :: "arith \<Rightarrow> seg list" where
  "arith_segs (ALit t) = map Keep t"
| "arith_segs (ARef a) = [Hit (cellAddressLabel a)]"
| "arith_segs (AOp p x y) = Keep (CHR ''('') # arith_segs x @ [Keep p] @ arith_segs y @ [Keep (CHR '')'')]"

lemma segs_arith:
  "arith_ok e \<Longrightarrow> no_name_start rest \<Longrightarrow> segs m_cell p (arith_text e @ rest) = arith_segs e @ segs m_cell None rest"
proof (induction e arbitrary: p rest)
  case (ALit t)
  have "\<not> is_alpha c" if "c \<in> set t" for c
    using literal_facts(3)[OF _ that] ALit.prems(1) by (auto simp: alpha_code digit_code)
  then have "list_all (\<lambda>c. \<not> is_alpha c) t" by (simp add: list_all_iff)
  then show ?case by (simp add: segs_no_alphas)
next
  case (ARef a)
  then show ?case by (auto simp: segs_label address_ok_def)
next
  case (AOp q x y)
  have ops: "\<not> is_alpha q" "\<not> is_alpha (CHR ''('')" "\<not> is_alpha (CHR '')'')"
    "no_name_start (q # t)" "no_name_start (CHR '')'' # t)" for t
    using AOp.prems(1) by (auto simp: no_name_start_def alpha_code digit_code)
  show ?case
    using AOp.IH(1)[of "q # arith_text y @ CHR '')'' # rest" None] AOp.IH(2)[of "CHR '')'' # rest" None] AOp.prems(1) ops
    by (simp add: segs_no_alpha del: segs.simps)
qed

lemma ev_map_append: "ev_map f (xs @ ys) = ev_bind (ev_map f xs) (\<lambda>us. ev_lift (\<lambda>vs. us @ vs) (ev_map f ys))"
  by (induction xs) (auto simp: ev_bind_def ev_lift_def ev_return_def fun_eq_iff split: sum.split)

lemma ev_map_chars: "ev_map (\<lambda>x. case x of Keep c \<Rightarrow> ev_return [c] | Hit h \<Rightarrow> f h) (map Keep t) = ev_return (map (\<lambda>c. [c]) t)"
  by (induction t) auto

lemma cell_text_number:
  assumes "operand_number v = Some q"
  shows "cell_text v = show_num q \<and> readable q"
proof -
  have zero: "show_num 0 = ''0''" "show_num 1 = ''1''" "readable 0" by code_simp+
  show ?thesis
  proof (cases "is_error v")
    case True
    with assms zero show ?thesis by (simp add: operand_number_def cell_text_def)
  next
    case False
    with assms have q: "coerceNumber v = Fin q" "readable q"
      by (auto simp: operand_number_def split: jsn.splits if_splits)
    with False zero show ?thesis
      by (cases v) (auto simp: cell_text_def coerceNumber_def val_string_def split: if_splits)
  qed
qed

text \<open>The replacement of one match of a reference.\<close>

definition cell_hit :: "access \<Rightarrow> string \<Rightarrow> string ev" where
  "cell_hit A h = (case parseCellRef h of
       None \<Rightarrow> ev_return h
     | Some a \<Rightarrow> ev_lift cell_text (ac_cell A (ac_sheet A) (row a) (col a)))"

definition operand_of :: "access \<Rightarrow> cell_address \<Rightarrow> rat option ev" where
  "operand_of A a = ev_lift operand_number (ac_cell A (ac_sheet A) (row a) (col a))"

lemma ev_bind_Inr: "ev_bind m f s = Inr (y, s') \<longleftrightarrow> (\<exists>x t. m s = Inr (x, t) \<and> f x t = Inr (y, s'))"
  by (auto simp: ev_bind_def split: sum.split)

lemma ev_lift_Inr: "ev_lift g m s = Inr (y, s') \<longleftrightarrow> (\<exists>x. m s = Inr (x, s') \<and> g x = y)"
  by (auto simp: ev_lift_def ev_bind_Inr ev_return_def)

lemma ev_map_Inr_append:
  "ev_map f xs s = Inr (us, t) \<Longrightarrow> ev_map f ys t = Inr (vs, s') \<Longrightarrow> ev_map f (xs @ ys) s = Inr (us @ vs, s')"
  by (auto simp: ev_map_append ev_bind_Inr ev_lift_Inr)

lemma segments_filled_in:
  defines "piece \<equiv> \<lambda>A x. case x of Keep c \<Rightarrow> ev_return [c] | Hit h \<Rightarrow> cell_hit A h"
  assumes "arith_ok e" "arith_run (operand_of A) e s = Inr (Some v, s')"
  shows "\<exists>n parts. ev_map (piece A) (arith_segs e) s = Inr (parts, s') \<and> concat parts = num_text n \<and>
    num_ok n \<and> num_value n = v \<and> (negative_text (num_text n) \<longrightarrow> is_reference e \<and> below_zero v)"
  using assms(2,3)
proof (induction e arbitrary: s s' v)
  case (ALit t)
  then have "num_ok (NLit t) \<and> num_value (NLit t) = v \<and> \<not> negative_text (num_text (NLit t)) \<and> s' = s"
    using literal_signed[of t] by (auto simp: ev_return_def)
  moreover have "ev_map (piece A) (map Keep t) s = Inr (map (\<lambda>c. [c]) t, s)"
    unfolding piece_def ev_map_chars by (simp add: ev_return_def)
  ultimately show ?case by (intro exI[of _ "NLit t"] exI[of _ "map (\<lambda>c. [c]) t"]) simp
next
  case (ARef a)
  then obtain x q where raw: "ac_cell A (ac_sheet A) (row a) (col a) s = Inr (x, s')" "operand_number x = Some q" "v = Fin q"
    by (auto simp: ev_lift_Inr operand_of_def)
  have "parseCellRef (cellAddressLabel a) = Some a" using ARef.prems(1) parseCellRef_label by (simp add: address_ok_def)
  then have "ev_map (piece A) (arith_segs (ARef a)) s = Inr ([cell_text x], s')"
    using raw(1) by (simp add: piece_def cell_hit_def ev_bind_Inr ev_lift_Inr ev_return_def)
  moreover have "num_ok (NLit (show_num q))" "num_value (NLit (show_num q)) = v"
    "negative_text (show_num q) \<longrightarrow> below_zero v"
    using cell_text_number[OF raw(2)] raw(3) readable_negative[of q] by (auto simp: readable_def below_zero_def)
  ultimately show ?case
    using cell_text_number[OF raw(2)] by (intro exI[of _ "NLit (show_num q)"] exI[of _ "[cell_text x]"]) (simp add: is_reference_def)
next
  case (AOp p x y)
  then obtain u w t where run: "arith_run (operand_of A) x s = Inr (Some u, t)" "arith_run (operand_of A) y t = Inr (Some w, s')"
    and v: "v = arith_op p u w" and tidy: "\<not> (p = CHR ''-'' \<and> is_reference y \<and> below_zero w)"
    by (auto simp: ev_bind_Inr ev_lift_Inr combined_def split: option.splits if_splits)
  from AOp.IH(1)[OF _ run(1)] AOp.prems(1) obtain n us where
    n: "ev_map (piece A) (arith_segs x) s = Inr (us, t)" "concat us = num_text n" "num_ok n" "num_value n = u" by auto
  from AOp.IH(2)[OF _ run(2)] AOp.prems(1) obtain m ws where
    m: "ev_map (piece A) (arith_segs y) t = Inr (ws, s')" "concat ws = num_text m" "num_ok m" "num_value m = w"
      "negative_text (num_text m) \<longrightarrow> is_reference y \<and> below_zero w" by auto
  have one: "ev_map (piece A) [Keep c] r = Inr ([[c]], r)" for c r
    by (simp add: piece_def) (simp add: ev_return_def)
  have "ev_map (piece A) ([Keep (CHR ''('')] @ arith_segs x @ [Keep p] @ arith_segs y @ [Keep (CHR '')'')]) s =
      Inr ([''(''] @ us @ [[p]] @ ws @ ['')''], s')"
    by (intro ev_map_Inr_append[OF one] ev_map_Inr_append[OF n(1)] ev_map_Inr_append[OF m(1)] one)
  moreover have "num_ok (NOp p n m)" using AOp.prems(1) n(3) m(3,5) tidy by auto
  ultimately show ?case using n(2,4) m(2,4) v
    by (intro exI[of _ "NOp p n m"] exI[of _ "[''(''] @ us @ [[p]] @ ws @ ['')'']"]) (simp add: negative_text_def)
qed

lemma replace_cells_arith:
  assumes "arith_ok e" "arith_run (operand_of A) e s = Inr (Some v, s')"
  shows "\<exists>n. replace_cells A (arith_text e) s = Inr (num_text n, s') \<and> num_ok n \<and> num_value n = v"
proof -
  have "segs m_cell None (arith_text e) = arith_segs e"
    using segs_arith[OF assms(1), of "[]" None] by (simp add: no_name_start_def)
  then show ?thesis
    using segments_filled_in[OF assms] unfolding replace_cells_def cell_hit_def[symmetric] ev_replace_def by (auto simp: ev_lift_Inr)
qed

subsection \<open>What is left is JavaScript\<close>

lemma number_char_facts:
  assumes "number_char c"
  shows "c \<notin> set ''&<=_'' \<and> c \<noteq> dquote \<and> lower_char c \<notin> set ''tfn'' \<and> allowed_char c"
proof -
  have "c \<notin> set ''&<=_''" "c \<noteq> dquote" using assms by (auto simp: number_char_def digit_code dquote_def)
  moreover have "lower_char c = c" using assms by (auto simp: number_char_def digit_code lower_char_def Let_def)
  moreover have "c \<notin> set ''tfn''" using assms by (auto simp: number_char_def digit_code)
  moreover have "allowed_char c" using assms by (auto simp: number_char_def allowed_char_def)
  ultimately show ?thesis by simp
qed

lemma no_word: "list_all number_char s \<Longrightarrow> c \<in> set ''tfn'' \<Longrightarrow> segs (m_word (c # w)) p s = map Keep s"
proof (rule segs_keep)
  fix p u
  assume s: "list_all number_char s" and c: "c \<in> set ''tfn''" and u: "suffix u s" "u \<noteq> []"
  then obtain d t where d: "u = d # t" "number_char d" by (cases u) (auto simp: suffix_def)
  have "lower_char c = c" using c by (auto simp: lower_char_def Let_def)
  with number_char_facts[OF d(2)] c have "lower_char d \<noteq> lower_char c" by metis
  with d show "m_word (c # w) p u = None" by (simp add: m_word_def js_lower_def)
qed

lemma not_equals_id: "CHR ''<'' \<notin> set s \<Longrightarrow> not_equals s = s"
  by (induction s rule: not_equals.induct) auto

lemma triple_equals_id: "CHR ''='' \<notin> set s \<Longrightarrow> triple_equals s = s"
  by (induction s rule: triple_equals.induct) auto

lemma to_js_id: "list_all number_char s \<Longrightarrow> to_js s = s"
proof -
  assume "list_all number_char s"
  then have "CHR ''<'' \<notin> set s" "CHR ''='' \<notin> set s" using number_char_facts by (auto simp: list_all_iff)
  then show ?thesis by (auto simp: to_js_def not_equals_id triple_equals_id leading_equals_def split: list.split)
qed

lemma finish_numbers:
  assumes s: "list_all number_char s"
  shows "finish_expression env strings s = js_scalar (js_run (fe_js env) s)"
proof -
  have "dquote \<notin> set s" "CHR ''_'' \<notin> set s" "CHR ''&'' \<notin> set s" "list_all allowed_char s"
    using number_char_facts s by (auto simp: list_all_iff)
  moreover from this have "map (\<lambda>c. if c = CHR ''&'' then CHR ''+'' else c) s = s" by (intro map_idI) auto
  moreover have "re_replace (m_word ''true'') f s = s" "re_replace (m_word ''false'') f s = s" "re_replace (m_word ''null'') f s = s" for f
    using no_word[OF s] by (simp_all add: re_replace_keep)
  ultimately show ?thesis
    by (simp add: finish_expression_def restore_strings_def re_replace_keep no_mark no_string is_clean_def sanitized_def to_js_id s)
qed

subsection \<open>Lexing and parsing\<close>

fun num_toks :: "numexp \<Rightarrow> tok list" where
  "num_toks (NLit t) = (if negative_text t then [TOp ''-'', TNum (literal_value (tl t))] else [TNum (literal_value t)])"
| "num_toks (NOp p x y) = TLp # num_toks x @ TOp [p] # num_toks y @ [TRp]"

fun num_jexp :: "numexp \<Rightarrow> jexp" where
  "num_jexp (NLit t) = (if negative_text t then EUn ''-'' (ENum (literal_value (tl t))) else ENum (literal_value t))"
| "num_jexp (NOp p x y) = EBin [p] (num_jexp x) (num_jexp y)"

lemma jeval_num: "num_ok n \<Longrightarrow> jeval (num_jexp n) = Some (JNum (num_value n))"
  by (induction n) (auto simp: binary_value_def unary_value_def is_jstr_def jval_number_def arith_op_def jneg_def signed_value_def)

definition push_all :: "'a list \<Rightarrow> 'a list reading \<Rightarrow> 'a list reading" where
  "push_all ts r = foldr push ts r"

lemma push_all_simps [simp]: "push_all [] r = r" "push_all (t # ts) r = push t (push_all ts r)"
    "push_all (ts @ us) r = push_all ts (push_all us r)" "push_all ts (Ok us) = Ok (ts @ us)"
  by (simp_all add: push_all_def) (induction ts; simp add: push_def)

lemma lex_end: "lex b [] = Ok []"
  by (simp add: lex.simps)

lemma lex_open: "lex b (CHR ''('' # t) = push TLp (lex False t)"
  by (subst lex.simps) (simp add: is_ws_def starts_number_def ident_char_def word_char_def alpha_code digit_code)

lemma lex_close: "lex b (CHR '')'' # t) = push TRp (lex True t)"
  by (subst lex.simps) (simp add: is_ws_def starts_number_def ident_char_def word_char_def alpha_code digit_code)

text \<open>After the operator \<open>p\<close> an operand starts that the lexer does not read together with it.\<close>

definition operand_start :: "char \<Rightarrow> string \<Rightarrow> bool" where
  "operand_start p s \<longleftrightarrow> s \<noteq> [] \<and> (is_digit (hd s) \<or> hd s = CHR ''.'' \<or> hd s = CHR ''('' \<or> hd s = CHR ''-'' \<and> p \<noteq> CHR ''-'')"

lemma lex_operator:
  assumes "p \<in> set ''+-*/''" and "b \<or> p \<noteq> CHR ''/''" and "operand_start p t"
  shows "lex b (p # t) = push (TOp [p]) (lex False t)"
proof -
  obtain d u where t: "t = d # u" using assms(3) by (cases t) (auto simp: operand_start_def)
  have d: "d \<notin> set ''+*/=<>|!''" "d = CHR ''-'' \<longrightarrow> p \<noteq> CHR ''-''" using assms(3) by (auto simp: operand_start_def t digit_code)
  have no_number: "\<not> starts_number (p # t)" using assms(1) by (auto simp: starts_number_def digit_code)
  have p: "\<not> ident_char p" "\<not> is_ws p" "p \<noteq> CHR 0x0A" "p \<noteq> CHR 0x0D" "p \<noteq> CHR 0x22" "p \<noteq> CHR ''(''" "p \<noteq> CHR '')''"
    using assms(1) by (auto simp: ident_char_def word_char_def alpha_code digit_code is_ws_def)
  have d': "CHR ''+'' \<noteq> d" "CHR ''*'' \<noteq> d" "CHR ''/'' \<noteq> d" "CHR ''='' \<noteq> d" using d by auto
  from assms(1) consider "p = CHR ''+''" | "p = CHR ''-''" | "p = CHR ''*''" | "p = CHR ''/''" by auto
  then have op: "op_at (p # t) = Some [p]"
  proof cases
    case 2
    then have "CHR ''-'' \<noteq> d" using d(2) by auto
    with 2 d' show ?thesis by (simp add: op_at_def punctuators_def t)
  qed (simp_all add: op_at_def punctuators_def t d')
  have plain: "[p] \<in> set plain_ops" using assms(1) by (auto simp: plain_ops_def)
  have slash: "\<not> js_starts_with ''/'' t" "\<not> js_starts_with ''*'' t" "\<not> js_starts_with ''<!--'' (p # t)"
    using assms(1) d by (auto simp: t)
  have outside: "\<not> (p = CHR ''/'' \<and> (\<not> b \<or> js_starts_with ''/'' t \<or> js_starts_with ''*'' t))"
    using assms(2) slash by auto
  show ?thesis by (subst lex.simps) (use outside in \<open>auto simp: p op plain slash no_number simp del: js_starts_with.simps\<close>)
qed

definition operand_end :: "string \<Rightarrow> bool" where
  "operand_end s \<longleftrightarrow> s = [] \<or> hd s \<in> set ''+-*/)''"

lemma number_at_literal:
  assumes "literal t" and "operand_end rest"
  shows "number_at (t @ rest) = (literal_value t, True, rest)"
proof -
  have end_: "rest = [] \<or> \<not> is_digit (hd rest) \<and> hd rest \<noteq> CHR ''.''"
    using assms(2) by (auto simp: operand_end_def digit_code)
  show ?thesis
  proof (cases "list_all is_digit t")
    case True
    then have t: "takeWhile is_digit t = t" "dropWhile is_digit t = []" by (auto simp: list_all_iff takeWhile_eq_all_conv)
    have tr: "takeWhile is_digit (t @ rest) = t" "dropWhile is_digit (t @ rest) = rest"
      using True end_ by (auto simp: takeWhile_append dropWhile_append takeWhile_eq_Nil_iff dropWhile_eq_self_iff list_all_iff)
    have "number_at (t @ rest) = (fst (number_at t), fst (snd (number_at t)), rest)"
      unfolding number_at_def tr t Let_def using end_ by (cases rest) simp_all
    with assms(1) show ?thesis by (simp add: literal_def literal_value_def)
  next
    case False
    then obtain u where u: "dropWhile is_digit t = CHR ''.'' # u"
      using literal_facts(3)[OF assms(1)] hd_dropWhile[of is_digit t]
      by (cases "dropWhile is_digit t") (auto simp: dropWhile_eq_Nil_conv list_all_iff, metis list.set_intros(1) set_dropWhileD)
    define ip where "ip = takeWhile is_digit t"
    have t: "t = ip @ CHR ''.'' # u" using u ip_def takeWhile_dropWhile_id[of is_digit t] by simp
    have ip: "\<forall>c \<in> set ip. is_digit c" by (auto simp: ip_def dest: set_takeWhileD)
    have dot: "\<not> is_digit (CHR ''.'')" by (simp add: digit_code)
    have cut: "takeWhile is_digit (ip @ CHR ''.'' # v) = ip" "dropWhile is_digit (ip @ CHR ''.'' # v) = CHR ''.'' # v" for v
      using ip dot by (auto simp: takeWhile_append dropWhile_append)
    have "dropWhile is_digit u = []" using assms(1) by (simp add: literal_def number_at_def t cut Let_def)
    then have "\<forall>c \<in> set u. is_digit c" by (simp add: dropWhile_eq_Nil_conv)
    then have tu: "takeWhile is_digit (u @ rest) = u" "dropWhile is_digit (u @ rest) = rest" "takeWhile is_digit u = u"
      using end_ by (auto simp: takeWhile_append dropWhile_append takeWhile_eq_Nil_iff dropWhile_eq_self_iff takeWhile_eq_all_conv)
    have "fst (snd (number_at t))" using assms(1) by (simp add: literal_def)
    then show ?thesis unfolding literal_value_def number_at_def t append.assoc append_Cons cut Let_def by (simp add: tu)
  qed
qed

lemma lex_literal:
  assumes "literal t" and "operand_end rest"
  shows "lex b (t @ rest) = push (TNum (literal_value t)) (lex True rest)"
proof -
  obtain c u where t: "t = c # u" using literal_facts(1)[OF assms(1)] by (cases t) auto
  have c: "is_digit c \<or> c = CHR ''.''" using literal_facts(3)[OF assms(1)] t by auto
  have plain: "\<not> is_ws c" "c \<noteq> CHR 0x0A" "c \<noteq> CHR 0x0D" "c \<noteq> CHR 0x22"
    using c is_digit_kinds[of c] by (auto simp: is_ws_def digit_code)
  have "starts_number (t @ rest)"
    using assms(1) by (auto simp: literal_def starts_number_def t split: list.splits)
  moreover have "\<not> (rest \<noteq> [] \<and> ident_char (hd rest))"
    using assms(2) by (auto simp: operand_end_def ident_char_def word_char_def alpha_code digit_code)
  ultimately show ?thesis
    using number_at_literal[OF assms] plain unfolding t by (subst lex.simps) auto
qed

lemma lex_signed:
  assumes "signed_literal t" and "operand_end rest"
  shows "lex False (t @ rest) = push_all (num_toks (NLit t)) (lex True rest)"
proof (cases "negative_text t")
  case True
  then obtain u where t: "t = CHR ''-'' # u" "literal u"
    using assms(1) by (auto simp: signed_literal_def negative_text_def js_starts_with_iff)
  have "operand_start (CHR ''-'') (u @ rest)"
    using literal_facts(1)[OF t(2)] literal_facts(3)[OF t(2), of "hd u"] by (auto simp: operand_start_def)
  then show ?thesis using True t assms(2) by (simp add: lex_operator lex_literal)
qed (use assms in \<open>simp add: signed_literal_def lex_literal\<close>)

lemma signed_operand:
  "signed_literal t \<Longrightarrow> \<not> (p = CHR ''-'' \<and> negative_text t) \<Longrightarrow> operand_start p (t @ rest)"
  using literal_facts(1)[of t] literal_facts(3)[of t "hd t"] literal_facts(1)[of "tl t"]
  by (auto simp: signed_literal_def negative_text_def operand_start_def js_starts_with_iff split: if_splits)

lemma num_operand:
  "num_ok n \<Longrightarrow> \<not> (p = CHR ''-'' \<and> negative_text (num_text n)) \<Longrightarrow> operand_start p (num_text n @ rest)"
  by (cases n) (simp_all add: signed_operand operand_start_def[of p "CHR ''('' # _"])

lemma lex_num: "num_ok n \<Longrightarrow> operand_end rest \<Longrightarrow> lex False (num_text n @ rest) = push_all (num_toks n) (lex True rest)"
proof (induction n arbitrary: rest)
  case (NLit t)
  then show ?case by (simp add: lex_signed del: num_toks.simps)
next
  case (NOp p x y)
  have ends: "operand_end (p # t)" "operand_end (CHR '')'' # t)" for t
    using NOp.prems(1) by (auto simp: operand_end_def)
  have "operand_start p (num_text y @ t)" for t using NOp.prems(1) num_operand[of y p] by simp
  with NOp ends show ?case by (simp add: lex_open lex_operator lex_close)
qed

text \<open>The rest of the tokens ends an operand of level \<open>l\<close>.\<close>

definition stops :: "nat \<Rightarrow> tok list \<Rightarrow> bool" where
  "stops l rest \<longleftrightarrow> rest = [] \<or> (\<exists>r. rest = TRp # r) \<or>
     (\<exists>p r. rest = TOp p # r \<and> (\<forall>k. l \<le> k \<and> k < 6 \<longrightarrow> p \<notin> set (level_ops k)))"

lemma parse_tail_stops: "stops l rest \<Longrightarrow> parse_tail l e rest = Some (e, rest)"
  by (subst parse_tail.simps) (auto simp: stops_def)

lemma parse_calls_stops: "stops l rest \<Longrightarrow> parse_calls e rest = Some (e, rest)"
  by (subst parse_calls.simps) (auto simp: stops_def)

lemma stops_mono: "stops l rest \<Longrightarrow> l \<le> k \<Longrightarrow> stops k rest"
  by (auto simp: stops_def)

lemma parse_climb:
  "l \<le> k \<Longrightarrow> k \<le> 6 \<Longrightarrow> parse k ts = Some (e, rest) \<Longrightarrow> stops l rest \<Longrightarrow> parse l ts = Some (e, rest)"
proof (induction rule: inc_induct)
  case base
  then show ?case by simp
next
  case (step n)
  then have n: "n < 6" and p: "parse (n + 1) ts = Some (e, rest)" using stops_mono[of n rest "Suc n"] by auto
  then have "length rest < length ts" using parse_consumes[of "n + 1" ts] by simp
  with n p step.prems show ?case by (subst parse.simps) (simp add: parse_tail_stops)
qed

lemma parse_primary:
  assumes "parse 7 (a # ts) = Some (e, rest)" "\<And>p. a \<noteq> TOp p" "l \<le> 7" "stops l rest"
  shows "parse l (a # ts) = Some (e, rest)"
proof (cases "l = 7")
  case False
  moreover have "parse 6 (a # ts) = Some (e, rest)" using assms(1,2) by (simp add: parse_6_other)
  ultimately show ?thesis using assms(3,4) parse_climb[of l 6 "a # ts" e rest] by simp
qed (use assms in simp)

lemma parse_paren:
  assumes "parse 0 ts = Some (e, TRp # rest)" "stops l rest" "l \<le> 7"
  shows "parse l (TLp # ts) = Some (e, rest)"
proof -
  have "length (TRp # rest) < length ts" using assms(1) parse_consumes[of 0 ts] by simp
  then have "parse 7 (TLp # ts) = Some (e, rest)" using assms parse_calls_stops by (subst parse.simps) simp
  then show ?thesis by (rule parse_primary[OF _ _ assms(3,2)]) simp
qed

lemma parse_number: "stops l rest \<Longrightarrow> l \<le> 7 \<Longrightarrow> parse l (TNum x # rest) = Some (ENum x, rest)"
  by (rule parse_primary) (auto simp: parse.simps[of 7 "TNum x # rest"] parse_calls_stops)

lemma parse_signed:
  assumes "stops l rest" "l \<le> 6"
  shows "parse l (num_toks (NLit t) @ rest) = Some (num_jexp (NLit t), rest)"
proof (cases "negative_text t")
  case True
  have "parse 6 (TNum x # rest) = Some (ENum x, rest)" for x
    using assms stops_mono by (intro parse_number) auto
  then have "parse 6 (TOp ''-'' # TNum (literal_value (tl t)) # rest) = Some (EUn ''-'' (ENum (literal_value (tl t))), rest)"
    by (subst parse.simps) simp
  from parse_climb[OF assms(2) order_refl this assms(1)] True show ?thesis by simp
qed (use assms in \<open>simp add: parse_number\<close>)

lemma parse_num: "num_ok n \<Longrightarrow> stops l rest \<Longrightarrow> l \<le> 6 \<Longrightarrow> parse l (num_toks n @ rest) = Some (num_jexp n, rest)"
proof (induction n arbitrary: l rest)
  case (NLit t)
  then show ?case by (intro parse_signed)
next
  case (NOp p x y)
  define k :: nat where "k = (if p \<in> set ''+-'' then 4 else 5)"
  have levels: "set (level_ops 4) = {''+'', ''-''}" "set (level_ops 5) = {''*'', ''/''}" by (simp_all add: level_ops_def)
  then have p: "[p] \<in> set (level_ops k)" "k < 6" using NOp.prems(1) by (auto simp: k_def)
  have "[p] \<notin> set (level_ops j)" if "k + 1 \<le> j" "j < 6" for j
  proof -
    have "j = 5" "p \<in> set ''+-''" using that by (auto simp: k_def split: if_splits)
    then show ?thesis using levels by auto
  qed
  then have op: "stops (k + 1) (TOp [p] # ts)" for ts by (auto simp: stops_def)
  have right: "stops j (TRp # rest)" for j by (simp add: stops_def)
  let ?y = "num_toks y @ TRp # rest" and ?all = "num_toks x @ TOp [p] # num_toks y @ TRp # rest"
  have x: "parse (k + 1) ?all = Some (num_jexp x, TOp [p] # ?y)" by (rule NOp.IH(1)) (use NOp.prems p(2) op in auto)
  have y: "parse (k + 1) ?y = Some (num_jexp y, TRp # rest)" by (rule NOp.IH(2)) (use NOp.prems p(2) right in auto)
  have "parse_tail k (num_jexp x) (TOp [p] # ?y) = Some (num_jexp (NOp p x y), TRp # rest)"
    using p(1,2) y parse_consumes[OF _ y] by (subst parse_tail.simps) (simp add: parse_tail_stops[OF right])
  then have "parse k ?all = Some (num_jexp (NOp p x y), TRp # rest)"
    using p(2) x parse_consumes[OF _ x] by (subst parse.simps) simp
  from parse_climb[OF _ _ this right] p(2) have "parse 0 ?all = Some (num_jexp (NOp p x y), TRp # rest)" by simp
  moreover have "l \<le> 7" using NOp.prems(3) by simp
  ultimately show ?case using parse_paren[of ?all _ rest l] NOp.prems(2) by simp
qed

lemma run_num:
  assumes "num_ok n"
  shows "js_run outside (num_text n) = Returns (JNum (num_value n))"
proof -
  have "lex False (''('' @ num_text n @ '')'') = Ok (TLp # num_toks n @ [TRp])"
    using lex_num[OF assms, of "'')''"] by (simp add: lex_open operand_end_def lex_close lex_end push_def)
  moreover have "parse 0 (num_toks n @ [TRp]) = Some (num_jexp n, [TRp])"
    by (rule parse_num) (use assms in \<open>auto simp: stops_def\<close>)
  then have "parse 0 (TLp # num_toks n @ [TRp]) = Some (num_jexp n, [])" by (rule parse_paren) (auto simp: stops_def)
  ultimately show ?thesis by (simp add: js_run_def jeval_num[OF assms])
qed

lemma finish_num: "num_ok n \<Longrightarrow> finish_expression env [] (num_text n) = js_scalar (Returns (JNum (num_value n)))"
  by (simp add: finish_numbers num_chars run_num)

section \<open>The value of an arithmetic formula\<close>

definition number_result :: "jsn \<Rightarrow> fval" where
  "number_result x = (case x of Fin q \<Rightarrow> FNum q | _ \<Rightarrow> FStr ''#DIV/0!'')"

lemma expression_of_cells:
  assumes "js_trim t = t" "t \<noteq> []" "js_lower t \<noteq> ''true''" "js_lower t \<noteq> ''false''" "no_call_start t"
    and "dquote \<notin> set t" "CHR ''_'' \<notin> set t" "CHR ''!'' \<notin> set t" "CHR '':'' \<notin> set t"
  shows "expression_body C A t = ev_bind (replace_cells A t) (\<lambda>u. ev_return (Scalar (finish_expression (ec_env C) [] u)))"
proof -
  have sole: "sole_mark (CHR ''_'' # w) t = None" for w
    using assms(7) by (auto simp: sole_mark_def Let_def) (metis append_Cons list.set_intros(1))
  have "replace_qualified_ranges C A t = ev_return t" "replace_ranges A t = ev_return t" "replace_qualified_cells A t = ev_return t"
    using assms by (simp_all add: replace_qualified_ranges_def replace_ranges_def replace_qualified_cells_def
        sheet_qualified_range_def sheet_qualified_cell_def no_qualified no_range ev_replace_keep)
  then show ?thesis
    using assms sole by (simp add: expression_body_def Let_def string_segs_def no_string numbered_keep hits_keep no_call replace_calls_keep)
qed

lemma evaluate_arith:
  fixes C d V i r c
  defines "A \<equiv> access_of C (evaluateExpression C d) V i r c"
  assumes ok: "arith_ok e" and run: "arith_run (operand_of A) e s = Inr (Some v, s')"
  shows "evaluateExpression C (Suc d) V i r c (arith_text e) s = Inr (Scalar (number_result v), s')"
proof -
  let ?t = "arith_text e"
  from arith_text_facts[OF ok] have chars: "list_all formula_char ?t" and edge: "edge_ok ?t" and calls: "no_call_start ?t" by auto
  then have fresh: "dquote \<notin> set ?t" "CHR ''_'' \<notin> set ?t" "CHR ''!'' \<notin> set ?t" "CHR '':'' \<notin> set ?t"
    using formula_char_facts(1)[of dquote] formula_char_facts(2)[of "CHR ''_''"] formula_char_facts(3)[of "CHR ''!''"]
      formula_char_facts(4)[of "CHR '':''"] by (auto simp: list_all_iff)
  have "?t \<noteq> []" using edge by (simp add: edge_ok_def)
  then have "hd ?t \<in> set ?t" "last ?t \<in> set ?t" by auto
  then have trim: "js_trim ?t = ?t" using \<open>?t \<noteq> []\<close> chars formula_char_facts(5) by (intro js_trim_id) (auto simp: list_all_iff)
  have "lower_char (last ?t) \<noteq> CHR ''e''"
    using edge by (auto simp: edge_ok_def digit_code lower_char_def Let_def)
  moreover have "last (js_lower ?t) = lower_char (last ?t)" using \<open>?t \<noteq> []\<close> by (simp add: js_lower_def last_map)
  ultimately have words: "js_lower ?t \<noteq> ''true''" "js_lower ?t \<noteq> ''false''" by auto
  obtain n where n: "replace_cells A ?t s = Inr (num_text n, s')" "num_ok n" "num_value n = v"
    using replace_cells_arith[OF ok run] by blast
  have "finish_expression (ec_env C) [] (num_text n) = number_result v"
    using n(2,3) by (auto simp: finish_num js_scalar_def number_result_def is_finite_def fnum_def split: jsn.split)
  then show ?thesis
    using expression_of_cells[OF trim \<open>?t \<noteq> []\<close> words calls fresh, of C A] n(1)
    by (simp add: A_def[symmetric] ev_bind_def ev_return_def)
qed

end
