(* ===== verification/FormulaRanges.thy ===== *)
theory FormulaRanges
  imports FormulaArith
begin

text \<open>
  A range in a formula becomes the sum of its numbers, also where it is the argument of a function:
  the functions of numbers get one number for the whole range.
\<close>

section \<open>The text of a sum\<close>

definition sum_toks :: "string list \<Rightarrow> tok list" where
  "sum_toks ts = concat (map (\<lambda>t. TOp ''+'' # num_toks (NLit t)) ts)"

fun sum_jexp :: "jexp \<Rightarrow> string list \<Rightarrow> jexp" where
  "sum_jexp e [] = e"
| "sum_jexp e (t # ts) = sum_jexp (EBin ''+'' e (num_jexp (NLit t))) ts"

lemma join_parts: "js_join ''+'' (t # ts) = t @ concat (map (\<lambda>u. ''+'' @ u) ts)"
  by (induction ts arbitrary: t) auto

lemma sum_end: "operand_end (concat (map (\<lambda>u. ''+'' @ u) ts) @ '')'')"
  by (cases ts) (auto simp: operand_end_def)

lemma lex_sum:
  "list_all signed_literal ts \<Longrightarrow> lex True (concat (map (\<lambda>u. ''+'' @ u) ts) @ '')'') = Ok (sum_toks ts @ [TRp])"
proof (induction ts)
  case Nil
  then show ?case by (simp add: sum_toks_def lex_close lex_end push_def)
next
  case (Cons t ts)
  let ?rest = "concat (map (\<lambda>u. ''+'' @ u) ts) @ '')''"
  have "lex False (t @ ?rest) = push_all (num_toks (NLit t)) (lex True ?rest)"
    using Cons.prems sum_end by (intro lex_signed) auto
  moreover have "operand_start (CHR ''+'') (t @ ?rest)" using Cons.prems by (intro signed_operand) auto
  ultimately show ?case using Cons by (simp add: lex_operator sum_toks_def push_def del: num_toks.simps)
qed

lemma stops_sum: "stops 5 (sum_toks ts @ [TRp])"
  by (cases ts) (auto simp: stops_def sum_toks_def level_ops_def less_Suc_eq numeral_eq_Suc)

lemma parse_sum_tail: "parse_tail 4 e (sum_toks ts @ [TRp]) = Some (sum_jexp e ts, [TRp])"
proof (induction ts arbitrary: e)
  case Nil
  then show ?case by (simp add: sum_toks_def parse_tail_stops stops_def)
next
  case (Cons t ts)
  have toks: "sum_toks (t # ts) @ [TRp] = TOp ''+'' # num_toks (NLit t) @ sum_toks ts @ [TRp]" by (simp add: sum_toks_def)
  have "parse 5 (num_toks (NLit t) @ sum_toks ts @ [TRp]) = Some (num_jexp (NLit t), sum_toks ts @ [TRp])"
    by (rule parse_signed[OF stops_sum]) simp
  with Cons.IH show ?case unfolding toks
    using parse_consumes[of 5 "num_toks (NLit t) @ sum_toks ts @ [TRp]"]
    by (subst parse_tail.simps) (simp add: level_ops_def del: num_toks.simps num_jexp.simps)
qed

lemma jeval_signed: "jeval (num_jexp (NLit t)) = Some (JNum (Fin (signed_value t)))"
  by (simp add: signed_value_def unary_value_def jval_number_def jneg_def)

lemma jeval_sum: "jeval e = Some (JNum (Fin x)) \<Longrightarrow>
    jeval (sum_jexp e ts) = Some (JNum (Fin (x + sum_list (map signed_value ts))))"
proof (induction ts arbitrary: e x)
  case (Cons t ts)
  have "jeval (EBin ''+'' e (num_jexp (NLit t))) = Some (JNum (Fin (x + signed_value t)))"
    using Cons.prems jeval_signed[of t] by (simp add: binary_value_def is_jstr_def jval_number_def jadd_def del: num_jexp.simps)
  from Cons.IH[OF this] show ?case by (simp add: add.assoc del: num_jexp.simps)
qed simp

lemma run_sum:
  assumes "list_all signed_literal (t # ts)"
  shows "js_run outside (js_join ''+'' (t # ts)) = Returns (JNum (Fin (sum_list (map signed_value (t # ts)))))"
proof -
  let ?toks = "num_toks (NLit t) @ sum_toks ts @ [TRp]" and ?first = "num_jexp (NLit t)"
  have "lex False (t @ concat (map (\<lambda>u. ''+'' @ u) ts) @ '')'') =
      push_all (num_toks (NLit t)) (lex True (concat (map (\<lambda>u. ''+'' @ u) ts) @ '')''))"
    using assms sum_end by (intro lex_signed) auto
  then have lex: "lex False (''('' @ js_join ''+'' (t # ts) @ '')'') = Ok (TLp # ?toks)"
    using lex_sum[of ts] assms by (simp add: join_parts lex_open push_def del: num_toks.simps)
  have first: "parse 5 ?toks = Some (?first, sum_toks ts @ [TRp])"
    by (rule parse_signed[OF stops_sum]) simp
  then have "parse 4 ?toks = Some (sum_jexp ?first ts, [TRp])"
    using parse_sum_tail[of ?first ts] parse_consumes[OF _ first]
    by (subst parse.simps) (simp del: num_toks.simps num_jexp.simps)
  then have "parse 0 ?toks = Some (sum_jexp ?first ts, [TRp])" by (intro parse_climb[of 0 4]) (auto simp: stops_def)
  then have "parse 0 (TLp # ?toks) = Some (sum_jexp ?first ts, [])" by (rule parse_paren) (auto simp: stops_def)
  with lex jeval_sum[OF jeval_signed, of t ts] show ?thesis by (simp add: js_run_def del: num_jexp.simps num_toks.simps)
qed

section \<open>The text of a range\<close>

definition range_text :: "cell_address \<Rightarrow> cell_address \<Rightarrow> string" where
  "range_text a b = cellAddressLabel a @ '':'' @ cellAddressLabel b"

lemma label_no_colon: "address_ok a \<Longrightarrow> CHR '':'' \<notin> set (cellAddressLabel a)"
  using label_text[of a] formula_char_facts(4)[of "CHR '':''"] by (auto simp: address_ok_def list_all_iff)

lemma split_go_fresh: "c \<notin> set s \<Longrightarrow> split_go [c] acc s = [rev acc @ s]"
  by (induction s arbitrary: acc) auto

lemma split_go_one: "c \<notin> set s \<Longrightarrow> split_go [c] acc (s @ c # t) = (rev acc @ s) # split_go [c] [] t"
  by (induction s arbitrary: acc) auto

lemma parseRangeRef_text:
  assumes "address_ok a" "address_ok b"
  shows "parseRangeRef (range_text a b) = Some (normalizeRange \<lparr>rstart = a, rend = b\<rparr>)"
  using assms label_no_colon[of a] label_no_colon[of b]
  by (simp add: parseRangeRef_def js_split_def range_text_def split_go_one split_go_fresh parseCellRef_label address_ok_def)

lemma segs_range:
  assumes "address_ok a" "address_ok b"
  shows "segs m_range None (range_text a b) = [Hit (range_text a b)]"
proof -
  have cell: "m_cell p (cellAddressLabel x @ rest) = Some (length (cellAddressLabel x))"
    if x: "address_ok x" and rest: "rest = [] \<or> \<not> is_digit (hd rest)" for x p rest
  proof -
    obtain L D where l: "cellAddressLabel x = L @ D" "L \<noteq> []" "D \<noteq> []" "list_all is_upper L" "list_all is_digit D"
      using x label_parts[of x] unfolding address_ok_def by metis
    show ?thesis using l(2,3) unfolding l(1) m_cell_def append.assoc takeWhile_parts[OF l(4,5,3) rest] Let_def by simp
  qed
  have colon: "\<not> is_digit (CHR '':'')" by (simp add: digit_code)
  have "m_range None (range_text a b) = Some (length (range_text a b))"
    using cell[OF assms(1), of "'':'' @ cellAddressLabel b" None] cell[OF assms(2), of "[]" None] colon
    by (simp add: m_range_def m_pair_def range_text_def)
  moreover obtain c u where "range_text a b = c # u" by (cases "range_text a b") (auto simp: range_text_def)
  ultimately show ?thesis by simp
qed

section \<open>The value of a range\<close>

text \<open>What the code writes for a range: its numbers joined by plus signs, or 0.\<close>

lemma sum_text_terms:
  assumes "list_all readable (finite_nums vs)"
  shows "\<exists>ts. ts \<noteq> [] \<and> sum_text vs = js_join ''+'' ts \<and> list_all signed_literal ts \<and>
    sum_list (map signed_value ts) = sum_list (finite_nums vs)"
proof (cases "finite_nums vs = []")
  case True
  moreover have "signed_literal ''0''" "signed_value ''0'' = 0" by code_simp+
  ultimately show ?thesis by (intro exI[of _ "[''0'']"]) (simp add: sum_text_def)
next
  case False
  have "map signed_value (map show_num qs) = qs" if "list_all readable qs" for qs
    using that by (induction qs) (auto simp: readable_def)
  moreover have "list_all signed_literal (map show_num qs)" if "list_all readable qs" for qs
    using that by (auto simp: readable_def list_all_iff)
  ultimately show ?thesis using False assms
    by (intro exI[of _ "map show_num (finite_nums vs)"]) (simp add: sum_text_def Let_def del: map_map)
qed

lemma number_chars_fresh:
  assumes "list_all number_char s"
  shows "dquote \<notin> set s" "CHR ''_'' \<notin> set s" "CHR ''!'' \<notin> set s" "CHR '':'' \<notin> set s"
  using assms formula_char_facts[of dquote] formula_char_facts[of "CHR ''_''"] formula_char_facts[of "CHR ''!''"]
    formula_char_facts[of "CHR '':''"] by (auto simp: list_all_iff formula_char_def)

text \<open>Text of numbers and operators passes all replacements of references.\<close>

lemma number_text_kept:
  assumes "list_all number_char s"
  shows "replace_qualified_ranges C A s = ev_return s" "replace_ranges A s = ev_return s"
    "replace_qualified_cells A s = ev_return s" "replace_cells A s = ev_return s"
proof -
  note fresh = number_chars_fresh[OF assms]
  have "list_all (\<lambda>c. \<not> is_alpha c) s"
    using assms by (auto simp: list_all_iff number_char_def alpha_code digit_code)
  then have "segs m_cell None s = map Keep s" using segs_no_alphas[of s None "[]"] by simp
  then show "replace_qualified_ranges C A s = ev_return s" "replace_ranges A s = ev_return s"
    "replace_qualified_cells A s = ev_return s" "replace_cells A s = ev_return s"
    using fresh by (simp_all add: replace_qualified_ranges_def replace_ranges_def replace_qualified_cells_def replace_cells_def
        sheet_qualified_range_def sheet_qualified_cell_def no_qualified no_range ev_replace_keep)
qed

lemma range_text_facts:
  assumes "address_ok a" "address_ok b"
  shows "list_all (\<lambda>c. formula_char c \<or> c = CHR '':'') (range_text a b)" "CHR ''('' \<notin> set (range_text a b)"
    "range_text a b \<noteq> []" "js_trim (range_text a b) = range_text a b" "is_digit (last (range_text a b))"
proof -
  have a: "list_all formula_char (cellAddressLabel a)" "edge_ok (cellAddressLabel a)" "CHR ''('' \<notin> set (cellAddressLabel a)"
    and b: "list_all formula_char (cellAddressLabel b)" "edge_ok (cellAddressLabel b)" "CHR ''('' \<notin> set (cellAddressLabel b)"
    using label_text assms by (auto simp: address_ok_def)
  then show "list_all (\<lambda>c. formula_char c \<or> c = CHR '':'') (range_text a b)" "CHR ''('' \<notin> set (range_text a b)"
    "range_text a b \<noteq> []" by (auto simp: range_text_def list_all_iff)
  obtain L D where l: "cellAddressLabel b = L @ D" "D \<noteq> []" "list_all is_digit D"
    using assms(2) label_parts[of b] unfolding address_ok_def by metis
  then show last: "is_digit (last (range_text a b))" by (auto simp: range_text_def list_all_iff)
  have "hd (range_text a b) \<in> set (cellAddressLabel a)" using a(2) by (simp add: range_text_def edge_ok_def)
  then have "\<not> is_ws (hd (range_text a b))" using a(1) formula_char_facts(5) by (auto simp: list_all_iff)
  then show "js_trim (range_text a b) = range_text a b"
    using is_digit_kinds[OF last] by (intro js_trim_id) (auto simp: range_text_def)
qed

lemma not_a_word: "s \<noteq> [] \<Longrightarrow> lower_char (last s) \<noteq> CHR ''e'' \<Longrightarrow> js_lower s \<noteq> ''true'' \<and> js_lower s \<noteq> ''false''"
proof -
  assume "s \<noteq> []" "lower_char (last s) \<noteq> CHR ''e''"
  then have "last (js_lower s) \<noteq> CHR ''e''" by (simp add: js_lower_def last_map)
  then show ?thesis by auto
qed

lemma lower_digit: "is_digit c \<Longrightarrow> lower_char c \<noteq> CHR ''e''"
  by (auto simp: digit_code lower_char_def Let_def)

lemma no_sole: "CHR ''_'' \<notin> set s \<Longrightarrow> sole_mark (CHR ''_'' # w) s = None"
  by (auto simp: sole_mark_def Let_def) (metis append_Cons list.set_intros(1))

text \<open>The sum as the code adds it up, from left to right.\<close>

lemma sum_rats_sum: "sum_rats xs = sum_list xs"
  by (induction xs rule: rev_induct) (simp_all add: sum_rats_def)

lemma join_chars: "list_all signed_literal ts \<Longrightarrow> list_all number_char (js_join ''+'' ts)"
  by (induction ts rule: induct_list012) (auto simp: signed_chars number_char_def)

lemma evaluate_range:
  assumes a: "address_ok a" "address_ok b"
    and vs: "collectRangeValues C (evaluateExpression C d) V i (normalizeRange \<lparr>rstart = a, rend = b\<rparr>) s = Inr (vs, s')"
      "list_all readable (finite_nums vs)"
  shows "evaluateExpression C (Suc d) V i r c (range_text a b) s = Inr (Scalar (FNum (sum_list (finite_nums vs))), s')"
proof -
  let ?t = "range_text a b" and ?A = "access_of C (evaluateExpression C d) V i r c"
  define S where "S = sum_text vs"
  note t = range_text_facts[OF a]
  have "x \<notin> set ?t" if "\<not> formula_char x" "x \<noteq> CHR '':''" for x using t(1) that by (auto simp: list_all_iff)
  then have fresh: "dquote \<notin> set ?t" "CHR ''_'' \<notin> set ?t" "CHR ''!'' \<notin> set ?t"
    using formula_char_facts[of dquote] formula_char_facts[of "CHR ''_''"] formula_char_facts[of "CHR ''!''"] by (auto simp: dquote_def)
  have words: "js_lower ?t \<noteq> ''true''" "js_lower ?t \<noteq> ''false''"
    using not_a_word[OF t(3) lower_digit[OF t(5)]] by auto
  obtain u ts where ts: "S = js_join ''+'' (u # ts)" "list_all signed_literal (u # ts)"
    "sum_list (map signed_value (u # ts)) = sum_list (finite_nums vs)"
    using sum_text_terms[OF vs(2)] unfolding S_def by (metis neq_Nil_conv)
  then have chars: "list_all number_char S" using join_chars by blast
  have "replace_ranges ?A ?t s = Inr (S, s')"
    using vs(1) by (simp add: S_def replace_ranges_def ev_replace_def segs_range[OF a] parseRangeRef_text[OF a] access_of_def
        ev_bind_Inr ev_lift_Inr) (simp add: ev_return_def)
  moreover have "replace_qualified_ranges C ?A ?t = ev_return ?t"
    using fresh by (simp add: replace_qualified_ranges_def sheet_qualified_range_def no_qualified ev_replace_keep)
  moreover have "finish_expression (ec_env C) [] S = FNum (sum_list (finite_nums vs))"
    unfolding finish_numbers[OF chars] using run_sum[OF ts(2)] ts(3)
    by (simp add: ts(1) js_scalar_def is_finite_def fnum_def)
  moreover have "segs m_call None ?t = map Keep ?t" using no_call[OF no_paren_no_call[OF t(2)]] .
  ultimately show ?thesis
    using t(3) words no_sole[OF fresh(2)] fresh(1)
    by (simp add: expression_body_def Let_def t(4) string_segs_def no_string numbered_keep hits_keep replace_calls_keep ev_bind_Inr
        number_text_kept[OF chars]) (simp add: number_text_kept[OF chars] ev_return_def)
qed

section \<open>Functions of one range\<close>

lemma split_plain:
  "list_all (\<lambda>c. c \<noteq> dquote \<and> c \<notin> set ''(),;'') s \<Longrightarrow>
   split_args cur d b s = (if js_trim (rev cur @ s) = [] then [] else [rev cur @ s])"
  by (induction s arbitrary: cur) auto

lemma call_tail_plain: "list_all (\<lambda>c. c \<noteq> CHR ''('' \<and> c \<noteq> CHR '')'') s \<Longrightarrow> call_tail False (s @ '')'') = Some (Suc (length s))"
  by (induction s) auto

lemma single_call:
  assumes f: "list_all is_upper f" "f \<noteq> []" and args: "list_all (\<lambda>c. c \<noteq> CHR ''('' \<and> c \<noteq> CHR '')'') args"
  defines "h \<equiv> f @ ''('' @ args @ '')''"
  shows "segs m_call None h = [Hit h]" "call_name h = f" "call_args h = args"
proof -
  have letters: "call_char c" if "c \<in> set f" for c
    using f(1) that by (auto simp: list_all_iff call_char_def word_char_def alpha_code upper_code)
  have paren: "\<not> call_char (CHR ''('')" by (simp add: call_char_def word_char_def alpha_code digit_code)
  have cut: "takeWhile call_char (f @ CHR ''('' # u) = f" "dropWhile call_char (f @ CHR ''('' # u) = CHR ''('' # u" for u
    using letters paren by (auto simp: takeWhile_append dropWhile_append)
  have start: "is_name_start (hd f)" using f by (cases f) (auto simp: is_name_start_def alpha_code upper_code)
  have "m_call None h = Some (length h)"
    using f(2) start call_tail_plain[OF args] by (simp add: m_call_def h_def cut Let_def)
  moreover obtain x u where "h = x # u" using f(2) by (cases h) (auto simp: h_def)
  ultimately show "segs m_call None h = [Hit h]" by simp
  show name: "call_name h = f" by (simp add: call_name_def h_def cut)
  show "call_args h = args" unfolding call_args_def name by (simp add: h_def butlast_append)
qed

lemma resolve_none: "CHR ''_'' \<notin> set s \<Longrightarrow> resolve_args strings s = s"
  by (simp add: resolve_args_def re_replace_keep no_mark)

definition one_number_functions :: "string list" where
  "one_number_functions = [''SUM'', ''AVERAGE'', ''MIN'', ''MAX'', ''MEDIAN'']"

lemma one_number: "f \<in> set one_number_functions \<Longrightarrow> value_function env tick f [FNum q] = Some (Done (FNum q))"
proof -
  assume "f \<in> set one_number_functions"
  then consider "f = ''SUM''" | "f = ''AVERAGE''" | "f = ''MIN''" | "f = ''MAX''" | "f = ''MEDIAN''"
    by (auto simp: one_number_functions_def)
  then show ?thesis
  proof cases
    case 5
    have "sort_up [q] = [q]" by (simp add: sort_up_def js_sort_def)
    with 5 show ?thesis by (simp add: value_function_def median_value_def)
  qed (simp_all add: value_function_def average_value_def min_rats_def max_rats_def sum_rats_def fsum_def out_num_def fnum_def len_def)
qed

lemma range_chars:
  assumes "address_ok a" "address_ok b" "x \<in> set (range_text a b)"
  shows "is_upper x \<or> is_digit x \<or> x = CHR '':''"
proof -
  have "is_upper x \<or> is_digit x" if "address_ok c" "x \<in> set (cellAddressLabel c)" for c
    using that label_parts[of c] unfolding address_ok_def list_all_iff by (metis Un_iff set_append)
  with assms show ?thesis by (auto simp: range_text_def)
qed

lemma evaluate_range_function:
  assumes a: "address_ok a" "address_ok b"
    and vs: "collectRangeValues C (evaluateExpression C d) V i (normalizeRange \<lparr>rstart = a, rend = b\<rparr>) s = Inr (vs, s')"
      "list_all readable (finite_nums vs)"
    and sum: "readable (sum_rats (finite_nums vs))" and f: "f \<in> set one_number_functions"
  shows "evaluateExpression C (Suc (Suc d)) V i r c (f @ ''('' @ range_text a b @ '')'') s =
    Inr (Scalar (FNum (sum_rats (finite_nums vs))), s'\<lparr>es_tick := Suc (es_tick s')\<rparr>)"
proof -
  let ?args = "range_text a b"
  define A where "A = access_of C (evaluateExpression C (Suc d)) V i r c"
  define total where "total = sum_rats (finite_nums vs)"
  define S where "S = show_num total"
  define h where "h = f @ ''('' @ ?args @ '')''"
  note t = range_text_facts[OF a]
  have up: "list_all is_upper f" "f \<noteq> []" "js_upper f = f" "CHR ''_'' \<notin> set f" "dquote \<notin> set f"
    using f by (auto simp: one_number_functions_def upper_code js_upper_def upper_char_def Let_def dquote_def)
  have args: "x \<notin> set ?args" if "x \<in> set ''(),;_'' \<or> x = dquote" for x
    using range_chars[OF a, of x] that by (auto simp: upper_code digit_code dquote_def)
  then have fresh: "dquote \<notin> set h" "CHR ''_'' \<notin> set h" "CHR ''_'' \<notin> set ?args"
    using up by (auto simp: h_def dquote_def)
  have ends: "h \<noteq> []" "last h = CHR '')''" "is_upper (hd h)" using up by (auto simp: h_def list_all_iff)
  then have trim: "js_trim h = h" using is_upper_kinds[of "hd h"] by (intro js_trim_id) (auto simp: is_ws_def)
  have words: "js_lower h \<noteq> ''true''" "js_lower h \<noteq> ''false''"
    using not_a_word[OF ends(1)] ends(2) by (auto simp: lower_char_def)
  have "list_all (\<lambda>c. c \<noteq> CHR ''('' \<and> c \<noteq> CHR '')'') ?args" using args by (auto simp: list_all_iff)
  note call = single_call[OF up(1,2) this, folded h_def]
  have "list_all (\<lambda>c. c \<noteq> dquote \<and> c \<notin> set ''(),;'') ?args" using args by (auto simp: list_all_iff)
  then have split: "splitFunctionArgs ?args = [?args]" using t(3,4) by (simp add: splitFunctionArgs_def split_plain)
  have arg: "ac_expr A ?args s = Inr (Scalar (FNum total), s')"
    using evaluate_range[OF a vs, of r c] by (simp add: A_def access_of_def total_def sum_rats_sum del: evaluateExpression.simps)
  have fn: "evaluateFunction (ec_env C) A f ?args s = Inr (Scalar (FNum total), s'\<lparr>es_tick := Suc (es_tick s')\<rparr>)"
    using one_number[OF f] arg by (simp add: evaluateFunction_def split t(4) toScalar_def run_function_def up(3) ev_outcome_def
        ev_bind_Inr ev_lift_Inr) (simp add: ev_bind_def ev_lift_def ev_return_def ev_next_tick_def ev_outcome_def)
  have lit: "signed_literal S" "signed_value S = total" using sum by (simp_all add: readable_def S_def total_def)
  then have chars: "list_all number_char S" and ne: "S \<noteq> []" using signed_chars by blast+
  have "hd S \<in> set S" "last S \<in> set S" using ne by auto
  then have "js_trim S = S" "sole_mark (CHR ''_'' # w) S = None" for w
    using ne number_chars_fresh[OF chars] chars formula_char_facts(5)
    by (auto intro!: js_trim_id no_sole simp: list_all_iff formula_char_def)
  moreover have "finish_expression (ec_env C) [] S = FNum total"
    using finish_num[of "NLit S" "ec_env C"] lit by (simp add: js_scalar_def is_finite_def fnum_def)
  ultimately have "expression_body C A h s = Inr (Scalar (FNum total), s'\<lparr>es_tick := Suc (es_tick s')\<rparr>)"
    using ends(1) words no_sole[OF fresh(2)] fresh(1) fn
    by (simp add: expression_body_def Let_def trim string_segs_def no_string numbered_keep hits_keep call resolve_none[OF fresh(3)]
        scalar_text_def val_string_def S_def[symmetric] number_text_kept[OF chars] ev_bind_def ev_lift_def ev_return_def)
  then show ?thesis by (simp add: A_def h_def total_def)
qed

end
