(* ===== verification/FormulaCalendar.thy ===== *)
theory FormulaCalendar
  imports FormulaDates
begin

text \<open>
  The calendar functions of \<^verbatim>\<open>FormulaDates\<close> compute the proleptic Gregorian calendar: each day has one year, month and
  date. Months are counted from the start of the year 0.
\<close>


lemma div_step: "0 < k \<Longrightarrow> (a + 1) div k = a div k + (if (a + 1) mod k = 0 then 1 else (0 :: int))"
proof -
  assume k: "0 < k"
  show ?thesis
  proof (cases "(a + 1) mod k = 0")
    case True
    then obtain b where b: "a + 1 = k * b" by (auto simp: mod_eq_0_iff_dvd dvd_def)
    then have "a = k * (b - 1) + (k - 1)" by (simp add: algebra_simps)
    then have "a div k = (k * (b - 1) + (k - 1)) div k" by simp
    also have "\<dots> = b - 1" using k by simp
    finally show ?thesis using b k True by simp
  next
    case False
    have "a mod k + 1 \<noteq> k" using False k by (metis mod_add_left_eq mod_self)
    then have "a mod k + 1 < k" using pos_mod_bound[OF k, of a] by linarith
    then have "(a + 1) div k = a div k"
      using pos_mod_sign[OF k, of a] mult_div_mod_eq[of k a] by (intro int_div_pos_eq[of _ _ _ "a mod k + 1"]) linarith+
    then show ?thesis using False by simp
  qed
qed

lemma day_from_year_step: "day_from_year (y + 1) = day_from_year y + (if is_leap y then 366 else 365)"
proof -
  have m: "(y - 1968) mod 4 = y mod 4" "(y - 1900) mod 100 = y mod 100" "(y - 1600) mod 400 = y mod 400"
  proof -
    have e: "y - 1968 = y + 4 * (- 492)" "y - 1900 = y + 100 * (- 19)" "y - 1600 = y + 400 * (- 4)" by simp_all
    show "(y - 1968) mod 4 = y mod 4" "(y - 1900) mod 100 = y mod 100" "(y - 1600) mod 400 = y mod 400"
      unfolding e by (rule mod_mult_self2)+
  qed
  have a: "(y - 1968) div 4 = (y - 1969) div 4 + (if y mod 4 = 0 then 1 else 0)"
    "(y - 1900) div 100 = (y - 1901) div 100 + (if y mod 100 = 0 then 1 else 0)"
    "(y - 1600) div 400 = (y - 1601) div 400 + (if y mod 400 = 0 then 1 else 0)"
  proof -
    have e: "y - 1968 = y - 1969 + 1" "y - 1900 = y - 1901 + 1" "y - 1600 = y - 1601 + 1" by simp_all
    show "(y - 1968) div 4 = (y - 1969) div 4 + (if y mod 4 = 0 then 1 else 0)"
      "(y - 1900) div 100 = (y - 1901) div 100 + (if y mod 100 = 0 then 1 else 0)"
      "(y - 1600) div 400 = (y - 1601) div 400 + (if y mod 400 = 0 then 1 else 0)"
      unfolding m[symmetric] unfolding e by (rule div_step, simp)+
  qed
  have h: "(100 :: int) dvd 400" "(4 :: int) dvd 100" by simp_all
  have d: "y mod 400 = 0 \<Longrightarrow> y mod 100 = 0" "y mod 100 = 0 \<Longrightarrow> y mod 4 = 0"
    using dvd_trans[OF h(1), of y] dvd_trans[OF h(2), of y] unfolding mod_eq_0_iff_dvd by blast+
  have e: "y + 1 - 1969 = y - 1968" "y + 1 - 1901 = y - 1900" "y + 1 - 1601 = y - 1600" "y + 1 - 1970 = (y - 1970) + 1" by simp_all
  have leap: "A4 + (if P then 1 else 0) - (A100 + (if Q then 1 else 0)) + (A400 + (if R then 1 else 0)) =
      A4 - A100 + A400 + (if P \<and> (\<not> Q \<or> R) then 1 else (0 :: int))" if "R \<longrightarrow> Q" "Q \<longrightarrow> P" for A4 A100 A400 P Q R
    using that by (cases P; cases Q; cases R) simp_all
  have sum: "365 * (y - 1970 + 1) + A - B + C = 365 * (y - 1970) + 365 + (A - B + C)" for A B C by simp
  have d': "y mod 400 = 0 \<longrightarrow> y mod 100 = 0" "y mod 100 = 0 \<longrightarrow> y mod 4 = 0" using d by blast+
  have "day_from_year (y + 1) = 365 * (y - 1970) + 365 + ((y - 1969) div 4 - (y - 1901) div 100 + (y - 1601) div 400 + (if is_leap y then 1 else 0))"
    unfolding day_from_year_def e a is_leap_def sum leap[OF d'] ..
  then show ?thesis by (simp add: day_from_year_def)
qed

lemma day_from_year_mono: "x \<le> y \<Longrightarrow> day_from_year x \<le> day_from_year y"
proof (induction rule: int_ge_induct)
  case (step y)
  then show ?case using day_from_year_step[of y] by (auto split: if_splits)
qed simp

lemma year_unique: "day_from_year y \<le> d \<Longrightarrow> d < day_from_year (y + 1) \<Longrightarrow> year_from_day d = y"
proof -
  assume d: "day_from_year y \<le> d" "d < day_from_year (y + 1)"
  have "\<not> year_from_day d < y" "\<not> y < year_from_day d"
    using year_from_day[of d] d day_from_year_mono[of "year_from_day d + 1" y] day_from_year_mono[of "y + 1" "year_from_day d"] by linarith+
  then show ?thesis by simp
qed

text \<open>The first day of the month \<open>n\<close>, counted from the start of the year 0.\<close>

definition month_first :: "int \<Rightarrow> int" where
  "month_first n = make_day (n div 12) (n mod 12) 1"

definition months_of :: "int \<Rightarrow> int" where
  "months_of d = 12 * year_from_day d + month_from_day d"

lemma month_case: "0 \<le> m \<Longrightarrow> m < 12 \<Longrightarrow> m \<in> {0, 1, 2, 3, 4, 5, 6, 7, 8, 9, 10, 11 :: int}"
  unfolding insert_iff empty_iff by presburger

definition next_start :: "int \<Rightarrow> int \<Rightarrow> int" where
  "next_start y m = (if m = 11 then (if is_leap y then 366 else 365) else month_start y (m + 1))"

lemma months_upto: "[0..11] = [0, 1, 2, 3, 4, 5, 6, 7, 8, 9, 10, 11 :: int]"
  by (simp add: upto.simps)

lemma month_unique:
  assumes m: "0 \<le> m" "m < 12" and k: "month_start y m \<le> k" "k < next_start y m"
  shows "length (takeWhile (\<lambda>m. month_start y m \<le> k) [0..11]) = nat (m + 1)"
  using month_case[OF m] k unfolding months_upto
  by (cases "is_leap y") (auto simp: month_start_def next_start_def month_starts_def)

lemma next_start_bound: "0 \<le> m \<Longrightarrow> m < 12 \<Longrightarrow> next_start y m \<le> (if is_leap y then 366 else 365)"
  using month_case[of m] by (auto simp: next_start_def month_start_def month_starts_def)

lemma month_start_bound: "0 \<le> m \<Longrightarrow> m < 12 \<Longrightarrow> 0 \<le> month_start y m \<and> month_start y m < next_start y m"
  using month_case[of m] by (auto simp: next_start_def month_start_def month_starts_def)

lemma date_unique:
  assumes m: "0 \<le> m" "m < 12" and k: "month_start y m \<le> k" "k < next_start y m"
  shows "year_from_day (day_from_year y + k) = y" "month_from_day (day_from_year y + k) = m"
    "date_from_day (day_from_year y + k) = k - month_start y m + 1"
proof -
  have "0 \<le> k" "k < (if is_leap y then 366 else 365)"
    using k month_start_bound[OF m, of y] next_start_bound[OF m, of y] by linarith+
  then show y: "year_from_day (day_from_year y + k) = y" using day_from_year_step[of y] by (intro year_unique) auto
  show "month_from_day (day_from_year y + k) = m"
    unfolding month_from_day_def y Let_def using month_unique[OF m k] m by simp
  then show "date_from_day (day_from_year y + k) = k - month_start y m + 1" by (simp add: date_from_day_def y)
qed

lemma month_first_split: "month_first n = day_from_year (n div 12) + month_start (n div 12) (n mod 12)"
  by (simp add: month_first_def make_day_def)

lemma month_first_facts: "months_of (month_first n) = n" "date_from_day (month_first n) = 1"
proof -
  have m: "0 \<le> n mod 12" "n mod 12 < 12" by simp_all
  note start = month_start_bound[OF this, of "n div 12"]
  note u = date_unique[OF m, of "n div 12" "month_start (n div 12) (n mod 12)"]
  show "months_of (month_first n) = n" "date_from_day (month_first n) = 1"
    using u start by (simp_all add: months_of_def month_first_split)
qed

lemma split12: "0 \<le> r \<Longrightarrow> r < 12 \<Longrightarrow> n = 12 * q + r \<Longrightarrow> n div 12 = q \<and> n mod 12 = (r :: int)"
  by (simp add: int_div_pos_eq int_mod_pos_eq)

lemma month_first_step: "month_first (n + 1) = day_from_year (n div 12) + next_start (n div 12) (n mod 12)"
proof -
  define q r where "q = n div 12" and "r = n mod 12"
  have n: "n = 12 * q + r" and r: "0 \<le> r" "r < 12" by (simp_all add: q_def r_def)
  show ?thesis
  proof (cases "r = 11")
    case True
    then have "(n + 1) div 12 = q + 1 \<and> (n + 1) mod 12 = 0" using n by (intro split12) auto
    then show ?thesis using True day_from_year_step[of q] unfolding month_first_split q_def[symmetric] r_def[symmetric]
      by (simp add: next_start_def month_start_def month_starts_def)
  next
    case False
    then have "(n + 1) div 12 = q \<and> (n + 1) mod 12 = r + 1" using n r by (intro split12) auto
    then show ?thesis using False unfolding month_first_split q_def[symmetric] r_def[symmetric] by (simp add: next_start_def)
  qed
qed

lemma month_last: "months_of (month_first (n + 1) - 1) = n"
proof -
  have m: "0 \<le> n mod 12" "n mod 12 < 12" by simp_all
  note start = month_start_bound[OF this, of "n div 12"]
  have "months_of (day_from_year (n div 12) + (next_start (n div 12) (n mod 12) - 1)) = n"
    using date_unique[OF m, of "n div 12" "next_start (n div 12) (n mod 12) - 1"] start by (simp add: months_of_def)
  then show ?thesis by (simp add: month_first_step add_diff_eq)
qed

lemma serial_time_whole: "serial_time (Fin (of_int s)) = time_clip ((s - 25569) * 86400000)"
proof -
  have "(of_int s - 25569) * 86400 * 1000 = (of_int ((s - 25569) * 86400000) :: rat)" by simp
  then show ?thesis unfolding serial_time_def by (simp only: jsn.case math_trunc_def floor_of_int ceiling_of_int if_cancel)
qed

text \<open>EOMONTH gives the last day of the month that is k months after the month of the date: the result lies in
  that month, and the day after it is the first of a month.\<close>

theorem eomonth_last_day:
  fixes s k :: int
  defines "e \<equiv> month_first (months_of (s - 25569) + k + 1) - 1"
  assumes "\<bar>s - 25569\<bar> \<le> 100000000" "\<bar>e\<bar> \<le> 100000000"
  shows "eomonth_fn (Fin (of_int s)) (Fin (of_int k)) = Fin (of_int (e + 25569)) \<and>
    months_of e = months_of (s - 25569) + k \<and> date_from_day (e + 1) = 1"
proof -
  let ?d = "s - 25569"
  have clip: "time_clip (x * 86400000) = Some (x * 86400000)" if "\<bar>x\<bar> \<le> 100000000" for x
    using that by (simp add: time_clip_def abs_mult)
  have "(12 * y + x) div 12 = y + x div 12 \<and> (12 * y + x) mod 12 = x mod 12" for x y :: int by simp
  from this[of "year_from_day ?d" "month_from_day ?d + k + 1"]
  have "make_day (year_from_day ?d) (month_from_day ?d + k + 1) 0 = e"
    by (simp add: e_def month_first_split months_of_def make_day_def add.assoc)
  then have "eomonth_fn (Fin (of_int s)) (Fin (of_int k)) = Fin (of_int (e + 25569))"
    using clip[OF assms(2)] clip[OF assms(3)]
    by (simp add: eomonth_fn_def shift_months_def serial_time_whole fin_of_def day_of_def int_or_nan_def)
  then show ?thesis using month_first_facts(2)[of "months_of ?d + k + 1"] month_last[of "months_of ?d + k"] by (simp add: e_def)
qed

theorem eomonth_last_day_witness:
  "eomonth_fn (Fin 45322) (Fin 1) = Fin 45351 \<and> date_from_day (45351 - 25569) = 29"
proof -
  have m: "month_first (months_of (45322 - 25569) + 1 + 1) - 1 = 19782" "date_from_day (45351 - 25569) = 29" by code_simp+
  have "eomonth_fn (Fin (of_int 45322)) (Fin (of_int 1)) =
      Fin (of_int (month_first (months_of (45322 - 25569) + 1 + 1) - 1 + 25569))"
    by (rule eomonth_last_day[THEN conjunct1]) (unfold m(1), simp_all)
  with m show ?thesis by simp
qed

end
