(* ===== verification/FormulaProps.thy ===== *)
theory FormulaProps
  imports FormulaHalting FormulaRanges FormulaCalendar
begin

text \<open>
  The properties of the formula evaluator: when a recalculation ends, what arithmetic and the functions of a
  range compute, how arguments are split, and what results can be.
\<close>

section \<open>Recalculation ends\<close>

text \<open>The step from a depth to a deeper one is the interface of \<^verbatim>\<open>FormulaDepth\<close> on the evaluator itself.\<close>

interpretation deeper_access: related_access True "\<lambda>_. True"
  "access_of C (evaluateExpression C n) V i r c" "access_of C (evaluateExpression C (n + k)) V i r c" for C n k V i r c
  by (rule access_related) (auto simp: cells_rel_def simp del: evaluateExpression.simps intro!: deeper)

text \<open>C3. When no formula has an underscore or calls LET, a depth of calls of the number of formulas times the
  most parentheses of one formula plus one is enough to recalculate the workbook, also when formulas refer to
  each other in circles: the recalculation never overflows, and more depth does not change its result.\<close>

theorem recalculation_ends:
  assumes "list_all (tame \<circ> snd) (formula_cells ss)" and "stack_need ss \<le> depth"
  shows "recalculate_sheets env depth 0 ss ss names 0 \<noteq> Inl StackOverflow \<and>
    recalculate_sheets env depth 0 ss ss names 0 = recalculate_sheets env (stack_need ss) 0 ss ss names 0"
  using sheets_recalculation_halts[OF assms(1) order_refl assms(2), of "[]" ss env names 0] by auto

definition circle_sheets :: "sheet list" where
  "circle_sheets = [new_sheet ''S1'' [[formula_cell ''=B1+1'', formula_cell ''=SUM(A1,MAX(C1,2))'', value_cell 5]]]"

theorem recalculation_ends_witness:
  "stack_need circle_sheets = 6 \<and> recalculate_sheets plain_env 100 0 circle_sheets circle_sheets None 0 \<noteq> Inl StackOverflow"
proof -
  have "list_all (tame \<circ> snd) (formula_cells circle_sheets)" "stack_need circle_sheets = 6" by code_simp+
  with recalculation_ends[of circle_sheets 100 plain_env None, THEN conjunct1] show ?thesis by simp
qed

section \<open>A recalculation that needs any depth\<close>

text \<open>A text that calls LET with itself as value, and a formula with the same text.\<close>

definition loop_text :: string where "loop_text = ''LET(x,A1,x)''"
definition loop_sheets :: "sheet list" where
  "loop_sheets = [new_sheet ''S1'' [[empty_cell\<lparr>cvalue := VStr loop_text\<rparr>, formula_cell (CHR ''='' # loop_text)]]]"

definition loop_context :: "formula_env \<Rightarrow> eval_context" where
  "loop_context env = \<lparr>ec_env = env, ec_sheets = loop_sheets, ec_names = None\<rparr>"

lemma one_word:
  assumes "js_trim e = e" "string_segs e = map Keep e" "segs m_call None e = map Keep e"
    "e \<noteq> []" "js_lower e \<noteq> ''true''" "js_lower e \<noteq> ''false''" "CHR ''_'' \<notin> set e" "CHR ''!'' \<notin> set e" "CHR '':'' \<notin> set e"
  shows "expression_body C A e =
    ev_bind (replace_cells A e) (\<lambda>t. ev_return (Scalar (finish_expression (ec_env C) [] t)))"
  using assms no_sole[of e]
  by (simp add: expression_body_def Let_def numbered_keep hits_keep replace_calls_keep replace_qualified_ranges_def replace_ranges_def
      replace_qualified_cells_def sheet_qualified_range_def sheet_qualified_cell_def no_qualified no_range ev_replace_keep)

lemma arg_x: "evaluateExpression (loop_context env) (Suc d) V i r c ''x'' = ev_return (error_result ''#ERROR!'')"
proof -
  have "js_trim ''x'' = ''x''" "string_segs ''x'' = map Keep ''x''" "segs m_call None ''x'' = map Keep ''x''"
    "js_lower ''x'' = ''x''" "segs m_cell None ''x'' = map Keep ''x''" by code_simp+
  moreover have "finish_expression env [] ''x'' = FStr ''#ERROR!''" by code_simp
  ultimately show ?thesis
    by (simp add: one_word replace_cells_def ev_replace_keep loop_context_def error_result_def)
qed

lemma arg_A1: "evaluateExpression (loop_context env) (Suc d) V 0 r c ''A1'' = ev_return (Scalar (FStr loop_text))"
proof -
  have a: "js_trim ''A1'' = ''A1''" "string_segs ''A1'' = map Keep ''A1''" "segs m_call None ''A1'' = map Keep ''A1''"
    "js_lower ''A1'' = ''a1''" "segs m_cell None ''A1'' = [Hit ''A1'']" "parseCellRef ''A1'' = Some \<lparr>row = 0, col = 0\<rparr>" by code_simp+
  have b: "cell_of loop_sheets 0 0 0 = Some (empty_cell\<lparr>cvalue := VStr loop_text\<rparr>)" by (simp add: loop_sheets_def cell_of_def nth_opt_def grid_at_def new_sheet_def)
  have c: "cell_text (FStr loop_text) = quoted loop_text" by code_simp
  have d: "finish_expression env [] (quoted loop_text) = FStr loop_text" by code_simp
  have e: "\<not> has_formula (empty_cell\<lparr>cvalue := VStr loop_text\<rparr>)" by code_simp
  show ?thesis using a b c d e
    by (simp add: one_word replace_cells_def ev_replace_def access_of_def getRawCellValue_def loop_context_def of_cell_value_def)
qed

lemma ev_bind_raise [simp]: "ev_bind (ev_raise f) g = ev_raise f"
  by (simp add: ev_bind_def ev_raise_def)

lemma ev_lift_raise [simp]: "ev_lift g (ev_raise f) = ev_raise f"
  by (simp add: ev_lift_def)

lemma tick_raise [simp]: "ev_bind ev_next_tick (\<lambda>k. ev_raise f) = ev_raise f"
  by (simp add: ev_bind_def ev_raise_def ev_next_tick_def)

lemma let_call_loops:
  assumes IH: "evaluateExpression (loop_context env) d V 0 r c (''('' @ loop_text @ '')'') = ev_raise StackOverflow"
  shows "evaluateFunction env (access_of (loop_context env) (evaluateExpression (loop_context env) d) V 0 r c) ''LET'' ''x,A1,x'' =
    ev_raise StackOverflow"
proof -
  define A where "A = access_of (loop_context env) (evaluateExpression (loop_context env) d) V 0 r c"
  have expr: "ac_expr A = evaluateExpression (loop_context env) d V 0 r c" by (simp add: A_def access_of_def)
  have split: "splitFunctionArgs ''x,A1,x'' = [''x'', ''A1'', ''x'']" "js_trim ''x'' = ''x''" "js_trim ''A1'' = ''A1''"
    "js_upper ''LET'' = ''LET''" "js_upper ''x'' = ''X''" "is_let_name ''x''" by code_simp+
  have subst: "applyLetBindings ''A1'' [] = ''A1''" "set_binding ''X'' loop_text [] = [(''X'', loop_text)]"
    "applyLetBindings ''x'' [(''X'', loop_text)] = ''('' @ loop_text @ '')''" by code_simp+
  have none: "value_function env t ''LET'' args = None" for t args by (simp add: value_function_def)
  have letf: "range_function env A ''LET'' ''x,A1,x'' ps args = Some (let_fn A ps)" for ps args
    by (simp add: range_function_def)
  show ?thesis
  proof (cases d)
    case 0
    then show ?thesis unfolding A_def[symmetric] by (simp add: evaluateFunction_def split expr)
  next
    case (Suc n)
    have x: "ac_expr A ''x'' = ev_return (error_result ''#ERROR!'')" and a1: "ac_expr A ''A1'' = ev_return (Scalar (FStr loop_text))"
      unfolding expr Suc by (rule arg_x, rule arg_A1)
    have "let_fn A [''x'', ''A1'', ''x''] = ev_raise StackOverflow"
      using IH[folded expr] by (simp add: let_fn_def split subst a1 toScalar_def val_string_def)
    then show ?thesis unfolding A_def[symmetric]
      by (simp add: evaluateFunction_def split x a1 run_function_def none letf)
  qed
qed

lemma let_loops:
  "evaluateExpression (loop_context env) d V 0 r c loop_text = ev_raise StackOverflow \<and>
   evaluateExpression (loop_context env) d V 0 r c (''('' @ loop_text @ '')'') = ev_raise StackOverflow"
proof (induction d)
  case 0
  then show ?case by simp
next
  case (Suc d)
  have a: "js_trim loop_text = loop_text" "string_segs loop_text = map Keep loop_text" "js_lower loop_text = ''let(x,a1,x)''"
    "sole_mark ''__STR'' loop_text = None" "loop_text \<noteq> []"
    "segs m_call None loop_text = [Hit loop_text]" "call_name loop_text = ''LET''" "call_args loop_text = ''x,A1,x''" by code_simp+
  have b: "js_trim (''('' @ loop_text @ '')'') = ''('' @ loop_text @ '')''"
    "string_segs (''('' @ loop_text @ '')'') = map Keep (''('' @ loop_text @ '')'')"
    "js_lower (''('' @ loop_text @ '')'') = ''(let(x,a1,x))''" "sole_mark ''__STR'' (''('' @ loop_text @ '')'') = None"
    "segs m_call None (''('' @ loop_text @ '')'') = [Keep (CHR ''(''), Hit loop_text, Keep (CHR '')'')]" by code_simp+
  have r: "resolve_args [] ''x,A1,x'' = ''x,A1,x''" by (rule resolve_none) simp
  have env: "ec_env (loop_context env) = env" by (simp add: loop_context_def)
  note call = let_call_loops[OF Suc.IH[THEN conjunct2]]
  have "expression_body (loop_context env) (access_of (loop_context env) (evaluateExpression (loop_context env) d) V 0 r c) loop_text =
      ev_raise StackOverflow"
    unfolding expression_body_def Let_def a b numbered_keep hits_keep env by (simp add: a r call)
  moreover have "expression_body (loop_context env) (access_of (loop_context env) (evaluateExpression (loop_context env) d) V 0 r c)
      (''('' @ loop_text @ '')'') = ev_raise StackOverflow"
    unfolding expression_body_def Let_def b numbered_keep hits_keep env by (simp add: a b r call)
  ultimately show ?case by simp
qed

text \<open>C33. The condition on LET cannot be left out: for a sheet of two cells, one with the text LET(x,A1,x) and one with
  that formula, no depth of calls is enough. LET puts the text of A1 in the place of x and evaluates it again.\<close>

theorem let_never_ends: "recalculate_sheets env depth 0 loop_sheets loop_sheets None 0 = Inl StackOverflow"
proof -
  let ?s = "new_sheet ''S1'' [[empty_cell\<lparr>cvalue := VStr loop_text\<rparr>, formula_cell (CHR ''='' # loop_text)]]"
  have clear: "clearSpillTargets ?s = ?s"
    by (simp add: clearSpillTargets_def new_sheet_def formula_cell_def empty_cell_def opt_text_def)
  have f: "\<not> has_formula (empty_cell\<lparr>cvalue := VStr loop_text\<rparr>)" "has_formula (formula_cell (CHR ''='' # loop_text))"
    "opt_text (formula (formula_cell (CHR ''='' # loop_text))) = CHR ''='' # loop_text" by code_simp+
  have C: "\<lparr>ec_env = env, ec_sheets = mapi (\<lambda>k entry. if k = 0 then ?s else entry) loop_sheets, ec_names = None\<rparr> = loop_context env"
    by (simp add: loop_context_def loop_sheets_def mapi_def)
  have "evaluateFormulaCell (evaluateExpression (loop_context env) depth) [] 0 0 1 (CHR ''='' # loop_text) \<lparr>es_cache = Map.empty, es_tick = 0\<rparr> =
      Inl StackOverflow"
    using let_loops[of env depth "[(0, 0, 1)]" 0 1]
    by (simp add: evaluateFormulaCell_def Let_def ev_bind_def ev_cached_def ev_raise_def)
  then have "recalculate_rows (loop_context env) (evaluateExpression (loop_context env) depth) 0 (rows ?s) \<lparr>es_cache = Map.empty, es_tick = 0\<rparr> =
      Inl StackOverflow"
    by (simp add: recalculate_rows_def new_sheet_def indices_def upto_rec1 recalculate_cell_def f ev_bind_def ev_lift_def ev_return_def)
  then show ?thesis unfolding loop_sheets_def recalculate_sheets.simps recalculateSheet_def Let_def clear
    using C by (simp add: loop_sheets_def)
qed

section \<open>Values\<close>

definition fresh_state :: ev_state where "fresh_state = \<lparr>es_cache = Map.empty, es_tick = 0\<rparr>"

definition sample_context :: "formula_env \<Rightarrow> eval_context" where
  "sample_context env = \<lparr>ec_env = env,
     ec_sheets = [new_sheet ''S1'' [[value_cell 1, value_cell (7 / 2)], [value_cell 3, formula_cell ''=(A1-4)'']]], ec_names = None\<rparr>"

lemma sample_values:
  "getRawCellValue (sample_context plain_env) ev V 0 0 0 = ev_return (FNum 1)"
  "getRawCellValue (sample_context plain_env) ev V 0 0 1 = ev_return (FNum (7 / 2))"
  "getRawCellValue (sample_context plain_env) ev V 0 1 0 = ev_return (FNum 3)"
proof -
  have "cell_of (ec_sheets (sample_context plain_env)) 0 0 0 = Some (value_cell 1)"
    "cell_of (ec_sheets (sample_context plain_env)) 0 0 1 = Some (value_cell (7 / 2))"
    "cell_of (ec_sheets (sample_context plain_env)) 0 1 0 = Some (value_cell 3)"
    "\<not> has_formula (value_cell q)" "of_cell_value (cvalue (value_cell q)) = FNum q" for q by code_simp+
  then show "getRawCellValue (sample_context plain_env) ev V 0 0 0 = ev_return (FNum 1)"
    "getRawCellValue (sample_context plain_env) ev V 0 0 1 = ev_return (FNum (7 / 2))"
    "getRawCellValue (sample_context plain_env) ev V 0 1 0 = ev_return (FNum 3)"
    by (simp_all add: getRawCellValue_def)
qed

text \<open>The formula of B2 is evaluated once, gives -3 and is found in the cache afterwards.\<close>

definition with_B2 :: "ev_state \<Rightarrow> ev_state" where
  "with_B2 s = s\<lparr>es_cache := (es_cache s)((0, 1, 1) \<mapsto> Scalar (FNum (- 3)))\<rparr>"

lemma sample_B2:
  "getRawCellValue (sample_context plain_env) (evaluateExpression (sample_context plain_env) (Suc d)) [] 0 1 1 fresh_state =
     Inr (FNum (- 3), with_B2 fresh_state)"
  "getRawCellValue (sample_context plain_env) ev [] 0 1 1 (with_B2 s) = Inr (FNum (- 3), with_B2 s)"
proof -
  let ?C = "sample_context plain_env"
  have cell: "cell_of (ec_sheets ?C) 0 1 1 = Some (formula_cell ''=(A1-4)'')" "has_formula (formula_cell ''=(A1-4)'')"
    "opt_text (formula (formula_cell ''=(A1-4)'')) = ''=(A1-4)''" by code_simp+
  define e where "e = AOp (CHR ''-'') (ARef \<lparr>row = 0, col = 0\<rparr>) (ALit ''4'')"
  have e: "arith_text e = ''(A1-4)''" "arith_ok e" "operand_number (FNum 1) = Some 1" "literal_value ''4'' = 4"
    unfolding e_def by code_simp+
  have "arith_run (operand_of (access_of ?C (evaluateExpression ?C d) [(0, 1, 1)] 0 1 1)) e s = Inr (Some (Fin (- 3)), s)" for s
    by (simp add: e_def operand_of_def access_of_def sample_values e(3,4) combined_def below_zero_def arith_op_def jsub_def jneg_def jadd_def
        ev_lift_def) (simp add: ev_return_def is_reference_def)
  from evaluate_arith[OF e(2) this] have run: "evaluateExpression ?C (Suc d) [(0, 1, 1)] 0 1 1 ''(A1-4)'' fresh_state = Inr (Scalar (FNum (- 3)), fresh_state)"
    by (simp add: e(1) number_result_def)
  show "getRawCellValue ?C (evaluateExpression ?C (Suc d)) [] 0 1 1 fresh_state = Inr (FNum (- 3), with_B2 fresh_state)"
    using run by (simp add: getRawCellValue_def cell evaluateFormulaCell_def ev_lift_def ev_bind_def ev_cached_def ev_store_def ev_return_def
        fresh_state_def with_B2_def toScalar_def Let_def del: evaluateExpression.simps)
  show "getRawCellValue ?C ev [] 0 1 1 (with_B2 s) = Inr (FNum (- 3), with_B2 s)"
    by (simp add: getRawCellValue_def cell evaluateFormulaCell_def ev_lift_def ev_bind_def ev_cached_def ev_return_def with_B2_def toScalar_def Let_def)
qed

text \<open>C6. A formula of number literals, references and parenthesised operations evaluates to the value of its
  arithmetic expression over the cells, formula cells included: the references are read from left to right,
  each gives the number of what the cell holds or its formula evaluates to, an error and an empty or missing
  cell give 0, and a result that is not finite is #DIV/0!. The numbers read are those whose decimal
  text has no exponent and reads back as the number, and no negative one stands right after a minus (there the
  code pastes two minus signs).\<close>

theorem arithmetic_value:
  assumes "arith_ok e"
    and "arith_run (\<lambda>a. ev_lift operand_number (getRawCellValue C (evaluateExpression C d) V i (row a) (col a))) e s = Inr (Some v, s')"
  shows "evaluateExpression C (Suc d) V i r c (arith_text e) s = Inr (Scalar (number_result v), s')"
proof -
  have "operand_of (access_of C (evaluateExpression C d) V i r c) =
      (\<lambda>a. ev_lift operand_number (getRawCellValue C (evaluateExpression C d) V i (row a) (col a)))"
    by (simp add: operand_of_def access_of_def fun_eq_iff)
  with assms show ?thesis by (intro evaluate_arith) simp_all
qed

theorem arithmetic_value_witness:
  "evaluateExpression (sample_context plain_env) 2 [] 0 5 5 ''((B2*B1)/(2+B2))'' fresh_state =
    Inr (Scalar (FNum (21 / 2)), with_B2 fresh_state)"
proof -
  let ?C = "sample_context plain_env"
  define e where "e = AOp (CHR ''/'') (AOp (CHR ''*'') (ARef \<lparr>row = 1, col = 1\<rparr>) (ARef \<lparr>row = 0, col = 1\<rparr>))
    (AOp (CHR ''+'') (ALit ''2'') (ARef \<lparr>row = 1, col = 1\<rparr>))"
  have e: "arith_text e = ''((B2*B1)/(2+B2))''" "arith_ok e" "operand_number (FNum (- 3)) = Some (- 3)"
    "operand_number (FNum (7 / 2)) = Some (7 / 2)" "literal_value ''2'' = 2" unfolding e_def by code_simp+
  have "arith_run (\<lambda>a. ev_lift operand_number (getRawCellValue ?C (evaluateExpression ?C (Suc 0)) [] 0 (row a) (col a))) e fresh_state =
      Inr (Some (Fin (21 / 2)), with_B2 fresh_state)"
    using sample_B2(1)[of 0] sample_B2(2)
    by (simp add: e_def sample_values e(3-5) combined_def below_zero_def arith_op_def jmul_def jdiv_def jadd_def is_reference_def
        ev_lift_def ev_bind_def ev_return_def del: evaluateExpression.simps)
  from arithmetic_value[OF e(2) this, of 5 5] show ?thesis
    by (simp add: e(1) number_result_def numeral_2_eq_2 del: evaluateExpression.simps)
qed

text \<open>C19. SUM, AVERAGE, MIN, MAX and MEDIAN of a range all give the sum of the numbers in the range, whatever its
  cells hold or their formulas evaluate to, as long as the decimal texts of these numbers and of their sum have no exponent and
  read back as the numbers: the evaluator replaces the range by its numbers with plus signs between them
  before the function sees its argument.\<close>

theorem range_functions_give_sum:
  assumes "address_ok a" "address_ok b"
    and "collectRangeValues C (evaluateExpression C d) V i (normalizeRange \<lparr>rstart = a, rend = b\<rparr>) s = Inr (vs, s')"
    and "list_all readable (finite_nums vs)" "readable (sum_rats (finite_nums vs))" and "f \<in> set one_number_functions"
  shows "evaluateExpression C (Suc (Suc d)) V i r c (f @ ''('' @ range_text a b @ '')'') s =
    Inr (Scalar (FNum (sum_rats (finite_nums vs))), s'\<lparr>es_tick := Suc (es_tick s')\<rparr>)"
  using assms by (rule evaluate_range_function)

theorem range_functions_give_sum_witness:
  "evaluateExpression (sample_context plain_env) 3 [] 0 5 5 ''AVERAGE(A1:B2)'' fresh_state =
    Inr (Scalar (FNum (9 / 2)), (with_B2 fresh_state)\<lparr>es_tick := 1\<rparr>)"
proof -
  let ?C = "sample_context plain_env" and ?a = "\<lparr>row = 0, col = 0\<rparr>" and ?b = "\<lparr>row = 1, col = 1\<rparr>"
  let ?vs = "[FNum 1, FNum (7 / 2), FNum 3, FNum (- 3)]"
  have cells: "cells_between 0 0 1 1 = [(0, 0), (0, 1), (1, 0), (1, 1)]"
    "normalizeRange \<lparr>rstart = ?a, rend = ?b\<rparr> = \<lparr>rstart = ?a, rend = ?b\<rparr>" by code_simp+
  have nums: "finite_nums ?vs = [1, 7 / 2, 3, - 3]" "list_all readable [1, 7 / 2, 3, - 3]" "readable (sum_rats [1, 7 / 2, 3, - 3])" "sum_rats [1, 7 / 2, 3, - 3] = 9 / 2"
    and f: "address_ok ?a" "address_ok ?b" "''AVERAGE'' \<in> set one_number_functions"
      "''AVERAGE'' @ ''('' @ range_text ?a ?b @ '')'' = ''AVERAGE(A1:B2)''" by code_simp+
  have "collectRangeValues ?C (evaluateExpression ?C (Suc 0)) [] 0 (normalizeRange \<lparr>rstart = ?a, rend = ?b\<rparr>) fresh_state =
      Inr (?vs, with_B2 fresh_state)"
    using sample_B2(1)[of 0]
    by (simp add: collectRangeValues_def cells Let_def sample_values ev_bind_def ev_lift_def ev_return_def del: evaluateExpression.simps)
  from range_functions_give_sum[OF f(1,2) this, of "''AVERAGE''" 5 5] nums f(3,4)
  show ?thesis by (simp add: numeral_3_eq_3 with_B2_def fresh_state_def del: evaluateExpression.simps)
qed

text \<open>The formula that AutoSum puts below a range evaluates to the sum of its numbers.\<close>

theorem autosum_sums:
  assumes "address_ok (rstart (normalizeRange r))" "rstart (normalizeRange r) \<noteq> rend (normalizeRange r)"
    and "collectRangeValues C (evaluateExpression C d) V i (normalizeRange r) s = Inr (vs, s')"
    and "list_all readable (finite_nums vs)" "readable (sum_rats (finite_nums vs))"
  shows "\<exists>t. evaluateExpression C (Suc (Suc d)) V i k c (drop 1 (buildAutoSumFormula r)) s = Inr (Scalar (FNum (sum_rats (finite_nums vs))), t)"
proof -
  define a b where "a = rstart (normalizeRange r)" and "b = rend (normalizeRange r)"
  have a: "address_ok a" using assms(1) by (simp add: a_def)
  then have b: "address_ok b" by (auto simp: a_def b_def address_ok_def normalizeRange_def)
  have "parseCellRef (cellAddressLabel a) = Some a" "parseCellRef (cellAddressLabel b) = Some b"
    using a b parseCellRef_label by (auto simp: address_ok_def)
  then have "cellAddressLabel a \<noteq> cellAddressLabel b" using assms(2) a_def b_def by force
  then have ftext: "drop 1 (buildAutoSumFormula r) = ''SUM'' @ ''('' @ range_text a b @ '')''"
    by (simp add: buildAutoSumFormula_def a_def b_def cellAddressLabel_def range_text_def Let_def)
  have "normalizeRange \<lparr>rstart = a, rend = b\<rparr> = normalizeRange r"
    by (simp add: a_def b_def normalizeRange_def)
  with assms(3) have vs: "collectRangeValues C (evaluateExpression C d) V i (normalizeRange \<lparr>rstart = a, rend = b\<rparr>) s = Inr (vs, s')" by simp
  have "''SUM'' \<in> set one_number_functions" by (simp add: one_number_functions_def)
  from evaluate_range_function[OF a b vs assms(4,5) this] show ?thesis unfolding ftext by blast
qed

theorem autosum_sums_witness:
  "\<exists>t. evaluateExpression (sample_context plain_env) 2 [] 0 2 0 ''SUM(A1:A2)'' fresh_state = Inr (Scalar (FNum 4), t)"
proof -
  let ?r = "\<lparr>rstart = \<lparr>row = 1, col = 0\<rparr>, rend = \<lparr>row = 0, col = 0\<rparr>\<rparr>" and ?C = "sample_context plain_env"
  have facts: "address_ok (rstart (normalizeRange ?r))" "rstart (normalizeRange ?r) \<noteq> rend (normalizeRange ?r)"
    "list_all readable [1, 3]" "readable (sum_rats [1, 3])" "sum_rats [1, 3] = 4" "finite_nums [FNum 1, FNum 3] = [1, 3]"
    "drop 1 (buildAutoSumFormula ?r) = ''SUM(A1:A2)''" "cells_between 0 0 1 0 = [(0, 0), (1, 0)]"
    "normalizeRange ?r = \<lparr>rstart = \<lparr>row = 0, col = 0\<rparr>, rend = \<lparr>row = 1, col = 0\<rparr>\<rparr>"
    "normalizeRange \<lparr>rstart = \<lparr>row = 0, col = 0\<rparr>, rend = \<lparr>row = 1, col = 0\<rparr>\<rparr> =
      \<lparr>rstart = \<lparr>row = 0, col = 0\<rparr>, rend = \<lparr>row = 1, col = 0\<rparr>\<rparr>" by code_simp+
  have "collectRangeValues ?C (evaluateExpression ?C 0) [] 0 (normalizeRange ?r) fresh_state = Inr ([FNum 1, FNum 3], fresh_state)"
    by (simp add: collectRangeValues_def facts Let_def sample_values del: evaluateExpression.simps) (simp add: ev_return_def)
  from autosum_sums[OF facts(1,2) this, of 2 0] facts(3-7) show ?thesis
    by (simp add: numeral_2_eq_2 del: evaluateExpression.simps)
qed

section \<open>Results are numbers, texts, booleans or empty\<close>

definition every_result :: "('a \<Rightarrow> bool) \<Rightarrow> 'a ev \<Rightarrow> bool" where
  "every_result Q m \<longleftrightarrow> (\<forall>s x t. m s = Inr (x, t) \<longrightarrow> Q x)"

lemma every_result_rules:
  "Q x \<Longrightarrow> every_result Q (ev_return x)" "every_result Q (ev_raise fault)"
  "(\<And>x. every_result Q (f x)) \<Longrightarrow> every_result Q (ev_bind m f)"
  by (auto simp: every_result_def ev_return_def ev_raise_def ev_bind_def split: sum.splits)

definition proper :: "fval \<Rightarrow> bool" where
  "proper v \<longleftrightarrow> (case v of FNan \<Rightarrow> False | FInf b \<Rightarrow> False | _ \<Rightarrow> True)"

lemma proper_simps [simp]: "proper FNull" "proper (FBool b)" "proper (FStr t)" "proper (FNum q)"
  by (simp_all add: proper_def)

definition proper_result :: "fresult \<Rightarrow> bool" where
  "proper_result r \<longleftrightarrow> (case r of Scalar v \<Rightarrow> proper v | Arr a \<Rightarrow> True)"

lemma proper_returns [simp]: "every_result proper_result (ev_return (Scalar v)) \<longleftrightarrow> proper v"
    "every_result proper_result (ev_return (Arr a))"
  by (auto simp: every_result_def ev_return_def proper_result_def)

lemma finish_proper: "proper (finish_expression env strings t)"
  by (auto simp: finish_expression_def js_scalar_def proper_def is_finite_def fnum_def Let_def
      split: js_result.split jval.split jsn.split fval.split)

text \<open>C39. Whatever a formula is made of, a result that is not an array is a finite number, a boolean, a text or
  empty: never NaN and never an infinity.\<close>

theorem scalar_results_proper:
  assumes "evaluateExpression C depth V i r c e s = Inr (Scalar v, t)"
  shows "v \<noteq> FNan \<and> (\<forall>b. v \<noteq> FInf b)"
proof -
  have "every_result proper_result (expression_body C A e)" for A
    unfolding expression_body_def Let_def
    by (auto intro!: every_result_rules(3) simp: finish_proper split: option.split prod.split)
  then have "every_result proper_result (evaluateExpression C depth V i r c e)"
    by (cases depth) (auto intro: every_result_rules)
  with assms have "proper_result (Scalar v)" unfolding every_result_def by blast
  then have "proper v" by (simp add: proper_result_def)
  then show ?thesis by (auto simp: proper_def)
qed

theorem scalar_results_proper_witness:
  "evaluateExpression (sample_context plain_env) 1 [] 0 5 5 ''(1/0)'' fresh_state = Inr (Scalar (FStr ''#DIV/0!''), fresh_state) \<and> FStr ''#DIV/0!'' \<noteq> FNan"
proof -
  let ?e = "AOp (CHR ''/'') (ALit ''1'') (ALit ''0'')"
  let ?C = "sample_context plain_env"
  have e: "arith_text ?e = ''(1/0)''" "arith_ok ?e" "number_result (arith_op (CHR ''/'') (Fin 1) (Fin 0)) = FStr ''#DIV/0!''"
    "literal_value ''1'' = 1" "literal_value ''0'' = 0" by code_simp+
  have "arith_run (operand_of (access_of ?C (evaluateExpression ?C 0) [] 0 5 5)) ?e fresh_state =
      Inr (Some (arith_op (CHR ''/'') (Fin 1) (Fin 0)), fresh_state)"
    by (simp add: combined_def e ev_lift_def) (simp add: ev_return_def)
  from evaluate_arith[OF e(2) this]
  have run: "evaluateExpression ?C 1 [] 0 5 5 ''(1/0)'' fresh_state = Inr (Scalar (FStr ''#DIV/0!''), fresh_state)"
    by (simp add: e)
  with scalar_results_proper[OF run] show ?thesis by blast
qed

section \<open>Arguments\<close>

text \<open>An argument has no comma or semicolon outside its strings and parentheses, which are closed.\<close>

fun closed_argument :: "int \<Rightarrow> bool \<Rightarrow> string \<Rightarrow> bool" where
  "closed_argument d q [] = (d = 0 \<and> \<not> q)"
| "closed_argument d q (c # s) =
     (if c = dquote then closed_argument d (\<not> q) s
      else if q then closed_argument d q s
      else if c = CHR ''('' then closed_argument (d + 1) q s
      else if c = CHR '')'' then closed_argument (d - 1) q s
      else \<not> (d = 0 \<and> (c = CHR '','' \<or> c = CHR '';'')) \<and> closed_argument d q s)"

lemma split_one_argument:
  "closed_argument d q a \<Longrightarrow> split_args cur d q (a @ CHR '','' # rest) = (rev cur @ a) # split_args [] 0 False rest"
proof (induction a arbitrary: cur d q)
  case Nil
  then show ?case by (simp add: dquote_def)
next
  case (Cons c a)
  then show ?case by (auto simp: Let_def split: if_splits)
qed

lemma split_last_argument:
  "closed_argument d q a \<Longrightarrow> split_args cur d q a = (if js_trim (rev cur @ a) = [] then [] else [rev cur @ a])"
proof (induction a arbitrary: cur d q)
  case (Cons c a)
  then show ?case by (auto simp: Let_def split: if_splits)
qed simp

text \<open>Arguments joined by commas are split back into the same arguments, nested calls and strings with commas
  included; only a last argument that is blank is lost.\<close>

theorem splitFunctionArgs_roundtrip:
  assumes "list_all (closed_argument 0 False) (args @ [a])"
  shows "splitFunctionArgs (js_join '','' (args @ [a])) = args @ (if js_trim a = [] then [] else [a])"
  using assms unfolding splitFunctionArgs_def
proof (induction args)
  case Nil
  then show ?case by (simp add: split_last_argument)
next
  case (Cons b args)
  have "js_join '','' ((b # args) @ [a]) = b @ CHR '','' # js_join '','' (args @ [a])" by (simp add: js_join_Cons)
  with Cons show ?case by (simp add: split_one_argument)
qed

theorem splitFunctionArgs_roundtrip_witness:
  "splitFunctionArgs (''SUM(A1,B1),'' @ [dquote] @ ''x,y'' @ [dquote] @ '',2'') = [''SUM(A1,B1)'', [dquote] @ ''x,y'' @ [dquote], ''2'']"
proof -
  have "list_all (closed_argument 0 False) ([''SUM(A1,B1)'', [dquote] @ ''x,y'' @ [dquote]] @ [''2''])" "js_trim ''2'' = ''2''" by code_simp+
  from splitFunctionArgs_roundtrip[OF this(1)] this(2) show ?thesis by simp
qed

end
