(* ===== verification/UploadPipeline.thy ===== *)
theory UploadPipeline
  imports Prelude
begin

text \<open>
  The slots of the post-upload stages, \<open>lib/upload-pipeline.ts\<close>: at most two rows at a time
  are in each of processing, encrypting and storing, and the others wait in a queue per
  stage. A promise is a number; \<open>settled\<close> lists the promises that have been resolved, in
  order. The functions run to completion; what an \<open>await\<close> on a promise continues with
  belongs to the callers.
\<close>

section \<open>JavaScript sets\<close>

definition jset_add :: "'a \<Rightarrow> 'a list \<Rightarrow> 'a list" where
  "jset_add x xs = (if x \<in> set xs then xs else xs @ [x])"

definition jset_delete :: "'a \<Rightarrow> 'a list \<Rightarrow> 'a list" where
  "jset_delete x xs = filter (\<lambda>y. y \<noteq> x) xs"

lemma set_jset_add [simp]: "set (jset_add x xs) = insert x (set xs)"
  by (auto simp: jset_add_def)

lemma set_jset_delete [simp]: "set (jset_delete x xs) = set xs - {x}"
  by (auto simp: jset_delete_def)

lemma distinct_jset_add [simp]: "distinct (jset_add x xs) = distinct xs"
  by (simp add: jset_add_def)

lemma distinct_jset_delete [simp]: "distinct xs \<Longrightarrow> distinct (jset_delete x xs)"
  by (simp add: jset_delete_def)

lemma length_jset_delete: "length (jset_delete x xs) \<le> length xs"
  by (simp add: jset_delete_def)

lemma length_jset_delete_present: "distinct xs \<Longrightarrow> x \<in> set xs \<Longrightarrow> Suc (length (jset_delete x xs)) = length xs"
proof (induction xs)
  case (Cons a xs)
  have "x \<notin> set xs \<Longrightarrow> filter (\<lambda>y. y \<noteq> x) xs = xs" by (induction xs) auto
  with Cons show ?case by (cases "x = a") (auto simp: jset_delete_def)
qed simp

lemma jset_delete_absent: "x \<notin> set xs \<Longrightarrow> jset_delete x xs = xs"
  by (induction xs) (auto simp: jset_delete_def)

section \<open>State and operations\<close>

datatype stage = Processing | Encrypting | Storing

definition PIPELINE_STAGE_LIMIT :: nat where "PIPELINE_STAGE_LIMIT = 2"

definition POST_STAGES :: "stage list" where "POST_STAGES = [Processing, Encrypting, Storing]"

record pipeline =
  stageSlots :: "stage \<Rightarrow> string list"
  stageWaitQueues :: "stage \<Rightarrow> string list"
  stageWaitResolvers :: "string \<Rightarrow> stage \<Rightarrow> nat option"
  nextPromise :: nat
  settled :: "nat list"

definition init_pipeline :: pipeline where
  "init_pipeline = \<lparr>stageSlots = (\<lambda>_. []), stageWaitQueues = (\<lambda>_. []),
     stageWaitResolvers = (\<lambda>_ _. None), nextPromise = 0, settled = []\<rparr>"

definition tryOccupyStage :: "stage \<Rightarrow> string \<Rightarrow> pipeline \<Rightarrow> pipeline \<times> bool" where
  "tryOccupyStage st itemId p =
     (let slots = stageSlots p st in
      if itemId \<in> set slots then (p, True)
      else if length slots \<ge> PIPELINE_STAGE_LIMIT then (p, False)
      else (p\<lparr>stageSlots := (stageSlots p)(st := jset_add itemId slots)\<rparr>, True))"

definition resolveStageWaiter :: "string \<Rightarrow> stage \<Rightarrow> pipeline \<Rightarrow> pipeline" where
  "resolveStageWaiter itemId st p =
     (case stageWaitResolvers p itemId st of
        None \<Rightarrow> p
      | Some k \<Rightarrow> p\<lparr>stageWaitResolvers := (stageWaitResolvers p)(itemId := (stageWaitResolvers p itemId)(st := None)),
                   settled := settled p @ [k]\<rparr>)"

fun drain_loop :: "stage \<Rightarrow> string list \<Rightarrow> pipeline \<Rightarrow> pipeline" where
  "drain_loop st [] p = p\<lparr>stageWaitQueues := (stageWaitQueues p)(st := [])\<rparr>"
| "drain_loop st (nextId # queue) p =
     (if length (stageSlots p st) \<ge> PIPELINE_STAGE_LIMIT
      then p\<lparr>stageWaitQueues := (stageWaitQueues p)(st := nextId # queue)\<rparr>
      else if nextId = [] then p\<lparr>stageWaitQueues := (stageWaitQueues p)(st := queue)\<rparr>
      else drain_loop st queue (resolveStageWaiter nextId st
             (p\<lparr>stageSlots := (stageSlots p)(st := jset_add nextId (stageSlots p st))\<rparr>)))"

definition drainStageWaitQueue :: "stage \<Rightarrow> pipeline \<Rightarrow> pipeline" where
  "drainStageWaitQueue st p = drain_loop st (stageWaitQueues p st) p"

definition drop_waiter :: "string \<Rightarrow> stage \<Rightarrow> pipeline \<Rightarrow> pipeline" where
  "drop_waiter itemId st p =
     p\<lparr>stageWaitQueues := (stageWaitQueues p)(st := jset_delete itemId (stageWaitQueues p st))\<rparr>"

definition releaseStageSlot :: "string \<Rightarrow> stage \<Rightarrow> pipeline \<Rightarrow> pipeline" where
  "releaseStageSlot itemId st p =
     (if itemId \<notin> set (stageSlots p st) then p
      else drainStageWaitQueue st (drop_waiter itemId st
             (p\<lparr>stageSlots := (stageSlots p)(st := jset_delete itemId (stageSlots p st))\<rparr>)))"

text \<open>The promise is settled at once when the stage has room.\<close>

definition waitForStageSlot :: "string \<Rightarrow> stage \<Rightarrow> pipeline \<Rightarrow> pipeline \<times> nat" where
  "waitForStageSlot itemId st p =
     (let k = nextPromise p; (p1, got) = tryOccupyStage st itemId (p\<lparr>nextPromise := Suc k\<rparr>) in
      if got then (p1\<lparr>settled := settled p1 @ [k]\<rparr>, k)
      else (drainStageWaitQueue st
             (p1\<lparr>stageWaitResolvers := (stageWaitResolvers p1)(itemId := (stageWaitResolvers p1 itemId)(st := Some k)),
                stageWaitQueues := (stageWaitQueues p1)(st := jset_add itemId (stageWaitQueues p1 st))\<rparr>), k))"

definition acquirePipelineStage :: "string \<Rightarrow> stage \<Rightarrow> pipeline \<Rightarrow> pipeline \<times> nat" where
  "acquirePipelineStage itemId st p =
     waitForStageSlot itemId st
       (fold (\<lambda>other p. if other \<noteq> st then releaseStageSlot itemId other p else p) POST_STAGES p)"

definition releaseAllPipelineStages :: "string \<Rightarrow> pipeline \<Rightarrow> pipeline" where
  "releaseAllPipelineStages itemId p =
     (let p1 = fold (\<lambda>st p. drop_waiter itemId st (releaseStageSlot itemId st p)) POST_STAGES p;
          p2 = p1\<lparr>stageWaitResolvers := (stageWaitResolvers p1)(itemId := (\<lambda>_. None))\<rparr>
      in fold drainStageWaitQueue POST_STAGES p2)"

section \<open>The calls as a machine\<close>

datatype pipe_call = Acquire string stage | ReleaseAll string

fun pipe_step :: "pipeline \<Rightarrow> pipe_call \<Rightarrow> pipeline" where
  "pipe_step p (Acquire i st) = fst (acquirePipelineStage i st p)"
| "pipe_step p (ReleaseAll i) = releaseAllPipelineStages i p"

fun pipe_call_ok :: "pipeline \<Rightarrow> pipe_call \<Rightarrow> bool" where
  "pipe_call_ok p (Acquire i st) = (i \<noteq> [])"
| "pipe_call_ok p (ReleaseAll i) = (i \<noteq> [])"

text \<open>
  The invariant of one stage. The first part holds throughout; the second one, that no
  row waits while a slot is free, holds whenever the queue has been drained.
\<close>

definition stage_wf :: "string list \<Rightarrow> string list \<Rightarrow> bool" where
  "stage_wf slots queue \<longleftrightarrow> distinct slots \<and> length slots \<le> PIPELINE_STAGE_LIMIT \<and> distinct queue \<and>
     [] \<notin> set queue \<and> set slots \<inter> set queue = {}"

definition stage_full :: "string list \<Rightarrow> string list \<Rightarrow> bool" where
  "stage_full slots queue \<longleftrightarrow> (queue \<noteq> [] \<longrightarrow> length slots = PIPELINE_STAGE_LIMIT)"

definition promises_wf :: "pipeline \<Rightarrow> bool" where
  "promises_wf p \<longleftrightarrow> (\<forall>k \<in> set (settled p). k < nextPromise p) \<and>
     (\<forall>i st k. stageWaitResolvers p i st = Some k \<longrightarrow> k < nextPromise p \<and> k \<notin> set (settled p)) \<and>
     (\<forall>i st i' st' k. stageWaitResolvers p i st = Some k \<longrightarrow> stageWaitResolvers p i' st' = Some k \<longrightarrow> i = i' \<and> st = st')"

text \<open>
  A row waits exactly when it has a resolver; \<open>X\<close> are rows whose resolvers are about to be
  deleted.
\<close>

definition waiters_wf :: "string set \<Rightarrow> pipeline \<Rightarrow> bool" where
  "waiters_wf X p \<longleftrightarrow> (\<forall>i st. (i \<in> set (stageWaitQueues p st) \<longrightarrow> stageWaitResolvers p i st \<noteq> None) \<and>
     (i \<notin> X \<longrightarrow> stageWaitResolvers p i st \<noteq> None \<longrightarrow> i \<in> set (stageWaitQueues p st)))"

definition pipe_wf :: "string set \<Rightarrow> pipeline \<Rightarrow> bool" where
  "pipe_wf X p \<longleftrightarrow> (\<forall>st. stage_wf (stageSlots p st) (stageWaitQueues p st)) \<and> promises_wf p \<and> waiters_wf X p"

definition pipe_inv :: "pipeline \<Rightarrow> bool" where
  "pipe_inv p \<longleftrightarrow> pipe_wf {} p \<and> (\<forall>st. stage_full (stageSlots p st) (stageWaitQueues p st))"

definition set_queue :: "stage \<Rightarrow> string list \<Rightarrow> pipeline \<Rightarrow> pipeline" where
  "set_queue st q p = p\<lparr>stageWaitQueues := (stageWaitQueues p)(st := q)\<rparr>"

lemma set_queue_simps [simp]:
  "stageSlots (set_queue st q p) = stageSlots p"
  "stageWaitQueues (set_queue st q p) = (stageWaitQueues p)(st := q)"
  "stageWaitResolvers (set_queue st q p) = stageWaitResolvers p"
  "nextPromise (set_queue st q p) = nextPromise p"
  "settled (set_queue st q p) = settled p"
  by (simp_all add: set_queue_def)

lemma set_queue_same: "set_queue st (stageWaitQueues p st) p = p"
  by (simp add: set_queue_def)

lemma drain_loop_set_queue: 
  "drain_loop st [] p = set_queue st [] p"
  "length (stageSlots p st) \<ge> PIPELINE_STAGE_LIMIT \<Longrightarrow> drain_loop st q p = set_queue st q p"
  by (simp add: set_queue_def) (cases q; simp add: set_queue_def)

definition admit :: "string \<Rightarrow> stage \<Rightarrow> pipeline \<Rightarrow> pipeline" where
  "admit x st p = resolveStageWaiter x st (p\<lparr>stageSlots := (stageSlots p)(st := jset_add x (stageSlots p st))\<rparr>)"

lemma admit_simps [simp]:
  "stageSlots (admit x st p) = (stageSlots p)(st := jset_add x (stageSlots p st))"
  "stageWaitQueues (admit x st p) = stageWaitQueues p"
  "nextPromise (admit x st p) = nextPromise p"
  "stageWaitResolvers (admit x st p) i st' = (if i = x \<and> st' = st then None else stageWaitResolvers p i st')"
  "settled (admit x st p) = settled p @ (case stageWaitResolvers p x st of None \<Rightarrow> [] | Some k \<Rightarrow> [k])"
  by (auto simp: admit_def resolveStageWaiter_def split: option.split)

lemma promises_wfI:
  assumes "\<And>k. k \<in> set (settled p) \<Longrightarrow> k < nextPromise p"
    and "\<And>i st k. stageWaitResolvers p i st = Some k \<Longrightarrow> k < nextPromise p"
    and "\<And>i st k. stageWaitResolvers p i st = Some k \<Longrightarrow> k \<notin> set (settled p)"
    and "\<And>i st i' st' k. stageWaitResolvers p i st = Some k \<Longrightarrow> stageWaitResolvers p i' st' = Some k \<Longrightarrow>
           i' = i \<and> st' = st"
  shows "promises_wf p"
  using assms unfolding promises_wf_def by blast

lemma promises_wfD:
  assumes "promises_wf p"
  shows "k \<in> set (settled p) \<Longrightarrow> k < nextPromise p"
    and "stageWaitResolvers p i st = Some k \<Longrightarrow> k < nextPromise p"
    and "stageWaitResolvers p i st = Some k \<Longrightarrow> k \<notin> set (settled p)"
    and "stageWaitResolvers p i st = Some k \<Longrightarrow> stageWaitResolvers p i' st' = Some k \<Longrightarrow> i' = i \<and> st' = st"
  using assms unfolding promises_wf_def by blast+

lemma waiters_wfI:
  assumes "\<And>i st. i \<in> set (stageWaitQueues p st) \<Longrightarrow> stageWaitResolvers p i st \<noteq> None"
    and "\<And>i st. i \<notin> X \<Longrightarrow> stageWaitResolvers p i st \<noteq> None \<Longrightarrow> i \<in> set (stageWaitQueues p st)"
  shows "waiters_wf X p"
  using assms unfolding waiters_wf_def by blast

lemma waiters_wfD:
  assumes "waiters_wf X p"
  shows "i \<in> set (stageWaitQueues p st) \<Longrightarrow> stageWaitResolvers p i st \<noteq> None"
    and "i \<notin> X \<Longrightarrow> stageWaitResolvers p i st \<noteq> None \<Longrightarrow> i \<in> set (stageWaitQueues p st)"
  using assms unfolding waiters_wf_def by blast+

lemma promises_wf_cong:
  "settled p' = settled p \<Longrightarrow> nextPromise p' = nextPromise p \<Longrightarrow>
   (\<And>i st k. stageWaitResolvers p' i st = Some k \<Longrightarrow> stageWaitResolvers p i st = Some k) \<Longrightarrow>
   promises_wf p \<Longrightarrow> promises_wf p'"
  by (rule promises_wfI) (use promises_wfD in \<open>metis+\<close>)

lemma promises_wf_upd [simp]:
  "promises_wf (p\<lparr>stageSlots := a\<rparr>) = promises_wf p"
  "promises_wf (p\<lparr>stageWaitQueues := b\<rparr>) = promises_wf p"
  "promises_wf (set_queue st q p) = promises_wf p"
  "promises_wf (drop_waiter i st p) = promises_wf p"
  by (simp_all add: promises_wf_def drop_waiter_def)

lemma waiters_wf_upd [simp]: "waiters_wf X (p\<lparr>stageSlots := a\<rparr>) = waiters_wf X p"
  by (simp add: waiters_wf_def)

lemma promises_wf_admit:
  assumes wf: "promises_wf p"
  shows "promises_wf (admit x st p)"
proof (cases "stageWaitResolvers p x st")
  case (Some k)
  show ?thesis
  proof (rule promises_wfI)
    show "k' < nextPromise (admit x st p)" if "k' \<in> set (settled (admit x st p))" for k'
      using that Some promises_wfD(1,2)[OF wf] by auto
    show "k' < nextPromise (admit x st p)"
      if "stageWaitResolvers (admit x st p) i st' = Some k'" for i st' k'
      using that promises_wfD(2)[OF wf] by (auto split: if_splits)
    show "k' \<notin> set (settled (admit x st p))"
      if "stageWaitResolvers (admit x st p) i st' = Some k'" for i st' k'
    proof -
      from that have r: "stageWaitResolvers p i st' = Some k'" and ne: "\<not> (i = x \<and> st' = st)"
        by (simp_all split: if_splits)
      then have "k' \<noteq> k" using promises_wfD(4)[OF wf Some, of i st'] by blast
      with promises_wfD(3)[OF wf r] Some show ?thesis by simp
    qed
    show "i' = i \<and> st2 = st1" if "stageWaitResolvers (admit x st p) i st1 = Some k'"
      "stageWaitResolvers (admit x st p) i' st2 = Some k'" for i st1 i' st2 k'
      using that promises_wfD(4)[OF wf] by (auto split: if_splits)
  qed
next
  case None
  show ?thesis by (rule promises_wf_cong[OF _ _ _ wf]) (use None in \<open>auto split: if_splits\<close>)
qed

lemma pipe_wf_admit:
  assumes "pipe_wf X (set_queue st (x # q) p)" and "length (stageSlots p st) < PIPELINE_STAGE_LIMIT"
  shows "pipe_wf X (set_queue st q (admit x st p))"
proof -
  have s: "stage_wf (stageSlots p st) (x # q)"
    using assms(1) by (auto simp: pipe_wf_def dest!: spec[of _ st])
  then have "stage_wf (jset_add x (stageSlots p st)) q"
    using assms(2) by (auto simp: stage_wf_def jset_add_def)
  moreover have "stage_wf (stageSlots p st') (stageWaitQueues p st')" if "st' \<noteq> st" for st'
    using assms(1) that by (auto simp: pipe_wf_def dest!: spec[of _ st'])
  moreover have "promises_wf p"
    using assms(1) by (simp add: pipe_wf_def)
  moreover have "waiters_wf X (set_queue st q (admit x st p))"
  proof (rule waiters_wfI)
    have w: "waiters_wf X (set_queue st (x # q) p)" using assms(1) by (simp add: pipe_wf_def)
    fix i st'
    show "stageWaitResolvers (set_queue st q (admit x st p)) i st' \<noteq> None"
      if "i \<in> set (stageWaitQueues (set_queue st q (admit x st p)) st')"
      using that s waiters_wfD(1)[OF w, of i st'] by (auto simp: stage_wf_def split: if_splits)
    show "i \<in> set (stageWaitQueues (set_queue st q (admit x st p)) st')"
      if "i \<notin> X" "stageWaitResolvers (set_queue st q (admit x st p)) i st' \<noteq> None"
      using that waiters_wfD(2)[OF w, of i st'] by (auto split: if_splits)
  qed
  ultimately show ?thesis by (auto simp: pipe_wf_def promises_wf_admit)
qed

lemma drain_loop_wf:
  "pipe_wf X (set_queue st q p) \<Longrightarrow> pipe_wf X (drain_loop st q p) \<and>
     stage_full (stageSlots (drain_loop st q p) st) (stageWaitQueues (drain_loop st q p) st) \<and>
     (\<forall>st'. st' \<noteq> st \<longrightarrow> stageSlots (drain_loop st q p) st' = stageSlots p st' \<and>
        stageWaitQueues (drain_loop st q p) st' = stageWaitQueues p st')"
proof (induction q arbitrary: p)
  case Nil
  then show ?case by (simp add: drain_loop_set_queue stage_full_def del: drain_loop.simps)
next
  case (Cons x q)
  have s: "stage_wf (stageSlots p st) (x # q)"
    using Cons.prems by (auto simp: pipe_wf_def dest!: spec[of _ st])
  show ?case
  proof (cases "length (stageSlots p st) \<ge> PIPELINE_STAGE_LIMIT")
    case True
    then show ?thesis using Cons.prems s
      by (simp add: drain_loop_set_queue stage_full_def stage_wf_def del: drain_loop.simps)
  next
    case False
    then have e: "drain_loop st (x # q) p = drain_loop st q (admit x st p)"
      using s by (auto simp: admit_def stage_wf_def)
    show ?thesis unfolding e using Cons.IH[OF pipe_wf_admit[OF Cons.prems]] False by simp
  qed
qed

lemma drain_wf:
  assumes "pipe_wf X p"
  shows "pipe_wf X (drainStageWaitQueue st p)"
    and "stage_full (stageSlots (drainStageWaitQueue st p) st) (stageWaitQueues (drainStageWaitQueue st p) st)"
    and "st' \<noteq> st \<Longrightarrow> stageSlots (drainStageWaitQueue st p) st' = stageSlots p st' \<and>
      stageWaitQueues (drainStageWaitQueue st p) st' = stageWaitQueues p st'"
  using drain_loop_wf[of X st "stageWaitQueues p st" p] assms
  by (auto simp: drainStageWaitQueue_def set_queue_same)

lemma drain_full_id:
  "stage_full (stageSlots p st) (stageWaitQueues p st) \<Longrightarrow> drainStageWaitQueue st p = p"
proof (cases "stageWaitQueues p st")
  case Nil
  then show ?thesis by (simp add: drainStageWaitQueue_def fun_upd_idem)
next
  case (Cons x q)
  moreover assume "stage_full (stageSlots p st) (stageWaitQueues p st)"
  ultimately show ?thesis
    using set_queue_same[of st p] by (simp add: drainStageWaitQueue_def stage_full_def set_queue_def)
qed

text \<open>The promises and resolvers when a waiter or a slot is dropped.\<close>

lemma drop_waiter_wf:
  assumes "pipe_wf X p" and "i \<in> X"
  shows "pipe_wf X (drop_waiter i st p)"
proof -
  have "waiters_wf X (drop_waiter i st p)"
  proof (rule waiters_wfI)
    have w: "waiters_wf X p" using assms(1) by (simp add: pipe_wf_def)
    fix j st'
    show "stageWaitResolvers (drop_waiter i st p) j st' \<noteq> None"
      if "j \<in> set (stageWaitQueues (drop_waiter i st p) st')"
      using that waiters_wfD(1)[OF w, of j st'] by (simp add: drop_waiter_def split: if_splits)
    show "j \<in> set (stageWaitQueues (drop_waiter i st p) st')"
      if "j \<notin> X" "stageWaitResolvers (drop_waiter i st p) j st' \<noteq> None"
      using that assms(2) waiters_wfD(2)[OF w, of j st'] by (auto simp: drop_waiter_def)
  qed
  moreover have "promises_wf (drop_waiter i st p)"
    using assms by (simp add: pipe_wf_def)
  moreover have "stage_wf (stageSlots (drop_waiter i st p) st') (stageWaitQueues (drop_waiter i st p) st')" for st'
  proof -
    have "stage_wf (stageSlots p st') (stageWaitQueues p st')" using assms by (simp add: pipe_wf_def)
    then show ?thesis by (auto simp: stage_wf_def drop_waiter_def)
  qed
  ultimately show ?thesis by (simp add: pipe_wf_def)
qed

lemma release_wf:
  assumes "pipe_wf X p"
  shows "pipe_wf X (releaseStageSlot i st p) \<and>
    (\<forall>st'. st' \<noteq> st \<longrightarrow> stageSlots (releaseStageSlot i st p) st' = stageSlots p st' \<and>
      stageWaitQueues (releaseStageSlot i st p) st' = stageWaitQueues p st') \<and>
    (stage_full (stageSlots p st) (stageWaitQueues p st) \<longrightarrow>
      stage_full (stageSlots (releaseStageSlot i st p) st) (stageWaitQueues (releaseStageSlot i st p) st))"
proof (cases "i \<in> set (stageSlots p st)")
  case False
  with assms show ?thesis by (simp add: releaseStageSlot_def)
next
  case True
  let ?p1 = "p\<lparr>stageSlots := (stageSlots p)(st := jset_delete i (stageSlots p st))\<rparr>"
  have "stage_wf (stageSlots p st) (stageWaitQueues p st)" using assms by (simp add: pipe_wf_def)
  then have n: "i \<notin> set (stageWaitQueues p st)" using True by (auto simp: stage_wf_def)
  then have d: "drop_waiter i st ?p1 = ?p1" by (simp add: drop_waiter_def jset_delete_absent fun_upd_idem)
  have "stage_wf (stageSlots ?p1 st') (stageWaitQueues ?p1 st')" for st'
  proof -
    have "stage_wf (stageSlots p st') (stageWaitQueues p st')" using assms by (simp add: pipe_wf_def)
    then show ?thesis using length_jset_delete[of i "stageSlots p st"] by (auto simp: stage_wf_def)
  qed
  moreover have "promises_wf ?p1" using assms by (simp add: pipe_wf_def)
  moreover have "waiters_wf X ?p1" using assms by (simp add: pipe_wf_def)
  ultimately have w: "pipe_wf X ?p1" by (simp add: pipe_wf_def)
  show ?thesis
    using True drain_wf(1,2)[OF w, of st] drain_wf(3)[OF w, of _ st] by (auto simp: releaseStageSlot_def d)
qed

lemma fold_release_wf:
  assumes "pipe_inv p"
  shows "pipe_inv (fold (\<lambda>other p. if other \<noteq> st then releaseStageSlot i other p else p) sts p)"
  using assms
proof (induction sts arbitrary: p)
  case (Cons o' sts)
  have "pipe_inv (if o' \<noteq> st then releaseStageSlot i o' p else p)"
    using release_wf[of "{}" p i o'] Cons.prems by (auto simp: pipe_inv_def)
  then show ?case using Cons.IH by simp
qed simp

lemma wait_wf:
  assumes inv: "pipe_inv p" and i: "i \<noteq> []"
  shows "pipe_inv (fst (waitForStageSlot i st p))"
proof -
  let ?k = "nextPromise p" and ?p0 = "p\<lparr>nextPromise := Suc (nextPromise p)\<rparr>"
  have wf: "stage_wf (stageSlots p st') (stageWaitQueues p st')" "promises_wf p" "waiters_wf {} p"
    and full: "stage_full (stageSlots p st') (stageWaitQueues p st')" for st'
    using inv by (simp_all add: pipe_inv_def pipe_wf_def)
  note pd = promises_wfD[OF wf(2)]
  have fresh: "stageWaitResolvers p j st' \<noteq> Some ?k" for j st' using pd(2)[of j st' ?k] by auto
  show ?thesis
  proof (cases "snd (tryOccupyStage st i ?p0)")
    case True
    let ?q = "fst (tryOccupyStage st i ?p0)"
    have e: "fst (waitForStageSlot i st p) = ?q\<lparr>settled := settled ?q @ [?k]\<rparr>"
      using True by (cases "tryOccupyStage st i ?p0") (simp add: waitForStageSlot_def Let_def)
    have q: "stageWaitQueues ?q = stageWaitQueues p" "stageWaitResolvers ?q = stageWaitResolvers p"
      "settled ?q = settled p" "nextPromise ?q = Suc ?k"
      by (simp_all add: tryOccupyStage_def Let_def)
    have "promises_wf (?q\<lparr>settled := settled ?q @ [?k]\<rparr>)"
      by (rule promises_wfI) (use q pd fresh in \<open>auto simp: less_Suc_eq\<close>)
    moreover have "waiters_wf {} (?q\<lparr>settled := settled ?q @ [?k]\<rparr>)"
      using wf(3) q by (simp add: waiters_wf_def)
    moreover have "stage_wf (stageSlots ?q st') (stageWaitQueues p st') \<and>
      stage_full (stageSlots ?q st') (stageWaitQueues p st')" for st'
    proof (cases "st' = st \<and> i \<notin> set (stageSlots p st)")
      case t: True
      then have "length (stageSlots p st) < PIPELINE_STAGE_LIMIT"
        using True by (auto simp: tryOccupyStage_def Let_def split: if_splits)
      moreover from this have "stageWaitQueues p st = []" using full[of st] by (auto simp: stage_full_def)
      ultimately show ?thesis using t wf(1)[of st]
        by (auto simp: tryOccupyStage_def Let_def stage_wf_def stage_full_def jset_add_def)
    next
      case False
      then have "stageSlots ?q st' = stageSlots p st'"
        by (auto simp: tryOccupyStage_def Let_def jset_add_def)
      then show ?thesis using wf(1) full by simp
    qed
    ultimately show ?thesis unfolding e pipe_inv_def pipe_wf_def by (simp add: q)
  next
    case False
    then have nf: "i \<notin> set (stageSlots p st)" "length (stageSlots p st) \<ge> PIPELINE_STAGE_LIMIT"
      by (auto simp: tryOccupyStage_def Let_def split: if_splits)
    let ?q = "?p0\<lparr>stageWaitResolvers := (stageWaitResolvers p)(i := (stageWaitResolvers p i)(st := Some ?k)),
      stageWaitQueues := (stageWaitQueues p)(st := jset_add i (stageWaitQueues p st))\<rparr>"
    have len: "length (stageSlots p st) = PIPELINE_STAGE_LIMIT" using nf(2) wf(1)[of st] by (simp add: stage_wf_def)
    have fq: "stage_full (stageSlots ?q st') (stageWaitQueues ?q st')" for st'
      using full[of st'] len by (auto simp: stage_full_def)
    have dr: "drainStageWaitQueue st ?q = ?q" by (rule drain_full_id) (rule fq)
    have e: "fst (waitForStageSlot i st p) = ?q"
      using nf dr by (simp add: waitForStageSlot_def tryOccupyStage_def Let_def)
    note fq
    moreover have "promises_wf ?q"
      by (rule promises_wfI) (use pd fresh in \<open>auto simp: less_Suc_eq split: if_splits\<close>)
    moreover have "waiters_wf {} ?q"
      by (rule waiters_wfI) (use waiters_wfD[OF wf(3)] in \<open>auto split: if_splits\<close>)
    moreover have "stage_wf (stageSlots ?q st') (stageWaitQueues ?q st')" for st'
      using wf(1)[of st'] i nf(1) by (auto simp: stage_wf_def)
    ultimately show ?thesis unfolding e pipe_inv_def pipe_wf_def by simp
  qed
qed

lemma acquire_inv: "pipe_inv p \<Longrightarrow> i \<noteq> [] \<Longrightarrow> pipe_inv (fst (acquirePipelineStage i st p))"
  unfolding acquirePipelineStage_def by (intro wait_wf fold_release_wf)

section \<open>Releasing all stages of a row\<close>

definition drop_row :: "string \<Rightarrow> stage \<Rightarrow> pipeline \<Rightarrow> pipeline" where
  "drop_row i st p = drop_waiter i st (releaseStageSlot i st p)"

definition all_full :: "pipeline \<Rightarrow> bool" where
  "all_full p \<longleftrightarrow> (\<forall>st. stage_full (stageSlots p st) (stageWaitQueues p st))"

definition forget_row :: "string \<Rightarrow> pipeline \<Rightarrow> pipeline" where
  "forget_row i p = p\<lparr>stageWaitResolvers := (stageWaitResolvers p)(i := (\<lambda>_. None))\<rparr>"

lemma releaseAll_unfold:
  "releaseAllPipelineStages i p =
     fold drainStageWaitQueue POST_STAGES (forget_row i (fold (drop_row i) POST_STAGES p))"
  by (simp add: releaseAllPipelineStages_def forget_row_def drop_row_def[abs_def] Let_def)

lemma drop_row_wf:
  assumes "pipe_wf {i} p" and "all_full p"
  shows "pipe_wf {i} (drop_row i st p) \<and> all_full (drop_row i st p) \<and>
    i \<notin> set (stageWaitQueues (drop_row i st p) st) \<and>
    (\<forall>st'. st' \<noteq> st \<longrightarrow> stageSlots (drop_row i st p) st' = stageSlots p st' \<and>
       stageWaitQueues (drop_row i st p) st' = stageWaitQueues p st')"
proof -
  let ?r = "releaseStageSlot i st p"
  have r: "pipe_wf {i} ?r" "\<And>st'. st' \<noteq> st \<Longrightarrow> stageSlots ?r st' = stageSlots p st' \<and> stageWaitQueues ?r st' = stageWaitQueues p st'"
    "stage_full (stageSlots ?r st) (stageWaitQueues ?r st)"
    using release_wf[OF assms(1), of i st] assms(2) by (auto simp: all_full_def)
  have "all_full (drop_row i st p)"
    unfolding all_full_def
  proof
    fix st'
    have "stage_full (stageSlots ?r st') (stageWaitQueues ?r st')"
      using r assms(2) by (cases "st' = st") (auto simp: all_full_def)
    moreover have "stageWaitQueues ?r st' \<noteq> []" if "stageWaitQueues (drop_row i st p) st' \<noteq> []"
      using that by (auto simp: drop_row_def drop_waiter_def jset_delete_def split: if_splits)
    ultimately show "stage_full (stageSlots (drop_row i st p) st') (stageWaitQueues (drop_row i st p) st')"
      by (auto simp: stage_full_def drop_row_def drop_waiter_def)
  qed
  then show ?thesis
    using drop_waiter_wf[OF r(1)] r(2) by (simp add: drop_row_def) (simp add: drop_waiter_def)
qed

lemma stage_exhaust3: "st = Processing \<or> st = Encrypting \<or> st = Storing"
  by (cases st) auto

lemma drop_rows_wf:
  assumes "pipe_wf {i} p" and "all_full p"
  shows "pipe_wf {i} (fold (drop_row i) POST_STAGES p) \<and> all_full (fold (drop_row i) POST_STAGES p) \<and>
    (\<forall>st. i \<notin> set (stageWaitQueues (fold (drop_row i) POST_STAGES p) st))"
proof -
  note d1 = drop_row_wf[OF assms, of Processing]
  note d2 = drop_row_wf[of i "drop_row i Processing p" Encrypting]
  note d3 = drop_row_wf[of i "drop_row i Encrypting (drop_row i Processing p)" Storing]
  have "i \<notin> set (stageWaitQueues (fold (drop_row i) POST_STAGES p) st)" for st
    using d1 d2 d3 stage_exhaust3[of st] by (auto simp: POST_STAGES_def)
  then show ?thesis using d1 d2 d3 by (simp add: POST_STAGES_def)
qed

lemma forget_row_wf:
  assumes "pipe_wf {i} p" and "\<And>st. i \<notin> set (stageWaitQueues p st)"
  shows "pipe_wf {} (forget_row i p)"
proof -
  have "promises_wf p" "waiters_wf {i} p" using assms(1) by (simp_all add: pipe_wf_def)
  then have "promises_wf (forget_row i p)"
    by (auto intro: promises_wf_cong simp: forget_row_def split: if_splits)
  moreover have "waiters_wf {} (forget_row i p)"
    by (rule waiters_wfI) (use assms(2) waiters_wfD[OF \<open>waiters_wf {i} p\<close>] in \<open>auto simp: forget_row_def split: if_splits\<close>)
  ultimately show ?thesis using assms(1) by (simp add: pipe_wf_def forget_row_def)
qed

lemma fold_drain_id: "all_full p \<Longrightarrow> fold drainStageWaitQueue sts p = p"
  by (induction sts) (auto simp: drain_full_id all_full_def)

lemma pipe_wf_weaken: "pipe_wf {} p \<Longrightarrow> pipe_wf X p"
  by (auto simp: pipe_wf_def waiters_wf_def)

lemma releaseAll_eq:
  assumes "pipe_inv p"
  shows "releaseAllPipelineStages i p = forget_row i (fold (drop_row i) POST_STAGES p)"
proof -
  have "all_full (fold (drop_row i) POST_STAGES p)"
    using drop_rows_wf[of i p] assms pipe_wf_weaken by (auto simp: pipe_inv_def all_full_def)
  then have "all_full (forget_row i (fold (drop_row i) POST_STAGES p))"
    by (simp add: all_full_def forget_row_def)
  then show ?thesis by (simp add: releaseAll_unfold fold_drain_id)
qed

lemma releaseAll_inv:
  assumes "pipe_inv p"
  shows "pipe_inv (releaseAllPipelineStages i p)"
proof -
  have w: "pipe_wf {i} p" "all_full p" using assms pipe_wf_weaken by (auto simp: pipe_inv_def all_full_def)
  show ?thesis
    unfolding releaseAll_eq[OF assms]
    using drop_rows_wf[OF w] forget_row_wf[of i "fold (drop_row i) POST_STAGES p"]
    by (simp add: pipe_inv_def all_full_def) (simp add: forget_row_def)
qed

lemma init_pipe_inv: "pipe_inv init_pipeline"
  by (simp add: pipe_inv_def pipe_wf_def init_pipeline_def stage_wf_def stage_full_def promises_wf_def waiters_wf_def)

interpretation pm: machine pipe_call_ok pipe_step init_pipeline pipe_inv
proof unfold_locales
  show "pipe_inv init_pipeline" by (rule init_pipe_inv)
  show "pipe_inv (pipe_step p c)" if "pipe_inv p" "pipe_call_ok p c" for p c
    using that by (cases c) (auto intro: acquire_inv releaseAll_inv)
qed

abbreviation pipe_reach :: "pipeline \<Rightarrow> bool" where
  "pipe_reach p \<equiv> reach pipe_call_ok pipe_step init_pipeline p"

text \<open>C29. However the rows enter and leave the post-upload stages, each stage holds at most two
  rows, each once, no row is at the same time in a stage and waiting for it, and rows
  wait for a stage only while it is full.\<close>

theorem pipeline_stage_limit:
  assumes "pipe_reach p"
  shows "length (stageSlots p st) \<le> 2 \<and> distinct (stageSlots p st) \<and>
    set (stageSlots p st) \<inter> set (stageWaitQueues p st) = {} \<and>
    (stageWaitQueues p st \<noteq> [] \<longrightarrow> length (stageSlots p st) = 2)"
  using pm.reach_inv[OF assms]
  by (auto simp: pipe_inv_def pipe_wf_def stage_wf_def stage_full_def PIPELINE_STAGE_LIMIT_def)

text \<open>Two rows in processing and a third one waiting for it.\<close>

definition crowded :: pipeline where
  "crowded = foldl pipe_step init_pipeline
     [Acquire ''a'' Processing, Acquire ''b'' Processing, Acquire ''c'' Processing]"

lemma crowded_reach: "pipe_reach crowded"
proof -
  have "pipe_reach (pipe_step (pipe_step (pipe_step init_pipeline (Acquire ''a'' Processing))
     (Acquire ''b'' Processing)) (Acquire ''c'' Processing))"
    by (intro reach.intros) simp_all
  then show ?thesis by (simp add: crowded_def)
qed

lemma pipeline_stage_limit_witness:
  "pipe_reach crowded \<and> length (stageSlots crowded Processing) \<le> 2"
  using pipeline_stage_limit[OF crowded_reach, of Processing] crowded_reach by simp

section \<open>Promises\<close>

lemma drain_loop_resolvers:
  "stageWaitResolvers (drain_loop st0 q p) x st = Some k \<Longrightarrow> stageWaitResolvers p x st = Some k"
  "st \<noteq> st0 \<Longrightarrow> stageWaitResolvers (drain_loop st0 q p) x st = stageWaitResolvers p x st"
  by (induction st0 q p rule: drain_loop.induct)
    (auto simp: admit_def[symmetric] split: if_splits)

lemma drain_loop_settled:
  "k \<in> set (settled (drain_loop st0 q p)) \<Longrightarrow> k \<in> set (settled p) \<or> (\<exists>x. stageWaitResolvers p x st0 = Some k)"
  by (induction st0 q p rule: drain_loop.induct)
    (auto simp: admit_def[symmetric] split: if_splits option.splits)

lemma drain_loop_nextPromise: "nextPromise (drain_loop st0 q p) = nextPromise p"
  by (induction st0 q p rule: drain_loop.induct) (auto simp: admit_def[symmetric])

lemma drain_loop_settled_mono: "set (settled p) \<subseteq> set (settled (drain_loop st0 q p))"
  by (induction st0 q p rule: drain_loop.induct) (auto simp: admit_def[symmetric])

lemma release_resolvers:
  "stageWaitResolvers (releaseStageSlot i st0 p) x st = Some k \<Longrightarrow> stageWaitResolvers p x st = Some k"
  "st \<noteq> st0 \<Longrightarrow> stageWaitResolvers (releaseStageSlot i st0 p) x st = stageWaitResolvers p x st"
  by (auto simp: releaseStageSlot_def drainStageWaitQueue_def drop_waiter_def drain_loop_resolvers(2)
      dest: drain_loop_resolvers(1) split: if_splits)

lemma release_settled:
  "k \<in> set (settled (releaseStageSlot i st0 p)) \<Longrightarrow> k \<in> set (settled p) \<or> (\<exists>x. stageWaitResolvers p x st0 = Some k)"
  "nextPromise (releaseStageSlot i st0 p) = nextPromise p"
  "set (settled p) \<subseteq> set (settled (releaseStageSlot i st0 p))"
  using drain_loop_settled_mono
  by (force simp: releaseStageSlot_def drainStageWaitQueue_def drop_waiter_def drain_loop_nextPromise
      dest: drain_loop_settled split: if_splits)+

lemma drop_row_simps [simp]:
  "stageWaitResolvers (drop_row i st p) = stageWaitResolvers (releaseStageSlot i st p)"
  "settled (drop_row i st p) = settled (releaseStageSlot i st p)"
  "nextPromise (drop_row i st p) = nextPromise (releaseStageSlot i st p)"
  "stageSlots (drop_row i st p) = stageSlots (releaseStageSlot i st p)"
  by (simp_all add: drop_row_def drop_waiter_def)

lemma forget_row_simps [simp]:
  "stageWaitResolvers (forget_row i p) j st = (if j = i then None else stageWaitResolvers p j st)"
  "settled (forget_row i p) = settled p"
  "nextPromise (forget_row i p) = nextPromise p"
  "stageSlots (forget_row i p) = stageSlots p"
  "stageWaitQueues (forget_row i p) = stageWaitQueues p"
  by (simp_all add: forget_row_def)

text \<open>A promise is dead when it is not settled and nothing is left that could settle it.\<close>

definition dead_promise :: "nat \<Rightarrow> pipeline \<Rightarrow> bool" where
  "dead_promise k p \<longleftrightarrow> k < nextPromise p \<and> k \<notin> set (settled p) \<and> (\<forall>i st. stageWaitResolvers p i st \<noteq> Some k)"

lemma dead_release: "dead_promise k p \<Longrightarrow> dead_promise k (releaseStageSlot i st p)"
  unfolding dead_promise_def using release_resolvers(1) release_settled(1,2) by metis

lemma dead_drop_row: "dead_promise k p \<Longrightarrow> dead_promise k (drop_row i st p)"
  using dead_release by (simp add: dead_promise_def)

lemma dead_drain: "dead_promise k p \<Longrightarrow> dead_promise k (drainStageWaitQueue st p)"
  unfolding dead_promise_def drainStageWaitQueue_def
  using drain_loop_resolvers(1) drain_loop_settled drain_loop_nextPromise by metis

lemma dead_acquire: "dead_promise k p \<Longrightarrow> dead_promise k (fst (acquirePipelineStage i st p))"
proof -
  have f: "dead_promise k p \<Longrightarrow>
    dead_promise k (fold (\<lambda>other p. if other \<noteq> st then releaseStageSlot i other p else p) sts p)" for p sts
    by (induction sts arbitrary: p) (auto intro: dead_release)
  have w: "dead_promise k p \<Longrightarrow> dead_promise k (fst (waitForStageSlot i st p))" for p
    by (auto simp: waitForStageSlot_def tryOccupyStage_def Let_def intro!: dead_drain)
      (auto simp: dead_promise_def)
  assume "dead_promise k p"
  then show ?thesis unfolding acquirePipelineStage_def by (intro w f)
qed

lemma dead_releaseAll: "dead_promise k p \<Longrightarrow> dead_promise k (releaseAllPipelineStages i p)"
proof -
  have f: "dead_promise k p \<Longrightarrow> dead_promise k (fold (drop_row i) sts p)" for p sts
    by (induction sts arbitrary: p) (auto intro: dead_drop_row)
  have d: "dead_promise k p \<Longrightarrow> dead_promise k (fold drainStageWaitQueue sts p)" for p sts
    by (induction sts arbitrary: p) (auto intro: dead_drain)
  have g: "dead_promise k p \<Longrightarrow> dead_promise k (forget_row i p)" for p
    by (simp add: dead_promise_def)
  assume "dead_promise k p"
  then show ?thesis unfolding releaseAll_unfold by (intro d g f)
qed

text \<open>The promise of a waiting row survives the release of the row's slots, and dies with its resolver.\<close>

definition waiting_with :: "string \<Rightarrow> stage \<Rightarrow> nat \<Rightarrow> pipeline \<Rightarrow> bool" where
  "waiting_with i st k p \<longleftrightarrow> pipe_wf {i} p \<and> all_full p \<and> stageWaitResolvers p i st = Some k \<and>
     k \<notin> set (settled p) \<and> i \<notin> set (stageSlots p st)"

lemma waiting_drop_row:
  assumes w: "waiting_with i st k p"
  shows "waiting_with i st k (drop_row i st0 p)"
proof -
  have wf: "pipe_wf {i} p" "all_full p" using w by (simp_all add: waiting_with_def)
  then have pw: "promises_wf p" by (simp add: pipe_wf_def)
  note dr = drop_row_wf[OF wf, of st0]
  show ?thesis
  proof (cases "st0 = st")
    case True
    then have "releaseStageSlot i st0 p = p" using w by (simp add: waiting_with_def releaseStageSlot_def)
    then show ?thesis using dr w by (simp add: waiting_with_def)
  next
    case False
    have "k \<notin> set (settled (releaseStageSlot i st0 p))"
      using release_settled(1)[of k i st0 p] promises_wfD(4)[OF pw] w False by (force simp: waiting_with_def)
    then show ?thesis
      using dr w False release_resolvers(2)[of st st0 i p i] by (auto simp: waiting_with_def)
  qed
qed

lemma waiting_releaseAll_dead:
  assumes inv: "pipe_inv p" and r: "stageWaitResolvers p i st = Some k"
  shows "dead_promise k (releaseAllPipelineStages i p)"
proof -
  have wf: "pipe_wf {} p" using inv by (simp add: pipe_inv_def)
  then have "i \<in> set (stageWaitQueues p st)" "k \<notin> set (settled p)"
    using r waiters_wfD(2)[of "{}" p i st] promises_wfD(3)[of p i st k] by (auto simp: pipe_wf_def)
  moreover from this have "i \<notin> set (stageSlots p st)" using wf by (auto simp: pipe_wf_def stage_wf_def)
  ultimately have "waiting_with i st k p"
    using inv r pipe_wf_weaken by (auto simp: waiting_with_def pipe_inv_def all_full_def)
  then have "waiting_with i st k (fold (drop_row i) POST_STAGES p)"
    by (simp add: POST_STAGES_def waiting_drop_row)
  then have w: "stageWaitResolvers (fold (drop_row i) POST_STAGES p) i st = Some k"
    "k \<notin> set (settled (fold (drop_row i) POST_STAGES p))" "promises_wf (fold (drop_row i) POST_STAGES p)"
    by (simp_all add: waiting_with_def pipe_wf_def)
  show ?thesis
    unfolding releaseAll_eq[OF inv] dead_promise_def
    using w promises_wfD(2)[OF w(3,1)] promises_wfD(4)[OF w(3,1)] by auto
qed

lemma dead_forever:
  assumes "dead_promise k p" and "reach pipe_call_ok pipe_step p p'"
  shows "dead_promise k p'"
  using assms(2)
proof (induction rule: reach.induct)
  case reach_init
  show ?case by (rule assms(1))
next
  case (reach_step s e)
  then show ?case by (cases e) (auto intro: dead_acquire dead_releaseAll)
qed

text \<open>When a row that waits for a stage is released (it was cancelled, removed or failed),
  the promise it waits on is never settled afterwards, whatever calls follow: the caller
  that awaits the stage never resumes.\<close>

theorem released_waiter_never_resumes:
  assumes "pipe_reach p" and "stageWaitResolvers p i st = Some k"
    and "reach pipe_call_ok pipe_step (releaseAllPipelineStages i p) p'"
  shows "k \<notin> set (settled p')"
  using dead_forever[OF waiting_releaseAll_dead[OF pm.reach_inv[OF assms(1)] assms(2)] assms(3)]
  by (simp add: dead_promise_def)

lemma released_waiter_never_resumes_witness:
  "pipe_reach crowded \<and> stageWaitResolvers crowded ''c'' Processing = Some 2 \<and>
   2 \<notin> set (settled (pipe_step (releaseAllPipelineStages ''c'' crowded) (ReleaseAll ''a'')))"
proof -
  have r: "stageWaitResolvers crowded ''c'' Processing = Some 2" by code_simp
  have "reach pipe_call_ok pipe_step (releaseAllPipelineStages ''c'' crowded)
      (pipe_step (releaseAllPipelineStages ''c'' crowded) (ReleaseAll ''a''))"
    by (intro reach.intros) simp_all
  from released_waiter_never_resumes[OF crowded_reach r this] show ?thesis using crowded_reach r by simp
qed

text \<open>
  A row can even be in two stages: \<open>releaseStageSlot\<close> takes a row out of a wait queue only
  when it held the slot, so a row that waited for one stage and then entered another is
  still admitted to the first.
\<close>

lemma row_in_two_stages:
  "\<exists>p. pipe_reach p \<and> ''c'' \<in> set (stageSlots p Processing) \<and> ''c'' \<in> set (stageSlots p Storing)"
proof (intro exI conjI)
  let ?p = "pipe_step (pipe_step crowded (Acquire ''c'' Storing)) (ReleaseAll ''a'')"
  show "pipe_reach ?p" by (intro reach.intros crowded_reach) simp_all
  show "''c'' \<in> set (stageSlots ?p Processing)" by code_simp
  show "''c'' \<in> set (stageSlots ?p Storing)" by code_simp
qed

section \<open>Handing a slot over\<close>

lemma release_handover:
  assumes wf: "pipe_wf X p" and f: "all_full p"
    and i: "i \<in> set (stageSlots p st)" and q: "stageWaitQueues p st = y # ys"
  shows "stageSlots (releaseStageSlot i st p) st = jset_delete i (stageSlots p st) @ [y] \<and>
    stageWaitQueues (releaseStageSlot i st p) st = ys \<and>
    settled (releaseStageSlot i st p) = settled p @ (case stageWaitResolvers p y st of None \<Rightarrow> [] | Some k \<Rightarrow> [k])"
proof -
  let ?p1 = "p\<lparr>stageSlots := (stageSlots p)(st := jset_delete i (stageSlots p st))\<rparr>"
  have s: "stage_wf (stageSlots p st) (y # ys)" using wf q by (metis pipe_wf_def)
  have len: "length (stageSlots p st) = PIPELINE_STAGE_LIMIT"
    using f q unfolding all_full_def stage_full_def by force
  have l1: "length (jset_delete i (stageSlots p st)) = 1"
    using length_jset_delete_present[of "stageSlots p st" i] s i len
    by (simp add: stage_wf_def PIPELINE_STAGE_LIMIT_def)
  have n: "i \<notin> set (y # ys)" "y \<notin> set (stageSlots p st)" "y \<noteq> []" using s i by (auto simp: stage_wf_def)
  then have d: "drop_waiter i st ?p1 = ?p1" using q by (simp add: drop_waiter_def jset_delete_absent fun_upd_idem)
  have add: "jset_add y (jset_delete i (stageSlots p st)) = jset_delete i (stageSlots p st) @ [y]"
    using n by (auto simp: jset_add_def)
  have "releaseStageSlot i st p = drain_loop st (y # ys) ?p1"
    using i q by (simp add: releaseStageSlot_def d drainStageWaitQueue_def del: drain_loop.simps)
  also have "\<dots> = drain_loop st ys (admit y st ?p1)"
    using l1 n by (simp add: admit_def PIPELINE_STAGE_LIMIT_def)
  also have "\<dots> = set_queue st ys (admit y st ?p1)"
    by (rule drain_loop_set_queue(2)) (use l1 add in \<open>simp add: PIPELINE_STAGE_LIMIT_def\<close>)
  finally show ?thesis using add by simp
qed

text \<open>When a row that holds a stage is released while others wait for that stage, the row
  that has waited longest takes its place, the rest of the queue keeps its order, and the
  promise that the admitted row awaits is settled.\<close>

theorem released_slot_goes_to_first_waiter:
  assumes "pipe_reach p" and "i \<in> set (stageSlots p st)" and "stageWaitQueues p st = y # ys"
  shows "stageSlots (releaseAllPipelineStages i p) st = jset_delete i (stageSlots p st) @ [y] \<and>
    stageWaitQueues (releaseAllPipelineStages i p) st = ys \<and>
    (\<exists>k. stageWaitResolvers p y st = Some k \<and> k \<in> set (settled (releaseAllPipelineStages i p)))"
proof -
  have inv: "pipe_inv p" by (rule pm.reach_inv[OF assms(1)])
  then have wf0: "pipe_wf {} p" and wf: "pipe_wf {i} p" "all_full p"
    using pipe_wf_weaken by (auto simp: pipe_inv_def all_full_def)
  have s: "stage_wf (stageSlots p st) (y # ys)" using wf0 assms(3) by (metis pipe_wf_def)
  then have iq: "i \<notin> set ys" "i \<noteq> y" using assms(2) by (auto simp: stage_wf_def)
  have "y \<in> set (stageWaitQueues p st)" using assms(3) by simp
  then obtain k where k: "stageWaitResolvers p y st = Some k"
    using wf0 waiters_wfD(1)[of "{}" p y st] by (auto simp: pipe_wf_def)
  define A where "A r \<longleftrightarrow> pipe_wf {i} r \<and> all_full r \<and> stageSlots r st = stageSlots p st \<and>
    stageWaitQueues r st = y # ys \<and> stageWaitResolvers r y st = Some k" for r
  define B where "B r \<longleftrightarrow> pipe_wf {i} r \<and> all_full r \<and> stageSlots r st = jset_delete i (stageSlots p st) @ [y] \<and>
    stageWaitQueues r st = ys \<and> k \<in> set (settled r)" for r
  have A0: "A p" using wf assms(3) k by (simp add: A_def)
  have A1: "A (drop_row i st0 r)" if "A r" "st0 \<noteq> st" for st0 r
    using that drop_row_wf[of i r st0] release_resolvers(2)[of st st0 i r y] by (simp add: A_def)
  have B1: "B (drop_row i st0 r)" if "B r" "st0 \<noteq> st" for st0 r
    using that drop_row_wf[of i r st0] release_settled(3)[of r i st0] by (auto simp: B_def)
  have AB: "B (drop_row i st r)" if a: "A r" for r
  proof -
    have r: "pipe_wf {i} r" "all_full r" "i \<in> set (stageSlots r st)" "stageWaitQueues r st = y # ys"
      using a assms(2) by (simp_all add: A_def)
    from release_handover[OF r] drop_row_wf[OF r(1,2), of st] a iq show ?thesis
      by (simp add: A_def B_def) (simp add: drop_row_def drop_waiter_def jset_delete_absent)
  qed
  have "B (fold (drop_row i) POST_STAGES p)"
  proof (cases st)
    case Processing
    with A0 AB B1 show ?thesis by (simp add: POST_STAGES_def)
  next
    case Encrypting
    with A0 A1 AB B1 show ?thesis by (simp add: POST_STAGES_def)
  next
    case Storing
    with A0 A1 AB show ?thesis by (simp add: POST_STAGES_def)
  qed
  then show ?thesis using k by (simp add: releaseAll_eq[OF inv] B_def)
qed

lemma released_slot_goes_to_first_waiter_witness:
  "pipe_reach crowded \<and> ''a'' \<in> set (stageSlots crowded Processing) \<and>
   stageWaitQueues crowded Processing = [''c''] \<and>
   stageSlots (releaseAllPipelineStages ''a'' crowded) Processing = [''b'', ''c'']"
proof -
  have a: "''a'' \<in> set (stageSlots crowded Processing)" "stageWaitQueues crowded Processing = [''c'']"
    "jset_delete ''a'' (stageSlots crowded Processing) @ [''c''] = [''b'', ''c'']" by code_simp+
  from released_slot_goes_to_first_waiter[OF crowded_reach a(1,2)] a crowded_reach show ?thesis by simp
qed

end
