(* ===== verification/UploadPlan.thy ===== *)
theory UploadPlan
  imports Prelude Complex_Main
begin

text \<open>
  The decisions taken before an upload starts: \<open>lib/upload-conflicts.ts\<close> (which pending
  files are restored, skipped or uploaded), \<open>lib/upload-folder-structure.ts\<close> (the folders
  that a picked directory needs on the server), \<open>lib/upload-storage-capacity.ts\<close> (the
  warnings about files that do not fit) and \<open>lib/upload-adaptive.ts\<close> (concurrency and
  chunk size from recent samples). The folder API is an argument: a state and the two
  calls \<open>createFolder\<close> and \<open>listFolders\<close> on it.
\<close>

section \<open>Browser files\<close>

record upfile =
  uf_name :: string
  uf_size :: int
  uf_type :: string
  webkitRelativePath :: "string option"

text \<open>A string used as a condition: \<open>undefined\<close>, \<open>null\<close> and the empty string are false.\<close>

definition truthy :: "string option \<Rightarrow> bool" where
  "truthy v = (case v of None \<Rightarrow> False | Some s \<Rightarrow> s \<noteq> [])"

lemma truthy_simps [simp]: "\<not> truthy None" "truthy (Some s) \<longleftrightarrow> s \<noteq> []"
  by (simp_all add: truthy_def)

section \<open>Conflicts with the library and the recycle bin\<close>

record pendingUploadFile =
  pf_file :: upfile
  pf_contentHash :: "string option"

record uploadNameDuplicate =
  dup_upload_name :: string
  upload_content_hash :: string

record uploadRecycleMatch =
  upload_name :: string
  upload_size_bytes :: int
  trashed_id :: string
  can_restore :: bool

record uploadConflictPlan =
  restoreFileIds :: "string list"
  uploadFiles :: "pendingUploadFile list"
  restoreCount :: int
  uploadCount :: int
  skipDuplicateCount :: int

definition findRecycleMatchForFile :: "upfile \<Rightarrow> uploadRecycleMatch list \<Rightarrow> uploadRecycleMatch option" where
  "findRecycleMatchForFile f recycleMatches =
     List.find (\<lambda>entry. upload_name entry = uf_name f \<and> upload_size_bytes entry = uf_size f) recycleMatches"

text \<open>The two tests of the loop: a known content hash, and a restorable recycle-bin row.\<close>

definition is_duplicate :: "string list \<Rightarrow> pendingUploadFile \<Rightarrow> bool" where
  "is_duplicate duplicateHashes item =
     (case pf_contentHash item of Some h \<Rightarrow> h \<noteq> [] \<and> h \<in> set duplicateHashes | None \<Rightarrow> False)"

definition restorable :: "bool \<Rightarrow> uploadRecycleMatch list \<Rightarrow> pendingUploadFile \<Rightarrow> string option" where
  "restorable restoreRecycle recycleMatches item =
     (case findRecycleMatchForFile (pf_file item) recycleMatches of
        Some m \<Rightarrow> if restoreRecycle \<and> can_restore m then Some (trashed_id m) else None
      | None \<Rightarrow> None)"

fun conflict_loop ::
  "string list \<Rightarrow> bool \<Rightarrow> uploadRecycleMatch list \<Rightarrow> pendingUploadFile list \<Rightarrow>
   string list \<times> int \<times> int \<Rightarrow> string list \<times> int \<times> int" where
  "conflict_loop dh rr rms [] acc = acc"
| "conflict_loop dh rr rms (item # rest) (ids, restored, skipped) =
     (if is_duplicate dh item then conflict_loop dh rr rms rest (ids, restored, skipped + 1)
      else case restorable rr rms item of
          None \<Rightarrow> conflict_loop dh rr rms rest (ids, restored, skipped)
        | Some i \<Rightarrow>
            if i \<in> set ids then conflict_loop dh rr rms rest (ids, restored, skipped)
            else conflict_loop dh rr rms rest (ids @ [i], restored + 1, skipped))"

definition buildUploadConflictPlan ::
  "pendingUploadFile list \<Rightarrow> uploadNameDuplicate list \<Rightarrow> uploadRecycleMatch list \<Rightarrow>
   bool \<Rightarrow> bool \<Rightarrow> uploadConflictPlan" where
  "buildUploadConflictPlan pendingFiles duplicates recycleMatches skipDuplicates restoreRecycle =
     (let dh = (if skipDuplicates then map upload_content_hash duplicates else []);
          r = conflict_loop dh restoreRecycle recycleMatches pendingFiles ([], 0, 0);
          up = filter (\<lambda>item. \<not> is_duplicate dh item \<and>
                 restorable restoreRecycle recycleMatches item = None) pendingFiles
      in \<lparr>restoreFileIds = fst r, uploadFiles = up, restoreCount = fst (snd r),
          uploadCount = int (length up), skipDuplicateCount = snd (snd r)\<rparr>)"

text \<open>The middle dot of the label is its UTF-8 bytes.\<close>

definition middle_dot :: string where
  "middle_dot = [CHR '' '', CHR 0xC2, CHR 0xB7, CHR '' '']"

definition buildSmartContinueLabel ::
  "pendingUploadFile list \<Rightarrow> uploadNameDuplicate list \<Rightarrow> uploadRecycleMatch list \<Rightarrow> string" where
  "buildSmartContinueLabel pendingFiles duplicates recycleMatches =
     (let plan = buildUploadConflictPlan pendingFiles duplicates recycleMatches True True;
          parts = (if restoreCount plan > 0 then [''restore '' @ show_int (restoreCount plan)] else [])
            @ (if uploadCount plan > 0 then [''upload '' @ show_int (uploadCount plan)] else [])
            @ (if skipDuplicateCount plan > 0 then [''skip '' @ show_int (skipDuplicateCount plan)] else [])
      in if parts \<noteq> [] then ''Continue ('' @ js_join middle_dot parts @ '')'' else ''Continue'')"

text \<open>
  The recycle-bin rows that the batch restores, one for every pending file that has a
  restorable match, in the order of the files.
\<close>

definition restore_targets ::
  "string list \<Rightarrow> bool \<Rightarrow> uploadRecycleMatch list \<Rightarrow> pendingUploadFile list \<Rightarrow> string list" where
  "restore_targets dh rr rms items =
     List.map_filter (\<lambda>item. if is_duplicate dh item then None else restorable rr rms item) items"

lemma restore_targets_Cons:
  "restore_targets dh rr rms (item # rest) =
     (if is_duplicate dh item then restore_targets dh rr rms rest
      else case restorable rr rms item of
          None \<Rightarrow> restore_targets dh rr rms rest
        | Some i \<Rightarrow> i # restore_targets dh rr rms rest)"
  by (simp add: restore_targets_def map_filter_simps split: option.split)

lemma conflict_loop_skipped:
  "snd (snd (conflict_loop dh rr rms items (ids, r, k))) = k + int (length (filter (is_duplicate dh) items))"
  by (induction items arbitrary: ids r k) (auto split: option.split)

lemma conflict_loop_ids:
  "set (fst (conflict_loop dh rr rms items (ids, r, k))) = set ids \<union> set (restore_targets dh rr rms items)"
proof (induction items arbitrary: ids r k)
  case (Cons item items)
  then show ?case by (auto simp: restore_targets_Cons split: option.split)
qed (simp add: restore_targets_def map_filter_simps)

lemma conflict_loop_distinct:
  "distinct ids \<Longrightarrow> distinct (fst (conflict_loop dh rr rms items (ids, r, k)))"
  by (induction items arbitrary: ids r k) (auto split: option.split)

lemma conflict_loop_restored:
  "fst (snd (conflict_loop dh rr rms items (ids, r, k))) - r =
     int (length (fst (conflict_loop dh rr rms items (ids, r, k)))) - int (length ids)"
proof (induction items arbitrary: ids r k)
  case (Cons item items)
  show ?case
  proof (cases "is_duplicate dh item")
    case True
    with Cons show ?thesis by simp
  next
    case False
    show ?thesis
    proof (cases "restorable rr rms item")
      case None
      with False Cons show ?thesis by simp
    next
      case (Some i)
      show ?thesis
      proof (cases "i \<in> set ids")
        case True
        with False Some Cons show ?thesis by simp
      next
        case nf: False
        with False Some Cons[of "ids @ [i]" "r + 1" k] show ?thesis by simp
      qed
    qed
  qed
qed simp

lemma length_three_way:
  "length (filter (is_duplicate dh) items) + length (restore_targets dh rr rms items) +
   length (filter (\<lambda>item. \<not> is_duplicate dh item \<and> restorable rr rms item = None) items) = length items"
  by (induction items) (auto simp: restore_targets_Cons restore_targets_def map_filter_simps split: option.split)

text \<open>A conflict plan restores every recycle-bin row that some pending file matches, once,
  uploads exactly the files that are neither known duplicates nor matched by a restorable
  row, and its three counts add up to the number of picked files exactly when no two of
  them matched the same recycle-bin row (otherwise the second such file is neither
  restored, uploaded nor counted).\<close>

theorem buildUploadConflictPlan_accounts:
  fixes pendingFiles duplicates recycleMatches sd rr
  defines "plan \<equiv> buildUploadConflictPlan pendingFiles duplicates recycleMatches sd rr"
    and "dh \<equiv> (if sd then map upload_content_hash duplicates else [])"
  shows "set (restoreFileIds plan) = set (restore_targets dh rr recycleMatches pendingFiles) \<and>
    distinct (restoreFileIds plan) \<and> restoreCount plan = int (length (restoreFileIds plan)) \<and>
    uploadFiles plan = filter (\<lambda>item. \<not> is_duplicate dh item \<and> restorable rr recycleMatches item = None) pendingFiles \<and>
    (restoreCount plan + uploadCount plan + skipDuplicateCount plan = int (length pendingFiles) \<longleftrightarrow>
       distinct (restore_targets dh rr recycleMatches pendingFiles))"
proof -
  let ?r = "conflict_loop dh rr recycleMatches pendingFiles ([], 0, 0)"
  let ?t = "restore_targets dh rr recycleMatches pendingFiles"
  have s: "set (fst ?r) = set ?t" by (simp add: conflict_loop_ids)
  have d: "distinct (fst ?r)" by (rule conflict_loop_distinct) simp
  have n: "fst (snd ?r) = int (length (fst ?r))"
    using conflict_loop_restored[of dh rr recycleMatches pendingFiles "[]" 0 0] by simp
  have k: "snd (snd ?r) = int (length (filter (is_duplicate dh) pendingFiles))"
    by (simp add: conflict_loop_skipped)
  have eq: "length (fst ?r) = length ?t \<longleftrightarrow> distinct ?t"
    by (metis card_distinct d distinct_card s)
  have t: "length (filter (is_duplicate dh) pendingFiles) + length ?t +
      length (filter (\<lambda>item. \<not> is_duplicate dh item \<and> restorable rr recycleMatches item = None) pendingFiles) =
      length pendingFiles" by (rule length_three_way)
  have p: "plan = \<lparr>restoreFileIds = fst ?r,
      uploadFiles = filter (\<lambda>item. \<not> is_duplicate dh item \<and> restorable rr recycleMatches item = None) pendingFiles,
      restoreCount = fst (snd ?r),
      uploadCount = int (length (filter (\<lambda>item. \<not> is_duplicate dh item \<and>
        restorable rr recycleMatches item = None) pendingFiles)),
      skipDuplicateCount = snd (snd ?r)\<rparr>"
    unfolding plan_def dh_def buildUploadConflictPlan_def Let_def by (rule refl)
  show ?thesis unfolding p using s d n k eq t by auto
qed

section \<open>Warnings about storage\<close>

text \<open>
  Byte counts from the dashboard are finite or \<open>null\<close>; the remaining space is \<open>None\<close> for
  JavaScript's \<open>Infinity\<close>. \<open>fmt\<close> is \<open>formatBytes\<close>, whose text is only shown.
\<close>

record uploadStorageSnapshot =
  used_bytes :: int
  quota_bytes :: int
  effective_remaining_bytes :: "int option"

definition remainingQuotaBytes :: "int \<Rightarrow> int \<Rightarrow> int option" where
  "remainingQuotaBytes usedBytes quotaBytes =
     (if quotaBytes \<le> 0 then None else Some (max 0 (quotaBytes - max 0 usedBytes)))"

definition effectiveRemainingFromDashboard :: "uploadStorageSnapshot \<Rightarrow> int option" where
  "effectiveRemainingFromDashboard snap =
     (case effective_remaining_bytes snap of
        Some r \<Rightarrow> Some (max 0 r)
      | None \<Rightarrow> remainingQuotaBytes (used_bytes snap) (quota_bytes snap))"

definition storageWarningForFile :: "(int \<Rightarrow> string) \<Rightarrow> int \<Rightarrow> int option \<Rightarrow> string option" where
  "storageWarningForFile fmt fileSize remainingBytes =
     (if fileSize \<le> 0 then None
      else case remainingBytes of
          None \<Rightarrow> None
        | Some r \<Rightarrow> if fileSize > r
            then Some (''This file ('' @ fmt fileSize @ '') is larger than your remaining storage ('' @
                   fmt r @ '') and cannot be stored.'')
            else None)"

fun applyStorageWarningsInOrder :: "(int \<Rightarrow> string) \<Rightarrow> int list \<Rightarrow> int option \<Rightarrow> (int \<times> string option) list" where
  "applyStorageWarningsInOrder fmt [] remaining = []"
| "applyStorageWarningsInOrder fmt (fileSize # rest) remaining =
     (let w = storageWarningForFile fmt fileSize remaining
      in (fileSize, w) # applyStorageWarningsInOrder fmt rest
           (case (w, remaining) of (None, Some r) \<Rightarrow> Some (max 0 (r - fileSize)) | _ \<Rightarrow> remaining))"

definition unwarned :: "(int \<times> string option) list \<Rightarrow> int list" where
  "unwarned rs = map fst (filter (\<lambda>r. snd r = None) rs)"

lemma storageWarning_None_iff:
  "storageWarningForFile fmt n rem = None \<longleftrightarrow> n \<le> 0 \<or> (\<forall>r. rem = Some r \<longrightarrow> n \<le> r)"
  by (auto simp: storageWarningForFile_def split: option.split)

text \<open>The files that get no storage warning fit together into the remaining space, and a
  file gets a warning only when it does not fit beside the unwarned files before it.\<close>

theorem applyStorageWarningsInOrder_fit:
  assumes "\<forall>n \<in> set sizes. 0 \<le> n" and "0 \<le> remaining"
  shows "sum_list (unwarned (applyStorageWarningsInOrder fmt sizes (Some remaining))) \<le> remaining \<and>
    (\<forall>k < length sizes. snd (applyStorageWarningsInOrder fmt sizes (Some remaining) ! k) \<noteq> None \<longleftrightarrow>
       sum_list (unwarned (take k (applyStorageWarningsInOrder fmt sizes (Some remaining)))) + sizes ! k > remaining \<and>
       sizes ! k > 0)"
  using assms
proof (induction sizes arbitrary: remaining)
  case (Cons n sizes)
  show ?case
  proof (cases "storageWarningForFile fmt n (Some remaining)")
    case None
    then have le: "n \<le> remaining" using Cons.prems by (auto simp: storageWarning_None_iff)
    then have "0 \<le> remaining - n" by simp
    note IH = Cons.IH[OF _ this]
    show ?thesis
    proof (intro conjI allI impI)
      show "sum_list (unwarned (applyStorageWarningsInOrder fmt (n # sizes) (Some remaining))) \<le> remaining"
        using IH Cons.prems None le by (simp add: unwarned_def)
      fix k assume k: "k < length (n # sizes)"
      show "snd (applyStorageWarningsInOrder fmt (n # sizes) (Some remaining) ! k) \<noteq> None \<longleftrightarrow>
        sum_list (unwarned (take k (applyStorageWarningsInOrder fmt (n # sizes) (Some remaining)))) + (n # sizes) ! k > remaining \<and>
        (n # sizes) ! k > 0"
      proof (cases k)
        case 0
        with None le show ?thesis by (simp add: unwarned_def)
      next
        case (Suc j)
        have "(snd (applyStorageWarningsInOrder fmt sizes (Some (remaining - n)) ! j) \<noteq> None) =
          (sum_list (unwarned (take j (applyStorageWarningsInOrder fmt sizes (Some (remaining - n))))) + sizes ! j
             > remaining - n \<and> sizes ! j > 0)"
          using IH Cons.prems k Suc by auto
        then show ?thesis using Suc None le by (simp add: unwarned_def algebra_simps)
      qed
    qed
  next
    case (Some w)
    then have gt: "n > remaining" "n > 0" by (auto simp: storageWarningForFile_def split: if_splits)
    have IH: "sum_list (unwarned (applyStorageWarningsInOrder fmt sizes (Some remaining))) \<le> remaining"
      "\<And>k. k < length sizes \<Longrightarrow> snd (applyStorageWarningsInOrder fmt sizes (Some remaining) ! k) \<noteq> None \<longleftrightarrow>
        sum_list (unwarned (take k (applyStorageWarningsInOrder fmt sizes (Some remaining)))) + sizes ! k > remaining \<and>
        sizes ! k > 0"
      using Cons.IH[of remaining] Cons.prems by auto
    show ?thesis
    proof (intro conjI allI impI)
      show "sum_list (unwarned (applyStorageWarningsInOrder fmt (n # sizes) (Some remaining))) \<le> remaining"
        using IH(1) Some by (simp add: unwarned_def)
      fix k assume k: "k < length (n # sizes)"
      show "snd (applyStorageWarningsInOrder fmt (n # sizes) (Some remaining) ! k) \<noteq> None \<longleftrightarrow>
        sum_list (unwarned (take k (applyStorageWarningsInOrder fmt (n # sizes) (Some remaining)))) + (n # sizes) ! k > remaining \<and>
        (n # sizes) ! k > 0"
        using IH(2)[of "k - 1"] k Some gt by (cases k) (auto simp: unwarned_def)
    qed
  qed
qed (simp add: unwarned_def)

lemma applyStorageWarningsInOrder_fit_witness:
  "(\<forall>n \<in> set [4, 7, 3 :: int]. 0 \<le> n) \<and> (0 :: int) \<le> 8 \<and>
   sum_list (unwarned (applyStorageWarningsInOrder show_int [4, 7, 3] (Some 8))) \<le> 8"
  using applyStorageWarningsInOrder_fit[of "[4, 7, 3]" 8 show_int] by simp

section \<open>Folder uploads\<close>

text \<open>Splitting at a single character: what it yields, and that joining undoes it.\<close>

lemma split_go_hit: "split_go [c] acc (c # s) = rev acc # split_go [c] [] s"
  by simp

lemma split_go_miss: "c \<notin> set t \<Longrightarrow> split_go [c] acc (t @ s) = split_go [c] (rev t @ acc) s"
  by (induction t arbitrary: acc) auto

lemma split_go_no_sep: "c \<notin> set acc \<Longrightarrow> seg \<in> set (split_go [c] acc s) \<Longrightarrow> c \<notin> set seg"
proof (induction s arbitrary: acc seg)
  case (Cons x s)
  show ?case
  proof (cases "c = x")
    case True
    with Cons.prems have "seg = rev acc \<or> seg \<in> set (split_go [c] [] s)" by simp
    with Cons.prems Cons.IH[of "[]"] show ?thesis by auto
  next
    case False
    with Cons.prems Cons.IH[of "x # acc"] show ?thesis by auto
  qed
qed simp

lemma js_split_no_sep: "seg \<in> set (js_split [c] s) \<Longrightarrow> c \<notin> set seg"
  unfolding js_split_def by (rule split_go_no_sep[of c "[]"]) simp_all

lemma js_split_nonempty [simp]: "js_split d s \<noteq> []"
  by (simp add: js_split_def split_go_nonempty)

lemma js_split_join:
  "segs \<noteq> [] \<Longrightarrow> \<forall>g \<in> set segs. c \<notin> set g \<Longrightarrow> js_split [c] (js_join [c] segs) = segs"
proof (induction segs)
  case (Cons g gs)
  show ?case
  proof (cases gs)
    case Nil
    with Cons.prems split_go_miss[of c g "[]" "[]"] show ?thesis by (simp add: js_split_def)
  next
    case (Cons g' gs')
    then have j: "js_join [c] (g # gs) = g @ c # js_join [c] gs" by (simp add: js_join_Cons)
    have "split_go [c] [] (js_join [c] gs) = gs"
      using Cons.IH Cons.prems Cons by (simp add: js_split_def)
    then show ?thesis
      unfolding js_split_def j using Cons.prems by (simp add: split_go_miss del: split_go.simps(2) add: split_go_hit)
  qed
qed simp

record folderUploadEntry =
  fe_file :: upfile
  relativeDir :: string

record parsedFolderUpload =
  rootFolderName :: string
  fu_entries :: "folderUploadEntry list"

definition slash :: string where "slash = ''/''"

definition getFileRelativePath :: "upfile \<Rightarrow> string" where
  "getFileRelativePath f = (case webkitRelativePath f of Some p \<Rightarrow> js_trim p | None \<Rightarrow> [])"

definition entry_dir :: "upfile \<Rightarrow> string" where
  "entry_dir f = (let parts = js_split slash (getFileRelativePath f) in
     if length parts > 2 then js_join slash (js_slice parts 1 (- 1)) else [])"

definition parseFolderUploadSelection :: "upfile list \<Rightarrow> parsedFolderUpload option" where
  "parseFolderUploadSelection files =
     (let withPath = filter (\<lambda>f. getFileRelativePath f \<noteq> []) files in
      case withPath of
        [] \<Rightarrow> None
      | f # _ \<Rightarrow>
          (let rootSeg = hd (js_split slash (getFileRelativePath f)) in
           if rootSeg = [] then None
           else if \<exists>g \<in> set withPath. hd (js_split slash (getFileRelativePath g)) \<noteq> rootSeg then None
           else Some \<lparr>rootFolderName = rootSeg,
             fu_entries = map (\<lambda>g. \<lparr>fe_file = g, relativeDir = entry_dir g\<rparr>) withPath\<rparr>))"

definition isFolderUploadSelection :: "upfile list \<Rightarrow> bool" where
  "isFolderUploadSelection files = (parseFolderUploadSelection files \<noteq> None)"

definition folderUploadDisplayPath :: "upfile \<Rightarrow> string option \<Rightarrow> string" where
  "folderUploadDisplayPath f rootSeg =
     (let relativePath = getFileRelativePath f in
      case rootSeg of
        None \<Rightarrow> uf_name f
      | Some r \<Rightarrow>
          if relativePath = [] \<or> r = [] then uf_name f
          else if js_starts_with (r @ slash) relativePath then drop (length (r @ slash)) relativePath
          else uf_name f)"

text \<open>
  Every prefix of every directory path, each once, in the order of insertion, stably
  sorted by depth.
\<close>

definition dir_prefixes :: "string \<Rightarrow> string list" where
  "dir_prefixes dir = (if dir = [] then []
     else map (\<lambda>depth. js_join slash (take depth (js_split slash dir))) [1..<Suc (length (js_split slash dir))])"

definition path_depth :: "string \<Rightarrow> nat" where
  "path_depth p = length (js_split slash p)"

definition collectSubfolderPaths :: "folderUploadEntry list \<Rightarrow> string list" where
  "collectSubfolderPaths es =
     sort_key path_depth (rev (remdups (rev (concat (map (dir_prefixes \<circ> relativeDir) es)))))"

definition parent_dir :: "string \<Rightarrow> string" where
  "parent_dir p = js_join slash (butlast (js_split slash p))"

text \<open>The server's folder API and its errors.\<close>

datatype folder_error = ApiError int | OtherError

datatype ensure_error = Thrown folder_error | Unresolved string

record 's folder_api =
  createFolder :: "'s \<Rightarrow> string \<Rightarrow> string option \<Rightarrow> 's \<times> (folder_error + string)"
  listFolders :: "'s \<Rightarrow> string option \<Rightarrow> 's \<times> (folder_error + (string \<times> string) list)"

definition getOrCreateFolder ::
  "'s folder_api \<Rightarrow> 's \<Rightarrow> string \<Rightarrow> string option \<Rightarrow> 's \<times> (folder_error + string)" where
  "getOrCreateFolder api s nm parentId =
     (case createFolder api s nm parentId of
        (s1, Inr i) \<Rightarrow> (s1, Inr i)
      | (s1, Inl e) \<Rightarrow>
          if e = ApiError 409 then
            (case listFolders api s1 parentId of
               (s2, Inl e2) \<Rightarrow> (s2, Inl e2)
             | (s2, Inr folders) \<Rightarrow>
                 (case List.find (\<lambda>entry. snd entry = nm) folders of
                    Some entry \<Rightarrow> (s2, Inr (fst entry))
                  | None \<Rightarrow> (s2, Inl e)))
          else (s1, Inl e))"

fun ensure_loop ::
  "'s folder_api \<Rightarrow> 's \<Rightarrow> string list \<Rightarrow> (string \<rightharpoonup> string) \<Rightarrow> 's \<times> (ensure_error + (string \<rightharpoonup> string))" where
  "ensure_loop api s [] m = (s, Inr m)"
| "ensure_loop api s (p # ps) m =
     (if \<not> truthy (m (parent_dir p)) then (s, Inl (Unresolved p))
      else case getOrCreateFolder api s (last (js_split slash p)) (m (parent_dir p)) of
          (s1, Inl e) \<Rightarrow> (s1, Inl (Thrown e))
        | (s1, Inr i) \<Rightarrow> ensure_loop api s1 ps (m(p \<mapsto> i)))"

definition ensureFolderUploadStructure ::
  "'s folder_api \<Rightarrow> 's \<Rightarrow> parsedFolderUpload \<Rightarrow> string option \<Rightarrow> 's \<times> (ensure_error + (string \<rightharpoonup> string))" where
  "ensureFolderUploadStructure api s parsed parentFolderId =
     (case getOrCreateFolder api s (rootFolderName parsed) parentFolderId of
        (s1, Inl e) \<Rightarrow> (s1, Inl (Thrown e))
      | (s1, Inr rootId) \<Rightarrow> ensure_loop api s1 (collectSubfolderPaths (fu_entries parsed)) [[] \<mapsto> rootId])"

text \<open>The paths are closed under taking the parent, and parents are shallower.\<close>

lemma dir_prefixes_iff:
  "p \<in> set (dir_prefixes dir) \<longleftrightarrow>
     dir \<noteq> [] \<and> (\<exists>d. 1 \<le> d \<and> d \<le> length (js_split slash dir) \<and> p = js_join slash (take d (js_split slash dir)))"
  by (auto simp: dir_prefixes_def)

lemma dir_in_prefixes: "dir \<noteq> [] \<Longrightarrow> dir \<in> set (dir_prefixes dir)"
  unfolding dir_prefixes_iff
  by (rule conjI, assumption, rule exI[of _ "length (js_split slash dir)"])
    (simp add: js_join_split Suc_le_eq)

lemma split_of_prefix:
  assumes "1 \<le> d" and "d \<le> length (js_split slash dir)"
  shows "js_split slash (js_join slash (take d (js_split slash dir))) = take d (js_split slash dir)"
  unfolding slash_def
proof (rule js_split_join)
  show "take d (js_split ''/'' dir) \<noteq> []" using assms by (auto simp: take_eq_Nil)
  show "\<forall>g \<in> set (take d (js_split ''/'' dir)). CHR ''/'' \<notin> set g"
    by (meson in_set_takeD js_split_no_sep)
qed

lemma parent_of_prefix:
  assumes "p \<in> set (dir_prefixes dir)"
  shows "parent_dir p = [] \<or> (parent_dir p \<in> set (dir_prefixes dir) \<and> path_depth (parent_dir p) < path_depth p)"
proof -
  let ?g = "js_split slash dir"
  from assms obtain d where d: "dir \<noteq> []" "1 \<le> d" "d \<le> length ?g" "p = js_join slash (take d ?g)"
    by (auto simp: dir_prefixes_iff)
  have sp: "js_split slash p = take d ?g" using split_of_prefix[OF d(2,3)] d(4) by simp
  then have par: "parent_dir p = js_join slash (take (d - 1) ?g)"
    using d(3) by (simp add: parent_dir_def butlast_take)
  show ?thesis
  proof (cases "d = 1")
    case True
    then show ?thesis using par by simp
  next
    case False
    then have d1: "1 \<le> d - 1" "d - 1 \<le> length ?g" using d by auto
    have "parent_dir p \<in> set (dir_prefixes dir)"
      unfolding dir_prefixes_iff par using d(1) d1 by blast
    moreover have "path_depth (parent_dir p) = d - 1"
      using split_of_prefix[OF d1] par d1 by (simp add: path_depth_def)
    moreover have "path_depth p = d" using sp d(3) by (simp add: path_depth_def)
    ultimately show ?thesis using d(2) by simp
  qed
qed

lemma set_collectSubfolderPaths:
  "set (collectSubfolderPaths es) = (\<Union>e \<in> set es. set (dir_prefixes (relativeDir e)))"
  by (auto simp: collectSubfolderPaths_def)

lemma parent_before:
  assumes "collectSubfolderPaths es = ps @ p # qs"
  shows "parent_dir p = [] \<or> parent_dir p \<in> set ps"
proof -
  have "p \<in> set (collectSubfolderPaths es)" using assms by simp
  then obtain e where e: "e \<in> set es" "p \<in> set (dir_prefixes (relativeDir e))"
    by (auto simp: set_collectSubfolderPaths)
  from parent_of_prefix[OF e(2)] show ?thesis
  proof
    assume a: "parent_dir p \<in> set (dir_prefixes (relativeDir e)) \<and> path_depth (parent_dir p) < path_depth p"
    then have "parent_dir p \<in> set (collectSubfolderPaths es)" using e(1) by (auto simp: set_collectSubfolderPaths)
    then have m: "parent_dir p \<in> set (ps @ p # qs)" by (simp only: assms)
    have "sorted (map path_depth (ps @ p # qs))"
      by (simp only: assms[symmetric] collectSubfolderPaths_def sorted_sort_key)
    then have "\<forall>q \<in> set qs. path_depth p \<le> path_depth q" by (auto simp: sorted_append)
    with m a show ?thesis by force
  qed simp
qed

definition ids_nonempty :: "'s folder_api \<Rightarrow> bool" where
  "ids_nonempty api \<longleftrightarrow> (\<forall>s nm p s1 i. createFolder api s nm p = (s1, Inr i) \<longrightarrow> i \<noteq> []) \<and>
     (\<forall>s p s1 fs f. listFolders api s p = (s1, Inr fs) \<longrightarrow> f \<in> set fs \<longrightarrow> fst f \<noteq> [])"

lemma getOrCreateFolder_nonempty:
  assumes "ids_nonempty api" and "getOrCreateFolder api s nm p = (s1, Inr i)"
  shows "i \<noteq> []"
proof (cases "createFolder api s nm p")
  case (Pair s2 r)
  show ?thesis
  proof (cases r)
    case (Inr j)
    with Pair assms show ?thesis by (auto simp: getOrCreateFolder_def ids_nonempty_def)
  next
    case (Inl e)
    show ?thesis
    proof (cases "listFolders api s2 p")
      case (Pair s3 l)
      with \<open>createFolder api s nm p = (s2, r)\<close> Inl assms show ?thesis
        by (fastforce simp: getOrCreateFolder_def ids_nonempty_def split: if_splits sum.splits option.splits dest!: find_SomeD)
    qed
  qed
qed

lemma ensure_loop_resolves:
  assumes "ids_nonempty api"
    and "\<And>ps1 p ps2. ps = ps1 @ p # ps2 \<Longrightarrow> truthy (m (parent_dir p)) \<or> parent_dir p \<in> set ps1"
    and "\<And>q. m q \<noteq> Some []"
  shows "case snd (ensure_loop api s ps m) of
           Inl e \<Rightarrow> (\<exists>e'. e = Thrown e')
         | Inr m' \<Rightarrow> (\<forall>q. q \<in> set ps \<or> m q \<noteq> None \<longrightarrow> truthy (m' q))"
  using assms(2,3)
proof (induction ps arbitrary: s m)
  case Nil
  then show ?case by (auto simp: truthy_def split: option.split)
next
  case (Cons p ps)
  have t: "truthy (m (parent_dir p))" using Cons.prems(1)[of "[]" p ps] by simp
  obtain s1 r where g: "getOrCreateFolder api s (last (js_split slash p)) (m (parent_dir p)) = (s1, r)"
    by (cases "getOrCreateFolder api s (last (js_split slash p)) (m (parent_dir p))")
  show ?case
  proof (cases r)
    case (Inl e)
    with t g show ?thesis by simp
  next
    case (Inr i)
    with g have i: "i \<noteq> []" using getOrCreateFolder_nonempty[OF assms(1)] by blast
    have "case snd (ensure_loop api s1 ps (m(p \<mapsto> i))) of
           Inl e \<Rightarrow> (\<exists>e'. e = Thrown e')
         | Inr m' \<Rightarrow> (\<forall>q. q \<in> set ps \<or> (m(p \<mapsto> i)) q \<noteq> None \<longrightarrow> truthy (m' q))"
    proof (rule Cons.IH)
      fix ps1 q ps2 assume "ps = ps1 @ q # ps2"
      then have "p # ps = (p # ps1) @ q # ps2" by simp
      from Cons.prems(1)[OF this]
      show "truthy ((m(p \<mapsto> i)) (parent_dir q)) \<or> parent_dir q \<in> set ps1" using i by auto
    next
      show "(m(p \<mapsto> i)) q \<noteq> Some []" for q using Cons.prems(2) i by simp
    qed
    then show ?thesis using t g Inr by (auto split: sum.splits)
  qed
qed

text \<open>C34. Creating the folders of a picked directory never fails with "Could not resolve parent
  folder": parents are created before their children. It either ends with an error of the
  folder API, or gives a folder id for the directory of every file of the selection.\<close>

theorem ensureFolderUploadStructure_complete:
  assumes "ids_nonempty api"
  shows "case snd (ensureFolderUploadStructure api s parsed parentFolderId) of
           Inl e \<Rightarrow> (\<exists>e'. e = Thrown e')
         | Inr m \<Rightarrow> truthy (m []) \<and> (\<forall>e \<in> set (fu_entries parsed). truthy (m (relativeDir e)))"
proof -
  obtain s1 r where g: "getOrCreateFolder api s (rootFolderName parsed) parentFolderId = (s1, r)"
    by (cases "getOrCreateFolder api s (rootFolderName parsed) parentFolderId")
  show ?thesis
  proof (cases r)
    case (Inl e)
    with g show ?thesis by (simp add: ensureFolderUploadStructure_def)
  next
    case (Inr i)
    with g have i: "i \<noteq> []" using getOrCreateFolder_nonempty[OF assms] by blast
    let ?ps = "collectSubfolderPaths (fu_entries parsed)"
    have "case snd (ensure_loop api s1 ?ps [[] \<mapsto> i]) of
           Inl e \<Rightarrow> (\<exists>e'. e = Thrown e')
         | Inr m' \<Rightarrow> (\<forall>q. q \<in> set ?ps \<or> [[] \<mapsto> i] q \<noteq> None \<longrightarrow> truthy (m' q))"
    proof (rule ensure_loop_resolves[OF assms])
      show "truthy ([[] \<mapsto> i] (parent_dir p)) \<or> parent_dir p \<in> set ps1" if "?ps = ps1 @ p # ps2" for ps1 p ps2
        using parent_before[OF that] i by auto
      show "[[] \<mapsto> i] q \<noteq> Some []" for q using i by simp
    qed
    moreover have "relativeDir e \<in> set ?ps \<or> relativeDir e = []" if "e \<in> set (fu_entries parsed)" for e
      using that dir_in_prefixes by (auto simp: set_collectSubfolderPaths)
    ultimately show ?thesis using g Inr by (fastforce simp: ensureFolderUploadStructure_def split: sum.splits)
  qed
qed

text \<open>A server that creates every folder under the name it is given.\<close>

definition echo_api :: "unit folder_api" where
  "echo_api = \<lparr>createFolder = (\<lambda>s nm p. (s, Inr (CHR ''d'' # nm))), listFolders = (\<lambda>s p. (s, Inr []))\<rparr>"

definition picked :: parsedFolderUpload where
  "picked = \<lparr>rootFolderName = ''top'',
     fu_entries = [\<lparr>fe_file = \<lparr>uf_name = ''f'', uf_size = 1, uf_type = [], webkitRelativePath = Some ''top/a/b/f''\<rparr>,
       relativeDir = ''a/b''\<rparr>]\<rparr>"

lemma ensureFolderUploadStructure_complete_witness:
  "ids_nonempty echo_api \<and>
   (case snd (ensureFolderUploadStructure echo_api () picked None) of
      Inl e \<Rightarrow> False | Inr m \<Rightarrow> truthy (m []) \<and> truthy (m ''a/b''))"
proof -
  have ids: "ids_nonempty echo_api" by (auto simp: ids_nonempty_def echo_api_def)
  have "\<not> isl (snd (ensureFolderUploadStructure echo_api () picked None))" by code_simp
  then obtain m where m: "snd (ensureFolderUploadStructure echo_api () picked None) = Inr m"
    by (cases "snd (ensureFolderUploadStructure echo_api () picked None)") auto
  note c = ensureFolderUploadStructure_complete[OF ids, where s = "()" and parsed = picked and parentFolderId = None, unfolded m sum.case]
  have "\<exists>e \<in> set (fu_entries picked). relativeDir e = ''a/b''" by (simp add: picked_def)
  then have "truthy (m ''a/b'')" using c by metis
  then show ?thesis unfolding m sum.case using ids c by (intro conjI) (assumption, rule conjunct1, assumption)
qed

section \<open>Rounding\<close>

text \<open>\<open>Math.round(x)\<close>\<close>

definition js_round :: "rat \<Rightarrow> rat" where "js_round x = of_int \<lfloor>x + 1 / 2\<rfloor>"

lemma js_round_bounds: "0 \<le> x \<Longrightarrow> x \<le> of_int n \<Longrightarrow> 0 \<le> js_round x \<and> js_round x \<le> of_int n"
  unfolding js_round_def by (simp add: floor_le_iff le_floor_iff)

section \<open>Adaptive concurrency\<close>

record partSample =
  s_ok :: bool
  durationMs :: rat
  s_bytes :: rat

definition SAMPLE_WINDOW :: nat where "SAMPLE_WINDOW = 12"

text \<open>\<open>xs.slice(-n)\<close>\<close>

definition last_n :: "nat \<Rightarrow> 'a list \<Rightarrow> 'a list" where
  "last_n n xs = drop (length xs - n) xs"

definition recordUploadPartSample :: "bool \<Rightarrow> rat \<Rightarrow> rat \<Rightarrow> partSample list \<Rightarrow> partSample list" where
  "recordUploadPartSample k dur bytes samples =
     last_n SAMPLE_WINDOW (samples @ [\<lparr>s_ok = k, durationMs = max 0 dur, s_bytes = max 0 bytes\<rparr>])"

definition fail_rate :: "partSample list \<Rightarrow> rat" where
  "fail_rate recent = of_nat (length (filter (\<lambda>s. \<not> s_ok s) recent)) / of_nat (length recent)"

definition mean_of :: "('a \<Rightarrow> rat) \<Rightarrow> 'a list \<Rightarrow> rat" where
  "mean_of f xs = sum_list (map f xs) / of_nat (length xs)"

definition suggestedPartConcurrency :: "partSample list \<Rightarrow> int" where
  "suggestedPartConcurrency samples =
     (if length samples < 3 then 2
      else let recent = last_n SAMPLE_WINDOW samples; failRate = fail_rate recent in
        if failRate \<ge> 35 / 100 then 1
        else let good = filter (\<lambda>s. s_ok s \<and> durationMs s > 0) recent in
          if good = [] then 2
          else let avgMs = mean_of durationMs good in
            if avgMs < 1500 \<and> failRate < 1 / 10 then 4
            else if avgMs < 4000 \<and> failRate < 2 / 10 then 3
            else 2)"

definition throughput_of :: "partSample list \<Rightarrow> rat" where
  "throughput_of good = mean_of (\<lambda>s. s_bytes s / (durationMs s / 1000)) good"

definition suggestedChunkSizeBytes :: "partSample list \<Rightarrow> int" where
  "suggestedChunkSizeBytes samples =
     (if length samples < 3 then 16 * 1024 * 1024
      else let recent = last_n SAMPLE_WINDOW samples; failRate = fail_rate recent in
        if failRate \<ge> 3 / 10 then 4 * 1024 * 1024
        else let good = filter (\<lambda>s. s_ok s \<and> durationMs s > 0 \<and> s_bytes s > 0) recent in
          if good = [] then 16 * 1024 * 1024
          else let throughput = throughput_of good in
            if throughput > 8 * 1024 * 1024 then 16 * 1024 * 1024
            else if throughput > 2 * 1024 * 1024 then 8 * 1024 * 1024
            else 4 * 1024 * 1024)"

definition suggestedFileConcurrency :: "partSample list \<Rightarrow> int" where
  "suggestedFileConcurrency samples =
     (if length samples < 3 then 2
      else let recent = last_n SAMPLE_WINDOW samples; failRate = fail_rate recent in
        if failRate \<ge> 35 / 100 then 1
        else let good = filter (\<lambda>s. s_ok s \<and> durationMs s > 0) recent in
          if good = [] then 2
          else let avgMs = mean_of durationMs good in
            if avgMs < 1500 \<and> failRate < 1 / 10 then 3 else 2)"

definition estimateRemainingSeconds :: "partSample list \<Rightarrow> rat \<Rightarrow> int option" where
  "estimateRemainingSeconds samples remainingBytes =
     (if remainingBytes \<le> 0 then Some 0
      else let good = last_n 8 (filter (\<lambda>s. s_ok s \<and> durationMs s > 0 \<and> s_bytes s > 0) samples) in
        if length good < 2 then None
        else let throughput = throughput_of good in
          if throughput \<le> 0 then None else Some (max 1 \<lceil>remainingBytes / throughput\<rceil>))"

lemma suggestedFileConcurrency_bounds:
  "1 \<le> suggestedFileConcurrency samples \<and> suggestedFileConcurrency samples \<le> 3"
  by (simp add: suggestedFileConcurrency_def Let_def)

lemma suggestedPartConcurrency_bounds:
  "1 \<le> suggestedPartConcurrency samples \<and> suggestedPartConcurrency samples \<le> 4"
  by (simp add: suggestedPartConcurrency_def Let_def)

lemma suggestedChunkSizeBytes_bounds:
  "4 * 1024 * 1024 \<le> suggestedChunkSizeBytes samples \<and> suggestedChunkSizeBytes samples \<le> 16 * 1024 * 1024"
  by (simp add: suggestedChunkSizeBytes_def Let_def)

lemma recordUploadPartSample_window:
  "length (recordUploadPartSample k d b samples) \<le> SAMPLE_WINDOW"
  by (simp add: recordUploadPartSample_def last_n_def)

end
