(* ===== verification/UploadManager.thy ===== *)
theory UploadManager
  imports UploadPipeline UploadPlan
begin

text \<open>
  The upload manager, \<open>lib/upload-manager.ts\<close> with \<open>lib/upload-batch-snapshot.ts\<close>: the batch
  of rows shown in the transfer panel, the pump that starts queued uploads, the workers
  that poll the server's media ingest, and the operations of the panel.

  Every function runs to completion up to an \<open>await\<close>; the rest of an asynchronous function
  is a value of type \<open>task\<close> in the list \<open>tasks\<close>, and an event runs one of them. The
  module variables are the fields of \<open>mgr\<close>. \<open>uploadFileWithProgress\<close> and
  \<open>waitForFileIngestCompletion\<close> of the API client are the environment: their callbacks and
  results are events. \<open>createClientId\<close> is the stream \<open>cid\<close>, \<open>Date.now()\<close> the argument
  \<open>now\<close>. What the code asks of the server is appended to \<open>effects\<close>. An omitted boolean
  field is \<open>False\<close>, an omitted or null string \<open>None\<close>.
\<close>

section \<open>Rows and batches\<close>

datatype item_status = Queued | Uploading | Done | Error | Cancelled

datatype upload_phase = PhUploading | Post stage

datatype display_bucket = InFlight | BQueued | BDone | BError | BCancelled

datatype batch_status = BatchUploading | BatchComplete

record uploadItem =
  it_id :: string
  fileName :: string
  fileSize :: int
  mimeType :: string
  localFile :: "upfile option"
  it_folderId :: "string option"
  status :: item_status
  progress :: rat
  phase :: upload_phase
  indeterminate :: bool
  uploadedFileId :: "string option"
  resumableServerSessionId :: "string option"
  needsFileReselect :: bool
  relativePath :: "string option"
  it_contentHash :: "string option"
  partTransport :: "string option"
  paused :: bool
  isReprocess :: bool
  it_error :: "string option"

record itemSnapshot =
  sn_id :: string
  sn_fileName :: string
  sn_fileSize :: int
  sn_mimeType :: string
  sn_status :: item_status
  sn_progress :: rat
  sn_phase :: upload_phase
  sn_indeterminate :: bool
  sn_uploadedFileId :: "string option"
  sn_resumableServerSessionId :: "string option"
  sn_needsFileReselect :: bool
  sn_canRetry :: bool
  sn_relativePath :: "string option"
  sn_partTransport :: "string option"
  sn_paused :: bool
  sn_isReprocess :: bool
  sn_error :: "string option"
  sn_displayBucket :: display_bucket

record uploadBatch =
  b_id :: string
  b_status :: batch_status
  b_folderId :: "string option"
  b_items :: "uploadItem list"

record batchSnapshot =
  bs_id :: string
  bs_status :: batch_status
  bs_items :: "itemSnapshot list"
  bs_paused :: bool

record persistedBatch =
  p_id :: string
  p_status :: batch_status
  p_folderId :: "string option"
  p_items :: "itemSnapshot list"

text \<open>The entry of localStorage: absent, unparsable, or a stored batch.\<close>

datatype storage_entry = NoEntry | BadJson | Stored persistedBatch

record fileItem =
  fi_id :: string
  fi_name :: string
  size_bytes :: int
  mime_type :: "string option"
  hls_ready :: bool
  audio_waveform_ready :: bool
  conversion_progress :: "rat option"

record progressUpdate =
  u_phase :: upload_phase
  u_percent :: rat
  u_indeterminate :: bool

record uploadError =
  is_api_error :: bool
  e_code :: string
  e_status :: int
  retryAfterSeconds :: "int option"
  e_message :: string

record backgroundJob =
  j_kind :: string
  j_status :: string
  j_progress :: rat
  j_label :: string
  resource_id :: "string option"

record uploadBatchEntry =
  en_file :: upfile
  en_folderId :: "string option"
  en_relativePath :: "string option"
  en_contentHash :: "string option"

section \<open>State\<close>

text \<open>What remains to be done after an \<open>await\<close>.\<close>

datatype task =
    PumpTask int                                     \<comment> \<open>the pump, until the rate-limit pause ends\<close>
  | StartTask uploadItem nat "string option" int     \<comment> \<open>an upload attempt, before its request\<close>
  | SendTask uploadItem nat "string option"          \<comment> \<open>the request; the server's file id once registered\<close>
  | RetryTask uploadItem nat int                     \<comment> \<open>before the next attempt\<close>
  | FinishTask                                       \<comment> \<open>the pump's \<open>finally\<close>\<close>
  | ProgressTask string progressUpdate nat           \<comment> \<open>a progress update awaiting a stage\<close>
  | IngestWait string string nat                     \<comment> \<open>an ingest worker awaiting the processing stage\<close>
  | IngestPoll string string                         \<comment> \<open>an ingest worker polling the server\<close>
  | ReprocessCancelTask bool                         \<comment> \<open>the bulk cancel of rebuilds\<close>
  | CancelRestTask                                   \<comment> \<open>its \<open>finally\<close>\<close>
  | RestoreJobsTask                                  \<comment> \<open>the list of jobs asked for on reload\<close>

datatype effect =
    Registered fileItem | Uploaded string | IngestProgress fileItem
  | StartUpload string upfile "string option" "string option" "string option"
  | AbortSession string "string option" string
  | CancelIngest string | DeleteFile string
  | CancelReprocess string | CancelAllReprocess | StartPoll string

record mgr =
  batch :: "uploadBatch option"
  restoreStarted :: bool
  resumingItemIds :: "string list"
  abortedUploadItemIds :: "string list"
  uploadPumpPausedUntil :: int
  userUploadPaused :: bool
  cachedBatchSnapshot :: "batchSnapshot option"
  storage :: storage_entry
  pipe :: pipeline
  tasks :: "task list"
  idCount :: nat
  effects :: "effect list"

definition init_mgr :: "storage_entry \<Rightarrow> mgr" where
  "init_mgr stored = \<lparr>batch = None, restoreStarted = False, resumingItemIds = [], abortedUploadItemIds = [],
     uploadPumpPausedUntil = 0, userUploadPaused = False, cachedBatchSnapshot = None, storage = stored,
     pipe = init_pipeline, tasks = [], idCount = 0, effects = []\<rparr>"

definition MAX_CONCURRENT_UPLOADS :: int where "MAX_CONCURRENT_UPLOADS = 2"

definition ADAPTIVE_FILE_SLOTS_CAP :: int where "ADAPTIVE_FILE_SLOTS_CAP = max MAX_CONCURRENT_UPLOADS 3"

definition UPLOAD_MAX_RETRIES :: nat where "UPLOAD_MAX_RETRIES = 6"

definition add_task :: "task \<Rightarrow> mgr \<Rightarrow> mgr" where
  "add_task t s = s\<lparr>tasks := tasks s @ [t]\<rparr>"

definition say :: "effect list \<Rightarrow> mgr \<Rightarrow> mgr" where
  "say es s = s\<lparr>effects := effects s @ es\<rparr>"

section \<open>Snapshots\<close>

definition resolveItemDisplayBucket :: "string list \<Rightarrow> uploadItem \<Rightarrow> display_bucket" where
  "resolveItemDisplayBucket resuming it =
     (case status it of
        Done \<Rightarrow> BDone
      | Error \<Rightarrow> BError
      | Cancelled \<Rightarrow> BCancelled
      | Queued \<Rightarrow> BQueued
      | Uploading \<Rightarrow>
          if localFile it \<noteq> None then InFlight
          else if \<not> truthy (uploadedFileId it) then InFlight
          else if it_id it \<in> set resuming then InFlight
          else BQueued)"

definition toItemSnapshot :: "string list \<Rightarrow> uploadItem \<Rightarrow> itemSnapshot" where
  "toItemSnapshot resuming it = \<lparr>
     sn_id = it_id it, sn_fileName = fileName it, sn_fileSize = fileSize it, sn_mimeType = mimeType it,
     sn_status = status it, sn_progress = progress it, sn_phase = phase it, sn_indeterminate = indeterminate it,
     sn_uploadedFileId = uploadedFileId it, sn_resumableServerSessionId = resumableServerSessionId it,
     sn_needsFileReselect = needsFileReselect it,
     sn_canRetry = ((status it = Error \<or> status it = Cancelled) \<and> localFile it \<noteq> None \<and> \<not> needsFileReselect it),
     sn_relativePath = relativePath it, sn_partTransport = partTransport it, sn_paused = paused it,
     sn_isReprocess = isReprocess it, sn_error = it_error it,
     sn_displayBucket = resolveItemDisplayBucket resuming it\<rparr>"

definition toBatchSnapshot :: "mgr \<Rightarrow> batchSnapshot option" where
  "toBatchSnapshot s = map_option (\<lambda>b. \<lparr>bs_id = b_id b, bs_status = b_status b,
     bs_items = map (toItemSnapshot (resumingItemIds s)) (b_items b), bs_paused = userUploadPaused s\<rparr>) (batch s)"

definition persistBatchToStorage :: "mgr \<Rightarrow> storage_entry" where
  "persistBatchToStorage s =
     (case batch s of
        None \<Rightarrow> NoEntry
      | Some b \<Rightarrow> Stored \<lparr>p_id = b_id b, p_status = b_status b, p_folderId = b_folderId b,
          p_items = map (toItemSnapshot (resumingItemIds s)) (b_items b)\<rparr>)"

definition emitBatch :: "mgr \<Rightarrow> mgr" where
  "emitBatch s = s\<lparr>cachedBatchSnapshot := toBatchSnapshot s, storage := persistBatchToStorage s\<rparr>"

definition updateItems :: "(uploadItem list \<Rightarrow> uploadItem list) \<Rightarrow> mgr \<Rightarrow> mgr" where
  "updateItems f s =
     (case batch s of
        None \<Rightarrow> s
      | Some b \<Rightarrow> emitBatch (s\<lparr>batch := Some (b\<lparr>b_items := f (b_items b)\<rparr>)\<rparr>))"

definition map_item :: "string \<Rightarrow> (uploadItem \<Rightarrow> uploadItem) \<Rightarrow> uploadItem list \<Rightarrow> uploadItem list" where
  "map_item i f = map (\<lambda>it. if it_id it = i then f it else it)"

definition updateItem :: "string \<Rightarrow> (uploadItem \<Rightarrow> uploadItem) \<Rightarrow> mgr \<Rightarrow> mgr" where
  "updateItem i f = updateItems (map_item i f)"

definition items :: "mgr \<Rightarrow> uploadItem list" where
  "items s = (case batch s of None \<Rightarrow> [] | Some b \<Rightarrow> b_items b)"

definition find_item :: "string \<Rightarrow> mgr \<Rightarrow> uploadItem option" where
  "find_item i s = List.find (\<lambda>it. it_id it = i) (items s)"

definition batch_uploading :: "mgr \<Rightarrow> bool" where
  "batch_uploading s = (case batch s of None \<Rightarrow> False | Some b \<Rightarrow> b_status b = BatchUploading)"

section \<open>Reload\<close>

definition internalFromPersisted :: "itemSnapshot \<Rightarrow> uploadItem" where
  "internalFromPersisted sn = \<lparr>
     it_id = sn_id sn, fileName = sn_fileName sn, fileSize = sn_fileSize sn, mimeType = sn_mimeType sn,
     localFile = None, it_folderId = None,
     status = sn_status sn, progress = sn_progress sn, phase = sn_phase sn, indeterminate = sn_indeterminate sn,
     uploadedFileId = sn_uploadedFileId sn, resumableServerSessionId = sn_resumableServerSessionId sn,
     needsFileReselect = sn_needsFileReselect sn, relativePath = sn_relativePath sn, it_contentHash = None,
     partTransport = sn_partTransport sn, paused = sn_paused sn, isReprocess = False, it_error = sn_error sn\<rparr>"

definition reconcile_item :: "itemSnapshot \<Rightarrow> uploadItem" where
  "reconcile_item sn =
     (if sn_status sn = Queued then
        (internalFromPersisted sn)\<lparr>status := Cancelled, it_error := Some ''Upload queue lost when the page was reloaded''\<rparr>
      else if sn_status sn = Uploading \<and> \<not> truthy (sn_uploadedFileId sn) then
        if truthy (sn_resumableServerSessionId sn) then
          (internalFromPersisted sn)\<lparr>resumableServerSessionId := sn_resumableServerSessionId sn, status := Error,
             needsFileReselect := True, it_error := Some ''Select the same file to continue this upload''\<rparr>
        else (internalFromPersisted sn)\<lparr>status := Error,
               it_error := Some ''Upload interrupted when the page was reloaded''\<rparr>
      else internalFromPersisted sn)"

definition reconcileRestoredItems :: "itemSnapshot list \<Rightarrow> uploadItem list" where
  "reconcileRestoredItems = map reconcile_item"

section \<open>Progress\<close>

definition is_post :: "upload_phase \<Rightarrow> bool" where
  "is_post p = (p \<noteq> PhUploading)"

definition applyUploadProgressUpdate :: "progressUpdate \<Rightarrow> uploadItem \<Rightarrow> uploadItem" where
  "applyUploadProgressUpdate u it = it\<lparr>
     progress := (if is_post (u_phase u) \<and> is_post (phase it) then max (progress it) (u_percent u) else u_percent u),
     phase := u_phase u, indeterminate := u_indeterminate u\<rparr>"

definition row_live :: "string \<Rightarrow> mgr \<Rightarrow> bool" where
  "row_live i s \<longleftrightarrow> i \<notin> set (abortedUploadItemIds s) \<and> (\<exists>it \<in> set (items s). it_id it = i \<and> status it = Uploading)"

definition finish_progress :: "string \<Rightarrow> progressUpdate \<Rightarrow> mgr \<Rightarrow> mgr" where
  "finish_progress i u s = (if row_live i s then updateItem i (applyUploadProgressUpdate u) s else s)"

definition acquire_stage :: "string \<Rightarrow> stage \<Rightarrow> mgr \<Rightarrow> mgr \<times> nat" where
  "acquire_stage i st s = (let (p, k) = acquirePipelineStage i st (pipe s) in (s\<lparr>pipe := p\<rparr>, k))"

definition release_stages :: "string \<Rightarrow> mgr \<Rightarrow> mgr" where
  "release_stages i s = s\<lparr>pipe := releaseAllPipelineStages i (pipe s)\<rparr>"

definition applyPipelinedProgress :: "string \<Rightarrow> progressUpdate \<Rightarrow> mgr \<Rightarrow> mgr" where
  "applyPipelinedProgress i u s =
     (if \<not> row_live i s then s
      else case u_phase u of
          Post st \<Rightarrow> (let (s1, k) = acquire_stage i st s in add_task (ProgressTask i u k) s1)
        | PhUploading \<Rightarrow> finish_progress i u s)"

definition starts_with_opt :: "string \<Rightarrow> string option \<Rightarrow> bool" where
  "starts_with_opt pre v = (case v of None \<Rightarrow> False | Some t \<Rightarrow> js_starts_with pre t)"

definition isMediaAwaitingIngest :: "fileItem \<Rightarrow> bool" where
  "isMediaAwaitingIngest f =
     ((starts_with_opt ''video/'' (mime_type f) \<and> \<not> hls_ready f) \<or>
      (starts_with_opt ''audio/'' (mime_type f) \<and> \<not> audio_waveform_ready f))"

definition register_row :: "fileItem \<Rightarrow> uploadItem \<Rightarrow> uploadItem" where
  "register_row f it = it\<lparr>uploadedFileId := Some (fi_id f), fileName := fi_name f, fileSize := size_bytes f,
     mimeType := (case mime_type f of Some m \<Rightarrow> m | None \<Rightarrow> mimeType it),
     phase := (if isMediaAwaitingIngest f then Post Processing else phase it), indeterminate := False\<rparr>"

definition registerUploadServerFile :: "string \<Rightarrow> fileItem \<Rightarrow> mgr \<Rightarrow> mgr" where
  "registerUploadServerFile sessionId f s =
     (if batch s = None then s
      else say [Registered f] (updateItem sessionId (register_row f) s))"

section \<open>The pumps\<close>

definition isTerminalStatus :: "item_status \<Rightarrow> bool" where
  "isTerminalStatus st = (st = Done \<or> st = Error \<or> st = Cancelled)"

definition set_batch_status :: "batch_status \<Rightarrow> mgr \<Rightarrow> mgr" where
  "set_batch_status st s = s\<lparr>batch := map_option (\<lambda>b. b\<lparr>b_status := st\<rparr>) (batch s)\<rparr>"

definition maybeCompleteBatch :: "mgr \<Rightarrow> mgr" where
  "maybeCompleteBatch s =
     (if batch_uploading s \<and> (\<forall>it \<in> set (items s). isTerminalStatus (status it))
      then emitBatch (set_batch_status BatchComplete s) else s)"

definition maybeCompleteBatchWhenIdle :: "mgr \<Rightarrow> mgr" where
  "maybeCompleteBatchWhenIdle s =
     (if batch_uploading s \<and> \<not> (\<exists>it \<in> set (items s). status it = Queued) \<and>
         \<not> (\<exists>it \<in> set (items s). status it = Uploading)
      then maybeCompleteBatch s else s)"

definition unpause_at :: "int \<Rightarrow> mgr \<Rightarrow> int" where
  "unpause_at now s = max now (uploadPumpPausedUntil s)"

definition pumpUploadQueue :: "int \<Rightarrow> mgr \<Rightarrow> mgr" where
  "pumpUploadQueue now s =
     (if \<not> batch_uploading s \<or> userUploadPaused s then s else add_task (PumpTask (unpause_at now s)) s)"

definition resumeUploadItemProcessing :: "uploadItem \<Rightarrow> mgr \<Rightarrow> mgr" where
  "resumeUploadItemProcessing it s =
     (if batch s = None \<or> \<not> truthy (uploadedFileId it) \<or> it_id it \<in> set (resumingItemIds s) then s
      else let s1 = emitBatch (s\<lparr>resumingItemIds := jset_add (it_id it) (resumingItemIds s)\<rparr>);
               (s2, k) = acquire_stage (it_id it) Processing s1
           in add_task (IngestWait (it_id it) (the (uploadedFileId it)) k) s2)"

fun processing_loop :: "uploadItem list \<Rightarrow> mgr \<Rightarrow> mgr" where
  "processing_loop [] s = s"
| "processing_loop (it # rest) s =
     (if length (resumingItemIds s) \<ge> PIPELINE_STAGE_LIMIT then s
      else if status it \<noteq> Uploading \<or> \<not> truthy (uploadedFileId it) \<or> localFile it \<noteq> None then processing_loop rest s
      else if it_id it \<in> set (resumingItemIds s) then processing_loop rest s
      else processing_loop rest (resumeUploadItemProcessing it s))"

definition pumpProcessingQueue :: "mgr \<Rightarrow> mgr" where
  "pumpProcessingQueue s = (if batch_uploading s then processing_loop (items s) s else s)"

definition releaseUploadByteSlot :: "int \<Rightarrow> string \<Rightarrow> mgr \<Rightarrow> mgr" where
  "releaseUploadByteSlot now i s =
     (case find_item i s of
        None \<Rightarrow> s
      | Some it \<Rightarrow>
          if localFile it = None then s
          else pumpProcessingQueue (pumpUploadQueue now (updateItem i (\<lambda>e. e\<lparr>localFile := None\<rparr>) s)))"

definition claim_row :: "uploadItem \<Rightarrow> uploadItem" where
  "claim_row it = it\<lparr>status := Uploading, progress := 0, phase := PhUploading\<rparr>"

definition claimNextQueued :: "mgr \<Rightarrow> mgr \<times> uploadItem option" where
  "claimNextQueued s =
     (case batch s of
        None \<Rightarrow> (s, None)
      | Some b \<Rightarrow>
          (case find_index (\<lambda>it. status it = Queued \<and> \<not> paused it) (b_items b) of
             None \<Rightarrow> (s, None)
           | Some k \<Rightarrow>
               (let claimed = claim_row (b_items b ! k)
                in (emitBatch (s\<lparr>batch := Some (b\<lparr>b_items := (b_items b)[k := claimed]\<rparr>)\<rparr>), Some claimed))))"

definition countInFlightBrowserUploads :: "mgr \<Rightarrow> int" where
  "countInFlightBrowserUploads s =
     int (length (filter (\<lambda>it. status it = Uploading \<and> localFile it \<noteq> None) (items s)))"

text \<open>An attempt begins by waiting for the end of the rate-limit pause.\<close>

definition uploadClaimedItem :: "int \<Rightarrow> uploadItem \<Rightarrow> nat \<Rightarrow> mgr \<Rightarrow> mgr" where
  "uploadClaimedItem now claimed attempt s =
     (case batch s of
        None \<Rightarrow> add_task FinishTask s
      | Some b \<Rightarrow>
          if localFile claimed = None then add_task FinishTask s
          else add_task (StartTask claimed attempt
                 (case it_folderId claimed of Some f \<Rightarrow> Some f | None \<Rightarrow> b_folderId b) (unpause_at now s)) s)"

text \<open>What the primitives leave alone.\<close>

lemma emitBatch_simps [simp]:
  "batch (emitBatch s) = batch s" "restoreStarted (emitBatch s) = restoreStarted s"
  "resumingItemIds (emitBatch s) = resumingItemIds s" "abortedUploadItemIds (emitBatch s) = abortedUploadItemIds s"
  "uploadPumpPausedUntil (emitBatch s) = uploadPumpPausedUntil s" "userUploadPaused (emitBatch s) = userUploadPaused s"
  "pipe (emitBatch s) = pipe s" "tasks (emitBatch s) = tasks s" "idCount (emitBatch s) = idCount s"
  "effects (emitBatch s) = effects s"
  by (simp_all add: emitBatch_def)

lemma add_task_simps [simp]:
  "batch (add_task t s) = batch s" "restoreStarted (add_task t s) = restoreStarted s"
  "resumingItemIds (add_task t s) = resumingItemIds s" "abortedUploadItemIds (add_task t s) = abortedUploadItemIds s"
  "uploadPumpPausedUntil (add_task t s) = uploadPumpPausedUntil s" "userUploadPaused (add_task t s) = userUploadPaused s"
  "pipe (add_task t s) = pipe s" "tasks (add_task t s) = tasks s @ [t]" "idCount (add_task t s) = idCount s"
  "effects (add_task t s) = effects s" "storage (add_task t s) = storage s"
  by (simp_all add: add_task_def)

lemma say_simps [simp]:
  "batch (say es s) = batch s" "restoreStarted (say es s) = restoreStarted s"
  "resumingItemIds (say es s) = resumingItemIds s" "abortedUploadItemIds (say es s) = abortedUploadItemIds s"
  "uploadPumpPausedUntil (say es s) = uploadPumpPausedUntil s" "userUploadPaused (say es s) = userUploadPaused s"
  "pipe (say es s) = pipe s" "tasks (say es s) = tasks s" "idCount (say es s) = idCount s"
  "effects (say es s) = effects s @ es" "storage (say es s) = storage s"
  by (simp_all add: say_def)

lemma release_stages_simps [simp]:
  "batch (release_stages i s) = batch s" "restoreStarted (release_stages i s) = restoreStarted s"
  "resumingItemIds (release_stages i s) = resumingItemIds s" "abortedUploadItemIds (release_stages i s) = abortedUploadItemIds s"
  "uploadPumpPausedUntil (release_stages i s) = uploadPumpPausedUntil s" "userUploadPaused (release_stages i s) = userUploadPaused s"
  "tasks (release_stages i s) = tasks s" "idCount (release_stages i s) = idCount s"
  "effects (release_stages i s) = effects s" "storage (release_stages i s) = storage s"
  by (simp_all add: release_stages_def)

lemma acquire_stage_simps [simp]:
  "batch (fst (acquire_stage i st s)) = batch s" "restoreStarted (fst (acquire_stage i st s)) = restoreStarted s"
  "resumingItemIds (fst (acquire_stage i st s)) = resumingItemIds s"
  "abortedUploadItemIds (fst (acquire_stage i st s)) = abortedUploadItemIds s"
  "uploadPumpPausedUntil (fst (acquire_stage i st s)) = uploadPumpPausedUntil s"
  "userUploadPaused (fst (acquire_stage i st s)) = userUploadPaused s"
  "tasks (fst (acquire_stage i st s)) = tasks s" "idCount (fst (acquire_stage i st s)) = idCount s"
  "effects (fst (acquire_stage i st s)) = effects s" "storage (fst (acquire_stage i st s)) = storage s"
  by (simp_all add: acquire_stage_def split: prod.split)

lemma uploadClaimedItem_simps [simp]:
  "batch (uploadClaimedItem now c n s) = batch s"
  by (simp add: uploadClaimedItem_def split: option.split)

definition waiting_rows :: "mgr \<Rightarrow> nat" where
  "waiting_rows s = length (filter (\<lambda>it. status it = Queued \<and> \<not> paused it) (items s))"

lemma filter_update_less:
  "k < length xs \<Longrightarrow> P (xs ! k) \<Longrightarrow> \<not> P y \<Longrightarrow> length (filter P (xs[k := y])) < length (filter P xs)"
proof (induction xs arbitrary: k)
  case (Cons x xs)
  then show ?case by (cases k) auto
qed simp

lemma claim_decreases:
  assumes "claimNextQueued s = (s1, Some c)"
  shows "waiting_rows s1 < waiting_rows s"
proof -
  from assms obtain b k where b: "batch s = Some b"
    and k: "find_index (\<lambda>it. status it = Queued \<and> \<not> paused it) (b_items b) = Some k"
    and s1: "s1 = emitBatch (s\<lparr>batch := Some (b\<lparr>b_items := (b_items b)[k := c]\<rparr>)\<rparr>)"
    and c: "c = claim_row (b_items b ! k)"
    by (auto simp: claimNextQueued_def Let_def split: option.splits)
  have "k < length (b_items b) \<and> status (b_items b ! k) = Queued \<and> \<not> paused (b_items b ! k)"
    using find_index_SomeD[OF k] by simp
  then show ?thesis
    unfolding waiting_rows_def using b c s1 by (auto simp: items_def claim_row_def intro!: filter_update_less)
qed

text \<open>The claiming loop of the pump.\<close>

function pump_claims :: "int \<Rightarrow> int \<Rightarrow> mgr \<Rightarrow> mgr" where
  "pump_claims now fileSlots s =
     (if countInFlightBrowserUploads s < fileSlots then
        (case claimNextQueued s of
           (s1, None) \<Rightarrow> s1
         | (s1, Some claimed) \<Rightarrow> pump_claims now fileSlots (uploadClaimedItem now claimed 0 s1))
      else s)"
  by pat_completeness auto
termination
proof (relation "measure (\<lambda>(_, _, s). waiting_rows s)")
  show "wf (measure (\<lambda>(_, _, s). waiting_rows s))" by simp
next
  fix now fileSlots :: int and s s1 claimed x2
  assume "countInFlightBrowserUploads s < fileSlots" "(s1, x2) = claimNextQueued s" "x2 = Some claimed"
  then have "waiting_rows s1 < waiting_rows s" by (metis claim_decreases)
  then show "((now, fileSlots, uploadClaimedItem now claimed 0 s1), now, fileSlots, s)
      \<in> measure (\<lambda>(_, _, s). waiting_rows s)"
    by (simp add: waiting_rows_def items_def)
qed

declare pump_claims.simps [simp del]

definition pump_woken :: "int \<Rightarrow> partSample list \<Rightarrow> mgr \<Rightarrow> mgr" where
  "pump_woken now samples s =
     (if \<not> batch_uploading s \<or> userUploadPaused s then s
      else pump_claims now (min ADAPTIVE_FILE_SLOTS_CAP (suggestedFileConcurrency samples)) s)"

section \<open>The end of an upload attempt\<close>

definition isRetryableUploadError :: "uploadError \<Rightarrow> bool" where
  "isRetryableUploadError e =
     (is_api_error e \<and> e_code e \<noteq> ''upload_cancelled'' \<and>
      (e_status e = 429 \<or> e_code e = ''rate_limited'' \<or> e_code e = ''storage_error'' \<or> e_code e = ''network_error''))"

definition uploadRetryDelayMs :: "nat \<Rightarrow> int" where
  "uploadRetryDelayMs attempt = min 30000 (1500 * 2 ^ (attempt - 1))"

definition pauseUploadPumpFor :: "int \<Rightarrow> int \<Rightarrow> mgr \<Rightarrow> mgr" where
  "pauseUploadPumpFor now delayMs s = s\<lparr>uploadPumpPausedUntil := max (uploadPumpPausedUntil s) (now + delayMs)\<rparr>"

definition mark_done :: "string \<Rightarrow> uploadItem \<Rightarrow> uploadItem" where
  "mark_done fileId it = it\<lparr>status := Done, progress := 100, phase := Post Storing, indeterminate := False,
     uploadedFileId := Some fileId\<rparr>"

definition mark_failed :: "bool \<Rightarrow> string \<Rightarrow> uploadItem \<Rightarrow> uploadItem" where
  "mark_failed cancelled message it = it\<lparr>status := (if cancelled then Cancelled else Error),
     it_error := Some (if cancelled then ''Cancelled'' else message)\<rparr>"

text \<open>The ellipsis of the message is its UTF-8 bytes.\<close>

definition retry_message :: "nat \<Rightarrow> string" where
  "retry_message n = ''Waiting to retry ('' @ show_int (int n) @ ''/6)'' @ [CHR 0xE2, CHR 0x80, CHR 0xA6]"

definition is_cancelled_error :: "uploadError \<Rightarrow> bool" where
  "is_cancelled_error e = (is_api_error e \<and> e_code e = ''upload_cancelled'')"

definition retry_after_ms :: "uploadError \<Rightarrow> nat \<Rightarrow> int" where
  "retry_after_ms e n = (case retryAfterSeconds e of
       Some r \<Rightarrow> if is_api_error e \<and> r \<noteq> 0 then r * 1000 else uploadRetryDelayMs n
     | None \<Rightarrow> uploadRetryDelayMs n)"

definition mark_retrying :: "nat \<Rightarrow> uploadItem \<Rightarrow> uploadItem" where
  "mark_retrying n it = it\<lparr>status := Uploading, phase := PhUploading, indeterminate := True,
     it_error := Some (retry_message n)\<rparr>"

definition upload_failed :: "int \<Rightarrow> uploadItem \<Rightarrow> nat \<Rightarrow> uploadError \<Rightarrow> mgr \<Rightarrow> mgr" where
  "upload_failed now claimed retryAttempt e s =
     (let i = it_id claimed; s1 = release_stages i s; cancelled = is_cancelled_error e in
      if \<not> cancelled \<and> isRetryableUploadError e \<and> retryAttempt < UPLOAD_MAX_RETRIES then
        (let n = retryAttempt + 1;
             s2 = (if e_status e = 429 then pauseUploadPumpFor now (retry_after_ms e n) s1 else s1);
             s3 = updateItem i (mark_retrying n) s2
         in add_task (RetryTask claimed n (unpause_at now s3)) s3)
      else add_task FinishTask (updateItem i (mark_failed cancelled (e_message e)) s1))"

definition missing_metadata :: uploadError where
  "missing_metadata = \<lparr>is_api_error = False, e_code = [], e_status = 0, retryAfterSeconds = None,
     e_message = ''Upload finished but the server response was missing file metadata.''\<rparr>"

definition upload_settled :: "int \<Rightarrow> uploadItem \<Rightarrow> nat \<Rightarrow> uploadError + fileItem option \<Rightarrow> mgr \<Rightarrow> mgr" where
  "upload_settled now claimed attempt r s =
     (case r of
        Inl e \<Rightarrow> upload_failed now claimed attempt e s
      | Inr None \<Rightarrow> upload_failed now claimed attempt missing_metadata s
      | Inr (Some f) \<Rightarrow>
          if fi_id f = [] then upload_failed now claimed attempt missing_metadata s
          else (let s1 = releaseUploadByteSlot now (it_id claimed) s in
            if isMediaAwaitingIngest f then add_task FinishTask (pumpProcessingQueue s1)
            else add_task FinishTask (release_stages (it_id claimed) (say [Uploaded (fi_id f)]
                   (updateItem (it_id claimed) (mark_done (fi_id f)) s1)))))"

definition retry_woken :: "int \<Rightarrow> uploadItem \<Rightarrow> nat \<Rightarrow> mgr \<Rightarrow> mgr" where
  "retry_woken now claimed n s =
     (if batch s = None \<or> (case find_item (it_id claimed) s of Some it \<Rightarrow> status it = Cancelled | None \<Rightarrow> False)
      then add_task FinishTask s else uploadClaimedItem now claimed n s)"

definition upload_finished :: "int \<Rightarrow> mgr \<Rightarrow> mgr" where
  "upload_finished now s = maybeCompleteBatchWhenIdle (pumpProcessingQueue (pumpUploadQueue now s))"

text \<open>The end of an ingest worker; \<open>Inl (True, _)\<close> is the \<open>upload_cancelled\<close> error.\<close>

definition ingest_settled :: "string \<Rightarrow> (bool \<times> string) + fileItem \<Rightarrow> mgr \<Rightarrow> mgr" where
  "ingest_settled i r s =
     (let s1 = (case r of
           Inr f \<Rightarrow> say [Uploaded (fi_id f)] (updateItem i (mark_done (fi_id f)) s)
         | Inl (cancelled, message) \<Rightarrow> updateItem i (mark_failed cancelled message) s);
          s2 = emitBatch (release_stages i (s1\<lparr>resumingItemIds := jset_delete i (resumingItemIds s1)\<rparr>))
      in maybeCompleteBatch (pumpProcessingQueue s2))"

section \<open>Operations of the panel\<close>

definition setUploadBatchPaused :: "int \<Rightarrow> bool \<Rightarrow> mgr \<Rightarrow> mgr" where
  "setUploadBatchPaused now p s =
     (let s1 = s\<lparr>userUploadPaused := p\<rparr> in emitBatch (if \<not> p then pumpUploadQueue now s1 else s1))"

definition setUploadItemPaused :: "int \<Rightarrow> string \<Rightarrow> bool \<Rightarrow> mgr \<Rightarrow> mgr" where
  "setUploadItemPaused now i p s =
     (if batch s = None then s
      else let s1 = updateItem i (\<lambda>it. if status it = Queued then it\<lparr>paused := p\<rparr> else it) s
           in if \<not> p then pumpUploadQueue now s1 else s1)"

text \<open>The server's row of a cancelled upload is removed; a video's ingest is cancelled first.\<close>

definition voidCleanupPartialServerFile :: "string \<Rightarrow> string \<Rightarrow> mgr \<Rightarrow> mgr" where
  "voidCleanupPartialServerFile fileId mime s =
     (if js_starts_with ''video/'' mime then say [CancelIngest fileId, DeleteFile fileId] s
      else say [DeleteFile fileId] s)"

definition cleanup_item :: "uploadItem \<Rightarrow> mgr \<Rightarrow> mgr" where
  "cleanup_item it s = (if truthy (uploadedFileId it)
     then voidCleanupPartialServerFile (the (uploadedFileId it)) (mimeType it) s else s)"

definition set_items :: "uploadItem list \<Rightarrow> mgr \<Rightarrow> mgr" where
  "set_items its s = s\<lparr>batch := map_option (\<lambda>b. b\<lparr>b_items := its\<rparr>) (batch s)\<rparr>"

definition removeItemFromActiveBatch :: "int \<Rightarrow> string \<Rightarrow> mgr \<Rightarrow> mgr" where
  "removeItemFromActiveBatch now i s =
     (if batch s = None then s
      else let s1 = release_stages i s;
               s2 = set_items (filter (\<lambda>it. it_id it \<noteq> i) (items s1)) s1;
               s3 = s2\<lparr>abortedUploadItemIds := jset_delete i (abortedUploadItemIds s2)\<rparr>;
               s4 = (if items s3 = [] then s3\<lparr>batch := None\<rparr>
                     else if batch_uploading s3 then maybeCompleteBatch s3 else s3)
           in pumpUploadQueue now (emitBatch s4))"

definition mark_cancelled :: "uploadItem \<Rightarrow> uploadItem" where
  "mark_cancelled it = it\<lparr>status := Cancelled, it_error := Some ''Cancelled'', indeterminate := False\<rparr>"

definition cancelUploadItem :: "int \<Rightarrow> string \<Rightarrow> mgr \<Rightarrow> mgr" where
  "cancelUploadItem now i s =
     (if \<not> batch_uploading s then s
      else case find_item i s of
          None \<Rightarrow> s
        | Some it \<Rightarrow>
            if status it = Done then s
            else let s1 = s\<lparr>abortedUploadItemIds := jset_add i (abortedUploadItemIds s)\<rparr> in
              if isReprocess it then
                (let s2 = (if truthy (uploadedFileId it) then say [CancelReprocess (the (uploadedFileId it))] s1 else s1);
                     s3 = release_stages i (updateItem i mark_cancelled s2);
                     s4 = s3\<lparr>resumingItemIds := jset_delete i (resumingItemIds s3)\<rparr>
                 in pumpProcessingQueue (maybeCompleteBatch s4))
              else removeItemFromActiveBatch now i (cleanup_item it
                     (if status it = Uploading then say [AbortSession i (uploadedFileId it) (mimeType it)] s1 else s1)))"

definition pending_row :: "uploadItem \<Rightarrow> bool" where
  "pending_row it = (status it = Queued \<or> status it = Uploading)"

definition cancelAllPendingHlsReprocess :: "bool \<Rightarrow> mgr \<Rightarrow> mgr" where
  "cancelAllPendingHlsReprocess follow s = add_task (ReprocessCancelTask follow) (say [CancelAllReprocess] s)"

definition cancelAllUploadItems :: "int \<Rightarrow> mgr \<Rightarrow> mgr" where
  "cancelAllUploadItems now s =
     (if \<not> batch_uploading s then s
      else let pending = filter pending_row (items s) in
        if pending = [] then s
        else if \<exists>it \<in> set pending. isReprocess it then cancelAllPendingHlsReprocess True s
        else fold (cancelUploadItem now) (map it_id pending) s)"

definition reprocess_cancelled :: "bool \<Rightarrow> bool \<Rightarrow> mgr \<Rightarrow> mgr" where
  "reprocess_cancelled follow ok s =
     (let s1 = (if ok \<and> batch s \<noteq> None then
            (let pend = map it_id (filter (\<lambda>it. isReprocess it \<and> pending_row it) (items s));
                 s2 = fold (\<lambda>i r. let r1 = release_stages i (r\<lparr>abortedUploadItemIds := jset_add i (abortedUploadItemIds r)\<rparr>)
                                  in r1\<lparr>resumingItemIds := jset_delete i (resumingItemIds r1)\<rparr>) pend s
             in maybeCompleteBatch (updateItems (map (\<lambda>it. if isReprocess it \<and> pending_row it then mark_cancelled it else it)) s2))
          else s)
      in if follow then add_task CancelRestTask s1 else s1)"

definition cancel_rest :: "int \<Rightarrow> mgr \<Rightarrow> mgr" where
  "cancel_rest now s =
     (if batch s = None then s
      else fold (cancelUploadItem now) (map it_id (filter (\<lambda>it. \<not> isReprocess it \<and> pending_row it) (items s))) s)"

definition removeUploadBatchItem :: "int \<Rightarrow> string \<Rightarrow> mgr \<Rightarrow> mgr" where
  "removeUploadBatchItem now i s =
     (case find_item i s of
        None \<Rightarrow> s
      | Some it \<Rightarrow>
          if status it \<noteq> Error \<and> status it \<noteq> Cancelled then s
          else removeItemFromActiveBatch now i (cleanup_item it s))"

definition dismissUploadBatch :: "mgr \<Rightarrow> mgr" where
  "dismissUploadBatch s = (if batch s = None \<or> batch_uploading s then s else emitBatch (s\<lparr>batch := None\<rparr>))"

definition clearCancelledHlsReprocessItems :: "mgr \<Rightarrow> mgr" where
  "clearCancelledHlsReprocessItems s =
     (if batch s = None then s
      else let s1 = set_items (filter (\<lambda>it. \<not> (isReprocess it \<and> status it = Cancelled)) (items s)) s
           in emitBatch (if items s1 = [] then s1\<lparr>batch := None\<rparr> else maybeCompleteBatch s1))"

definition reopen_batch :: "mgr \<Rightarrow> mgr" where
  "reopen_batch s = (if batch_uploading s then s else emitBatch (set_batch_status BatchUploading s))"

definition requeue_row :: "uploadItem \<Rightarrow> uploadItem" where
  "requeue_row it = it\<lparr>status := Queued, progress := 0, phase := PhUploading, indeterminate := False,
     it_error := None, uploadedFileId := None\<rparr>"

definition retryUploadItem :: "int \<Rightarrow> string \<Rightarrow> mgr \<Rightarrow> mgr \<times> bool" where
  "retryUploadItem now i s =
     (case find_item i s of
        None \<Rightarrow> (s, False)
      | Some it \<Rightarrow>
          if status it \<noteq> Error \<and> status it \<noteq> Cancelled then (s, False)
          else if localFile it = None \<or> needsFileReselect it then (s, False)
          else (pumpUploadQueue now (reopen_batch (updateItem i requeue_row
                  (s\<lparr>abortedUploadItemIds := jset_delete i (abortedUploadItemIds s)\<rparr>))), True))"

definition retryFailedUploadItems :: "int \<Rightarrow> mgr \<Rightarrow> mgr \<times> int" where
  "retryFailedUploadItems now s =
     fold (\<lambda>i (s, n). let (s1, ok) = retryUploadItem now i s in (s1, if ok then n + 1 else n))
       (map it_id (filter (\<lambda>it. status it = Error \<and> localFile it \<noteq> None \<and> \<not> needsFileReselect it) (items s))) (s, 0)"

definition reattach_row :: "upfile \<Rightarrow> uploadItem \<Rightarrow> uploadItem" where
  "reattach_row f it = it\<lparr>localFile := Some f, status := Uploading, phase := PhUploading, progress := 0,
     indeterminate := False, it_error := None, needsFileReselect := False\<rparr>"

definition reattachUploadFile :: "int \<Rightarrow> string \<Rightarrow> upfile \<Rightarrow> mgr \<Rightarrow> mgr \<times> bool" where
  "reattachUploadFile now i f s =
     (case find_item i s of
        None \<Rightarrow> (s, False)
      | Some it \<Rightarrow>
          if \<not> needsFileReselect it \<or> \<not> truthy (resumableServerSessionId it) then (s, False)
          else if uf_name f \<noteq> fileName it \<or> uf_size f \<noteq> fileSize it then (s, False)
          else (pumpUploadQueue now (reopen_batch (updateItem i (reattach_row f) s)), True))"

section \<open>New rows\<close>

definition base_item :: "string \<Rightarrow> uploadItem" where
  "base_item i = \<lparr>it_id = i, fileName = [], fileSize = 0, mimeType = [], localFile = None, it_folderId = None,
     status = Queued, progress = 0, phase = PhUploading, indeterminate = False, uploadedFileId = None,
     resumableServerSessionId = None, needsFileReselect = False, relativePath = None, it_contentHash = None,
     partTransport = None, paused = False, isReprocess = False, it_error = None\<rparr>"

definition queued_item :: "string option \<Rightarrow> string \<Rightarrow> uploadBatchEntry \<Rightarrow> uploadItem" where
  "queued_item defaultFolderId i en = (base_item i)\<lparr>localFile := Some (en_file en), fileName := uf_name (en_file en),
     fileSize := uf_size (en_file en), mimeType := uf_type (en_file en),
     it_folderId := (case en_folderId en of Some f \<Rightarrow> Some f | None \<Rightarrow> defaultFolderId),
     relativePath := en_relativePath en, it_contentHash := en_contentHash en\<rparr>"

text \<open>\<open>createClientId()\<close>\<close>

definition new_id :: "(nat \<Rightarrow> string) \<Rightarrow> mgr \<Rightarrow> mgr \<times> string" where
  "new_id cid s = (s\<lparr>idCount := Suc (idCount s)\<rparr>, cid (idCount s))"

fun queuedItemsFromEntries ::
  "(nat \<Rightarrow> string) \<Rightarrow> string option \<Rightarrow> uploadBatchEntry list \<Rightarrow> mgr \<Rightarrow> mgr \<times> uploadItem list" where
  "queuedItemsFromEntries cid d [] s = (s, [])"
| "queuedItemsFromEntries cid d (en # ens) s =
     (let (s1, i) = new_id cid s; (s2, its) = queuedItemsFromEntries cid d ens s1 in (s2, queued_item d i en # its))"

definition startUploadBatch ::
  "(nat \<Rightarrow> string) \<Rightarrow> int \<Rightarrow> uploadBatchEntry list \<Rightarrow> string option \<Rightarrow> mgr \<Rightarrow> mgr" where
  "startUploadBatch cid now ens defaultFolderId s =
     (if ens = [] then s
      else let (s1, newItems) = queuedItemsFromEntries cid defaultFolderId ens s in
        if batch_uploading s1 then pumpUploadQueue now (emitBatch (set_items (items s1 @ newItems) s1))
        else let (s2, i) = new_id cid s1 in
          pumpUploadQueue now (emitBatch (s2\<lparr>batch := Some \<lparr>b_id = i, b_status = BatchUploading,
            b_folderId = defaultFolderId, b_items = newItems\<rparr>\<rparr>)))"

definition ensureUploadingBatch :: "(nat \<Rightarrow> string) \<Rightarrow> mgr \<Rightarrow> mgr" where
  "ensureUploadingBatch cid s =
     (if batch_uploading s then s
      else let (s1, i) = new_id cid s in
        s1\<lparr>batch := Some \<lparr>b_id = i, b_status = BatchUploading, b_folderId = None, b_items = items s\<rparr>\<rparr>)"

definition clamp99 :: "rat \<Rightarrow> rat" where "clamp99 x = min 99 (max 0 x)"

definition mapConversionProgressToOverallPercent :: "rat \<Rightarrow> rat" where
  "mapConversionProgressToOverallPercent c = min 99 (40 + js_round (min 100 (max 0 c) / 100 * 60))"

text \<open>The dash of the label is its UTF-8 bytes.\<close>

definition rebuild_prefix :: string where
  "rebuild_prefix = ''Rebuild stream '' @ [CHR 0xE2, CHR 0x80, CHR 0x94]"

definition job_file_name :: "string \<Rightarrow> string" where
  "job_file_name label =
     (let stripped = (if js_starts_with rebuild_prefix label
                      then dropWhile is_ws (drop (length rebuild_prefix) label) else label)
      in if js_starts_with ''Rebuild stream'' label \<and> stripped \<noteq> [] then stripped else label)"

definition job_item :: "string \<Rightarrow> backgroundJob \<Rightarrow> uploadItem" where
  "job_item i j =
     (let isRe = js_starts_with ''Rebuild stream'' (j_label j); raw = clamp99 (j_progress j) in
      (base_item i)\<lparr>fileName := job_file_name (j_label j), mimeType := ''video/'', status := Uploading,
        progress := (if isRe then raw else mapConversionProgressToOverallPercent raw),
        phase := Post Processing, uploadedFileId := resource_id j, indeterminate := raw \<le> 0, isReprocess := isRe\<rparr>)"

definition reprocess_item :: "string \<Rightarrow> fileItem \<Rightarrow> uploadItem" where
  "reprocess_item i f =
     (let raw = clamp99 (case conversion_progress f of Some c \<Rightarrow> c | None \<Rightarrow> 0) in
      (base_item i)\<lparr>fileName := fi_name f, fileSize := size_bytes f,
        mimeType := (case mime_type f of Some m \<Rightarrow> m | None \<Rightarrow> ''video/''), status := Uploading,
        progress := raw, phase := Post Processing, uploadedFileId := Some (fi_id f), indeterminate := raw \<le> 0,
        isReprocess := True\<rparr>)"

definition already_tracked :: "string \<Rightarrow> mgr \<Rightarrow> bool" where
  "already_tracked fileId s \<longleftrightarrow> (\<exists>it \<in> set (items s). uploadedFileId it = Some fileId \<and>
     (status it = Uploading \<or> status it = Queued))"

text \<open>Appending the rows that are not tracked yet; the number is \<open>added\<close>.\<close>

fun track_rows ::
  "(nat \<Rightarrow> string) \<Rightarrow> ('a \<Rightarrow> string) \<Rightarrow> (string \<Rightarrow> 'a \<Rightarrow> uploadItem) \<Rightarrow> 'a list \<Rightarrow> mgr \<Rightarrow> nat \<Rightarrow> mgr \<times> nat" where
  "track_rows cid key mk [] s added = (s, added)"
| "track_rows cid key mk (x # xs) s added =
     (if already_tracked (key x) s then track_rows cid key mk xs s added
      else let (s1, i) = new_id cid s in
        track_rows cid key mk xs (set_items (items s1 @ [mk i x]) s1) (added + 1))"

definition finish_tracking :: "mgr \<times> nat \<Rightarrow> mgr" where
  "finish_tracking r = (if snd r = 0 then fst r
     else pumpProcessingQueue (emitBatch (set_batch_status BatchUploading (fst r))))"

definition trackHlsReprocessFiles :: "(nat \<Rightarrow> string) \<Rightarrow> fileItem list \<Rightarrow> mgr \<Rightarrow> mgr" where
  "trackHlsReprocessFiles cid files s =
     (if files = [] then s
      else finish_tracking (track_rows cid fi_id reprocess_item files (ensureUploadingBatch cid s) 0))"

definition active_jobs :: "backgroundJob list \<Rightarrow> backgroundJob list" where
  "active_jobs = filter (\<lambda>j. j_kind j = ''hls_encode'' \<and> (j_status j = ''queued'' \<or> j_status j = ''running'') \<and>
     truthy (resource_id j))"

definition job_file :: "backgroundJob \<Rightarrow> string" where
  "job_file j = (case resource_id j of Some r \<Rightarrow> r | None \<Rightarrow> [])"

definition trackActiveHlsEncodeJobs :: "(nat \<Rightarrow> string) \<Rightarrow> backgroundJob list \<Rightarrow> mgr \<Rightarrow> mgr" where
  "trackActiveHlsEncodeJobs cid jobs s =
     (if active_jobs jobs = [] then s
      else finish_tracking (track_rows cid job_file job_item (active_jobs jobs) (ensureUploadingBatch cid s) 0))"

section \<open>Restoring after a reload\<close>

fun job_items :: "(nat \<Rightarrow> string) \<Rightarrow> backgroundJob list \<Rightarrow> mgr \<Rightarrow> mgr \<times> uploadItem list" where
  "job_items cid [] s = (s, [])"
| "job_items cid (j # js) s =
     (let (s1, i) = new_id cid s; (s2, its) = job_items cid js s1 in (s2, job_item i j # its))"

text \<open>The part of \<open>restoreFromActiveBackgroundJobs\<close> after the list of jobs has arrived.\<close>

definition restoreFromActiveBackgroundJobs :: "(nat \<Rightarrow> string) \<Rightarrow> backgroundJob list \<Rightarrow> mgr \<Rightarrow> mgr" where
  "restoreFromActiveBackgroundJobs cid jobs s =
     (if active_jobs jobs = [] then s
      else let (s1, bi) = new_id cid s; (s2, its) = job_items cid (active_jobs jobs) s1 in
        pumpProcessingQueue (emitBatch (s2\<lparr>batch := Some \<lparr>b_id = bi, b_status = BatchUploading,
          b_folderId = None, b_items = its\<rparr>\<rparr>)))"

definition restoreUploadBatchFromStorage :: "mgr \<Rightarrow> mgr" where
  "restoreUploadBatchFromStorage s =
     (if batch s \<noteq> None \<or> restoreStarted s then s
      else let s1 = s\<lparr>restoreStarted := True\<rparr> in
        case storage s1 of
          NoEntry \<Rightarrow> add_task RestoreJobsTask s1
        | BadJson \<Rightarrow> s1\<lparr>storage := NoEntry\<rparr>
        | Stored p \<Rightarrow>
            if p_items p = [] then s1\<lparr>storage := NoEntry\<rparr>
            else let s2 = emitBatch (s1\<lparr>batch := Some \<lparr>b_id = p_id p, b_status = p_status p, b_folderId = p_folderId p,
                   b_items = (if p_status p = BatchComplete then map internalFromPersisted (p_items p)
                              else reconcileRestoredItems (p_items p))\<rparr>\<rparr>)
              in if p_status p = BatchComplete then s2 else maybeCompleteBatch (pumpProcessingQueue s2))"

section \<open>Derived views\<close>

definition getUploadManagedIngestFileIds :: "mgr \<Rightarrow> string list" where
  "getUploadManagedIngestFileIds s =
     fold (\<lambda>it ids. if status it = Uploading \<and> truthy (uploadedFileId it)
                    then jset_add (the (uploadedFileId it)) ids else ids) (items s) []"

record displayCounts =
  c_total :: int
  c_inFlight :: int
  c_waiting :: int
  c_uploadingBytes :: int
  c_processing :: int
  c_encrypting :: int
  c_storing :: int
  c_done :: int
  c_failed :: int
  c_cancelled :: int

definition count_item :: "itemSnapshot \<Rightarrow> displayCounts \<Rightarrow> displayCounts" where
  "count_item it c =
     (case sn_displayBucket it of
        BDone \<Rightarrow> c\<lparr>c_done := c_done c + 1\<rparr>
      | BError \<Rightarrow> c\<lparr>c_failed := c_failed c + 1\<rparr>
      | BCancelled \<Rightarrow> c\<lparr>c_cancelled := c_cancelled c + 1\<rparr>
      | BQueued \<Rightarrow> c\<lparr>c_waiting := c_waiting c + 1\<rparr>
      | InFlight \<Rightarrow> (let d = c\<lparr>c_inFlight := c_inFlight c + 1\<rparr> in
          (case sn_phase it of
             Post Encrypting \<Rightarrow> d\<lparr>c_encrypting := c_encrypting d + 1\<rparr>
           | Post Storing \<Rightarrow> d\<lparr>c_storing := c_storing d + 1\<rparr>
           | Post Processing \<Rightarrow> d\<lparr>c_processing := c_processing d + 1\<rparr>
           | PhUploading \<Rightarrow> d\<lparr>c_uploadingBytes := c_uploadingBytes d + 1\<rparr>)))"

definition getUploadBatchDisplayCounts :: "itemSnapshot list \<Rightarrow> displayCounts" where
  "getUploadBatchDisplayCounts its = fold count_item its
     \<lparr>c_total = int (length its), c_inFlight = 0, c_waiting = 0, c_uploadingBytes = 0, c_processing = 0,
      c_encrypting = 0, c_storing = 0, c_done = 0, c_failed = 0, c_cancelled = 0\<rparr>"

definition item_percent :: "itemSnapshot \<Rightarrow> rat" where
  "item_percent it =
     (case sn_displayBucket it of BDone \<Rightarrow> 100 | BError \<Rightarrow> 100 | BCancelled \<Rightarrow> 100 | BQueued \<Rightarrow> 0
      | InFlight \<Rightarrow> clamp99 (sn_progress it))"

definition getUploadBatchOverallPercent :: "itemSnapshot list \<Rightarrow> rat" where
  "getUploadBatchOverallPercent its =
     (if its = [] then 0 else js_round (sum_list (map item_percent its) / of_nat (length its)))"

section \<open>Events\<close>

datatype action =
    StartBatch "uploadBatchEntry list" "string option"
  | SetBatchPaused bool | SetItemPaused string bool
  | CancelItem string | CancelAll | CancelAllReprocessNow
  | RemoveItem string | Dismiss | ClearCancelled
  | RetryItem string | RetryFailed | Reattach string upfile
  | TrackReprocess "fileItem list" | TrackJobs "backgroundJob list" | Restore
  \<comment> \<open>another tab of the same browser writes localStorage\<close>
  | StorageChanged storage_entry
  \<comment> \<open>continuations\<close>
  | PumpWoken int "partSample list"
  | UploadStarts uploadItem nat "string option" int
  | RetryWoken uploadItem nat int
  | UploadFinished
  | ProgressGranted string progressUpdate nat
  | IngestGranted string string nat
  | JobsListed "backgroundJob list option"
  | ReprocessCancelDone bool bool
  | CancelRest
  \<comment> \<open>callbacks and results of the API client\<close>
  | ProgressReported string progressUpdate
  | SessionReady string string
  | PartTransport string string
  | BytesComplete string
  | ServerRegistered uploadItem nat fileItem
  | StageAcquired string stage | StagesReleased string
  | UploadSettled uploadItem nat "string option" "uploadError + fileItem option"
  | IngestPolled fileItem
  | IngestSettled string string "(bool \<times> string) + fileItem"

definition drop_task :: "task \<Rightarrow> mgr \<Rightarrow> mgr" where
  "drop_task t s = s\<lparr>tasks := remove1 t (tasks s)\<rparr>"

fun handle :: "(nat \<Rightarrow> string) \<Rightarrow> mgr \<Rightarrow> int \<times> action \<Rightarrow> mgr" where
  "handle cid s (now, StartBatch ens d) = startUploadBatch cid now ens d s"
| "handle cid s (now, SetBatchPaused p) = setUploadBatchPaused now p s"
| "handle cid s (now, SetItemPaused i p) = setUploadItemPaused now i p s"
| "handle cid s (now, CancelItem i) = cancelUploadItem now i s"
| "handle cid s (now, CancelAll) = cancelAllUploadItems now s"
| "handle cid s (now, CancelAllReprocessNow) = cancelAllPendingHlsReprocess False s"
| "handle cid s (now, RemoveItem i) = removeUploadBatchItem now i s"
| "handle cid s (now, Dismiss) = dismissUploadBatch s"
| "handle cid s (now, ClearCancelled) = clearCancelledHlsReprocessItems s"
| "handle cid s (now, RetryItem i) = fst (retryUploadItem now i s)"
| "handle cid s (now, RetryFailed) = fst (retryFailedUploadItems now s)"
| "handle cid s (now, Reattach i f) = fst (reattachUploadFile now i f s)"
| "handle cid s (now, TrackReprocess fs) = trackHlsReprocessFiles cid fs s"
| "handle cid s (now, TrackJobs js) = trackActiveHlsEncodeJobs cid js s"
| "handle cid s (now, Restore) = restoreUploadBatchFromStorage s"
| "handle cid s (now, StorageChanged e) = s\<lparr>storage := e\<rparr>"
| "handle cid s (now, PumpWoken t samples) = pump_woken now samples (drop_task (PumpTask t) s)"
| "handle cid s (now, UploadStarts c n d t) =
     add_task (SendTask c n None) (say [StartUpload (it_id c) (the (localFile c)) d (it_contentHash c)
       (resumableServerSessionId c)] (drop_task (StartTask c n d t) s))"
| "handle cid s (now, RetryWoken c n t) = retry_woken now c n (drop_task (RetryTask c n t) s)"
| "handle cid s (now, UploadFinished) = upload_finished now (drop_task FinishTask s)"
| "handle cid s (now, ProgressGranted i u k) = finish_progress i u (drop_task (ProgressTask i u k) s)"
| "handle cid s (now, IngestGranted i f k) =
     add_task (IngestPoll i f) (say [StartPoll f] (drop_task (IngestWait i f k) s))"
| "handle cid s (now, JobsListed r) =
     (case r of None \<Rightarrow> drop_task RestoreJobsTask s
      | Some js \<Rightarrow> restoreFromActiveBackgroundJobs cid js (drop_task RestoreJobsTask s))"
| "handle cid s (now, ReprocessCancelDone follow ok) = reprocess_cancelled follow ok (drop_task (ReprocessCancelTask follow) s)"
| "handle cid s (now, CancelRest) = cancel_rest now (drop_task CancelRestTask s)"
| "handle cid s (now, ProgressReported i u) = applyPipelinedProgress i u s"
| "handle cid s (now, SessionReady i sid) = updateItem i (\<lambda>it. it\<lparr>resumableServerSessionId := Some sid\<rparr>) s"
| "handle cid s (now, PartTransport i tr) = updateItem i (\<lambda>it. it\<lparr>partTransport := Some tr\<rparr>) s"
| "handle cid s (now, BytesComplete i) = releaseUploadByteSlot now i s"
| "handle cid s (now, ServerRegistered c n f) =
     registerUploadServerFile (it_id c) f (add_task (SendTask c n (Some (fi_id f))) (drop_task (SendTask c n None) s))"
| "handle cid s (now, StageAcquired i st) = fst (acquire_stage i st s)"
| "handle cid s (now, StagesReleased i) = release_stages i s"
| "handle cid s (now, UploadSettled c n reg r) = upload_settled now c n r (drop_task (SendTask c n reg) s)"
| "handle cid s (now, IngestPolled f) = say [IngestProgress f] s"
| "handle cid s (now, IngestSettled i f r) = ingest_settled i r (drop_task (IngestPoll i f) s)"

text \<open>
  When an event can happen. A continuation needs its task, and the time or the promise it
  waits for. The API client calls back only for a request that is running, registers the
  server's file at most once, succeeds only with that file, and after registering it fails
  only when the upload was cancelled. File ids are not empty.
\<close>

definition sending :: "string \<Rightarrow> mgr \<Rightarrow> bool" where
  "sending i s \<longleftrightarrow> (\<exists>t \<in> set (tasks s). case t of SendTask c n r \<Rightarrow> it_id c = i | _ \<Rightarrow> False)"

fun can_settle :: "string option \<Rightarrow> uploadError + fileItem option \<Rightarrow> bool" where
  "can_settle None (Inl e) = True"
| "can_settle None (Inr r) = False"
| "can_settle (Some f) (Inl e) = is_cancelled_error e"
| "can_settle (Some f) (Inr None) = False"
| "can_settle (Some f) (Inr (Some file)) = (fi_id file = f)"

text \<open>
  What localStorage holds when a page restores from it was written by another page, whose
  row ids are different from this page's; the rows of a complete batch and the rows that
  wait for their file to be selected again are finished.
\<close>

definition stored_ok :: "(nat \<Rightarrow> string) \<Rightarrow> storage_entry \<Rightarrow> bool" where
  "stored_ok cid e = (case e of
       Stored p \<Rightarrow> distinct (map sn_id (p_items p)) \<and> sn_id ` set (p_items p) \<inter> range cid = {} \<and>
         (\<forall>sn \<in> set (p_items p). p_status p = BatchComplete \<or> sn_needsFileReselect sn \<longrightarrow>
            isTerminalStatus (sn_status sn))
     | _ \<Rightarrow> True)"

fun enabled :: "(nat \<Rightarrow> string) \<Rightarrow> mgr \<Rightarrow> int \<times> action \<Rightarrow> bool" where
  "enabled cid s (now, PumpWoken t samples) = (PumpTask t \<in> set (tasks s) \<and> t \<le> now)"
| "enabled cid s (now, UploadStarts c n d t) = (StartTask c n d t \<in> set (tasks s) \<and> t \<le> now)"
| "enabled cid s (now, RetryWoken c n t) = (RetryTask c n t \<in> set (tasks s) \<and> t \<le> now)"
| "enabled cid s (now, UploadFinished) = (FinishTask \<in> set (tasks s))"
| "enabled cid s (now, ProgressGranted i u k) = (ProgressTask i u k \<in> set (tasks s) \<and> k \<in> set (settled (pipe s)))"
| "enabled cid s (now, IngestGranted i f k) = (IngestWait i f k \<in> set (tasks s) \<and> k \<in> set (settled (pipe s)))"
| "enabled cid s (now, JobsListed r) = (RestoreJobsTask \<in> set (tasks s))"
| "enabled cid s (now, ReprocessCancelDone follow ok) = (ReprocessCancelTask follow \<in> set (tasks s))"
| "enabled cid s (now, CancelRest) = (CancelRestTask \<in> set (tasks s))"
| "enabled cid s (now, SessionReady i sid) = sending i s"
| "enabled cid s (now, PartTransport i tr) = sending i s"
| "enabled cid s (now, BytesComplete i) = sending i s"
| "enabled cid s (now, ServerRegistered c n f) = (SendTask c n None \<in> set (tasks s) \<and> fi_id f \<noteq> [])"
| "enabled cid s (now, StageAcquired i st) = sending i s"
| "enabled cid s (now, StagesReleased i) = sending i s"
| "enabled cid s (now, UploadSettled c n reg r) = (SendTask c n reg \<in> set (tasks s) \<and> can_settle reg r)"
| "enabled cid s (now, IngestSettled i f r) =
     (IngestPoll i f \<in> set (tasks s) \<and> (case r of Inr file \<Rightarrow> fi_id file = f \<and> f \<noteq> [] | Inl _ \<Rightarrow> True))"
| "enabled cid s (now, TrackReprocess fs) = (\<forall>f \<in> set fs. fi_id f \<noteq> [])"
| "enabled cid s (now, Restore) = stored_ok cid (storage s)"
| "enabled cid s (now, _) = True"

abbreviation mgr_reach :: "(nat \<Rightarrow> string) \<Rightarrow> storage_entry \<Rightarrow> mgr \<Rightarrow> bool" where
  "mgr_reach cid stored s \<equiv> reach (enabled cid) (handle cid) (init_mgr stored) s"

end
