(* ===== verification/UploadProps.thy ===== *)
theory UploadProps
  imports UploadManager
begin

text \<open>
  What the upload manager keeps true in every reachable state: the ids of the rows are
  distinct, a row with an upload attempt is uploading and has no server file yet, a row with an
  ingest worker has one, and a complete batch has only finished rows. From these follow the
  properties of the panel's operations.
\<close>

section \<open>Upload tasks\<close>

fun is_upload :: "task \<Rightarrow> bool" where
  "is_upload (StartTask c n d t) = True"
| "is_upload (SendTask c n r) = True"
| "is_upload (RetryTask c n t) = True"
| "is_upload _ = False"

fun task_id :: "task \<Rightarrow> string option" where
  "task_id (StartTask c n d t) = Some (it_id c)"
| "task_id (SendTask c n r) = Some (it_id c)"
| "task_id (RetryTask c n t) = Some (it_id c)"
| "task_id (IngestWait i f k) = Some i"
| "task_id (IngestPoll i f) = Some i"
| "task_id _ = None"

definition upload_ids :: "task list \<Rightarrow> string option list" where
  "upload_ids T = map task_id (filter is_upload T)"

text \<open>What the row of a task looks like: before the server has registered the file, after, and
  while an ingest worker exists.\<close>

definition unregistered_row :: "uploadItem \<Rightarrow> bool" where
  "unregistered_row it \<longleftrightarrow> status it = Uploading \<and> \<not> isReprocess it \<and> \<not> needsFileReselect it \<and>
     \<not> truthy (uploadedFileId it)"

definition registered_row :: "uploadItem \<Rightarrow> bool" where
  "registered_row it \<longleftrightarrow> \<not> isReprocess it \<and> \<not> needsFileReselect it \<and>
     (status it = Uploading \<or> (status it \<noteq> Queued \<and> localFile it = None))"

definition ingest_row :: "uploadItem \<Rightarrow> bool" where
  "ingest_row it \<longleftrightarrow> truthy (uploadedFileId it) \<and> localFile it = None \<and> \<not> needsFileReselect it \<and> status it \<noteq> Queued"

fun task_row_ok :: "task \<Rightarrow> uploadItem \<Rightarrow> bool" where
  "task_row_ok (StartTask c n d t) it = (it_id c = it_id it \<longrightarrow> unregistered_row it)"
| "task_row_ok (RetryTask c n t) it = (it_id c = it_id it \<longrightarrow> unregistered_row it)"
| "task_row_ok (SendTask c n None) it = (it_id c = it_id it \<longrightarrow> unregistered_row it)"
| "task_row_ok (SendTask c n (Some f)) it = (it_id c = it_id it \<longrightarrow> registered_row it)"
| "task_row_ok (IngestWait i f k) it = (i = it_id it \<longrightarrow> ingest_row it)"
| "task_row_ok (IngestPoll i f) it = (i = it_id it \<longrightarrow> ingest_row it)"
| "task_row_ok _ it = True"

definition self_ok :: "uploadItem \<Rightarrow> bool" where
  "self_ok it \<longleftrightarrow> (status it = Queued \<longrightarrow> \<not> truthy (uploadedFileId it) \<and> localFile it \<noteq> None \<and> \<not> needsFileReselect it) \<and>
     (needsFileReselect it \<longrightarrow> isTerminalStatus (status it)) \<and>
     (needsFileReselect it \<or> status it = Queued \<longrightarrow> \<not> isReprocess it) \<and>
     (isReprocess it \<longrightarrow> localFile it = None)"

definition id_ok :: "(nat \<Rightarrow> string) \<Rightarrow> nat \<Rightarrow> bool \<Rightarrow> string \<Rightarrow> bool" where
  "id_ok cid n r i \<longleftrightarrow> (\<forall>m \<ge> n. i \<noteq> cid m) \<and> (\<not> r \<longrightarrow> i \<in> range cid)"

definition rows_of :: "uploadBatch option \<Rightarrow> uploadItem list" where
  "rows_of b = (case b of None \<Rightarrow> [] | Some bb \<Rightarrow> b_items bb)"

definition complete :: "uploadBatch option \<Rightarrow> bool" where
  "complete b = (case b of None \<Rightarrow> False | Some bb \<Rightarrow> b_status bb = BatchComplete)"

definition core_inv :: "(nat \<Rightarrow> string) \<Rightarrow> uploadBatch option \<Rightarrow> task list \<Rightarrow> nat \<Rightarrow> bool \<Rightarrow> bool" where
  "core_inv cid b T n r \<longleftrightarrow>
     (\<forall>it \<in> set (rows_of b). self_ok it \<and> (\<forall>t \<in> set T. task_row_ok t it) \<and> id_ok cid n r (it_id it) \<and>
        (complete b \<longrightarrow> isTerminalStatus (status it))) \<and>
     distinct (map it_id (rows_of b)) \<and> distinct (upload_ids T) \<and>
     (\<forall>t \<in> set T. \<forall>i. task_id t = Some i \<longrightarrow> id_ok cid n r i)"

abbreviation J :: "(nat \<Rightarrow> string) \<Rightarrow> mgr \<Rightarrow> bool" where
  "J cid s \<equiv> core_inv cid (batch s) (tasks s) (idCount s) (restoreStarted s)"

lemma items_rows_of: "items s = rows_of (batch s)"
  by (simp add: items_def rows_of_def)

lemma J_rowD:
  assumes "J cid s" and "it \<in> set (items s)"
  shows "self_ok it" and "t \<in> set (tasks s) \<Longrightarrow> task_row_ok t it" and "id_ok cid (idCount s) (restoreStarted s) (it_id it)"
    and "complete (batch s) \<Longrightarrow> isTerminalStatus (status it)"
  using assms by (auto simp: core_inv_def items_rows_of)

lemma J_distinct: "J cid s \<Longrightarrow> distinct (map it_id (items s))"
  by (simp add: core_inv_def items_rows_of)

lemma find_item_SomeD: "find_item i s = Some it \<Longrightarrow> it \<in> set (items s) \<and> it_id it = i"
  by (auto simp: find_item_def dest: find_SomeD)

lemma rows_of_simps [simp]: "rows_of None = []" "rows_of (Some bb) = b_items bb"
  by (simp_all add: rows_of_def)

lemma complete_simps [simp]: "\<not> complete None" "complete (Some bb) = (b_status bb = BatchComplete)"
  by (simp_all add: complete_def)

lemma batch_uploading_not_complete: "batch_uploading s \<Longrightarrow> \<not> complete (batch s)"
  by (simp add: batch_uploading_def complete_def split: option.splits)

text \<open>Updating rows.\<close>

lemma J_map:
  assumes J: "J cid s"
    and f: "\<And>it. it \<in> set (items s) \<Longrightarrow> it_id (f it) = it_id it \<and> self_ok (f it) \<and>
         (\<forall>t \<in> set (tasks s). task_row_ok t (f it)) \<and> (complete (batch s) \<longrightarrow> isTerminalStatus (status (f it)))"
  shows "J cid (updateItems (map f) s)"
proof (cases "batch s")
  case None
  with J show ?thesis by (simp add: updateItems_def)
next
  case (Some bb)
  have "map (it_id \<circ> f) (b_items bb) = map it_id (b_items bb)"
    using f Some by (auto simp: items_def)
  then have m: "distinct (map (it_id \<circ> f) (b_items bb))"
    using J_distinct[OF J] Some by (simp only: items_def option.case)
  have "it_id (f it) = it_id it \<and> self_ok (f it) \<and> (\<forall>t \<in> set (tasks s). task_row_ok t (f it)) \<and>
      (complete (batch s) \<longrightarrow> isTerminalStatus (status (f it)))" if "it \<in> set (b_items bb)" for it
    using f[of it] that Some by (simp add: items_def)
  moreover have "id_ok cid (idCount s) (restoreStarted s) (it_id it)" if "it \<in> set (b_items bb)" for it
    using J_rowD(3)[OF J, of it] that Some by (simp add: items_def)
  ultimately show ?thesis
    using J Some m by (simp add: updateItems_def core_inv_def)
qed

lemma J_update:
  assumes "J cid s"
    and "\<And>it. it \<in> set (items s) \<Longrightarrow> it_id it = i \<Longrightarrow> it_id (f it) = it_id it \<and> self_ok (f it) \<and>
         (\<forall>t \<in> set (tasks s). task_row_ok t (f it)) \<and> (complete (batch s) \<longrightarrow> isTerminalStatus (status (f it)))"
  shows "J cid (updateItem i f s)"
  unfolding updateItem_def map_item_def
  by (rule J_map[OF assms(1)]) (use assms(2) J_rowD[OF assms(1)] in auto)

definition neutral :: "(uploadItem \<Rightarrow> uploadItem) \<Rightarrow> bool" where
  "neutral f \<longleftrightarrow> (\<forall>it. it_id (f it) = it_id it \<and> status (f it) = status it \<and> localFile (f it) = localFile it \<and>
     uploadedFileId (f it) = uploadedFileId it \<and> needsFileReselect (f it) = needsFileReselect it \<and>
     isReprocess (f it) = isReprocess it)"

lemma neutral_rows:
  assumes "neutral f"
  shows "self_ok (f it) = self_ok it" and "task_row_ok t (f it) = task_row_ok t it"
  using assms
  by (simp_all add: neutral_def self_ok_def)
    (cases t rule: is_upload.cases; auto simp: unregistered_row_def registered_row_def ingest_row_def
       elim!: task_row_ok.elims split: option.splits)

lemma J_neutral: "J cid s \<Longrightarrow> neutral f \<Longrightarrow> J cid (updateItem i f s)"
  by (rule J_update) (auto simp: neutral_rows dest: J_rowD, auto simp: neutral_def dest: J_rowD)

text \<open>Adding and dropping tasks.\<close>

lemma upload_ids_simps [simp]:
  "upload_ids (T @ [t]) = upload_ids T @ (if is_upload t then [task_id t] else [])"
  "upload_ids [] = []"
  by (simp_all add: upload_ids_def)

lemma J_add_task:
  assumes "J cid s" and "\<And>it. it \<in> set (items s) \<Longrightarrow> task_row_ok t it"
    and "is_upload t \<Longrightarrow> task_id t \<notin> set (upload_ids (tasks s))"
    and "\<And>i. task_id t = Some i \<Longrightarrow> id_ok cid (idCount s) (restoreStarted s) i"
  shows "J cid (add_task t s)"
  using assms by (auto simp: core_inv_def items_rows_of)

lemma J_plain_task: "J cid s \<Longrightarrow> task_id t = None \<Longrightarrow> J cid (add_task t s)"
  by (rule J_add_task) (cases t; auto)+

lemma upload_ids_remove1: "distinct (upload_ids T) \<Longrightarrow> distinct (upload_ids (remove1 t T))"
  unfolding upload_ids_def
  by (metis distinct_map distinct_remove1 filter_remove1 inj_on_subset notin_set_remove1 subsetI)

lemma drop_task_simps [simp]:
  "batch (drop_task t s) = batch s" "restoreStarted (drop_task t s) = restoreStarted s"
  "resumingItemIds (drop_task t s) = resumingItemIds s" "abortedUploadItemIds (drop_task t s) = abortedUploadItemIds s"
  "uploadPumpPausedUntil (drop_task t s) = uploadPumpPausedUntil s" "userUploadPaused (drop_task t s) = userUploadPaused s"
  "pipe (drop_task t s) = pipe s" "tasks (drop_task t s) = remove1 t (tasks s)" "idCount (drop_task t s) = idCount s"
  "effects (drop_task t s) = effects s" "storage (drop_task t s) = storage s"
  by (simp_all add: drop_task_def)

lemma J_drop_task: "J cid s \<Longrightarrow> J cid (drop_task t s)"
  by (auto simp: core_inv_def upload_ids_remove1 dest: notin_set_remove1)

lemma dropped_upload:
  assumes "J cid s" and "t \<in> set (tasks s)" and "is_upload t"
  shows "task_id t \<notin> set (upload_ids (remove1 t (tasks s)))"
proof -
  have d: "distinct (map task_id (filter is_upload (tasks s)))" using assms(1) by (simp add: core_inv_def upload_ids_def)
  have "t \<in> set (filter is_upload (tasks s))" using assms(2,3) by simp
  then obtain xs ys where xs: "filter is_upload (tasks s) = xs @ t # ys" "t \<notin> set xs" by (metis split_list_first)
  have "filter is_upload (remove1 t (tasks s)) = xs @ ys"
    using xs assms(3) by (simp add: filter_remove1 remove1_append)
  then show ?thesis using d xs by (auto simp: upload_ids_def)
qed

text \<open>Sub-batches of rows, and the batch status.\<close>

lemma J_subset:
  assumes "J cid s" and "set its \<subseteq> set (items s)" and "distinct (map it_id its)"
  shows "J cid (set_items its s)"
  using assms by (cases "batch s") (auto simp: core_inv_def items_rows_of set_items_def dest!: subsetD)

lemma J_no_batch: "J cid s \<Longrightarrow> core_inv cid None (tasks s) (idCount s) (restoreStarted s)"
  by (simp add: core_inv_def)

lemma J_maybeComplete: "J cid s \<Longrightarrow> J cid (maybeCompleteBatch s)"
  by (cases "batch s") (auto simp: maybeCompleteBatch_def set_batch_status_def core_inv_def items_def)

lemma J_reopen: "J cid s \<Longrightarrow> J cid (set_batch_status BatchUploading s)"
  by (cases "batch s") (auto simp: set_batch_status_def core_inv_def)

section \<open>Every operation keeps the invariant\<close>

lemma acquire_stage_frame:
  assumes "acquire_stage i st s = (s2, k)"
  shows "batch s2 = batch s" "tasks s2 = tasks s" "idCount s2 = idCount s" "restoreStarted s2 = restoreStarted s"
    "resumingItemIds s2 = resumingItemIds s" "userUploadPaused s2 = userUploadPaused s" "effects s2 = effects s"
    "abortedUploadItemIds s2 = abortedUploadItemIds s"
  using acquire_stage_simps[of i st s] assms by simp_all

lemma J_emit [simp]: "J cid (emitBatch s) = J cid s"
  by simp

lemma J_pump: "J cid s \<Longrightarrow> J cid (pumpUploadQueue now s)"
  by (simp add: pumpUploadQueue_def J_plain_task del: add_task_simps)

lemma J_resume:
  assumes J: "J cid s" and it: "it \<in> set (items s)" and ir: "ingest_row it"
  shows "J cid (resumeUploadItemProcessing it s)"
proof (cases "batch s = None \<or> \<not> truthy (uploadedFileId it) \<or> it_id it \<in> set (resumingItemIds s)")
  case False
  let ?s1 = "emitBatch (s\<lparr>resumingItemIds := jset_add (it_id it) (resumingItemIds s)\<rparr>)"
  obtain s2 k where a: "acquire_stage (it_id it) Processing ?s1 = (s2, k)" by (cases "acquire_stage (it_id it) Processing ?s1")
  note fr = acquire_stage_frame[OF a]
  have "J cid (add_task (IngestWait (it_id it) (the (uploadedFileId it)) k) s2)"
  proof (rule J_add_task)
    show "J cid s2" using J fr by simp
    fix it' assume "it' \<in> set (items s2)"
    then have "it' \<in> set (items s)" using fr by (simp add: items_def)
    then show "task_row_ok (IngestWait (it_id it) (the (uploadedFileId it)) k) it'"
      using ir it J_distinct[OF J] by (auto simp: distinct_map dest: inj_onD)
  next
    fix i assume "task_id (IngestWait (it_id it) (the (uploadedFileId it)) k) = Some i"
    then show "id_ok cid (idCount s2) (restoreStarted s2) i"
      using J_rowD(3)[OF J it] fr by simp
  qed simp
  with False show ?thesis by (auto simp: resumeUploadItemProcessing_def Let_def a)
next
  case True
  with J show ?thesis by (auto simp: resumeUploadItemProcessing_def)
qed

lemma resume_frame [simp]:
  "batch (resumeUploadItemProcessing it s) = batch s" "idCount (resumeUploadItemProcessing it s) = idCount s"
  "restoreStarted (resumeUploadItemProcessing it s) = restoreStarted s"
  "userUploadPaused (resumeUploadItemProcessing it s) = userUploadPaused s"
  "effects (resumeUploadItemProcessing it s) = effects s"
  "abortedUploadItemIds (resumeUploadItemProcessing it s) = abortedUploadItemIds s"
  by (auto simp: resumeUploadItemProcessing_def Let_def acquire_stage_frame split: prod.split)

lemma processing_loop_frame [simp]:
  "batch (processing_loop its s) = batch s" "idCount (processing_loop its s) = idCount s"
  "restoreStarted (processing_loop its s) = restoreStarted s"
  "userUploadPaused (processing_loop its s) = userUploadPaused s" "effects (processing_loop its s) = effects s"
  "abortedUploadItemIds (processing_loop its s) = abortedUploadItemIds s"
  by (induction its s rule: processing_loop.induct) auto

lemma pumpProcessing_frame [simp]:
  "batch (pumpProcessingQueue s) = batch s" "idCount (pumpProcessingQueue s) = idCount s"
  "restoreStarted (pumpProcessingQueue s) = restoreStarted s"
  "userUploadPaused (pumpProcessingQueue s) = userUploadPaused s" "effects (pumpProcessingQueue s) = effects s"
  "abortedUploadItemIds (pumpProcessingQueue s) = abortedUploadItemIds s"
  by (simp_all add: pumpProcessingQueue_def)

lemma pump_frame [simp]:
  "batch (pumpUploadQueue now s) = batch s" "idCount (pumpUploadQueue now s) = idCount s"
  "restoreStarted (pumpUploadQueue now s) = restoreStarted s"
  "userUploadPaused (pumpUploadQueue now s) = userUploadPaused s" "effects (pumpUploadQueue now s) = effects s"
  "resumingItemIds (pumpUploadQueue now s) = resumingItemIds s"
  "abortedUploadItemIds (pumpUploadQueue now s) = abortedUploadItemIds s"
  by (simp_all add: pumpUploadQueue_def)

lemma items_frame [simp]:
  "items (emitBatch s) = items s" "items (add_task t s) = items s" "items (drop_task t s) = items s"
  "items (say es s) = items s" "items (release_stages i s) = items s" "items (pumpUploadQueue now s) = items s"
  "items (pumpProcessingQueue s) = items s" "items (processing_loop its s) = items s"
  "items (resumeUploadItemProcessing it s) = items s"
  by (simp_all add: items_def)

lemma J_processing_loop: "J cid s \<Longrightarrow> set its \<subseteq> set (items s) \<Longrightarrow> J cid (processing_loop its s)"
proof (induction its s rule: processing_loop.induct)
  case (2 it rest s)
  show ?case
  proof (cases "length (resumingItemIds s) \<ge> PIPELINE_STAGE_LIMIT \<or> status it \<noteq> Uploading \<or>
      \<not> truthy (uploadedFileId it) \<or> localFile it \<noteq> None \<or> it_id it \<in> set (resumingItemIds s)")
    case True
    with 2 show ?thesis by auto
  next
    case False
    have "self_ok it" using J_rowD(1)[OF "2.prems"(1)] "2.prems"(2) by simp
    with False have "ingest_row it" by (auto simp: ingest_row_def self_ok_def isTerminalStatus_def)
    then have "J cid (resumeUploadItemProcessing it s)" using "2.prems" by (intro J_resume) auto
    with 2 False show ?thesis by simp
  qed
qed simp

lemma J_pumpProcessing: "J cid s \<Longrightarrow> J cid (pumpProcessingQueue s)"
  by (simp add: pumpProcessingQueue_def J_processing_loop del: processing_loop_frame)

lemma not_queued_of_tasks: "is_upload t \<Longrightarrow> task_id t = Some (it_id it) \<Longrightarrow> task_row_ok t it \<Longrightarrow> status it \<noteq> Queued"
  by (cases "(t, it)" rule: task_row_ok.cases) (auto simp: unregistered_row_def registered_row_def)

lemma task_row_ok_drop_file:
  "task_row_ok t it \<Longrightarrow> status it \<noteq> Queued \<Longrightarrow> task_row_ok t (it\<lparr>localFile := None\<rparr>)"
  by (cases "(t, it)" rule: task_row_ok.cases) (auto simp: unregistered_row_def registered_row_def ingest_row_def)

lemma J_releaseByteSlot:
  assumes J: "J cid s" and nq: "\<And>it. it \<in> set (items s) \<Longrightarrow> it_id it = i \<Longrightarrow> status it \<noteq> Queued"
  shows "J cid (releaseUploadByteSlot now i s)"
proof -
  have "J cid (updateItem i (\<lambda>e. e\<lparr>localFile := None\<rparr>) s)"
  proof (rule J_update[OF J])
    fix it assume it: "it \<in> set (items s)" "it_id it = i"
    have "self_ok (it\<lparr>localFile := None\<rparr>)" using J_rowD(1)[OF J it(1)] nq[OF it] by (simp add: self_ok_def)
    moreover have "task_row_ok t (it\<lparr>localFile := None\<rparr>)" if "t \<in> set (tasks s)" for t
      using task_row_ok_drop_file[OF J_rowD(2)[OF J it(1) that] nq[OF it]] .
    ultimately show "it_id (it\<lparr>localFile := None\<rparr>) = it_id it \<and> self_ok (it\<lparr>localFile := None\<rparr>) \<and>
        (\<forall>t \<in> set (tasks s). task_row_ok t (it\<lparr>localFile := None\<rparr>)) \<and>
        (complete (batch s) \<longrightarrow> isTerminalStatus (status (it\<lparr>localFile := None\<rparr>)))"
      using J_rowD(4)[OF J it(1)] by simp
  qed
  then show ?thesis
    using J by (auto simp: releaseUploadByteSlot_def intro!: J_pumpProcessing J_pump
        split: option.splits simp del: pumpProcessing_frame pump_frame)
qed

lemma updateItem_frame [simp]:
  "tasks (updateItem i f s) = tasks s" "idCount (updateItem i f s) = idCount s"
  "restoreStarted (updateItem i f s) = restoreStarted s" "effects (updateItem i f s) = effects s"
  "resumingItemIds (updateItem i f s) = resumingItemIds s" "userUploadPaused (updateItem i f s) = userUploadPaused s"
  "abortedUploadItemIds (updateItem i f s) = abortedUploadItemIds s"
  "batch (updateItem i f s) = map_option (\<lambda>b. b\<lparr>b_items := map_item i f (b_items b)\<rparr>) (batch s)"
  "items (updateItem i f s) = map_item i f (items s)"
  by (auto simp: updateItem_def updateItems_def items_def map_item_def split: option.splits)

text \<open>Claiming a row and starting its first attempt.\<close>

lemma claimNextQueuedE:
  assumes "claimNextQueued s = (s1, Some c)"
  obtains b k where "batch s = Some b" "k < length (b_items b)" "status (b_items b ! k) = Queued" "\<not> paused (b_items b ! k)"
    "c = claim_row (b_items b ! k)" "s1 = emitBatch (s\<lparr>batch := Some (b\<lparr>b_items := (b_items b)[k := c]\<rparr>)\<rparr>)"
proof -
  from assms obtain b k where b: "batch s = Some b"
    and k: "find_index (\<lambda>it. status it = Queued \<and> \<not> paused it) (b_items b) = Some k"
    and c: "c = claim_row (b_items b ! k)" "s1 = emitBatch (s\<lparr>batch := Some (b\<lparr>b_items := (b_items b)[k := c]\<rparr>)\<rparr>)"
    by (auto simp: claimNextQueued_def Let_def claim_row_def split: option.splits)
  show ?thesis using that[OF b _ _ _ c] find_index_SomeD[OF k] by simp
qed

lemma claim_None: "claimNextQueued s = (s1, None) \<Longrightarrow> s1 = s"
  by (auto simp: claimNextQueued_def Let_def split: option.splits)

lemma id_ok_mono: "id_ok cid n r i \<Longrightarrow> n \<le> m \<Longrightarrow> id_ok cid m r i"
  by (auto simp: id_ok_def)

lemma J_claim:
  assumes J: "J cid s" and c: "claimNextQueued s = (s1, Some c)"
  shows "J cid s1" and "localFile c \<noteq> None" and "Some (it_id c) \<notin> set (upload_ids (tasks s1))"
    and "unregistered_row c" and "c \<in> set (items s1)"
proof -
  from c obtain b k where b: "batch s = Some b" "k < length (b_items b)" "status (b_items b ! k) = Queued"
    "c = claim_row (b_items b ! k)" "s1 = emitBatch (s\<lparr>batch := Some (b\<lparr>b_items := (b_items b)[k := c]\<rparr>)\<rparr>)"
    by (rule claimNextQueuedE)
  let ?q = "b_items b ! k"
  have q: "?q \<in> set (items s)" using b by (simp add: items_def)
  have so: "self_ok ?q" by (rule J_rowD(1)[OF J q])
  then show lf: "localFile c \<noteq> None" and ur: "unregistered_row c"
    using b by (auto simp: self_ok_def claim_row_def unregistered_row_def)
  show "c \<in> set (items s1)" using b by (simp add: items_def set_update_memI)
  have nt: "task_id t \<noteq> Some (it_id ?q)" if "t \<in> set (tasks s)" for t
    using J_rowD(2)[OF J q that] b(3)
    by (cases "(t, ?q)" rule: task_row_ok.cases) (auto simp: unregistered_row_def registered_row_def ingest_row_def)
  then show "Some (it_id c) \<notin> set (upload_ids (tasks s1))"
    unfolding b(4,5) by (auto simp: upload_ids_def claim_row_def) metis
  have tc: "task_row_ok t c" if "t \<in> set (tasks s)" for t
    using nt[OF that] b(4) by (cases "(t, c)" rule: task_row_ok.cases) (auto simp: claim_row_def)
  have sc: "self_ok c" using so b by (simp add: self_ok_def claim_row_def isTerminalStatus_def)
  have nc: "b_status b \<noteq> BatchComplete" using J_rowD(4)[OF J q] b by (auto simp: isTerminalStatus_def)
  have sub: "set ((b_items b)[k := c]) \<subseteq> insert c (set (items s))"
    using b set_update_subset_insert[of "b_items b" k c] by (simp add: items_def)
  have "map it_id ((b_items b)[k := c]) = map it_id (b_items b)"
    using b by (simp add: map_update claim_row_def) (metis list_update_id nth_map)
  then have "distinct (map it_id ((b_items b)[k := c]))" using J_distinct[OF J] b by (simp add: items_def)
  moreover have "self_ok it \<and> (\<forall>t \<in> set (tasks s). task_row_ok t it) \<and> id_ok cid (idCount s) (restoreStarted s) (it_id it)"
    if "it \<in> set ((b_items b)[k := c])" for it
  proof (cases "it = c")
    case True
    then show ?thesis using sc tc J_rowD(3)[OF J q] b(4) by (simp add: claim_row_def)
  next
    case False
    with that sub have "it \<in> set (items s)" by auto
    then show ?thesis using J_rowD[OF J] by blast
  qed
  ultimately show "J cid s1" using J nc b(5) by (simp add: core_inv_def)
qed

lemma J_uploadClaimed:
  assumes J: "J cid s" and n: "Some (it_id c) \<notin> set (upload_ids (tasks s))"
    and r: "\<And>it. it \<in> set (items s) \<Longrightarrow> it_id it = it_id c \<Longrightarrow> unregistered_row it"
    and i: "id_ok cid (idCount s) (restoreStarted s) (it_id c)"
  shows "J cid (uploadClaimedItem now c k s)"
proof -
  have "J cid (add_task (StartTask c k d t) s)" for d t
    by (rule J_add_task[OF J]) (use r n i in auto)
  then show ?thesis
    using J by (auto simp: uploadClaimedItem_def J_plain_task split: option.splits simp del: add_task_simps)
qed

lemma uploadClaimed_frame [simp]:
  "idCount (uploadClaimedItem now c k s) = idCount s" "restoreStarted (uploadClaimedItem now c k s) = restoreStarted s"
  "effects (uploadClaimedItem now c k s) = effects s" "userUploadPaused (uploadClaimedItem now c k s) = userUploadPaused s"
  "resumingItemIds (uploadClaimedItem now c k s) = resumingItemIds s"
  "items (uploadClaimedItem now c k s) = items s"
  by (auto simp: uploadClaimedItem_def items_def split: option.splits)

lemma J_pump_claims: "J cid s \<Longrightarrow> J cid (pump_claims now m s)"
proof (induction now m s rule: pump_claims.induct)
  case (1 now m s)
  show ?case
  proof (cases "countInFlightBrowserUploads s < m")
    case True
    obtain s1 co where c: "claimNextQueued s = (s1, co)" by (cases "claimNextQueued s")
    show ?thesis
    proof (cases co)
      case None
      then have "pump_claims now m s = s" using True c claim_None[of s s1] by (subst pump_claims.simps) simp
      then show ?thesis using 1 by simp
    next
      case (Some cl)
      with c have c': "claimNextQueued s = (s1, Some cl)" by simp
      note jc = J_claim[OF "1.prems" c']
      have r: "unregistered_row it" if "it \<in> set (items s1)" "it_id it = it_id cl" for it
        using J_distinct[OF jc(1)] jc(4,5) that by (auto simp: distinct_map dest: inj_onD)
      have "J cid (uploadClaimedItem now cl 0 s1)"
        by (rule J_uploadClaimed[OF jc(1,3) r J_rowD(3)[OF jc(1,5)]])
      moreover have "pump_claims now m s = pump_claims now m (uploadClaimedItem now cl 0 s1)"
        using c Some True by (subst pump_claims.simps) simp
      ultimately show ?thesis using 1(1)[OF True c[symmetric] Some] by simp
    qed
  next
    case False
    then have "pump_claims now m s = s" by (subst pump_claims.simps) simp
    then show ?thesis using 1 by simp
  qed
qed

lemma J_pump_woken: "J cid s \<Longrightarrow> J cid (pump_woken now samples s)"
  by (simp add: pump_woken_def J_pump_claims)

text \<open>Finishing a row.\<close>

definition finishing :: "(uploadItem \<Rightarrow> uploadItem) \<Rightarrow> bool" where
  "finishing f \<longleftrightarrow> (\<forall>it. it_id (f it) = it_id it \<and> isTerminalStatus (status (f it)) \<and> localFile (f it) = localFile it \<and>
     needsFileReselect (f it) = needsFileReselect it \<and> isReprocess (f it) = isReprocess it \<and>
     (uploadedFileId (f it) = uploadedFileId it \<or> truthy (uploadedFileId (f it))))"

lemma finishing_marks [simp]:
  "finishing (mark_failed b m)" "finishing mark_cancelled" "fi_id f \<noteq> [] \<Longrightarrow> finishing (mark_done (fi_id f))"
  by (simp_all add: finishing_def mark_failed_def mark_cancelled_def mark_done_def isTerminalStatus_def)

lemma finishingD:
  assumes "finishing f"
  shows "it_id (f it) = it_id it" and "isTerminalStatus (status (f it))" and "localFile (f it) = localFile it"
    and "needsFileReselect (f it) = needsFileReselect it" and "isReprocess (f it) = isReprocess it"
    and "uploadedFileId (f it) = uploadedFileId it \<or> truthy (uploadedFileId (f it))"
  using assms by (simp_all add: finishing_def)

lemma upload_ids_iff: "i \<in> set (upload_ids T) \<longleftrightarrow> (\<exists>t \<in> set T. is_upload t \<and> task_id t = i)"
  by (auto simp: upload_ids_def)

lemma task_row_ok_finish:
  assumes "task_row_ok t it" and "finishing f" and "status it \<noteq> Queued" and "\<not> needsFileReselect it"
    and "\<not> (is_upload t \<and> task_id t = Some (it_id it)) \<or> ingest_row it"
  shows "task_row_ok t (f it)"
proof -
  note f = finishingD[OF assms(2), of it]
  show ?thesis
    using assms(1,3-5) f
    by (cases "(t, it)" rule: task_row_ok.cases)
      (auto simp: unregistered_row_def registered_row_def ingest_row_def isTerminalStatus_def)
qed

lemma J_finish_row:
  assumes J: "J cid s" and f: "finishing f"
    and P: "\<And>it. it \<in> set (items s) \<Longrightarrow> it_id it = i \<Longrightarrow> status it \<noteq> Queued \<and> \<not> needsFileReselect it"
    and Q: "Some i \<notin> set (upload_ids (tasks s)) \<or> (\<forall>it \<in> set (items s). it_id it = i \<longrightarrow> ingest_row it)"
  shows "J cid (updateItem i f s)"
proof (rule J_update[OF J])
  fix it assume it: "it \<in> set (items s)" "it_id it = i"
  note p = P[OF it]
  have "self_ok (f it)"
    using J_rowD(1)[OF J it(1)] p finishingD[OF f, of it] by (auto simp: self_ok_def isTerminalStatus_def)
  moreover have "task_row_ok t (f it)" if "t \<in> set (tasks s)" for t
    by (rule task_row_ok_finish[OF J_rowD(2)[OF J it(1) that] f]) (use p Q it that in \<open>auto simp: upload_ids_iff\<close>)
  ultimately show "it_id (f it) = it_id it \<and> self_ok (f it) \<and> (\<forall>t \<in> set (tasks s). task_row_ok t (f it)) \<and>
      (complete (batch s) \<longrightarrow> isTerminalStatus (status (f it)))"
    using finishingD[OF f, of it] by simp
qed

lemma upload_ids_pump [simp]: "upload_ids (tasks (pumpUploadQueue now s)) = upload_ids (tasks s)"
  by (simp add: pumpUploadQueue_def)

lemma upload_ids_resume [simp]: "upload_ids (tasks (resumeUploadItemProcessing it s)) = upload_ids (tasks s)"
  by (auto simp: resumeUploadItemProcessing_def Let_def acquire_stage_frame split: prod.split)

lemma upload_ids_processing_loop [simp]: "upload_ids (tasks (processing_loop its s)) = upload_ids (tasks s)"
  by (induction its s rule: processing_loop.induct) auto

lemma upload_ids_pumpProcessing [simp]: "upload_ids (tasks (pumpProcessingQueue s)) = upload_ids (tasks s)"
  by (simp add: pumpProcessingQueue_def)

lemma releaseByteSlot_frame [simp]:
  "upload_ids (tasks (releaseUploadByteSlot now i s)) = upload_ids (tasks s)"
  "effects (releaseUploadByteSlot now i s) = effects s"
  "idCount (releaseUploadByteSlot now i s) = idCount s"
  "restoreStarted (releaseUploadByteSlot now i s) = restoreStarted s"
  by (auto simp: releaseUploadByteSlot_def split: option.splits)

lemma releaseByteSlot_items:
  "items (releaseUploadByteSlot now i s) = items s \<or>
   items (releaseUploadByteSlot now i s) = map_item i (\<lambda>e. e\<lparr>localFile := None\<rparr>) (items s)"
  by (auto simp: releaseUploadByteSlot_def split: option.splits)

lemma in_map_item: "it \<in> set (map_item i f its) \<longleftrightarrow> (\<exists>e \<in> set its. it = (if it_id e = i then f e else e))"
  unfolding map_item_def set_map image_iff by (rule refl)

lemma pauseFor_frame [simp]:
  "batch (pauseUploadPumpFor now d s) = batch s" "tasks (pauseUploadPumpFor now d s) = tasks s"
  "idCount (pauseUploadPumpFor now d s) = idCount s" "restoreStarted (pauseUploadPumpFor now d s) = restoreStarted s"
  "effects (pauseUploadPumpFor now d s) = effects s" "items (pauseUploadPumpFor now d s) = items s"
  "resumingItemIds (pauseUploadPumpFor now d s) = resumingItemIds s"
  "userUploadPaused (pauseUploadPumpFor now d s) = userUploadPaused s"
  by (simp_all add: pauseUploadPumpFor_def items_def)

lemma upload_row:
  assumes "J cid s" and "SendTask c n reg \<in> set (tasks s)" and "it \<in> set (items s)" and "it_id it = it_id c"
  shows "(case reg of None \<Rightarrow> unregistered_row it | Some f \<Rightarrow> registered_row it) \<and> status it \<noteq> Queued \<and> \<not> needsFileReselect it"
  using J_rowD(2)[OF assms(1,3,2)] assms(4)
  by (cases reg) (auto simp: unregistered_row_def registered_row_def)

lemma J_upload_failed:
  assumes J: "J cid s" and t: "SendTask c n reg \<in> set (tasks s)"
    and e: "reg \<noteq> None \<Longrightarrow> \<not> isRetryableUploadError e \<or> is_cancelled_error e"
  shows "J cid (upload_failed now c k e (drop_task (SendTask c n reg) s))"
proof -
  let ?s0 = "drop_task (SendTask c n reg) s" and ?i = "it_id c"
  let ?s1 = "release_stages ?i ?s0"
  have J1: "J cid ?s1" using J_drop_task[OF J] by simp
  have no: "Some ?i \<notin> set (upload_ids (tasks ?s1))" using dropped_upload[OF J t] by simp
  note row = upload_row[OF J t]
  have fail: "J cid (add_task FinishTask (updateItem ?i (mark_failed b m) ?s1))" for b m
    by (intro J_plain_task J_finish_row[OF J1]) (use row no in auto)
  show ?thesis
  proof (cases "\<not> is_cancelled_error e \<and> isRetryableUploadError e \<and> k < UPLOAD_MAX_RETRIES")
    case False
    then show ?thesis using fail by (auto simp: upload_failed_def Let_def)
  next
    case True
    with e have reg: "reg = None" by (cases reg) auto
    let ?s2 = "if e_status e = 429 then pauseUploadPumpFor now (retry_after_ms e (k + 1)) ?s1 else ?s1"
    let ?f = "mark_retrying (k + 1)"
    have J2: "J cid ?s2" using J1 by simp
    have s2: "items ?s2 = items s" "tasks ?s2 = tasks ?s1" by simp_all
    have ur: "unregistered_row it" if "it \<in> set (items s)" "it_id it = ?i" for it
      using row[OF that] reg by simp
    have J3: "J cid (updateItem ?i ?f ?s2)"
    proof (rule J_update[OF J2])
      fix it assume "it \<in> set (items ?s2)" "it_id it = ?i"
      then have it: "it \<in> set (items s)" "it_id it = ?i" unfolding s2 by blast+
      have st: "status it = Uploading" using ur[OF it] by (simp add: unregistered_row_def)
      have e: "self_ok (?f it) = self_ok it" "task_row_ok t (?f it) = task_row_ok t it" for t
        by (simp add: self_ok_def st mark_retrying_def) (cases "(t, it)" rule: task_row_ok.cases;
          simp add: unregistered_row_def registered_row_def ingest_row_def st mark_retrying_def)
      show "it_id (?f it) = it_id it \<and> self_ok (?f it) \<and> (\<forall>t \<in> set (tasks ?s2). task_row_ok t (?f it)) \<and>
          (complete (batch ?s2) \<longrightarrow> isTerminalStatus (status (?f it)))"
        using J_rowD[OF J it(1)] st e
        by (auto simp: isTerminalStatus_def mark_retrying_def dest: set_remove1_subset[THEN subsetD])
    qed
    have "J cid (add_task (RetryTask c (k + 1) t') (updateItem ?i ?f ?s2))" for t'
    proof (rule J_add_task[OF J3])
      fix it assume "it \<in> set (items (updateItem ?i ?f ?s2))"
      then have "it \<in> set (map_item ?i ?f (items s))" by (simp only: updateItem_frame s2)
      then obtain e where e: "e \<in> set (items s)" "it = (if it_id e = ?i then ?f e else e)"
        unfolding in_map_item by blast
      then show "task_row_ok (RetryTask c (k + 1) t') it"
        using ur[of e] by (auto simp: unregistered_row_def mark_retrying_def)
    next
      show "task_id (RetryTask c (k + 1) t') \<notin> set (upload_ids (tasks (updateItem ?i ?f ?s2)))" using no by simp
      show "id_ok cid (idCount (updateItem ?i ?f ?s2)) (restoreStarted (updateItem ?i ?f ?s2)) j"
        if "task_id (RetryTask c (k + 1) t') = Some j" for j
        using J t that by (auto simp: core_inv_def)
    qed
    moreover have "upload_failed now c k e ?s0 =
        add_task (RetryTask c (k + 1) (unpause_at now (updateItem ?i ?f ?s2))) (updateItem ?i ?f ?s2)"
      using True by (simp add: upload_failed_def Let_def)
    ultimately show ?thesis by (simp only:)
  qed
qed

lemma J_upload_settled:
  assumes J: "J cid s" and t: "SendTask c n reg \<in> set (tasks s)" and r: "can_settle reg r"
  shows "J cid (upload_settled now c k r (drop_task (SendTask c n reg) s))"
proof -
  let ?s0 = "drop_task (SendTask c n reg) s" and ?i = "it_id c"
  have nr: "\<not> isRetryableUploadError missing_metadata" by (simp add: isRetryableUploadError_def missing_metadata_def)
  show ?thesis
  proof (cases r)
    case (Inl e)
    have "reg \<noteq> None \<Longrightarrow> \<not> isRetryableUploadError e \<or> is_cancelled_error e"
      using r Inl by (cases reg) auto
    then show ?thesis using Inl J_upload_failed[OF J t] by (simp add: upload_settled_def)
  next
    case (Inr fo)
    show ?thesis
    proof (cases "\<exists>f. fo = Some f \<and> fi_id f \<noteq> []")
      case False
      then have "upload_settled now c k r ?s0 = upload_failed now c k missing_metadata ?s0"
        using Inr by (auto simp: upload_settled_def split: option.splits)
      then show ?thesis using J_upload_failed[OF J t] nr by metis
    next
      case True
      then obtain f where f: "fo = Some f" "fi_id f \<noteq> []" by blast
      let ?s1 = "releaseUploadByteSlot now ?i ?s0"
      have row0: "status it \<noteq> Queued \<and> \<not> needsFileReselect it" if "it \<in> set (items ?s0)" "it_id it = ?i" for it
        using upload_row[OF J t, of it] that by simp
      have J1: "J cid ?s1" by (rule J_releaseByteSlot[OF J_drop_task[OF J]]) (use row0 in blast)
      have row1: "status it \<noteq> Queued \<and> \<not> needsFileReselect it" if "it \<in> set (items ?s1)" "it_id it = ?i" for it
        using that releaseByteSlot_items[of now ?i ?s0] row0 by (auto simp: in_map_item split: if_splits)
      have no: "Some ?i \<notin> set (upload_ids (tasks ?s1))" using dropped_upload[OF J t] by simp
      have "J cid (updateItem ?i (mark_done (fi_id f)) ?s1)"
        by (rule J_finish_row[OF J1]) (use row1 no f in auto)
      then show ?thesis
        using J1 f Inr by (simp add: upload_settled_def Let_def J_plain_task J_pumpProcessing
            del: add_task_simps pumpProcessing_frame updateItem_frame)
    qed
  qed
qed

lemma J_upload_starts:
  assumes J: "J cid s" and t: "StartTask c n d t \<in> set (tasks s)"
  shows "J cid (add_task (SendTask c n None) (say es (drop_task (StartTask c n d t) s)))"
proof (rule J_add_task)
  show "J cid (say es (drop_task (StartTask c n d t) s))" using J_drop_task[OF J] by simp
  show "task_row_ok (SendTask c n None) it" if "it \<in> set (items (say es (drop_task (StartTask c n d t) s)))" for it
    using J_rowD(2)[OF J _ t, of it] that by simp
  show "task_id (SendTask c n None) \<notin> set (upload_ids (tasks (say es (drop_task (StartTask c n d t) s))))"
    using dropped_upload[OF J t] by simp
  show "id_ok cid (idCount (say es (drop_task (StartTask c n d t) s)))
      (restoreStarted (say es (drop_task (StartTask c n d t) s))) i" if "task_id (SendTask c n None) = Some i" for i
    using J t that by (auto simp: core_inv_def)
qed

lemma J_retry_woken:
  assumes J: "J cid s" and t: "RetryTask c n t \<in> set (tasks s)"
  shows "J cid (retry_woken now c n (drop_task (RetryTask c n t) s))"
proof -
  let ?s0 = "drop_task (RetryTask c n t) s"
  have J0: "J cid ?s0" by (rule J_drop_task[OF J])
  have "J cid (uploadClaimedItem now c n ?s0)"
  proof (rule J_uploadClaimed[OF J0])
    show "Some (it_id c) \<notin> set (upload_ids (tasks ?s0))" using dropped_upload[OF J t] by simp
    show "unregistered_row it" if "it \<in> set (items ?s0)" "it_id it = it_id c" for it
      using J_rowD(2)[OF J _ t, of it] that by simp
    show "id_ok cid (idCount ?s0) (restoreStarted ?s0) (it_id c)" using J t by (auto simp: core_inv_def)
  qed
  then show ?thesis using J0 by (simp add: retry_woken_def J_plain_task del: add_task_simps uploadClaimed_frame drop_task_simps)
qed

lemma J_registered:
  assumes J: "J cid s" and t: "SendTask c n None \<in> set (tasks s)" and f: "fi_id f \<noteq> []"
  shows "J cid (registerUploadServerFile (it_id c) f (add_task (SendTask c n (Some (fi_id f))) (drop_task (SendTask c n None) s)))"
proof -
  let ?s0 = "drop_task (SendTask c n None) s" and ?t = "SendTask c n (Some (fi_id f))" and ?i = "it_id c"
  let ?s1 = "add_task ?t ?s0"
  have row: "unregistered_row it" if "it \<in> set (items s)" "it_id it = ?i" for it
    using upload_row[OF J t that] by simp
  have J1: "J cid ?s1"
  proof (rule J_add_task[OF J_drop_task[OF J]])
    show "task_row_ok ?t it" if "it \<in> set (items ?s0)" for it
      using row[of it] that by (auto simp: unregistered_row_def registered_row_def)
    show "task_id ?t \<notin> set (upload_ids (tasks ?s0))" using dropped_upload[OF J t] by simp
    show "id_ok cid (idCount ?s0) (restoreStarted ?s0) i" if "task_id ?t = Some i" for i
      using J t that by (auto simp: core_inv_def)
  qed
  let ?f = "register_row f"
  have "J cid (updateItem ?i ?f ?s1)"
  proof (rule J_update[OF J1])
    fix it assume "it \<in> set (items ?s1)" and i: "it_id it = ?i"
    then have it: "it \<in> set (items s)" by simp
    note r = row[OF it i]
    have nt: "\<not> (is_upload t' \<and> task_id t' = Some ?i)" if "t' \<in> set (tasks ?s0)" for t'
      using dropped_upload[OF J t] that by (auto simp: upload_ids_iff)
    have "self_ok (?f it)" using r by (simp add: unregistered_row_def self_ok_def isTerminalStatus_def register_row_def)
    moreover have "task_row_ok t' (?f it)" if "t' \<in> set (tasks ?s1)" for t'
    proof (cases "t' = ?t")
      case True
      then show ?thesis using r i by (simp add: unregistered_row_def registered_row_def register_row_def)
    next
      case False
      with that have t': "t' \<in> set (tasks ?s0)" by simp
      then have "t' \<in> set (tasks s)" by (auto dest: set_remove1_subset[THEN subsetD])
      from J_rowD(2)[OF J it this] nt[OF t'] r i show ?thesis
        by (cases "(t', it)" rule: task_row_ok.cases) (auto simp: unregistered_row_def ingest_row_def register_row_def)
    qed
    moreover have "\<not> complete (batch ?s1)"
      using J_rowD(4)[OF J it] r by (auto simp: unregistered_row_def isTerminalStatus_def)
    ultimately show "it_id (?f it) = it_id it \<and> self_ok (?f it) \<and> (\<forall>t \<in> set (tasks ?s1). task_row_ok t (?f it)) \<and>
        (complete (batch ?s1) \<longrightarrow> isTerminalStatus (status (?f it)))" by (simp add: register_row_def)
  qed
  then show ?thesis using J1 by (auto simp: registerUploadServerFile_def)
qed

lemma J_ingest_settled:
  assumes J: "J cid s" and t: "IngestPoll i f \<in> set (tasks s)"
    and r: "\<And>file. r = Inr file \<Longrightarrow> fi_id file \<noteq> []"
  shows "J cid (ingest_settled i r (drop_task (IngestPoll i f) s))"
proof -
  let ?s0 = "drop_task (IngestPoll i f) s"
  have row: "ingest_row it" if "it \<in> set (items s)" "it_id it = i" for it
    using J_rowD(2)[OF J that(1) t] that by simp
  have fin: "J cid (updateItem i g ?s0)" if "finishing g" for g
    by (rule J_finish_row[OF J_drop_task[OF J] that]) (use row in \<open>auto simp: ingest_row_def\<close>)
  define s1 where "s1 = (case r of
           Inr f \<Rightarrow> say [Uploaded (fi_id f)] (updateItem i (mark_done (fi_id f)) ?s0)
         | Inl (cancelled, message) \<Rightarrow> updateItem i (mark_failed cancelled message) ?s0)"
  have "J cid s1"
    using fin[of "mark_failed _ _"] fin[of "mark_done _"] r
    by (auto simp: s1_def simp del: updateItem_frame split: sum.split)
  then have "J cid (emitBatch (release_stages i (s1\<lparr>resumingItemIds := jset_delete i (resumingItemIds s1)\<rparr>)))" by simp
  then show ?thesis
    unfolding ingest_settled_def Let_def s1_def by (intro J_maybeComplete J_pumpProcessing)
qed

lemma J_finish_progress: "J cid s \<Longrightarrow> J cid (finish_progress i u s)"
  by (simp add: finish_progress_def J_neutral neutral_def applyUploadProgressUpdate_def del: updateItem_frame)

lemma J_applyProgress: 
  assumes J: "J cid s"
  shows "J cid (applyPipelinedProgress i u s)"
proof (cases "u_phase u")
  case (Post st)
  obtain s1 k where a: "acquire_stage i st s = (s1, k)" by (cases "acquire_stage i st s")
  have "J cid s1" using J acquire_stage_frame[OF a] by simp
  then show ?thesis using J Post a by (simp add: applyPipelinedProgress_def J_plain_task del: add_task_simps)
next
  case PhUploading
  with J show ?thesis by (simp add: applyPipelinedProgress_def J_finish_progress)
qed

lemma J_removeItem:
  assumes "J cid s"
  shows "J cid (removeItemFromActiveBatch now i s)"
proof (cases "batch s = None")
  case False
  let ?s1 = "release_stages i s"
  let ?s2 = "set_items (filter (\<lambda>it. it_id it \<noteq> i) (items ?s1)) ?s1"
  let ?s3 = "?s2\<lparr>abortedUploadItemIds := jset_delete i (abortedUploadItemIds ?s2)\<rparr>"
  have "J cid ?s2" by (rule J_subset) (use assms J_distinct[OF assms] in \<open>auto simp: distinct_map_filter\<close>)
  then have J3: "J cid ?s3" by simp
  have "J cid (?s3\<lparr>batch := None\<rparr>)" using J_no_batch[OF J3] by simp
  then have "J cid (if items ?s3 = [] then ?s3\<lparr>batch := None\<rparr>
                     else if batch_uploading ?s3 then maybeCompleteBatch ?s3 else ?s3)"
    using J3 J_maybeComplete[OF J3] by presburger
  then show ?thesis using False by (auto simp: removeItemFromActiveBatch_def Let_def J_pump simp del: pump_frame)
next
  case True
  then show ?thesis using assms by (simp add: removeItemFromActiveBatch_def)
qed

lemma voidCleanup_frame [simp]:
  "batch (cleanup_item it s) = batch s" "tasks (cleanup_item it s) = tasks s" "idCount (cleanup_item it s) = idCount s"
  "restoreStarted (cleanup_item it s) = restoreStarted s" "items (cleanup_item it s) = items s"
  "resumingItemIds (cleanup_item it s) = resumingItemIds s" "userUploadPaused (cleanup_item it s) = userUploadPaused s"
  by (simp_all add: cleanup_item_def voidCleanupPartialServerFile_def)

lemma reprocess_no_upload:
  assumes "J cid s" and "it \<in> set (items s)" and "isReprocess it"
  shows "Some (it_id it) \<notin> set (upload_ids (tasks s))"
proof
  assume "Some (it_id it) \<in> set (upload_ids (tasks s))"
  then obtain t where t: "t \<in> set (tasks s)" "is_upload t" "task_id t = Some (it_id it)" by (auto simp: upload_ids_iff)
  from J_rowD(2)[OF assms(1,2) t(1)] t assms(3) show False
    by (cases "(t, it)" rule: task_row_ok.cases) (auto simp: unregistered_row_def registered_row_def)
qed

lemma row_unique: "J cid s \<Longrightarrow> it \<in> set (items s) \<Longrightarrow> e \<in> set (items s) \<Longrightarrow> it_id it = it_id e \<Longrightarrow> it = e"
  using J_distinct[of cid s] by (auto simp: distinct_map dest: inj_onD)

lemma J_cancel:
  assumes J: "J cid s"
  shows "J cid (cancelUploadItem now i s)"
proof (cases "batch_uploading s \<and> (\<exists>it. find_item i s = Some it \<and> status it \<noteq> Done)")
  case False
  then show ?thesis using J by (auto simp: cancelUploadItem_def split: option.splits)
next
  case True
  then obtain it where it: "find_item i s = Some it" "status it \<noteq> Done" by blast
  note mem = find_item_SomeD[OF it(1)]
  let ?s1 = "s\<lparr>abortedUploadItemIds := jset_add i (abortedUploadItemIds s)\<rparr>"
  have i1: "items ?s1 = items s" by (simp add: items_def)
  show ?thesis
  proof (cases "isReprocess it")
    case re: True
    let ?s2 = "if truthy (uploadedFileId it) then say [CancelReprocess (the (uploadedFileId it))] ?s1 else ?s1"
    let ?s3 = "release_stages i (updateItem i mark_cancelled ?s2)"
    have J2: "J cid ?s2" and i2: "items ?s2 = items s" "tasks ?s2 = tasks s" using J i1 by simp_all
    have "J cid (updateItem i mark_cancelled ?s2)"
    proof (rule J_finish_row[OF J2])
      show "finishing mark_cancelled" by simp
      fix e assume "e \<in> set (items ?s2)" "it_id e = i"
      then have "e = it" using row_unique[OF J, of e it] mem i2 by auto
      then show "status e \<noteq> Queued \<and> \<not> needsFileReselect e"
        using J_rowD(1)[OF J, of it] mem re by (auto simp: self_ok_def)
    next
      show "Some i \<notin> set (upload_ids (tasks ?s2)) \<or> (\<forall>e \<in> set (items ?s2). it_id e = i \<longrightarrow> ingest_row e)"
        using reprocess_no_upload[OF J, of it] mem re i2 by auto
    qed
    then have "J cid (?s3\<lparr>resumingItemIds := jset_delete i (resumingItemIds ?s3)\<rparr>)" by simp
    from J_pumpProcessing[OF J_maybeComplete[OF this]] show ?thesis
      using True it re by (simp add: cancelUploadItem_def Let_def)
  next
    case False
    have "J cid (cleanup_item it (if status it = Uploading then say [AbortSession i (uploadedFileId it) (mimeType it)] ?s1 else ?s1))"
      using J by simp
    from J_removeItem[OF this] show ?thesis
      using True it False by (simp add: cancelUploadItem_def Let_def)
  qed
qed

lemma J_fold: "(\<And>x r. J cid r \<Longrightarrow> J cid (g x r)) \<Longrightarrow> J cid s \<Longrightarrow> J cid (fold g xs s)"
  by (induction xs arbitrary: s) auto

lemma J_cancelAll: "J cid s \<Longrightarrow> J cid (cancelAllUploadItems now s)"
  by (simp add: cancelAllUploadItems_def cancelAllPendingHlsReprocess_def Let_def J_plain_task J_fold J_cancel
      del: add_task_simps)

lemma J_cancel_rest: "J cid s \<Longrightarrow> J cid (cancel_rest now s)"
  by (auto simp: cancel_rest_def J_fold J_cancel)

lemma J_reprocess_cancelled:
  assumes J: "J cid s"
  shows "J cid (reprocess_cancelled follow ok s)"
proof -
  let ?g = "\<lambda>i r. let r1 = release_stages i (r\<lparr>abortedUploadItemIds := jset_add i (abortedUploadItemIds r)\<rparr>)
                                  in r1\<lparr>resumingItemIds := jset_delete i (resumingItemIds r1)\<rparr>"
  let ?f = "\<lambda>it. if isReprocess it \<and> pending_row it then mark_cancelled it else it"
  have upd: "J cid (updateItems (map ?f) r)" if J': "J cid r" for r
  proof (rule J_map[OF J'])
    fix it assume it: "it \<in> set (items r)"
    show "it_id (?f it) = it_id it \<and> self_ok (?f it) \<and> (\<forall>t \<in> set (tasks r). task_row_ok t (?f it)) \<and>
        (complete (batch r) \<longrightarrow> isTerminalStatus (status (?f it)))"
    proof (cases "isReprocess it \<and> pending_row it")
      case True
      have so: "self_ok it" by (rule J_rowD(1)[OF J' it])
      have nq: "status it \<noteq> Queued" "\<not> needsFileReselect it"
        using so True by (auto simp: self_ok_def)
      have "task_row_ok t (mark_cancelled it)" if t: "t \<in> set (tasks r)" for t
        by (rule task_row_ok_finish[OF J_rowD(2)[OF J' it t] _ nq])
          (use reprocess_no_upload[OF J' it] True t in \<open>auto simp: upload_ids_iff\<close>)
      moreover have "self_ok (mark_cancelled it)"
        using so nq by (simp add: self_ok_def mark_cancelled_def isTerminalStatus_def)
      ultimately show ?thesis using True by (simp add: mark_cancelled_def isTerminalStatus_def)
    qed (use J_rowD[OF J' it] in auto)
  qed
  have "J cid (fold ?g ids s)" for ids
    by (rule J_fold[OF _ J]) (simp add: Let_def)
  then have "J cid (if ok \<and> batch s \<noteq> None then maybeCompleteBatch (updateItems (map ?f) (fold ?g ids s)) else s)" for ids
    using J J_maybeComplete[OF upd] by simp
  then show ?thesis
    unfolding reprocess_cancelled_def Let_def by (auto intro: J_plain_task simp del: add_task_simps)
qed

lemma J_remove_row: "J cid s \<Longrightarrow> J cid (removeUploadBatchItem now i s)"
  by (simp add: removeUploadBatchItem_def J_removeItem split: option.split)

lemma J_dismiss: "J cid s \<Longrightarrow> J cid (dismissUploadBatch s)"
  by (auto simp: dismissUploadBatch_def dest: J_no_batch)

lemma J_clear:
  assumes "J cid s"
  shows "J cid (clearCancelledHlsReprocessItems s)"
proof -
  let ?s1 = "set_items (filter (\<lambda>it. \<not> (isReprocess it \<and> status it = Cancelled)) (items s)) s"
  have J1: "J cid ?s1"
    by (rule J_subset[OF assms]) (use J_distinct[OF assms] in \<open>auto simp: distinct_map_filter\<close>)
  have "J cid (?s1\<lparr>batch := None\<rparr>)" using J_no_batch[OF J1] by simp
  then have "J cid (if items ?s1 = [] then ?s1\<lparr>batch := None\<rparr> else maybeCompleteBatch ?s1)"
    using J_maybeComplete[OF J1] by simp
  then show ?thesis using assms by (auto simp: clearCancelledHlsReprocessItems_def Let_def)
qed

lemma J_pauses: "J cid s \<Longrightarrow> J cid (setUploadBatchPaused now p s)" "J cid s \<Longrightarrow> J cid (setUploadItemPaused now i p s)"
proof -
  assume J: "J cid s"
  then have J1: "J cid (s\<lparr>userUploadPaused := p\<rparr>)" by simp
  then show "J cid (setUploadBatchPaused now p s)"
    using J_pump[OF J1] by (cases p) (simp_all add: setUploadBatchPaused_def Let_def del: pump_frame)
  have "neutral (\<lambda>it. if status it = Queued then it\<lparr>paused := p\<rparr> else it)" by (simp add: neutral_def)
  from J_neutral[OF J this] J_pump[OF J_neutral[OF J this]] J
  show "J cid (setUploadItemPaused now i p s)"
    by (auto simp: setUploadItemPaused_def Let_def simp del: pump_frame updateItem_frame)
qed

text \<open>
  An operation that makes a row unfinished again also reopens the batch.
\<close>

lemma J_update_reopen:
  assumes J: "J cid s"
    and f: "\<And>it. it \<in> set (items s) \<Longrightarrow> it_id it = i \<Longrightarrow> it_id (f it) = it_id it \<and> self_ok (f it) \<and>
         (\<forall>t \<in> set (tasks s). task_row_ok t (f it))"
  shows "J cid (reopen_batch (updateItem i f s))"
proof -
  let ?s' = "set_batch_status BatchUploading s"
  have s': "items ?s' = items s" "tasks ?s' = tasks s" "idCount ?s' = idCount s" "restoreStarted ?s' = restoreStarted s"
    "\<not> complete (batch ?s')"
    by (cases "batch s"; simp add: set_batch_status_def items_def)+
  have "J cid (updateItem i f ?s')"
    by (rule J_update[OF J_reopen[OF J]]) (use f s' in auto)
  moreover have "batch (reopen_batch (updateItem i f s)) = batch (updateItem i f ?s')"
    by (cases "batch s") (auto simp: reopen_batch_def set_batch_status_def batch_uploading_def map_item_def
        intro: batch_status.exhaust)
  moreover have "tasks (reopen_batch r) = tasks r" "idCount (reopen_batch r) = idCount r"
    "restoreStarted (reopen_batch r) = restoreStarted r" for r
    by (simp_all add: reopen_batch_def set_batch_status_def)
  ultimately show ?thesis using s' by simp
qed

lemma find_item_unique: "J cid s \<Longrightarrow> find_item i s = Some it \<Longrightarrow> e \<in> set (items s) \<Longrightarrow> it_id e = i \<Longrightarrow> e = it"
  using row_unique find_item_SomeD by fastforce

lemma J_retry:
  assumes J: "J cid s"
  shows "J cid (fst (retryUploadItem now i s))"
proof (cases "\<exists>it. find_item i s = Some it \<and> (status it = Error \<or> status it = Cancelled) \<and>
    localFile it \<noteq> None \<and> \<not> needsFileReselect it")
  case False
  then show ?thesis using J by (auto simp: retryUploadItem_def split: option.splits)
next
  case True
  then obtain it where it: "find_item i s = Some it" "status it = Error \<or> status it = Cancelled"
    "localFile it \<noteq> None" "\<not> needsFileReselect it" by blast
  note mem = find_item_SomeD[OF it(1)]
  let ?s1 = "s\<lparr>abortedUploadItemIds := jset_delete i (abortedUploadItemIds s)\<rparr>"
  have i1: "items ?s1 = items s" by (simp add: items_def)
  have "J cid (reopen_batch (updateItem i requeue_row ?s1))"
  proof (rule J_update_reopen)
    show "J cid ?s1" using J by simp
    fix e assume "e \<in> set (items ?s1)" "it_id e = i"
    then have e: "e = it" using find_item_unique[OF J it(1)] i1 by simp
    have so: "self_ok it" using J_rowD(1)[OF J] mem by blast
    have "task_row_ok t (requeue_row it)" if "t \<in> set (tasks s)" for t
      using J_rowD(2)[OF J _ that, of it] mem it
      by (cases "(t, it)" rule: task_row_ok.cases)
        (auto simp: requeue_row_def unregistered_row_def registered_row_def ingest_row_def)
    then show "it_id (requeue_row e) = it_id e \<and> self_ok (requeue_row e) \<and>
        (\<forall>t \<in> set (tasks ?s1). task_row_ok t (requeue_row e))"
      using so it e by (simp add: requeue_row_def self_ok_def)
  qed
  from J_pump[OF this] show ?thesis using it by (auto simp: retryUploadItem_def simp del: pump_frame)
qed

lemma J_retryFailed:
  assumes "J cid s"
  shows "J cid (fst (retryFailedUploadItems now s))"
proof -
  have "J cid (fst (fold (\<lambda>i (s, n). let (s1, ok) = retryUploadItem now i s in (s1, if ok then n + 1 else n)) ids r))"
    if "J cid (fst r)" for ids and r :: "mgr \<times> int"
    using that
  proof (induction ids arbitrary: r)
    case (Cons i ids)
    obtain s0 n where r: "r = (s0, n)" by (cases r)
    obtain s1 ok where q: "retryUploadItem now i s0 = (s1, ok)" by (cases "retryUploadItem now i s0")
    have "J cid s1" using J_retry[of cid s0 now i] Cons.prems r q by simp
    then show ?case using Cons.IH[of "(s1, if ok then n + 1 else n)"] r q by simp
  qed simp
  then show ?thesis using assms by (simp add: retryFailedUploadItems_def)
qed

lemma J_reattach:
  assumes J: "J cid s"
  shows "J cid (fst (reattachUploadFile now i f s))"
proof (cases "\<exists>it. find_item i s = Some it \<and> needsFileReselect it \<and> truthy (resumableServerSessionId it) \<and>
    uf_name f = fileName it \<and> uf_size f = fileSize it")
  case False
  then show ?thesis using J by (auto simp: reattachUploadFile_def split: option.splits)
next
  case True
  then obtain it where it: "find_item i s = Some it" "needsFileReselect it" "truthy (resumableServerSessionId it)"
    "uf_name f = fileName it" "uf_size f = fileSize it" by blast
  note mem = find_item_SomeD[OF it(1)]
  have "J cid (reopen_batch (updateItem i (reattach_row f) s))"
  proof (rule J_update_reopen[OF J])
    fix e assume "e \<in> set (items s)" "it_id e = i"
    then have e: "e = it" using find_item_unique[OF J it(1)] by simp
    have so: "self_ok it" using J_rowD(1)[OF J] mem by blast
    have "task_row_ok t (reattach_row f it)" if "t \<in> set (tasks s)" for t
      using J_rowD(2)[OF J _ that, of it] mem it
      by (cases "(t, it)" rule: task_row_ok.cases)
        (auto simp: reattach_row_def unregistered_row_def registered_row_def ingest_row_def)
    then show "it_id (reattach_row f e) = it_id e \<and> self_ok (reattach_row f e) \<and>
        (\<forall>t \<in> set (tasks s). task_row_ok t (reattach_row f e))"
      using so it e by (simp add: reattach_row_def self_ok_def)
  qed
  from J_pump[OF this] show ?thesis using it by (auto simp: reattachUploadFile_def simp del: pump_frame)
qed

section \<open>New rows\<close>

lemma core_mono: "core_inv cid b T n r \<Longrightarrow> n \<le> m \<Longrightarrow> core_inv cid b T m r"
  unfolding core_inv_def using id_ok_mono by blast

lemma core_append:
  assumes c: "core_inv cid b T n r" and inj: "inj cid" and nc: "b_status b' \<noteq> BatchComplete"
    and old: "set old \<subseteq> set (rows_of b)" "distinct (map it_id old)" and b': "b_items b' = old @ new"
    and new: "\<And>it. it \<in> set new \<Longrightarrow> self_ok it \<and> (\<exists>m. n \<le> m \<and> m < n' \<and> it_id it = cid m)"
    and d: "distinct (map it_id new)" and le: "n \<le> n'"
  shows "core_inv cid (Some b') T n' r"
proof -
  have fresh: "i \<noteq> it_id it" if "it \<in> set new" "id_ok cid n r i" for it i
    using new[OF that(1)] that(2) by (auto simp: id_ok_def)
  have ok: "id_ok cid n' r (it_id it)" if "it \<in> set new" for it
    using new[OF that] by (auto simp: id_ok_def inj_eq[OF inj])
  have ids: "id_ok cid n r (it_id it)" if "it \<in> set old" for it
    using c old(1) that by (auto simp: core_inv_def)
  have tid: "id_ok cid n r i" if "t \<in> set T" "task_id t = Some i" for t i
    using c that by (auto simp: core_inv_def)
  have tnew: "task_row_ok t it" if "it \<in> set new" "t \<in> set T" for t it
  proof -
    have "task_id t \<noteq> Some (it_id it)" using fresh[OF that(1)] tid[OF that(2)] by blast
    then show ?thesis by (cases "(t, it)" rule: task_row_ok.cases) auto
  qed
  have "distinct (map it_id (old @ new))" using old(2) d ids fresh by auto
  moreover have "self_ok it \<and> (\<forall>t \<in> set T. task_row_ok t it) \<and> id_ok cid n' r (it_id it)" if "it \<in> set (old @ new)" for it
    using that c old(1) new tnew ok id_ok_mono[OF _ le] by (auto simp: core_inv_def subset_iff)
  ultimately show ?thesis
    using c nc b' id_ok_mono[OF _ le] by (auto simp: core_inv_def)
qed

lemma new_id_simps [simp]:
  "fst (new_id cid s) = s\<lparr>idCount := Suc (idCount s)\<rparr>" "snd (new_id cid s) = cid (idCount s)"
  by (simp_all add: new_id_def)

lemma map_upt_Suc: "map (\<lambda>k. c (n + k)) [0..<Suc m] = c n # map (\<lambda>k. c (Suc n + k)) [0..<m]"
  by (simp only: upt_conv_Cons[OF zero_less_Suc] map_Suc_upt[symmetric] list.map) (simp add: comp_def)

lemma queuedItems_spec:
  "fst (queuedItemsFromEntries cid d ens s) = s\<lparr>idCount := idCount s + length ens\<rparr> \<and>
   map it_id (snd (queuedItemsFromEntries cid d ens s)) = map (\<lambda>k. cid (idCount s + k)) [0..<length ens]"
proof (induction ens arbitrary: s)
  case (Cons en ens)
  obtain s2 its where q: "queuedItemsFromEntries cid d ens (s\<lparr>idCount := Suc (idCount s)\<rparr>) = (s2, its)"
    by (cases "queuedItemsFromEntries cid d ens (s\<lparr>idCount := Suc (idCount s)\<rparr>)")
  from map_upt_Suc[of cid "idCount s" "length ens"] Cons[of "s\<lparr>idCount := Suc (idCount s)\<rparr>"] q
  show ?case by (simp add: new_id_def queued_item_def base_item_def del: upt_Suc)
qed simp

lemma queuedItems_rows:
  "it \<in> set (snd (queuedItemsFromEntries cid d ens s)) \<Longrightarrow> \<exists>i. \<exists>en \<in> set ens. it = queued_item d i en"
proof (induction ens arbitrary: s)
  case (Cons en ens)
  obtain s2 its where q: "queuedItemsFromEntries cid d ens (s\<lparr>idCount := Suc (idCount s)\<rparr>) = (s2, its)"
    by (cases "queuedItemsFromEntries cid d ens (s\<lparr>idCount := Suc (idCount s)\<rparr>)")
  with Cons.prems have "it = queued_item d (cid (idCount s)) en \<or> it \<in> set its" by (simp add: new_id_def)
  with Cons.IH[of "s\<lparr>idCount := Suc (idCount s)\<rparr>"] q show ?case by auto
qed simp

lemma queued_self_ok [simp]: "self_ok (queued_item d i en)" "it_id (queued_item d i en) = i"
  by (simp_all add: queued_item_def base_item_def self_ok_def)

lemma job_self_ok [simp]: "self_ok (job_item i j)" "it_id (job_item i j) = i"
  by (simp_all add: job_item_def base_item_def self_ok_def Let_def)

lemma reprocess_self_ok [simp]: "self_ok (reprocess_item i f)" "it_id (reprocess_item i f) = i"
  by (simp_all add: reprocess_item_def base_item_def self_ok_def Let_def)

lemma batch_uploadingE:
  assumes "batch_uploading s"
  obtains b where "batch s = Some b" "b_status b = BatchUploading"
  using assms by (auto simp: batch_uploading_def split: option.splits)

lemma fresh_ids_distinct: "inj cid \<Longrightarrow> map it_id its = map (\<lambda>k. cid (n + k)) [0..<m] \<Longrightarrow> distinct (map it_id its)"
proof -
  assume i: "inj cid" and e: "map it_id its = map (\<lambda>k. cid (n + k)) [0..<m]"
  have "distinct (map (\<lambda>k. cid (n + k)) [0..<m])" by (rule distinct_map[THEN iffD2]) (simp add: inj_on_def inj_eq[OF i])
  then show ?thesis by (simp only: e)
qed

lemma fresh_ids_bound:
  assumes "map it_id its = map (\<lambda>k. cid (n + k)) [0..<m]" and "it \<in> set its"
  shows "\<exists>k. n \<le> k \<and> k < n + m \<and> it_id it = cid k"
proof -
  have "it_id it \<in> set (map it_id its)" using assms(2) by simp
  then obtain k where "k < m" "it_id it = cid (n + k)" unfolding assms(1) by auto
  then show ?thesis by (intro exI[of _ "n + k"]) simp
qed

lemma J_start:
  assumes J: "J cid s" and inj: "inj cid"
  shows "J cid (startUploadBatch cid now ens d s)"
proof (cases "ens = []")
  case True
  with J show ?thesis by (simp add: startUploadBatch_def)
next
  case False
  let ?n = "idCount s"
  let ?s1 = "s\<lparr>idCount := ?n + length ens\<rparr>"
  obtain s0 new where q0: "queuedItemsFromEntries cid d ens s = (s0, new)" by (cases "queuedItemsFromEntries cid d ens s")
  then have q: "queuedItemsFromEntries cid d ens s = (?s1, new)" using queuedItems_spec[of cid d ens s] by simp
  have ids: "map it_id new = map (\<lambda>k. cid (?n + k)) [0..<length ens]" using queuedItems_spec[of cid d ens s] q by simp
  have so: "self_ok it" if "it \<in> set new" for it using queuedItems_rows[of it cid d ens s] q that by auto
  have new: "self_ok it \<and> (\<exists>m. ?n \<le> m \<and> m < ?n + length ens \<and> it_id it = cid m)" if "it \<in> set new" for it
    using so[OF that] fresh_ids_bound[OF ids that] by simp
  have d: "distinct (map it_id new)" by (rule fresh_ids_distinct[OF inj ids])
  show ?thesis
  proof (cases "batch_uploading s")
    case True
    then obtain b where b: "batch s = Some b" "b_status b = BatchUploading" by (rule batch_uploadingE)
    have "core_inv cid (Some (b\<lparr>b_items := items s @ new\<rparr>)) (tasks s) (?n + length ens) (restoreStarted s)"
      by (rule core_append[OF J inj _ _ J_distinct[OF J] _ new d]) (use b in \<open>auto simp: items_def\<close>)
    moreover have "startUploadBatch cid now ens d s = pumpUploadQueue now (emitBatch (set_items (items s @ new) ?s1))"
      using False True q by (simp add: startUploadBatch_def batch_uploading_def items_def)
    ultimately show ?thesis using b by (simp add: J_pump set_items_def del: pump_frame)
  next
    case nu: False
    let ?b = "\<lparr>b_id = cid (?n + length ens), b_status = BatchUploading, b_folderId = d, b_items = new\<rparr>"
    have "core_inv cid (Some ?b) (tasks s) (Suc (?n + length ens)) (restoreStarted s)"
      by (rule core_mono[of cid _ _ "?n + length ens"], rule core_append[OF J inj _ _ _ _ new d, where old = "[]"]) simp_all
    moreover have "startUploadBatch cid now ens d s =
        pumpUploadQueue now (emitBatch (?s1\<lparr>idCount := Suc (?n + length ens), batch := Some ?b\<rparr>))"
      using False nu q by (simp add: startUploadBatch_def batch_uploading_def new_id_def split: option.splits)
    ultimately show ?thesis by (simp add: J_pump del: pump_frame)
  qed
qed

lemma J_ensure:
  assumes J: "J cid s"
  shows "J cid (ensureUploadingBatch cid s) \<and> batch_uploading (ensureUploadingBatch cid s)"
proof (cases "batch_uploading s")
  case False
  have "core_inv cid (Some \<lparr>b_id = cid (idCount s), b_status = BatchUploading, b_folderId = None, b_items = items s\<rparr>)
      (tasks s) (Suc (idCount s)) (restoreStarted s)"
    using core_mono[OF J, of "Suc (idCount s)"] by (auto simp: core_inv_def items_rows_of)
  with False show ?thesis by (simp add: ensureUploadingBatch_def new_id_def batch_uploading_def)
qed (use J in \<open>simp add: ensureUploadingBatch_def\<close>)

lemma J_track_rows:
  assumes "J cid s" and "inj cid" and "batch_uploading s" and mk: "\<And>i x. self_ok (mk i x) \<and> it_id (mk i x) = i"
  shows "J cid (fst (track_rows cid key mk xs s n))"
  using assms(1,3)
proof (induction xs arbitrary: s n)
  case (Cons x xs)
  show ?case
  proof (cases "already_tracked (key x) s")
    case True
    with Cons show ?thesis by simp
  next
    case False
    from Cons.prems(2) obtain b where b: "batch s = Some b" "b_status b = BatchUploading" by (rule batch_uploadingE)
    let ?m = "mk (cid (idCount s)) x" and ?s1 = "s\<lparr>idCount := Suc (idCount s)\<rparr>"
    have "core_inv cid (Some (b\<lparr>b_items := items s @ [?m]\<rparr>)) (tasks s) (Suc (idCount s)) (restoreStarted s)"
      by (rule core_append[OF Cons.prems(1) assms(2) _ _ J_distinct[OF Cons.prems(1)]])
        (use b mk[of "cid (idCount s)" x] in \<open>auto simp: items_def\<close>)
    then have "J cid (set_items (items ?s1 @ [?m]) ?s1)" using b by (simp add: set_items_def items_def)
    moreover have "batch_uploading (set_items (items ?s1 @ [?m]) ?s1)"
      using b by (simp add: set_items_def batch_uploading_def)
    ultimately show ?thesis using Cons.IH False by (simp add: new_id_def)
  qed
qed simp

lemma J_finish_tracking: "J cid (fst r) \<Longrightarrow> J cid (finish_tracking r)"
  by (simp add: finish_tracking_def J_pumpProcessing J_reopen del: pumpProcessing_frame)

lemma J_trackReprocess: "J cid s \<Longrightarrow> inj cid \<Longrightarrow> J cid (trackHlsReprocessFiles cid fs s)"
  unfolding trackHlsReprocessFiles_def using J_ensure[of cid s]
  by (auto intro!: J_finish_tracking J_track_rows)

lemma J_trackJobs: "J cid s \<Longrightarrow> inj cid \<Longrightarrow> J cid (trackActiveHlsEncodeJobs cid js s)"
  unfolding trackActiveHlsEncodeJobs_def using J_ensure[of cid s]
  by (auto intro!: J_finish_tracking J_track_rows)

lemma job_items_spec:
  "fst (job_items cid js s) = s\<lparr>idCount := idCount s + length js\<rparr> \<and>
   map it_id (snd (job_items cid js s)) = map (\<lambda>k. cid (idCount s + k)) [0..<length js] \<and>
   (\<forall>it \<in> set (snd (job_items cid js s)). self_ok it)"
proof (induction js arbitrary: s)
  case (Cons j js)
  obtain s2 its where q: "job_items cid js (s\<lparr>idCount := Suc (idCount s)\<rparr>) = (s2, its)"
    by (cases "job_items cid js (s\<lparr>idCount := Suc (idCount s)\<rparr>)")
  from map_upt_Suc[of cid "idCount s" "length js"] Cons[of "s\<lparr>idCount := Suc (idCount s)\<rparr>"] q show ?case by (simp add: new_id_def del: upt_Suc)
qed simp

lemma J_restoreJobs:
  assumes J: "J cid s" and inj: "inj cid"
  shows "J cid (restoreFromActiveBackgroundJobs cid js s)"
proof (cases "active_jobs js = []")
  case False
  let ?s1 = "s\<lparr>idCount := Suc (idCount s)\<rparr>" and ?js = "active_jobs js"
  obtain s2 its where q: "job_items cid ?js ?s1 = (s2, its)" by (cases "job_items cid ?js ?s1")
  note sp = job_items_spec[of cid ?js ?s1]
  have s2: "s2 = s\<lparr>idCount := Suc (idCount s) + length ?js\<rparr>" using sp q by simp
  have ids: "map it_id its = map (\<lambda>k. cid (Suc (idCount s) + k)) [0..<length ?js]" using sp q by simp
  have so: "\<forall>it \<in> set its. self_ok it" using sp q by simp
  let ?b = "\<lparr>b_id = cid (idCount s), b_status = BatchUploading, b_folderId = None, b_items = its\<rparr>"
  have "core_inv cid (Some ?b) (tasks s) (Suc (idCount s) + length ?js) (restoreStarted s)"
  proof (rule core_append[OF J inj, where old = "[]" and new = its])
    fix it assume it: "it \<in> set its"
    then show "self_ok it \<and> (\<exists>m. idCount s \<le> m \<and> m < Suc (idCount s) + length ?js \<and> it_id it = cid m)"
      using so fresh_ids_bound[OF ids it] by (meson Suc_leD)
  next
    show "distinct (map it_id its)" by (rule fresh_ids_distinct[OF inj ids])
  qed simp_all
  then have "J cid (emitBatch (s2\<lparr>batch := Some ?b\<rparr>))" using s2 by simp
  from J_pumpProcessing[OF this] show ?thesis
    using False q by (simp add: restoreFromActiveBackgroundJobs_def new_id_def del: pumpProcessing_frame)
next
  case True
  with J show ?thesis by (simp add: restoreFromActiveBackgroundJobs_def)
qed

lemma reconcile_status: "status (reconcile_item sn) \<noteq> Queued" "it_id (reconcile_item sn) = sn_id sn"
  by (simp_all add: reconcile_item_def internalFromPersisted_def)

lemma J_restore:
  assumes J: "J cid s" and so: "stored_ok cid (storage s)"
  shows "J cid (restoreUploadBatchFromStorage s)"
proof (cases "batch s \<noteq> None \<or> restoreStarted s")
  case True
  with J show ?thesis by (auto simp: restoreUploadBatchFromStorage_def)
next
  case False
  let ?s1 = "s\<lparr>restoreStarted := True\<rparr>"
  have J1: "J cid ?s1" using J False by (auto simp: core_inv_def id_ok_def)
  show ?thesis
  proof (cases "\<exists>p. storage s = Stored p \<and> p_items p \<noteq> []")
    case nb: False
    then show ?thesis using False J1
      by (auto simp: restoreUploadBatchFromStorage_def Let_def J_plain_task split: storage_entry.split simp del: add_task_simps)
  next
    case True
    then obtain p where p: "storage s = Stored p" "p_items p \<noteq> []" by blast
    let ?its = "if p_status p = BatchComplete then map internalFromPersisted (p_items p) else reconcileRestoredItems (p_items p)"
    let ?b = "\<lparr>b_id = p_id p, b_status = p_status p, b_folderId = p_folderId p, b_items = ?its\<rparr>"
    have ok: "distinct (map sn_id (p_items p))" "sn_id ` set (p_items p) \<inter> range cid = {}"
      "\<And>sn. sn \<in> set (p_items p) \<Longrightarrow> p_status p = BatchComplete \<or> sn_needsFileReselect sn \<Longrightarrow> isTerminalStatus (sn_status sn)"
      using so p by (auto simp: stored_ok_def)
    have ids: "map it_id ?its = map sn_id (p_items p)"
      by (simp add: reconcileRestoredItems_def reconcile_status internalFromPersisted_def)
    have T: "\<exists>m. i = cid m" if "t \<in> set (tasks s)" "task_id t = Some i" for t i
    proof -
      have "id_ok cid (idCount s) False i" using J that False by (auto simp: core_inv_def)
      then show ?thesis by (auto simp: id_ok_def)
    qed
    have row: "self_ok it \<and> (\<forall>t \<in> set (tasks s). task_row_ok t it) \<and> id_ok cid (idCount s) True (it_id it) \<and>
        (p_status p = BatchComplete \<longrightarrow> isTerminalStatus (status it))" if it: "it \<in> set ?its" for it
    proof -
      from it obtain sn where sn: "sn \<in> set (p_items p)"
        "it = (if p_status p = BatchComplete then internalFromPersisted sn else reconcile_item sn)"
        by (auto simp: reconcileRestoredItems_def split: if_splits)
      have i: "it_id it = sn_id sn" using sn by (simp add: reconcile_status internalFromPersisted_def)
      then have ni: "it_id it \<notin> range cid" using ok(2) sn(1) by auto
      have "task_row_ok t it" if "t \<in> set (tasks s)" for t
      proof -
        have "task_id t \<noteq> Some (it_id it)" using T[OF that] ni by auto
        then show ?thesis by (cases "(t, it)" rule: task_row_ok.cases) auto
      qed
      moreover have "self_ok it"
        using sn ok(3)[OF sn(1)]
        by (auto simp: self_ok_def reconcile_item_def internalFromPersisted_def isTerminalStatus_def
            split: if_splits)
      moreover have "p_status p = BatchComplete \<longrightarrow> isTerminalStatus (status it)"
        using sn ok(3)[OF sn(1)] by (simp add: internalFromPersisted_def)
      ultimately show ?thesis using ni by (auto simp: id_ok_def)
    qed
    have "core_inv cid (Some ?b) (tasks s) (idCount s) True"
      unfolding core_inv_def
    proof (intro conjI ballI allI impI)
      show "distinct (map it_id (rows_of (Some ?b)))" using ids ok(1) by (simp only: rows_of_simps uploadBatch.simps)
      show "distinct (upload_ids (tasks s))" using J by (simp add: core_inv_def)
      show "id_ok cid (idCount s) True i" if "t \<in> set (tasks s)" "task_id t = Some i" for t i
        using J1 that by (simp add: core_inv_def)
    qed (use row in auto)
    then have J2: "J cid (emitBatch (?s1\<lparr>batch := Some ?b\<rparr>))" by simp
    define s2 where "s2 = emitBatch (?s1\<lparr>batch := Some ?b\<rparr>)"
    have "restoreUploadBatchFromStorage s =
        (if p_status p = BatchComplete then s2 else maybeCompleteBatch (pumpProcessingQueue s2))"
      unfolding s2_def using False p by (simp add: restoreUploadBatchFromStorage_def Let_def)
    moreover have "J cid s2" unfolding s2_def by (rule J2)
    ultimately show ?thesis using J_maybeComplete[OF J_pumpProcessing] by simp
  qed
qed

section \<open>Reachable states\<close>

lemma stage_events_frame:
  "J cid s \<Longrightarrow> J cid (fst (acquire_stage i st s))" "J cid s \<Longrightarrow> J cid (release_stages i s)"
  by simp_all

lemma sending_not_queued:
  assumes J: "J cid s" and "sending i s" and it: "it \<in> set (items s)" "it_id it = i"
  shows "status it \<noteq> Queued"
proof -
  from assms(2) obtain t0 where t0: "t0 \<in> set (tasks s)"
    "case t0 of SendTask c n r \<Rightarrow> it_id c = i | _ \<Rightarrow> False" by (auto simp: sending_def)
  obtain c n r where t: "SendTask c n r \<in> set (tasks s)" "it_id c = i"
    by (cases t0) (use t0 that in \<open>auto split: task.split_asm\<close>)
  then show ?thesis using upload_row[OF J t(1) it(1)] it(2) by simp
qed

lemma J_ingest_granted:
  assumes J: "J cid s" and t: "IngestWait i f k \<in> set (tasks s)"
  shows "J cid (add_task (IngestPoll i f) (say es (drop_task (IngestWait i f k) s)))"
proof (rule J_add_task)
  show "J cid (say es (drop_task (IngestWait i f k) s))" using J_drop_task[OF J] by simp
  show "task_row_ok (IngestPoll i f) it" if "it \<in> set (items (say es (drop_task (IngestWait i f k) s)))" for it
    using J_rowD(2)[OF J _ t, of it] that by simp
  show "id_ok cid (idCount (say es (drop_task (IngestWait i f k) s)))
      (restoreStarted (say es (drop_task (IngestWait i f k) s))) j" if "task_id (IngestPoll i f) = Some j" for j
    using J t that by (auto simp: core_inv_def)
qed simp

lemma J_upload_finished: "J cid s \<Longrightarrow> J cid (upload_finished now s)"
  unfolding upload_finished_def maybeCompleteBatchWhenIdle_def
  using J_maybeComplete[OF J_pumpProcessing[OF J_pump]] J_pumpProcessing[OF J_pump] by auto

lemma J_handle:
  assumes J: "J cid s" and inj: "inj cid" and e: "enabled cid s (now, a)"
  shows "J cid (handle cid s (now, a))"
proof (cases a)
  case (UploadStarts c n d t)
  then show ?thesis using J_upload_starts[OF J] e by simp
next
  case (RetryWoken c n t)
  then show ?thesis using J_retry_woken[OF J] e by simp
next
  case (ServerRegistered c n f)
  then show ?thesis using J_registered[OF J] e by simp
next
  case (UploadSettled c n reg r)
  then show ?thesis using J_upload_settled[OF J] e by simp
next
  case (IngestGranted i f k)
  then show ?thesis using J_ingest_granted[OF J] e by simp
next
  case (IngestSettled i f r)
  then show ?thesis using J_ingest_settled[OF J, of i f r] e by (auto split: sum.splits)
next
  case (BytesComplete i)
  then show ?thesis using J_releaseByteSlot[OF J] sending_not_queued[OF J] e by simp
next
  case (SessionReady i sid)
  have "neutral (\<lambda>it. it\<lparr>resumableServerSessionId := Some sid\<rparr>)" by (simp add: neutral_def)
  from J_neutral[OF J this] show ?thesis using SessionReady by simp
next
  case (PartTransport i tr)
  have "neutral (\<lambda>it. it\<lparr>partTransport := Some tr\<rparr>)" by (simp add: neutral_def)
  from J_neutral[OF J this] show ?thesis using PartTransport by simp
next
  case (JobsListed r)
  then show ?thesis using J_drop_task[OF J] J_restoreJobs[OF J_drop_task[OF J] inj] by (auto split: option.split)
next
  case (PumpWoken t samples)
  then show ?thesis using J_pump_woken[OF J_drop_task[OF J]] by simp
next
  case UploadFinished
  then show ?thesis using J_upload_finished[OF J_drop_task[OF J]] by simp
next
  case (ProgressGranted i u k)
  then show ?thesis using J_finish_progress[OF J_drop_task[OF J]] by simp
next
  case (ReprocessCancelDone follow ok)
  then show ?thesis using J_reprocess_cancelled[OF J_drop_task[OF J]] by simp
next
  case CancelRest
  then show ?thesis using J_cancel_rest[OF J_drop_task[OF J]] by simp
next
  case CancelAllReprocessNow
  then show ?thesis using J by (simp add: cancelAllPendingHlsReprocess_def J_plain_task del: add_task_simps)
next
  case Restore
  then show ?thesis using J_restore[OF J] e by simp
qed (use J inj in \<open>simp_all add: J_start J_pauses J_cancel J_cancelAll J_remove_row J_dismiss J_clear J_retry
    J_retryFailed J_reattach J_trackReprocess J_trackJobs J_applyProgress\<close>)

lemma J_init: "J cid (init_mgr stored)"
  by (simp add: core_inv_def init_mgr_def)

interpretation um: machine "enabled cid" "handle cid" "init_mgr stored" "\<lambda>s. inj cid \<longrightarrow> J cid s" for cid stored
proof unfold_locales
  show "inj cid \<longrightarrow> J cid (init_mgr stored)" by (simp add: J_init)
  show "inj cid \<longrightarrow> J cid (handle cid s e)" if "inj cid \<longrightarrow> J cid s" "enabled cid s e" for s e
    using that J_handle by (cases e) blast
qed

lemma J_reach: "mgr_reach cid stored s \<Longrightarrow> inj cid \<Longrightarrow> J cid s"
  using um.reach_inv by blast

end
