(* ===== verification/UploadClosing.thy ===== *)
theory UploadClosing
  imports UploadProps
begin

text \<open>
  Closing a batch of the upload manager: a batch that is still shown as running has an
  unfinished row, or a continuation that will close it is pending. The proof looks at the
  rows, the batch status and the tasks after each event.
\<close>

section \<open>Closing the batch\<close>

definition unfinished :: "mgr \<Rightarrow> bool" where
  "unfinished s \<longleftrightarrow> (\<exists>it \<in> set (items s). \<not> isTerminalStatus (status it))"

definition closing :: "mgr \<Rightarrow> bool" where
  "closing s \<longleftrightarrow> (batch_uploading s \<longrightarrow> unfinished s \<or> FinishTask \<in> set (tasks s))"

lemma batch_uploading_frame [simp]:
  "batch_uploading (emitBatch s) = batch_uploading s" "batch_uploading (add_task t s) = batch_uploading s"
  "batch_uploading (drop_task t s) = batch_uploading s" "batch_uploading (say es s) = batch_uploading s"
  "batch_uploading (release_stages i s) = batch_uploading s" "batch_uploading (pumpUploadQueue now s) = batch_uploading s"
  "batch_uploading (pumpProcessingQueue s) = batch_uploading s"
  "batch_uploading (updateItem i f s) = batch_uploading s" "batch_uploading (updateItems g s) = batch_uploading s"
  "batch_uploading (set_items its s) = batch_uploading s" "batch_uploading (cleanup_item it s) = batch_uploading s"
  "batch_uploading (s\<lparr>abortedUploadItemIds := a\<rparr>) = batch_uploading s"
  "batch_uploading (s\<lparr>resumingItemIds := a\<rparr>) = batch_uploading s"
  "batch_uploading (s\<lparr>idCount := n\<rparr>) = batch_uploading s"
  "batch_uploading (pauseUploadPumpFor now d s) = batch_uploading s"
  "batch_uploading (uploadClaimedItem now c k s) = batch_uploading s"
  by (simp_all add: batch_uploading_def updateItems_def set_items_def split: option.split)

lemma items_updates [simp]:
  "items (s\<lparr>abortedUploadItemIds := a\<rparr>) = items s" "items (s\<lparr>resumingItemIds := a\<rparr>) = items s"
  "items (s\<lparr>idCount := n\<rparr>) = items s" "items (s\<lparr>userUploadPaused := p\<rparr>) = items s"
  "batch s \<noteq> None \<Longrightarrow> items (set_items its s) = its"
  "tasks (set_items its s) = tasks s" "tasks (set_batch_status st s) = tasks s" "items (set_batch_status st s) = items s"
  "userUploadPaused (set_items its s) = userUploadPaused s" "userUploadPaused (set_batch_status st s) = userUploadPaused s"
  "effects (set_items its s) = effects s" "effects (set_batch_status st s) = effects s"
  "tasks (updateItems g s) = tasks s" "userUploadPaused (updateItems g s) = userUploadPaused s"
  "effects (updateItems g s) = effects s"
  by (auto simp: items_def set_items_def set_batch_status_def updateItems_def split: option.split)

lemma items_updateItems [simp]: "items (updateItems (map f) s) = map f (items s)"
  by (simp add: items_def updateItems_def split: option.split)

lemma items_updateItem_eq: "items (updateItem i f s) = map_item i f (items s)"
  by simp

lemma maybeComplete_frame [simp]:
  "tasks (maybeCompleteBatch s) = tasks s" "items (maybeCompleteBatch s) = items s"
  "userUploadPaused (maybeCompleteBatch s) = userUploadPaused s" "effects (maybeCompleteBatch s) = effects s"
  "idCount (maybeCompleteBatch s) = idCount s" "restoreStarted (maybeCompleteBatch s) = restoreStarted s"
  "resumingItemIds (maybeCompleteBatch s) = resumingItemIds s"
  by (auto simp: maybeCompleteBatch_def set_batch_status_def items_def split: option.split)

lemma maybeComplete_uploading:
  "batch_uploading (maybeCompleteBatch s) \<Longrightarrow> batch_uploading s \<and> unfinished s"
  by (auto simp: maybeCompleteBatch_def unfinished_def batch_uploading_def set_batch_status_def items_def
      split: if_splits option.splits)

lemma unfinished_frame [simp]:
  "unfinished (emitBatch s) = unfinished s" "unfinished (add_task t s) = unfinished s"
  "unfinished (drop_task t s) = unfinished s" "unfinished (say es s) = unfinished s"
  "unfinished (release_stages i s) = unfinished s" "unfinished (pumpUploadQueue now s) = unfinished s"
  "unfinished (pumpProcessingQueue s) = unfinished s" "unfinished (maybeCompleteBatch s) = unfinished s"
  "unfinished (cleanup_item it s) = unfinished s"
  "unfinished (uploadClaimedItem now c k s) = unfinished s"
  by (simp_all add: unfinished_def)

lemma closing_maybeComplete [simp]: "closing (maybeCompleteBatch s)"
  using maybeComplete_uploading by (auto simp: closing_def)

lemma pump_tasks: "set (tasks s) \<subseteq> set (tasks (pumpUploadQueue now s))"
  by (auto simp: pumpUploadQueue_def)

lemma resume_tasks: "set (tasks s) \<subseteq> set (tasks (resumeUploadItemProcessing it s))"
  by (auto simp: resumeUploadItemProcessing_def Let_def acquire_stage_frame split: prod.split)

lemma processing_loop_tasks: "set (tasks s) \<subseteq> set (tasks (processing_loop its s))"
proof (induction its s rule: processing_loop.induct)
  case (2 it rest s)
  then show ?case using resume_tasks[of s it] by auto
qed simp

lemma pumpProcessing_tasks: "set (tasks s) \<subseteq> set (tasks (pumpProcessingQueue s))"
  by (simp add: pumpProcessingQueue_def processing_loop_tasks)

lemma closing_mono:
  "closing s \<Longrightarrow> closing (pumpUploadQueue now s)" "closing s \<Longrightarrow> closing (pumpProcessingQueue s)"
  "closing s \<Longrightarrow> closing (emitBatch s)" "closing s \<Longrightarrow> closing (add_task t s)" "closing s \<Longrightarrow> closing (say es s)"
  "closing s \<Longrightarrow> closing (release_stages i s)" "closing s \<Longrightarrow> t \<noteq> FinishTask \<Longrightarrow> closing (drop_task t s)"
  using pump_tasks[of s now] pumpProcessing_tasks[of s] by (auto simp: closing_def)

lemma closing_finish: "closing (add_task FinishTask s)"
  by (simp add: closing_def)

lemma unfinished_update:
  assumes "unfinished s" and "\<And>it. \<not> isTerminalStatus (status it) \<Longrightarrow> \<not> isTerminalStatus (status (f it))"
  shows "unfinished (updateItem i f s)"
proof -
  obtain it where it: "it \<in> set (items s)" "\<not> isTerminalStatus (status it)" using assms(1) by (auto simp: unfinished_def)
  have "(if it_id it = i then f it else it) \<in> set (items (updateItem i f s))" using it(1) by (simp add: map_item_def)
  then show ?thesis unfolding unfinished_def by (rule bexI[rotated]) (use it(2) assms(2) in simp)
qed

lemma closing_update:
  assumes "closing s" and "\<And>it. \<not> isTerminalStatus (status it) \<Longrightarrow> \<not> isTerminalStatus (status (f it))"
  shows "closing (updateItem i f s)"
  using assms unfinished_update[of s f i] by (auto simp: closing_def)

lemma closing_no_upload: "\<not> batch_uploading s \<Longrightarrow> closing s"
  by (simp add: closing_def)

lemma closing_update_item: 
  assumes "find_item i s = Some it" and "\<not> isTerminalStatus (status (f it))"
  shows "unfinished (updateItem i f s)"
  using find_item_SomeD[OF assms(1)] assms(2) by (fastforce simp: unfinished_def in_map_item)

lemma unfinished_reopen [simp]: "unfinished (reopen_batch s) = unfinished s"
  by (simp add: unfinished_def reopen_batch_def)

lemma closing_unfinished: "unfinished s \<Longrightarrow> closing s"
  by (simp add: closing_def)

lemma closing_retry: "closing s \<Longrightarrow> closing (fst (retryUploadItem now i s))"
proof -
  have q: "unfinished (updateItem i requeue_row r)" if "find_item i r = Some it" for r it
    by (rule closing_update_item[OF that]) (simp add: requeue_row_def isTerminalStatus_def)
  assume "closing s"
  then show ?thesis
    using q[of "s\<lparr>abortedUploadItemIds := jset_delete i (abortedUploadItemIds s)\<rparr>"]
    by (auto simp: retryUploadItem_def find_item_def intro!: closing_mono closing_unfinished split: option.split)
qed

lemma closing_reattach: "closing s \<Longrightarrow> closing (fst (reattachUploadFile now i f s))"
proof -
  have q: "unfinished (updateItem i (reattach_row f) s)" if "find_item i s = Some it" for it
    by (rule closing_update_item[OF that]) (simp add: reattach_row_def isTerminalStatus_def)
  assume "closing s"
  then show ?thesis
    using q by (auto simp: reattachUploadFile_def intro!: closing_mono closing_unfinished split: option.split)
qed

lemma closing_remove: "closing s \<Longrightarrow> closing (removeItemFromActiveBatch now i s)"
proof -
  assume c: "closing s"
  define s3 where "s3 = (set_items (filter (\<lambda>it. it_id it \<noteq> i) (items (release_stages i s))) (release_stages i s))
     \<lparr>abortedUploadItemIds := jset_delete i (abortedUploadItemIds (set_items (filter (\<lambda>it. it_id it \<noteq> i)
       (items (release_stages i s))) (release_stages i s)))\<rparr>"
  have e: "removeItemFromActiveBatch now i s = (if batch s = None then s else pumpUploadQueue now (emitBatch
      (if items s3 = [] then s3\<lparr>batch := None\<rparr> else if batch_uploading s3 then maybeCompleteBatch s3 else s3)))"
    by (simp add: removeItemFromActiveBatch_def Let_def s3_def)
  have "closing (s3\<lparr>batch := None\<rparr>)" by (simp add: closing_def batch_uploading_def)
  then have "closing (if items s3 = [] then s3\<lparr>batch := None\<rparr> else if batch_uploading s3 then maybeCompleteBatch s3 else s3)"
    using closing_no_upload[of s3] by auto
  from closing_mono(1)[OF closing_mono(3)[OF this], of now] show ?thesis unfolding e using c by simp
qed

lemma closing_fold: "(\<And>x r. closing r \<Longrightarrow> closing (g x r)) \<Longrightarrow> closing s \<Longrightarrow> closing (fold g xs s)"
  by (induction xs arbitrary: s) auto

lemma closing_cancel: "closing s \<Longrightarrow> closing (cancelUploadItem now i s)"
proof -
  assume c: "closing s"
  have r: "closing (pumpProcessingQueue (maybeCompleteBatch r))" for r by (intro closing_mono closing_maybeComplete)
  have k: "closing (removeItemFromActiveBatch now i (cleanup_item it r))" if "closing r" for it r
    by (rule closing_remove) (use that in \<open>simp add: closing_def\<close>)
  have "closing (s\<lparr>abortedUploadItemIds := jset_add i (abortedUploadItemIds s)\<rparr>)"
    using c by (simp add: closing_def unfinished_def)
  then show ?thesis
    using c r k by (auto simp: cancelUploadItem_def Let_def split: option.split intro!: k closing_mono)
qed

lemma closing_start: "closing (startUploadBatch cid now ens d s) \<or> ens = []"
proof (cases "ens = []")
  case False
  obtain s1 new where q: "queuedItemsFromEntries cid d ens s = (s1, new)" by (cases "queuedItemsFromEntries cid d ens s")
  have s1: "s1 = s\<lparr>idCount := idCount s + length ens\<rparr>" using queuedItems_spec[of cid d ens s] q by simp
  have "length (map it_id new) = length ens" using queuedItems_spec[of cid d ens s] q by simp
  then obtain it where it: "it \<in> set new" using False by (cases new) auto
  then obtain i en where "it = queued_item d i en" using queuedItems_rows[of it cid d ens s] q by auto
  then have nt: "\<not> isTerminalStatus (status it)" by (simp add: queued_item_def base_item_def isTerminalStatus_def)
  show ?thesis
  proof (cases "batch_uploading s1")
    case True
    then obtain b where b: "batch s1 = Some b" "b_status b = BatchUploading" by (rule batch_uploadingE)
    have "unfinished (set_items (items s1 @ new) s1)"
      using it nt b by (auto simp: unfinished_def set_items_def items_def)
    then show ?thesis using False q True by (auto simp: startUploadBatch_def intro!: closing_mono closing_unfinished)
  next
    case nu: False
    have "unfinished ((s1\<lparr>idCount := Suc (idCount s1)\<rparr>)\<lparr>batch := Some \<lparr>b_id = cid (idCount s1), b_status = BatchUploading,
            b_folderId = d, b_items = new\<rparr>\<rparr>)"
      using it nt by (auto simp: unfinished_def items_def)
    then show ?thesis using False q nu
      by (auto simp: startUploadBatch_def new_id_def Let_def intro!: closing_mono closing_unfinished)
  qed
qed simp

lemma closing_pump_claims: "closing s \<Longrightarrow> closing (pump_claims now m s)"
proof (induction now m s rule: pump_claims.induct)
  case (1 now m s)
  show ?case
  proof (cases "countInFlightBrowserUploads s < m")
    case True
    obtain s1 co where c: "claimNextQueued s = (s1, co)" by (cases "claimNextQueued s")
    show ?thesis
    proof (cases co)
      case None
      then have "pump_claims now m s = s" using True c claim_None[of s s1] by (subst pump_claims.simps) simp
      then show ?thesis using 1 by simp
    next
      case (Some cl)
      with c have c': "claimNextQueued s = (s1, Some cl)" by simp
      from c' obtain b k where b: "batch s = Some b" "k < length (b_items b)" "cl = claim_row (b_items b ! k)"
        "s1 = emitBatch (s\<lparr>batch := Some (b\<lparr>b_items := (b_items b)[k := cl]\<rparr>)\<rparr>)" by (rule claimNextQueuedE)
      then have "cl \<in> set (items s1)" by (simp add: items_def set_update_memI)
      moreover have "\<not> isTerminalStatus (status cl)" using b by (simp add: claim_row_def isTerminalStatus_def)
      ultimately have "unfinished (uploadClaimedItem now cl 0 s1)" unfolding unfinished_def uploadClaimed_frame by blast
      moreover have "pump_claims now m s = pump_claims now m (uploadClaimedItem now cl 0 s1)"
        using c Some True by (subst pump_claims.simps) simp
      ultimately show ?thesis using 1(1)[OF True c[symmetric] Some] closing_unfinished by simp
    qed
  next
    case False
    then have "pump_claims now m s = s" by (subst pump_claims.simps) simp
    then show ?thesis using 1 by simp
  qed
qed

lemma closing_cancelAll: "closing s \<Longrightarrow> closing (cancelAllUploadItems now s)"
  by (auto simp: cancelAllUploadItems_def cancelAllPendingHlsReprocess_def Let_def
      intro!: closing_fold closing_cancel closing_mono)

lemma closing_reprocess_cancelled: "closing s \<Longrightarrow> closing (reprocess_cancelled follow ok s)"
  by (auto simp: reprocess_cancelled_def Let_def intro!: closing_mono)

lemma closing_remove_row: "closing s \<Longrightarrow> closing (removeUploadBatchItem now i s)"
proof -
  assume c: "closing s"
  have "closing (removeItemFromActiveBatch now i (cleanup_item it s))" for it
    by (rule closing_remove) (use c in \<open>simp add: closing_def\<close>)
  with c show ?thesis by (auto simp: removeUploadBatchItem_def split: option.split)
qed

lemma closing_clear: "closing s \<Longrightarrow> closing (clearCancelledHlsReprocessItems s)"
proof -
  assume c: "closing s"
  have "closing (r\<lparr>batch := None\<rparr>)" for r by (simp add: closing_def batch_uploading_def)
  with c show ?thesis by (auto simp: clearCancelledHlsReprocessItems_def Let_def intro!: closing_mono)
qed

lemma closing_pauses: "closing s \<Longrightarrow> closing (setUploadBatchPaused now p s)" "closing s \<Longrightarrow> closing (setUploadItemPaused now i p s)"
proof -
  assume c: "closing s"
  then have c1: "closing (s\<lparr>userUploadPaused := p\<rparr>)" by (simp add: closing_def batch_uploading_def unfinished_def items_def)
  then show "closing (setUploadBatchPaused now p s)"
    by (auto simp: setUploadBatchPaused_def Let_def intro!: closing_mono)
  have "closing (updateItem i (\<lambda>it. if status it = Queued then it\<lparr>paused := p\<rparr> else it) s)"
    by (rule closing_update[OF c]) (simp add: isTerminalStatus_def)
  then show "closing (setUploadItemPaused now i p s)"
    using c by (auto simp: setUploadItemPaused_def Let_def intro!: closing_mono)
qed

lemma closing_retryFailed: "closing s \<Longrightarrow> closing (fst (retryFailedUploadItems now s))"
proof -
  have "closing (fst (fold (\<lambda>i (s, n). let (s1, ok) = retryUploadItem now i s in (s1, if ok then n + 1 else n)) ids r))"
    if "closing (fst r)" for ids and r :: "mgr \<times> int"
    using that
  proof (induction ids arbitrary: r)
    case (Cons i ids)
    obtain s0 n where r: "r = (s0, n)" by (cases r)
    obtain s1 ok where q: "retryUploadItem now i s0 = (s1, ok)" by (cases "retryUploadItem now i s0")
    have "closing s1" using closing_retry[of s0 now i] Cons.prems r q by simp
    then show ?case using Cons.IH[of "(s1, if ok then n + 1 else n)"] r q by simp
  qed simp
  then show "closing s \<Longrightarrow> ?thesis" by (simp add: retryFailedUploadItems_def)
qed

lemma track_rows_spec:
  assumes "batch_uploading s"
  shows "batch_uploading (fst (track_rows cid key mk xs s n)) \<and>
    tasks (fst (track_rows cid key mk xs s n)) = tasks s \<and>
    userUploadPaused (fst (track_rows cid key mk xs s n)) = userUploadPaused s \<and>
    effects (fst (track_rows cid key mk xs s n)) = effects s \<and>
    n \<le> snd (track_rows cid key mk xs s n) \<and>
    set (items s) \<subseteq> set (items (fst (track_rows cid key mk xs s n))) \<and>
    (\<forall>it \<in> set (items (fst (track_rows cid key mk xs s n))). it \<in> set (items s) \<or> (\<exists>i. \<exists>x \<in> set xs. it = mk i x)) \<and>
    (xs \<noteq> [] \<longrightarrow> (\<forall>it \<in> set (items s). isTerminalStatus (status it)) \<longrightarrow>
       (\<exists>i. \<exists>x \<in> set xs. mk i x \<in> set (items (fst (track_rows cid key mk xs s n)))))"
  using assms
proof (induction xs arbitrary: s n)
  case (Cons x xs)
  show ?case
  proof (cases "already_tracked (key x) s")
    case True
    then have "\<not> (\<forall>it \<in> set (items s). isTerminalStatus (status it))"
      by (fastforce simp: already_tracked_def isTerminalStatus_def)
    with True Cons.IH[OF Cons.prems, of n] show ?thesis by auto
  next
    case False
    from Cons.prems obtain b where b: "batch s = Some b" "b_status b = BatchUploading" by (rule batch_uploadingE)
    let ?m = "mk (cid (idCount s)) x" and ?s1 = "s\<lparr>idCount := Suc (idCount s)\<rparr>"
    let ?s2 = "set_items (items ?s1 @ [?m]) ?s1"
    have e: "track_rows cid key mk (x # xs) s n = track_rows cid key mk xs ?s2 (n + 1)"
      using False by (simp add: new_id_def)
    have s2: "batch_uploading ?s2" "items ?s2 = items s @ [?m]" "tasks ?s2 = tasks s" "effects ?s2 = effects s"
      "userUploadPaused ?s2 = userUploadPaused s"
      using b by (simp_all add: batch_uploading_def) (simp add: set_items_def)
    from Cons.IH[OF s2(1), of "n + 1"] show ?thesis unfolding e s2 by auto
  qed
qed simp

lemma closing_track:
  assumes J: "J cid s" and c: "closing s" and ne: "xs \<noteq> []"
    and mk: "\<And>i x. \<not> isTerminalStatus (status (mk i x))"
  shows "closing (finish_tracking (track_rows cid key mk xs (ensureUploadingBatch cid s) 0))"
proof -
  let ?e = "ensureUploadingBatch cid s"
  let ?r = "track_rows cid key mk xs ?e 0"
  have ie: "items ?e = items s" "tasks ?e = tasks s"
    by (auto simp: ensureUploadingBatch_def new_id_def items_def Let_def)
  note sp = track_rows_spec[OF conjunct2[OF J_ensure[OF J]], where key = key and mk = mk and xs = xs and n = 0 and cid = cid]
  have "unfinished (fst ?r) \<or> FinishTask \<in> set (tasks (fst ?r))"
  proof (cases "batch_uploading s")
    case True
    then have "unfinished s \<or> FinishTask \<in> set (tasks s)" using c by (simp add: closing_def)
    with sp ie show ?thesis by (auto simp: unfinished_def)
  next
    case False
    have "isTerminalStatus (status it)" if "it \<in> set (items s)" for it
    proof -
      from that obtain b where b: "batch s = Some b" by (cases "batch s") (auto simp: items_def)
      with False have "complete (batch s)" using batch_status.exhaust by (auto simp: batch_uploading_def)
      then show ?thesis using J_rowD(4)[OF J that] by simp
    qed
    with sp ie ne obtain i x where "mk i x \<in> set (items (fst ?r))" by auto
    with mk show ?thesis by (auto simp: unfinished_def)
  qed
  then have "closing (fst ?r)" "closing (set_batch_status BatchUploading (fst ?r))"
    by (auto simp: closing_def unfinished_def)
  then show ?thesis by (auto simp: finish_tracking_def intro!: closing_mono)
qed

lemma job_items_rows: "it \<in> set (snd (job_items cid js s)) \<Longrightarrow> \<exists>i. \<exists>j \<in> set js. it = job_item i j"
proof (induction js arbitrary: s)
  case (Cons j js)
  obtain s2 its where q: "job_items cid js (s\<lparr>idCount := Suc (idCount s)\<rparr>) = (s2, its)"
    by (cases "job_items cid js (s\<lparr>idCount := Suc (idCount s)\<rparr>)")
  with Cons.prems have "it = job_item (cid (idCount s)) j \<or> it \<in> set its" by (simp add: new_id_def)
  with Cons.IH[of "s\<lparr>idCount := Suc (idCount s)\<rparr>"] q show ?case by auto
qed simp

lemma closing_restoreJobs: "closing s \<Longrightarrow> closing (restoreFromActiveBackgroundJobs cid js s)"
proof (cases "active_jobs js = []")
  case False
  obtain s2 its where q: "job_items cid (active_jobs js) (s\<lparr>idCount := Suc (idCount s)\<rparr>) = (s2, its)"
    by (cases "job_items cid (active_jobs js) (s\<lparr>idCount := Suc (idCount s)\<rparr>)")
  have "length (map it_id its) = length (active_jobs js)"
    using job_items_spec[of cid "active_jobs js" "s\<lparr>idCount := Suc (idCount s)\<rparr>"] q by simp
  then obtain it where it: "it \<in> set its" using False by (cases its) auto
  then obtain i j where "it = job_item i j"
    using job_items_rows[of it cid "active_jobs js" "s\<lparr>idCount := Suc (idCount s)\<rparr>"] q by auto
  then have "\<not> isTerminalStatus (status it)" by (simp add: job_item_def Let_def base_item_def isTerminalStatus_def)
  with it have "unfinished (s2\<lparr>batch := Some \<lparr>b_id = b, b_status = BatchUploading, b_folderId = None, b_items = its\<rparr>\<rparr>)" for b
    by (auto simp: unfinished_def items_def)
  then show ?thesis using False q
    by (auto simp: restoreFromActiveBackgroundJobs_def new_id_def intro!: closing_mono closing_unfinished)
qed (simp add: restoreFromActiveBackgroundJobs_def)

lemma closing_restore: "closing s \<Longrightarrow> closing (restoreUploadBatchFromStorage s)"
proof -
  assume c: "closing s"
  have 1: "closing (s\<lparr>restoreStarted := True\<rparr>)"
    using c by (simp add: closing_def batch_uploading_def unfinished_def items_def)
  have 2: "closing (s\<lparr>restoreStarted := True, storage := e\<rparr>)" for e
    using c by (simp add: closing_def batch_uploading_def unfinished_def items_def)
  have 3: "closing (emitBatch (r\<lparr>batch := Some \<lparr>b_id = a, b_status = BatchComplete, b_folderId = f, b_items = its\<rparr>\<rparr>))" for r a f its
    by (simp add: closing_def batch_uploading_def)
  show ?thesis using c 1 2 3
    by (auto simp: restoreUploadBatchFromStorage_def Let_def intro!: closing_mono split: storage_entry.split)
qed

lemma closing_finished: "closing (upload_finished now (drop_task FinishTask s))"
proof -
  define r where "r = pumpProcessingQueue (pumpUploadQueue now (drop_task FinishTask s))"
  have "unfinished r" if "\<exists>it \<in> set (items r). status it = Queued \<or> status it = Uploading"
  proof -
    from that obtain it where it: "it \<in> set (items r)" "status it = Queued \<or> status it = Uploading" by blast
    then have "\<not> isTerminalStatus (status it)" by (auto simp: isTerminalStatus_def)
    with it show ?thesis by (auto simp: unfinished_def)
  qed
  then show ?thesis
    unfolding upload_finished_def r_def[symmetric] maybeCompleteBatchWhenIdle_def by (auto simp: closing_def)
      (use closing_maybeComplete[of r] in \<open>auto simp: closing_def\<close>)
qed

lemma closing_upload_failed: "closing s \<Longrightarrow> closing (upload_failed now c k e s)"
proof -
  assume c: "closing s"
  have "closing (updateItem i (mark_retrying n) r)" if "closing r" for i n r
    by (rule closing_update[OF that]) (simp add: mark_retrying_def isTerminalStatus_def)
  moreover have "closing (release_stages i s)" "closing (pauseUploadPumpFor now d (release_stages i s))" for i d
    using c by (simp_all add: closing_def unfinished_def)
  ultimately show ?thesis
    by (auto simp: upload_failed_def Let_def intro!: closing_mono(4) closing_finish)
qed

lemma closing_settled: "closing s \<Longrightarrow> closing (upload_settled now c k r s)"
  by (auto simp: upload_settled_def Let_def closing_upload_failed closing_finish split: sum.split option.split)

lemma closing_progress:
  "closing s \<Longrightarrow> closing (finish_progress i u s)" "closing s \<Longrightarrow> closing (applyPipelinedProgress i u s)"
proof -
  assume c: "closing s"
  have a: "closing (fst (acquire_stage i st s))" for st
    using c by (simp add: closing_def batch_uploading_def unfinished_def items_def)
  show f: "closing (finish_progress i u s)"
    using c by (auto simp: finish_progress_def applyUploadProgressUpdate_def intro!: closing_update)
  show "closing (applyPipelinedProgress i u s)"
    using c f a by (auto simp: applyPipelinedProgress_def split: upload_phase.split prod.split intro!: closing_mono)
      (metis fst_conv a)
qed

lemma closing_releaseSlot: "closing s \<Longrightarrow> closing (releaseUploadByteSlot now i s)"
  by (auto simp: releaseUploadByteSlot_def intro!: closing_mono closing_update split: option.split)

lemma closing_handle:
  assumes J: "J cid s" and c: "closing s"
  shows "closing (handle cid s (now, a))"
proof (cases a)
  case (StartBatch ens d)
  then show ?thesis using closing_start[of cid now ens d s] c by (auto simp: startUploadBatch_def)
next
  case (TrackReprocess fs)
  then show ?thesis
    using c closing_track[OF J c, of fs reprocess_item fi_id]
    by (auto simp: trackHlsReprocessFiles_def reprocess_item_def base_item_def isTerminalStatus_def Let_def)
next
  case (TrackJobs js)
  then show ?thesis
    using c closing_track[OF J c, of "active_jobs js" job_item job_file]
    by (auto simp: trackActiveHlsEncodeJobs_def job_item_def base_item_def isTerminalStatus_def Let_def)
next
  case (StagesReleased i)
  then show ?thesis using c by (auto intro: closing_mono)
next
  case (StageAcquired i st)
  then show ?thesis using c by (simp add: closing_def batch_uploading_def unfinished_def items_def)
next
  case (RetryWoken i n t)
  have "closing (uploadClaimedItem now i n r)" if "closing r" for r
    using that by (auto simp: uploadClaimedItem_def intro!: closing_mono closing_finish split: option.split)
  then show ?thesis using c RetryWoken by (auto simp: retry_woken_def intro!: closing_finish closing_mono)
next
  case (ServerRegistered cl n f)
  have u: "closing (updateItem i (register_row f) r)" if "closing r" for i r
    by (rule closing_update[OF that]) (simp add: register_row_def)
  show ?thesis using c ServerRegistered by (auto simp: registerUploadServerFile_def intro!: closing_mono u)
next
  case (IngestSettled i f r)
  then show ?thesis by (simp add: ingest_settled_def Let_def)
next
  case (UploadSettled cl n reg r)
  then show ?thesis using c by (auto intro!: closing_settled closing_mono)
next
  case (JobsListed r)
  then show ?thesis using c by (auto intro!: closing_restoreJobs closing_mono split: option.split)
next
  case CancelRest
  have "closing (drop_task CancelRestTask s)" using c by (auto intro: closing_mono)
  then show ?thesis using CancelRest by (auto simp: cancel_rest_def intro!: closing_fold closing_cancel)
next
  case (PumpWoken t samples)
  then show ?thesis using c by (auto simp: pump_woken_def intro!: closing_pump_claims closing_mono)
next
  case (StorageChanged e)
  then show ?thesis using c by (simp add: closing_def batch_uploading_def unfinished_def items_def)
next
  case (SessionReady i sid)
  then show ?thesis using c by (auto intro!: closing_update)
next
  case (PartTransport i tr)
  then show ?thesis using c by (auto intro!: closing_update)
next
  case Dismiss
  then show ?thesis using c by (auto simp: dismissUploadBatch_def closing_def batch_uploading_def)
qed (use c in \<open>auto intro!: closing_mono closing_cancel closing_cancelAll closing_remove_row closing_clear closing_retry
    closing_retryFailed closing_reattach closing_restore closing_pauses closing_finished closing_progress
    closing_reprocess_cancelled closing_releaseSlot simp: cancelAllPendingHlsReprocess_def\<close>)

interpretation uc: machine "enabled cid" "handle cid" "init_mgr stored"
  "\<lambda>s. inj cid \<longrightarrow> J cid s \<and> closing s" for cid stored
proof unfold_locales
  have "closing (init_mgr stored)" by (simp add: closing_def init_mgr_def batch_uploading_def)
  then show "inj cid \<longrightarrow> J cid (init_mgr stored) \<and> closing (init_mgr stored)" using J_init by blast
  show "inj cid \<longrightarrow> J cid (handle cid s e) \<and> closing (handle cid s e)"
    if "inj cid \<longrightarrow> J cid s \<and> closing s" "enabled cid s e" for s e
    using that J_handle closing_handle by (cases e) blast
qed

text \<open>C4. In every reachable state the ids of the rows are distinct, a batch that is shown as complete
  has only finished rows (done, failed or cancelled), and a batch that is shown as running
  has a row that is queued or uploading, or the end of an upload attempt is about to run
  and will close it.\<close>

theorem batch_status_correct:
  assumes "mgr_reach cid stored s" and "inj cid" and "batch s = Some b"
  shows "distinct (map it_id (b_items b)) \<and>
    (b_status b = BatchComplete \<longrightarrow> (\<forall>it \<in> set (b_items b). isTerminalStatus (status it))) \<and>
    (b_status b = BatchUploading \<longrightarrow>
       (\<exists>it \<in> set (b_items b). \<not> isTerminalStatus (status it)) \<or> FinishTask \<in> set (tasks s))"
proof -
  from uc.reach_inv[OF assms(1)] assms(2) have J: "J cid s" and c: "closing s" by auto
  show ?thesis
    using J c assms(3) by (auto simp: core_inv_def closing_def unfinished_def batch_uploading_def items_def)
qed

text \<open>A concrete run: one file is dropped on the page.\<close>

definition demo_ids :: "nat \<Rightarrow> string" where
  "demo_ids n = replicate n CHR ''a''"

definition demo_entry :: uploadBatchEntry where
  "demo_entry = \<lparr>en_file = \<lparr>uf_name = ''f'', uf_size = 3, uf_type = ''t'', webkitRelativePath = None\<rparr>,
     en_folderId = None, en_relativePath = None, en_contentHash = None\<rparr>"

definition demo_run :: "(int \<times> action) list \<Rightarrow> mgr" where
  "demo_run es = fold (\<lambda>e s. handle demo_ids s e) es (init_mgr NoEntry)"

lemma demo_ids_inj [simp]: "inj demo_ids"
  by (rule injI) (metis demo_ids_def length_replicate)

lemma demo_init: "mgr_reach demo_ids NoEntry (demo_run [])"
  by (simp add: demo_run_def reach_init)

lemma demo_step:
  "mgr_reach demo_ids NoEntry (demo_run es) \<Longrightarrow> enabled demo_ids (demo_run es) e \<Longrightarrow>
   mgr_reach demo_ids NoEntry (demo_run (es @ [e]))"
  by (simp add: demo_run_def reach_step)

text \<open>The upload is cancelled while its request runs: the row is finished, the batch is closed
  by the pending end of the attempt.\<close>

definition demo_error :: uploadError where
  "demo_error = \<lparr>is_api_error = True, e_code = ''upload_cancelled'', e_status = 0, retryAfterSeconds = None,
     e_message = []\<rparr>"

definition demo_claimed :: uploadItem where
  "demo_claimed = claim_row (queued_item None (demo_ids 0) demo_entry)"

definition demo_sending :: "(int \<times> action) list" where
  "demo_sending = [(0, StartBatch [demo_entry] None), (0, PumpWoken 0 []), (0, UploadStarts demo_claimed 0 None 0)]"

lemma demo_sending_reach: "mgr_reach demo_ids NoEntry (demo_run demo_sending)"
proof -
  let ?a = "(0, StartBatch [demo_entry] None)" and ?b = "(0, PumpWoken 0 [])" and ?c = "(0, UploadStarts demo_claimed 0 None 0)"
  have "enabled demo_ids (demo_run []) ?a" by simp
  from demo_step[OF demo_init this] have r: "mgr_reach demo_ids NoEntry (demo_run [?a])" by simp
  have "enabled demo_ids (demo_run [?a]) ?b" unfolding enabled.simps by code_simp
  from demo_step[OF r this] have r: "mgr_reach demo_ids NoEntry (demo_run [?a, ?b])" by simp
  have "enabled demo_ids (demo_run [?a, ?b]) ?c" unfolding enabled.simps by code_simp
  from demo_step[OF r this] show ?thesis by (simp add: demo_sending_def)
qed

definition demo_cancelled :: mgr where
  "demo_cancelled = demo_run (demo_sending @ [(0, UploadSettled demo_claimed 0 None (Inl demo_error))])"

lemma demo_cancelled_reach: "mgr_reach demo_ids NoEntry demo_cancelled"
proof -
  have "enabled demo_ids (demo_run demo_sending) (0, UploadSettled demo_claimed 0 None (Inl demo_error))"
    unfolding enabled.simps by code_simp
  from demo_step[OF demo_sending_reach this] show ?thesis unfolding demo_cancelled_def .
qed

lemma demo_cancelled_eq: "demo_cancelled =
    upload_failed 0 demo_claimed 0 demo_error (drop_task (SendTask demo_claimed 0 None) (demo_run demo_sending))"
  by (simp add: demo_cancelled_def demo_run_def upload_settled_def)

theorem batch_status_correct_witness:
  "\<exists>b. batch demo_cancelled = Some b \<and> b_status b = BatchUploading \<and> distinct (map it_id (b_items b)) \<and>
     map status (b_items b) = [Cancelled] \<and> FinishTask \<in> set (tasks demo_cancelled)"
proof -
  have "map_option (\<lambda>b. (b_status b, map status (b_items b))) (batch demo_cancelled) = Some (BatchUploading, [Cancelled])"
    unfolding demo_cancelled_eq by code_simp
  then obtain b where b: "batch demo_cancelled = Some b" "b_status b = BatchUploading" "map status (b_items b) = [Cancelled]"
    by auto
  then have "\<forall>it \<in> set (b_items b). isTerminalStatus (status it)"
    by (auto simp: isTerminalStatus_def map_eq_Cons_conv)
  with batch_status_correct[OF demo_cancelled_reach demo_ids_inj b(1)] b(2)
  have "distinct (map it_id (b_items b)) \<and> FinishTask \<in> set (tasks demo_cancelled)" by blast
  with b show ?thesis by (intro exI[of _ b]) simp
qed

end
