(* ===== verification/UploadLive.thy ===== *)
theory UploadLive
  imports UploadClosing
begin

text \<open>
  Progress of the upload manager: a row that is queued is never forgotten, and at most three
  rows hold one of the browser's upload slots.
\<close>

section \<open>Queued rows are started\<close>

definition work :: "mgr \<Rightarrow> bool" where
  "work s \<longleftrightarrow> (\<exists>t \<in> set (tasks s). is_upload t \<or> t = FinishTask \<or> (\<exists>u. t = PumpTask u))"

definition demand :: "mgr \<Rightarrow> bool" where
  "demand s \<longleftrightarrow> batch_uploading s \<and> \<not> userUploadPaused s \<and> (\<exists>it \<in> set (items s). status it = Queued \<and> \<not> paused it)"

text \<open>
  A row that holds a browser slot has an upload attempt, and every attempt has its file;
  \<open>X\<close> are rows whose attempt is being replaced. At most three rows hold a slot.
\<close>

definition in_flight :: "uploadItem \<Rightarrow> bool" where
  "in_flight it \<longleftrightarrow> status it = Uploading \<and> localFile it \<noteq> None"

fun task_file_ok :: "task \<Rightarrow> bool" where
  "task_file_ok (StartTask c n d t) = (localFile c \<noteq> None)"
| "task_file_ok (SendTask c n r) = (localFile c \<noteq> None)"
| "task_file_ok (RetryTask c n t) = (localFile c \<noteq> None)"
| "task_file_ok _ = True"

definition uploads :: "mgr \<Rightarrow> task list" where
  "uploads s = filter is_upload (tasks s)"

definition slots :: "string set \<Rightarrow> mgr \<Rightarrow> bool" where
  "slots X s \<longleftrightarrow> (\<forall>it \<in> set (items s). in_flight it \<longrightarrow> it_id it \<in> X \<or> Some (it_id it) \<in> task_id ` set (uploads s)) \<and>
     (\<forall>t \<in> set (uploads s). task_file_ok t) \<and> length (filter in_flight (items s)) \<le> 3"

definition served :: "mgr \<Rightarrow> bool" where
  "served s \<longleftrightarrow> (demand s \<longrightarrow> work s)"

lemma work_mono: "set (tasks s) \<subseteq> set (tasks s') \<Longrightarrow> work s \<Longrightarrow> work s'"
  by (auto simp: work_def)

lemma countInFlight_eq: "countInFlightBrowserUploads s = int (length (filter in_flight (items s)))"
  by (simp add: countInFlightBrowserUploads_def in_flight_def[abs_def])

lemma slots_cong: "items s' = items s \<Longrightarrow> uploads s' = uploads s \<Longrightarrow> slots X s' = slots X s"
  by (simp add: slots_def)

lemma uploads_frame [simp]:
  "uploads (emitBatch s) = uploads s" "uploads (say es s) = uploads s" "uploads (release_stages i s) = uploads s"
  "uploads (add_task t s) = uploads s @ (if is_upload t then [t] else [])"
  "uploads (updateItem i f s) = uploads s" "uploads (updateItems g s) = uploads s" "uploads (maybeCompleteBatch s) = uploads s"
  "uploads (set_items its s) = uploads s" "uploads (set_batch_status st s) = uploads s"
  "uploads (cleanup_item it s) = uploads s" "uploads (pauseUploadPumpFor now d s) = uploads s"
  "uploads (s\<lparr>abortedUploadItemIds := a\<rparr>) = uploads s" "uploads (s\<lparr>resumingItemIds := a\<rparr>) = uploads s"
  "uploads (s\<lparr>idCount := n\<rparr>) = uploads s" "uploads (s\<lparr>userUploadPaused := p\<rparr>) = uploads s"
  "uploads (s\<lparr>batch := b\<rparr>) = uploads s" "uploads (s\<lparr>storage := e\<rparr>) = uploads s"
  "uploads (s\<lparr>restoreStarted := r\<rparr>) = uploads s"
  by (simp_all add: uploads_def)

lemma uploads_drop [simp]: "\<not> is_upload t \<Longrightarrow> uploads (drop_task t s) = uploads s"
  by (simp add: uploads_def filter_remove1 remove1_idem)

lemma uploads_pumps [simp]:
  "uploads (pumpUploadQueue now s) = uploads s"
  by (simp add: pumpUploadQueue_def)

lemma uploads_resume [simp]: "uploads (resumeUploadItemProcessing it s) = uploads s"
  by (auto simp: resumeUploadItemProcessing_def Let_def uploads_def acquire_stage_frame split: prod.split)

lemma uploads_processing_loop [simp]: "uploads (processing_loop its s) = uploads s"
  by (induction its s rule: processing_loop.induct) auto

lemma uploads_pumpProcessing [simp]: "uploads (pumpProcessingQueue s) = uploads s"
  by (simp add: pumpProcessingQueue_def)

lemma filter_map_le: "(\<And>x. x \<in> set xs \<Longrightarrow> P (g x) \<Longrightarrow> P x) \<Longrightarrow> length (filter P (map g xs)) \<le> length (filter P xs)"
  by (induction xs) (auto simp: le_Suc_eq)

lemma slots_map:
  assumes "slots X s" and f: "\<And>it. it \<in> set (items s) \<Longrightarrow> it_id (f it) = it_id it \<and> (in_flight (f it) \<longrightarrow> in_flight it)"
  shows "slots X (updateItems (map f) s)"
proof -
  have "length (filter in_flight (map f (items s))) \<le> length (filter in_flight (items s))"
    by (rule filter_map_le) (use f in blast)
  then show ?thesis using assms by (auto simp: slots_def)
qed

lemma slots_update:
  assumes "slots X s" and "\<And>it. it \<in> set (items s) \<Longrightarrow> it_id it = i \<Longrightarrow> it_id (f it) = i \<and> (in_flight (f it) \<longrightarrow> in_flight it)"
  shows "slots X (updateItem i f s)"
  unfolding updateItem_def map_item_def by (rule slots_map[OF assms(1)]) (use assms(2) in auto)

lemma slots_update_out:
  assumes "slots {i} s" and f: "\<And>it. it \<in> set (items s) \<Longrightarrow> it_id it = i \<Longrightarrow> it_id (f it) = i \<and> \<not> in_flight (f it)"
  shows "slots {} (updateItem i f s)"
proof -
  have "slots {i} (updateItem i f s)" by (rule slots_update[OF assms(1)]) (use f in blast)
  moreover have "\<not> in_flight it" if "it \<in> set (items (updateItem i f s))" "it_id it = i" for it
  proof -
    from that(1) obtain e where e: "e \<in> set (items s)" "it = (if it_id e = i then f e else e)"
      unfolding items_updateItem_eq in_map_item by blast
    show ?thesis
    proof (cases "it_id e = i")
      case True
      then show ?thesis using f[OF e(1)] e(2) by simp
    next
      case False
      then show ?thesis using e(2) that(2) by simp
    qed
  qed
  ultimately show ?thesis by (auto simp: slots_def)
qed

lemma slots_weaken: "slots {} s \<Longrightarrow> slots X s"
  by (auto simp: slots_def)

lemma slots_drop_upload: "slots {} s \<Longrightarrow> task_id t = Some i \<Longrightarrow> slots {i} (drop_task t s)"
  by (auto simp: slots_def uploads_def image_iff in_set_remove1 dest: set_remove1_subset[THEN subsetD])
    (metis in_set_remove1 option.sel)

lemma slots_add_upload:
  "slots {i} s \<Longrightarrow> is_upload t \<Longrightarrow> task_id t = Some i \<Longrightarrow> task_file_ok t \<Longrightarrow> slots {} (add_task t s)"
  by (auto simp: slots_def)

lemma slots_add_other: "slots X s \<Longrightarrow> \<not> is_upload t \<Longrightarrow> slots X (add_task t s)"
  by (simp add: slots_def)

lemma slots_no_row: "slots {i} s \<Longrightarrow> (\<And>it. it \<in> set (items s) \<Longrightarrow> it_id it = i \<Longrightarrow> \<not> in_flight it) \<Longrightarrow> slots {} s"
  by (auto simp: slots_def)

lemma slots_subset:
  assumes "slots X s" and "set (items s') \<subseteq> set (items s)" and "length (filter in_flight (items s')) \<le> length (filter in_flight (items s))"
    and "uploads s' = uploads s"
  shows "slots X s'"
  using assms by (auto simp: slots_def)

lemma slots_none: "slots X s \<Longrightarrow> (\<And>it. it \<in> set (items s') \<Longrightarrow> \<not> in_flight it) \<Longrightarrow> uploads s' = uploads s \<Longrightarrow> slots X s'"
  by (auto simp: slots_def filter_False)

lemma filter_filter_le: "length (filter (\<lambda>x. Q x \<and> P x) xs) \<le> length (filter P xs)"
  by (induction xs) auto

text \<open>The claiming loop.\<close>

lemma filter_update_Suc:
  "k < length xs \<Longrightarrow> \<not> P (xs ! k) \<Longrightarrow> P y \<Longrightarrow> length (filter P (xs[k := y])) = Suc (length (filter P xs))"
proof (induction xs arbitrary: k)
  case (Cons x xs)
  then show ?case by (cases k) auto
qed simp

lemma slots_claim:
  assumes J: "J cid s" and S: "slots {} s" and c: "claimNextQueued s = (s1, Some c)"
    and lt: "countInFlightBrowserUploads s < m" and m: "m \<le> 3"
  shows "slots {} (uploadClaimedItem now c 0 s1)" and "work (uploadClaimedItem now c 0 s1)"
proof -
  note jc = J_claim[OF J c]
  from c obtain b k where b: "batch s = Some b" "k < length (b_items b)" "status (b_items b ! k) = Queued"
    "c = claim_row (b_items b ! k)" "s1 = emitBatch (s\<lparr>batch := Some (b\<lparr>b_items := (b_items b)[k := c]\<rparr>)\<rparr>)"
    by (rule claimNextQueuedE)
  have i1: "items s1 = (items s)[k := c]" using b by (simp add: items_def)
  have fc: "in_flight c" "\<not> in_flight (b_items b ! k)"
    using b jc(2) by (auto simp: in_flight_def claim_row_def)
  have "length (filter in_flight (items s1)) = Suc (length (filter in_flight (items s)))"
    unfolding i1 by (rule filter_update_Suc) (use b fc in \<open>simp_all add: items_def\<close>)
  then have le: "length (filter in_flight (items s1)) \<le> 3" using lt m by (simp add: countInFlight_eq)
  have "set (items s1) \<subseteq> insert c (set (items s))" unfolding i1 by (rule set_update_subset_insert)
  then have "slots {it_id c} s1" using S le b by (auto simp: slots_def uploads_def)
  moreover obtain b1 where "batch s1 = Some b1" using b by simp
  moreover obtain f where "localFile c = Some f" using jc(2) by blast
  ultimately show "slots {} (uploadClaimedItem now c 0 s1)" "work (uploadClaimedItem now c 0 s1)"
    by (auto simp: uploadClaimedItem_def work_def intro!: slots_add_upload)
qed

lemma uploadClaimed_tasks: "set (tasks s) \<subseteq> set (tasks (uploadClaimedItem now c k s))"
  by (auto simp: uploadClaimedItem_def split: option.split)

lemma claim_tasks: "claimNextQueued s = (s1, Some c) \<Longrightarrow> tasks s1 = tasks s"
  by (elim claimNextQueuedE) simp

lemma J_claimed:
  assumes "J cid s" and "claimNextQueued s = (s1, Some c)"
  shows "J cid (uploadClaimedItem now c 0 s1)"
proof -
  note jc = J_claim[OF assms]
  have "unregistered_row it" if "it \<in> set (items s1)" "it_id it = it_id c" for it
    using row_unique[OF jc(1) that(1) jc(5) that(2)] jc(4) by simp
  then show ?thesis by (rule J_uploadClaimed[OF jc(1,3) _ J_rowD(3)[OF jc(1,5)]])
qed

lemma pump_claims_cases:
  obtains "\<not> countInFlightBrowserUploads s < m" "pump_claims now m s = s"
  | "countInFlightBrowserUploads s < m" "claimNextQueued s = (s, None)" "pump_claims now m s = s"
  | s1 c where "countInFlightBrowserUploads s < m" "claimNextQueued s = (s1, Some c)"
      "pump_claims now m s = pump_claims now m (uploadClaimedItem now c 0 s1)"
proof (cases "countInFlightBrowserUploads s < m")
  case True
  obtain s1 co where c: "claimNextQueued s = (s1, co)" by (cases "claimNextQueued s")
  show thesis
  proof (cases co)
    case None
    then have "pump_claims now m s = s" using True c claim_None[of s s1] by (subst pump_claims.simps) simp
    then show thesis using that(2) True None c claim_None[of s s1] by simp
  next
    case (Some cl)
    then have "pump_claims now m s = pump_claims now m (uploadClaimedItem now cl 0 s1)"
      using c True by (subst pump_claims.simps) simp
    then show thesis using that(3) True c Some by simp
  qed
next
  case False
  then have "pump_claims now m s = s" by (subst pump_claims.simps) simp
  then show thesis using that(1) False by simp
qed

lemma slots_pump_claims:
  "J cid s \<Longrightarrow> slots {} s \<Longrightarrow> m \<le> 3 \<Longrightarrow> slots {} (pump_claims now m s) \<and> set (tasks s) \<subseteq> set (tasks (pump_claims now m s))"
proof (induction now m s rule: pump_claims.induct)
  case (1 now m s)
  show ?case
  proof (cases rule: pump_claims_cases[of s m now])
    case (3 s1 c)
    have "slots {} (pump_claims now m (uploadClaimedItem now c 0 s1)) \<and>
        set (tasks (uploadClaimedItem now c 0 s1)) \<subseteq> set (tasks (pump_claims now m (uploadClaimedItem now c 0 s1)))"
      by (rule 1(1)[OF 3(1) 3(2)[symmetric] refl J_claimed[OF "1.prems"(1) 3(2)]
            slots_claim(1)[OF "1.prems"(1,2) 3(2,1) "1.prems"(3)] "1.prems"(3)])
    then show ?thesis using 3 uploadClaimed_tasks[of s1 now c 0] claim_tasks[OF 3(2)] by auto
  qed (use 1 in auto)
qed

lemma served_pump_claims:
  assumes J: "J cid s" and S: "slots {} s" and m: "1 \<le> m" "m \<le> 3"
  shows "served (pump_claims now m s)"
proof (cases rule: pump_claims_cases[of s m now])
  case 1
  then have "filter in_flight (items s) \<noteq> []" using m by (auto simp: countInFlight_eq)
  then obtain it where "it \<in> set (items s)" "in_flight it" by (auto simp: filter_empty_conv)
  then obtain t where "t \<in> set (uploads s)" using S by (auto simp: slots_def)
  then have "work s" by (auto simp: work_def uploads_def)
  then show ?thesis using 1 by (simp add: served_def)
next
  case 2
  have "\<not> demand s"
    using 2(2) by (auto simp: claimNextQueued_def demand_def Let_def items_def find_index_None_iff split: option.splits)
  then show ?thesis using 2 by (simp add: served_def)
next
  case (3 s1 c)
  have "work (uploadClaimedItem now c 0 s1)" by (rule slots_claim(2)[OF J S 3(2,1) m(2)])
  then have "work (pump_claims now m (uploadClaimedItem now c 0 s1))"
    using slots_pump_claims[OF J_claimed[OF J 3(2)] slots_claim(1)[OF J S 3(2,1) m(2)] m(2)] work_mono by blast
  then show ?thesis using 3 by (simp add: served_def)
qed

lemma served_pump: "served (pumpUploadQueue now s)"
  by (auto simp: served_def demand_def work_def pumpUploadQueue_def)

lemma served_mono:
  "served s \<Longrightarrow> (demand s' \<Longrightarrow> demand s) \<Longrightarrow> set (tasks s) \<subseteq> set (tasks s') \<Longrightarrow> served s'"
  using work_mono by (auto simp: served_def)

lemma served_work: "work s \<Longrightarrow> served s"
  by (simp add: served_def)

lemma demand_frame [simp]:
  "demand (emitBatch s) = demand s" "demand (add_task t s) = demand s" "demand (say es s) = demand s"
  "demand (release_stages i s) = demand s" "demand (pumpProcessingQueue s) = demand s" "demand (drop_task t s) = demand s"
  "demand (pauseUploadPumpFor now d s) = demand s"
  by (simp_all add: demand_def)

section \<open>Every event except a re-attachment keeps rows served\<close>

lemma work_frame [simp]:
  "work (emitBatch s) = work s" "work (say es s) = work s" "work (release_stages i s) = work s"
  "work (updateItem i f s) = work s" "work (updateItems g s) = work s" "work (maybeCompleteBatch s) = work s"
  by (simp_all add: work_def)

lemma served_frame [simp]:
  "served (emitBatch s) = served s" "served (say es s) = served s" "served (release_stages i s) = served s"
  by (simp_all add: served_def)

lemma served_task: "is_upload t \<or> t = FinishTask \<Longrightarrow> served (add_task t s)"
  by (auto simp: served_def work_def)

lemma served_add: "served s \<Longrightarrow> served (add_task t s)"
  by (auto simp: served_def work_def)

lemma served_drop: "served s \<Longrightarrow> \<not> is_upload t \<Longrightarrow> t \<noteq> FinishTask \<Longrightarrow> (\<And>u. t \<noteq> PumpTask u) \<Longrightarrow> served (drop_task t s)"
  by (auto simp: served_def work_def in_set_remove1) (metis in_set_remove1)+

lemma served_processing: "served s \<Longrightarrow> served (pumpProcessingQueue s)"
  by (erule served_mono) (simp, rule pumpProcessing_tasks)

lemma demand_update:
  assumes "demand (updateItem i f s)"
    and "\<And>it. status (f it) = Queued \<Longrightarrow> \<not> paused (f it) \<Longrightarrow> status it = Queued \<and> \<not> paused it"
  shows "demand s"
proof -
  obtain it where it: "it \<in> set (items (updateItem i f s))" "status it = Queued" "\<not> paused it"
    using assms(1) by (auto simp: demand_def)
  then obtain e where e: "e \<in> set (items s)" "it = (if it_id e = i then f e else e)"
    unfolding items_updateItem_eq in_map_item by blast
  then have "status e = Queued \<and> \<not> paused e" using it(2,3) assms(2)[of e] by (auto split: if_splits)
  then show ?thesis using assms(1) e(1) by (auto simp: demand_def)
qed

lemma served_update:
  assumes "served s" and "\<And>it. status (f it) = Queued \<Longrightarrow> \<not> paused (f it) \<Longrightarrow> status it = Queued \<and> \<not> paused it"
  shows "served (updateItem i f s)"
  by (rule served_mono[OF assms(1)]) (use demand_update assms(2) in auto)

lemma demand_maybeComplete: "demand (maybeCompleteBatch s) \<Longrightarrow> demand s"
  using maybeComplete_uploading[of s] by (auto simp: demand_def)

lemma served_maybeComplete: "served s \<Longrightarrow> served (maybeCompleteBatch s)"
  by (erule served_mono) (erule demand_maybeComplete, simp)

definition live :: "mgr \<Rightarrow> bool" where
  "live s \<longleftrightarrow> slots {} s \<and> served s"

lemma liveI: "slots {} s \<Longrightarrow> served s \<Longrightarrow> live s"
  by (simp add: live_def)

lemma liveD: "live s \<Longrightarrow> slots {} s" "live s \<Longrightarrow> served s"
  by (simp_all add: live_def)

lemma live_frame [simp]:
  "live (emitBatch s) = live s" "live (say es s) = live s" "live (release_stages i s) = live s"
  by (simp_all add: live_def slots_def)

lemma slots_frame [simp]:
  "slots X (emitBatch s) = slots X s" "slots X (say es s) = slots X s" "slots X (release_stages i s) = slots X s"
  "slots X (pumpUploadQueue now s) = slots X s" "slots X (pumpProcessingQueue s) = slots X s"
  "slots X (maybeCompleteBatch s) = slots X s" "slots X (pauseUploadPumpFor now d s) = slots X s"
  "slots X (cleanup_item it s) = slots X s"
  by (simp_all add: slots_def)

lemma live_pump: "slots {} s \<Longrightarrow> live (pumpUploadQueue now s)"
  by (simp add: live_def served_pump)

lemma live_processing: "live s \<Longrightarrow> live (pumpProcessingQueue s)"
  by (simp add: live_def served_processing)

lemma live_maybeComplete: "live s \<Longrightarrow> live (maybeCompleteBatch s)"
  by (simp add: live_def served_maybeComplete)

lemma live_update:
  assumes "live s" and "\<And>it. it_id (f it) = it_id it \<and> (in_flight (f it) \<longrightarrow> in_flight it)"
    and "\<And>it. status (f it) = Queued \<Longrightarrow> \<not> paused (f it) \<Longrightarrow> status it = Queued \<and> \<not> paused it"
  shows "live (updateItem i f s)"
proof (rule liveI)
  show "slots {} (updateItem i f s)" by (rule slots_update[OF liveD(1)[OF assms(1)]]) (use assms(2) in simp)
  show "served (updateItem i f s)" by (rule served_update[OF liveD(2)[OF assms(1)] assms(3)])
qed

lemma live_add: "live s \<Longrightarrow> \<not> is_upload t \<Longrightarrow> live (add_task t s)"
  by (simp add: live_def slots_add_other served_add)

lemma live_drop: "live s \<Longrightarrow> \<not> is_upload t \<Longrightarrow> t \<noteq> FinishTask \<Longrightarrow> (\<And>u. t \<noteq> PumpTask u) \<Longrightarrow> live (drop_task t s)"
  using slots_cong[of "drop_task t s" s "{}"] by (auto simp: live_def intro: served_drop)

lemma live_fields:
  "live s \<Longrightarrow> live (s\<lparr>abortedUploadItemIds := a\<rparr>)" "live s \<Longrightarrow> live (s\<lparr>resumingItemIds := a\<rparr>)"
  "live s \<Longrightarrow> live (s\<lparr>idCount := n\<rparr>)"
  by (simp_all add: live_def served_def demand_def work_def slots_def)

lemma marks_out [simp]:
  "\<not> in_flight (mark_done f it)" "\<not> in_flight (mark_failed b m it)" "\<not> in_flight (mark_cancelled it)"
  "it_id (mark_done f it) = it_id it" "it_id (mark_failed b m it) = it_id it" "it_id (mark_cancelled it) = it_id it"
  "status (mark_done f it) \<noteq> Queued" "status (mark_failed b m it) \<noteq> Queued" "status (mark_cancelled it) \<noteq> Queued"
  by (simp_all add: in_flight_def mark_done_def mark_failed_def mark_cancelled_def)

lemma live_marks:
  "live s \<Longrightarrow> live (updateItem i (mark_done f) s)" "live s \<Longrightarrow> live (updateItem i (mark_failed b m) s)"
  "live s \<Longrightarrow> live (updateItem i mark_cancelled s)"
  by (rule live_update; simp)+

lemma live_no_batch: "live s \<Longrightarrow> live (s\<lparr>batch := None\<rparr>)"
  by (auto simp: live_def served_def demand_def batch_uploading_def slots_def items_def)

lemma live_remove:
  assumes "live s"
  shows "live (removeItemFromActiveBatch now i s)"
proof -
  define s3 where "s3 = (set_items (filter (\<lambda>it. it_id it \<noteq> i) (items (release_stages i s))) (release_stages i s))
     \<lparr>abortedUploadItemIds := jset_delete i (abortedUploadItemIds (set_items (filter (\<lambda>it. it_id it \<noteq> i)
       (items (release_stages i s))) (release_stages i s)))\<rparr>"
  have e: "removeItemFromActiveBatch now i s = (if batch s = None then s else pumpUploadQueue now (emitBatch
      (if items s3 = [] then s3\<lparr>batch := None\<rparr> else if batch_uploading s3 then maybeCompleteBatch s3 else s3)))"
    by (simp add: removeItemFromActiveBatch_def Let_def s3_def)
  show ?thesis
  proof (cases "batch s = None")
    case False
    then obtain b where b: "batch s = Some b" by blast
    have S: "slots {} s3"
      by (rule slots_subset[OF liveD(1)[OF assms]]) (use b in \<open>auto simp: s3_def filter_filter_le set_items_def items_def\<close>)
    then have "slots {} (s3\<lparr>batch := None\<rparr>)" by (auto simp: slots_def items_def)
    with S have "slots {} (emitBatch (if items s3 = [] then s3\<lparr>batch := None\<rparr> else if batch_uploading s3 then maybeCompleteBatch s3 else s3))"
      by simp
    from live_pump[OF this, of now] show ?thesis unfolding e using b by simp
  qed (use assms e in simp)
qed

lemma live_fold: "(\<And>x r. live r \<Longrightarrow> live (g x r)) \<Longrightarrow> live s \<Longrightarrow> live (fold g xs s)"
  by (induction xs arbitrary: s) auto

lemma live_cleanup: "live s \<Longrightarrow> live (cleanup_item it s)"
  by (auto simp: cleanup_item_def voidCleanupPartialServerFile_def)

lemma live_cancel: "live s \<Longrightarrow> live (cancelUploadItem now i s)"
  by (auto simp: cancelUploadItem_def Let_def split: option.split
      intro!: live_remove live_processing live_maybeComplete live_fields live_marks live_cleanup)

lemma live_cancelAll: "live s \<Longrightarrow> live (cancelAllUploadItems now s)"
  by (auto simp: cancelAllUploadItems_def cancelAllPendingHlsReprocess_def Let_def
      intro!: live_fold live_cancel live_add)

lemma live_map:
  assumes "live s" and "\<And>it. it_id (f it) = it_id it \<and> (in_flight (f it) \<longrightarrow> in_flight it)"
    and "\<And>it. status (f it) = Queued \<Longrightarrow> \<not> paused (f it) \<Longrightarrow> status it = Queued \<and> \<not> paused it"
  shows "live (updateItems (map f) s)"
proof -
  have "demand (updateItems (map f) s) \<Longrightarrow> demand s" using assms(3) by (fastforce simp: demand_def)
  then show ?thesis using assms(1,2) by (auto simp: live_def intro!: slots_map intro: served_mono)
qed

lemma live_cancel_marks:
  "live s \<Longrightarrow> live (updateItems (map (\<lambda>it. if isReprocess it \<and> pending_row it then mark_cancelled it else it)) s)"
  by (erule live_map) (simp_all split: if_splits)

lemma live_reprocess_cancelled: "live s \<Longrightarrow> live (reprocess_cancelled follow ok s)"
  by (auto simp: reprocess_cancelled_def Let_def
      intro!: live_add live_maybeComplete live_cancel_marks live_fold live_fields)

lemma live_remove_row: "live s \<Longrightarrow> live (removeUploadBatchItem now i s)"
  by (auto simp: removeUploadBatchItem_def intro!: live_remove live_cleanup split: option.split)

lemma live_dismiss: "live s \<Longrightarrow> live (dismissUploadBatch s)"
  by (auto simp: dismissUploadBatch_def live_no_batch)

lemma live_clear:
  assumes "live s"
  shows "live (clearCancelledHlsReprocessItems s)"
proof (cases "batch s = None")
  case False
  let ?s1 = "set_items (filter (\<lambda>it. \<not> (isReprocess it \<and> status it = Cancelled)) (items s)) s"
  have "slots {} ?s1"
    by (rule slots_subset[OF liveD(1)[OF assms]]) (use False in \<open>auto simp: filter_filter_le\<close>)
  moreover have "served ?s1"
    by (rule served_mono[OF liveD(2)[OF assms]]) (use False in \<open>auto simp: demand_def\<close>)
  ultimately have "live ?s1" by (rule liveI)
  then show ?thesis using assms by (auto simp: clearCancelledHlsReprocessItems_def Let_def
      intro!: live_no_batch live_maybeComplete)
qed (use assms in \<open>simp add: clearCancelledHlsReprocessItems_def\<close>)

lemma live_pauses: "live s \<Longrightarrow> live (setUploadBatchPaused now p s)" "live s \<Longrightarrow> live (setUploadItemPaused now i p s)"
proof -
  assume l: "live s"
  then have S: "slots {} (s\<lparr>userUploadPaused := p\<rparr>)" by (simp add: live_def slots_def items_def)
  have "served (s\<lparr>userUploadPaused := True\<rparr>)" by (simp add: served_def demand_def)
  then show "live (setUploadBatchPaused now p s)"
    using S live_pump[OF S, of now] by (auto simp: setUploadBatchPaused_def Let_def live_def)
  let ?f = "\<lambda>it. if status it = Queued then it\<lparr>paused := p\<rparr> else it"
  have S1: "slots {} (updateItem i ?f s)"
    by (rule slots_update[OF liveD(1)[OF l]]) (auto simp: in_flight_def)
  have "live (updateItem i ?f s)" if p
    by (rule live_update[OF l]) (use that in \<open>auto simp: in_flight_def split: if_splits\<close>)
  then show "live (setUploadItemPaused now i p s)"
    using l live_pump[OF S1, of now] by (auto simp: setUploadItemPaused_def Let_def)
qed

lemma slots_reopen [simp]: "slots X (reopen_batch s) = slots X s"
  by (simp add: reopen_batch_def slots_def items_def set_batch_status_def split: option.split)

lemma live_retry: "live s \<Longrightarrow> live (fst (retryUploadItem now i s))"
proof -
  assume l: "live s"
  have "slots {} (updateItem i requeue_row (s\<lparr>abortedUploadItemIds := jset_delete i (abortedUploadItemIds s)\<rparr>))"
    by (rule slots_update) (use l in \<open>simp_all add: live_def slots_def requeue_row_def in_flight_def\<close>)
  then show ?thesis using l by (auto simp: retryUploadItem_def intro!: live_pump split: option.split)
qed

lemma live_retryFailed: "live s \<Longrightarrow> live (fst (retryFailedUploadItems now s))"
proof -
  have "live (fst (fold (\<lambda>i (s, n). let (s1, ok) = retryUploadItem now i s in (s1, if ok then n + 1 else n)) ids r))"
    if "live (fst r)" for ids and r :: "mgr \<times> int"
    using that
  proof (induction ids arbitrary: r)
    case (Cons i ids)
    obtain s0 n where r: "r = (s0, n)" by (cases r)
    obtain s1 ok where q: "retryUploadItem now i s0 = (s1, ok)" by (cases "retryUploadItem now i s0")
    have "live s1" using live_retry[of s0 now i] Cons.prems r q by simp
    then show ?case using Cons.IH[of "(s1, if ok then n + 1 else n)"] r q by simp
  qed simp
  then show "live s \<Longrightarrow> ?thesis" by (simp add: retryFailedUploadItems_def)
qed

lemma live_start:
  assumes "live s"
  shows "live (startUploadBatch cid now ens d s)"
proof (cases "ens = []")
  case False
  obtain s1 new where q: "queuedItemsFromEntries cid d ens s = (s1, new)" by (cases "queuedItemsFromEntries cid d ens s")
  have s1: "s1 = s\<lparr>idCount := idCount s + length ens\<rparr>" using queuedItems_spec[of cid d ens s] q by simp
  have nf: "\<not> in_flight it" if "it \<in> set new" for it
    using queuedItems_rows[of it cid d ens s] q that by (auto simp: queued_item_def base_item_def in_flight_def)
  have S: "slots {} (s1\<lparr>batch := b\<rparr>)" if "items (s1\<lparr>batch := b\<rparr>) = new \<or> items (s1\<lparr>batch := b\<rparr>) = items s @ new" for b
    using that liveD(1)[OF assms] nf by (auto simp: slots_def s1 filter_False)
  have "slots {} (set_items (items s1 @ new) s1)" if "batch_uploading s1"
  proof -
    from that obtain b where "batch s1 = Some b" by (rule batch_uploadingE)
    then show ?thesis using liveD(1)[OF assms] nf by (auto simp: slots_def s1 filter_False)
  qed
  moreover have "slots {} ((s1\<lparr>idCount := n\<rparr>)\<lparr>batch := Some \<lparr>b_id = i, b_status = st, b_folderId = d, b_items = new\<rparr>\<rparr>)" for n i st
    using S[of "Some \<lparr>b_id = i, b_status = st, b_folderId = d, b_items = new\<rparr>"]
    by (auto simp: slots_def uploads_def items_def)
  ultimately show ?thesis
    using False q by (auto simp: startUploadBatch_def new_id_def Let_def intro!: live_pump)
qed (use assms in \<open>simp add: startUploadBatch_def\<close>)

lemma track_rows_append:
  assumes "batch_uploading s"
  shows "\<exists>new. items (fst (track_rows cid key mk xs s n)) = items s @ new \<and> (\<forall>it \<in> set new. \<exists>i x. it = mk i x)"
  using assms
proof (induction xs arbitrary: s n)
  case (Cons x xs)
  show ?case
  proof (cases "already_tracked (key x) s")
    case True
    with Cons.IH[OF Cons.prems, of n] show ?thesis by auto
  next
    case False
    from Cons.prems obtain b where b: "batch s = Some b" "b_status b = BatchUploading" by (rule batch_uploadingE)
    let ?s2 = "set_items (items (s\<lparr>idCount := Suc (idCount s)\<rparr>) @ [mk (cid (idCount s)) x]) (s\<lparr>idCount := Suc (idCount s)\<rparr>)"
    have s2: "batch_uploading ?s2" "items ?s2 = items s @ [mk (cid (idCount s)) x]"
      using b by (simp_all add: batch_uploading_def) (simp add: set_items_def)
    from Cons.IH[OF s2(1), of "n + 1"] s2(2) False show ?thesis by (fastforce simp: new_id_def)
  qed
qed simp

lemma live_track:
  assumes J: "J cid s" and l: "live s" and mk: "\<And>i x. \<not> in_flight (mk i x) \<and> status (mk i x) \<noteq> Queued"
  shows "live (finish_tracking (track_rows cid key mk xs (ensureUploadingBatch cid s) 0))"
proof -
  let ?e = "ensureUploadingBatch cid s"
  let ?r = "fst (track_rows cid key mk xs ?e 0)"
  have ie: "items ?e = items s" "tasks ?e = tasks s" "userUploadPaused ?e = userUploadPaused s"
    by (auto simp: ensureUploadingBatch_def new_id_def items_def Let_def)
  have bu: "batch_uploading ?e" using J_ensure[OF J] by blast
  note sp = track_rows_spec[OF bu, where key = key and mk = mk and xs = xs and n = 0 and cid = cid]
  obtain new where new: "items ?r = items s @ new" "\<And>it. it \<in> set new \<Longrightarrow> \<not> in_flight it \<and> status it \<noteq> Queued"
    using track_rows_append[OF bu, of cid key mk xs 0] mk unfolding ie by fastforce
  have up: "uploads ?r = uploads s" using sp ie by (simp add: uploads_def)
  have S: "slots {} ?r"
    using liveD(1)[OF l] new up by (auto simp: slots_def filter_False)
  have d: "work s" if "\<not> userUploadPaused s" "it \<in> set (items s)" "status it = Queued" "\<not> paused it" for it
  proof -
    have "\<not> complete (batch s)" using J_rowD(4)[OF J that(2)] that(3) by (auto simp: isTerminalStatus_def)
    then have "batch_uploading s"
      using that(2) batch_status.exhaust by (auto simp: batch_uploading_def items_def complete_def split: option.splits)
    with that liveD(2)[OF l] show ?thesis by (auto simp: served_def demand_def)
  qed
  have V: "served (set_batch_status BatchUploading ?r)" "served ?r"
    using new sp ie d by (auto simp: served_def demand_def work_def)
  have "slots {} (set_batch_status BatchUploading ?r)" using S by (simp add: slots_def)
  with V S show ?thesis by (auto simp: finish_tracking_def intro!: live_processing liveI)
qed

lemma live_idle:
  assumes "slots X s" and "\<And>it. it \<in> set (items s') \<Longrightarrow> localFile it = None \<and> (status it = Queued \<longrightarrow> \<not> batch_uploading s')"
    and "uploads s' = uploads s"
  shows "live s'"
proof (rule liveI)
  have "\<not> in_flight it" if "it \<in> set (items s')" for it using assms(2)[OF that] by (simp add: in_flight_def)
  then show "slots {} s'" using assms(1,3) by (auto simp: slots_def filter_False)
  show "served s'" using assms(2) by (auto simp: served_def demand_def)
qed

lemma live_restoreJobs:
  assumes "live s"
  shows "live (restoreFromActiveBackgroundJobs cid js s)"
proof (cases "active_jobs js = []")
  case False
  obtain s2 its where q: "job_items cid (active_jobs js) (s\<lparr>idCount := Suc (idCount s)\<rparr>) = (s2, its)"
    by (cases "job_items cid (active_jobs js) (s\<lparr>idCount := Suc (idCount s)\<rparr>)")
  have r: "localFile it = None \<and> status it \<noteq> Queued" if "it \<in> set its" for it
    using job_items_rows[of it cid "active_jobs js" "s\<lparr>idCount := Suc (idCount s)\<rparr>"] q that
    by (auto simp: job_item_def Let_def base_item_def)
  have s2: "s2 = s\<lparr>idCount := Suc (idCount s) + length (active_jobs js)\<rparr>"
    using job_items_spec[of cid "active_jobs js" "s\<lparr>idCount := Suc (idCount s)\<rparr>"] q by simp
  have "live (s2\<lparr>batch := Some \<lparr>b_id = b, b_status = BatchUploading, b_folderId = None, b_items = its\<rparr>\<rparr>)" for b
    by (rule live_idle[OF liveD(1)[OF assms]]) (use r in \<open>auto simp: items_def s2 uploads_def\<close>)
  then show ?thesis using False q
    by (auto simp: restoreFromActiveBackgroundJobs_def new_id_def intro!: live_processing)
qed (simp add: restoreFromActiveBackgroundJobs_def assms)

lemma live_restore:
  assumes "live s"
  shows "live (restoreUploadBatchFromStorage s)"
proof -
  have 1: "live (s\<lparr>restoreStarted := True\<rparr>)" "live (s\<lparr>restoreStarted := True, storage := e\<rparr>)" for e
    using assms by (simp_all add: live_def slots_def served_def demand_def work_def batch_uploading_def items_def uploads_def)
  have 2: "live (s\<lparr>restoreStarted := True, batch := Some \<lparr>b_id = a, b_status = st, b_folderId = f,
      b_items = (if st = BatchComplete then map internalFromPersisted ps else reconcileRestoredItems ps)\<rparr>\<rparr>)" for a st f ps
    by (rule live_idle[OF liveD(1)[OF assms]])
      (auto simp: items_def uploads_def internalFromPersisted_def reconcileRestoredItems_def reconcile_item_def
        batch_uploading_def split: if_splits)
  have 3: "live (s\<lparr>restoreStarted := True, batch := Some \<lparr>b_id = a, b_status = st, b_folderId = f,
      b_items = reconcileRestoredItems ps\<rparr>\<rparr>)" if "st \<noteq> BatchComplete" for a st f ps
    using 2[of a st f ps] that by simp
  show ?thesis using assms 1 2[where st = BatchComplete] 3
    by (auto simp: restoreUploadBatchFromStorage_def Let_def
        intro!: live_add live_processing live_maybeComplete split: storage_entry.split)
qed

text \<open>The attempts of a row.\<close>

lemma live_pump_woken:
  assumes "J cid s" and "slots {} s"
  shows "live (pump_woken now samples s)"
proof -
  let ?m = "min ADAPTIVE_FILE_SLOTS_CAP (suggestedFileConcurrency samples)"
  have m: "1 \<le> ?m" "?m \<le> 3"
    using suggestedFileConcurrency_bounds[of samples] by (auto simp: ADAPTIVE_FILE_SLOTS_CAP_def MAX_CONCURRENT_UPLOADS_def)
  have "served s" if "\<not> batch_uploading s \<or> userUploadPaused s" using that by (auto simp: served_def demand_def)
  then show ?thesis
    using assms slots_pump_claims[OF assms m(2), of now] served_pump_claims[OF assms m, of now]
    by (auto simp: pump_woken_def live_def)
qed

lemma live_replace:
  assumes "slots {} s" and "t \<in> set (tasks s)" and "is_upload t" "is_upload t'" and "task_id t' = task_id t"
    and "task_file_ok t \<Longrightarrow> task_file_ok t'"
  shows "live (add_task t' (drop_task t s))"
proof -
  obtain i where i: "task_id t = Some i" using assms(3) by (cases t) auto
  have "task_file_ok t" using assms(1-3) by (auto simp: slots_def uploads_def)
  then show ?thesis
    using slots_add_upload[OF slots_drop_upload[OF assms(1) i] assms(4)] assms(5,6) i served_task assms(4)
    by (auto intro!: liveI)
qed

lemma live_over:
  assumes "slots {i} s" and "\<And>it. it \<in> set (items s) \<Longrightarrow> it_id it = i \<Longrightarrow> \<not> in_flight it"
  shows "live (add_task FinishTask s)"
  by (intro liveI slots_add_other slots_no_row[OF assms] served_task) simp_all

lemma live_retry_woken:
  assumes J: "J cid s" and l: "live s" and t: "RetryTask c n t \<in> set (tasks s)"
  shows "live (retry_woken now c n (drop_task (RetryTask c n t) s))"
proof -
  let ?s = "drop_task (RetryTask c n t) s"
  have S: "slots {it_id c} ?s" by (rule slots_drop_upload[OF liveD(1)[OF l]]) simp
  have f: "localFile c \<noteq> None" using liveD(1)[OF l] t by (force simp: slots_def uploads_def)
  show ?thesis
  proof (cases "batch s = None \<or> (\<exists>it. find_item (it_id c) s = Some it \<and> status it = Cancelled)")
    case True
    then have e: "retry_woken now c n ?s = add_task FinishTask ?s"
      by (auto simp: retry_woken_def find_item_def split: option.split)
    have "\<not> in_flight it" if "it \<in> set (items s)" "it_id it = it_id c" for it
      using True
    proof
      assume "\<exists>e. find_item (it_id c) s = Some e \<and> status e = Cancelled"
      then obtain e where "find_item (it_id c) s = Some e" "status e = Cancelled" by blast
      with find_item_unique[OF J this(1) that] show ?thesis by (simp add: in_flight_def)
    qed (use that in \<open>simp add: items_def\<close>)
    then show ?thesis unfolding e by (intro live_over[OF S]) simp
  next
    case False
    then obtain b where b: "batch ?s = Some b" by auto
    have "find_item i ?s = find_item i s" for i by (simp add: find_item_def)
    with False have e: "retry_woken now c n ?s = uploadClaimedItem now c n ?s"
      by (auto simp: retry_woken_def split: option.split)
    show ?thesis unfolding e using S b f
      by (auto simp: uploadClaimedItem_def intro!: liveI slots_add_upload served_task)
  qed
qed

lemma slots_release:
  assumes J: "J cid s" and S: "slots {i} s"
  shows "slots {} (releaseUploadByteSlot now i s)"
proof (cases "\<exists>it. find_item i s = Some it \<and> localFile it \<noteq> None")
  case True
  have "slots {} (updateItem i (\<lambda>e. e\<lparr>localFile := None\<rparr>) s)"
    by (rule slots_update_out[OF S]) (simp add: in_flight_def)
  then show ?thesis using True by (auto simp: releaseUploadByteSlot_def)
next
  case False
  have "\<not> in_flight it" if "it \<in> set (items s)" "it_id it = i" for it
  proof (cases "find_item i s")
    case None
    then show ?thesis using that by (auto simp: find_item_def find_None_iff)
  next
    case (Some e)
    with find_item_unique[OF J Some that] False show ?thesis by (simp add: in_flight_def)
  qed
  then have "slots {} s" using slots_no_row[OF S] by blast
  then show ?thesis using False by (auto simp: releaseUploadByteSlot_def split: option.split)
qed

lemma live_failed:
  assumes S: "slots {it_id c} s" and f: "localFile c \<noteq> None"
    and row: "isRetryableUploadError e \<Longrightarrow> \<not> is_cancelled_error e \<Longrightarrow>
      \<forall>it \<in> set (items s). it_id it = it_id c \<longrightarrow> status it = Uploading"
  shows "live (upload_failed now c k e s)"
proof -
  let ?i = "it_id c"
  have out: "live (add_task FinishTask (updateItem ?i (mark_failed b m) (release_stages ?i s)))" for b m
    by (intro liveI slots_add_other slots_update_out served_task) (use S in simp_all)
  have "slots {?i} (updateItem ?i (mark_retrying n) r)"
    if "slots {?i} r" "items r = items s" "isRetryableUploadError e" "\<not> is_cancelled_error e" for n r
    by (rule slots_update[OF that(1)]) (use row that in \<open>simp add: mark_retrying_def in_flight_def\<close>)
  then show ?thesis using S f out
    by (auto simp: upload_failed_def Let_def intro!: liveI slots_add_upload served_task)
qed

lemma live_settled:
  assumes J: "J cid s" and l: "live s" and t: "SendTask c n reg \<in> set (tasks s)" and r: "can_settle reg r"
  shows "live (upload_settled now c n r (drop_task (SendTask c n reg) s))"
proof -
  let ?s = "drop_task (SendTask c n reg) s"
  have S: "slots {it_id c} ?s" by (rule slots_drop_upload[OF liveD(1)[OF l]]) simp
  have f: "localFile c \<noteq> None" using liveD(1)[OF l] t by (force simp: slots_def uploads_def)
  have up: "status it = Uploading" if "reg = None" "it \<in> set (items s)" "it_id it = it_id c" for it
    using J_rowD(2)[OF J that(2) t] that by (auto simp: unregistered_row_def)
  have mm: "\<not> isRetryableUploadError missing_metadata" by (simp add: isRetryableUploadError_def missing_metadata_def)
  show ?thesis
  proof (cases r)
    case (Inl e)
    have "live (upload_failed now c n e ?s)"
      by (rule live_failed[OF S f]) (use up r Inl in \<open>cases reg; auto\<close>)
    then show ?thesis using Inl by (simp add: upload_settled_def)
  next
    case (Inr o1)
    have m: "live (upload_failed now c n missing_metadata ?s)" by (rule live_failed[OF S f]) (use mm in simp)
    have R: "slots {} (releaseUploadByteSlot now (it_id c) ?s)" by (rule slots_release[OF J_drop_task[OF J] S])
    have "slots {} (updateItem (it_id c) (mark_done g) (releaseUploadByteSlot now (it_id c) ?s))" for g
      by (rule slots_update[OF R]) simp
    then show ?thesis using Inr m R
      by (auto simp: upload_settled_def Let_def intro!: liveI slots_add_other served_task split: option.split)
  qed
qed

lemma live_release: "live s \<Longrightarrow> live (releaseUploadByteSlot now i s)"
  by (auto simp: releaseUploadByteSlot_def in_flight_def intro!: live_processing live_pump
      slots_update dest: liveD split: option.split)

lemma live_finished: "live s \<Longrightarrow> live (upload_finished now (drop_task FinishTask s))"
  by (auto simp: upload_finished_def maybeCompleteBatchWhenIdle_def slots_cong[of "drop_task FinishTask s" s] dest: liveD
      intro!: live_maybeComplete live_processing live_pump)

lemma live_progress:
  "live s \<Longrightarrow> live (finish_progress i u s)" "live s \<Longrightarrow> live (applyPipelinedProgress i u s)"
proof -
  assume l: "live s"
  then show f: "live (finish_progress i u s)"
    by (auto simp: finish_progress_def applyUploadProgressUpdate_def in_flight_def intro!: live_update)
  have a: "live (fst (acquire_stage i st s))" for st
    using l by (simp add: live_def slots_def served_def demand_def work_def batch_uploading_def items_def uploads_def)
  have "live (add_task (ProgressTask i u k) (fst (acquire_stage i st s)))" for k st
    by (rule live_add[OF a]) simp
  then show "live (applyPipelinedProgress i u s)"
    using l f by (auto simp: applyPipelinedProgress_def split: upload_phase.split prod.split) (metis fst_conv)
qed

lemma live_cancel_rest: "live s \<Longrightarrow> live (cancel_rest now s)"
  by (auto simp: cancel_rest_def intro!: live_fold live_cancel)

lemma live_ingest: "live s \<Longrightarrow> live (ingest_settled i r s)"
  by (auto simp: ingest_settled_def Let_def intro!: live_maybeComplete live_processing live_fields live_marks split: sum.split)

lemma live_registered:
  assumes "live s" and "SendTask c n None \<in> set (tasks s)"
  shows "live (registerUploadServerFile (it_id c) f (add_task (SendTask c n (Some (fi_id f))) (drop_task (SendTask c n None) s)))"
proof -
  have l: "live (add_task (SendTask c n (Some (fi_id f))) (drop_task (SendTask c n None) s))"
    by (rule live_replace[OF liveD(1)[OF assms(1)] assms(2)]) simp_all
  then show ?thesis
    by (auto simp: registerUploadServerFile_def register_row_def in_flight_def intro!: live_update)
qed

lemma add_task_say: "add_task t (say es s) = say es (add_task t s)"
  by (cases s) (simp add: add_task_def say_def)

definition reattaches :: "int \<times> action \<Rightarrow> bool" where
  "reattaches e = (case snd e of Reattach i f \<Rightarrow> True | _ \<Rightarrow> False)"

lemma live_handle:
  assumes J: "J cid s" and l: "live s" and e: "enabled cid s (now, a)" and n: "\<not> reattaches (now, a)"
  shows "live (handle cid s (now, a))"
proof (cases a)
  case (Reattach i f)
  then show ?thesis using n by (simp add: reattaches_def)
next
  case (StartBatch ens d)
  then show ?thesis using l by (simp add: live_start)
next
  case (TrackReprocess fs)
  then show ?thesis using l live_track[OF J l, where mk = reprocess_item and key = fi_id and xs = fs]
    by (auto simp: trackHlsReprocessFiles_def reprocess_item_def base_item_def in_flight_def Let_def)
next
  case (TrackJobs js)
  then show ?thesis using l live_track[OF J l, where mk = job_item and key = job_file and xs = "active_jobs js"]
    by (auto simp: trackActiveHlsEncodeJobs_def job_item_def base_item_def in_flight_def Let_def)
next
  case (PumpWoken t samples)
  have "slots {} (drop_task (PumpTask t) s)" using liveD(1)[OF l] by (simp add: slots_def)
  then show ?thesis using PumpWoken live_pump_woken[OF J_drop_task[OF J]] by simp
next
  case (UploadStarts c k d t)
  with e have "StartTask c k d t \<in> set (tasks s)" by simp
  then have "live (add_task (SendTask c k None) (drop_task (StartTask c k d t) s))"
    by (rule live_replace[OF liveD(1)[OF l]]) simp_all
  then have "live (say es (add_task (SendTask c k None) (drop_task (StartTask c k d t) s)))" for es by simp
  then show ?thesis using UploadStarts by (simp add: add_task_say)
next
  case (RetryWoken c k t)
  then show ?thesis using live_retry_woken[OF J l, of c k t now] e by simp
next
  case UploadFinished
  then show ?thesis using l by (simp add: live_finished)
next
  case (UploadSettled c k reg r)
  then show ?thesis using live_settled[OF J l] e by simp
next
  case (ServerRegistered c k f)
  then show ?thesis using live_registered[OF l] e by simp
next
  case (ProgressGranted i u k)
  then show ?thesis using l by (auto intro!: live_progress live_drop)
next
  case (IngestGranted i f k)
  then show ?thesis using l by (auto intro!: live_add live_drop)
next
  case (JobsListed r)
  then show ?thesis using l by (auto intro!: live_restoreJobs live_drop split: option.split)
next
  case (ReprocessCancelDone follow ok)
  then show ?thesis using l by (auto intro!: live_reprocess_cancelled live_drop)
next
  case CancelRest
  then show ?thesis using l by (auto intro!: live_cancel_rest live_drop)
next
  case (IngestSettled i f r)
  then show ?thesis using l by (auto intro!: live_ingest live_drop)
next
  case (SessionReady i sid)
  then show ?thesis using l by (auto simp: in_flight_def intro!: live_update)
next
  case (PartTransport i tr)
  then show ?thesis using l by (auto simp: in_flight_def intro!: live_update)
next
  case (StageAcquired i st)
  then show ?thesis using l
    by (simp add: live_def slots_def served_def demand_def work_def batch_uploading_def items_def uploads_def)
next
  case (StorageChanged en)
  then show ?thesis using l
    by (simp add: live_def slots_def served_def demand_def work_def batch_uploading_def items_def uploads_def)
next
  case CancelAllReprocessNow
  then show ?thesis using l by (auto simp: cancelAllPendingHlsReprocess_def intro!: live_add)
qed (use l in \<open>auto intro!: live_pauses live_cancel live_cancelAll live_remove_row live_dismiss live_clear
    live_retry live_retryFailed live_restore live_progress live_release\<close>)

lemma live_init: "live (init_mgr stored)"
  by (simp add: live_def slots_def served_def demand_def batch_uploading_def init_mgr_def items_def uploads_def)

definition enabled_no_reattach :: "(nat \<Rightarrow> string) \<Rightarrow> mgr \<Rightarrow> int \<times> action \<Rightarrow> bool" where
  "enabled_no_reattach cid s e = (enabled cid s e \<and> \<not> reattaches e)"

interpretation ul: machine "enabled_no_reattach cid" "handle cid" "init_mgr stored"
  "\<lambda>s. inj cid \<longrightarrow> J cid s \<and> live s" for cid stored
proof unfold_locales
  show "inj cid \<longrightarrow> J cid (init_mgr stored) \<and> live (init_mgr stored)" using J_init live_init by blast
  show "inj cid \<longrightarrow> J cid (handle cid s e) \<and> live (handle cid s e)"
    if "inj cid \<longrightarrow> J cid s \<and> live s" "enabled_no_reattach cid s e" for s e
    using that J_handle live_handle unfolding enabled_no_reattach_def by (cases e) blast
qed

text \<open>C7. Uploads never stall. As long as no file is attached again to a row, whenever a running
  batch has a queued row that is not paused and the user has not paused the batch, the code
  still has something to run that leads to the row: a wake-up of the pump, an upload attempt
  of a row, or the end of an attempt.\<close>

theorem queued_rows_are_served:
  assumes "reach (enabled_no_reattach cid) (handle cid) (init_mgr stored) s" and "inj cid"
    and "batch_uploading s" and "\<not> userUploadPaused s"
    and "it \<in> set (items s)" and "status it = Queued" and "\<not> paused it"
  shows "\<exists>t \<in> set (tasks s). (case t of PumpTask u \<Rightarrow> True | StartTask c n d u \<Rightarrow> True | SendTask c n r \<Rightarrow> True
     | RetryTask c n u \<Rightarrow> True | FinishTask \<Rightarrow> True | _ \<Rightarrow> False)"
proof -
  from ul.reach_inv[OF assms(1)] assms(2) have "live s" by blast
  moreover have "demand s" using assms(3-7) by (auto simp: demand_def)
  ultimately obtain t where "t \<in> set (tasks s)" "is_upload t \<or> t = FinishTask \<or> (\<exists>u. t = PumpTask u)"
    by (auto simp: live_def served_def work_def)
  then show ?thesis by (intro bexI[of _ t]) (cases t; auto)+
qed

text \<open>C27. At most three rows hold one of the browser's upload slots, and every row that holds one
  has an upload attempt of its own that will end and free it, as long as no file is attached
  again to a row.\<close>

theorem upload_slots_bounded:
  assumes "reach (enabled_no_reattach cid) (handle cid) (init_mgr stored) s" and "inj cid"
  shows "countInFlightBrowserUploads s \<le> 3 \<and>
     (\<forall>it \<in> set (items s). status it = Uploading \<longrightarrow> localFile it \<noteq> None \<longrightarrow>
        (\<exists>t \<in> set (tasks s). is_upload t \<and> task_id t = Some (it_id it)))"
proof -
  from ul.reach_inv[OF assms(1)] assms(2) have "slots {} s" by (auto simp: live_def)
  then show ?thesis
    by (auto simp: slots_def countInFlight_eq in_flight_def uploads_def image_iff) metis+
qed

text \<open>A concrete run: four files are dropped on the page and the pump has started some of them.\<close>

definition demo_four :: mgr where
  "demo_four = demo_run [(0, StartBatch [demo_entry, demo_entry, demo_entry, demo_entry] None), (0, PumpWoken 0 [])]"

lemma demo_four_reach: "reach (enabled_no_reattach demo_ids) (handle demo_ids) (init_mgr NoEntry) demo_four"
proof -
  let ?a = "(0, StartBatch [demo_entry, demo_entry, demo_entry, demo_entry] None)" and ?b = "(0, PumpWoken 0 [])"
  have "enabled_no_reattach demo_ids (init_mgr NoEntry) ?a" by (simp add: enabled_no_reattach_def reattaches_def)
  from reach_step[where enabled = "enabled_no_reattach demo_ids" and handle = "handle demo_ids", OF reach_init this]
  have r: "reach (enabled_no_reattach demo_ids) (handle demo_ids) (init_mgr NoEntry) (demo_run [?a])"
    by (simp add: demo_run_def)
  have "enabled demo_ids (demo_run [?a]) ?b" unfolding enabled.simps by code_simp
  then have "enabled_no_reattach demo_ids (demo_run [?a]) ?b" by (simp add: enabled_no_reattach_def reattaches_def)
  from reach_step[where enabled = "enabled_no_reattach demo_ids" and handle = "handle demo_ids", OF r this] show ?thesis by (simp add: demo_run_def demo_four_def)
qed

lemma demo_four_rows: "map (\<lambda>it. (status it, localFile it \<noteq> None, paused it)) (items demo_four) =
    [(Uploading, True, False), (Uploading, True, False), (Queued, True, False), (Queued, True, False)]"
  "batch_uploading demo_four" "\<not> userUploadPaused demo_four"
  by code_simp+

theorem queued_rows_are_served_witness:
  "\<exists>it \<in> set (items demo_four). status it = Queued \<and>
     (\<exists>t \<in> set (tasks demo_four). case t of PumpTask u \<Rightarrow> True | StartTask c n d u \<Rightarrow> True | SendTask c n r \<Rightarrow> True
        | RetryTask c n u \<Rightarrow> True | FinishTask \<Rightarrow> True | _ \<Rightarrow> False)"
proof -
  have "\<exists>it \<in> set (items demo_four). status it = Queued \<and> \<not> paused it"
    using demo_four_rows(1) by (auto simp: map_eq_Cons_conv)
  then obtain it where it: "it \<in> set (items demo_four)" "status it = Queued" "\<not> paused it" by blast
  from queued_rows_are_served[OF demo_four_reach demo_ids_inj demo_four_rows(2,3) it] it show ?thesis by blast
qed

theorem upload_slots_bounded_witness:
  "countInFlightBrowserUploads demo_four \<le> 3 \<and>
   (\<exists>it \<in> set (items demo_four). status it = Uploading \<and>
      (\<exists>t \<in> set (tasks demo_four). is_upload t \<and> task_id t = Some (it_id it)))"
proof -
  have "\<exists>it \<in> set (items demo_four). status it = Uploading \<and> localFile it \<noteq> None"
    using demo_four_rows(1) by (auto simp: map_eq_Cons_conv)
  with upload_slots_bounded[OF demo_four_reach demo_ids_inj] show ?thesis by blast
qed

end
