(* ===== verification/UploadLost.thy ===== *)
theory UploadLost
  imports UploadClosing
begin

text \<open>
  What happens to an upload that is continued after a reload: its row asks for the file again,
  and \<open>reattachUploadFile\<close> gives the row its file and shows it as uploading. The pump only
  starts queued rows, so nothing ever sends the file.
\<close>

section \<open>A row that is shown as uploading and has no attempt\<close>

definition held :: "uploadItem \<Rightarrow> bool" where
  "held it \<longleftrightarrow> status it = Uploading \<and> localFile it \<noteq> None \<and> \<not> needsFileReselect it \<and> \<not> isReprocess it"

fun is_start :: "string \<Rightarrow> effect \<Rightarrow> bool" where
  "is_start i (StartUpload j f d h r) = (j = i)"
| "is_start i _ = False"

definition stuck :: "(nat \<Rightarrow> string) \<Rightarrow> string \<Rightarrow> effect list \<Rightarrow> mgr \<Rightarrow> bool" where
  "stuck cid i E s \<longleftrightarrow> id_ok cid (idCount s) (restoreStarted s) i \<and> (\<forall>t \<in> set (tasks s). task_id t \<noteq> Some i) \<and>
     (\<forall>it \<in> set (items s). it_id it = i \<longrightarrow> held it) \<and> filter (is_start i) (effects s) = E"

lemma stuck_frame [simp]:
  "stuck cid i E (emitBatch s) = stuck cid i E s" "stuck cid i E (release_stages j s) = stuck cid i E s"
  "stuck cid i E (pauseUploadPumpFor now d s) = stuck cid i E s" "stuck cid i E (s\<lparr>abortedUploadItemIds := a\<rparr>) = stuck cid i E s"
  "stuck cid i E (s\<lparr>resumingItemIds := a\<rparr>) = stuck cid i E s" "stuck cid i E (s\<lparr>userUploadPaused := p\<rparr>) = stuck cid i E s"
  "stuck cid i E (s\<lparr>storage := e\<rparr>) = stuck cid i E s" "stuck cid i E (fst (acquire_stage j st s)) = stuck cid i E s"
  by (simp_all add: stuck_def items_def)

lemma stuck_add: "stuck cid i E s \<Longrightarrow> task_id t \<noteq> Some i \<Longrightarrow> stuck cid i E (add_task t s)"
  by (auto simp: stuck_def)

lemma stuck_drop: "stuck cid i E s \<Longrightarrow> stuck cid i E (drop_task t s)"
  by (auto simp: stuck_def dest: set_remove1_subset[THEN subsetD])

lemma stuck_say: "stuck cid i E s \<Longrightarrow> filter (is_start i) es = [] \<Longrightarrow> stuck cid i E (say es s)"
  by (simp add: stuck_def)

lemma stuck_pump: "stuck cid i E s \<Longrightarrow> stuck cid i E (pumpUploadQueue now s)"
  by (auto simp: pumpUploadQueue_def intro: stuck_add)

lemma stuck_row: "stuck cid i E s \<Longrightarrow> it \<in> set (items s) \<Longrightarrow> it_id it = i \<Longrightarrow> held it"
  by (auto simp: stuck_def)

lemma stuck_task: "stuck cid i E s \<Longrightarrow> t \<in> set (tasks s) \<Longrightarrow> task_id t = Some j \<Longrightarrow> j \<noteq> i"
  by (auto simp: stuck_def)

lemma stuck_map:
  assumes "stuck cid i E s" and f: "\<And>it. it \<in> set (items s) \<Longrightarrow> it_id (f it) = it_id it \<and> (it_id it = i \<longrightarrow> held (f it))"
  shows "stuck cid i E (updateItems (map f) s)"
proof -
  have "tasks (updateItems (map f) s) = tasks s" "idCount (updateItems (map f) s) = idCount s"
    "restoreStarted (updateItems (map f) s) = restoreStarted s" "effects (updateItems (map f) s) = effects s"
    by (simp_all add: updateItems_def split: option.split)
  with assms show ?thesis by (auto simp: stuck_def)
qed

lemma stuck_update:
  assumes "stuck cid i E s" and "\<And>it. it_id (f it) = it_id it" and "j = i \<Longrightarrow> \<forall>it. held it \<longrightarrow> held (f it)"
  shows "stuck cid i E (updateItem j f s)"
  unfolding updateItem_def map_item_def
  by (rule stuck_map[OF assms(1)]) (use assms stuck_row in auto)

lemma stuck_marks:
  assumes "stuck cid i E s" and "j \<noteq> i"
  shows "stuck cid i E (updateItem j (mark_done f) s)" "stuck cid i E (updateItem j (mark_failed b m) s)"
    "stuck cid i E (updateItem j mark_cancelled s)" "stuck cid i E (updateItem j (mark_retrying n) s)"
    "stuck cid i E (updateItem j (\<lambda>e. e\<lparr>localFile := None\<rparr>) s)"
  by (rule stuck_update[OF assms(1)];
      use assms(2) in \<open>simp add: mark_done_def mark_failed_def mark_cancelled_def mark_retrying_def\<close>)+

lemma stuck_maybeComplete: "stuck cid i E s \<Longrightarrow> stuck cid i E (maybeCompleteBatch s)"
  by (simp add: stuck_def)

lemma stuck_find: "stuck cid i E s \<Longrightarrow> find_item j s = Some it \<Longrightarrow> \<not> held it \<Longrightarrow> j \<noteq> i"
  using find_item_SomeD stuck_row by blast

lemma stuck_resume: "stuck cid i E s \<Longrightarrow> it_id it \<noteq> i \<Longrightarrow> stuck cid i E (resumeUploadItemProcessing it s)"
proof -
  assume s: "stuck cid i E s" and n: "it_id it \<noteq> i"
  let ?s1 = "emitBatch (s\<lparr>resumingItemIds := jset_add (it_id it) (resumingItemIds s)\<rparr>)"
  obtain s2 k where a: "acquire_stage (it_id it) Processing ?s1 = (s2, k)" by (cases "acquire_stage (it_id it) Processing ?s1")
  have "stuck cid i E (fst (acquire_stage (it_id it) Processing ?s1))" using s by simp
  then have "stuck cid i E s2" using a by simp
  then show ?thesis using a s n by (auto simp: resumeUploadItemProcessing_def intro!: stuck_add)
qed

lemma stuck_processing_loop:
  "stuck cid i E s \<Longrightarrow> set its \<subseteq> set (items s) \<Longrightarrow> stuck cid i E (processing_loop its s)"
proof (induction its s rule: processing_loop.induct)
  case (2 it rest s)
  show ?case
  proof (cases "length (resumingItemIds s) \<ge> PIPELINE_STAGE_LIMIT \<or> status it \<noteq> Uploading \<or>
      \<not> truthy (uploadedFileId it) \<or> localFile it \<noteq> None \<or> it_id it \<in> set (resumingItemIds s)")
    case True
    with 2 show ?thesis by auto
  next
    case False
    then have "\<not> held it" by (simp add: held_def)
    then have "it_id it \<noteq> i" using stuck_row[OF "2.prems"(1), of it] "2.prems"(2) by auto
    then have "stuck cid i E (resumeUploadItemProcessing it s)" by (rule stuck_resume[OF "2.prems"(1)])
    with 2 False show ?thesis by simp
  qed
qed simp

lemma stuck_processing: "stuck cid i E s \<Longrightarrow> stuck cid i E (pumpProcessingQueue s)"
  by (auto simp: pumpProcessingQueue_def stuck_processing_loop)

lemma stuck_claimed: "stuck cid i E s \<Longrightarrow> it_id c \<noteq> i \<Longrightarrow> stuck cid i E (uploadClaimedItem now c k s)"
  by (auto simp: uploadClaimedItem_def intro!: stuck_add split: option.split)

lemma stuck_claim:
  assumes s: "stuck cid i E s" and c: "claimNextQueued s = (s1, Some c)"
  shows "stuck cid i E s1 \<and> it_id c \<noteq> i"
proof -
  from c obtain b k where b: "batch s = Some b" "k < length (b_items b)" "status (b_items b ! k) = Queued"
    "c = claim_row (b_items b ! k)" "s1 = emitBatch (s\<lparr>batch := Some (b\<lparr>b_items := (b_items b)[k := c]\<rparr>)\<rparr>)"
    by (rule claimNextQueuedE)
  have n: "it_id c \<noteq> i"
    using stuck_row[OF s, of "b_items b ! k"] b by (auto simp: items_def held_def claim_row_def)
  have "items s1 = (items s)[k := c]" using b by (simp add: items_def)
  then have "set (items s1) \<subseteq> insert c (set (items s))" by (simp add: set_update_subset_insert)
  with s n b(5) show ?thesis by (auto simp: stuck_def)
qed

lemma stuck_pump_claims: "stuck cid i E s \<Longrightarrow> stuck cid i E (pump_claims now m s)"
proof (induction now m s rule: pump_claims.induct)
  case (1 now m s)
  obtain s1 co where c: "claimNextQueued s = (s1, co)" by (cases "claimNextQueued s")
  show ?case
  proof (cases "countInFlightBrowserUploads s < m")
    case True
    show ?thesis
    proof (cases co)
      case None
      then show ?thesis using True c claim_None[of s s1] 1 by (subst pump_claims.simps) simp
    next
      case (Some cl)
      with stuck_claim[OF "1.prems"] c have "stuck cid i E (uploadClaimedItem now cl 0 s1)" by (auto intro: stuck_claimed)
      with 1(1)[OF True c[symmetric] Some] show ?thesis using True c Some by (subst pump_claims.simps) simp
    qed
  qed (use 1 in \<open>subst pump_claims.simps, simp\<close>)
qed

lemma stuck_pump_woken: "stuck cid i E s \<Longrightarrow> stuck cid i E (pump_woken now samples s)"
  by (auto simp: pump_woken_def stuck_pump_claims)

section \<open>Every event leaves the row as it is\<close>

lemma stuck_finished: "stuck cid i E s \<Longrightarrow> stuck cid i E (upload_finished now s)"
  by (auto simp: upload_finished_def maybeCompleteBatchWhenIdle_def
      intro!: stuck_maybeComplete stuck_processing stuck_pump)

lemma stuck_release: "stuck cid i E s \<Longrightarrow> j \<noteq> i \<Longrightarrow> stuck cid i E (releaseUploadByteSlot now j s)"
  by (auto simp: releaseUploadByteSlot_def intro!: stuck_processing stuck_pump stuck_marks split: option.split)

lemma stuck_failed: "stuck cid i E s \<Longrightarrow> it_id c \<noteq> i \<Longrightarrow> stuck cid i E (upload_failed now c k e s)"
  by (auto simp: upload_failed_def Let_def intro!: stuck_add stuck_marks)

lemma stuck_settled: "stuck cid i E s \<Longrightarrow> it_id c \<noteq> i \<Longrightarrow> stuck cid i E (upload_settled now c k r s)"
  by (auto simp: upload_settled_def Let_def intro!: stuck_failed stuck_add stuck_processing stuck_release stuck_say
      stuck_marks split: sum.split option.split)

lemma stuck_retry_woken: "stuck cid i E s \<Longrightarrow> it_id c \<noteq> i \<Longrightarrow> stuck cid i E (retry_woken now c k s)"
  by (auto simp: retry_woken_def intro!: stuck_add stuck_claimed)

lemma stuck_ingest: "stuck cid i E s \<Longrightarrow> j \<noteq> i \<Longrightarrow> stuck cid i E (ingest_settled j r s)"
  by (auto simp: ingest_settled_def Let_def intro!: stuck_maybeComplete stuck_processing stuck_say stuck_marks split: sum.split)

lemma stuck_progress: "stuck cid i E s \<Longrightarrow> stuck cid i E (finish_progress j u s)"
  by (auto simp: finish_progress_def applyUploadProgressUpdate_def held_def intro!: stuck_update)

lemma stuck_applyProgress:
  assumes s: "stuck cid i E s"
  shows "stuck cid i E (applyPipelinedProgress j u s)"
proof (cases "u_phase u")
  case (Post st)
  obtain s1 k where a: "acquire_stage j st s = (s1, k)" by (cases "acquire_stage j st s")
  have "stuck cid i E (fst (acquire_stage j st s))" using s by simp
  with a s Post show ?thesis by (simp add: applyPipelinedProgress_def stuck_add)
qed (use s in \<open>simp add: applyPipelinedProgress_def stuck_progress\<close>)

lemma stuck_subset:
  assumes "stuck cid i E s" and "set (items s') \<subseteq> set (items s)" and "tasks s' = tasks s" "idCount s' = idCount s"
    and "restoreStarted s' = restoreStarted s" "effects s' = effects s"
  shows "stuck cid i E s'"
  using assms by (auto simp: stuck_def)

lemma stuck_no_batch: "stuck cid i E s \<Longrightarrow> stuck cid i E (s\<lparr>batch := None\<rparr>)"
  by (erule stuck_subset) (simp_all add: items_def)

lemma stuck_cleanup: "stuck cid i E s \<Longrightarrow> stuck cid i E (cleanup_item it s)"
  by (auto simp: cleanup_item_def voidCleanupPartialServerFile_def intro: stuck_say)

lemma stuck_remove:
  assumes s: "stuck cid i E s"
  shows "stuck cid i E (removeItemFromActiveBatch now j s)"
proof (cases "batch s")
  case (Some b)
  define s3 where "s3 = (set_items (filter (\<lambda>it. it_id it \<noteq> j) (items (release_stages j s))) (release_stages j s))
     \<lparr>abortedUploadItemIds := jset_delete j (abortedUploadItemIds (set_items (filter (\<lambda>it. it_id it \<noteq> j)
       (items (release_stages j s))) (release_stages j s)))\<rparr>"
  have e: "removeItemFromActiveBatch now j s = pumpUploadQueue now (emitBatch
      (if items s3 = [] then s3\<lparr>batch := None\<rparr> else if batch_uploading s3 then maybeCompleteBatch s3 else s3))"
    using Some by (simp add: removeItemFromActiveBatch_def Let_def s3_def)
  have "stuck cid i E s3" by (rule stuck_subset[OF s]) (use Some in \<open>auto simp: s3_def set_items_def items_def\<close>)
  then show ?thesis unfolding e by (auto intro!: stuck_pump stuck_no_batch stuck_maybeComplete)
qed (use s in \<open>simp add: removeItemFromActiveBatch_def\<close>)

lemma stuck_fold: "(\<And>x r. stuck cid i E r \<Longrightarrow> stuck cid i E (g x r)) \<Longrightarrow> stuck cid i E s \<Longrightarrow> stuck cid i E (fold g xs s)"
  by (induction xs arbitrary: s) auto

lemma stuck_cancel:
  assumes s: "stuck cid i E s"
  shows "stuck cid i E (cancelUploadItem now j s)"
proof (cases "batch_uploading s \<and> (\<exists>it. find_item j s = Some it \<and> status it \<noteq> Done \<and> isReprocess it)")
  case True
  then obtain it where it: "find_item j s = Some it" "isReprocess it" by blast
  then have "j \<noteq> i" using stuck_find[OF s it(1)] by (simp add: held_def)
  with s it show ?thesis
    by (auto simp: cancelUploadItem_def Let_def intro!: stuck_processing stuck_maybeComplete stuck_marks stuck_say)
next
  case False
  with s show ?thesis
    by (auto simp: cancelUploadItem_def Let_def intro!: stuck_remove stuck_cleanup stuck_say split: option.split)
qed

lemma stuck_cancelAll: "stuck cid i E s \<Longrightarrow> stuck cid i E (cancelAllUploadItems now s)"
  by (auto simp: cancelAllUploadItems_def cancelAllPendingHlsReprocess_def Let_def
      intro!: stuck_fold stuck_cancel stuck_add stuck_say)

lemma stuck_cancel_marks:
  assumes s: "stuck cid i E s"
  shows "stuck cid i E (updateItems (map (\<lambda>it. if isReprocess it \<and> pending_row it then mark_cancelled it else it)) s)"
proof (rule stuck_map[OF s])
  fix it assume "it \<in> set (items s)"
  then have "it_id it = i \<longrightarrow> held it" using stuck_row[OF s] by blast
  then show "it_id (if isReprocess it \<and> pending_row it then mark_cancelled it else it) = it_id it \<and>
      (it_id it = i \<longrightarrow> held (if isReprocess it \<and> pending_row it then mark_cancelled it else it))"
    by (auto simp: held_def mark_cancelled_def)
qed

lemma stuck_reprocess_cancelled: "stuck cid i E s \<Longrightarrow> stuck cid i E (reprocess_cancelled follow ok s)"
  by (auto simp: reprocess_cancelled_def Let_def
      intro!: stuck_add stuck_maybeComplete stuck_cancel_marks stuck_fold)

lemma stuck_remove_row: "stuck cid i E s \<Longrightarrow> stuck cid i E (removeUploadBatchItem now j s)"
  by (auto simp: removeUploadBatchItem_def intro!: stuck_remove stuck_cleanup split: option.split)

lemma stuck_clear:
  assumes s: "stuck cid i E s"
  shows "stuck cid i E (clearCancelledHlsReprocessItems s)"
proof (cases "batch s")
  case (Some b)
  have "stuck cid i E (set_items (filter (\<lambda>it. \<not> (isReprocess it \<and> status it = Cancelled)) (items s)) s)"
    by (rule stuck_subset[OF s]) (use Some in \<open>auto simp: set_items_def items_def\<close>)
  then show ?thesis using Some by (auto simp: clearCancelledHlsReprocessItems_def Let_def
      intro!: stuck_no_batch stuck_maybeComplete)
qed (use s in \<open>simp add: clearCancelledHlsReprocessItems_def\<close>)

lemma stuck_reopen: "stuck cid i E s \<Longrightarrow> stuck cid i E (reopen_batch s)"
  by (erule stuck_subset) (auto simp: reopen_batch_def, simp_all add: set_batch_status_def)

lemma stuck_retry: "stuck cid i E s \<Longrightarrow> stuck cid i E (fst (retryUploadItem now j s))"
proof -
  assume s: "stuck cid i E s"
  have "j \<noteq> i" if "find_item j s = Some it" "status it = Error \<or> status it = Cancelled" for it
    using stuck_find[OF s that(1)] that(2) by (auto simp: held_def)
  then show ?thesis using s
    by (auto simp: retryUploadItem_def requeue_row_def intro!: stuck_pump stuck_reopen stuck_update split: option.split)
qed

lemma stuck_reattach: "stuck cid i E s \<Longrightarrow> stuck cid i E (fst (reattachUploadFile now j f s))"
proof -
  assume s: "stuck cid i E s"
  have "j \<noteq> i" if "find_item j s = Some it" "needsFileReselect it" for it
    using stuck_find[OF s that(1)] that(2) by (auto simp: held_def)
  then show ?thesis using s
    by (auto simp: reattachUploadFile_def reattach_row_def intro!: stuck_pump stuck_reopen stuck_update split: option.split)
qed

lemma stuck_retryFailed: "stuck cid i E s \<Longrightarrow> stuck cid i E (fst (retryFailedUploadItems now s))"
proof -
  have "stuck cid i E (fst (fold (\<lambda>j (s, n). let (s1, ok) = retryUploadItem now j s in (s1, if ok then n + 1 else n)) ids r))"
    if "stuck cid i E (fst r)" for ids and r :: "mgr \<times> int"
    using that
  proof (induction ids arbitrary: r)
    case (Cons j ids)
    obtain s0 n where r: "r = (s0, n)" by (cases r)
    obtain s1 ok where q: "retryUploadItem now j s0 = (s1, ok)" by (cases "retryUploadItem now j s0")
    have "stuck cid i E s1" using stuck_retry[of cid i E s0 now j] Cons.prems r q by simp
    then show ?case using Cons.IH[of "(s1, if ok then n + 1 else n)"] r q by simp
  qed simp
  then show "stuck cid i E s \<Longrightarrow> ?thesis" by (simp add: retryFailedUploadItems_def)
qed

lemma stuck_pauses:
  assumes s: "stuck cid i E s"
  shows "stuck cid i E (setUploadBatchPaused now p s)" and "stuck cid i E (setUploadItemPaused now j p s)"
proof -
  show "stuck cid i E (setUploadBatchPaused now p s)"
    using s by (auto simp: setUploadBatchPaused_def Let_def intro!: stuck_pump)
  have "stuck cid i E (updateItem j (\<lambda>it. if status it = Queued then it\<lparr>paused := p\<rparr> else it) s)"
    by (rule stuck_update[OF s]) (simp_all add: held_def)
  then show "stuck cid i E (setUploadItemPaused now j p s)"
    using s by (auto simp: setUploadItemPaused_def Let_def intro!: stuck_pump)
qed

text \<open>New rows have new ids.\<close>

lemma stuck_new:
  assumes s: "stuck cid i E s" and n: "idCount s \<le> idCount s'" and r: "restoreStarted s' = restoreStarted s"
    and t: "tasks s' = tasks s" "effects s' = effects s"
    and i: "\<And>it. it \<in> set (items s') \<Longrightarrow> it \<in> set (items s) \<or> (\<exists>m \<ge> idCount s. it_id it = cid m)"
  shows "stuck cid i E s'"
proof -
  have "i \<noteq> cid m" if "m \<ge> idCount s" for m using s that by (auto simp: stuck_def id_ok_def)
  with i s have "\<forall>it \<in> set (items s'). it_id it = i \<longrightarrow> held it" unfolding stuck_def by metis
  with s t r id_ok_mono[OF _ n] show ?thesis by (simp add: stuck_def)
qed

lemma in_map_ids: "map it_id its = map f ks \<Longrightarrow> it \<in> set its \<Longrightarrow> \<exists>k \<in> set ks. it_id it = f k"
  by (metis (no_types, lifting) image_iff image_set imageI)

lemma stuck_start:
  assumes s: "stuck cid i E s"
  shows "stuck cid i E (startUploadBatch cid now ens d s)"
proof (cases "ens = []")
  case False
  obtain s1 new where q: "queuedItemsFromEntries cid d ens s = (s1, new)" by (cases "queuedItemsFromEntries cid d ens s")
  have s1: "s1 = s\<lparr>idCount := idCount s + length ens\<rparr>"
    and ids: "map it_id new = map (\<lambda>k. cid (idCount s + k)) [0..<length ens]"
    using queuedItems_spec[of cid d ens s] q by simp_all
  have new: "\<exists>m \<ge> idCount s. it_id it = cid m" if "it \<in> set new" for it
    using in_map_ids[OF ids that] by (metis le_add1)
  have "stuck cid i E (set_items (items s1 @ new) s1)" if "batch_uploading s1"
  proof -
    from that obtain b where "batch s1 = Some b" by (rule batch_uploadingE)
    then show ?thesis by (intro stuck_new[OF s]) (use new in \<open>auto simp: s1 set_items_def items_def\<close>)
  qed
  moreover have "stuck cid i E (s1\<lparr>idCount := Suc (idCount s1),
      batch := Some \<lparr>b_id = a, b_status = BatchUploading, b_folderId = d, b_items = new\<rparr>\<rparr>)" for a
    by (rule stuck_new[OF s]) (use new in \<open>auto simp: s1 items_def\<close>)
  ultimately show ?thesis using False q
    by (auto simp: startUploadBatch_def new_id_def Let_def intro!: stuck_pump)
qed (use s in \<open>simp add: startUploadBatch_def\<close>)

lemma stuck_ensure: "stuck cid i E s \<Longrightarrow> stuck cid i E (ensureUploadingBatch cid s)"
proof (erule stuck_new)
  have "items (ensureUploadingBatch cid s) = items s" by (auto simp: ensureUploadingBatch_def new_id_def items_def Let_def)
  then show "it \<in> set (items s) \<or> (\<exists>m \<ge> idCount s. it_id it = cid m)"
    if "it \<in> set (items (ensureUploadingBatch cid s))" for it using that by simp
qed (simp_all add: ensureUploadingBatch_def new_id_def Let_def)

lemma stuck_track_rows:
  assumes mk: "\<And>j x. it_id (mk j x) = j"
  shows "stuck cid i E s \<Longrightarrow> stuck cid i E (fst (track_rows cid key mk xs s n))"
proof (induction xs arbitrary: s n)
  case (Cons x xs)
  let ?s2 = "set_items (items (s\<lparr>idCount := Suc (idCount s)\<rparr>) @ [mk (cid (idCount s)) x]) (s\<lparr>idCount := Suc (idCount s)\<rparr>)"
  have "stuck cid i E ?s2"
    by (rule stuck_new[OF Cons.prems]) (use mk in \<open>auto simp: set_items_def items_def split: option.splits\<close>)
  from Cons.IH[OF this, of "n + 1"] Cons.IH[OF Cons.prems, of n] show ?case by (simp add: new_id_def)
qed simp

lemma stuck_track:
  assumes "stuck cid i E s" and "\<And>j x. it_id (mk j x) = j"
  shows "stuck cid i E (finish_tracking (track_rows cid key mk xs (ensureUploadingBatch cid s) 0))"
proof -
  have r: "stuck cid i E (fst (track_rows cid key mk xs (ensureUploadingBatch cid s) 0))" (is "stuck cid i E ?r")
    by (rule stuck_track_rows[OF assms(2) stuck_ensure[OF assms(1)]])
  then have "stuck cid i E (set_batch_status BatchUploading ?r)"
    by (rule stuck_subset) (simp_all add: set_batch_status_def, simp add: items_def split: option.split)
  with r show ?thesis by (auto simp: finish_tracking_def intro: stuck_processing)
qed

lemma stuck_restoreJobs:
  assumes s: "stuck cid i E s"
  shows "stuck cid i E (restoreFromActiveBackgroundJobs cid js s)"
proof (cases "active_jobs js = []")
  case False
  let ?s1 = "s\<lparr>idCount := Suc (idCount s)\<rparr>"
  obtain s2 its where q: "job_items cid (active_jobs js) ?s1 = (s2, its)" by (cases "job_items cid (active_jobs js) ?s1")
  have s2: "s2 = s\<lparr>idCount := Suc (idCount s) + length (active_jobs js)\<rparr>"
    and ids: "map it_id its = map (\<lambda>k. cid (Suc (idCount s) + k)) [0..<length (active_jobs js)]"
    using job_items_spec[of cid "active_jobs js" ?s1] q by simp_all
  have new: "\<exists>m \<ge> idCount s. it_id it = cid m" if "it \<in> set its" for it
  proof -
    obtain k where "it_id it = cid (Suc (idCount s) + k)" using in_map_ids[OF ids \<open>it \<in> set its\<close>] by blast
    then show ?thesis by (intro exI[of _ "Suc (idCount s) + k"]) simp
  qed
  have "stuck cid i E (s2\<lparr>batch := Some \<lparr>b_id = a, b_status = BatchUploading, b_folderId = None, b_items = its\<rparr>\<rparr>)" for a
    by (rule stuck_new[OF s]) (use new in \<open>auto simp: s2 items_def\<close>)
  then show ?thesis using False q by (auto simp: restoreFromActiveBackgroundJobs_def new_id_def intro!: stuck_processing)
qed (simp add: restoreFromActiveBackgroundJobs_def s)

lemma stuck_restore:
  assumes s: "stuck cid i E s" and ok: "stored_ok cid (storage s)"
  shows "stuck cid i E (restoreUploadBatchFromStorage s)"
proof (cases "batch s \<noteq> None \<or> restoreStarted s")
  case False
  have started: "stuck cid i E (s\<lparr>restoreStarted := True\<rparr>)"
    using s by (auto simp: stuck_def id_ok_def items_def)
  show ?thesis
  proof (cases "storage s")
    case (Stored p)
    have i: "i \<in> range cid" using s False by (auto simp: stuck_def id_ok_def)
    have "stuck cid i E (s\<lparr>restoreStarted := True, batch := Some \<lparr>b_id = a, b_status = st, b_folderId = f, b_items = its\<rparr>\<rparr>)"
      if "it_id ` set its = sn_id ` set (p_items p)" for a st f its
    proof -
      have "it_id it \<noteq> i" if "it \<in> set its" for it
      proof -
        have "it_id it \<in> sn_id ` set (p_items p)" using \<open>it_id ` set its = sn_id ` set (p_items p)\<close> that by blast
        then show ?thesis using ok Stored i by (auto simp: stored_ok_def)
      qed
      with started show ?thesis by (auto simp: stuck_def items_def)
    qed
    moreover have "it_id ` set (map internalFromPersisted (p_items p)) = sn_id ` set (p_items p)"
      by (simp add: image_image internalFromPersisted_def)
    moreover have "it_id ` set (reconcileRestoredItems (p_items p)) = sn_id ` set (p_items p)"
      by (simp add: reconcileRestoredItems_def image_image reconcile_status)
    ultimately show ?thesis using False Stored started
      by (auto simp: restoreUploadBatchFromStorage_def Let_def intro!: stuck_maybeComplete stuck_processing)
  qed (use False started in \<open>auto simp: restoreUploadBatchFromStorage_def Let_def intro: stuck_add\<close>)
qed (use s in \<open>auto simp: restoreUploadBatchFromStorage_def\<close>)

lemma sendingE: "sending j s \<Longrightarrow> \<exists>c k r. SendTask c k r \<in> set (tasks s) \<and> it_id c = j"
proof -
  assume "sending j s"
  then obtain t where t: "t \<in> set (tasks s)" "case t of SendTask c n r \<Rightarrow> it_id c = j | _ \<Rightarrow> False" by (auto simp: sending_def)
  show ?thesis by (cases t) (use t in auto)
qed

lemma stuck_handle:
  assumes s: "stuck cid i E s" and e: "enabled cid s (now, a)"
  shows "stuck cid i E (handle cid s (now, a))"
proof (cases a)
  case (TrackReprocess fs)
  then show ?thesis using s stuck_track[OF s, where mk = reprocess_item and key = fi_id and xs = fs]
    by (simp add: trackHlsReprocessFiles_def)
next
  case (TrackJobs js)
  then show ?thesis using s stuck_track[OF s, where mk = job_item and key = job_file and xs = "active_jobs js"]
    by (simp add: trackActiveHlsEncodeJobs_def)
next
  case (Restore)
  then show ?thesis using stuck_restore[OF s] e by simp
next
  case (UploadStarts c k d t)
  then have "it_id c \<noteq> i" using stuck_task[OF s, of "StartTask c k d t"] e by simp
  then show ?thesis using UploadStarts s by (auto intro!: stuck_add stuck_say stuck_drop)
next
  case (RetryWoken c k t)
  then have "it_id c \<noteq> i" using stuck_task[OF s, of "RetryTask c k t"] e by simp
  then show ?thesis using RetryWoken s by (auto intro!: stuck_retry_woken stuck_drop)
next
  case (UploadSettled c k reg r)
  then have "it_id c \<noteq> i" using stuck_task[OF s, of "SendTask c k reg"] e by simp
  then show ?thesis using UploadSettled s by (auto intro!: stuck_settled stuck_drop)
next
  case (ServerRegistered c k f)
  then have "it_id c \<noteq> i" using stuck_task[OF s, of "SendTask c k None"] e by simp
  then show ?thesis using ServerRegistered s
    by (auto simp: registerUploadServerFile_def register_row_def intro!: stuck_say stuck_update stuck_add stuck_drop)
next
  case (IngestSettled j f r)
  then have "j \<noteq> i" using stuck_task[OF s, of "IngestPoll j f"] e by simp
  then show ?thesis using IngestSettled s by (auto intro!: stuck_ingest stuck_drop)
next
  case (IngestGranted j f k)
  then have "j \<noteq> i" using stuck_task[OF s, of "IngestWait j f k"] e by simp
  then show ?thesis using IngestGranted s by (auto intro!: stuck_add stuck_say stuck_drop)
next
  case (BytesComplete j)
  then obtain c k r where "SendTask c k r \<in> set (tasks s)" "it_id c = j" using e sendingE[of j s] by auto
  then have "j \<noteq> i" using stuck_task[OF s, of "SendTask c k r"] by simp
  then show ?thesis using BytesComplete s by (auto intro!: stuck_release)
next
  case (SessionReady j sid)
  then show ?thesis using s by (auto simp: held_def intro!: stuck_update)
next
  case (PartTransport j tr)
  then show ?thesis using s by (auto simp: held_def intro!: stuck_update)
next
  case (JobsListed r)
  then show ?thesis using s by (auto intro!: stuck_restoreJobs stuck_drop split: option.split)
next
  case CancelRest
  then show ?thesis using s by (auto simp: cancel_rest_def intro!: stuck_fold stuck_cancel stuck_drop)
next
  case Dismiss
  then show ?thesis using s by (auto simp: dismissUploadBatch_def intro!: stuck_no_batch)
next
  case CancelAllReprocessNow
  then show ?thesis using s by (auto simp: cancelAllPendingHlsReprocess_def intro!: stuck_add stuck_say)
next
  case (IngestPolled f)
  then show ?thesis using s by (auto intro!: stuck_say)
qed (use s in \<open>auto intro!: stuck_start stuck_pauses stuck_cancel stuck_cancelAll stuck_remove_row stuck_clear stuck_retry
    stuck_retryFailed stuck_reattach stuck_pump_woken stuck_finished stuck_progress stuck_applyProgress
    stuck_reprocess_cancelled stuck_drop\<close>)

text \<open>The row just after its file was attached.\<close>

lemma reattached_stuck:
  assumes J: "J cid s" and r: "reattachUploadFile now i f s = (s', True)"
  shows "stuck cid i (filter (is_start i) (effects s)) s'"
proof -
  from r obtain it where it: "find_item i s = Some it" "needsFileReselect it"
    by (auto simp: reattachUploadFile_def split: option.splits if_splits)
  from r it have s': "s' = pumpUploadQueue now (reopen_batch (updateItem i (reattach_row f) s))"
    by (auto simp: reattachUploadFile_def split: if_splits)
  note mem = find_item_SomeD[OF it(1)]
  have u: "e = it" if "e \<in> set (items s)" "it_id e = i" for e by (rule find_item_unique[OF J it(1) that])
  have T: "task_id t \<noteq> Some i" if t: "t \<in> set (tasks s)" for t
  proof
    assume i: "task_id t = Some i"
    have "task_row_ok t it" using J_rowD(2)[OF J] mem t by blast
    moreover have "isTerminalStatus (status it)"
      using J_rowD(1)[OF J] mem it(2) by (auto simp: self_ok_def)
    ultimately show False using i mem it(2)
      by (cases t) (auto simp: unregistered_row_def registered_row_def ingest_row_def elim!: task_row_ok.elims)
  qed
  have self: "self_ok it" using J_rowD(1)[OF J] mem by blast
  have "held e'" if e': "e' \<in> set (map_item i (reattach_row f) (items s))" "it_id e' = i" for e'
  proof -
    from e'(1) obtain e where e: "e \<in> set (items s)" "e' = (if it_id e = i then reattach_row f e else e)"
      unfolding in_map_item by blast
    then have "it_id e = i" using e'(2) by (cases "it_id e = i") simp_all
    with u[OF e(1) this] e(2) have "e' = reattach_row f it" by simp
    then show ?thesis using self it(2) by (simp add: held_def reattach_row_def self_ok_def)
  qed
  then have "stuck cid i (filter (is_start i) (effects s)) (updateItem i (reattach_row f) s)"
    using T J_rowD(3)[OF J, of it] mem by (simp add: stuck_def)
  then show ?thesis unfolding s' by (intro stuck_pump stuck_reopen)
qed

section \<open>Consequences\<close>

interpretation ux: machine "enabled cid" "handle cid" s0
  "\<lambda>s. stuck cid i E s0 \<longrightarrow> stuck cid i E s" for cid i E s0
proof unfold_locales
  show "stuck cid i E s0 \<longrightarrow> stuck cid i E (handle cid s e)"
    if "stuck cid i E s0 \<longrightarrow> stuck cid i E s" "enabled cid s e" for s e
    using that stuck_handle by (cases e) blast
qed simp

text \<open>C10. A file that is attached again is never sent. When \<open>reattachUploadFile\<close> succeeds in a
  reachable state, then whatever happens afterwards no upload request is started for the
  row, and as long as the batch has the row it is shown as uploading and holds one of the
  browser's upload slots.\<close>

theorem reattached_row_never_uploaded:
  assumes "mgr_reach cid stored s" and "inj cid" and "reattachUploadFile now i f s = (s1, True)"
    and "reach (enabled cid) (handle cid) s1 s2"
  shows "filter (is_start i) (effects s2) = filter (is_start i) (effects s) \<and>
    (\<forall>it \<in> set (items s2). it_id it = i \<longrightarrow> status it = Uploading \<and> localFile it \<noteq> None)"
proof -
  have "stuck cid i (filter (is_start i) (effects s)) s2"
    using ux.reach_inv[OF assms(4)] reattached_stuck[OF J_reach[OF assms(1,2)] assms(3)] by blast
  then show ?thesis by (auto simp: stuck_def held_def)
qed

text \<open>A concrete run: an upload was interrupted by a reload, its file is attached again, and the
  pump is woken.\<close>

definition demo_stored :: storage_entry where
  "demo_stored = Stored \<lparr>p_id = ''b'', p_status = BatchUploading, p_folderId = None, p_items = [\<lparr>
     sn_id = ''x'', sn_fileName = ''f'', sn_fileSize = 3, sn_mimeType = ''t'', sn_status = Uploading, sn_progress = 0,
     sn_phase = PhUploading, sn_indeterminate = False, sn_uploadedFileId = None, sn_resumableServerSessionId = Some ''u'',
     sn_needsFileReselect = False, sn_canRetry = False, sn_relativePath = None, sn_partTransport = None,
     sn_paused = False, sn_isReprocess = False, sn_error = None, sn_displayBucket = InFlight\<rparr>]\<rparr>"

definition demo_restored :: mgr where
  "demo_restored = handle demo_ids (init_mgr demo_stored) (0, Restore)"

definition demo_attached :: mgr where
  "demo_attached = fst (reattachUploadFile 0 ''x'' (en_file demo_entry) demo_restored)"

definition demo_woken :: mgr where
  "demo_woken = handle demo_ids demo_attached (0, PumpWoken 0 [])"

lemma demo_restored_reach: "mgr_reach demo_ids demo_stored demo_restored"
proof -
  have "''x'' \<notin> range demo_ids" by (auto simp: demo_ids_def Cons_replicate_eq)
  then have "enabled demo_ids (init_mgr demo_stored) (0, Restore)"
    by (simp add: init_mgr_def demo_stored_def stored_ok_def)
  from reach_step[where enabled = "enabled demo_ids" and handle = "handle demo_ids", OF reach_init this]
  show ?thesis unfolding demo_restored_def .
qed

lemma demo_woken_reach: "reach (enabled demo_ids) (handle demo_ids) demo_attached demo_woken"
proof -
  have "enabled demo_ids demo_attached (0, PumpWoken 0 [])" unfolding enabled.simps by code_simp
  from reach_step[where enabled = "enabled demo_ids" and handle = "handle demo_ids", OF reach_init this]
  show ?thesis unfolding demo_woken_def .
qed

theorem reattached_row_never_uploaded_witness:
  "map status (items demo_woken) = [Uploading] \<and>
   filter (is_start ''x'') (effects demo_woken) = []"
proof -
  have "snd (reattachUploadFile 0 ''x'' (en_file demo_entry) demo_restored)" by code_simp
  then have r: "reattachUploadFile 0 ''x'' (en_file demo_entry) demo_restored = (demo_attached, True)"
    by (simp add: demo_attached_def prod_eq_iff)
  have i: "map it_id (items demo_woken) = [''x'']" and e: "effects demo_restored = []" by code_simp+
  show ?thesis
    using reattached_row_never_uploaded[OF demo_restored_reach demo_ids_inj r demo_woken_reach] i e
    by (auto simp: map_eq_Cons_conv)
qed

end
