(* ===== verification/UploadViews.thy ===== *)
theory UploadViews
  imports UploadClosing
begin

text \<open>
  What the transfer panel shows and what it asks of the server: the counts and the overall
  percentage of a batch, the rows after a reload, and the two ways to get rid of a row.
\<close>

section \<open>Counts and percentages\<close>

definition bucket_total :: "displayCounts \<Rightarrow> int" where
  "bucket_total c = c_inFlight c + c_waiting c + c_done c + c_failed c + c_cancelled c"

definition phase_total :: "displayCounts \<Rightarrow> int" where
  "phase_total c = c_uploadingBytes c + c_processing c + c_encrypting c + c_storing c"

lemma count_item_simps:
  "bucket_total (count_item it c) = bucket_total c + 1" "c_total (count_item it c) = c_total c"
  "phase_total (count_item it c) - c_inFlight (count_item it c) = phase_total c - c_inFlight c"
  "c_waiting (count_item it c) = c_waiting c + (if sn_displayBucket it = BQueued then 1 else 0)"
  "c_done (count_item it c) = c_done c + (if sn_displayBucket it = BDone then 1 else 0)"
  "c_failed (count_item it c) = c_failed c + (if sn_displayBucket it = BError then 1 else 0)"
  "c_cancelled (count_item it c) = c_cancelled c + (if sn_displayBucket it = BCancelled then 1 else 0)"
  by (simp_all add: count_item_def bucket_total_def phase_total_def Let_def split: display_bucket.split
      upload_phase.split stage.split)

lemma fold_counts:
  "bucket_total (fold count_item its c) = bucket_total c + int (length its) \<and> c_total (fold count_item its c) = c_total c \<and>
   phase_total (fold count_item its c) - c_inFlight (fold count_item its c) = phase_total c - c_inFlight c \<and>
   c_waiting (fold count_item its c) = c_waiting c + int (length (filter (\<lambda>it. sn_displayBucket it = BQueued) its)) \<and>
   c_done (fold count_item its c) = c_done c + int (length (filter (\<lambda>it. sn_displayBucket it = BDone) its)) \<and>
   c_failed (fold count_item its c) = c_failed c + int (length (filter (\<lambda>it. sn_displayBucket it = BError) its)) \<and>
   c_cancelled (fold count_item its c) = c_cancelled c + int (length (filter (\<lambda>it. sn_displayBucket it = BCancelled) its))"
proof (induction its arbitrary: c)
  case (Cons it its)
  from Cons.IH[of "count_item it c"] show ?case by (simp add: count_item_simps)
qed simp

text \<open>The counts of the panel partition the rows: every row is in exactly one of in flight,
  waiting, done, failed and cancelled, every row in flight is in exactly one phase, and each
  count is the number of the rows of its bucket.\<close>

theorem display_counts_partition:
  "let c = getUploadBatchDisplayCounts its in
     c_inFlight c + c_waiting c + c_done c + c_failed c + c_cancelled c = c_total c \<and> c_total c = int (length its) \<and>
     c_uploadingBytes c + c_processing c + c_encrypting c + c_storing c = c_inFlight c \<and>
     c_waiting c = int (length (filter (\<lambda>it. sn_displayBucket it = BQueued) its)) \<and>
     c_done c = int (length (filter (\<lambda>it. sn_displayBucket it = BDone) its)) \<and>
     c_failed c = int (length (filter (\<lambda>it. sn_displayBucket it = BError) its)) \<and>
     c_cancelled c = int (length (filter (\<lambda>it. sn_displayBucket it = BCancelled) its))"
  using fold_counts[of its "\<lparr>c_total = int (length its), c_inFlight = 0, c_waiting = 0, c_uploadingBytes = 0,
      c_processing = 0, c_encrypting = 0, c_storing = 0, c_done = 0, c_failed = 0, c_cancelled = 0\<rparr>"]
  by (simp add: getUploadBatchDisplayCounts_def Let_def bucket_total_def phase_total_def)

lemma item_percent_bounds: "0 \<le> item_percent it \<and> item_percent it \<le> 100"
  by (auto simp: item_percent_def clamp99_def min_def max_def split: display_bucket.split)

lemma sum_percent_bounds: "0 \<le> sum_list (map item_percent its) \<and> sum_list (map item_percent its) \<le> 100 * of_nat (length its)"
proof (induction its)
  case (Cons it its)
  with item_percent_bounds[of it] show ?case by (auto simp: algebra_simps)
qed simp

lemma overall_percent_bounds: "0 \<le> getUploadBatchOverallPercent its \<and> getUploadBatchOverallPercent its \<le> 100"
proof (cases "its = []")
  case False
  then have "0 \<le> sum_list (map item_percent its) / of_nat (length its)"
      "sum_list (map item_percent its) / of_nat (length its) \<le> of_int 100"
    using sum_percent_bounds[of its] by (simp_all add: divide_le_eq)
  from js_round_bounds[OF this] False show ?thesis by (simp add: getUploadBatchOverallPercent_def)
qed (simp add: getUploadBatchOverallPercent_def)

section \<open>Reload\<close>

text \<open>After a reload of a running batch no row claims to be queued, a row that is shown as
  uploading is one whose file the server already has, a row asks for its file only when the
  server has a session to continue, and a finished row keeps its outcome.\<close>

theorem reload_rows:
  "let r = reconcile_item (toItemSnapshot resuming it) in
     it_id r = it_id it \<and> localFile r = None \<and> status r \<noteq> Queued \<and>
     (status r = Uploading \<longleftrightarrow> status it = Uploading \<and> truthy (uploadedFileId it)) \<and>
     (needsFileReselect r \<and> \<not> needsFileReselect it \<longrightarrow>
        status r = Error \<and> status it = Uploading \<and> truthy (resumableServerSessionId it)) \<and>
     (isTerminalStatus (status it) \<longrightarrow> status r = status it \<and> uploadedFileId r = uploadedFileId it)"
  by (auto simp: reconcile_item_def internalFromPersisted_def toItemSnapshot_def Let_def isTerminalStatus_def)

theorem reload_rows_witness:
  "status (reconcile_item (toItemSnapshot [] (demo_claimed\<lparr>uploadedFileId := Some ''s''\<rparr>))) = Uploading \<and>
   needsFileReselect (reconcile_item (toItemSnapshot [] (demo_claimed\<lparr>resumableServerSessionId := Some ''u''\<rparr>))) \<and>
   status (reconcile_item (toItemSnapshot [] (demo_claimed\<lparr>resumableServerSessionId := Some ''u''\<rparr>))) = Error \<and>
   status (reconcile_item (toItemSnapshot [] (demo_claimed\<lparr>status := Done\<rparr>))) = Done"
proof -
  let ?a = "demo_claimed\<lparr>uploadedFileId := Some ''s''\<rparr>" and ?b = "demo_claimed\<lparr>resumableServerSessionId := Some ''u''\<rparr>"
    and ?c = "demo_claimed\<lparr>status := Done\<rparr>"
  have d: "status demo_claimed = Uploading" "\<not> needsFileReselect demo_claimed" by code_simp+
  have a: "truthy (Some ''s'')" "status ?a = Uploading" using d by (simp_all add: truthy_def)
  have b: "needsFileReselect (reconcile_item (toItemSnapshot [] ?b))" by code_simp
  have c: "isTerminalStatus (status ?c)" by (simp add: isTerminalStatus_def)
  show ?thesis
    using reload_rows[of "[]" ?a, unfolded Let_def] reload_rows[of "[]" ?b, unfolded Let_def]
      reload_rows[of "[]" ?c, unfolded Let_def] a b c d by simp
qed

section \<open>Getting rid of the row of a rebuild\<close>

lemma effects_removeItem: "effects (removeItemFromActiveBatch now i s) = effects s"
  by (auto simp: removeItemFromActiveBatch_def Let_def)

text \<open>C23. Cancelling the row of a rebuild asks the server to cancel the rebuild and nothing else,
  but removing the row afterwards, when it is cancelled or failed, treats its file like a
  partial upload: the ingest of the video is cancelled and the video itself is deleted.\<close>

theorem rebuild_row_remove_deletes_video:
  assumes "find_item i s = Some it" and "isReprocess it" and "uploadedFileId it = Some f" and "f \<noteq> []"
    and "js_starts_with ''video/'' (mimeType it)"
  shows "(batch_uploading s \<and> status it \<noteq> Done \<longrightarrow> effects (cancelUploadItem now i s) = effects s @ [CancelReprocess f]) \<and>
    (status it = Error \<or> status it = Cancelled \<longrightarrow>
       effects (removeUploadBatchItem now i s) = effects s @ [CancelIngest f, DeleteFile f] \<and>
       it \<notin> set (items (removeUploadBatchItem now i s)))"
proof -
  have "effects (cancelUploadItem now i s) = effects s @ [CancelReprocess f]" if "batch_uploading s" "status it \<noteq> Done"
    using that assms by (simp add: cancelUploadItem_def Let_def truthy_def)
  moreover have "effects (removeUploadBatchItem now i s) = effects s @ [CancelIngest f, DeleteFile f]"
    if "status it = Error \<or> status it = Cancelled"
    using that assms
    by (auto simp: removeUploadBatchItem_def effects_removeItem cleanup_item_def voidCleanupPartialServerFile_def truthy_def)
  moreover have "it \<notin> set (items (removeUploadBatchItem now i s))" if "status it = Error \<or> status it = Cancelled"
  proof -
    have b: "batch s \<noteq> None" using assms(1) by (cases "batch s") (auto simp: find_item_def items_def)
    have "it_id it = i" using assms(1) by (auto dest: find_item_SomeD)
    moreover have "items (removeUploadBatchItem now i s) = filter (\<lambda>e. it_id e \<noteq> i) (items s)"
      using b that assms(1) by (auto simp: removeUploadBatchItem_def removeItemFromActiveBatch_def Let_def filter_empty_conv items_def[of "_\<lparr>batch := None\<rparr>"])
    ultimately show ?thesis by simp
  qed
  ultimately show ?thesis by blast
qed

text \<open>A concrete run: the rebuild of a video is tracked, cancelled, and its row removed.\<close>

definition demo_video :: fileItem where
  "demo_video = \<lparr>fi_id = ''v'', fi_name = ''film'', size_bytes = 9, mime_type = Some ''video/mp4'', hls_ready = True,
     audio_waveform_ready = False, conversion_progress = None\<rparr>"

definition demo_rebuild :: mgr where
  "demo_rebuild = handle demo_ids (init_mgr NoEntry) (0, TrackReprocess [demo_video])"

definition demo_rebuild_id :: string where
  "demo_rebuild_id = demo_ids 1"

definition demo_rebuild_cancelled :: mgr where
  "demo_rebuild_cancelled = handle demo_ids demo_rebuild (0, CancelItem demo_rebuild_id)"

lemma demo_rebuild_row:
  "find_item demo_rebuild_id demo_rebuild = Some (reprocess_item demo_rebuild_id demo_video)"
  "find_item demo_rebuild_id demo_rebuild_cancelled = Some (mark_cancelled (reprocess_item demo_rebuild_id demo_video))"
  "batch_uploading demo_rebuild" "effects demo_rebuild = []"
  by code_simp+

theorem rebuild_row_remove_deletes_video_witness:
  "effects demo_rebuild_cancelled = [CancelReprocess ''v''] \<and>
   effects (removeUploadBatchItem 0 demo_rebuild_id demo_rebuild_cancelled) =
     [CancelReprocess ''v'', CancelIngest ''v'', DeleteFile ''v'']"
proof -
  let ?it = "reprocess_item demo_rebuild_id demo_video"
  have f: "isReprocess ?it" "uploadedFileId ?it = Some ''v''" "js_starts_with ''video/'' (mimeType ?it)" "status ?it = Uploading"
    by code_simp+
  have g: "isReprocess (mark_cancelled ?it)" "uploadedFileId (mark_cancelled ?it) = Some ''v''"
    "js_starts_with ''video/'' (mimeType (mark_cancelled ?it))" "status (mark_cancelled ?it) = Cancelled"
    using f by (simp_all add: mark_cancelled_def)
  have c: "effects demo_rebuild_cancelled = [CancelReprocess ''v'']"
    using rebuild_row_remove_deletes_video[OF demo_rebuild_row(1) f(1,2) _ f(3), of 0] f(4) demo_rebuild_row(3,4)
    by (simp add: demo_rebuild_cancelled_def)
  show ?thesis
    using rebuild_row_remove_deletes_video[OF demo_rebuild_row(2) g(1,2) _ g(3), of 0] g(4) c by simp
qed

end
