(* ===== verification/SheetRules.thy ===== *)
theory SheetRules
  imports FormulaText
begin

text \<open>
  Conditional formatting: \<^verbatim>\<open>frontend/src/lib/spreadsheet/conditional-formatting.ts\<close> (ranges of a
  rule, the ten kinds of rules, and which rule paints a cell) and
  \<^verbatim>\<open>frontend/src/lib/spreadsheet/cf-formula.ts\<close> (operands and expressions). The rules themselves are
  the record \<open>cf_rule\<close> of \<open>SheetTypes\<close>. Numbers are rationals; \<open>Math.sqrt\<close> and JavaScript outside
  the expressions of \<open>JsExpr\<close> are fields of \<open>cf_env\<close>.
\<close>

record cf_env =
  ce_sqrt :: "rat \<Rightarrow> rat"
  ce_js :: "string \<Rightarrow> js_result"

section \<open>Operands (cf-formula.ts)\<close>

record cf_ref =
  colAbsolute :: bool
  ref_col :: int
  rowAbsolute :: bool
  ref_row :: int

definition parseCfCellRef :: "string \<Rightarrow> cf_ref option" where
  "parseCfCellRef token =
     (let s = js_trim token; t = drop_dollar s;
          letters = takeWhile is_alpha t; u = dropWhile is_alpha t; digits = drop_dollar u
      in if letters = [] \<or> digits = [] \<or> \<not> list_all is_digit digits then None
         else let c = letters_value (js_upper letters); r = digits_value 10 digits - 1
              in if r < 0 \<or> c \<le> 0 then None
                 else Some \<lparr>colAbsolute = t \<noteq> s, ref_col = c - 1, rowAbsolute = digits \<noteq> u, ref_row = r\<rparr>)"

definition resolveCfCellRef :: "cf_ref \<Rightarrow> region \<Rightarrow> int \<Rightarrow> int \<Rightarrow> int \<times> int" where
  "resolveCfCellRef ref rng r c =
     (if rowAbsolute ref then ref_row ref else ref_row ref + (r - startRow rng),
      if colAbsolute ref then ref_col ref else ref_col ref + (c - startCol rng))"

text \<open>A literal or a value that a rule compares with; \<open>OpMissing\<close> is \<open>undefined\<close>, \<open>OpNull\<close> \<open>null\<close>.\<close>

datatype cf_operand = OpMissing | OpNull | OpNum rat | OpText string

definition cellOperandValue :: "sheet_cell option \<Rightarrow> cf_operand" where
  "cellOperandValue cell =
     (case cell of
        None \<Rightarrow> OpNull
      | Some x \<Rightarrow>
          (case cvalue x of
             VNum n \<Rightarrow> OpNum n
           | v \<Rightarrow>
               if v \<noteq> VNull \<and> js_string v \<noteq> [] then OpText (js_string v)
               else if js_trim (display x) \<noteq> [] then OpText (display x) else OpNull))"

definition at_pos :: "grid \<Rightarrow> int \<times> int \<Rightarrow> sheet_cell option" where
  "at_pos g p = grid_at g (fst p) (snd p)"

definition resolveCfOperand :: "string option \<Rightarrow> region \<Rightarrow> int \<Rightarrow> int \<Rightarrow> grid \<Rightarrow> cf_operand" where
  "resolveCfOperand f rng r c g =
     (case f of
        None \<Rightarrow> OpMissing
      | Some text \<Rightarrow>
          let t = js_trim text in
          if t = [] then OpMissing
          else if hd t = dquote \<and> last t = dquote then
            OpText (js_join [dquote] (js_split [dquote, dquote] (js_slice t 1 (-1))))
          else case parseCfCellRef t of
            Some ref \<Rightarrow> cellOperandValue (at_pos g (resolveCfCellRef ref rng r c))
          | None \<Rightarrow>
              (case parseCellAddressLabel t of
                 Some a \<Rightarrow> cellOperandValue (grid_at g (row a) (col a))
               | None \<Rightarrow> (case js_number t of Some n \<Rightarrow> OpNum n | None \<Rightarrow> OpText t)))"

section \<open>Expressions (cf-formula.ts)\<close>

definition literalForExpression :: "cf_operand \<Rightarrow> string" where
  "literalForExpression v =
     (case v of
        OpNum n \<Rightarrow> show_num n
      | OpText s \<Rightarrow> [dquote] @ js_join [dquote, dquote] (js_split [dquote] s) @ [dquote]
      | _ \<Rightarrow> [dquote, dquote])"

definition substituteCfExpression :: "string \<Rightarrow> region \<Rightarrow> int \<Rightarrow> int \<Rightarrow> grid \<Rightarrow> string" where
  "substituteCfExpression f rng r c g =
     re_replace m_dollar_cell (\<lambda>token.
       case parseCfCellRef token of
         None \<Rightarrow> token
       | Some ref \<Rightarrow> literalForExpression (cellOperandValue (at_pos g (resolveCfCellRef ref rng r c)))) f"

text \<open>\<open>/^[\d\s.+\-*/%<>=!&|()"'A-Za-z_]+$/\<close>\<close>

definition cf_char :: "char \<Rightarrow> bool" where
  "cf_char ch \<longleftrightarrow> is_digit ch \<or> is_ws ch \<or> ch \<in> set ''.+-*/%<>=!&|()'' \<or> ch = dquote \<or> ch = CHR 0x27 \<or> is_name_start ch"

definition cf_text :: "string \<Rightarrow> string" where
  "cf_text s = re_replace (m_word ''false'') (\<lambda>_. ''false'') (re_replace (m_word ''true'') (\<lambda>_. ''true'') s)"

definition evaluateCfExpression :: "cf_env \<Rightarrow> string \<Rightarrow> region \<Rightarrow> int \<Rightarrow> int \<Rightarrow> grid \<Rightarrow> bool" where
  "evaluateCfExpression E f rng r c g =
     (let t = js_trim f; expr = (if js_starts_with ''='' t then drop 1 t else t)
      in if expr = [] then False
         else let s = cf_text (substituteCfExpression expr rng r c g)
              in if s = [] \<or> \<not> list_all cf_char s then False
                 else case js_run (ce_js E) s of Throws \<Rightarrow> False | Returns v \<Rightarrow> jval_truthy v)"

section \<open>Ranges of rules (conditional-formatting.ts)\<close>

definition SQREF_FULL_COLUMN_END_ROW :: int where "SQREF_FULL_COLUMN_END_ROW = 1048575"
definition SQREF_FULL_ROW_END_COL :: int where "SQREF_FULL_ROW_END_COL = 16383"

definition col_only :: "string \<Rightarrow> bool" where
  "col_only s \<longleftrightarrow> (let t = drop_dollar s in t \<noteq> [] \<and> list_all is_alpha t)"

definition row_only :: "string \<Rightarrow> bool" where
  "row_only s \<longleftrightarrow> (let t = drop_dollar s in t \<noteq> [] \<and> list_all is_digit t)"

definition parseSqrefEndpoint :: "string \<Rightarrow> cell_address option" where
  "parseSqrefEndpoint token =
     (let t = js_trim token
      in case parseCellAddressLabel t of
           Some a \<Rightarrow> Some a
         | None \<Rightarrow>
             if col_only t then map_option (\<lambda>c. \<lparr>row = 0, col = c\<rparr>) (columnLettersToIndex (drop_dollar t))
             else if row_only t then
               (let r = digits_value 10 (drop_dollar t) - 1 in if 0 \<le> r then Some \<lparr>row = r, col = 0\<rparr> else None)
             else None)"

definition sqref_range :: "string \<Rightarrow> region option" where
  "sqref_range token =
     (let parts = js_split '':'' token; p = hd parts; q = last parts
      in case (parseSqrefEndpoint p, parseSqrefEndpoint q) of
           (Some s, Some e) \<Rightarrow>
             let cols = col_only (js_trim p) \<or> col_only (js_trim q); rws = row_only (js_trim p) \<or> row_only (js_trim q)
             in Some \<lparr>startRow = min (row s) (row e), startCol = min (col s) (col e),
                  endRow = max (row s) (max (row e) (if cols then SQREF_FULL_COLUMN_END_ROW else row s)),
                  endCol = max (col s) (max (col e) (if rws then SQREF_FULL_ROW_END_COL else col s))\<rparr>
         | _ \<Rightarrow> None)"

text \<open>\<open>s.split(/\s+/)\<close> of a trimmed text.\<close>

fun ws_split :: "string \<Rightarrow> string \<Rightarrow> string list" where
  "ws_split acc [] = [rev acc]"
| "ws_split acc (c # s) =
     (if is_ws c then (case s of d # _ \<Rightarrow> if is_ws d then ws_split acc s else rev acc # ws_split [] s | [] \<Rightarrow> [rev acc, []])
      else ws_split (c # acc) s)"

definition parseSqref :: "string \<Rightarrow> region list" where
  "parseSqref s = List.map_filter sqref_range (ws_split [] (js_trim s))"

record grid_bounds =
  rowCount :: int
  colCount :: int

definition cellInRange :: "int \<Rightarrow> int \<Rightarrow> region \<Rightarrow> grid_bounds option \<Rightarrow> bool" where
  "cellInRange r c rng bounds =
     (let er = (case bounds of
                  Some b \<Rightarrow> if endRow rng \<ge> SQREF_FULL_COLUMN_END_ROW then max 0 (rowCount b - 1) else endRow rng
                | None \<Rightarrow> endRow rng);
          ec = (case bounds of
                  Some b \<Rightarrow> if endCol rng \<ge> SQREF_FULL_ROW_END_COL then max 0 (colCount b - 1) else endCol rng
                | None \<Rightarrow> endCol rng)
      in r \<ge> startRow rng \<and> r \<le> er \<and> c \<ge> startCol rng \<and> c \<le> ec)"

section \<open>What a rule paints\<close>

record resolved_format =
  rs_backgroundColor :: "string option"
  rs_textColor :: "string option"
  rs_bold :: "bool option"
  rs_badge :: "badge_tone option"
  rs_dataBarPercent :: "rat option"
  rs_dataBarColor :: "string option"

definition no_format :: resolved_format where
  "no_format = \<lparr>rs_backgroundColor = None, rs_textColor = None, rs_bold = None, rs_badge = None,
     rs_dataBarPercent = None, rs_dataBarColor = None\<rparr>"

definition of_style :: "cf_style \<Rightarrow> resolved_format" where
  "of_style s = no_format\<lparr>rs_backgroundColor := cfs_backgroundColor s, rs_textColor := cfs_textColor s,
     rs_bold := cfs_bold s, rs_badge := cfs_badge s\<rparr>"

definition hasVisibleResolved :: "resolved_format option \<Rightarrow> bool" where
  "hasVisibleResolved cf =
     (case cf of
        None \<Rightarrow> False
      | Some x \<Rightarrow> opt_text (rs_backgroundColor x) \<noteq> [] \<or> opt_text (rs_textColor x) \<noteq> [] \<or> rs_bold x = Some True
          \<or> rs_badge x \<noteq> None \<or> rs_dataBarPercent x \<noteq> None \<or> opt_text (rs_dataBarColor x) \<noteq> [])"

definition cellNumericValue :: "sheet_cell \<Rightarrow> rat option" where
  "cellNumericValue cell = (case cvalue cell of VNum n \<Rightarrow> Some n | _ \<Rightarrow> js_number (strip_money (display cell)))"

definition operand_text :: "cf_operand \<Rightarrow> string" where
  "operand_text v = (case v of OpNum n \<Rightarrow> show_num n | OpText s \<Rightarrow> s | _ \<Rightarrow> [])"

definition js_ends_with :: "string \<Rightarrow> string \<Rightarrow> bool" where
  "js_ends_with sub s = js_starts_with (rev sub) (rev s)"

definition compareCellIs :: "sheet_cell \<Rightarrow> cf_operator \<Rightarrow> cf_operand \<Rightarrow> cf_operand \<Rightarrow> bool" where
  "compareCellIs cell op v v2 =
     (let num = cellNumericValue cell;
          text = js_lower (js_trim (display cell));
          needle = js_lower (js_trim (operand_text v));
          both = (\<lambda>P. case (num, v) of (Some n, OpNum k) \<Rightarrow> P n k | _ \<Rightarrow> False)
      in case op of
           GreaterThan \<Rightarrow> both (\<lambda>n k. n > k)
         | GreaterThanOrEqual \<Rightarrow> both (\<lambda>n k. n \<ge> k)
         | LessThan \<Rightarrow> both (\<lambda>n k. n < k)
         | LessThanOrEqual \<Rightarrow> both (\<lambda>n k. n \<le> k)
         | CfEqual \<Rightarrow> (case v of OpNum k \<Rightarrow> num = Some k | _ \<Rightarrow> text = needle)
         | NotEqual \<Rightarrow> (case v of OpNum k \<Rightarrow> num \<noteq> None \<and> num \<noteq> Some k | _ \<Rightarrow> text \<noteq> needle)
         | Between \<Rightarrow> (case (num, v, v2) of (Some n, OpNum low, OpNum high) \<Rightarrow> n \<ge> low \<and> n \<le> high | _ \<Rightarrow> False)
         | TextContains \<Rightarrow> js_includes needle text
         | NotContains \<Rightarrow> \<not> js_includes needle text
         | BeginsWith \<Rightarrow> js_starts_with needle text
         | EndsWith \<Rightarrow> js_ends_with needle text
         | ContainsBlanks \<Rightarrow> text = [] \<and> cvalue cell = VNull
         | NotContainsBlanks \<Rightarrow> text \<noteq> [] \<or> cvalue cell \<noteq> VNull)"

section \<open>Colours\<close>

definition lerpChannel :: "int \<Rightarrow> int \<Rightarrow> rat \<Rightarrow> int" where
  "lerpChannel lo hi t = math_round (of_int lo + of_int (hi - lo) * t)"

text \<open>\<open>Number.parseInt(s, 16)\<close>, \<open>None\<close> for NaN.\<close>

definition parse_int16 :: "string \<Rightarrow> int option" where
  "parse_int16 s =
     (let t = dropWhile is_ws s;
          neg = js_starts_with ''-'' t;
          u = (if neg \<or> js_starts_with ''+'' t then drop 1 t else t);
          v = (if js_starts_with ''0x'' u \<or> js_starts_with ''0X'' u then drop 2 u else u);
          ds = takeWhile (\<lambda>ch. digit_of ch < 16) v
      in if ds = [] then None else Some ((if neg then -1 else 1) * digits_value 16 ds))"

definition hexToRgb :: "string \<Rightarrow> (int \<times> int \<times> int) option" where
  "hexToRgb hex =
     (let n = (case find_index (\<lambda>ch. ch = CHR ''#'') hex of None \<Rightarrow> hex | Some k \<Rightarrow> take k hex @ drop (k + 1) hex)
      in if length n \<noteq> 6 then None
         else case (parse_int16 (take 2 n), parse_int16 (take 2 (drop 2 n)), parse_int16 (drop 4 n)) of
                (Some r, Some g, Some b) \<Rightarrow> Some (r, g, b)
              | _ \<Rightarrow> None)"

definition hex_digit :: "int \<Rightarrow> char" where
  "hex_digit d = (if d < 10 then char_of (48 + d) else char_of (87 + d))"

function hex_digits :: "int \<Rightarrow> string" where
  "hex_digits n = (if n < 16 then [hex_digit n] else hex_digits (n div 16) @ [hex_digit (n mod 16)])"
  by pat_completeness auto
termination by (relation "measure nat") auto

declare hex_digits.simps [simp del]

text \<open>\<open>n.toString(16).padStart(2, "0")\<close>.\<close>

definition hex_channel :: "int \<Rightarrow> string" where
  "hex_channel n = (let s = (if n < 0 then ''-'' else []) @ hex_digits \<bar>n\<bar> in replicate (2 - length s) CHR ''0'' @ s)"

definition rgbToHex :: "int \<Rightarrow> int \<Rightarrow> int \<Rightarrow> string" where
  "rgbToHex r g b = ''#'' @ hex_channel r @ hex_channel g @ hex_channel b"

definition interpolateColor :: "string \<Rightarrow> string \<Rightarrow> rat \<Rightarrow> string" where
  "interpolateColor minColor maxColor ratio =
     (case (hexToRgb minColor, hexToRgb maxColor) of
        (Some (r, g, b), Some (r', g', b')) \<Rightarrow>
          let t = min 1 (max 0 ratio) in rgbToHex (lerpChannel r r' t) (lerpChannel g g' t) (lerpChannel b b' t)
      | _ \<Rightarrow> minColor)"

section \<open>The kinds of rules\<close>

definition cell_or_blank :: "grid \<Rightarrow> int \<Rightarrow> int \<Rightarrow> sheet_cell" where
  "cell_or_blank g r c = (case grid_at g r c of None \<Rightarrow> empty_cell | Some x \<Rightarrow> x)"

text \<open>The cells of a rule's range, clipped to the grid: the two loops with their \<open>break\<close>s.\<close>

definition range_cells :: "cf_rule \<Rightarrow> grid \<Rightarrow> grid_bounds \<Rightarrow> sheet_cell list" where
  "range_cells rule g b =
     (let rng = cf_range rule
      in [cell_or_blank g r c.
            r \<leftarrow> [startRow rng .. min (endRow rng) (rowCount b - 1)],
            c \<leftarrow> [startCol rng .. min (endCol rng) (colCount b - 1)],
            cellInRange r c rng (Some b)])"

definition rangeNumericValues :: "cf_rule \<Rightarrow> grid \<Rightarrow> grid_bounds \<Rightarrow> rat list" where
  "rangeNumericValues rule g b = List.map_filter cellNumericValue (range_cells rule g b)"

definition display_key :: "sheet_cell \<Rightarrow> string" where
  "display_key cell = js_lower (js_trim (display cell))"

definition rangeDisplayKeys :: "cf_rule \<Rightarrow> grid \<Rightarrow> grid_bounds \<Rightarrow> string list" where
  "rangeDisplayKeys rule g b = map display_key (range_cells rule g b)"

definition style_result :: "cf_rule \<Rightarrow> resolved_format option" where
  "style_result rule = map_option of_style (cf_style_of rule)"

text \<open>What the numeric kinds have in common: the values of the range and the number of the cell.\<close>

definition with_numbers ::
    "sheet_cell \<Rightarrow> cf_rule \<Rightarrow> grid \<Rightarrow> grid_bounds \<Rightarrow> (rat list \<Rightarrow> rat \<Rightarrow> resolved_format option) \<Rightarrow> resolved_format option" where
  "with_numbers cell rule g b f =
     (let vs = rangeNumericValues rule g b
      in if vs = [] then None else case cellNumericValue cell of None \<Rightarrow> None | Some n \<Rightarrow> f vs n)"

definition position_in :: "rat list \<Rightarrow> rat \<Rightarrow> rat" where
  "position_in vs n =
     (let lo = min_rats vs; hi = max_rats vs in if hi = lo then 1 / 2 else (n - lo) / (hi - lo))"

definition evaluateColorScale :: "sheet_cell \<Rightarrow> cf_rule \<Rightarrow> int \<Rightarrow> int \<Rightarrow> grid \<Rightarrow> grid_bounds \<Rightarrow> resolved_format option" where
  "evaluateColorScale cell rule r c g b =
     (case cf_colorScale rule of
        None \<Rightarrow> None
      | Some (minColor, midColor, maxColor) \<Rightarrow>
          if \<not> cellInRange r c (cf_range rule) (Some b) then None
          else with_numbers cell rule g b (\<lambda>vs n.
            let ratio = position_in vs n; mid = opt_text midColor
            in Some (no_format\<lparr>rs_backgroundColor := Some (
                 if mid \<noteq> [] then
                   (if ratio \<le> 1 / 2 then interpolateColor minColor mid (ratio / (1 / 2))
                    else interpolateColor mid maxColor ((ratio - 1 / 2) / (1 / 2)))
                 else interpolateColor minColor maxColor ratio)\<rparr>)))"

definition evaluateDataBar :: "sheet_cell \<Rightarrow> cf_rule \<Rightarrow> int \<Rightarrow> int \<Rightarrow> grid \<Rightarrow> grid_bounds \<Rightarrow> resolved_format option" where
  "evaluateDataBar cell rule r c g b =
     (case cf_dataBar rule of
        None \<Rightarrow> None
      | Some color \<Rightarrow>
          if \<not> cellInRange r c (cf_range rule) (Some b) then None
          else with_numbers cell rule g b (\<lambda>vs n.
            let hi = max_rats vs; lo = min_rats (0 # vs); span = hi - lo;
                percent = (if span \<le> 0 then 0 else (n - lo) / span)
            in Some (no_format\<lparr>rs_dataBarPercent := Some (min 1 (max 0 percent)), rs_dataBarColor := Some color\<rparr>)))"

definition evaluateAboveAverage ::
    "cf_env \<Rightarrow> sheet_cell \<Rightarrow> cf_rule \<Rightarrow> int \<Rightarrow> int \<Rightarrow> grid \<Rightarrow> grid_bounds \<Rightarrow> resolved_format option" where
  "evaluateAboveAverage E cell rule r c g b =
     (case cf_aboveAverage rule of
        None \<Rightarrow> None
      | Some (upper, equalAverage, stdDev) \<Rightarrow>
          if \<not> cellInRange r c (cf_range rule) (Some b) then None
          else with_numbers cell rule g b (\<lambda>vs n.
            let average = sum_rats vs / of_nat (length vs);
                variance = foldl (\<lambda>s v. s + (v - average) ^ 2) 0 vs / of_nat (length vs);
                spread = (case stdDev of None \<Rightarrow> 0 | Some k \<Rightarrow> k) * ce_sqrt E variance;
                threshold = (if upper then average + spread else average - spread);
                hit = (if upper then (if equalAverage = Some True then n \<ge> threshold else n > threshold)
                       else (if equalAverage = Some True then n \<le> threshold else n < threshold))
            in if hit then style_result rule else None))"

definition evaluateTop10 :: "sheet_cell \<Rightarrow> cf_rule \<Rightarrow> int \<Rightarrow> int \<Rightarrow> grid \<Rightarrow> grid_bounds \<Rightarrow> resolved_format option" where
  "evaluateTop10 cell rule r c g b =
     (case cf_top10 rule of
        None \<Rightarrow> None
      | Some (rank, percent, bottom) \<Rightarrow>
          if \<not> cellInRange r c (cf_range rule) (Some b) then None
          else with_numbers cell rule g b (\<lambda>vs n.
            let sorted = sort_down vs; k = max 1 rank; len = of_nat (length sorted);
                cutoff = (if percent then max 0 (of_int \<lceil>len * k / 100\<rceil> - 1) else min (len - 1) (k - 1));
                hit = (if bottom then (case at_index sorted (Fin (len - 1 - cutoff)) of None \<Rightarrow> False | Some t \<Rightarrow> n \<le> t)
                       else (case at_index sorted (Fin cutoff) of None \<Rightarrow> False | Some t \<Rightarrow> n \<ge> t))
            in if hit then style_result rule else None))"

definition evaluateDuplicateValues ::
    "sheet_cell \<Rightarrow> cf_rule \<Rightarrow> int \<Rightarrow> int \<Rightarrow> grid \<Rightarrow> grid_bounds \<Rightarrow> bool \<Rightarrow> resolved_format option" where
  "evaluateDuplicateValues cell rule r c g b duplicates =
     (if \<not> cellInRange r c (cf_range rule) (Some b) then None
      else let key = display_key cell in
        if key = [] then None
        else let n = length (filter (\<lambda>k. k = key) (rangeDisplayKeys rule g b));
                 hit = (if duplicates then n > 1 else n = 1)
             in if hit then style_result rule else None)"

definition evaluateIconSet :: "sheet_cell \<Rightarrow> cf_rule \<Rightarrow> int \<Rightarrow> int \<Rightarrow> grid \<Rightarrow> grid_bounds \<Rightarrow> resolved_format option" where
  "evaluateIconSet cell rule r c g b =
     (case cf_iconSet rule of
        None \<Rightarrow> None
      | Some colors \<Rightarrow>
          if \<not> cellInRange r c (cf_range rule) (Some b) then None
          else with_numbers cell rule g b (\<lambda>vs n.
            let len = int (length colors);
                bucket = min (len - 1) (max 0 \<lfloor>position_in vs n * of_int len\<rfloor>)
            in Some (no_format\<lparr>rs_backgroundColor := nth_opt colors bucket\<rparr>)))"

definition evaluateRule ::
    "cf_env \<Rightarrow> sheet_cell \<Rightarrow> cf_rule \<Rightarrow> int \<Rightarrow> int \<Rightarrow> grid \<Rightarrow> grid_bounds \<Rightarrow> resolved_format option" where
  "evaluateRule E cell rule r c g b =
     (if \<not> cellInRange r c (cf_range rule) (Some b) then None
      else
        let compare = (case cf_op rule of
              None \<Rightarrow> None
            | Some op \<Rightarrow>
                if compareCellIs cell op (resolveCfOperand (cf_value rule) (cf_range rule) r c g)
                     (resolveCfOperand (cf_value2 rule) (cf_range rule) r c g)
                then style_result rule else None)
        in case cf_kind rule of
             CellIs \<Rightarrow> compare
           | TextRule \<Rightarrow> compare
           | Expression \<Rightarrow>
               (let f = opt_text (cf_formula rule)
                in if f = [] \<or> \<not> evaluateCfExpression E f (cf_range rule) r c g then None else style_result rule)
           | ColorScale \<Rightarrow> evaluateColorScale cell rule r c g b
           | DataBar \<Rightarrow> evaluateDataBar cell rule r c g b
           | AboveAverage \<Rightarrow> evaluateAboveAverage E cell rule r c g b
           | Top10 \<Rightarrow> evaluateTop10 cell rule r c g b
           | DuplicateValues \<Rightarrow> evaluateDuplicateValues cell rule r c g b True
           | UniqueValues \<Rightarrow> evaluateDuplicateValues cell rule r c g b False
           | IconSet \<Rightarrow> evaluateIconSet cell rule r c g b)"

section \<open>The format of a cell\<close>

definition format_bounds :: "grid \<Rightarrow> grid_bounds" where
  "format_bounds g = \<lparr>rowCount = int (length g), colCount = fold max (map (\<lambda>x. int (length x)) g) 1\<rparr>"

fun first_format :: "(cf_rule \<Rightarrow> resolved_format option) \<Rightarrow> cf_rule list \<Rightarrow> resolved_format option" where
  "first_format ev [] = None"
| "first_format ev (rule # rest) =
     (let f = ev rule
      in if hasVisibleResolved f then f
         else if f \<noteq> None \<and> cf_stopIfTrue rule = Some True then None
         else first_format ev rest)"

definition resolveConditionalFormat :: "cf_env \<Rightarrow> cf_rule list option \<Rightarrow> grid \<Rightarrow> int \<Rightarrow> int \<Rightarrow> resolved_format option" where
  "resolveConditionalFormat E rules g r c =
     (case rules of
        None \<Rightarrow> None
      | Some rs \<Rightarrow>
          if rs = [] then None
          else first_format (\<lambda>rule. evaluateRule E (cell_or_blank g r c) rule r c g (format_bounds g))
            (js_sort (\<lambda>a b. cf_priority b - cf_priority a) rs))"

section \<open>Rules of the ribbon\<close>

definition columnRangeFromSelection :: "cell_address \<Rightarrow> int \<Rightarrow> region" where
  "columnRangeFromSelection a n =
     (let s = (if n > 1 then 1 else 0)
      in \<lparr>startRow = s, startCol = col a, endRow = max s (n - 1), endCol = col a\<rparr>)"

definition badge_preset :: "region \<Rightarrow> int \<Rightarrow> (int \<Rightarrow> string) \<Rightarrow> int \<Rightarrow> string \<times> string \<times> badge_tone \<times> string \<times> string \<Rightarrow> cf_rule" where
  "badge_preset rng p uuid i preset =
     (let (label, slug, badge, bg, fg) = preset
      in \<lparr>cf_id = ''status-'' @ slug @ ''-'' @ uuid i, cf_priority = p + i, cf_range = rng, cf_kind = TextRule,
          cf_op = Some CfEqual, cf_value = Some ([dquote] @ label @ [dquote]), cf_value2 = None, cf_formula = None,
          cf_style_of = Some \<lparr>cfs_backgroundColor = Some bg, cfs_textColor = Some fg, cfs_bold = None, cfs_badge = Some badge\<rparr>,
          cf_colorScale = None, cf_dataBar = None, cf_aboveAverage = None, cf_top10 = None, cf_iconSet = None,
          cf_stopIfTrue = None\<rparr>)"

definition statusBadgePresetRules :: "region \<Rightarrow> int \<Rightarrow> (int \<Rightarrow> string) \<Rightarrow> cf_rule list" where
  "statusBadgePresetRules rng p uuid = mapi (badge_preset rng p uuid)
     [(''On Track'', ''on-track'', OnTrack, ''#D1FAE5'', ''#047857''),
      (''Over Budget'', ''over-budget'', OverBudget, ''#FEE2E2'', ''#B91C1C''),
      (''Under Budget'', ''under-budget'', UnderBudget, ''#DBEAFE'', ''#1D4ED8'')]"

end
