(* ===== verification/SheetRuleProps.thy ===== *)
theory SheetRuleProps
  imports SheetRules
begin

text \<open>
  What the conditional formats of \<open>SheetRules\<close> paint: which rule wins, the cells that a top or
  bottom rule marks, and formulas that never hold.
\<close>

section \<open>The winning rule\<close>

definition passed_over :: "(cf_rule \<Rightarrow> resolved_format option) \<Rightarrow> cf_rule \<Rightarrow> bool" where
  "passed_over ev rule \<longleftrightarrow> \<not> hasVisibleResolved (ev rule) \<and> \<not> (ev rule \<noteq> None \<and> cf_stopIfTrue rule = Some True)"

lemma first_format_iff:
  "first_format ev xs = Some f \<longleftrightarrow>
     (\<exists>ys rule zs. xs = ys @ rule # zs \<and> list_all (passed_over ev) ys \<and> ev rule = Some f \<and> hasVisibleResolved (Some f))"
    (is "_ \<longleftrightarrow> (\<exists>ys rule zs. ?found xs ys rule zs)")
proof (induction xs)
  case (Cons x xs)
  show ?case
  proof (cases "passed_over ev x")
    case True
    then have "first_format ev (x # xs) = first_format ev xs" by (auto simp: passed_over_def Let_def)
    moreover have "(\<exists>ys rule zs. ?found (x # xs) ys rule zs) \<longleftrightarrow> (\<exists>ys rule zs. ?found xs ys rule zs)"
    proof
      assume "\<exists>ys rule zs. ?found (x # xs) ys rule zs"
      then obtain ys rule zs where f: "?found (x # xs) ys rule zs" by blast
      with True have "ys \<noteq> []" by (auto simp: passed_over_def)
      with f have "?found xs (tl ys) rule zs" by (cases ys) auto
      then show "\<exists>ys rule zs. ?found xs ys rule zs" by blast
    next
      assume "\<exists>ys rule zs. ?found xs ys rule zs"
      then obtain ys rule zs where "?found xs ys rule zs" by blast
      with True have "?found (x # xs) (x # ys) rule zs" by simp
      then show "\<exists>ys rule zs. ?found (x # xs) ys rule zs" by blast
    qed
    ultimately show ?thesis using Cons by simp
  next
    case False
    then have "first_format ev (x # xs) = (if hasVisibleResolved (ev x) then ev x else None)"
      by (auto simp: passed_over_def Let_def)
    moreover have "?found (x # xs) ys rule zs \<longleftrightarrow> ys = [] \<and> rule = x \<and> zs = xs \<and> ev x = Some f \<and> hasVisibleResolved (Some f)"
      for ys rule zs
      using False by (cases ys) auto
    ultimately show ?thesis by auto
  qed
qed simp

lemma sorted_by_priority:
  "sorted_wrt (\<lambda>a b. cf_priority b \<le> cf_priority a) (js_sort (\<lambda>a b. cf_priority b - cf_priority a) rs)"
  by (rule sorted_js_sort[where key = cf_priority and le = "\<lambda>x y. y \<le> x"]) auto

lemma set_js_sort: "set (js_sort cmp xs) = set xs"
  by (metis mset_js_sort set_mset_mset)

lemma before_iff:
  assumes "sorted_wrt (\<lambda>a b. key b \<le> key a) (ys @ x # zs)" "distinct (map key (ys @ x # zs))"
  shows "y \<in> set ys \<longleftrightarrow> y \<in> set (ys @ x # zs) \<and> (key x :: int) < key y"
proof -
  have "key x < key y" if "y \<in> set ys"
  proof -
    have "key x \<le> key y" using assms(1) that by (simp add: sorted_wrt_append)
    moreover have "key y \<noteq> key x" using assms(2) that
      by (simp only: map_append list.map distinct_append set_map distinct.simps) (metis imageI list.set_intros(1) disjoint_iff)
    ultimately show ?thesis by simp
  qed
  moreover have "\<not> key x < key y" if "y \<in> insert x (set zs)"
    using assms(1) that by (auto simp: sorted_wrt_append not_less)
  ultimately show ?thesis by auto
qed

lemma bex_split: "(\<exists>x \<in> set xs. P x) \<longleftrightarrow> (\<exists>ys x zs. xs = ys @ x # zs \<and> P x)"
  unfolding Bex_def in_set_conv_decomp by blast

text \<open>C18. When the priorities of the rules differ, the format of a cell is the visible format of the rule
  such that no rule with a greater priority number either paints the cell or stops the search: the
  greatest number wins, which is the reverse of Excel's order, where 1 comes first.\<close>

theorem conditional_format_winner:
  fixes E :: cf_env
  assumes "distinct (map cf_priority rs)"
  defines "ev \<equiv> \<lambda>g r c rule. evaluateRule E (cell_or_blank g r c) rule r c g (format_bounds g)"
  shows "resolveConditionalFormat E (Some rs) g r c = Some f \<longleftrightarrow>
    (\<exists>rule \<in> set rs. ev g r c rule = Some f \<and> hasVisibleResolved (Some f) \<and>
       (\<forall>other \<in> set rs. cf_priority rule < cf_priority other \<longrightarrow>
          \<not> hasVisibleResolved (ev g r c other) \<and> \<not> (ev g r c other \<noteq> None \<and> cf_stopIfTrue other = Some True)))"
    (is "_ \<longleftrightarrow> (\<exists>rule \<in> set rs. ?wins rule)")
proof -
  let ?xs = "js_sort (\<lambda>a b. cf_priority b - cf_priority a) rs"
  have mem: "set ?xs = set rs" by (rule set_js_sort)
  have "mset (map cf_priority ?xs) = mset (map cf_priority rs)" by simp
  then have dist: "distinct (map cf_priority ?xs)" using assms(1) by (metis mset_eq_imp_distinct_iff)
  have wins: "?wins rule \<longleftrightarrow> list_all (passed_over (ev g r c)) ys \<and> ev g r c rule = Some f \<and> hasVisibleResolved (Some f)"
    if xs: "?xs = ys @ rule # zs" for ys rule zs
  proof -
    have "other \<in> set ys \<longleftrightarrow> other \<in> set rs \<and> cf_priority rule < cf_priority other" for other
      using before_iff[of cf_priority ys rule zs other] sorted_by_priority[of rs] dist unfolding xs mem[symmetric] by blast
    then show ?thesis unfolding passed_over_def list_all_iff by blast
  qed
  have "resolveConditionalFormat E (Some rs) g r c = first_format (ev g r c) ?xs"
    by (cases "rs = []") (simp_all add: resolveConditionalFormat_def ev_def js_sort_def)
  moreover have "(\<exists>rule \<in> set rs. ?wins rule) \<longleftrightarrow> (\<exists>ys rule zs. ?xs = ys @ rule # zs \<and>
      list_all (passed_over (ev g r c)) ys \<and> ev g r c rule = Some f \<and> hasVisibleResolved (Some f))"
    unfolding mem[symmetric] bex_split[of ?xs] using wins unfolding mem by blast
  ultimately show ?thesis by (simp only: first_format_iff)
qed

section \<open>Top and bottom rules\<close>

lemma down_order: "sorted_wrt (\<lambda>a b. b \<le> a) (sort_down xs)"
  unfolding sort_down_def by (rule sorted_js_sort[where key = id and le = "\<lambda>x y. y \<le> x", simplified]) auto

lemma mset_sort_down: "mset (sort_down xs) = mset xs"
  by (simp add: sort_down_def)

lemma filter_count: "mset xs = mset ys \<Longrightarrow> length (filter P xs) = length (filter P ys)"
  by (metis mset_filter size_mset)

lemma above_nth:
  assumes "sorted_wrt (\<lambda>a b. b \<le> a) xs" "k < length xs"
  shows "(xs ! k :: rat) \<le> n \<longleftrightarrow> length (filter (\<lambda>v. v > n) xs) \<le> k"
proof
  assume le: "xs ! k \<le> n"
  have "xs ! i \<le> n" if "k \<le> i" "i < length xs" for i
    using assms le that sorted_wrt_nth_less[OF assms(1), of k i] by (cases "i = k") auto
  then have "filter (\<lambda>v. v > n) (drop k xs) = []"
    by (auto simp: filter_empty_conv in_set_conv_nth not_less)
  then have "filter (\<lambda>v. v > n) xs = filter (\<lambda>v. v > n) (take k xs)"
    using filter_append[of "\<lambda>v. v > n" "take k xs" "drop k xs"] by simp
  then show "length (filter (\<lambda>v. v > n) xs) \<le> k"
    using length_filter_le[of "\<lambda>v. v > n" "take k xs"] by simp
next
  assume few: "length (filter (\<lambda>v. v > n) xs) \<le> k"
  show "xs ! k \<le> n"
  proof (rule ccontr)
    assume "\<not> xs ! k \<le> n"
    then have "xs ! i > n" if "i \<le> k" for i
      using assms that sorted_wrt_nth_less[OF assms(1), of i k] by (cases "i = k") auto
    then have "filter (\<lambda>v. v > n) (take (Suc k) xs) = take (Suc k) xs"
      using assms(2) by (intro filter_True) (auto simp: in_set_conv_nth)
    then have "Suc k \<le> length (filter (\<lambda>v. v > n) (take (Suc k) xs @ drop (Suc k) xs))"
      using assms(2) by (simp only: filter_append length_append) simp
    with few show False by simp
  qed
qed

lemma below_nth:
  assumes "sorted_wrt (\<lambda>a b. b \<le> a) xs" "k < length xs"
  shows "n \<le> (xs ! (length xs - 1 - k) :: rat) \<longleftrightarrow> length (filter (\<lambda>v. v < n) xs) \<le> k"
proof -
  have "sorted_wrt (\<lambda>a b. b \<le> a) (map uminus (rev xs))"
    using assms(1) by (simp add: sorted_wrt_map sorted_wrt_rev)
  from above_nth[OF this, of k "- n"] assms(2)
  have "map uminus (rev xs) ! k \<le> - n \<longleftrightarrow> length (filter (\<lambda>v. v > - n) (map uminus (rev xs))) \<le> k" by simp
  then show ?thesis using assms(2) by (simp add: rev_nth filter_map comp_def flip: rev_filter)
qed

text \<open>A cell of the grid that lies in the range is one of the cells that the loops visit.\<close>

lemma fold_max_ge: "x \<in> insert y (set xs) \<Longrightarrow> (x :: int) \<le> fold max xs y"
proof (induction xs arbitrary: x y)
  case (Cons a xs)
  have "x \<le> max a y \<or> x \<in> set xs" using Cons.prems by auto
  moreover have "max a y \<le> fold max xs (max a y)" by (rule Cons.IH) simp
  ultimately show ?case using Cons.IH[of x "max a y"] by auto
qed simp

lemma grid_at_bounds:
  assumes "grid_at g r c = Some x"
  shows "0 \<le> r" "r < rowCount (format_bounds g)" "0 \<le> c" "c < colCount (format_bounds g)"
    "\<exists>line \<in> set g. c < int (length line)"
proof -
  obtain line where l: "nth_opt g r = Some line" "nth_opt line c = Some x"
    using assms by (auto simp: grid_at_def split: option.splits)
  then have "line \<in> set g" by (auto simp: nth_opt_def split: if_splits)
  then have "int (length line) \<le> colCount (format_bounds g)"
    unfolding format_bounds_def grid_bounds.simps by (intro fold_max_ge) auto
  with l \<open>line \<in> set g\<close> show "0 \<le> r" "r < rowCount (format_bounds g)" "0 \<le> c" "c < colCount (format_bounds g)"
    "\<exists>line \<in> set g. c < int (length line)"
    by (auto simp: nth_opt_def format_bounds_def split: if_splits)
qed

definition excel_sized :: "grid \<Rightarrow> bool" where
  "excel_sized g \<longleftrightarrow> length g \<le> 1048576 \<and> list_all (\<lambda>line. length line \<le> 16384) g"

lemma cell_in_range_cells:
  assumes "grid_at g r c = Some x" "cellInRange r c (cf_range rule) (Some (format_bounds g))" "excel_sized g"
  shows "x \<in> set (range_cells rule g (format_bounds g))"
proof -
  note b = grid_at_bounds[OF assms(1)]
  have "r \<le> 1048575" using b(2) assms(3) by (simp add: format_bounds_def excel_sized_def)
  moreover have "c \<le> 16383" using b(5) assms(3) by (auto simp: excel_sized_def list_all_iff)
  ultimately have "startRow (cf_range rule) \<le> r" "r \<le> endRow (cf_range rule)" "startCol (cf_range rule) \<le> c" "c \<le> endCol (cf_range rule)"
    using assms(2) by (auto simp: cellInRange_def SQREF_FULL_COLUMN_END_ROW_def SQREF_FULL_ROW_END_COL_def split: if_splits)
  moreover have "cell_or_blank g r c = x" using assms(1) by (simp add: cell_or_blank_def)
  ultimately show ?thesis
    using b assms(2) unfolding range_cells_def Let_def
    by (simp, intro bexI[of _ r] bexI[of _ c]) auto
qed

lemma value_in_range:
  assumes "grid_at g r c = Some x" "cellInRange r c (cf_range rule) (Some (format_bounds g))" "excel_sized g"
    and "cellNumericValue x = Some n"
  shows "n \<in> set (rangeNumericValues rule g (format_bounds g))"
  using cell_in_range_cells[OF assms(1-3)] assms(4) by (force simp: rangeNumericValues_def map_filter_def)

lemma sort_down_hits:
  assumes "k < length vs"
  shows "(case at_index (sort_down vs) (Fin (of_nat k)) of None \<Rightarrow> False | Some t \<Rightarrow> n \<ge> t) \<longleftrightarrow>
      length (filter (\<lambda>v. v > n) vs) \<le> k"
    and "(case at_index (sort_down vs) (Fin (of_nat (length vs) - 1 - of_nat k)) of None \<Rightarrow> False | Some t \<Rightarrow> n \<le> t) \<longleftrightarrow>
      length (filter (\<lambda>v. v < n) vs) \<le> k"
proof -
  let ?xs = "sort_down vs"
  have len: "length ?xs = length vs" by (metis mset_sort_down size_mset)
  have at: "at_index ?xs (Fin (of_nat j)) = Some (?xs ! j)" if "j < length vs" for j
    using that len by (simp add: at_index_def whole_index_def nth_opt_def)
  show "(case at_index ?xs (Fin (of_nat k)) of None \<Rightarrow> False | Some t \<Rightarrow> n \<ge> t) \<longleftrightarrow> length (filter (\<lambda>v. v > n) vs) \<le> k"
    using above_nth[OF down_order, of k vs n] assms at len filter_count[OF mset_sort_down[of vs]] by simp
  have "(of_nat (length vs) - 1 - of_nat k :: rat) = of_nat (length vs - 1 - k)"
    using assms by (simp add: of_nat_diff)
  then show "(case at_index ?xs (Fin (of_nat (length vs) - 1 - of_nat k)) of None \<Rightarrow> False | Some t \<Rightarrow> n \<le> t) \<longleftrightarrow>
      length (filter (\<lambda>v. v < n) vs) \<le> k"
    using below_nth[OF down_order, of k vs n] assms at[of "length vs - 1 - k"] len filter_count[OF mset_sort_down[of vs]]
    by (simp del: of_nat_diff diff_diff_left diff_diff_eq)
qed

text \<open>How many values a rule marks when they are distinct.\<close>

definition marked_count :: "nat \<Rightarrow> bool \<Rightarrow> nat \<Rightarrow> nat" where
  "marked_count k percent len = (if percent then nat \<lceil>of_nat len * of_nat k / (100 :: rat)\<rceil> else k)"

lemma cutoff_count:
  assumes "1 \<le> k" "percent \<longrightarrow> k \<le> 100" "0 < len" "m < len"
  defines "cutoff \<equiv> (if percent then max (0 :: rat) (of_int \<lceil>of_nat len * of_nat k / (100 :: rat)\<rceil> - 1) else min (of_nat len - 1) (of_nat k - 1))"
  shows "\<exists>j. cutoff = of_nat j \<and> j < len \<and> (m \<le> j \<longleftrightarrow> m < marked_count k percent len)"
proof (cases percent)
  case True
  let ?q = "of_nat len * of_nat k / (100 :: rat)"
  have "0 < ?q" using assms(1,3) by simp
  then have pos: "1 \<le> \<lceil>?q\<rceil>" by linarith
  have "of_nat k \<le> (100 :: rat)" using assms(2) True by (simp add: of_nat_le_iff[of k 100, where 'a = rat, simplified])
  then have "of_nat len * of_nat k \<le> of_nat len * (100 :: rat)" by (rule mult_left_mono) simp
  then have "?q \<le> of_nat len" by (simp add: field_simps)
  then have le: "\<lceil>?q\<rceil> \<le> int len" by (simp add: ceiling_le_iff)
  obtain j where j: "\<lceil>?q\<rceil> = 1 + int j" using pos zle_iff_zadd by blast
  then have "cutoff = of_nat j" "j < len" "marked_count k percent len = Suc j"
    using True le by (simp_all add: cutoff_def marked_count_def)
  then show ?thesis by (intro exI[of _ j]) auto
next
  case False
  have "of_nat (len - 1) = (of_nat len - 1 :: rat)" "of_nat (k - 1) = (of_nat k - 1 :: rat)"
    using assms(1,3) by (simp_all add: of_nat_diff Suc_le_eq)
  then have "cutoff = of_nat (min (len - 1) (k - 1))" using False by (simp add: cutoff_def min_def del: of_nat_diff)
  then show ?thesis using False assms by (intro exI[of _ "min (len - 1) (k - 1)"]) (auto simp: marked_count_def)
qed

lemma top_rule_decides:
  fixes E :: cf_env
  assumes rule: "cf_kind rule = Top10" "cf_top10 rule = Some (of_nat k, percent, bottom)" "cf_style_of rule = Some s"
    and k: "1 \<le> k" "percent \<longrightarrow> k \<le> 100"
    and cell: "grid_at g r c = Some x" "cellInRange r c (cf_range rule) (Some (format_bounds g))" "excel_sized g"
      "cellNumericValue x = Some n"
  defines "vs \<equiv> rangeNumericValues rule g (format_bounds g)"
  shows "evaluateRule E x rule r c g (format_bounds g) =
    (if length (filter (\<lambda>v. if bottom then v < n else v > n) vs) < marked_count k percent (length vs)
     then Some (of_style s) else None)"
proof -
  have n: "n \<in> set vs" using value_in_range[OF cell] by (simp add: vs_def)
  let ?m = "length (filter (\<lambda>v. if bottom then v < n else v > n) vs)"
  have "?m < length vs" using n length_filter_less[of n vs "\<lambda>v. if bottom then v < n else v > n"] by simp
  with k n obtain j where j: "(if percent then max (0 :: rat) (of_int \<lceil>of_nat (length vs) * of_nat k / (100 :: rat)\<rceil> - 1)
        else min (of_nat (length vs) - 1) (of_nat k - 1)) = of_nat j"
      "j < length vs" "?m \<le> j \<longleftrightarrow> ?m < marked_count k percent (length vs)"
    using cutoff_count[of k percent "length vs" ?m] by (cases vs) auto
  have len: "length (sort_down vs) = length vs" by (metis mset_sort_down size_mset)
  have rank: "max 1 (of_nat k :: rat) = of_nat k" using k(1) by simp
  have numbers: "with_numbers x rule g (format_bounds g) f = f vs n" for f
    using n cell(4) by (auto simp: with_numbers_def vs_def Let_def)
  have "evaluateRule E x rule r c g (format_bounds g) = evaluateTop10 x rule r c g (format_bounds g)"
    using rule cell(2) by (simp add: evaluateRule_def)
  also have "\<dots> = (if ?m \<le> j then Some (of_style s) else None)"
    using rule cell(2) sort_down_hits[OF j(2), of n]
    by (cases bottom) (simp_all only: evaluateTop10_def numbers Let_def len rank j(1) option.case prod.case
      style_result_def option.map if_True if_False not_True_eq_False)
  finally have "evaluateRule E x rule r c g (format_bounds g) = (if ?m \<le> j then Some (of_style s) else None)" .
  then show ?thesis using j(3) by simp
qed

text \<open>C26. A top (or bottom) rule of rank \<open>k\<close> marks a numeric cell of its range exactly when fewer than
  \<open>k\<close> values of the range are greater (or smaller); a rule of \<open>k\<close> percent when fewer than that share
  of the number of values, rounded up.\<close>

theorem top_rule_marks:
  fixes E :: cf_env
  assumes rule: "cf_kind rule = Top10" "cf_top10 rule = Some (of_nat k, percent, bottom)" "cf_style_of rule = Some s"
    and k: "1 \<le> k" "percent \<longrightarrow> k \<le> 100"
    and cell: "grid_at g r c = Some x" "cellInRange r c (cf_range rule) (Some (format_bounds g))" "excel_sized g"
      "cellNumericValue x = Some n"
  defines "vs \<equiv> rangeNumericValues rule g (format_bounds g)"
  shows "evaluateRule E x rule r c g (format_bounds g) =
    (if length (filter (\<lambda>v. if bottom then v < n else v > n) vs) < marked_count k percent (length vs)
     then Some (of_style s) else None)"
  using top_rule_decides[OF assms(1-9)] by (simp add: vs_def)

definition num_cell :: "rat \<Rightarrow> sheet_cell" where
  "num_cell n = empty_cell\<lparr>cvalue := VNum n, display := ''n''\<rparr>"

definition rank_rule :: "nat \<Rightarrow> bool \<Rightarrow> bool \<Rightarrow> region \<Rightarrow> cf_rule" where
  "rank_rule k percent bottom rng =
     \<lparr>cf_id = ''r1'', cf_priority = 1, cf_range = rng, cf_kind = Top10, cf_op = None, cf_value = None, cf_value2 = None,
       cf_formula = None, cf_style_of = Some \<lparr>cfs_backgroundColor = Some ''#FF0000'', cfs_textColor = None, cfs_bold = None, cfs_badge = None\<rparr>,
       cf_colorScale = None, cf_dataBar = None, cf_aboveAverage = None, cf_top10 = Some (of_nat k, percent, bottom),
       cf_iconSet = None, cf_stopIfTrue = None\<rparr>"

definition a1_a3 :: region where "a1_a3 = \<lparr>startRow = 0, startCol = 0, endRow = 2, endCol = 0\<rparr>"

definition any_env :: cf_env where "any_env = \<lparr>ce_sqrt = (\<lambda>x. x), ce_js = (\<lambda>_. Throws)\<rparr>"

lemma num_cell_value: "cellNumericValue (num_cell n) = Some n" "cellNumericValue empty_cell = Some 0"
  by (simp_all add: num_cell_def empty_cell_def cellNumericValue_def strip_money_def js_number_def js_trim_def)

theorem top_rule_marks_witness:
  "evaluateRule any_env (num_cell 9) (rank_rule 1 False False a1_a3) 1 0 [[num_cell 7], [num_cell 9], [num_cell 8]]
     (format_bounds [[num_cell 7], [num_cell 9], [num_cell 8]]) \<noteq> None"
proof -
  let ?g = "[[num_cell 7], [num_cell 9], [num_cell 8]]" and ?rule = "rank_rule 1 False False a1_a3"
  have "range_cells ?rule ?g (format_bounds ?g) = [num_cell 7, num_cell 9, num_cell 8]" by code_simp
  then have vs: "rangeNumericValues ?rule ?g (format_bounds ?g) = [7, 9, 8]"
    by (simp add: rangeNumericValues_def map_filter_def num_cell_value)
  have cell: "grid_at ?g 1 0 = Some (num_cell 9)" "cellInRange 1 0 (cf_range ?rule) (Some (format_bounds ?g))" "excel_sized ?g"
    "cellNumericValue (num_cell 9) = Some 9" by (code_simp, code_simp, simp add: excel_sized_def, code_simp)
  have rule: "cf_kind ?rule = Top10" "cf_top10 ?rule = Some (of_nat 1, False, False)" "cf_style_of ?rule \<noteq> None" by code_simp+
  then obtain s where s: "cf_style_of ?rule = Some s" by blast
  have few: "length (filter (\<lambda>v. if False then v < 9 else v > 9) [7, 9, 8 :: rat]) < marked_count 1 False (length [7, 9, 8 :: rat])"
    by code_simp
  have "False \<longrightarrow> 1 \<le> (100 :: nat)" by simp
  from top_rule_marks[OF rule(1,2) s order.refl this cell, of any_env] few show ?thesis
    unfolding vs by (simp only: if_True) simp
qed

theorem conditional_format_winner_witness:
  "resolveConditionalFormat any_env (Some [rank_rule 1 False False a1_a3]) [[num_cell 7], [num_cell 9], [num_cell 8]] 1 0 \<noteq> None"
proof -
  let ?g = "[[num_cell 7], [num_cell 9], [num_cell 8]]" and ?rule = "rank_rule 1 False False a1_a3"
  have ev: "evaluateRule any_env (cell_or_blank ?g 1 0) ?rule 1 0 ?g (format_bounds ?g) =
      Some (no_format\<lparr>rs_backgroundColor := Some ''#FF0000''\<rparr>)" (is "_ = Some ?f") by code_simp
  have "hasVisibleResolved (Some ?f)" by code_simp
  with conditional_format_winner[of "[?rule]" any_env ?g 1 0 ?f] ev show ?thesis by simp
qed

section \<open>Empty cells\<close>

text \<open>The empty cells of a range count as zeros: when the range has no negative number, a bottom rule
  marks every empty cell of it, whatever its rank.\<close>

theorem bottom_rule_marks_blanks:
  fixes E :: cf_env
  assumes "cf_kind rule = Top10" "cf_top10 rule = Some (of_nat k, False, True)" "cf_style_of rule = Some s" "1 \<le> k"
    and "grid_at g r c = Some x" "cvalue x = VNull" "display x = []" "excel_sized g"
    and "cellInRange r c (cf_range rule) (Some (format_bounds g))"
    and "\<forall>v \<in> set (rangeNumericValues rule g (format_bounds g)). 0 \<le> v"
  shows "evaluateRule E x rule r c g (format_bounds g) = Some (of_style s)"
proof -
  have n: "cellNumericValue x = Some 0"
    using assms(6,7) by (simp add: cellNumericValue_def strip_money_def js_number_def js_trim_def)
  have none: "filter (\<lambda>v. v < 0) (rangeNumericValues rule g (format_bounds g)) = []"
    using assms(10) by (auto simp: filter_empty_conv not_less)
  show ?thesis
    using top_rule_decides[OF assms(1-4) _ assms(5,9,8) n] none assms(4) by (simp add: marked_count_def)
qed

theorem bottom_rule_marks_blanks_witness:
  "evaluateRule any_env empty_cell (rank_rule 1 False True a1_a3) 1 0 [[num_cell 7], [empty_cell], [num_cell 8]]
     (format_bounds [[num_cell 7], [empty_cell], [num_cell 8]]) \<noteq> None"
proof -
  let ?g = "[[num_cell 7], [empty_cell], [num_cell 8]]" and ?rule = "rank_rule 1 False True a1_a3"
  have "range_cells ?rule ?g (format_bounds ?g) = [num_cell 7, empty_cell, num_cell 8]" by code_simp
  then have vs: "rangeNumericValues ?rule ?g (format_bounds ?g) = [7, 0, 8]"
    by (simp add: rangeNumericValues_def map_filter_def num_cell_value)
  have cell: "cellInRange 1 0 (cf_range ?rule) (Some (format_bounds ?g))" "excel_sized ?g" "grid_at ?g 1 0 = Some empty_cell"
    "cvalue empty_cell = VNull" "display empty_cell = []" by (code_simp, simp add: excel_sized_def, code_simp+)
  have rule: "cf_kind ?rule = Top10" "cf_top10 ?rule = Some (of_nat 1, False, True)" "cf_style_of ?rule \<noteq> None" by code_simp+
  then obtain s where s: "cf_style_of ?rule = Some s" by blast
  have nonneg: "\<forall>v \<in> set (rangeNumericValues ?rule ?g (format_bounds ?g)). 0 \<le> v" unfolding vs by simp
  show ?thesis
    using bottom_rule_marks_blanks[OF rule(1,2) s order.refl cell(3,4,5,2,1) nonneg, of any_env] by (rule ssubst) simp
qed

section \<open>Formulas with a comma\<close>

lemma segs_keep_char:
  assumes "\<forall>prev t n. m prev t = Some n \<longrightarrow> ch \<notin> set (take n t)" "ch \<in> set s"
  shows "Keep ch \<in> set (segs m prev s)"
  using assms
proof (induction m prev s rule: segs.induct)
  case (2 m prev c s)
  show ?case
  proof (cases "\<exists>n. m prev (c # s) = Some (Suc n)")
    case True
    then obtain n where n: "m prev (c # s) = Some (Suc n)" by blast
    have "ch \<notin> set (take (Suc n) (c # s))" using "2.prems"(1) n by blast
    then have "ch \<in> set (drop n s)"
      using "2.prems"(2) set_append[of "take n s" "drop n s"] by auto
    with "2.IH" "2.prems"(1) n show ?thesis by simp
  next
    case False
    then have eq: "segs m prev (c # s) = Keep c # segs m (Some c) s" by (auto split: option.splits nat.splits)
    have "Keep ch \<in> set (segs m (Some c) s)" if "ch \<in> set s"
      using that "2.IH" "2.prems"(1) False by (cases "m prev (c # s)") (metis nat.exhaust option.exhaust)+
    then show ?thesis using "2.prems"(2) unfolding eq by auto
  qed
qed simp

lemma re_replace_keeps:
  "\<forall>prev t n. m prev t = Some n \<longrightarrow> ch \<notin> set (take n t) \<Longrightarrow> ch \<in> set s \<Longrightarrow> ch \<in> set (re_replace m f s)"
  using segs_keep_char[of m ch s None] unfolding re_replace_def by (force simp: seg_text_def)

lemma drop_dollar_split: "\<exists>d. s = d @ drop_dollar s \<and> set d \<subseteq> {CHR ''$''}"
  by (cases s) (auto simp: drop_dollar_def intro: exI[of _ "[]"])

lemma comma_facts: "\<not> is_alpha CHR '',''" "\<not> is_digit CHR '',''" "\<not> is_ws CHR '',''" "\<not> cf_char CHR '',''"
  by code_simp+

lemma cell_has_no_comma: "m_dollar_cell prev t = Some n \<Longrightarrow> CHR '','' \<notin> set (take n t)"
proof -
  assume m: "m_dollar_cell prev t = Some n"
  obtain d where d: "t = d @ drop_dollar t" "set d \<subseteq> {CHR ''$''}" using drop_dollar_split by blast
  define letters rest where "letters = takeWhile is_alpha (drop_dollar t)" and "rest = dropWhile is_alpha (drop_dollar t)"
  obtain e where e: "rest = e @ drop_dollar rest" "set e \<subseteq> {CHR ''$''}" using drop_dollar_split by blast
  define digits where "digits = takeWhile is_digit (drop_dollar rest)"
  have "t = d @ letters @ e @ digits @ dropWhile is_digit (drop_dollar rest)"
    using d(1) e(1) by (metis digits_def letters_def rest_def takeWhile_dropWhile_id append.assoc)
  moreover have "n = length (d @ letters @ e @ digits)"
    using m d(1) e(1) unfolding m_dollar_cell_def Let_def letters_def[symmetric] rest_def[symmetric] digits_def[symmetric]
    by (metis (no_types, lifting) add_diff_cancel_right' append.assoc calculation length_append option.inject option.simps(3)
        digits_def takeWhile_dropWhile_id)
  ultimately have "take n t = d @ letters @ e @ digits" by simp
  moreover have "CHR '','' \<notin> set letters" "CHR '','' \<notin> set digits"
    using comma_facts set_takeWhileD unfolding letters_def digits_def by fast+
  ultimately show ?thesis using d(2) e(2) by auto
qed

lemma word_has_no_comma:
  "CHR '','' \<notin> set (js_lower w) \<Longrightarrow> m_word w prev t = Some n \<Longrightarrow> CHR '','' \<notin> set (take n t)"
proof
  assume w: "CHR '','' \<notin> set (js_lower w)" and m: "m_word w prev t = Some n" and comma: "CHR '','' \<in> set (take n t)"
  from comma have "lower_char CHR '','' \<in> set (js_lower (take n t))" by (auto simp: js_lower_def)
  moreover have "lower_char CHR '','' = CHR '',''" by code_simp
  ultimately show False using w m by (auto simp: m_word_def Let_def split: if_splits)
qed

lemma dropWhile_keeps: "ch \<in> set s \<Longrightarrow> \<not> P ch \<Longrightarrow> ch \<in> set (dropWhile P s)"
  by (induction s) auto

lemma trim_keeps: "ch \<in> set s \<Longrightarrow> \<not> is_ws ch \<Longrightarrow> ch \<in> set (js_trim s)"
  by (simp add: js_trim_def dropWhile_keeps)

text \<open>C40. A rule whose formula has a comma never holds, for the comma is not among the characters that an
  expression may have: the documented example \<open>=AND(C1>0,D1<10)\<close> paints nothing.\<close>

theorem comma_formula_never_holds:
  assumes "CHR '','' \<in> set f"
  shows "\<not> evaluateCfExpression E f rng r c g"
proof -
  let ?t = "js_trim f" and ?comma = "CHR '',''"
  define expr where "expr = (if js_starts_with ''='' ?t then drop 1 ?t else ?t)"
  have "?comma \<in> set ?t" using assms comma_facts(3) by (rule trim_keeps)
  then have "?comma \<in> set expr" unfolding expr_def by (cases ?t) auto
  then have "?comma \<in> set (substituteCfExpression expr rng r c g)"
    unfolding substituteCfExpression_def using cell_has_no_comma by (intro re_replace_keeps) blast+
  then have "?comma \<in> set (cf_text (substituteCfExpression expr rng r c g))" (is "_ \<in> set ?s")
    unfolding cf_text_def
    by (intro re_replace_keeps allI impI) (auto elim!: word_has_no_comma[rotated] simp: js_lower_def lower_char_def)
  then have "\<not> list_all cf_char ?s" using comma_facts(4) by (auto simp: list_all_iff)
  then show ?thesis unfolding evaluateCfExpression_def Let_def expr_def[symmetric] by simp
qed

theorem comma_formula_never_holds_witness:
  "\<not> evaluateCfExpression any_env ''=AND(C1>0,D1<10)'' a1_a3 0 0 []"
  by (rule comma_formula_never_holds) simp

end
