(* ===== verification/SheetAnalysis.thy ===== *)
theory SheetAnalysis
  imports SheetRuleProps
begin

text \<open>
  What the spreadsheet computes from the cells of a selection, under
  \<^verbatim>\<open>frontend/src/lib/spreadsheet\<close>: the numbers of the status bar (\<^verbatim>\<open>stats.ts\<close>), pivot summaries
  (\<^verbatim>\<open>pivot-summary.ts\<close>), the series of charts (\<^verbatim>\<open>chart-data.ts\<close>), column filters
  (\<^verbatim>\<open>filter-values.ts\<close>), and the cells a formula refers to and those that refer to a cell
  (\<^verbatim>\<open>trace-precedents.ts\<close>, \<^verbatim>\<open>trace-dependents.ts\<close>). The order of labels is the host's.
\<close>

section \<open>The status bar (stats.ts)\<close>

definition no_stats :: selection_stats where
  "no_stats = \<lparr>ss_average = None, ss_count = 0, ss_sum = None\<rparr>"

definition numericValue :: "sheet_cell option \<Rightarrow> rat option" where
  "numericValue cell =
     (case cell of
        None \<Rightarrow> None
      | Some x \<Rightarrow> (case cvalue x of
            VNull \<Rightarrow> None
          | VNum n \<Rightarrow> Some n
          | VStr s \<Rightarrow> if s = [] then None else js_number (strip_money s)))"

definition range_positions :: "cell_range \<Rightarrow> (int \<times> int) list" where
  "range_positions n = [(r, c). r \<leftarrow> [row (rstart n) .. row (rend n)], c \<leftarrow> [col (rstart n) .. col (rend n)]]"

definition computeRangeSelectionStats :: "grid \<Rightarrow> cell_range option \<Rightarrow> selection_stats" where
  "computeRangeSelectionStats g rng =
     (case rng of
        None \<Rightarrow> no_stats
      | Some q \<Rightarrow>
          if g = [] then no_stats
          else let numbers = List.map_filter (\<lambda>p. numericValue (at_pos g p)) (range_positions (normalizeRange q))
               in if numbers = [] then no_stats
                  else \<lparr>ss_average = Some (sum_rats numbers / of_nat (length numbers)), ss_count = int (length numbers),
                        ss_sum = Some (sum_rats numbers)\<rparr>)"

definition computeSelectionStats :: "grid \<Rightarrow> cell_address option \<Rightarrow> selection_stats" where
  "computeSelectionStats g a =
     (case a of
        None \<Rightarrow> no_stats
      | Some a \<Rightarrow>
          if g = [] then no_stats
          else computeRangeSelectionStats g
            (Some \<lparr>rstart = \<lparr>row = 1, col = col a\<rparr>, rend = \<lparr>row = max 1 (int (length g) - 1), col = col a\<rparr>\<rparr>))"

text \<open>The two number formats of \<open>Intl\<close> are parameters: dollars without decimals, and plain with at most two.\<close>

definition formatSelectionStatsLine :: "(rat \<Rightarrow> string) \<Rightarrow> (rat \<Rightarrow> string) \<Rightarrow> selection_stats \<Rightarrow> string" where
  "formatSelectionStatsLine dollars plain st =
     (let fmt = (\<lambda>v. if \<bar>v\<bar> \<ge> 1000 then dollars v else plain v);
          shown = (\<lambda>v. case v of None \<Rightarrow> [CHR 0xE2, CHR 0x80, CHR 0x94] | Some n \<Rightarrow> fmt n)
      in ''Average: '' @ shown (ss_average st) @ ''   |   Count: '' @ show_int (ss_count st) @ ''   |   Sum: '' @ shown (ss_sum st))"

section \<open>Pivot summaries (pivot-summary.ts)\<close>

datatype pivot_aggregation = PSum | PCount | PAverage | PMax | PMin

record pivot_summary =
  pv_headers :: "string list"
  pv_rows :: grid

record pivot_field =
  pf_col :: int
  pf_aggregation :: pivot_aggregation

definition cellDisplayValue :: "sheet_cell option \<Rightarrow> string" where
  "cellDisplayValue cell =
     (case cell of
        None \<Rightarrow> []
      | Some x \<Rightarrow> if display x \<noteq> [] then display x else if cvalue x = VNull then [] else js_string (cvalue x))"

definition numericFromCell :: "sheet_cell option \<Rightarrow> rat option" where
  "numericFromCell cell =
     (case cell of
        None \<Rightarrow> None
      | Some x \<Rightarrow> (case cvalue x of
            VNum n \<Rightarrow> Some n
          | v \<Rightarrow> js_number (strip_money (if v = VNull then [] else js_string v))))"

definition aggregateValues :: "rat list \<Rightarrow> pivot_aggregation \<Rightarrow> rat" where
  "aggregateValues vs a =
     (if vs = [] then 0
      else case a of
        PSum \<Rightarrow> sum_rats vs
      | PCount \<Rightarrow> of_nat (length vs)
      | PAverage \<Rightarrow> sum_rats vs / of_nat (length vs)
      | PMax \<Rightarrow> max_rats vs
      | PMin \<Rightarrow> min_rats vs)"

definition pivotCell :: "host \<Rightarrow> cell_value \<Rightarrow> sheet_cell" where
  "pivotCell h v =
     (let numeric = (case v of VNum _ \<Rightarrow> True | _ \<Rightarrow> False)
      in empty_cell\<lparr>cvalue := v, display := formatCellDisplay h v (Some (if numeric then Number else General)) None,
           style := (if numeric then Some (no_style\<lparr>numberFormat := Some Number\<rparr>) else None)\<rparr>)"

definition columnIndicesInRange :: "cell_range \<Rightarrow> int list" where
  "columnIndicesInRange rng = (let n = normalizeRange rng in [col (rstart n) .. col (rend n)])"

definition unit_separator :: string where "unit_separator = [CHR 0x01]"

type_synonym pivot_group = "string list \<times> rat list list"

definition row_labels :: "grid \<Rightarrow> int list \<Rightarrow> int \<Rightarrow> string list" where
  "row_labels g keyCols r =
     map (\<lambda>c. let t = js_trim (cellDisplayValue (grid_at g r c)) in if t = [] then ''(blank)'' else t) keyCols"

text \<open>What one row adds to the bucket of a field: its number, or 0 for a count of a cell without one.\<close>

definition field_values :: "grid \<Rightarrow> int \<Rightarrow> pivot_field \<Rightarrow> rat list" where
  "field_values g r f =
     (case numericFromCell (grid_at g r (pf_col f)) of
        Some n \<Rightarrow> [n]
      | None \<Rightarrow> if pf_aggregation f = PCount then [0] else [])"

fun add_to_group :: "string \<Rightarrow> string list \<Rightarrow> rat list list \<Rightarrow> (string \<times> pivot_group) list \<Rightarrow> (string \<times> pivot_group) list" where
  "add_to_group key labels new [] = [(key, labels, new)]"
| "add_to_group key labels new ((k, ls, bs) # gs) =
     (if k = key then (k, ls, map2 (@) bs new) # gs else (k, ls, bs) # add_to_group key labels new gs)"

definition pivot_row :: "grid \<Rightarrow> int list \<Rightarrow> pivot_field list \<Rightarrow> int \<Rightarrow> (string \<times> pivot_group) list \<Rightarrow> (string \<times> pivot_group) list" where
  "pivot_row g keyCols vals r groups =
     (let labels = row_labels g keyCols r
      in add_to_group (js_join unit_separator labels) labels (map (field_values g r) vals) groups)"

definition pivot_groups :: "grid \<Rightarrow> int list \<Rightarrow> pivot_field list \<Rightarrow> int list \<Rightarrow> (string \<times> pivot_group) list" where
  "pivot_groups g keyCols vals rs = fold (pivot_row g keyCols vals) rs []"

definition aggregation_label :: "pivot_aggregation \<Rightarrow> string" where
  "aggregation_label a = (case a of PSum \<Rightarrow> ''Sum'' | PCount \<Rightarrow> ''Count'' | PAverage \<Rightarrow> ''Average'' | PMax \<Rightarrow> ''Max'' | PMin \<Rightarrow> ''Min'')"

definition group_row :: "host \<Rightarrow> pivot_field list \<Rightarrow> pivot_group \<Rightarrow> sheet_cell list" where
  "group_row h vals entry =
     (let (labels, buckets) = entry
      in map (\<lambda>l. pivotCell h (VStr l)) labels @
         map2 (\<lambda>b f. pivotCell h (VNum (aggregateValues b (pf_aggregation f)))) buckets vals)"

definition computeMultiFieldPivotSummary ::
    "host \<Rightarrow> grid \<Rightarrow> cell_range \<Rightarrow> int list \<Rightarrow> pivot_field list \<Rightarrow> bool \<Rightarrow> pivot_summary" where
  "computeMultiFieldPivotSummary h g rng rowFieldCols valueFields skipHeaderRow =
     (let n = normalizeRange rng;
          top = row (rstart n);
          first = (if skipHeaderRow then top + 1 else top);
          rowFields = (if rowFieldCols \<noteq> [] then rowFieldCols else [col (rstart n)]);
          vals = (if valueFields \<noteq> [] then valueFields else [\<lparr>pf_col = col (rend n), pf_aggregation = PSum\<rparr>]);
          groups = map snd (pivot_groups g rowFields vals [first .. row (rend n)]);
          rowHeaders = mapi (\<lambda>i c. let l = js_trim (cellDisplayValue (grid_at g top c))
                                    in if l \<noteq> [] then l else ''Row '' @ show_int (i + 1)) rowFields;
          valueHeaders = map (\<lambda>f. let b = js_trim (cellDisplayValue (grid_at g top (pf_col f)))
                                   in aggregation_label (pf_aggregation f) @ '' of '' @ (if b \<noteq> [] then b else ''Value'')) vals
      in \<lparr>pv_headers = rowHeaders @ valueHeaders,
          pv_rows = map (group_row h vals)
            (js_sort (\<lambda>a b. h_localeCompare h (js_join unit_separator (fst a)) (js_join unit_separator (fst b))) groups)\<rparr>)"

definition computePivotSummary :: "host \<Rightarrow> grid \<Rightarrow> cell_range \<Rightarrow> int \<Rightarrow> int \<Rightarrow> pivot_aggregation \<Rightarrow> bool \<Rightarrow> pivot_summary" where
  "computePivotSummary h g rng rowFieldCol valueFieldCol a skipHeaderRow =
     computeMultiFieldPivotSummary h g rng [rowFieldCol] [\<lparr>pf_col = valueFieldCol, pf_aggregation = a\<rparr>] skipHeaderRow"

section \<open>Charts (chart-data.ts)\<close>

type_synonym series_point = "string \<times> rat"

definition numericChartValue :: "sheet_cell option \<Rightarrow> rat option" where
  "numericChartValue cell =
     (case cell of
        None \<Rightarrow> None
      | Some x \<Rightarrow> (case cvalue x of
            VNum n \<Rightarrow> Some n
          | v \<Rightarrow>
              (let candidates = filter (\<lambda>s. s \<noteq> []) [if v = VNull then [] else js_string v, display x];
                   numbers = List.map_filter (\<lambda>s. js_number (strip_money s)) candidates
               in case numbers of [] \<Rightarrow> None | n # _ \<Rightarrow> Some n)))"

definition cellLabel :: "sheet_cell option \<Rightarrow> string \<Rightarrow> string" where
  "cellLabel cell fallback = (case cell of None \<Rightarrow> fallback | Some x \<Rightarrow> if display x = [] then fallback else display x)"

definition resolveValueColumn :: "grid \<Rightarrow> cell_range \<Rightarrow> int" where
  "resolveValueColumn g n =
     (case List.find (\<lambda>c. list_ex (\<lambda>r. numericChartValue (grid_at g r c) \<noteq> None) [row (rstart n) .. row (rend n)])
             (rev [col (rstart n) .. col (rend n)]) of
        Some c \<Rightarrow> c
      | None \<Rightarrow> col (rend n))"

datatype series_direction = Vertical | Horizontal

definition seriesOrientation :: "region \<Rightarrow> region \<Rightarrow> series_direction" where
  "seriesOrientation categories vals =
     (let catRowSpan = endRow categories - startRow categories; catColSpan = endCol categories - startCol categories;
          valRowSpan = endRow vals - startRow vals; valColSpan = endCol vals - startCol vals
      in if catRowSpan = 0 \<and> valRowSpan = 0 \<and> catColSpan > 0 then Horizontal
         else if catColSpan = 0 \<and> valColSpan = 0 \<and> valRowSpan > 0 then Vertical
         else if valColSpan > valRowSpan then Horizontal
         else Vertical)"

definition chartSeriesFromExplicitRefs :: "grid \<Rightarrow> region \<Rightarrow> region \<Rightarrow> series_point list" where
  "chartSeriesFromExplicitRefs g categories vals =
     (case seriesOrientation categories vals of
        Horizontal \<Rightarrow>
          List.map_filter (\<lambda>c. map_option (Pair (cellLabel (grid_at g (startRow categories) c) (''Col '' @ show_int (c + 1))))
              (numericChartValue (grid_at g (startRow vals) c)))
            [min (startCol categories) (startCol vals) .. max (endCol categories) (endCol vals)]
      | Vertical \<Rightarrow>
          List.map_filter (\<lambda>r. map_option (Pair (cellLabel (grid_at g r (startCol categories)) (''Row '' @ show_int (r + 1))))
              (numericChartValue (grid_at g r (startCol vals))))
            [min (startRow categories) (startRow vals) .. max (endRow categories) (endRow vals)])"

definition column_region :: "cell_range \<Rightarrow> int \<Rightarrow> region" where
  "column_region n c = \<lparr>startRow = row (rstart n), startCol = c, endRow = row (rend n), endCol = c\<rparr>"

definition chartSeriesFromDataRange :: "grid \<Rightarrow> cell_range \<Rightarrow> series_point list" where
  "chartSeriesFromDataRange g rng =
     (let n = normalizeRange rng
      in chartSeriesFromExplicitRefs g (column_region n (col (rstart n))) (column_region n (resolveValueColumn g n)))"

definition chartBarsFromSelection :: "grid \<Rightarrow> cell_range \<Rightarrow> series_point list" where
  "chartBarsFromSelection g rng = chartSeriesFromDataRange g (normalizeRange rng)"

definition chartSeriesRefsFromSelection :: "grid \<Rightarrow> cell_range \<Rightarrow> region \<times> region \<times> cell_range" where
  "chartSeriesRefsFromSelection g rng =
     (let n = normalizeRange rng; c = resolveValueColumn g n
      in (column_region n (col (rstart n)), column_region n c, \<lparr>rstart = rstart n, rend = \<lparr>row = row (rend n), col = c\<rparr>\<rparr>))"

definition chartDataBoundsFromSelection :: "grid \<Rightarrow> cell_range \<Rightarrow> cell_range" where
  "chartDataBoundsFromSelection g rng = snd (snd (chartSeriesRefsFromSelection g rng))"

definition chartSeriesFromChart :: "grid \<Rightarrow> sheet_chart \<Rightarrow> series_point list" where
  "chartSeriesFromChart g ch =
     (let points = (case (categoryRef ch, valueRef ch) of
            (Some a, Some b) \<Rightarrow> chartSeriesFromExplicitRefs g a b
          | _ \<Rightarrow> []);
          merged = chartSeriesFromDataRange g
            \<lparr>rstart = \<lparr>row = dataStartRow ch, col = dataStartCol ch\<rparr>, rend = \<lparr>row = dataEndRow ch, col = dataEndCol ch\<rparr>\<rparr>
      in if points \<noteq> [] then points
         else if merged \<noteq> [] then merged
         else case fallbackSeries ch of None \<Rightarrow> [] | Some ps \<Rightarrow> ps)"

section \<open>Column filters (filter-values.ts)\<close>

record column_filter =
  textQuery :: string
  selectedValues :: "string list option"

definition filterValueLabel :: "string \<Rightarrow> string" where
  "filterValueLabel d = (let t = js_trim d in if t \<noteq> [] then t else ''(Blanks)'')"

definition row_label :: "int \<Rightarrow> sheet_cell list \<Rightarrow> string" where
  "row_label c line = filterValueLabel (case nth_opt line c of None \<Rightarrow> [] | Some x \<Rightarrow> display x)"

definition distinctColumnValues :: "host \<Rightarrow> grid \<Rightarrow> int \<Rightarrow> string list" where
  "distinctColumnValues h g c =
     js_sort (h_baseCompare h) (fold (\<lambda>line vs. if row_label c line \<in> set vs then vs else vs @ [row_label c line]) (drop 1 g) [])"

definition hiddenRowsForColumnFilter :: "grid \<Rightarrow> int \<Rightarrow> column_filter \<Rightarrow> int list" where
  "hiddenRowsForColumnFilter g c flt =
     (let query = js_lower (js_trim (textQuery flt));
          hidden = (\<lambda>line.
            let l = row_label c line
            in (case selectedValues flt of Some vs \<Rightarrow> l \<notin> set vs | None \<Rightarrow> False)
               \<or> (query \<noteq> [] \<and> \<not> js_includes query (js_lower l)))
      in List.map_filter (\<lambda>x. x) (mapi (\<lambda>i line. if i \<noteq> 0 \<and> hidden line then Some i else None) g))"

section \<open>Precedents and dependents (trace-precedents.ts, trace-dependents.ts)\<close>

text \<open>The pattern of \<open>parseRefToken\<close> is the one of \<open>parseCellRef\<close>.\<close>

definition trace_ref :: "string \<Rightarrow> cell_address option" where
  "trace_ref raw = parseCellRef raw"

definition add_address :: "cell_address \<Rightarrow> cell_address list \<Rightarrow> cell_address list" where
  "add_address a seen = (if a \<in> set seen then seen else seen @ [a])"

definition m_trace_range :: matcher where "m_trace_range = m_pair m_dollar_cell"

definition trace_range :: "string \<Rightarrow> cell_address list" where
  "trace_range h =
     (case js_split '':'' h of
        [a, b] \<Rightarrow>
          (case (trace_ref a, trace_ref b) of
             (Some s, Some e) \<Rightarrow> map (\<lambda>(r, c). \<lparr>row = r, col = c\<rparr>) (range_positions (normalizeRange \<lparr>rstart = s, rend = e\<rparr>))
           | _ \<Rightarrow> [])
      | _ \<Rightarrow> [])"

definition precedentCellsFromFormula :: "string option \<Rightarrow> cell_address list" where
  "precedentCellsFromFormula f =
     (let t = opt_text f
      in if t = [] then []
         else let expr = (if js_starts_with ''='' t then drop 1 t else t);
                  in_ranges = concat (map trace_range (hits (segs m_trace_range None expr)));
                  rest = re_replace m_trace_range (\<lambda>_. '' '') expr;
                  single = List.map_filter trace_ref (hits (segs m_dollar_cell None rest))
              in fold add_address single (fold add_address in_ranges []))"

definition precedentCellKey :: "cell_address \<Rightarrow> string" where
  "precedentCellKey a = show_int (row a) @ '':'' @ show_int (col a)"

definition dependentCellsForAddress :: "grid \<Rightarrow> cell_address \<Rightarrow> cell_address list" where
  "dependentCellsForAddress g target =
     concat (mapi (\<lambda>r line. List.map_filter (\<lambda>x. x) (mapi (\<lambda>c cell.
       let a = \<lparr>row = r, col = c\<rparr>
       in if opt_text (formula cell) \<noteq> [] \<and> target \<in> set (precedentCellsFromFormula (formula cell)) \<and> a \<noteq> target
          then Some a else None) line)) g)"

definition dependentAddressLabels :: "cell_address list \<Rightarrow> string" where
  "dependentAddressLabels ds = js_join '', '' (map (\<lambda>a. columnIndexToLetters (col a) @ show_int (row a + 1)) ds)"

definition dependentCellKey :: "cell_address \<Rightarrow> string" where
  "dependentCellKey a = show_int (row a) @ '':'' @ show_int (col a)"

section \<open>The groups of a pivot\<close>

















end
