(* ===== verification/UploadParts.thy ===== *)
theory UploadParts
  imports UploadPlan SheetNumbers "HOL-Library.Word"
begin

text \<open>
  The resumable upload of one file, \<^verbatim>\<open>frontend/src/lib/resumable-upload.ts\<close>: the session with the
  server, the pool of runners that send the missing parts, the direct path to the storage with its
  fall-backs, and the completion.

  A call of \<open>uploadFileResumableBytes\<close> is a state machine. Its record holds the local variables of the
  function, the point at which each runner of \<open>mapWithConcurrency\<close> waits, the samples that
  \<^verbatim>\<open>upload-adaptive.ts\<close> keeps, and what the code has asked of the server and told its caller so far
  (\<open>up_sent\<close>, newest last). An event is the answer to one awaited request, or the caller's cancellation.
  Answers are those of \<open>mutationFetch\<close> (\<^verbatim>\<open>api/core.ts\<close>), of \<open>fetch\<close> and of the hashing; whether a signed
  URL has the page's origin is decided by the browser's \<open>URL\<close> and is a parameter.
\<close>

section \<open>Data\<close>

type_synonym bytes = "8 word list"

record server_session =
  ss_id :: string
  ss_file_id :: string
  ss_chunk_size :: int
  ss_total_parts :: int
  ss_total_size :: int
  ss_bytes_received :: int
  ss_parts_received :: "int list option"
  ss_status :: string
  ss_expires_at :: string
  ss_direct_upload :: "bool option"
  ss_dedup_source :: "string option"
  ss_recycle_match :: "string option"

record signed_part =
  sp_part_number :: int
  sp_upload_url :: string
  sp_expires_at :: string
  sp_content_type :: string
  sp_expected_bytes :: int
  sp_confirm_token :: string

datatype part_transport = Direct | Proxy

text \<open>The body of a refusal: empty, not JSON, or JSON with the member \<open>error\<close> absent, a text or an object.\<close>

datatype error_body =
    EmptyBody
  | PlainBody
  | NoErrorMember
  | ErrorText string
  | ErrorObject "string option" "string option" "string option"   \<comment> \<open>code, message, fields\<close>

record response =
  rs_status :: int
  rs_body :: error_body
  rs_retry_after :: "string option"
  rs_content_type :: "string option"

record api_error =
  ae_message :: string
  ae_code :: string
  ae_status :: int
  ae_fields :: "string option"
  ae_retry :: "int option"

datatype thrown = ApiErr api_error | AbortErr | OtherErr string

text \<open>The outcome of an awaited call: a good response with its JSON, a response that is not \<open>ok\<close>, or a
  rejection (no network, aborted, JSON that cannot be read).\<close>

datatype 'a answer = Accepted 'a | Refused response | Lost thrown

definition cancelled_error :: thrown where
  "cancelled_error = ApiErr \<lparr>ae_message = ''Upload cancelled'', ae_code = ''upload_cancelled'', ae_status = 0,
     ae_fields = None, ae_retry = None\<rparr>"

definition parseRetryAfterSeconds :: "string option \<Rightarrow> int option" where
  "parseRetryAfterSeconds header =
     (case header of
        None \<Rightarrow> None
      | Some h \<Rightarrow>
          let t = js_trim h;
              ds = takeWhile is_digit (if js_starts_with ''+'' t then drop 1 t else t)
          in if ds \<noteq> [] \<and> digits_value 10 ds > 0 then Some (digits_value 10 ds) else None)"

definition parseApiError :: "response \<Rightarrow> string \<Rightarrow> api_error" where
  "parseApiError res fallback =
     \<lparr>ae_message =
        (if rs_status res = 413
         then ''This file exceeds the server upload limit. Ask your admin to raise MAX_UPLOAD_BYTES (and rebuild the stack).''
         else case rs_body res of
                ErrorText m \<Rightarrow> m
              | ErrorObject _ (Some m) _ \<Rightarrow> m
              | _ \<Rightarrow> fallback),
      ae_code = (case rs_body res of ErrorObject (Some c) _ _ \<Rightarrow> c | _ \<Rightarrow> ''request_failed''),
      ae_status = rs_status res,
      ae_fields = (case rs_body res of ErrorObject _ _ f \<Rightarrow> f | _ \<Rightarrow> None),
      ae_retry = parseRetryAfterSeconds (rs_retry_after res)\<rparr>"

section \<open>Small functions\<close>

definition RESUMABLE_UPLOAD_THRESHOLD_BYTES :: int where "RESUMABLE_UPLOAD_THRESHOLD_BYTES = 32 * 1024 * 1024"
definition RESUMABLE_VIDEO_THRESHOLD_BYTES :: int where "RESUMABLE_VIDEO_THRESHOLD_BYTES = 8 * 1024 * 1024"

definition shouldUseResumableUpload :: "string \<Rightarrow> int \<Rightarrow> bool" where
  "shouldUseResumableUpload mime n_bytes =
     (if js_starts_with ''video/'' mime then n_bytes > RESUMABLE_VIDEO_THRESHOLD_BYTES
      else n_bytes > RESUMABLE_UPLOAD_THRESHOLD_BYTES)"

definition isSuccessfulStoragePut :: "response \<Rightarrow> bool" where
  "isSuccessfulStoragePut res \<longleftrightarrow>
     rs_status res \<in> {200, 201, 204} \<and>
     \<not> js_includes ''text/html'' (js_lower (case rs_content_type res of Some t \<Rightarrow> t | None \<Rightarrow> ''''))"

definition partByteSize :: "int \<Rightarrow> int \<Rightarrow> int \<Rightarrow> int" where
  "partByteSize totalSize chunkSize partNumber =
     (let offset = partNumber * chunkSize in min chunkSize (max 0 (totalSize - offset)))"

definition part_chunk :: "bytes \<Rightarrow> int \<Rightarrow> int \<Rightarrow> bytes" where
  "part_chunk f chunkSize partNumber =
     (let start = partNumber * chunkSize; stop = min (start + chunkSize) (int (length f)) in js_slice f start stop)"

section \<open>The state of one upload\<close>

datatype upload_request =
    ResumeSession string
  | CreateSession string "string option" int "string option" int "string option"
      \<comment> \<open>file name, folder, size, content type, chunk size, hash\<close>
  | SignedUrl string int
  | StoragePut string string bytes
  | Confirm string int string
  | PartPut string int bytes
  | Complete string
  | SessionReady server_session
  | Progress int int int                       \<comment> \<open>percent, bytes uploaded, total\<close>
  | PartTransport part_transport

datatype runner =
    Returned
  | Threw
  | Signing int
  | Storing int signed_part rat
  | Draining int rat
  | Confirming int rat
  | Proxying int rat

datatype session_phase = Hashing | Opening | Sending | Completing | Fulfilled string | Rejected thrown

record upload =
  up_file :: bytes
  up_name :: string
  up_mime :: string
  up_folder :: "string option"
  up_existing :: "string option"
  up_phase :: session_phase
  up_session :: "server_session option"
  up_received :: "int list"
  up_bytes :: int
  up_missing :: "int list"
  up_next :: nat
  up_runners :: "runner list"
  up_cancelled :: bool
  up_aborted :: bool
  up_samples :: "partSample list"
  up_sent :: "upload_request list"

datatype upload_event =
    HashDone "string option"
  | SessionAnswer "server_session answer" rat
  | SignAnswer nat "signed_part answer" rat
  | StoreAnswer nat "response + thrown" rat
  | Drained nat rat
  | ConfirmAnswer nat "unit answer" rat
  | ProxyAnswer nat "unit answer" rat
  | CompleteAnswer "string answer"
  | CancelRequested
  | SignalAborted

definition tell :: "upload_request \<Rightarrow> upload \<Rightarrow> upload" where "tell r u = u\<lparr>up_sent := up_sent u @ [r]\<rparr>"

definition the_session :: "upload \<Rightarrow> server_session" where "the_session u = the (up_session u)"

definition total_size :: "upload \<Rightarrow> int" where
  "total_size u = (if ss_total_size (the_session u) \<noteq> 0 then ss_total_size (the_session u) else int (length (up_file u)))"

definition add_sample :: "bool \<Rightarrow> rat \<Rightarrow> int \<Rightarrow> upload \<Rightarrow> upload" where
  "add_sample k duration n_bytes u = u\<lparr>up_samples := recordUploadPartSample k duration (of_int n_bytes) (up_samples u)\<rparr>"

definition percent_of :: "upload \<Rightarrow> int" where
  "percent_of u = (if total_size u \<le> 0 then 100
     else min 100 \<lfloor>of_int (up_bytes u) / of_int (total_size u) * 100 + 1 / (2 :: rat)\<rfloor>)"

definition reportProgress :: "upload \<Rightarrow> upload" where
  "reportProgress u = tell (Progress (percent_of u) (up_bytes u) (total_size u)) u"

definition chunk_of :: "upload \<Rightarrow> int \<Rightarrow> bytes" where
  "chunk_of u p = part_chunk (up_file u) (ss_chunk_size (the_session u)) p"

section \<open>One part\<close>

definition set_runner :: "nat \<Rightarrow> runner \<Rightarrow> upload \<Rightarrow> upload" where
  "set_runner k r u = u\<lparr>up_runners := (up_runners u)[k := r]\<rparr>"

text \<open>A runner that throws rejects the promise of the pool; the first rejection counts.\<close>

definition runner_throws :: "nat \<Rightarrow> thrown \<Rightarrow> upload \<Rightarrow> upload" where
  "runner_throws k t u =
     (let u = set_runner k Threw u in if up_phase u = Sending then u\<lparr>up_phase := Rejected t\<rparr> else u)"

definition uploadPartViaApi :: "nat \<Rightarrow> int \<Rightarrow> rat \<Rightarrow> upload \<Rightarrow> upload" where
  "uploadPartViaApi k p now u = tell (PartPut (ss_id (the_session u)) p (chunk_of u p)) (set_runner k (Proxying p now) u)"

definition start_part :: "nat \<Rightarrow> int \<Rightarrow> rat \<Rightarrow> upload \<Rightarrow> upload" where
  "start_part k p now u =
     (if up_cancelled u then runner_throws k cancelled_error u
      else if ss_direct_upload (the_session u) = Some True
      then tell (SignedUrl (ss_id (the_session u)) p) (set_runner k (Signing p) u)
      else uploadPartViaApi k p now u)"

text \<open>One round of the loop of a runner: claim the next part, or return.\<close>

definition runner_next :: "nat \<Rightarrow> rat \<Rightarrow> upload \<Rightarrow> upload" where
  "runner_next k now u =
     (if up_next u < length (up_missing u)
      then start_part k (up_missing u ! up_next u) now (u\<lparr>up_next := Suc (up_next u)\<rparr>)
      else set_runner k Returned u)"

definition complete_upload :: "upload \<Rightarrow> upload" where
  "complete_upload u =
     (let u = tell (Progress 100 (total_size u) (total_size u)) u in
      tell (Complete (ss_id (the_session u))) (u\<lparr>up_phase := Completing\<rparr>))"

text \<open>What follows the pool, once every runner has returned.\<close>

definition after_parts :: "upload \<Rightarrow> upload" where
  "after_parts u =
     (if up_phase u \<noteq> Sending \<or> \<not> list_all (\<lambda>r. r = Returned) (up_runners u) then u
      else if up_cancelled u then u\<lparr>up_phase := Rejected cancelled_error\<rparr>
      else complete_upload u)"

definition part_received :: "nat \<Rightarrow> int \<Rightarrow> part_transport \<Rightarrow> rat \<Rightarrow> upload \<Rightarrow> upload" where
  "part_received k p t now u =
     (let u = tell (PartTransport t) u;
          u = u\<lparr>up_received := List.insert p (up_received u), up_bytes := up_bytes u + int (length (chunk_of u p))\<rparr>
      in runner_next k now (reportProgress u))"

definition part_done :: "nat \<Rightarrow> int \<Rightarrow> part_transport \<Rightarrow> rat \<Rightarrow> upload \<Rightarrow> upload" where
  "part_done k p t now u = after_parts (part_received k p t now u)"

definition sign_answered :: "(string \<Rightarrow> bool) \<Rightarrow> nat \<Rightarrow> int \<Rightarrow> signed_part answer \<Rightarrow> rat \<Rightarrow> upload \<Rightarrow> upload" where
  "sign_answered reachable k p ans now u =
     (case ans of
        Refused _ \<Rightarrow> uploadPartViaApi k p now u
      | Lost t \<Rightarrow> runner_throws k t u
      | Accepted sp \<Rightarrow>
          let n_bytes = int (length (chunk_of u p)) in
          if n_bytes \<noteq> sp_expected_bytes sp
          then runner_throws k (ApiErr \<lparr>ae_message = ''Part '' @ show_int p @ '' size mismatch (local '' @ show_int n_bytes @
                 '', expected '' @ show_int (sp_expected_bytes sp) @ '')'', ae_code = ''part_size_mismatch'', ae_status = 400,
                 ae_fields = None, ae_retry = None\<rparr>) u
          else if sp_upload_url sp = [] \<or> \<not> reachable (sp_upload_url sp) then uploadPartViaApi k p now u
          else tell (StoragePut (sp_upload_url sp)
                 (if sp_content_type sp = [] then ''application/octet-stream'' else sp_content_type sp) (chunk_of u p))
               (set_runner k (Storing p sp now) u))"

definition store_answered :: "nat \<Rightarrow> int \<Rightarrow> signed_part \<Rightarrow> rat \<Rightarrow> response + thrown \<Rightarrow> rat \<Rightarrow> upload \<Rightarrow> upload" where
  "store_answered k p sp started ans now u =
     (case ans of
        Inl res \<Rightarrow>
          if isSuccessfulStoragePut res
          then tell (Confirm (ss_id (the_session u)) p (sp_confirm_token sp)) (set_runner k (Confirming p started) u)
          else set_runner k (Draining p started) u
      | Inr t \<Rightarrow>
          if (case t of ApiErr e \<Rightarrow> ae_code e = ''upload_cancelled'' | _ \<Rightarrow> False) then runner_throws k t u
          else if up_aborted u \<or> t = AbortErr then runner_throws k cancelled_error u
          else uploadPartViaApi k p now u)"

definition drained :: "nat \<Rightarrow> int \<Rightarrow> rat \<Rightarrow> rat \<Rightarrow> upload \<Rightarrow> upload" where
  "drained k p started now u =
     uploadPartViaApi k p now (add_sample False (now - started) (int (length (chunk_of u p))) u)"

definition confirm_answered :: "nat \<Rightarrow> int \<Rightarrow> rat \<Rightarrow> unit answer \<Rightarrow> rat \<Rightarrow> upload \<Rightarrow> upload" where
  "confirm_answered k p started ans now u =
     (let n_bytes = int (length (chunk_of u p)) in
      case ans of
        Refused _ \<Rightarrow> uploadPartViaApi k p now (add_sample False (now - started) n_bytes u)
      | Lost t \<Rightarrow> runner_throws k t u
      | Accepted _ \<Rightarrow> part_done k p Direct now (add_sample True (now - started) n_bytes u))"

definition proxy_answered :: "nat \<Rightarrow> int \<Rightarrow> rat \<Rightarrow> unit answer \<Rightarrow> rat \<Rightarrow> upload \<Rightarrow> upload" where
  "proxy_answered k p started ans now u =
     (let n_bytes = int (length (chunk_of u p)) in
      case ans of
        Refused res \<Rightarrow>
          runner_throws k (ApiErr (parseApiError res (''Upload part '' @ show_int p @ '' failed'')))
            (add_sample False (now - started) n_bytes u)
      | Lost t \<Rightarrow> runner_throws k t u
      | Accepted _ \<Rightarrow> part_done k p Proxy now (add_sample True (now - started) n_bytes u))"

section \<open>The whole upload\<close>

definition ensureUploadSession :: "string option \<Rightarrow> upload \<Rightarrow> upload" where
  "ensureUploadSession hash u =
     tell (if truthy (up_existing u) then ResumeSession (the (up_existing u))
          else CreateSession (up_name u) (up_folder u) (int (length (up_file u)))
                 (if up_mime u = [] then None else Some (up_mime u)) (suggestedChunkSizeBytes (up_samples u))
                 (if truthy hash then hash else None))
       (u\<lparr>up_phase := Opening\<rparr>)"

definition uploadFileResumableBytes :: "bytes \<Rightarrow> string \<Rightarrow> string \<Rightarrow> string option \<Rightarrow> string option \<Rightarrow> string option \<Rightarrow>
    bool \<Rightarrow> partSample list \<Rightarrow> upload" where
  "uploadFileResumableBytes f fname mime folder existing hash cancelled samples =
     (let u = \<lparr>up_file = f, up_name = fname, up_mime = mime, up_folder = folder, up_existing = existing, up_phase = Hashing,
               up_session = None, up_received = [], up_bytes = 0, up_missing = [], up_next = 0, up_runners = [],
               up_cancelled = cancelled, up_aborted = False, up_samples = samples, up_sent = []\<rparr>
      in if \<not> truthy hash \<and> \<not> truthy existing \<and> length f > 0 \<and> int (length f) \<le> 512 * 1024 * 1024 then u
         else ensureUploadSession hash u)"

text \<open>\<open>mapWithConcurrency\<close>: the runners start one after the other, each up to its first await.\<close>

definition start_runner :: "rat \<Rightarrow> upload \<Rightarrow> upload" where
  "start_runner now u = runner_next (length (up_runners u)) now (u\<lparr>up_runners := up_runners u @ [Returned]\<rparr>)"

definition mapWithConcurrency :: "int \<Rightarrow> rat \<Rightarrow> upload \<Rightarrow> upload" where
  "mapWithConcurrency limit now u = (start_runner now ^^ nat (min limit (int (length (up_missing u))))) u"

definition missing_parts :: "server_session \<Rightarrow> int list \<Rightarrow> int list" where
  "missing_parts s got = filter (\<lambda>p. p \<notin> set got) (map int [0..<nat (ss_total_parts s)])"

definition session_opened :: "server_session \<Rightarrow> rat \<Rightarrow> upload \<Rightarrow> upload" where
  "session_opened s now u =
     (let got = remdups (case ss_parts_received s of Some ps \<Rightarrow> ps | None \<Rightarrow> []);
          u = tell (SessionReady s) (u\<lparr>up_session := Some s, up_received := got\<rparr>);
          u = u\<lparr>up_bytes := sum_list (map (partByteSize (total_size u) (ss_chunk_size s)) got)\<rparr>;
          u = reportProgress u
      in if truthy (ss_dedup_source s)
         then let u = tell (Progress 100 (total_size u) (total_size u)) u in
              if up_cancelled u then u\<lparr>up_phase := Rejected cancelled_error\<rparr>
              else tell (Complete (ss_id s)) (u\<lparr>up_phase := Completing\<rparr>)
         else let u = (if truthy (ss_recycle_match s) then tell (PartTransport Proxy) u else u);
                  u = u\<lparr>up_missing := missing_parts s got, up_phase := Sending\<rparr>
              in after_parts (mapWithConcurrency (suggestedPartConcurrency (up_samples u)) now u))"

definition upload_step :: "(string \<Rightarrow> bool) \<Rightarrow> upload \<Rightarrow> upload_event \<Rightarrow> upload" where
  "upload_step reachable u e =
     (case e of
        HashDone h \<Rightarrow> ensureUploadSession h u
      | SessionAnswer ans now \<Rightarrow>
          (case ans of
             Refused res \<Rightarrow> u\<lparr>up_phase := Rejected (ApiErr (parseApiError res
               (if truthy (up_existing u) then ''Could not resume upload session'' else ''Could not start upload session'')))\<rparr>
           | Lost t \<Rightarrow> u\<lparr>up_phase := Rejected t\<rparr>
           | Accepted s \<Rightarrow> session_opened s now u)
      | SignAnswer k ans now \<Rightarrow>
          (case up_runners u ! k of Signing p \<Rightarrow> sign_answered reachable k p ans now u | _ \<Rightarrow> u)
      | StoreAnswer k ans now \<Rightarrow>
          (case up_runners u ! k of Storing p sp started \<Rightarrow> store_answered k p sp started ans now u | _ \<Rightarrow> u)
      | Drained k now \<Rightarrow>
          (case up_runners u ! k of Draining p started \<Rightarrow> drained k p started now u | _ \<Rightarrow> u)
      | ConfirmAnswer k ans now \<Rightarrow>
          (case up_runners u ! k of Confirming p started \<Rightarrow> confirm_answered k p started ans now u | _ \<Rightarrow> u)
      | ProxyAnswer k ans now \<Rightarrow>
          (case up_runners u ! k of Proxying p started \<Rightarrow> proxy_answered k p started ans now u | _ \<Rightarrow> u)
      | CompleteAnswer ans \<Rightarrow>
          (case ans of
             Refused res \<Rightarrow> u\<lparr>up_phase := Rejected (ApiErr (parseApiError res ''Could not complete upload''))\<rparr>
           | Lost t \<Rightarrow> u\<lparr>up_phase := Rejected t\<rparr>
           | Accepted file \<Rightarrow> u\<lparr>up_phase := Fulfilled file\<rparr>)
      | CancelRequested \<Rightarrow> u\<lparr>up_cancelled := True\<rparr>
      | SignalAborted \<Rightarrow> u\<lparr>up_aborted := True\<rparr>)"

text \<open>\<open>abortResumableUploadSession\<close>: what it throws for the answer to its request; a session that is gone is fine.\<close>

definition abortResumableUploadSession :: "unit answer \<Rightarrow> thrown option" where
  "abortResumableUploadSession ans =
     (case ans of
        Accepted _ \<Rightarrow> None
      | Refused res \<Rightarrow> if rs_status res = 404 then None else Some (ApiErr (parseApiError res ''Could not abort upload session''))
      | Lost t \<Rightarrow> Some t)"

text \<open>An answer can arrive where its request is awaited.\<close>

definition awaited :: "upload \<Rightarrow> upload_event \<Rightarrow> bool" where
  "awaited u e =
     (case e of
        HashDone _ \<Rightarrow> up_phase u = Hashing
      | SessionAnswer _ _ \<Rightarrow> up_phase u = Opening
      | SignAnswer k _ _ \<Rightarrow> k < length (up_runners u) \<and> (case up_runners u ! k of Signing _ \<Rightarrow> True | _ \<Rightarrow> False)
      | StoreAnswer k _ _ \<Rightarrow> k < length (up_runners u) \<and> (case up_runners u ! k of Storing _ _ _ \<Rightarrow> True | _ \<Rightarrow> False)
      | Drained k _ \<Rightarrow> k < length (up_runners u) \<and> (case up_runners u ! k of Draining _ _ \<Rightarrow> True | _ \<Rightarrow> False)
      | ConfirmAnswer k _ _ \<Rightarrow> k < length (up_runners u) \<and> (case up_runners u ! k of Confirming _ _ \<Rightarrow> True | _ \<Rightarrow> False)
      | ProxyAnswer k _ _ \<Rightarrow> k < length (up_runners u) \<and> (case up_runners u ! k of Proxying _ _ \<Rightarrow> True | _ \<Rightarrow> False)
      | CompleteAnswer _ \<Rightarrow> up_phase u = Completing
      | CancelRequested \<Rightarrow> True
      | SignalAborted \<Rightarrow> True)"

end
