(* ===== verification/UploadPartsPool.thy ===== *)
theory UploadPartsPool
  imports UploadParts
begin

text \<open>
  The invariant of a resumable upload: no two runners hold the same part, a claimed part is held by a
  runner or received, each part goes through the API at most once, what has been sent is sound, and the
  bytes counted are those of the received parts. Every step of the code keeps it. The histories of the
  first section add to a state the number of answers and the parts that the server has acknowledged.
\<close>

section \<open>Histories\<close>

definition acknowledged :: "upload \<Rightarrow> upload_event \<Rightarrow> int option" where
  "acknowledged u e =
     (case e of
        ConfirmAnswer k (Accepted _) _ \<Rightarrow> (case up_runners u ! k of Confirming p _ \<Rightarrow> Some p | _ \<Rightarrow> None)
      | ProxyAnswer k (Accepted _) _ \<Rightarrow> (case up_runners u ! k of Proxying p _ \<Rightarrow> Some p | _ \<Rightarrow> None)
      | _ \<Rightarrow> None)"

definition is_answer :: "upload_event \<Rightarrow> bool" where
  "is_answer e \<longleftrightarrow> e \<noteq> CancelRequested \<and> e \<noteq> SignalAborted"

record traced =
  tr_upload :: upload
  tr_answers :: nat
  tr_acks :: "int set"

definition trace_step :: "(string \<Rightarrow> bool) \<Rightarrow> traced \<Rightarrow> upload_event \<Rightarrow> traced" where
  "trace_step reachable t e =
     \<lparr>tr_upload = upload_step reachable (tr_upload t) e,
      tr_answers = tr_answers t + (if is_answer e then 1 else 0),
      tr_acks = tr_acks t \<union> set_option (acknowledged (tr_upload t) e)\<rparr>"

definition trace_awaited :: "traced \<Rightarrow> upload_event \<Rightarrow> bool" where
  "trace_awaited t e = awaited (tr_upload t) e"

definition begin_trace :: "upload \<Rightarrow> traced" where
  "begin_trace u = \<lparr>tr_upload = u, tr_answers = 0, tr_acks = {}\<rparr>"

section \<open>The pool of runners\<close>

fun part_in :: "runner \<Rightarrow> int option" where
  "part_in (Signing p) = Some p"
| "part_in (Storing p _ _) = Some p"
| "part_in (Draining p _) = Some p"
| "part_in (Confirming p _) = Some p"
| "part_in (Proxying p _) = Some p"
| "part_in _ = None"

definition claimed :: "upload \<Rightarrow> int set" where "claimed u = set (take (up_next u) (up_missing u))"

definition given :: "upload \<Rightarrow> int set" where
  "given u = (case up_session u of None \<Rightarrow> {} | Some s \<Rightarrow> set (case ss_parts_received s of None \<Rightarrow> [] | Some ps \<Rightarrow> ps))"

definition flying :: "nat set \<Rightarrow> upload \<Rightarrow> int set" where
  "flying K u = {p. \<exists>j < length (up_runners u). j \<notin> K \<and> part_in (up_runners u ! j) = Some p}"

text \<open>No two runners hold the same part; the runners of \<open>K\<close> are between two parts.\<close>

definition apart :: "nat set \<Rightarrow> runner list \<Rightarrow> bool" where
  "apart K rs \<longleftrightarrow> (\<forall>i j p. i < length rs \<longrightarrow> j < length rs \<longrightarrow> i \<notin> K \<longrightarrow> j \<notin> K \<longrightarrow>
     part_in (rs ! i) = Some p \<longrightarrow> part_in (rs ! j) = Some p \<longrightarrow> i = j)"

definition fine :: "upload \<Rightarrow> runner \<Rightarrow> bool" where
  "fine u r \<longleftrightarrow>
     (\<forall>p. part_in r = Some p \<longrightarrow> p \<in> claimed u \<and> p \<notin> set (up_received u)) \<and>
     (r = Returned \<longrightarrow> up_next u = length (up_missing u)) \<and>
     (r = Threw \<longrightarrow> up_phase u \<noteq> Sending)"

definition core :: "nat set \<Rightarrow> upload \<Rightarrow> bool" where
  "core K u \<longleftrightarrow>
     distinct (up_missing u) \<and> up_next u \<le> length (up_missing u) \<and> distinct (up_received u) \<and>
     set (up_missing u) \<inter> given u = {} \<and> set (up_received u) \<subseteq> given u \<union> claimed u \<and>
     (\<forall>j < length (up_runners u). j \<notin> K \<longrightarrow> fine u (up_runners u ! j)) \<and>
     apart K (up_runners u)"

definition pool :: "nat set \<Rightarrow> upload \<Rightarrow> bool" where
  "pool K u \<longleftrightarrow> core K u \<and> (up_phase u = Sending \<longrightarrow> claimed u \<subseteq> set (up_received u) \<union> flying K u)"

lemmas pool_parts = pool_def core_def fine_def claimed_def given_def flying_def

lemma pool_frames [simp]:
  "pool K (tell r u) = pool K u" "pool K (add_sample b d n u) = pool K u" "pool K (reportProgress u) = pool K u"
  "pool K (u\<lparr>up_bytes := m\<rparr>) = pool K u" "pool K (u\<lparr>up_cancelled := c\<rparr>) = pool K u" "pool K (u\<lparr>up_aborted := c\<rparr>) = pool K u"
  by (simp_all add: pool_parts tell_def add_sample_def reportProgress_def)

lemma fields_simps [simp]:
  "up_runners (tell r u) = up_runners u" "up_runners (add_sample b d n u) = up_runners u" "up_runners (reportProgress u) = up_runners u"
  "up_missing (tell r u) = up_missing u" "up_missing (add_sample b d n u) = up_missing u" "up_missing (reportProgress u) = up_missing u"
  "up_next (tell r u) = up_next u" "up_next (add_sample b d n u) = up_next u" "up_next (reportProgress u) = up_next u"
  "up_phase (tell r u) = up_phase u" "up_phase (add_sample b d n u) = up_phase u" "up_phase (reportProgress u) = up_phase u"
  "up_received (tell r u) = up_received u" "up_received (add_sample b d n u) = up_received u" "up_received (reportProgress u) = up_received u"
  "up_session (tell r u) = up_session u" "up_session (add_sample b d n u) = up_session u" "up_session (reportProgress u) = up_session u"
  "up_file (tell r u) = up_file u" "up_file (add_sample b d n u) = up_file u" "up_file (reportProgress u) = up_file u"
  "up_cancelled (tell r u) = up_cancelled u" "up_cancelled (add_sample b d n u) = up_cancelled u" "up_cancelled (reportProgress u) = up_cancelled u"
  "up_bytes (tell r u) = up_bytes u" "up_bytes (add_sample b d n u) = up_bytes u" "up_bytes (reportProgress u) = up_bytes u"
  by (simp_all add: tell_def add_sample_def reportProgress_def)

lemma apart_move: "apart {} rs \<Longrightarrow> k < length rs \<Longrightarrow> part_in (rs ! k) = part_in r \<Longrightarrow> apart {} (rs[k := r])"
  unfolding apart_def by (metis empty_iff length_list_update nth_list_update)

lemma apart_idle:
  assumes "apart K rs" "K \<subseteq> {k}" "part_in r = None"
  shows "apart {} (rs[k := r])"
  unfolding apart_def
proof (intro allI impI)
  fix i j p
  assume a: "i < length (rs[k := r])" "j < length (rs[k := r])" "part_in (rs[k := r] ! i) = Some p" "part_in (rs[k := r] ! j) = Some p"
  with assms(3) have "i \<noteq> k" "j \<noteq> k" by auto
  with a assms(1,2) show "i = j" unfolding apart_def by (metis length_list_update nth_list_update_neq singletonD subsetD)
qed

lemma apart_fresh:
  assumes "apart K rs" "K \<subseteq> {k}" "part_in r = Some p" "\<And>j. j < length rs \<Longrightarrow> j \<noteq> k \<Longrightarrow> part_in (rs ! j) \<noteq> Some p"
  shows "apart {} (rs[k := r])"
  unfolding apart_def
proof (intro allI impI)
  fix i j q
  assume a: "i < length (rs[k := r])" "j < length (rs[k := r])" "part_in (rs[k := r] ! i) = Some q" "part_in (rs[k := r] ! j) = Some q"
  consider "i = k" | "j = k" | "i \<noteq> k" "j \<noteq> k" by blast
  then show "i = j"
  proof cases
    case 1
    with a assms(3) have "q = p" by auto
    with a 1 assms(4)[of j] show ?thesis by (cases "j = k") auto
  next
    case 2
    with a assms(3) have "q = p" by auto
    with a 2 assms(4)[of i] show ?thesis by (cases "i = k") auto
  next
    case 3
    with a assms(1,2) show ?thesis unfolding apart_def by (metis length_list_update nth_list_update_neq singletonD subsetD)
  qed
qed

lemma apart_weaken: "apart {} rs \<Longrightarrow> apart K rs"
  by (auto simp: apart_def)

lemma pool_move:
  assumes "pool {} u" "k < length (up_runners u)" "part_in (up_runners u ! k) = Some p" "part_in r = Some p"
  shows "pool {} (set_runner k r u)"
proof -
  have P: "part_in ((up_runners u)[k := r] ! j) = part_in (up_runners u ! j)" if "j < length (up_runners u)" for j
    using assms that by (cases "j = k") auto
  have "flying {} (set_runner k r u) = flying {} u" by (auto simp: flying_def set_runner_def P)
  moreover have "fine u r" using assms by (cases r) (auto simp: pool_def core_def fine_def)
  ultimately show ?thesis
    using assms apart_move[of "up_runners u" k r] unfolding pool_def core_def
    by (auto simp: set_runner_def claimed_def given_def fine_def nth_list_update)
qed

lemma pool_throw:
  assumes "core K u" "K \<subseteq> {k}" "k < length (up_runners u)"
  shows "pool {} (runner_throws k t u)"
proof -
  have "up_phase (runner_throws k t u) \<noteq> Sending" by (simp add: runner_throws_def Let_def set_runner_def)
  moreover have "(up_runners u)[k := Threw] ! j = (if j = k then Threw else up_runners u ! j)" for j
    using assms(3) by auto
  moreover have "j \<in> K \<Longrightarrow> j = k" for j using assms(2) by auto
  ultimately show ?thesis
    using assms(1) apart_idle[OF _ assms(2), of "up_runners u" Threw] unfolding pool_def core_def
    by (auto simp: runner_throws_def Let_def set_runner_def claimed_def given_def fine_def split: if_splits)
qed

lemma core_claim:
  assumes "core {k} u" "up_next u < length (up_missing u)"
  defines "p \<equiv> up_missing u ! up_next u" and "v \<equiv> u\<lparr>up_next := Suc (up_next u)\<rparr>"
  shows "core {k} v" "claimed v = insert p (claimed u)" "p \<notin> set (up_received u)"
    "j < length (up_runners u) \<Longrightarrow> j \<noteq> k \<Longrightarrow> part_in (up_runners u ! j) \<noteq> Some p"
proof -
  have c: "claimed v = insert p (claimed u)"
    using assms(2) by (simp add: claimed_def v_def p_def take_Suc_conv_app_nth)
  have d: "distinct (up_missing u)" using assms(1) by (simp add: core_def)
  then have new: "p \<notin> claimed u"
    using assms(2) by (auto simp: claimed_def p_def in_set_conv_nth nth_eq_iff_index_eq)
  have m: "p \<in> set (up_missing u)" using assms(2) by (simp add: p_def)
  with new assms(1) show r: "p \<notin> set (up_received u)" by (auto simp: core_def)
  show "claimed v = insert p (claimed u)" by (rule c)
  show "part_in (up_runners u ! j) \<noteq> Some p" if "j < length (up_runners u)" "j \<noteq> k" for j
    using that assms(1) new by (auto simp: core_def fine_def)
  show "core {k} v"
    using assms(1,2) c unfolding core_def by (auto simp: v_def given_def fine_def)
qed

lemma core_take:
  assumes "core {k} u" "k < length (up_runners u)" "part_in r = Some p" "p \<in> claimed u" "p \<notin> set (up_received u)"
    and "\<And>j. j < length (up_runners u) \<Longrightarrow> j \<noteq> k \<Longrightarrow> part_in (up_runners u ! j) \<noteq> Some p"
  shows "core {} (set_runner k r u)"
proof -
  have "fine u r" using assms(3-5) by (cases r) (auto simp: fine_def)
  moreover have "apart {} ((up_runners u)[k := r])"
    using assms by (intro apart_fresh[of "{k}" _ k r p]) (auto simp: core_def)
  ultimately show ?thesis
    using assms(1,2) unfolding core_def
    by (auto simp: set_runner_def claimed_def given_def fine_def nth_list_update)
qed

lemma flying_take:
  "k < length (up_runners u) \<Longrightarrow> part_in r = Some p \<Longrightarrow> flying {} (set_runner k r u) = insert p (flying {k} u)"
  by (auto simp: flying_def set_runner_def nth_list_update)

lemma pool_take:
  assumes "pool {k} u" "k < length (up_runners u)" "up_next u < length (up_missing u)" "part_in r = Some (up_missing u ! up_next u)"
  shows "pool {} (set_runner k r (u\<lparr>up_next := Suc (up_next u)\<rparr>))"
proof -
  let ?v = "u\<lparr>up_next := Suc (up_next u)\<rparr>"
  have u: "core {k} u" using assms(1) by (simp add: pool_def)
  note c = core_claim[OF u assms(3)]
  have "core {} (set_runner k r ?v)"
    using assms(2) c by (intro core_take[OF c(1) _ assms(4)]) auto
  moreover have "flying {k} ?v = flying {k} u" by (simp add: flying_def)
  moreover have "claimed (set_runner k r ?v) = claimed ?v" by (simp add: claimed_def set_runner_def)
  moreover have "up_received (set_runner k r ?v) = up_received u" "up_phase (set_runner k r ?v) = up_phase u"
    by (simp_all add: set_runner_def)
  ultimately show ?thesis
    using assms flying_take[of k ?v r, OF _ assms(4)] c(2) by (auto simp: pool_def)
qed

lemma pool_return:
  assumes "pool {k} u" "k < length (up_runners u)" "\<not> up_next u < length (up_missing u)"
  shows "pool {} (set_runner k Returned u)"
proof -
  have "apart {} ((up_runners u)[k := Returned])"
    using assms(1) by (intro apart_idle[of "{k}"]) (auto simp: pool_def core_def)
  moreover have "flying {} (set_runner k Returned u) = flying {k} u"
    using assms(2) by (auto simp: flying_def set_runner_def nth_list_update)
  ultimately show ?thesis
    using assms unfolding pool_def core_def
    by (auto simp: set_runner_def claimed_def given_def fine_def nth_list_update)
qed

lemma pool_next: "pool {k} u \<Longrightarrow> k < length (up_runners u) \<Longrightarrow> pool {} (runner_next k now u)"
  using core_claim(1)[of k u] pool_take[of k u] pool_return[of k u]
  by (auto simp: runner_next_def start_part_def uploadPartViaApi_def Let_def pool_def[of "{k}"] intro!: pool_throw[of "{k}" _ k])

lemma pool_finish:
  assumes "pool {} u" "k < length (up_runners u)" "part_in (up_runners u ! k) = Some p"
  shows "pool {k} (u\<lparr>up_received := List.insert p (up_received u), up_bytes := n\<rparr>)"
proof -
  have f: "p \<in> claimed u" "p \<notin> set (up_received u)"
    using assms by (auto simp: pool_def core_def fine_def)
  have other: "part_in (up_runners u ! j) \<noteq> Some p" if "j < length (up_runners u)" "j \<noteq> k" for j
    using assms that unfolding pool_def core_def apart_def by fastforce
  let ?v = "u\<lparr>up_received := List.insert p (up_received u), up_bytes := n\<rparr>"
  have v: "flying {k} ?v = flying {k} u" "claimed ?v = claimed u" "given ?v = given u"
    by (simp_all add: flying_def claimed_def given_def)
  have "flying {} u \<subseteq> insert p (flying {k} u)"
    using assms(3) by (auto simp: flying_def)
  then show ?thesis
    using assms f other apart_weaken[of "up_runners u" "{k}"] unfolding pool_def core_def fine_def v
    by auto
qed

lemma pool_spawn:
  assumes "pool {} u"
  shows "pool {length (up_runners u)} (u\<lparr>up_runners := up_runners u @ [Returned]\<rparr>)"
proof -
  have "flying {length (up_runners u)} (u\<lparr>up_runners := up_runners u @ [Returned]\<rparr>) = flying {} u"
    by (auto simp: flying_def nth_append less_Suc_eq)
  moreover have "apart {length (up_runners u)} (up_runners u @ [Returned])"
    using assms unfolding pool_def core_def apart_def by (auto simp: nth_append less_Suc_eq)
  ultimately show ?thesis
    using assms unfolding pool_def core_def by (auto simp: claimed_def given_def fine_def nth_append less_Suc_eq)
qed

lemma phase_tell: "(tell r u)\<lparr>up_phase := p\<rparr> = tell r (u\<lparr>up_phase := p\<rparr>)"
  by (simp add: tell_def)

lemma pool_settled: "core {} u \<Longrightarrow> p \<noteq> Sending \<Longrightarrow> pool {} (u\<lparr>up_phase := p\<rparr>)"
  by (auto simp: pool_def core_def fine_def claimed_def given_def)

lemma pool_after_parts: "pool {} u \<Longrightarrow> pool {} (after_parts u)"
  using pool_settled[of u] by (auto simp: after_parts_def complete_upload_def Let_def pool_def[of _ u] phase_tell)

section \<open>What has been sent\<close>

definition session_fits :: "server_session \<Rightarrow> int \<Rightarrow> bool" where
  "session_fits s n \<longleftrightarrow>
     0 < ss_chunk_size s \<and> ss_total_size s = n \<and> 0 < n \<and>
     (ss_total_parts s - 1) * ss_chunk_size s < n \<and> n \<le> ss_total_parts s * ss_chunk_size s \<and>
     list_all (\<lambda>p. 0 \<le> p \<and> p < ss_total_parts s) (case ss_parts_received s of None \<Rightarrow> [] | Some ps \<Rightarrow> ps)"

definition fits :: "upload \<Rightarrow> bool" where
  "fits u \<longleftrightarrow> up_session u \<noteq> None \<and> session_fits (the_session u) (int (length (up_file u)))"

definition all_parts :: "upload \<Rightarrow> int set" where
  "all_parts u = {0..<ss_total_parts (the_session u)}"

definition sound :: "upload \<Rightarrow> upload_request \<Rightarrow> bool" where
  "sound u r \<longleftrightarrow>
     (case r of
        PartPut sid p b \<Rightarrow> sid = ss_id (the_session u) \<and> p \<in> claimed u \<and> b = chunk_of u p
      | StoragePut _ _ b \<Rightarrow> (\<exists>p \<in> claimed u. b = chunk_of u p)
      | Complete sid \<Rightarrow> up_session u \<noteq> None \<and> sid = ss_id (the_session u) \<and>
          (truthy (ss_dedup_source (the_session u)) \<or> all_parts u \<subseteq> set (up_received u))
      | Progress q b t \<Rightarrow> fits u \<longrightarrow> 0 \<le> q \<and> q \<le> 100 \<and> 0 \<le> b \<and> b \<le> t
      | _ \<Rightarrow> True)"

definition is_put :: "int \<Rightarrow> upload_request \<Rightarrow> bool" where
  "is_put p r \<longleftrightarrow> (case r of PartPut _ q _ \<Rightarrow> q = p | _ \<Rightarrow> False)"

definition puts :: "int \<Rightarrow> upload \<Rightarrow> nat" where "puts p u = length (filter (is_put p) (up_sent u))"

fun going_direct :: "int \<Rightarrow> runner \<Rightarrow> bool" where
  "going_direct p (Proxying _ _) = False"
| "going_direct p r = (part_in r = Some p)"

definition put_once :: "nat set \<Rightarrow> upload \<Rightarrow> bool" where
  "put_once K u \<longleftrightarrow> (\<forall>p. puts p u \<le> 1 \<and> (0 < puts p u \<longrightarrow> p \<in> claimed u \<and>
     (\<forall>j < length (up_runners u). j \<notin> K \<longrightarrow> \<not> going_direct p (up_runners u ! j))))"

definition received_size :: "upload \<Rightarrow> int" where
  "received_size u = sum_list (map (partByteSize (total_size u) (ss_chunk_size (the_session u))) (up_received u))"

definition shape :: "upload \<Rightarrow> bool" where
  "shape u \<longleftrightarrow>
     (up_session u \<noteq> None \<longrightarrow> set (up_missing u) \<subseteq> all_parts u) \<and>
     (fits u \<longrightarrow> up_bytes u = received_size u) \<and>
     (up_session u = None \<longrightarrow> up_missing u = []) \<and>
     (up_phase u = Sending \<longrightarrow> up_session u \<noteq> None \<and> all_parts u \<subseteq> given u \<union> set (up_missing u) \<and> given u \<subseteq> set (up_received u))"

definition rest :: "int set \<Rightarrow> nat set \<Rightarrow> upload \<Rightarrow> bool" where
  "rest A K u \<longleftrightarrow> set (up_received u) \<subseteq> given u \<union> A \<and> list_all (sound u) (up_sent u) \<and> put_once K u \<and> shape u"

definition good :: "int set \<Rightarrow> nat set \<Rightarrow> upload \<Rightarrow> bool" where
  "good A K u \<longleftrightarrow> pool K u \<and> rest A K u"

lemma derived_simps [simp]:
  "claimed (tell r u) = claimed u" "claimed (add_sample b d n u) = claimed u" "claimed (set_runner k x u) = claimed u"
  "claimed (reportProgress u) = claimed u" "claimed (u\<lparr>up_cancelled := c\<rparr>) = claimed u" "claimed (u\<lparr>up_aborted := c\<rparr>) = claimed u"
  "claimed (u\<lparr>up_phase := ph\<rparr>) = claimed u" "claimed (u\<lparr>up_received := R\<rparr>) = claimed u" "claimed (u\<lparr>up_bytes := n\<rparr>) = claimed u"
  "given (tell r u) = given u" "given (add_sample b d n u) = given u" "given (set_runner k x u) = given u"
  "given (reportProgress u) = given u" "given (u\<lparr>up_cancelled := c\<rparr>) = given u" "given (u\<lparr>up_aborted := c\<rparr>) = given u"
  "given (u\<lparr>up_phase := ph\<rparr>) = given u" "given (u\<lparr>up_received := R\<rparr>) = given u" "given (u\<lparr>up_bytes := n\<rparr>) = given u"
  "given (u\<lparr>up_next := m\<rparr>) = given u"
  by (simp_all add: claimed_def given_def tell_def add_sample_def set_runner_def reportProgress_def)

lemma runner_fields [simp]:
  "up_runners (set_runner k r u) = (up_runners u)[k := r]" "up_missing (set_runner k r u) = up_missing u"
  "up_next (set_runner k r u) = up_next u" "up_phase (set_runner k r u) = up_phase u" "up_received (set_runner k r u) = up_received u"
  "up_session (set_runner k r u) = up_session u" "up_file (set_runner k r u) = up_file u" "up_bytes (set_runner k r u) = up_bytes u"
  "up_cancelled (set_runner k r u) = up_cancelled u" "up_sent (set_runner k r u) = up_sent u" "up_sent (add_sample b d n u) = up_sent u"
  "up_sent (tell q u) = up_sent u @ [q]"
  by (simp_all add: set_runner_def add_sample_def tell_def)

lemma sound_mono:
  assumes "sound u r" "up_session v = up_session u" "up_file v = up_file u" "claimed u \<subseteq> claimed v" "set (up_received u) \<subseteq> set (up_received v)"
  shows "sound v r"
proof -
  have "the_session v = the_session u" "fits v = fits u" "all_parts v = all_parts u" "chunk_of v = chunk_of u"
    using assms by (auto simp: the_session_def fits_def all_parts_def chunk_of_def fun_eq_iff)
  then show ?thesis using assms by (auto simp: sound_def split: upload_request.splits)
qed

lemma sounds_mono:
  "list_all (sound u) rs \<Longrightarrow> up_session v = up_session u \<Longrightarrow> up_file v = up_file u \<Longrightarrow> claimed u \<subseteq> claimed v \<Longrightarrow>
   set (up_received u) \<subseteq> set (up_received v) \<Longrightarrow> list_all (sound v) rs"
  by (auto simp: list_all_iff intro: sound_mono)

lemma puts_tell: "puts p (tell r u) = puts p u + (if is_put p r then 1 else 0)"
  by (simp add: puts_def)

lemma shape_cong:
  assumes "up_session v = up_session u" "up_file v = up_file u" "up_missing v = up_missing u" "up_bytes v = up_bytes u"
    "up_received v = up_received u" "up_phase v = Sending \<Longrightarrow> up_phase u = Sending"
  shows "shape u \<Longrightarrow> shape v"
  using assms by (auto simp: shape_def fits_def all_parts_def the_session_def received_size_def total_size_def given_def)

lemma shape_simps [simp]:
  "shape (tell r u) = shape u" "shape (u\<lparr>up_next := m\<rparr>) = shape u" "shape (set_runner k x u) = shape u"
  by (simp_all add: shape_def fits_def all_parts_def the_session_def received_size_def total_size_def set_runner_def tell_def given_def)

lemma rest_cong:
  assumes "rest A K u" "up_session v = up_session u" "up_file v = up_file u" "up_missing v = up_missing u" "up_bytes v = up_bytes u"
    "up_received v = up_received u" "up_phase v = Sending \<Longrightarrow> up_phase u = Sending" "claimed v = claimed u" "up_sent v = up_sent u"
    "put_once K u \<Longrightarrow> put_once L v"
  shows "rest A L v"
  using assms shape_cong[of v u] sounds_mono[of u "up_sent u" v] by (simp add: rest_def given_def)

lemma rest_tell:
  assumes "rest A K u" "sound u r" "\<And>p. \<not> is_put p r"
  shows "rest A K (tell r u)"
proof -
  have "list_all (sound (tell r u)) (up_sent u @ [r])"
    using assms(1,2) by - (rule sounds_mono[of u], auto simp: rest_def)
  moreover have "put_once K (tell r u)" using assms by (simp add: rest_def put_once_def puts_tell)
  moreover have "shape (tell r u)" using assms(1) by (simp add: rest_def)
  ultimately show ?thesis using assms(1) by (simp add: rest_def)
qed

lemma put_once_set:
  assumes "put_once K u" "K \<subseteq> {k}"
    and r: "\<And>p. going_direct p r \<Longrightarrow> puts p u = 0 \<or> k \<notin> K \<and> going_direct p (up_runners u ! k)"
  shows "put_once {} (set_runner k r u)"
  unfolding put_once_def
proof (intro allI conjI impI)
  fix p
  have same: "puts p (set_runner k r u) = puts p u" by (simp add: puts_def)
  then show "puts p (set_runner k r u) \<le> 1" using assms(1) by (simp add: put_once_def)
  assume "0 < puts p (set_runner k r u)"
  with same have p: "0 < puts p u" by simp
  then show "p \<in> claimed (set_runner k r u)" using assms(1) by (simp add: put_once_def)
  fix j
  assume j: "j < length (up_runners (set_runner k r u))"
  have old: "\<not> going_direct p (up_runners u ! j)" if "j \<notin> K"
    using assms(1) p j that unfolding put_once_def by simp
  show "\<not> going_direct p (up_runners (set_runner k r u) ! j)"
  proof (cases "j = k")
    case True
    with r[of p] p old j show ?thesis by auto
  next
    case False
    with assms(2) old j show ?thesis by auto
  qed
qed

lemma rest_idle:
  assumes "rest A K u" "K \<subseteq> {k}" "\<And>p. \<not> going_direct p r"
  shows "rest A {} (set_runner k r u)"
proof (rule rest_cong[OF assms(1)])
  assume "put_once K u"
  then show "put_once {} (set_runner k r u)"
    using assms(2,3) by (intro put_once_set[of K]) auto
qed simp_all

lemma rest_move:
  assumes "rest A {} u" "k < length (up_runners u)" "\<And>p. going_direct p r \<Longrightarrow> going_direct p (up_runners u ! k)"
  shows "rest A {} (set_runner k r u)"
proof (rule rest_cong[OF assms(1)])
  assume "put_once {} u"
  then show "put_once {} (set_runner k r u)"
    using assms(2,3) by (intro put_once_set[of "{}"]) auto
qed simp_all

lemma rest_take:
  assumes "rest A {k} u" "part_in r = Some p" "puts p u = 0"
  shows "rest A {} (set_runner k r u)"
proof (rule rest_cong[OF assms(1)])
  have direct: "going_direct q r \<Longrightarrow> q = p" for q using assms(2) by (cases r) auto
  assume "put_once {k} u"
  then show "put_once {} (set_runner k r u)"
    using assms(3) direct by (intro put_once_set[of "{k}"]) auto
qed simp_all

text \<open>A part goes through the API: it has not gone there before, and no other runner holds it.\<close>

lemma rest_put:
  assumes "rest A K u" "K \<subseteq> {k}" "puts p u = 0" "p \<in> claimed u"
    and "\<And>j. j < length (up_runners u) \<Longrightarrow> j \<noteq> k \<Longrightarrow> part_in (up_runners u ! j) \<noteq> Some p"
  shows "rest A {} (uploadPartViaApi k p now u)"
proof -
  let ?v = "set_runner k (Proxying p now) u"
  let ?r = "PartPut (ss_id (the_session u)) p (chunk_of u p)"
  have v: "rest A {} ?v" by (rule rest_idle[OF assms(1,2)]) simp
  have none: "\<not> going_direct p (up_runners ?v ! j)" if "j < length (up_runners ?v)" for j
    using that assms(5)[of j] by (cases "j = k"; cases "up_runners u ! j") auto
  have "sound ?v ?r" using assms(4) by (simp add: sound_def the_session_def chunk_of_def)
  then have "list_all (sound (tell ?r ?v)) (up_sent ?v @ [?r])"
    using v by - (rule sounds_mono[of ?v], auto simp: rest_def)
  moreover have "put_once {} (tell ?r ?v)"
    using v none assms(3,4) unfolding rest_def put_once_def by (auto simp: puts_tell is_put_def puts_def)
  moreover have "shape (tell ?r ?v)" using v by (simp add: rest_def)
  ultimately show ?thesis using v by (simp add: rest_def uploadPartViaApi_def)
qed

lemma rest_throw: "rest A K u \<Longrightarrow> K \<subseteq> {k} \<Longrightarrow> rest A {} (runner_throws k t u)"
  using rest_idle[of A K u k Threw]
  by (auto simp: runner_throws_def Let_def intro: rest_cong simp: put_once_def puts_def)

lemma rest_claim:
  assumes "rest A {k} u" "core {k} u" "up_next u < length (up_missing u)"
  shows "rest A {k} (u\<lparr>up_next := Suc (up_next u)\<rparr>)"
proof -
  let ?v = "u\<lparr>up_next := Suc (up_next u)\<rparr>"
  note c = core_claim(2)[OF assms(2,3)]
  have "list_all (sound ?v) (up_sent u)" using assms(1) c by - (rule sounds_mono[of u], auto simp: rest_def)
  moreover have "put_once {k} ?v" using assms(1) c by (auto simp: rest_def put_once_def puts_def)
  moreover have "shape ?v" using assms(1) by (simp add: rest_def)
  ultimately show ?thesis using assms(1) by (simp add: rest_def)
qed

section \<open>Sizes of parts\<close>

lemma part_chunk_take_drop:
  assumes "0 < c" "0 \<le> p"
  shows "part_chunk f c p = take (nat c) (drop (nat (p * c)) f)"
proof -
  define a where "a = p * c"
  have a: "0 \<le> a" using assms by (simp add: a_def)
  then show ?thesis
    using assms(1) unfolding part_chunk_def Let_def a_def[symmetric]
    by (simp add: js_slice_def js_pos_nonneg min_def Let_def drop_take nat_add_distrib nat_diff_distrib nat_le_iff)
qed

lemma length_part_chunk:
  assumes "0 < c" "0 \<le> p"
  shows "int (length (part_chunk f c p)) = partByteSize (int (length f)) c p"
proof -
  define a where "a = p * c"
  have "0 \<le> a" using assms by (simp add: a_def)
  then show ?thesis
    using assms(1) unfolding part_chunk_take_drop[OF assms] partByteSize_def Let_def a_def[symmetric]
    by (auto simp: min_def max_def)
qed

lemma sum_part_sizes:
  "0 < c \<Longrightarrow> 0 \<le> t \<Longrightarrow> (\<Sum>i<n. partByteSize t c (int i)) = min (int n * c) t"
  by (induction n) (auto simp: partByteSize_def Let_def min_def max_def algebra_simps)

lemma part_sizes_nonneg: "0 < c \<Longrightarrow> 0 \<le> partByteSize t c p"
  by (simp add: partByteSize_def Let_def)

lemma received_size_bounds:
  assumes "fits u" "core K u" "shape u"
  shows "0 \<le> received_size u \<and> received_size u \<le> total_size u \<and> total_size u = int (length (up_file u)) \<and> 0 < total_size u"
proof -
  define s where "s = the_session u"
  define size where "size = partByteSize (total_size u) (ss_chunk_size s)"
  have s: "up_session u = Some s" "session_fits s (int (length (up_file u)))"
    using assms(1) by (auto simp: fits_def s_def the_session_def)
  then have c: "0 < ss_chunk_size s" "0 < int (length (up_file u))" "int (length (up_file u)) \<le> ss_total_parts s * ss_chunk_size s"
    by (auto simp: session_fits_def)
  then have "0 < ss_total_parts s * ss_chunk_size s" by linarith
  with c(1) have "0 \<le> ss_total_parts s" by (simp add: zero_less_mult_iff)
  moreover have "total_size u = int (length (up_file u))"
    using s by (auto simp: total_size_def session_fits_def s_def[symmetric])
  ultimately have t: "total_size u = int (length (up_file u))" "0 < total_size u" "0 < ss_chunk_size s" "0 \<le> ss_total_parts s"
    "int (length (up_file u)) \<le> ss_total_parts s * ss_chunk_size s"
    using c by simp_all
  have "given u \<subseteq> all_parts u"
    using s by (auto simp: given_def all_parts_def session_fits_def s_def[symmetric] list_all_iff)
  moreover have "claimed u \<subseteq> set (up_missing u)" by (auto simp: claimed_def dest: in_set_takeD)
  moreover have "set (up_received u) \<subseteq> given u \<union> claimed u" "set (up_missing u) \<subseteq> all_parts u"
    using assms(2,3) s(1) by (simp_all add: core_def shape_def)
  ultimately have "set (up_received u) \<subseteq> all_parts u" by blast
  moreover have "all_parts u \<subseteq> int ` {..<nat (ss_total_parts s)}"
  proof
    fix p
    assume "p \<in> all_parts u"
    then have "int (nat p) = p" "nat p < nat (ss_total_parts s)" by (auto simp: all_parts_def s_def[symmetric])
    then show "p \<in> int ` {..<nat (ss_total_parts s)}" by (metis imageI lessThan_iff)
  qed
  ultimately have r: "set (up_received u) \<subseteq> int ` {..<nat (ss_total_parts s)}" by blast
  have nonneg: "0 \<le> size p" for p using t(3) by (simp add: size_def part_sizes_nonneg)
  have "received_size u = (\<Sum>p \<in> set (up_received u). size p)"
    using assms(2) by (simp add: received_size_def core_def sum_list_distinct_conv_sum_set size_def s_def)
  moreover have "\<dots> \<le> (\<Sum>p \<in> int ` {..<nat (ss_total_parts s)}. size p)"
    using r nonneg by (intro sum_mono2) auto
  moreover have "\<dots> = (\<Sum>i<nat (ss_total_parts s). size (int i))"
    by (subst sum.reindex) (auto simp: inj_on_def)
  moreover have "\<dots> = min (ss_total_parts s * ss_chunk_size s) (total_size u)"
    using sum_part_sizes[OF t(3), of "total_size u" "nat (ss_total_parts s)"] t(2,4) by (simp add: size_def)
  moreover have "0 \<le> (\<Sum>p \<in> set (up_received u). size p)" using nonneg by (simp add: sum_nonneg)
  ultimately show ?thesis using t by simp
qed

lemma percent_range:
  assumes "0 \<le> up_bytes u" "up_bytes u \<le> total_size u" "0 < total_size u"
  shows "0 \<le> percent_of u \<and> percent_of u \<le> 100"
  using assms by (auto simp: percent_of_def)

lemma progress_sound:
  assumes "core K u" "shape u"
  shows "sound u (Progress (percent_of u) (up_bytes u) (total_size u))" "sound u (Progress 100 (total_size u) (total_size u))"
  using received_size_bounds[OF _ assms] percent_range[of u] assms(2) by (auto simp: sound_def shape_def)

section \<open>Every step keeps the invariant\<close>

lemma good_frames:
  "good A K u \<Longrightarrow> good A K (add_sample b d n u)" "good A K u \<Longrightarrow> good A K (u\<lparr>up_cancelled := c\<rparr>)" "good A K u \<Longrightarrow> good A K (u\<lparr>up_aborted := c\<rparr>)"
  by (auto simp: good_def put_once_def puts_def intro!: rest_cong[of A K u])

lemma good_tell: "good A K u \<Longrightarrow> sound u r \<Longrightarrow> (\<And>p. \<not> is_put p r) \<Longrightarrow> good A K (tell r u)"
  by (simp add: good_def rest_tell)

lemma good_phase:
  assumes "good A {} u" "ph \<noteq> Sending"
  shows "good A {} (u\<lparr>up_phase := ph\<rparr>)"
proof -
  have g: "rest A {} u" "core {} u" using assms(1) by (simp_all add: good_def pool_def)
  have "rest A {} (u\<lparr>up_phase := ph\<rparr>)"
    by (rule rest_cong[OF g(1)]) (use assms(2) in \<open>simp_all add: put_once_def puts_def\<close>)
  with pool_settled[OF g(2) assms(2)] show ?thesis by (simp add: good_def)
qed

lemma good_progress: "good A K u \<Longrightarrow> good A K (reportProgress u)"
  unfolding reportProgress_def
  by (rule good_tell) (auto simp: good_def pool_def rest_def is_put_def intro: progress_sound)

lemma good_move:
  assumes "good A {} u" "k < length (up_runners u)" "part_in (up_runners u ! k) = Some p" "part_in r = Some p"
    and "going_direct p r \<Longrightarrow> going_direct p (up_runners u ! k)"
  shows "good A {} (set_runner k r u)"
proof -
  have "going_direct q r \<Longrightarrow> q = p" for q using assms(4) by (cases r) auto
  with assms(5) have d: "going_direct q r \<Longrightarrow> going_direct q (up_runners u ! k)" for q by blast
  have g: "pool {} u" "rest A {} u" using assms(1) by (simp_all add: good_def)
  from pool_move[OF g(1) assms(2-4)] rest_move[OF g(2) assms(2) d] show ?thesis by (simp add: good_def)
qed

lemma good_throw: "good A {} u \<Longrightarrow> k < length (up_runners u) \<Longrightarrow> good A {} (runner_throws k t u)"
  by (auto simp: good_def pool_def[of _ u] intro: pool_throw[of "{}"] rest_throw[of A "{}"])

lemma good_proxy:
  assumes "good A {} u" "k < length (up_runners u)" "going_direct p (up_runners u ! k)"
  shows "good A {} (uploadPartViaApi k p now u)"
proof -
  have p: "part_in (up_runners u ! k) = Some p" using assms(3) by (cases "up_runners u ! k") auto
  have "part_in (up_runners u ! j) \<noteq> Some p" if "j < length (up_runners u)" "j \<noteq> k" for j
    using assms(1,2) p that unfolding good_def pool_def core_def apart_def by auto
  moreover have "puts p u = 0" using assms unfolding good_def rest_def put_once_def by auto
  moreover have "p \<in> claimed u" using assms p unfolding good_def pool_def core_def fine_def by auto
  ultimately have "rest A {} (uploadPartViaApi k p now u)"
    using assms(1) by (intro rest_put[of A "{}"]) (auto simp: good_def)
  then show ?thesis
    using assms p by (auto simp: good_def uploadPartViaApi_def intro: pool_move)
qed

lemma good_next:
  assumes "good A {k} u" "k < length (up_runners u)"
  shows "good A {} (runner_next k now u)"
proof -
  have u: "core {k} u" "rest A {k} u" "put_once {k} u" using assms(1) by (auto simp: good_def pool_def rest_def)
  let ?v = "u\<lparr>up_next := Suc (up_next u)\<rparr>" and ?p = "up_missing u ! up_next u"
  have "rest A {} (runner_next k now u)"
  proof (cases "up_next u < length (up_missing u)")
    case True
    note c = core_claim[OF u(1) True] and v = rest_claim[OF u(2,1) True]
    have "?p \<notin> claimed u"
      using u(1) True by (auto simp: core_def claimed_def in_set_conv_nth nth_eq_iff_index_eq)
    with u(3) have none: "puts ?p ?v = 0" by (auto simp: put_once_def puts_def)
    have signing: "rest A {} (tell (SignedUrl (ss_id (the_session ?v)) ?p) (set_runner k (Signing ?p) ?v))"
      by (rule rest_tell[OF rest_take[OF v _ none]]) (simp_all add: sound_def is_put_def)
    have "rest A {} (uploadPartViaApi k ?p now ?v)"
      using c none by (intro rest_put[OF v]) auto
    with signing show ?thesis
      using True rest_throw[OF v, of k cancelled_error] by (simp add: runner_next_def start_part_def the_session_def)
  next
    case False
    then show ?thesis using rest_idle[OF u(2), of k Returned] by (simp add: runner_next_def)
  qed
  then show ?thesis using assms pool_next[of k u now] by (simp add: good_def)
qed

lemma good_finish:
  assumes "good A {} u" "k < length (up_runners u)" "part_in (up_runners u ! k) = Some p" "p \<in> A"
  shows "good A {k} (u\<lparr>up_received := List.insert p (up_received u), up_bytes := up_bytes u + int (length (chunk_of u p))\<rparr>)"
proof -
  let ?v = "u\<lparr>up_received := List.insert p (up_received u), up_bytes := up_bytes u + int (length (chunk_of u p))\<rparr>"
  have f: "p \<in> claimed u" "p \<notin> set (up_received u)" "shape u" "core {} u"
    using assms by (auto simp: good_def pool_def core_def fine_def rest_def)
  have "list_all (sound ?v) (up_sent u)"
    using assms(1) by - (rule sounds_mono[of u], auto simp: good_def rest_def)
  moreover have "put_once {k} ?v"
    using assms(1) by (auto simp: good_def rest_def put_once_def puts_def)
  moreover have "shape ?v"
  proof -
    have v: "total_size ?v = total_size u" "the_session ?v = the_session u"
      by (simp_all add: total_size_def the_session_def)
    have "up_bytes ?v = received_size ?v" if "fits u"
    proof -
      have c: "0 < ss_chunk_size (the_session u)" "up_session u \<noteq> None" using that by (auto simp: fits_def session_fits_def)
      then have "set (up_missing u) \<subseteq> all_parts u" using f(3) by (simp add: shape_def)
      then have "0 \<le> p" using f(1) by (auto simp: claimed_def all_parts_def dest: in_set_takeD)
      moreover have "total_size u = int (length (up_file u))"
        using received_size_bounds[OF that f(4,3)] by simp
      ultimately show ?thesis
        using c(1) f(2,3) that v
        by (simp add: shape_def received_size_def chunk_of_def length_part_chunk List.insert_def)
    qed
    then show ?thesis
      using f(3) by (auto simp: shape_def fits_def all_parts_def the_session_def)
  qed
  moreover have "pool {k} ?v" using pool_finish[of u k p] assms by (simp add: good_def)
  ultimately show ?thesis using assms(1,4) by (auto simp: good_def rest_def)
qed

lemma good_after_parts:
  assumes "good A {} u" "up_runners u = [] \<Longrightarrow> up_missing u = []"
  shows "good A {} (after_parts u)"
proof (cases "up_phase u = Sending \<and> list_all (\<lambda>r. r = Returned) (up_runners u)")
  case True
  have u: "pool {} u" "shape u" using assms(1) by (auto simp: good_def rest_def)
  have "up_next u = length (up_missing u)"
  proof (cases "up_runners u")
    case Nil
    with assms(2) u(1) show ?thesis by (simp add: pool_def core_def)
  next
    case (Cons r rs)
    with u(1) True show ?thesis by (auto simp: pool_def core_def fine_def list_all_length)
  qed
  then have "claimed u = set (up_missing u)" by (simp add: claimed_def)
  moreover have "flying {} u = {}" using True by (auto simp: flying_def list_all_length)
  ultimately have "all_parts u \<subseteq> set (up_received u)" "up_session u \<noteq> None"
    using u True by (auto simp: pool_def shape_def)
  then have s: "sound u (Complete (ss_id (the_session u)))" by (simp add: sound_def)
  have "good A {} (complete_upload u)"
    unfolding complete_upload_def Let_def
  proof (rule good_tell)
    let ?w = "tell (Progress 100 (total_size u) (total_size u)) u"
    have "good A {} ?w"
      using assms(1) progress_sound(2)[of "{}" u] by (intro good_tell) (auto simp: good_def pool_def rest_def is_put_def)
    then show "good A {} (?w\<lparr>up_phase := Completing\<rparr>)" by (rule good_phase) simp
    show "sound (?w\<lparr>up_phase := Completing\<rparr>) (Complete (ss_id (the_session ?w)))"
      using s by (auto simp: sound_def the_session_def all_parts_def)
  qed (simp add: is_put_def)
  then show ?thesis using True good_phase[OF assms(1)] by (auto simp: after_parts_def)
next
  case False
  then show ?thesis using assms(1) by (auto simp: after_parts_def)
qed

lemma good_received:
  assumes "good A {} u" "k < length (up_runners u)" "part_in (up_runners u ! k) = Some p" "p \<in> A"
  shows "good A {} (part_received k p t now u)"
proof -
  let ?u = "tell (PartTransport t) u"
  have "good A {} ?u" using assms(1) by (rule good_tell) (simp_all add: sound_def is_put_def)
  with assms show ?thesis
    unfolding part_received_def Let_def by (intro good_next good_progress good_finish) auto
qed

lemma runners_kept:
  "length (up_runners (part_received k p t now u)) = length (up_runners u)"
  by (auto simp: part_received_def runner_next_def start_part_def uploadPartViaApi_def runner_throws_def Let_def)

lemma good_done:
  assumes "good A {} u" "k < length (up_runners u)" "part_in (up_runners u ! k) = Some p" "p \<in> A"
  shows "good A {} (part_done k p t now u)"
  unfolding part_done_def using good_received[OF assms, of t now] runners_kept[of k p t now u] assms(2)
  by (auto intro!: good_after_parts)

lemma good_start: "good A {} u \<Longrightarrow> good A {} (start_runner now u)"
  unfolding start_runner_def
proof (rule good_next)
  assume g: "good A {} u"
  show "good A {length (up_runners u)} (u\<lparr>up_runners := up_runners u @ [Returned]\<rparr>)"
    using g pool_spawn[of u] unfolding good_def
    by (auto intro!: rest_cong[of A "{}" u] simp: put_once_def puts_def claimed_def nth_append less_Suc_eq)
qed simp

lemma good_starts: "good A {} u \<Longrightarrow> good A {} ((start_runner now ^^ n) u)"
  by (induction n) (auto intro: good_start)

text \<open>Before the session is open the pool is empty and only the session has been asked for.\<close>

definition early :: "upload_request \<Rightarrow> bool" where
  "early r \<longleftrightarrow> (case r of ResumeSession _ \<Rightarrow> True | CreateSession _ _ _ _ _ _ \<Rightarrow> True | _ \<Rightarrow> False)"

definition unopened :: "upload \<Rightarrow> bool" where
  "unopened u \<longleftrightarrow> (up_phase u \<in> {Hashing, Opening} \<longrightarrow>
     up_session u = None \<and> up_missing u = [] \<and> up_next u = 0 \<and> up_received u = [] \<and> up_runners u = [] \<and> list_all early (up_sent u))"

text \<open>While the pool works, a runner waits for an answer.\<close>

definition waiting :: "upload \<Rightarrow> bool" where
  "waiting u \<longleftrightarrow> (up_phase u = Sending \<longrightarrow> (\<exists>k < length (up_runners u). part_in (up_runners u ! k) \<noteq> None))"

fun runner_weight :: "runner \<Rightarrow> nat" where
  "runner_weight (Signing _) = 4"
| "runner_weight (Storing _ _ _) = 3"
| "runner_weight (Draining _ _) = 2"
| "runner_weight (Confirming _ _) = 2"
| "runner_weight (Proxying _ _) = 1"
| "runner_weight _ = 0"

definition phase_weight :: "session_phase \<Rightarrow> nat" where
  "phase_weight ph = (case ph of Hashing \<Rightarrow> 3 | Opening \<Rightarrow> 2 | Sending \<Rightarrow> 1 | Completing \<Rightarrow> 1 | _ \<Rightarrow> 0)"

definition weight :: "upload \<Rightarrow> nat" where
  "weight u = phase_weight (up_phase u) + 4 * (length (up_missing u) - up_next u) + sum_list (map runner_weight (up_runners u))"

lemma waiting_after_parts:
  assumes "pool {} u"
  shows "waiting (after_parts u)"
proof -
  have "\<exists>k < length (up_runners u). part_in (up_runners u ! k) \<noteq> None"
    if s: "up_phase u = Sending" and "\<not> list_all (\<lambda>r. r = Returned) (up_runners u)"
  proof -
    from that(2) obtain k where k: "k < length (up_runners u)" "up_runners u ! k \<noteq> Returned" by (auto simp: list_all_length)
    with assms s have "up_runners u ! k \<noteq> Threw" by (auto simp: pool_def core_def fine_def)
    with k show ?thesis by (metis part_in.simps option.distinct(1) runner.exhaust)
  qed
  then show ?thesis by (auto simp: waiting_def after_parts_def complete_upload_def Let_def)
qed

lemma good_early:
  assumes "unopened u" "up_phase u = Opening" "list_all early (up_sent u)"
  shows "list_all (sound v) (up_sent u)" "puts p u = 0"
proof -
  have "sound v r" "\<not> is_put p r" if "early r" for r
    using that by (cases r; simp add: early_def sound_def is_put_def)+
  with assms(3) show "list_all (sound v) (up_sent u)" "puts p u = 0"
    by (auto simp: list_all_iff puts_def filter_empty_conv)
qed

lemma missing_parts_facts:
  "distinct (missing_parts s got)" "set (missing_parts s got) = {0..<ss_total_parts s} - set got"
proof -
  show "distinct (missing_parts s got)" by (simp add: missing_parts_def distinct_map)
  have "int ` {0..<nat (ss_total_parts s)} = {0..<ss_total_parts s}"
    by (auto simp: image_iff intro!: bexI[of _ "nat x" for x])
  then show "set (missing_parts s got) = {0..<ss_total_parts s} - set got" by (auto simp: missing_parts_def)
qed

lemma good_opened:
  assumes "unopened u" "up_phase u = Opening"
  shows "good A {} (session_opened s now u) \<and> waiting (session_opened s now u)"
proof -
  define got where "got = remdups (case ss_parts_received s of Some ps \<Rightarrow> ps | None \<Rightarrow> [])"
  define v where "v = tell (SessionReady s) (u\<lparr>up_session := Some s, up_received := got\<rparr>)"
  define w where "w = v\<lparr>up_bytes := sum_list (map (partByteSize (total_size v) (ss_chunk_size s)) got)\<rparr>"
  have o: "up_missing u = []" "up_next u = 0" "up_runners u = []" "list_all early (up_sent u)" using assms by (simp_all add: unopened_def)
  have got: "set got = given w" "distinct got" "up_received w = got"
    by (auto simp: got_def given_def w_def v_def tell_def split: option.splits)
  have w: "up_session w = Some s" "the_session w = s" "up_missing w = []" "up_next w = 0" "up_runners w = []" "up_phase w = Opening"
    "up_sent w = up_sent u @ [SessionReady s]" "total_size w = total_size v"
    using o assms(2) by (simp_all add: w_def v_def tell_def the_session_def total_size_def)
  have "pool {} w"
    using w got by (simp add: pool_def core_def claimed_def apart_def flying_def)
  moreover have "rest A {} w"
  proof -
    have "list_all (sound w) (up_sent w)" using good_early(1)[OF assms o(4)] by (simp add: w sound_def)
    moreover have "puts p w = 0" for p using good_early(2)[OF assms o(4), of p] by (simp add: puts_def w is_put_def)
    moreover have "up_bytes w = received_size w" by (simp add: received_size_def w got) (simp add: w_def)
    ultimately show ?thesis using got w by (simp add: rest_def put_once_def shape_def)
  qed
  ultimately have "good A {} w" by (simp add: good_def)
  then have r: "good A {} (reportProgress w)" by (rule good_progress)
  define x where "x = reportProgress w"
  have x: "good A {} x" "the_session x = s" "up_session x = Some s" "up_missing x = []" "up_next x = 0" "up_runners x = []" "up_received x = got"
    "up_phase x = Opening" "given x = set got"
    using r w got by (simp_all add: x_def the_session_def)
  have t: "good A {} (tell (Progress 100 (total_size x) (total_size x)) x)"
    using x(1) progress_sound(2)[of "{}" x] by (intro good_tell) (auto simp: good_def pool_def rest_def is_put_def)
  show ?thesis
  proof (cases "truthy (ss_dedup_source s)")
    case True
    let ?y = "tell (Progress 100 (total_size x) (total_size x)) x"
    have "good A {} (tell (Complete (ss_id s)) (?y\<lparr>up_phase := Completing\<rparr>))"
      using True x by (intro good_tell good_phase[OF t]) (auto simp: sound_def is_put_def the_session_def)
    then show ?thesis
      using True good_phase[OF t] by (simp add: waiting_def session_opened_def Let_def got_def[symmetric] v_def[symmetric] w_def[symmetric] x_def[symmetric])
  next
    case False
    define y where "y = (if truthy (ss_recycle_match s) then tell (PartTransport Proxy) x else x)"
    have y: "good A {} y" "the_session y = s" "up_session y = Some s" "up_missing y = []" "up_next y = 0" "up_runners y = []" "up_received y = got"
      "given y = set got"
      using x by (auto simp: y_def the_session_def is_put_def sound_def intro!: good_tell)
    define z where "z = y\<lparr>up_missing := missing_parts s got, up_phase := Sending\<rparr>"
    have z: "the_session z = s" "claimed z = {}" "given z = set got" "fits z = fits y" "total_size z = total_size y" "all_parts z = all_parts y"
      using y by (simp_all add: z_def the_session_def claimed_def given_def fits_def total_size_def all_parts_def)
    have "pool {} z"
      using y missing_parts_facts[of s got] unfolding pool_def core_def good_def z
      by (auto simp: z_def apart_def)
    moreover have "rest A {} z"
    proof -
      have c: "claimed y = {}" using y by (simp add: claimed_def)
      then have "list_all (sound z) (up_sent y)"
        using y(1) by - (rule sounds_mono[of y], auto simp: good_def rest_def z_def)
      moreover have "put_once {} z" using y(1,6) c unfolding good_def rest_def put_once_def by (simp add: z_def puts_def)
      moreover have "shape z"
        using y missing_parts_facts[of s got] unfolding good_def rest_def shape_def z received_size_def
        by (auto simp: z_def all_parts_def)
      ultimately show ?thesis using y by (simp add: rest_def z_def given_def)
    qed
    ultimately have g: "good A {} z" by (simp add: good_def)
    define n where "n = nat (min (suggestedPartConcurrency (up_samples z)) (int (length (up_missing z))))"
    have "up_missing z = []" if "up_runners ((start_runner now ^^ n) z) = []"
    proof (rule ccontr)
      assume "up_missing z \<noteq> []"
      with suggestedPartConcurrency_bounds[of "up_samples z"] have "0 < n" by (simp add: n_def)
      then obtain m where "n = Suc m" by (cases n) auto
      with that show False
        by (auto simp: start_runner_def runner_next_def start_part_def uploadPartViaApi_def runner_throws_def Let_def split: if_splits)
    qed
    moreover have "up_missing (start_runner now u') = up_missing u'" for u'
      by (auto simp: start_runner_def runner_next_def start_part_def uploadPartViaApi_def runner_throws_def Let_def)
    then have "up_missing ((start_runner now ^^ n) z) = up_missing z" by (induction n) auto
    ultimately have "good A {} (after_parts ((start_runner now ^^ n) z)) \<and> waiting (after_parts ((start_runner now ^^ n) z))"
      using good_after_parts[OF good_starts[OF g, of n now]] good_starts[OF g, of n now] by (simp add: waiting_after_parts good_def)
    then show ?thesis
      using False by (cases "truthy (ss_recycle_match s)") (simp_all add: session_opened_def Let_def got_def[symmetric] v_def[symmetric] w_def[symmetric] x_def[symmetric]
        y_def z_def mapWithConcurrency_def n_def)
  qed
qed

lemma good_step:
  assumes "good A {} u" "unopened u" "awaited u e" "set_option (acknowledged u e) \<subseteq> A"
  shows "good A {} (upload_step reachable u e)"
proof (cases e)
  case (HashDone h)
  then show ?thesis
    using assms good_phase[OF assms(1), of Opening]
    by (auto simp: upload_step_def ensureUploadSession_def sound_def is_put_def intro!: good_tell)
next
  case (SessionAnswer a now)
  then show ?thesis
    using assms good_opened[OF assms(2)] by (auto simp: upload_step_def awaited_def split: answer.splits intro: good_phase)
next
  case (SignAnswer k a now)
  then obtain p where k: "k < length (up_runners u)" "up_runners u ! k = Signing p"
    using assms(3) by (auto simp: awaited_def split: runner.splits)
  then have claim: "p \<in> claimed u" using assms(1) by (auto simp: good_def pool_def core_def fine_def)
  have "good A {} (tell (StoragePut url ct (chunk_of u p)) (set_runner k (Storing p sp now) u))" for url ct sp
    using assms(1) k claim
    by (intro good_tell good_move) (auto simp: sound_def is_put_def chunk_of_def the_session_def)
  then show ?thesis
    using SignAnswer k assms(1)
    by (auto simp: upload_step_def sign_answered_def Let_def split: answer.splits intro!: good_throw good_proxy)
next
  case (StoreAnswer k a now)
  then obtain p sp started where k: "k < length (up_runners u)" "up_runners u ! k = Storing p sp started"
    using assms(3) by (auto simp: awaited_def split: runner.splits)
  have "good A {} (set_runner k (Draining p started) u)" "good A {} (set_runner k (Confirming p started) u)"
    using assms(1) k by (auto intro!: good_move)
  then show ?thesis
    using StoreAnswer k assms(1)
    by (auto simp: upload_step_def store_answered_def Let_def sound_def is_put_def split: sum.splits intro!: good_throw good_proxy good_tell)
next
  case (Drained k now)
  then obtain p started where k: "k < length (up_runners u)" "up_runners u ! k = Draining p started"
    using assms(3) by (auto simp: awaited_def split: runner.splits)
  then show ?thesis
    using Drained assms(1) by (auto simp: upload_step_def drained_def intro!: good_proxy good_frames)
next
  case (ConfirmAnswer k a now)
  then obtain p started where k: "k < length (up_runners u)" "up_runners u ! k = Confirming p started"
    using assms(3) by (auto simp: awaited_def split: runner.splits)
  then show ?thesis
    using ConfirmAnswer assms(1,4)
    by (auto simp: upload_step_def confirm_answered_def Let_def acknowledged_def split: answer.splits
        intro!: good_throw good_proxy good_frames good_done)
next
  case (ProxyAnswer k a now)
  then obtain p started where k: "k < length (up_runners u)" "up_runners u ! k = Proxying p started"
    using assms(3) by (auto simp: awaited_def split: runner.splits)
  then show ?thesis
    using ProxyAnswer assms(1,4)
    by (auto simp: upload_step_def proxy_answered_def Let_def acknowledged_def split: answer.splits
        intro!: good_throw good_frames good_done)
next
  case (CompleteAnswer a)
  then show ?thesis using assms(1) by (auto simp: upload_step_def split: answer.splits intro: good_phase)
qed (use assms(1) in \<open>auto simp: upload_step_def intro: good_frames\<close>)

lemma good_mono: "good A K u \<Longrightarrow> A \<subseteq> B \<Longrightarrow> good B K u"
  by (auto simp: good_def rest_def)

end
