(* ===== verification/UploadPartsProps.thy ===== *)
theory UploadPartsProps
  imports UploadPartsPool
begin

text \<open>
  The properties of a resumable upload: every upload is settled after boundedly many answers, the
  completion is asked for only when every part has been acknowledged, each part goes through the API at
  most once, the parts make up the file, progress stays in range; and what happens after a failure.
\<close>

section \<open>Every upload is settled\<close>

definition opened :: "upload \<Rightarrow> bool" where "opened u \<longleftrightarrow> up_phase u \<notin> {Hashing, Opening}"

lemma opened_simps [simp]:
  "opened (tell r u) = opened u" "opened (add_sample b d n u) = opened u" "opened (set_runner k x u) = opened u"
  "opened (reportProgress u) = opened u" "opened (uploadPartViaApi k p now u) = opened u" "opened (u\<lparr>up_next := m\<rparr>) = opened u"
  "opened (u\<lparr>up_received := R\<rparr>) = opened u" "opened (u\<lparr>up_bytes := n\<rparr>) = opened u" "opened (u\<lparr>up_runners := rs\<rparr>) = opened u"
  "opened (u\<lparr>up_cancelled := c\<rparr>) = opened u" "opened (u\<lparr>up_aborted := c\<rparr>) = opened u"
  "opened (u\<lparr>up_phase := ph\<rparr>) \<longleftrightarrow> ph \<notin> {Hashing, Opening}"
  by (simp_all add: opened_def uploadPartViaApi_def)

lemma opened_ops:
  "opened u \<Longrightarrow> opened (runner_throws k t u)" "opened u \<Longrightarrow> opened (runner_next k now u)" "opened u \<Longrightarrow> opened (start_runner now u)"
  "opened u \<Longrightarrow> opened (after_parts u)" "opened u \<Longrightarrow> opened (part_done k p tr now u)"
proof -
  show throws: "opened u \<Longrightarrow> opened (runner_throws k t u)" for u k t by (simp add: runner_throws_def Let_def)
  show nxt: "opened u \<Longrightarrow> opened (runner_next k now u)" for u k
    by (auto simp: runner_next_def start_part_def intro: throws)
  show "opened u \<Longrightarrow> opened (start_runner now u)" unfolding start_runner_def by (rule nxt) simp
  show aft: "opened u \<Longrightarrow> opened (after_parts u)" for u by (auto simp: after_parts_def complete_upload_def Let_def)
  show "opened u \<Longrightarrow> opened (part_done k p tr now u)" by (simp add: part_done_def part_received_def Let_def nxt aft)
qed

lemma opened_starts: "opened u \<Longrightarrow> opened ((start_runner now ^^ n) u)"
  by (induction n) (auto intro: opened_ops)

lemma opened_session: "opened (session_opened s now u)"
  by (auto simp: session_opened_def Let_def mapWithConcurrency_def intro!: opened_ops(4) opened_starts)

lemma opened_step:
  assumes "opened u" "awaited u e"
  shows "opened (upload_step reachable u e)"
  using assms
  by (cases e) (auto simp: upload_step_def awaited_def sign_answered_def store_answered_def drained_def confirm_answered_def proxy_answered_def
      Let_def opened_def[of u] opened_ops opened_session split: answer.splits runner.splits sum.splits session_phase.splits)

lemma unopened_step:
  assumes "unopened u" "awaited u e"
  shows "unopened (upload_step reachable u e)"
proof (cases "opened u")
  case True
  then have "opened (upload_step reachable u e)" using assms(2) by (rule opened_step)
  then show ?thesis by (auto simp: unopened_def opened_def)
next
  case False
  with assms have "up_runners u = []" "unopened (upload_step reachable u (SessionAnswer a now))" for a now
    using opened_session[of _ now u] by (auto simp: unopened_def opened_def upload_step_def split: answer.splits)
  then show ?thesis
    using assms False
    by (cases e) (auto simp: unopened_def opened_def awaited_def upload_step_def ensureUploadSession_def early_def tell_def)
qed

lemma waiting_moves:
  "k < length (up_runners u) \<Longrightarrow> part_in r \<noteq> None \<Longrightarrow> waiting (set_runner k r u)"
  "waiting (tell q u) = waiting u" "waiting (add_sample b d n u) = waiting u" "waiting (runner_throws k t u)"
  "k < length (up_runners u) \<Longrightarrow> waiting (uploadPartViaApi k p now u)"
  by (auto simp: waiting_def runner_throws_def Let_def uploadPartViaApi_def nth_list_update intro!: exI[of _ k])

lemma waiting_done:
  "good A {} u \<Longrightarrow> k < length (up_runners u) \<Longrightarrow> part_in (up_runners u ! k) = Some p \<Longrightarrow> p \<in> A \<Longrightarrow>
   waiting (part_done k p t now u)"
  unfolding part_done_def using good_received by (intro waiting_after_parts) (auto simp: good_def)

lemma waiting_step:
  assumes "good A {} u" "unopened u" "waiting u" "awaited u e" "set_option (acknowledged u e) \<subseteq> A"
  shows "waiting (upload_step reachable u e)"
proof (cases e)
  case (HashDone h)
  then show ?thesis by (simp add: upload_step_def ensureUploadSession_def waiting_def)
next
  case (SessionAnswer a now)
  then show ?thesis
    using assms good_opened[OF assms(2)] by (auto simp: upload_step_def awaited_def waiting_def split: answer.splits)
next
  case (ConfirmAnswer k a now)
  then obtain p started where "k < length (up_runners u)" "up_runners u ! k = Confirming p started"
    using assms(4) by (auto simp: awaited_def split: runner.splits)
  then show ?thesis
    using ConfirmAnswer assms(1,5)
    by (auto simp: upload_step_def confirm_answered_def Let_def acknowledged_def waiting_moves split: answer.splits
        intro!: waiting_done[of A] good_frames)
next
  case (ProxyAnswer k a now)
  then obtain p started where "k < length (up_runners u)" "up_runners u ! k = Proxying p started"
    using assms(4) by (auto simp: awaited_def split: runner.splits)
  then show ?thesis
    using ProxyAnswer assms(1,5)
    by (auto simp: upload_step_def proxy_answered_def Let_def acknowledged_def waiting_moves split: answer.splits
        intro!: waiting_done[of A] good_frames)
next
  case (CompleteAnswer a)
  then show ?thesis by (simp add: upload_step_def waiting_def split: answer.splits)
qed (use assms(3,4) in \<open>auto simp: upload_step_def awaited_def sign_answered_def store_answered_def drained_def Let_def waiting_moves
    waiting_def[of "u\<lparr>up_cancelled := True\<rparr>"] waiting_def[of "u\<lparr>up_aborted := True\<rparr>"] waiting_def[of u]
    split: answer.splits runner.splits sum.splits intro!: waiting_moves(1)\<close>)

lemma sum_list_swap: "k < length xs \<Longrightarrow> sum_list (xs[k := x]) + xs ! k = sum_list xs + (x :: nat)"
  by (induction xs arbitrary: k) (auto split: nat.split)

lemma weight_set:
  "k < length (up_runners u) \<Longrightarrow> weight (set_runner k r u) + runner_weight (up_runners u ! k) = weight u + runner_weight r"
  using sum_list_swap[of k "map runner_weight (up_runners u)" "runner_weight r"] by (simp add: weight_def map_update)

lemma weight_simps [simp]:
  "weight (tell q u) = weight u" "weight (add_sample b d n u) = weight u" "weight (reportProgress u) = weight u"
  "weight (u\<lparr>up_received := R\<rparr>) = weight u" "weight (u\<lparr>up_bytes := n\<rparr>) = weight u"
  by (simp_all add: weight_def)

lemma weight_throws:
  assumes "k < length (up_runners u)"
  shows "weight (runner_throws k t u) + runner_weight (up_runners u ! k) \<le> weight u"
proof -
  have "weight (runner_throws k t u) \<le> weight (set_runner k Threw u)"
    by (simp add: runner_throws_def Let_def weight_def phase_weight_def)
  with weight_set[OF assms, of Threw] show ?thesis by simp
qed

lemma weight_proxy:
  "k < length (up_runners u) \<Longrightarrow> weight (uploadPartViaApi k p now u) + runner_weight (up_runners u ! k) = weight u + 1"
  using weight_set[of k u "Proxying p now"] by (simp add: uploadPartViaApi_def)

lemma weight_next:
  assumes "k < length (up_runners u)"
  shows "weight (runner_next k now u) + runner_weight (up_runners u ! k) \<le> weight u"
proof (cases "up_next u < length (up_missing u)")
  case True
  let ?v = "u\<lparr>up_next := Suc (up_next u)\<rparr>" and ?p = "up_missing u ! up_next u"
  have "weight ?v + 4 = weight u" using True by (simp add: weight_def)
  moreover have "weight (start_part k ?p now ?v) + runner_weight (up_runners ?v ! k) \<le> weight ?v + 4"
    using assms weight_throws[of k ?v cancelled_error] weight_proxy[of k ?v ?p now] weight_set[of k ?v "Signing ?p"]
    by (auto simp: start_part_def)
  ultimately show ?thesis using True by (simp add: runner_next_def)
next
  case False
  then show ?thesis using weight_set[OF assms, of Returned] by (simp add: runner_next_def)
qed

lemma weight_after_parts: "weight (after_parts u) \<le> weight u"
  by (auto simp: after_parts_def complete_upload_def Let_def weight_def phase_weight_def)

lemma weight_done:
  assumes "k < length (up_runners u)"
  shows "weight (part_done k p t now u) + runner_weight (up_runners u ! k) \<le> weight u"
proof -
  let ?v = "reportProgress ((tell (PartTransport t) u)\<lparr>up_received := List.insert p (up_received u), up_bytes := up_bytes u + int (length (chunk_of u p))\<rparr>)"
  have c: "chunk_of (tell (PartTransport t) u) p = chunk_of u p" by (simp add: chunk_of_def the_session_def)
  have "weight (runner_next k now ?v) + runner_weight (up_runners ?v ! k) \<le> weight ?v"
    using assms by (intro weight_next) simp
  then show ?thesis
    using weight_after_parts[of "runner_next k now ?v"]
    by (simp add: part_done_def part_received_def Let_def c weight_def[of "tell _ _\<lparr>up_received := _, up_bytes := _\<rparr>"] weight_def[of u])
qed

lemma weight_start: "weight (start_runner now u) \<le> weight u"
  using weight_next[of "length (up_runners u)" "u\<lparr>up_runners := up_runners u @ [Returned]\<rparr>" now]
  by (simp add: start_runner_def weight_def)

lemma missing_kept:
  "up_missing (runner_throws k t u) = up_missing u" "up_missing (runner_next k now u) = up_missing u"
  "up_missing (start_runner now u) = up_missing u" "up_missing ((start_runner now ^^ n) u) = up_missing u"
  "up_missing (after_parts u) = up_missing u" "up_missing (part_done k p tr now u) = up_missing u"
  "up_missing (uploadPartViaApi k p now u) = up_missing u"
proof -
  show throws: "up_missing (runner_throws k t u) = up_missing u" for u k t by (simp add: runner_throws_def Let_def)
  show via: "up_missing (uploadPartViaApi k p now u) = up_missing u" for u p k by (simp add: uploadPartViaApi_def)
  show nxt: "up_missing (runner_next k now u) = up_missing u" for u k
    by (simp add: runner_next_def start_part_def throws via)
  show start: "up_missing (start_runner now u) = up_missing u" for u by (simp add: start_runner_def nxt)
  show "up_missing ((start_runner now ^^ n) u) = up_missing u" by (induction n) (simp_all add: start)
  show aft: "up_missing (after_parts u) = up_missing u" for u by (simp add: after_parts_def complete_upload_def Let_def)
  show "up_missing (part_done k p tr now u) = up_missing u" by (simp add: part_done_def part_received_def Let_def nxt aft)
qed

lemma weight_opened:
  assumes "unopened u" "up_phase u = Opening"
  shows "weight (session_opened s now u) \<le> 1 + 4 * length (up_missing (session_opened s now u))"
proof -
  have "weight ((start_runner now ^^ n) z) \<le> weight z" for z n
    by (induction n) (auto intro: le_trans[OF weight_start])
  then have run: "weight (after_parts ((start_runner now ^^ n) z)) \<le> weight z" for z n
    by (meson le_trans weight_after_parts)
  have "up_runners u = []" "up_missing u = []" "up_next u = 0" using assms by (simp_all add: unopened_def)
  then show ?thesis
    by (auto simp: session_opened_def Let_def mapWithConcurrency_def missing_kept intro!: le_trans[OF run])
      (simp_all add: weight_def phase_weight_def)
qed

lemma lighter:
  assumes "k < length (up_runners u)"
  shows "0 < runner_weight (up_runners u ! k) \<Longrightarrow> weight (runner_throws k t u) < weight u"
    and "1 < runner_weight (up_runners u ! k) \<Longrightarrow> weight (uploadPartViaApi k p now u) < weight u"
    and "runner_weight r < runner_weight (up_runners u ! k) \<Longrightarrow> weight (set_runner k r u) < weight u"
    and "0 < runner_weight (up_runners u ! k) \<Longrightarrow> weight (part_done k p tr now u) < weight u"
  using weight_throws[OF assms, of t] weight_proxy[OF assms, of p now] weight_set[OF assms, of r] weight_done[OF assms, of p tr now]
  by simp_all

lemmas lighter_sampled = lighter[of _ "add_sample b d n u" for b d n u, simplified]

lemma weight_step:
  assumes "opened u" "awaited u e" "is_answer e"
  shows "weight (upload_step reachable u e) < weight u" "up_missing (upload_step reachable u e) = up_missing u"
proof -
  show "up_missing (upload_step reachable u e) = up_missing u"
    using assms by (cases e) (auto simp: upload_step_def awaited_def opened_def sign_answered_def store_answered_def drained_def
        confirm_answered_def proxy_answered_def Let_def missing_kept is_answer_def split: answer.splits runner.splits sum.splits)
  show "weight (upload_step reachable u e) < weight u"
  proof (cases e)
    case (CompleteAnswer a)
    then show ?thesis
      using assms by (auto simp: awaited_def upload_step_def weight_def phase_weight_def split: answer.splits)
  qed (use assms in \<open>auto simp: awaited_def opened_def is_answer_def upload_step_def sign_answered_def store_answered_def drained_def
      confirm_answered_def proxy_answered_def Let_def lighter lighter_sampled split: runner.splits answer.splits sum.splits\<close>)
qed

section \<open>The machine with its history\<close>

definition trace_ok :: "traced \<Rightarrow> bool" where
  "trace_ok t \<longleftrightarrow> good (tr_acks t) {} (tr_upload t) \<and> unopened (tr_upload t) \<and> waiting (tr_upload t) \<and>
     tr_answers t + weight (tr_upload t) \<le> 3 + 4 * length (up_missing (tr_upload t))"

lemma trace_begin:
  "trace_ok (begin_trace (uploadFileResumableBytes f fname mime folder existing hash cancelled samples))"
  by (simp add: trace_ok_def begin_trace_def uploadFileResumableBytes_def ensureUploadSession_def Let_def good_def pool_def core_def
      claimed_def given_def apart_def rest_def put_once_def puts_def is_put_def shape_def fits_def sound_def unopened_def early_def
      waiting_def weight_def phase_weight_def tell_def)

lemma trace_kept:
  assumes "trace_ok t" "trace_awaited t e"
  shows "trace_ok (trace_step reachable t e)"
proof -
  let ?u = "tr_upload t" and ?v = "upload_step reachable (tr_upload t) e"
  let ?A = "tr_acks t \<union> set_option (acknowledged ?u e)"
  have u: "good ?A {} ?u" "unopened ?u" "waiting ?u" "awaited ?u e"
    "tr_answers t + weight ?u \<le> 3 + 4 * length (up_missing ?u)"
    using assms good_mono[of "tr_acks t" "{}" ?u ?A] by (auto simp: trace_ok_def trace_awaited_def)
  have "(if is_answer e then 1 else 0) + tr_answers t + weight ?v \<le> 3 + 4 * length (up_missing ?v)"
  proof (cases "is_answer e \<and> \<not> opened ?u")
    case True
    with u(2,4) consider h where "e = HashDone h" "up_phase ?u = Hashing" | a now where "e = SessionAnswer a now" "up_phase ?u = Opening"
      by (cases e) (auto simp: unopened_def opened_def awaited_def is_answer_def)
    then show ?thesis
    proof cases
      case 1
      with u(2,5) show ?thesis
        by (simp add: unopened_def upload_step_def ensureUploadSession_def weight_def phase_weight_def tell_def)
    next
      case 2
      with u(2) have w: "weight ?u = 2" "up_missing ?u = []" "up_runners ?u = []"
        by (simp_all add: unopened_def weight_def phase_weight_def)
      show ?thesis
      proof (cases a)
        case (Accepted s)
        with 2 have "?v = session_opened s now ?u" by (simp add: upload_step_def)
        with weight_opened[OF u(2) 2(2), of s now] w u(5) show ?thesis by simp
      qed (use 2 w u(5) in \<open>simp_all add: upload_step_def weight_def[of "_\<lparr>up_phase := _\<rparr>"] phase_weight_def\<close>)
    qed
  next
    case False
    then show ?thesis
      using u(4,5) weight_step[of ?u e reachable]
      by (cases "is_answer e") (auto simp: is_answer_def upload_step_def weight_def[of "_\<lparr>up_cancelled := _\<rparr>"] weight_def[of "_\<lparr>up_aborted := _\<rparr>"]
          weight_def[of ?u])
  qed
  then show ?thesis
    using good_step[of ?A ?u e reachable] waiting_step[of ?A ?u e reachable] unopened_step[of ?u e reachable] u
    by (simp add: trace_ok_def trace_step_def)
qed

interpretation uploads: machine trace_awaited "trace_step reachable"
  "begin_trace (uploadFileResumableBytes f fname mime folder existing hash cancelled samples)" trace_ok
  for reachable f fname mime folder existing hash cancelled samples
  by unfold_locales (rule trace_begin, rule trace_kept)

lemma file_ops:
  "up_file (set_runner k r u) = up_file u" "up_file (uploadPartViaApi k p now u) = up_file u" "up_file (runner_throws k t u) = up_file u"
  "up_file (runner_next k now u) = up_file u" "up_file (start_runner now u) = up_file u" "up_file ((start_runner now ^^ n) u) = up_file u"
  "up_file (after_parts u) = up_file u" "up_file (part_done k p tr now u) = up_file u" "up_file (ensureUploadSession h u) = up_file u"
proof -
  show via: "up_file (uploadPartViaApi k p now u) = up_file u" for u p k by (simp add: uploadPartViaApi_def)
  show throws: "up_file (runner_throws k t u) = up_file u" for u k t by (simp add: runner_throws_def Let_def)
  show nxt: "up_file (runner_next k now u) = up_file u" for u k by (simp add: runner_next_def start_part_def throws via)
  show start: "up_file (start_runner now u) = up_file u" for u by (simp add: start_runner_def nxt)
  show "up_file ((start_runner now ^^ n) u) = up_file u" by (induction n) (simp_all add: start)
  show aft: "up_file (after_parts u) = up_file u" for u by (simp add: after_parts_def complete_upload_def Let_def)
  show "up_file (part_done k p tr now u) = up_file u" by (simp add: part_done_def part_received_def Let_def nxt aft)
qed (simp_all add: ensureUploadSession_def)

lemma file_kept: "up_file (upload_step reachable u e) = up_file u"
  by (cases e) (auto simp: upload_step_def session_opened_def mapWithConcurrency_def sign_answered_def store_answered_def drained_def
      confirm_answered_def proxy_answered_def Let_def file_ops split: answer.splits runner.splits sum.splits)

interpretation upload_file: machine trace_awaited "trace_step reachable"
  "begin_trace (uploadFileResumableBytes f fname mime folder existing hash cancelled samples)" "\<lambda>t. up_file (tr_upload t) = f"
  for reachable f fname mime folder existing hash cancelled samples
  by unfold_locales
    (simp_all add: begin_trace_def uploadFileResumableBytes_def Let_def file_ops trace_step_def file_kept)

text \<open>Runs of given events, for examples.\<close>

fun admissible :: "(string \<Rightarrow> bool) \<Rightarrow> traced \<Rightarrow> upload_event list \<Rightarrow> bool" where
  "admissible reachable t [] = True"
| "admissible reachable t (e # es) = (trace_awaited t e \<and> admissible reachable (trace_step reachable t e) es)"

lemma reach_admissible:
  "reach trace_awaited (trace_step reachable) s t \<Longrightarrow> admissible reachable t es \<Longrightarrow>
   reach trace_awaited (trace_step reachable) s (foldl (trace_step reachable) t es)"
  by (induction es arbitrary: t) (auto intro: reach_step)

section \<open>Properties\<close>

text \<open>C8. The completion of an upload is asked for only when the server had every part or has acknowledged its
  bytes, unless the server said that it knows the whole file.\<close>

theorem completion_needs_all_parts:
  assumes "reach trace_awaited (trace_step reachable)
      (begin_trace (uploadFileResumableBytes f fname mime folder existing hash cancelled samples)) t"
    and "Complete sid \<in> set (up_sent (tr_upload t))"
  shows "\<exists>s. up_session (tr_upload t) = Some s \<and> sid = ss_id s \<and>
    (truthy (ss_dedup_source s) \<or> {0..<ss_total_parts s} \<subseteq> given (tr_upload t) \<union> tr_acks t)"
proof -
  have "trace_ok t" using uploads.reach_inv[OF assms(1)] .
  then have g: "set (up_received (tr_upload t)) \<subseteq> given (tr_upload t) \<union> tr_acks t" "list_all (sound (tr_upload t)) (up_sent (tr_upload t))"
    by (simp_all add: trace_ok_def good_def rest_def)
  with assms(2) have "sound (tr_upload t) (Complete sid)" by (auto simp: list_all_iff)
  then obtain s where "up_session (tr_upload t) = Some s" "sid = ss_id s"
      "truthy (ss_dedup_source s) \<or> {0..<ss_total_parts s} \<subseteq> set (up_received (tr_upload t))"
    by (auto simp: sound_def the_session_def all_parts_def)
  with g(1) show ?thesis by blast
qed

definition three_parts :: server_session where
  "three_parts = \<lparr>ss_id = ''u1'', ss_file_id = ''f1'', ss_chunk_size = 2, ss_total_parts = 3, ss_total_size = 5, ss_bytes_received = 2,
     ss_parts_received = Some [1], ss_status = ''open'', ss_expires_at = '''', ss_direct_upload = None, ss_dedup_source = None,
     ss_recycle_match = None\<rparr>"

definition five_bytes :: bytes where "five_bytes = [10, 11, 12, 13, 14]"

definition start_five :: traced where
  "start_five = begin_trace (uploadFileResumableBytes five_bytes ''a.bin'' [] None None (Some ''h'') False [])"

definition full_run :: "upload_event list" where
  "full_run = [SessionAnswer (Accepted three_parts) 0, ProxyAnswer 1 (Accepted ()) 5, ProxyAnswer 0 (Accepted ()) 7]"

definition after_full :: traced where "after_full = foldl (trace_step (\<lambda>_. True)) start_five full_run"

lemma after_full_reach: "reach trace_awaited (trace_step (\<lambda>_. True)) start_five after_full"
proof -
  have "admissible (\<lambda>_. True) start_five full_run" by code_simp
  then show ?thesis unfolding after_full_def by (rule reach_admissible[OF reach_init])
qed

theorem completion_needs_all_parts_witness:
  "{0..<3} \<subseteq> given (tr_upload after_full) \<union> tr_acks after_full"
proof -
  have c: "Complete ''u1'' \<in> set (up_sent (tr_upload after_full))" "up_session (tr_upload after_full) = Some three_parts" by code_simp+
  show ?thesis
    using completion_needs_all_parts[OF after_full_reach[unfolded start_five_def] c(1)] c(2) by (auto simp: three_parts_def)
qed

text \<open>C12. Every upload is settled: at most four answers for each missing part and three more arrive, and until
  the promise is settled the code awaits another.\<close>

theorem upload_settles:
  assumes "reach trace_awaited (trace_step reachable)
      (begin_trace (uploadFileResumableBytes f fname mime folder existing hash cancelled samples)) t"
  shows "tr_answers t \<le> 3 + 4 * length (up_missing (tr_upload t)) \<and>
    ((\<exists>file. up_phase (tr_upload t) = Fulfilled file) \<or> (\<exists>e. up_phase (tr_upload t) = Rejected e) \<or>
     (\<exists>e. is_answer e \<and> awaited (tr_upload t) e))"
proof -
  have ok: "trace_ok t" using uploads.reach_inv[OF assms] .
  let ?u = "tr_upload t"
  have "\<exists>e. is_answer e \<and> awaited ?u e" if "up_phase ?u = Sending"
  proof -
    from ok that obtain k where k: "k < length (up_runners ?u)" "part_in (up_runners ?u ! k) \<noteq> None"
      by (auto simp: trace_ok_def waiting_def)
    show ?thesis
    proof (cases "up_runners ?u ! k")
      case (Signing p)
      with k show ?thesis by (intro exI[of _ "SignAnswer k (Refused undefined) 0"]) (simp add: is_answer_def awaited_def)
    next
      case (Storing p sp st)
      with k show ?thesis by (intro exI[of _ "StoreAnswer k (Inr AbortErr) 0"]) (simp add: is_answer_def awaited_def)
    next
      case (Draining p st)
      with k show ?thesis by (intro exI[of _ "Drained k 0"]) (simp add: is_answer_def awaited_def)
    next
      case (Confirming p st)
      with k show ?thesis by (intro exI[of _ "ConfirmAnswer k (Accepted ()) 0"]) (simp add: is_answer_def awaited_def)
    next
      case (Proxying p st)
      with k show ?thesis by (intro exI[of _ "ProxyAnswer k (Accepted ()) 0"]) (simp add: is_answer_def awaited_def)
    qed (use k in simp_all)
  qed
  moreover have "awaited ?u (HashDone None)" if "up_phase ?u = Hashing" using that by (simp add: awaited_def)
  moreover have "awaited ?u (SessionAnswer (Lost AbortErr) 0)" if "up_phase ?u = Opening" using that by (simp add: awaited_def)
  moreover have "awaited ?u (CompleteAnswer (Lost AbortErr))" if "up_phase ?u = Completing" using that by (simp add: awaited_def)
  moreover have "is_answer (HashDone None)" "is_answer (SessionAnswer (Lost AbortErr) 0)" "is_answer (CompleteAnswer (Lost AbortErr))"
    by (simp_all add: is_answer_def)
  ultimately show ?thesis using ok by (cases "up_phase ?u") (auto simp: trace_ok_def)
qed

theorem upload_settles_witness:
  "tr_answers after_full \<le> 11 \<and> up_phase (tr_upload after_full) = Completing"
proof -
  have c: "length (up_missing (tr_upload after_full)) = 2" "up_phase (tr_upload after_full) = Completing" by code_simp+
  show ?thesis using upload_settles[OF after_full_reach[unfolded start_five_def], THEN conjunct1] c by simp
qed

text \<open>C30. No part goes through the API twice, none that the server had, and what is sent for a part is its slice
  of the file.\<close>

theorem parts_sent_once:
  assumes "reach trace_awaited (trace_step reachable)
      (begin_trace (uploadFileResumableBytes f fname mime folder existing hash cancelled samples)) t"
  shows "puts p (tr_upload t) \<le> 1 \<and>
    (PartPut sid p b \<in> set (up_sent (tr_upload t)) \<longrightarrow>
       p \<notin> given (tr_upload t) \<and> b = part_chunk f (ss_chunk_size (the_session (tr_upload t))) p)"
proof -
  let ?u = "tr_upload t"
  have ok: "trace_ok t" "up_file ?u = f" using uploads.reach_inv[OF assms] upload_file.reach_inv[OF assms] by simp_all
  have "sound ?u (PartPut sid p b)" if "PartPut sid p b \<in> set (up_sent ?u)"
    using ok(1) that by (auto simp: trace_ok_def good_def rest_def list_all_iff)
  moreover have "claimed ?u \<inter> given ?u = {}"
    using ok(1) by (auto simp: trace_ok_def good_def pool_def core_def claimed_def dest: in_set_takeD)
  moreover have "puts p ?u \<le> 1"
    using ok(1) by (simp add: trace_ok_def good_def rest_def put_once_def)
  ultimately show ?thesis using ok(2) by (auto simp: sound_def chunk_of_def)
qed

theorem parts_sent_once_witness:
  "puts 2 (tr_upload after_full) = 1 \<and> part_chunk five_bytes 2 2 = [14]"
proof -
  have c: "PartPut ''u1'' 2 [14] \<in> set (up_sent (tr_upload after_full))" "ss_chunk_size (the_session (tr_upload after_full)) = 2"
    "0 < puts 2 (tr_upload after_full)" by code_simp+
  show ?thesis using parts_sent_once[OF after_full_reach[unfolded start_five_def], of 2 "''u1''" "[14]"] c by simp
qed

text \<open>The slices of a file, put together in the order of the parts, are the file.\<close>

theorem slices_make_the_file:
  assumes "session_fits s (int (length f))"
  shows "concat (map (part_chunk f (ss_chunk_size s)) (map int [0..<nat (ss_total_parts s)])) = f"
proof -
  define c where "c = nat (ss_chunk_size s)"
  have s: "0 < ss_chunk_size s" "0 < int (length f)" "int (length f) \<le> ss_total_parts s * ss_chunk_size s"
    using assms by (auto simp: session_fits_def)
  then have "0 < ss_total_parts s * ss_chunk_size s" by linarith
  with s(1) have n: "0 < ss_total_parts s" by (simp add: zero_less_mult_iff)
  have "part_chunk f (ss_chunk_size s) (int i) = take c (drop (i * c) f)" for i
    using s(1) by (simp add: part_chunk_take_drop c_def nat_mult_distrib)
  then have chunks: "map (part_chunk f (ss_chunk_size s)) (map int [0..<m]) = map (\<lambda>i. take c (drop (i * c) f)) [0..<m]" for m
    by (simp add: comp_def)
  have "concat (map (\<lambda>i. take c (drop (i * c) f)) [0..<m]) = take (m * c) f" for m
    by (induction m) (simp_all add: take_add[symmetric] add.commute)
  moreover have "length f \<le> nat (ss_total_parts s) * c"
    using s n by (simp add: c_def nat_mult_distrib[symmetric] nat_le_iff[symmetric] le_nat_iff)
  ultimately show ?thesis by (simp only: chunks) simp
qed

theorem slices_make_the_file_witness:
  "concat (map (part_chunk five_bytes 2) [0, 1, 2]) = five_bytes"
proof -
  have c: "session_fits three_parts (int (length five_bytes))" "map int [0..<nat (ss_total_parts three_parts)] = [0, 1, 2]"
    "ss_chunk_size three_parts = 2" by code_simp+
  from slices_make_the_file[OF c(1)] c(2,3) show ?thesis by simp
qed

text \<open>With a session that fits the file, every progress report has a percentage between 0 and 100 and at most
  the size of the file as bytes.\<close>

theorem progress_in_range:
  assumes "reach trace_awaited (trace_step reachable)
      (begin_trace (uploadFileResumableBytes f fname mime folder existing hash cancelled samples)) t"
    and "up_session (tr_upload t) = Some s" "session_fits s (int (length f))"
    and "Progress q b n \<in> set (up_sent (tr_upload t))"
  shows "0 \<le> q \<and> q \<le> 100 \<and> 0 \<le> b \<and> b \<le> n"
proof -
  let ?u = "tr_upload t"
  have ok: "trace_ok t" "up_file ?u = f" using uploads.reach_inv[OF assms(1)] upload_file.reach_inv[OF assms(1)] by simp_all
  then have "fits ?u" using assms(2,3) by (simp add: fits_def the_session_def)
  moreover have "sound ?u (Progress q b n)"
    using ok(1) assms(4) by (auto simp: trace_ok_def good_def rest_def list_all_iff)
  ultimately show ?thesis by (simp add: sound_def)
qed

theorem progress_in_range_witness:
  "(60 :: int) \<le> 100 \<and> Progress 60 3 5 \<in> set (up_sent (tr_upload after_full))"
proof -
  have c: "up_session (tr_upload after_full) = Some three_parts" "session_fits three_parts (int (length five_bytes))"
    "Progress 60 3 5 \<in> set (up_sent (tr_upload after_full))" by code_simp+
  show ?thesis using progress_in_range[OF after_full_reach[unfolded start_five_def] c] c(3) by simp
qed


section \<open>After a failure\<close>

definition put_calls :: "upload \<Rightarrow> upload_request list" where
  "put_calls u = filter (\<lambda>r. case r of PartPut _ _ _ \<Rightarrow> True | _ \<Rightarrow> False) (up_sent u)"

definition put_of :: "upload \<Rightarrow> int \<Rightarrow> upload_request" where
  "put_of u q = PartPut (ss_id (the_session u)) q (chunk_of u q)"

text \<open>A rejected upload whose runner \<open>k\<close> waits for the API.\<close>

definition still_sending :: "thrown \<Rightarrow> nat \<Rightarrow> rat \<Rightarrow> upload \<Rightarrow> bool" where
  "still_sending err k now u \<longleftrightarrow> up_phase u = Rejected err \<and> \<not> up_cancelled u \<and> k < length (up_runners u) \<and>
     (\<exists>p. up_runners u ! k = Proxying p now) \<and> ss_direct_upload (the_session u) \<noteq> Some True \<and> up_next u \<le> length (up_missing u)"

lemma sends_next:
  fixes reachable :: "string \<Rightarrow> bool"
  assumes "still_sending err k now u" "up_next u < length (up_missing u)"
  defines "v \<equiv> upload_step reachable u (ProxyAnswer k (Accepted ()) now)"
  shows "still_sending err k now v" "up_missing v = up_missing u" "up_next v = Suc (up_next u)" "put_of v = put_of u"
    "put_calls v = put_calls u @ [put_of u (up_missing u ! up_next u)]"
proof -
  obtain p where p: "up_runners u ! k = Proxying p now" using assms(1) by (auto simp: still_sending_def)
  define w where "w = reportProgress ((tell (PartTransport Proxy) (add_sample True 0 (int (length (chunk_of u p))) u))
    \<lparr>up_received := List.insert p (up_received u), up_bytes := up_bytes u + int (length (chunk_of u p))\<rparr>)"
  have c: "chunk_of (tell (PartTransport Proxy) (add_sample True 0 (int (length (chunk_of u p))) u)) p = chunk_of u p"
    by (simp add: chunk_of_def the_session_def)
  have w: "up_phase w = Rejected err" "\<not> up_cancelled w" "up_missing w = up_missing u" "up_next w = up_next u"
    "up_runners w = up_runners u" "up_session w = up_session u" "up_file w = up_file u" "put_calls w = put_calls u"
    using assms(1) by (simp_all add: w_def still_sending_def put_calls_def reportProgress_def)
  have "v = after_parts (runner_next k now w)"
    using p by (simp add: v_def upload_step_def proxy_answered_def part_done_def part_received_def Let_def c w_def)
  also have "runner_next k now w = uploadPartViaApi k (up_missing u ! up_next u) now (w\<lparr>up_next := Suc (up_next u)\<rparr>)"
    using assms(1,2) w by (simp add: runner_next_def start_part_def still_sending_def the_session_def)
  finally have v: "v = uploadPartViaApi k (up_missing u ! up_next u) now (w\<lparr>up_next := Suc (up_next u)\<rparr>)"
    using w(1) by (simp add: after_parts_def uploadPartViaApi_def)
  show "up_missing v = up_missing u" "up_next v = Suc (up_next u)" "put_of v = put_of u"
    "put_calls v = put_calls u @ [put_of u (up_missing u ! up_next u)]"
    using w by (simp_all add: v uploadPartViaApi_def put_of_def chunk_of_def the_session_def fun_eq_iff put_calls_def)
  show "still_sending err k now v"
    using assms(1,2) w by (simp add: v still_sending_def uploadPartViaApi_def the_session_def)
qed

text \<open>A failure does not stop the other runners: when the promise has been rejected and a runner waits for the
  API, each further good answer makes it send the next part, up to the last one. A retry, which opens the
  same session, then runs beside it.\<close>

theorem failed_upload_keeps_sending:
  assumes "still_sending err k now (tr_upload t)"
  shows "admissible reachable t (replicate (length (up_missing (tr_upload t)) - up_next (tr_upload t)) (ProxyAnswer k (Accepted ()) now)) \<and>
    put_calls (tr_upload (foldl (trace_step reachable) t
      (replicate (length (up_missing (tr_upload t)) - up_next (tr_upload t)) (ProxyAnswer k (Accepted ()) now)))) =
    put_calls (tr_upload t) @ map (put_of (tr_upload t)) (drop (up_next (tr_upload t)) (up_missing (tr_upload t)))"
  using assms
proof (induction "length (up_missing (tr_upload t)) - up_next (tr_upload t)" arbitrary: t)
  case 0
  then show ?case by simp
next
  case (Suc n)
  let ?u = "tr_upload t" and ?e = "ProxyAnswer k (Accepted ()) now"
  let ?t = "trace_step reachable t ?e"
  have m: "up_next ?u < length (up_missing ?u)" using Suc.hyps(2) by linarith
  note s = sends_next[OF Suc.prems m, of reachable]
  have v: "tr_upload ?t = upload_step reachable ?u ?e" by (simp add: trace_step_def)
  have "trace_awaited t ?e" using Suc.prems by (auto simp: still_sending_def trace_awaited_def awaited_def)
  moreover have n: "n = length (up_missing (tr_upload ?t)) - up_next (tr_upload ?t)" using Suc.hyps(2) s by (simp add: v)
  note IH = Suc.hyps(1)[OF n, unfolded n[symmetric]]
  have "drop (up_next ?u) (up_missing ?u) = up_missing ?u ! up_next ?u # drop (Suc (up_next ?u)) (up_missing ?u)"
    using m by (simp add: Cons_nth_drop_Suc)
  ultimately show ?case
    using IH s Suc.hyps(2)[symmetric] by (simp add: v)
qed

definition one_byte_parts :: server_session where
  "one_byte_parts = three_parts\<lparr>ss_chunk_size := 1, ss_total_parts := 5, ss_parts_received := None\<rparr>"

definition failed_run :: "upload_event list" where
  "failed_run = [SessionAnswer (Accepted one_byte_parts) 0,
     ProxyAnswer 0 (Refused \<lparr>rs_status = 507, rs_body = EmptyBody, rs_retry_after = None, rs_content_type = None\<rparr>) 3]"

definition after_failure :: traced where "after_failure = foldl (trace_step (\<lambda>_. True)) start_five failed_run"

theorem failed_upload_keeps_sending_witness:
  "admissible (\<lambda>_. True) start_five failed_run \<and>
   put_calls (tr_upload (foldl (trace_step (\<lambda>_. True)) after_failure (replicate 3 (ProxyAnswer 1 (Accepted ()) 0)))) =
     put_calls (tr_upload after_failure) @ [PartPut ''u1'' 2 [12], PartPut ''u1'' 3 [13], PartPut ''u1'' 4 [14]]"
proof -
  let ?err = "ApiErr \<lparr>ae_message = ''Upload part 0 failed'', ae_code = ''request_failed'', ae_status = 507, ae_fields = None, ae_retry = None\<rparr>"
  have c: "admissible (\<lambda>_. True) start_five failed_run" "length (up_missing (tr_upload after_failure)) - up_next (tr_upload after_failure) = 3"
    "map (put_of (tr_upload after_failure)) (drop (up_next (tr_upload after_failure)) (up_missing (tr_upload after_failure))) =
       [PartPut ''u1'' 2 [12], PartPut ''u1'' 3 [13], PartPut ''u1'' 4 [14]]"
    "up_phase (tr_upload after_failure) = Rejected ?err" "\<not> up_cancelled (tr_upload after_failure)"
    "length (up_runners (tr_upload after_failure)) = 2" "up_runners (tr_upload after_failure) ! 1 = Proxying 1 0"
    "ss_direct_upload (the_session (tr_upload after_failure)) = None"
    "up_next (tr_upload after_failure) \<le> length (up_missing (tr_upload after_failure))" by code_simp+
  then have "still_sending ?err 1 0 (tr_upload after_failure)" by (simp add: still_sending_def)
  from failed_upload_keeps_sending[OF this, of "\<lambda>_. True"] c show ?thesis by simp
qed

end
