(* ===== verification/Downloads.thy ===== *)
theory Downloads
  imports UploadPlan
begin

text \<open>
  The download tray, \<^verbatim>\<open>frontend/src/lib/download-manager.ts\<close>, with the downloading functions of
  \<^verbatim>\<open>frontend/src/api/client.ts\<close> that it runs: the byte transfer with its abort controller, the fall-backs
  of a file download, the waiting for an export or an archive.

  The state has the variables of the two modules (\<open>jobs\<close>, \<open>activeWorkers\<close>, \<open>activeJobId\<close>,
  \<open>activeDownloadAbort\<close>), the asynchronous runs in progress with the point at which each waits, the
  abort controllers that have been aborted, and what the code asked of the server and the browser.
  An event is a call of the panel, the answer to an awaited request, or a timer. A transfer whose
  controller has been aborted can only fail, as the fetch standard says.
\<close>

section \<open>Data\<close>

record dfile =
  df_id :: string
  df_name :: string
  df_size :: int
  df_mime :: "string option"
  df_hls_ready :: "bool option"

record dfolder =
  dd_id :: string
  dd_name :: string

text \<open>The kind of a job with what it downloads.\<close>

datatype payload = FileJob dfile | BulkJob "dfile list" | FolderJob dfolder

datatype dphase = PProcessing | PDownloading | PSaving
datatype dstatus = JQueued | JDownloading | JComplete | JError
datatype dmethod = PresignedBlob | ApiBlob | PresignedDirect

record djob =
  dj_id :: string
  dj_payload :: payload
  dj_label :: string
  dj_size :: int
  dj_bulk_id :: "string option"
  dj_progress :: rat
  dj_phase :: dphase
  dj_indeterminate :: bool
  dj_status :: dstatus
  dj_method :: "dmethod option"
  dj_error :: "string option"

record progress_update =
  pu_phase :: dphase
  pu_percent :: rat
  pu_indeterminate :: "bool option"
  pu_archive :: "string option"

text \<open>A thrown value: whether it is an \<open>ApiError\<close>, and its message.\<close>

record derror =
  de_api :: bool
  de_message :: string

datatype source = FileUrl string | Presigned string | FolderArchive string | BulkArchive string

record job_status =
  js_status :: string
  js_progress :: rat
  js_ready :: bool
  js_archive :: string
  js_size :: "int option"
  js_error :: "string option"

datatype point =
    ExportStarting
  | ExportPolling
  | ExportWaiting
  | Fetching source nat                       \<comment> \<open>source, controller\<close>
  | Reading source nat int int rat rat        \<comment> \<open>loaded, last loaded, time of it, shown percentage\<close>
  | UrlAsked
  | FolderStarting
  | FolderPolling
  | FolderWaiting
  | BulkStarting
  | BulkPolling string
  | BulkWaiting string

record run =
  run_id :: string
  run_payload :: payload
  run_point :: point
  run_name :: string
  run_size :: int

datatype deffect =
    Saved string string                       \<comment> \<open>job, file name: bytes written by the browser\<close>
  | Opened source string                      \<comment> \<open>direct link\<close>
  | CancelFolder string
  | CancelBulk string

record tray =
  jobs :: "djob list"
  activeWorkers :: nat
  activeJobId :: "string option"
  activeDownloadAbort :: "nat option"
  runs :: "run list"
  aborted :: "nat list"
  controllers :: nat
  tray_effects :: "deffect list"

definition MAX_CONCURRENT_DOWNLOADS :: nat where "MAX_CONCURRENT_DOWNLOADS = 2"
definition DOWNLOAD_PHASE_MAX :: rat where "DOWNLOAD_PHASE_MAX = 90"
definition DOWNLOAD_ASYMPTOTE :: rat where "DOWNLOAD_ASYMPTOTE = 98"
definition DOWNLOAD_STALL_MS :: rat where "DOWNLOAD_STALL_MS = 2000"
definition LARGE_ARCHIVE_DIRECT_BYTES :: int where "LARGE_ARCHIVE_DIRECT_BYTES = 256 * 1024 * 1024"

section \<open>Helpers\<close>

definition normalizeStorageErrorMessage :: "string \<Rightarrow> string" where
  "normalizeStorageErrorMessage m =
     (if js_includes ''aggregate capacity'' (js_lower m) \<or> js_includes ''sufficient capacity'' (js_lower m)
      then ''Not enough storage space is available for this upload. Free space or add storage nodes, then try again.''
      else m)"

definition isHlsStoredVideo :: "dfile \<Rightarrow> bool" where
  "isHlsStoredVideo f \<longleftrightarrow> (case df_mime f of None \<Rightarrow> False | Some m \<Rightarrow> js_starts_with ''video/'' m) \<and> df_hls_ready f = Some True"

text \<open>\<open>name.lastIndexOf('.')\<close>, or \<open>None\<close>.\<close>

definition last_dot :: "string \<Rightarrow> nat option" where
  "last_dot s = (case find_index (\<lambda>c. c = CHR ''.'') (rev s) of None \<Rightarrow> None | Some i \<Rightarrow> Some (length s - 1 - i))"

definition ends_with :: "string \<Rightarrow> string \<Rightarrow> bool" where
  "ends_with suffix s = js_starts_with (rev suffix) (rev s)"

definition mp4DownloadFilename :: "string \<Rightarrow> string" where
  "mp4DownloadFilename s =
     (if ends_with ''.mp4'' (js_lower s) then s
      else case last_dot s of
             Some dot \<Rightarrow> if dot > 0 then take dot s @ ''.mp4'' else s @ ''.mp4''
           | None \<Rightarrow> s @ ''.mp4'')"

definition api_error_of :: "string \<Rightarrow> derror" where "api_error_of m = \<lparr>de_api = True, de_message = m\<rparr>"

definition is_cancel :: "derror \<Rightarrow> bool" where "is_cancel e \<longleftrightarrow> de_api e \<and> js_includes ''cancelled'' (de_message e)"

definition updateJob :: "string \<Rightarrow> (djob \<Rightarrow> djob) \<Rightarrow> tray \<Rightarrow> tray" where
  "updateJob i f s = s\<lparr>jobs := map (\<lambda>j. if dj_id j = i then f j else j) (jobs s)\<rparr>"

text \<open>The progress callbacks: only the archives rename the row.\<close>

definition onProgress :: "string \<Rightarrow> progress_update \<Rightarrow> tray \<Rightarrow> tray" where
  "onProgress i p = updateJob i (\<lambda>j. j\<lparr>
     dj_label := (case dj_payload j of FileJob _ \<Rightarrow> dj_label j | _ \<Rightarrow> if truthy (pu_archive p) then the (pu_archive p) else dj_label j),
     dj_progress := pu_percent p, dj_phase := pu_phase p,
     dj_indeterminate := (case pu_indeterminate p of None \<Rightarrow> False | Some b \<Rightarrow> b)\<rparr>)"

definition report :: "string \<Rightarrow> dphase \<Rightarrow> rat \<Rightarrow> bool \<Rightarrow> tray \<Rightarrow> tray" where
  "report i ph pc ind = onProgress i \<lparr>pu_phase = ph, pu_percent = pc, pu_indeterminate = Some ind, pu_archive = None\<rparr>"

definition set_point :: "string \<Rightarrow> point \<Rightarrow> tray \<Rightarrow> tray" where
  "set_point i p s = s\<lparr>runs := map (\<lambda>r. if run_id r = i then r\<lparr>run_point := p\<rparr> else r) (runs s)\<rparr>"

definition set_target :: "string \<Rightarrow> string \<Rightarrow> int \<Rightarrow> tray \<Rightarrow> tray" where
  "set_target i n sz s = s\<lparr>runs := map (\<lambda>r. if run_id r = i then r\<lparr>run_name := n, run_size := sz\<rparr> else r) (runs s)\<rparr>"

definition effect :: "deffect \<Rightarrow> tray \<Rightarrow> tray" where "effect e s = s\<lparr>tray_effects := tray_effects s @ [e]\<rparr>"

section \<open>The transfer of bytes\<close>

definition abortActiveDownload :: "tray \<Rightarrow> tray" where
  "abortActiveDownload s =
     (case activeDownloadAbort s of None \<Rightarrow> s | Some c \<Rightarrow> s\<lparr>aborted := c # aborted s, activeDownloadAbort := None\<rparr>)"

text \<open>The start of \<open>downloadBytesWithFetch\<close>, up to the awaited response.\<close>

definition downloadBytesWithFetch :: "string \<Rightarrow> source \<Rightarrow> tray \<Rightarrow> tray" where
  "downloadBytesWithFetch i src s =
     (let s = abortActiveDownload s; c = controllers s;
          s = s\<lparr>controllers := Suc c, activeDownloadAbort := Some c\<rparr>
      in set_point i (Fetching src c) (report i PDownloading 0 False s))"

section \<open>Runs\<close>

definition start_run :: "djob \<Rightarrow> tray \<Rightarrow> tray" where
  "start_run j s =
     (let i = dj_id j;
          s = s\<lparr>activeJobId := Some i,
                runs := runs s @ [\<lparr>run_id = i, run_payload = dj_payload j, run_point = ExportStarting, run_name = '''', run_size = 0\<rparr>]\<rparr>
      in case dj_payload j of
           FileJob f \<Rightarrow>
             let s = set_target i (df_name f) (df_size f) s in
             if isHlsStoredVideo f then set_point i ExportStarting s else downloadBytesWithFetch i (FileUrl (df_id f)) s
         | BulkJob fs \<Rightarrow> set_point i BulkStarting s
         | FolderJob f \<Rightarrow> set_point i FolderStarting s)"

definition claimNextQueued :: "tray \<Rightarrow> (tray \<times> djob) option" where
  "claimNextQueued s =
     (case find_index (\<lambda>j. dj_status j = JQueued) (jobs s) of
        None \<Rightarrow> None
      | Some k \<Rightarrow> let j = (jobs s ! k)\<lparr>dj_status := JDownloading\<rparr> in Some (s\<lparr>jobs := (jobs s)[k := j]\<rparr>, j))"

lemma activeWorkers_simps [simp]:
  "activeWorkers (updateJob i f s) = activeWorkers s" "activeWorkers (onProgress i up s) = activeWorkers s"
  "activeWorkers (report i ph pc ind s) = activeWorkers s" "activeWorkers (set_point i p s) = activeWorkers s"
  "activeWorkers (set_target i n sz s) = activeWorkers s" "activeWorkers (effect e s) = activeWorkers s"
  "activeWorkers (abortActiveDownload s) = activeWorkers s" "activeWorkers (downloadBytesWithFetch i src s) = activeWorkers s"
  "activeWorkers (start_run j s) = activeWorkers s"
  by (simp_all add: updateJob_def onProgress_def report_def set_point_def set_target_def effect_def abortActiveDownload_def
      downloadBytesWithFetch_def start_run_def Let_def split: option.splits payload.splits)

function pumpDownloadQueue :: "tray \<Rightarrow> tray" where
  "pumpDownloadQueue s =
     (if activeWorkers s < MAX_CONCURRENT_DOWNLOADS
      then case claimNextQueued s of
             None \<Rightarrow> s
           | Some (t, j) \<Rightarrow> pumpDownloadQueue (start_run j (t\<lparr>activeWorkers := Suc (activeWorkers s)\<rparr>))
      else s)"
  by pat_completeness auto
termination
  by (relation "measure (\<lambda>s. MAX_CONCURRENT_DOWNLOADS - activeWorkers s)") auto

declare pumpDownloadQueue.simps [simp del]

text \<open>The end of a run, with the \<open>finally\<close> of the pump.\<close>

definition end_run :: "string \<Rightarrow> tray \<Rightarrow> tray" where
  "end_run i s =
     pumpDownloadQueue (s\<lparr>runs := filter (\<lambda>r. run_id r \<noteq> i) (runs s), activeWorkers := activeWorkers s - 1,
       activeJobId := (if activeJobId s = Some i then None else activeJobId s)\<rparr>)"

text \<open>The \<open>catch\<close> of \<open>runDownloadJob\<close>.\<close>

definition fail_run :: "string \<Rightarrow> derror \<Rightarrow> tray \<Rightarrow> tray" where
  "fail_run i e s =
     (let m = normalizeStorageErrorMessage (de_message e) in
      end_run i
        (if js_includes ''cancelled'' m then s\<lparr>jobs := filter (\<lambda>j. dj_id j \<noteq> i) (jobs s)\<rparr>
         else updateJob i (\<lambda>j. j\<lparr>dj_status := JError, dj_error := Some m, dj_indeterminate := False\<rparr>) s))"

definition complete_run :: "string \<Rightarrow> dmethod \<Rightarrow> string \<Rightarrow> tray \<Rightarrow> tray" where
  "complete_run i mt archive s =
     end_run i (updateJob i (\<lambda>j. j\<lparr>
       dj_label := (case dj_payload j of FileJob _ \<Rightarrow> dj_label j | _ \<Rightarrow> archive),
       dj_progress := 100, dj_phase := PSaving, dj_indeterminate := False, dj_status := JComplete, dj_method := Some mt\<rparr>) s)"

section \<open>What follows a transfer\<close>

definition transfer_done :: "run \<Rightarrow> source \<Rightarrow> tray \<Rightarrow> tray" where
  "transfer_done r src s =
     (let i = run_id r;
          s = report i PSaving 100 False (s\<lparr>activeDownloadAbort := None\<rparr>);
          s = effect (Saved i (run_name r)) s
      in case src of
           FileUrl _ \<Rightarrow> complete_run i ApiBlob (run_name r) s
         | Presigned _ \<Rightarrow> complete_run i PresignedBlob (run_name r) s
         | _ \<Rightarrow> complete_run i ApiBlob (run_name r) (report i PSaving 100 False s))"

definition transfer_failed :: "run \<Rightarrow> source \<Rightarrow> derror \<Rightarrow> tray \<Rightarrow> tray" where
  "transfer_failed r src e s =
     (let i = run_id r in
      case src of
        FileUrl _ \<Rightarrow> if is_cancel e then fail_run i e s else set_point i UrlAsked s
      | Presigned _ \<Rightarrow>
          if is_cancel e then fail_run i e s
          else complete_run i PresignedDirect (run_name r) (report i PSaving 100 False (effect (Opened src (run_name r)) s))
      | _ \<Rightarrow> fail_run i e s)"

definition url_answered :: "run \<Rightarrow> string + derror \<Rightarrow> tray \<Rightarrow> tray" where
  "url_answered r ans s =
     (case ans of Inl url \<Rightarrow> downloadBytesWithFetch (run_id r) (Presigned url) s | Inr e \<Rightarrow> fail_run (run_id r) e s)"

record fetch_response =
  fr_ok :: bool
  fr_status_text :: string
  fr_body :: bool

definition fetch_answered :: "run \<Rightarrow> source \<Rightarrow> nat \<Rightarrow> fetch_response + derror \<Rightarrow> rat \<Rightarrow> tray \<Rightarrow> tray" where
  "fetch_answered r src c ans now s =
     (case ans of
        Inr e \<Rightarrow> transfer_failed r src e s
      | Inl res \<Rightarrow>
          if \<not> fr_ok res
          then transfer_failed r src (api_error_of (if fr_status_text res = [] then ''Download failed'' else fr_status_text res))
                 (s\<lparr>activeDownloadAbort := None\<rparr>)
          else if \<not> fr_body res
          then transfer_failed r src (api_error_of ''Download stream unavailable'') (s\<lparr>activeDownloadAbort := None\<rparr>)
          else set_point (run_id r) (Reading src c 0 0 now 0) s)"

definition chunk_read :: "run \<Rightarrow> source \<Rightarrow> nat \<Rightarrow> int \<Rightarrow> int \<Rightarrow> rat \<Rightarrow> rat \<Rightarrow> int \<Rightarrow> rat \<Rightarrow> tray \<Rightarrow> tray" where
  "chunk_read r src c loaded lastLoaded lastAt shown n now s =
     (let loaded = loaded + n;
          lastAt = (if loaded > lastLoaded then now else lastAt);
          lastLoaded = max lastLoaded loaded;
          pc = (if run_size r > 0 then Some (min DOWNLOAD_PHASE_MAX (js_round (of_int loaded / of_int (run_size r) * DOWNLOAD_PHASE_MAX)))
                else if loaded > 0 then Some (min (DOWNLOAD_PHASE_MAX - 1) 40) else None)
      in case pc of
           None \<Rightarrow> set_point (run_id r) (Reading src c loaded lastLoaded lastAt shown) s
         | Some p \<Rightarrow> report (run_id r) PDownloading p False (set_point (run_id r) (Reading src c loaded lastLoaded lastAt p) s))"

definition stall_ticked :: "run \<Rightarrow> source \<Rightarrow> nat \<Rightarrow> int \<Rightarrow> int \<Rightarrow> rat \<Rightarrow> rat \<Rightarrow> rat \<Rightarrow> tray \<Rightarrow> tray" where
  "stall_ticked r src c loaded lastLoaded lastAt shown now s =
     (if c \<in> set (aborted s) \<or> now - lastAt < DOWNLOAD_STALL_MS then s
      else if shown \<ge> DOWNLOAD_ASYMPTOTE then report (run_id r) PDownloading shown True s
      else let grown = min DOWNLOAD_ASYMPTOTE (shown + max 1 (of_int \<lfloor>(DOWNLOAD_ASYMPTOTE - shown) / 5\<rfloor>)) in
           report (run_id r) PDownloading grown True (set_point (run_id r) (Reading src c loaded lastLoaded lastAt grown) s))"

definition read_failed :: "run \<Rightarrow> source \<Rightarrow> nat \<Rightarrow> derror \<Rightarrow> tray \<Rightarrow> tray" where
  "read_failed r src c e s =
     (let e = (if c \<in> set (aborted s) then api_error_of ''Download cancelled'' else e)
      in transfer_failed r src e (s\<lparr>activeDownloadAbort := None\<rparr>))"

section \<open>Waiting for an export or an archive\<close>

definition export_polled :: "run \<Rightarrow> dfile \<Rightarrow> job_status \<Rightarrow> tray \<Rightarrow> tray" where
  "export_polled r f st s =
     (let i = run_id r;
          s = report i PProcessing (min 99 (js_progress st))
                ((js_status st = ''queued'' \<or> js_status st = ''processing'') \<and> js_progress st \<le> 0) s
      in if js_ready st
         then let s = report i PProcessing 100 False s;
                  s = set_target i (mp4DownloadFilename (df_name f)) (case js_size st of Some n \<Rightarrow> n | None \<Rightarrow> df_size f) s
              in downloadBytesWithFetch i (FileUrl (df_id f)) s
         else if js_status st = ''failed''
         then fail_run i (api_error_of (case js_error st of Some m \<Rightarrow> m | None \<Rightarrow> ''Video export failed'')) s
         else set_point i ExportWaiting s)"

definition archive_polled :: "run \<Rightarrow> source \<Rightarrow> point \<Rightarrow> string \<Rightarrow> job_status \<Rightarrow> tray \<Rightarrow> tray" where
  "archive_polled r src again failure st s =
     (let i = run_id r in
      if js_status st = ''failed'' then fail_run i (api_error_of (case js_error st of Some m \<Rightarrow> m | None \<Rightarrow> failure)) s
      else let s = onProgress i \<lparr>pu_phase = PProcessing, pu_percent = min 99 (js_progress st),
                     pu_indeterminate = Some ((js_status st = ''queued'' \<or> js_status st = ''compressing'' \<or> js_status st = ''processing'') \<and>
                       js_progress st \<le> 0), pu_archive = Some (js_archive st)\<rparr> s
           in if \<not> js_ready st then set_point i again s
              else let n = (case js_size st of Some n \<Rightarrow> n | None \<Rightarrow> 0);
                       s = report i PSaving 90 False (report i PProcessing 100 False s);
                       s = set_target i (js_archive st) n s
                   in if n \<ge> LARGE_ARCHIVE_DIRECT_BYTES
                      then complete_run i PresignedDirect (js_archive st) (report i PSaving 100 False (effect (Opened src (js_archive st)) s))
                      else downloadBytesWithFetch i src s)"

section \<open>Calls of the panel\<close>

definition new_job :: "string \<Rightarrow> payload \<Rightarrow> djob" where
  "new_job i p =
     \<lparr>dj_id = i, dj_payload = p,
      dj_label = (case p of FileJob f \<Rightarrow> df_name f | BulkJob fs \<Rightarrow> show_int (int (length fs)) @ '' files'' | FolderJob f \<Rightarrow> dd_name f),
      dj_size = (case p of FileJob f \<Rightarrow> df_size f | BulkJob fs \<Rightarrow> sum_list (map df_size fs) | FolderJob _ \<Rightarrow> 0),
      dj_bulk_id = None, dj_progress = 0, dj_phase = (case p of FileJob _ \<Rightarrow> PDownloading | _ \<Rightarrow> PProcessing),
      dj_indeterminate = (case p of FileJob _ \<Rightarrow> False | _ \<Rightarrow> True), dj_status = JQueued, dj_method = None, dj_error = None\<rparr>"

definition enqueueJobRow :: "djob \<Rightarrow> tray \<Rightarrow> tray" where
  "enqueueJobRow j s = pumpDownloadQueue (s\<lparr>jobs := jobs s @ [j]\<rparr>)"

definition dismissDownloadJob :: "string \<Rightarrow> tray \<Rightarrow> tray" where
  "dismissDownloadJob i s = s\<lparr>jobs := filter (\<lambda>j. dj_id j \<noteq> i) (jobs s)\<rparr>"

definition cancelDownloadJob :: "string \<Rightarrow> tray \<Rightarrow> tray" where
  "cancelDownloadJob i s =
     (let s' = (case find (\<lambda>j. dj_id j = i) (jobs s) of
                  None \<Rightarrow> s
                | Some j \<Rightarrow>
                    if dj_status j \<noteq> JDownloading then s
                    else let t = (case dj_payload j of
                                    FolderJob f \<Rightarrow> effect (CancelFolder (dd_id f)) s
                                  | BulkJob _ \<Rightarrow> if truthy (dj_bulk_id j) then effect (CancelBulk (the (dj_bulk_id j))) s else s
                                  | FileJob _ \<Rightarrow> s)
                         in if activeJobId t = Some i then (abortActiveDownload t)\<lparr>activeJobId := None\<rparr> else t)
      in pumpDownloadQueue (s'\<lparr>jobs := filter (\<lambda>j. dj_id j \<noteq> i) (jobs s')\<rparr>))"

section \<open>Events\<close>

datatype devent =
    Enqueue string payload
  | Dismiss string
  | Cancel string
  | Started string "string + derror"          \<comment> \<open>of an export or an archive; the text is the id of the bulk job\<close>
  | Polled string "job_status + derror"
  | Timer string
  | FetchAnswer string "fetch_response + derror" rat
  | Chunk string int rat
  | ReadDone string
  | ReadFailed string derror
  | StallTick string rat
  | UrlAnswer string "string + derror"

definition run_of :: "tray \<Rightarrow> string \<Rightarrow> run option" where
  "run_of s i = find (\<lambda>r. run_id r = i) (runs s)"

definition with_run :: "tray \<Rightarrow> string \<Rightarrow> (run \<Rightarrow> tray) \<Rightarrow> tray" where
  "with_run s i f = (case run_of s i of None \<Rightarrow> s | Some r \<Rightarrow> f r)"

definition tray_step :: "tray \<Rightarrow> devent \<Rightarrow> tray" where
  "tray_step s e =
     (case e of
        Enqueue i p \<Rightarrow> enqueueJobRow (new_job i p) s
      | Dismiss i \<Rightarrow> dismissDownloadJob i s
      | Cancel i \<Rightarrow> cancelDownloadJob i s
      | Started i ans \<Rightarrow> with_run s i (\<lambda>r.
          case ans of
            Inr err \<Rightarrow> fail_run i err s
          | Inl job \<Rightarrow>
              (case run_point r of
                 ExportStarting \<Rightarrow> set_point i ExportPolling s
               | FolderStarting \<Rightarrow> set_point i FolderPolling s
               | BulkStarting \<Rightarrow> set_point i (BulkPolling job) (updateJob i (\<lambda>j. j\<lparr>dj_bulk_id := Some job\<rparr>) s)
               | _ \<Rightarrow> s))
      | Polled i ans \<Rightarrow> with_run s i (\<lambda>r.
          case ans of
            Inr err \<Rightarrow> fail_run i err s
          | Inl st \<Rightarrow>
              (case (run_point r, run_payload r) of
                 (ExportPolling, FileJob f) \<Rightarrow> export_polled r f st s
               | (FolderPolling, FolderJob f) \<Rightarrow> archive_polled r (FolderArchive (dd_id f)) FolderWaiting ''Folder archive failed'' st s
               | (BulkPolling job, _) \<Rightarrow> archive_polled r (BulkArchive job) (BulkWaiting job) ''Bulk archive failed'' st s
               | _ \<Rightarrow> s))
      | Timer i \<Rightarrow> with_run s i (\<lambda>r.
          case run_point r of
            ExportWaiting \<Rightarrow> set_point i ExportPolling s
          | FolderWaiting \<Rightarrow> set_point i FolderPolling s
          | BulkWaiting job \<Rightarrow> set_point i (BulkPolling job) s
          | _ \<Rightarrow> s)
      | FetchAnswer i ans now \<Rightarrow> with_run s i (\<lambda>r.
          case run_point r of Fetching src c \<Rightarrow> fetch_answered r src c ans now s | _ \<Rightarrow> s)
      | Chunk i n now \<Rightarrow> with_run s i (\<lambda>r.
          case run_point r of Reading src c l ll la sh \<Rightarrow> chunk_read r src c l ll la sh n now s | _ \<Rightarrow> s)
      | ReadDone i \<Rightarrow> with_run s i (\<lambda>r.
          case run_point r of Reading src c l ll la sh \<Rightarrow> transfer_done r src s | _ \<Rightarrow> s)
      | ReadFailed i err \<Rightarrow> with_run s i (\<lambda>r.
          case run_point r of Reading src c l ll la sh \<Rightarrow> read_failed r src c err s | _ \<Rightarrow> s)
      | StallTick i now \<Rightarrow> with_run s i (\<lambda>r.
          case run_point r of Reading src c l ll la sh \<Rightarrow> stall_ticked r src c l ll la sh now s | _ \<Rightarrow> s)
      | UrlAnswer i ans \<Rightarrow> with_run s i (\<lambda>r.
          case run_point r of UrlAsked \<Rightarrow> url_answered r ans s | _ \<Rightarrow> s))"

text \<open>Client ids are not used twice. After an abort only the failure of the transfer arrives.\<close>

definition at_point :: "tray \<Rightarrow> string \<Rightarrow> (point \<Rightarrow> bool) \<Rightarrow> bool" where
  "at_point s i p \<longleftrightarrow> (case run_of s i of None \<Rightarrow> False | Some r \<Rightarrow> p (run_point r))"

definition tray_enabled :: "tray \<Rightarrow> devent \<Rightarrow> bool" where
  "tray_enabled s e =
     (case e of
        Enqueue i _ \<Rightarrow> i \<notin> dj_id ` set (jobs s) \<and> i \<notin> run_id ` set (runs s)
      | Dismiss _ \<Rightarrow> True
      | Cancel _ \<Rightarrow> True
      | Started i _ \<Rightarrow> at_point s i (\<lambda>p. p \<in> {ExportStarting, FolderStarting, BulkStarting})
      | Polled i _ \<Rightarrow> at_point s i (\<lambda>p. case p of ExportPolling \<Rightarrow> True | FolderPolling \<Rightarrow> True | BulkPolling _ \<Rightarrow> True | _ \<Rightarrow> False)
      | Timer i \<Rightarrow> at_point s i (\<lambda>p. case p of ExportWaiting \<Rightarrow> True | FolderWaiting \<Rightarrow> True | BulkWaiting _ \<Rightarrow> True | _ \<Rightarrow> False)
      | FetchAnswer i ans _ \<Rightarrow> at_point s i (\<lambda>p. case p of Fetching _ c \<Rightarrow> c \<in> set (aborted s) \<longrightarrow> \<not> isl ans | _ \<Rightarrow> False)
      | Chunk i n _ \<Rightarrow> n \<ge> 0 \<and> at_point s i (\<lambda>p. case p of Reading _ c _ _ _ _ \<Rightarrow> c \<notin> set (aborted s) | _ \<Rightarrow> False)
      | ReadDone i \<Rightarrow> at_point s i (\<lambda>p. case p of Reading _ c _ _ _ _ \<Rightarrow> c \<notin> set (aborted s) | _ \<Rightarrow> False)
      | ReadFailed i _ \<Rightarrow> at_point s i (\<lambda>p. case p of Reading _ _ _ _ _ _ \<Rightarrow> True | _ \<Rightarrow> False)
      | StallTick i _ \<Rightarrow> at_point s i (\<lambda>p. case p of Reading _ _ _ _ _ _ \<Rightarrow> True | _ \<Rightarrow> False)
      | UrlAnswer i _ \<Rightarrow> at_point s i (\<lambda>p. p = UrlAsked))"

definition empty_tray :: tray where
  "empty_tray = \<lparr>jobs = [], activeWorkers = 0, activeJobId = None, activeDownloadAbort = None, runs = [], aborted = [], controllers = 0, tray_effects = []\<rparr>"

end
