(* ===== verification/DownloadProps.thy ===== *)
theory DownloadProps
  imports Downloads
begin

text \<open>
  The properties of the download tray: at most two downloads run and a row waits only while two do, no row is
  stuck; and where the code fails, a second transfer that kills the first and a cancelled download that is
  saved all the same.
\<close>

section \<open>The invariant\<close>

definition claims :: "tray \<Rightarrow> bool" where
  "claims s \<longleftrightarrow>
     distinct (map dj_id (jobs s)) \<and> distinct (map run_id (runs s)) \<and>
     activeWorkers s = length (runs s) \<and> length (runs s) \<le> MAX_CONCURRENT_DOWNLOADS \<and>
     (\<forall>j \<in> set (jobs s). (dj_status j = JDownloading \<longrightarrow> dj_id j \<in> run_id ` set (runs s)) \<and>
        (dj_status j = JQueued \<longrightarrow> dj_id j \<notin> run_id ` set (runs s)))"

definition served :: "tray \<Rightarrow> bool" where
  "served s \<longleftrightarrow> claims s \<and> (JQueued \<in> dj_status ` set (jobs s) \<longrightarrow> activeWorkers s = MAX_CONCURRENT_DOWNLOADS)"

text \<open>What the invariant sees of a state.\<close>

definition same_claims :: "tray \<Rightarrow> tray \<Rightarrow> bool" where
  "same_claims s t \<longleftrightarrow> map (\<lambda>j. (dj_id j, dj_status j)) (jobs t) = map (\<lambda>j. (dj_id j, dj_status j)) (jobs s) \<and>
     map run_id (runs t) = map run_id (runs s) \<and> activeWorkers t = activeWorkers s"

lemma claims_pairs:
  "claims s \<longleftrightarrow>
     (let ps = map (\<lambda>j. (dj_id j, dj_status j)) (jobs s); is = map run_id (runs s) in
      distinct (map fst ps) \<and> distinct is \<and> activeWorkers s = length is \<and> length is \<le> MAX_CONCURRENT_DOWNLOADS \<and>
      (\<forall>p \<in> set ps. (snd p = JDownloading \<longrightarrow> fst p \<in> set is) \<and> (snd p = JQueued \<longrightarrow> fst p \<notin> set is)))"
  by (simp add: claims_def Let_def comp_def)

lemma served_pairs:
  "served s \<longleftrightarrow> claims s \<and>
     (JQueued \<in> snd ` set (map (\<lambda>j. (dj_id j, dj_status j)) (jobs s)) \<longrightarrow> activeWorkers s = MAX_CONCURRENT_DOWNLOADS)"
  by (simp add: served_def image_image)

lemma same_claims_keeps: "same_claims s t \<Longrightarrow> claims t = claims s" "same_claims s t \<Longrightarrow> served t = served s"
  by (simp_all only: same_claims_def claims_pairs served_pairs)

lemma same_ops:
  assumes "same_claims s t" "\<And>j. dj_id (f j) = dj_id j" "\<And>j. dj_status (f j) = dj_status j"
  shows "same_claims s (updateJob i f t)"
  using assms by (simp add: same_claims_def updateJob_def comp_def if_distrib cong: if_cong)

lemma same_point: "same_claims s t \<Longrightarrow> same_claims s (set_point i p t)"
  by (simp add: same_claims_def set_point_def comp_def if_distrib cong: if_cong)

lemma same_report: "same_claims s t \<Longrightarrow> same_claims s (onProgress i pu t)" "same_claims s t \<Longrightarrow> same_claims s (report i ph pc ind t)"
  unfolding report_def onProgress_def by (rule same_ops; simp)+

lemma same_abort: "same_claims s t \<Longrightarrow> same_claims s (abortActiveDownload t)"
  by (simp add: same_claims_def abortActiveDownload_def split: option.splits)

lemma same_fetch:
  assumes "same_claims s t"
  shows "same_claims s (downloadBytesWithFetch i src t)"
  unfolding downloadBytesWithFetch_def Let_def
  by (rule same_point, rule same_report) (use same_abort[OF assms] in \<open>simp add: same_claims_def\<close>)

lemma same_fields:
  "same_claims s t \<Longrightarrow> same_claims s (effect e t)" "same_claims s t \<Longrightarrow> same_claims s (t\<lparr>activeDownloadAbort := a\<rparr>)"
  "same_claims s t \<Longrightarrow> same_claims s (t\<lparr>activeJobId := aj\<rparr>)" "same_claims s t \<Longrightarrow> same_claims s (set_target i n sz t)"
  by (simp_all add: same_claims_def effect_def set_target_def comp_def if_distrib cong: if_cong)

lemmas same_intros = same_point same_report same_abort same_fetch same_fields

lemma same_refl: "same_claims s s"
  by (simp add: same_claims_def)

section \<open>The pump\<close>

lemma claimed_row:
  assumes "claims s" "claimNextQueued s = Some (t, j)" "activeWorkers s < MAX_CONCURRENT_DOWNLOADS"
  shows "claims (start_run j (t\<lparr>activeWorkers := Suc (activeWorkers s)\<rparr>))"
proof -
  obtain k where k: "find_index (\<lambda>j. dj_status j = JQueued) (jobs s) = Some k"
    and j: "j = (jobs s ! k)\<lparr>dj_status := JDownloading\<rparr>" "t = s\<lparr>jobs := (jobs s)[k := j]\<rparr>"
    using assms(2) by (auto simp: claimNextQueued_def Let_def split: option.splits)
  from find_index_SomeD[OF k] have l: "k < length (jobs s)" "dj_status (jobs s ! k) = JQueued" by auto
  let ?v = "t\<lparr>activeWorkers := Suc (activeWorkers s), activeJobId := Some (dj_id j),
    runs := runs s @ [\<lparr>run_id = dj_id j, run_payload = dj_payload j, run_point = ExportStarting, run_name = '''', run_size = 0\<rparr>]\<rparr>"
  have fresh: "dj_id (jobs s ! k) \<notin> run_id ` set (runs s)"
    using assms(1) l by (auto simp: claims_def)
  have other: "dj_id x \<noteq> dj_id (jobs s ! k)" if "i < length (jobs s)" "i \<noteq> k" "x = jobs s ! i" for i x
    using assms(1) l that by (auto simp: claims_def distinct_conv_nth)
  have rows: "jobs ?v = (jobs s)[k := j]" using j by simp
  have "(map dj_id (jobs s))[k := dj_id (jobs s ! k)] = map dj_id (jobs s)"
    using l by (metis list_update_id nth_map)
  then have ids: "map dj_id (jobs ?v) = map dj_id (jobs s)"
    unfolding rows map_update by (simp add: j)
  have "claims ?v"
    unfolding claims_def
  proof (intro conjI ballI impI)
    show "distinct (map dj_id (jobs ?v))" unfolding ids using assms(1) by (simp add: claims_def)
    show "distinct (map run_id (runs ?v))" using assms(1) fresh j by (simp add: claims_def)
    show "activeWorkers ?v = length (runs ?v)" "length (runs ?v) \<le> MAX_CONCURRENT_DOWNLOADS"
      using assms(1,3) by (simp_all add: claims_def)
    fix x
    assume "x \<in> set (jobs ?v)"
    then obtain i where "i < length (jobs s)" "x = (jobs s)[k := j] ! i"
      unfolding rows in_set_conv_nth by auto
    then have i: "i < length (jobs s)" "x = (if i = k then j else jobs s ! i)" by (simp_all add: nth_list_update)
    show "dj_id x \<in> run_id ` set (runs ?v)" if "dj_status x = JDownloading"
      using assms(1) i that by (auto simp: claims_def split: if_splits)
    show "dj_id x \<notin> run_id ` set (runs ?v)" if "dj_status x = JQueued"
      using assms(1) i that other[of i] j by (auto simp: claims_def split: if_splits)
  qed
  moreover have "same_claims ?v (start_run j (t\<lparr>activeWorkers := Suc (activeWorkers s)\<rparr>))"
    by (simp add: start_run_def Let_def j same_intros same_refl split: payload.split)
  ultimately show ?thesis by (simp add: same_claims_keeps)
qed

lemma pump_serves: "claims s \<Longrightarrow> served (pumpDownloadQueue s)"
proof (induction s rule: pumpDownloadQueue.induct)
  case (1 s)
  show ?case
  proof (cases "activeWorkers s < MAX_CONCURRENT_DOWNLOADS")
    case True
    show ?thesis
    proof (cases "claimNextQueued s")
      case None
      then have "JQueued \<notin> dj_status ` set (jobs s)"
        by (auto simp: claimNextQueued_def find_index_None_iff Let_def split: option.splits)
      then show ?thesis using 1(2) None by (simp add: pumpDownloadQueue.simps[of s] served_def)
    next
      case (Some p)
      then obtain t j where p: "claimNextQueued s = Some (t, j)" by (cases p) auto
      from 1(1)[OF True p refl claimed_row[OF 1(2) p True]] True p show ?thesis
        by (simp add: pumpDownloadQueue.simps[of s])
    qed
  next
    case False
    with 1(2) show ?thesis by (simp add: pumpDownloadQueue.simps[of s] served_def claims_def)
  qed
qed

section \<open>The end of a run\<close>

lemma claims_filter: "claims s \<Longrightarrow> claims (s\<lparr>jobs := filter P (jobs s)\<rparr>)"
  by (auto simp: claims_def distinct_map_filter)

lemma claims_finished:
  assumes "claims s" "\<And>j. dj_id (f j) = dj_id j" "\<And>j. dj_status (f j) \<in> {JComplete, JError}"
  shows "claims (updateJob i f s)"
proof -
  have "map dj_id (jobs (updateJob i f s)) = map dj_id (jobs s)"
    using assms(2) by (simp add: updateJob_def comp_def if_distrib cong: if_cong)
  then have "distinct (map dj_id (jobs (updateJob i f s)))" using assms(1) by (simp add: claims_def)
  moreover have "dj_status (f j) \<noteq> JDownloading" "dj_status (f j) \<noteq> JQueued" for j using assms(3)[of j] by auto
  ultimately show ?thesis
    using assms(1,2) unfolding claims_def by (auto simp: updateJob_def)
qed

text \<open>A run in progress, in a state that satisfies the invariant.\<close>

definition running :: "string \<Rightarrow> tray \<Rightarrow> bool" where "running i s \<longleftrightarrow> claims s \<and> i \<in> run_id ` set (runs s)"

lemma running_same: "running i s \<Longrightarrow> same_claims s t \<Longrightarrow> running i t"
  unfolding running_def by (metis same_claims_keeps(1) same_claims_def set_map)

lemma end_serves:
  assumes "running i s" "\<And>j. j \<in> set (jobs s) \<Longrightarrow> dj_id j = i \<Longrightarrow> dj_status j \<noteq> JDownloading"
  shows "served (end_run i s)"
proof -
  have d: "distinct (map run_id (runs s))" "i \<in> run_id ` set (runs s)" using assms(1) by (auto simp: running_def claims_def)
  from d have "length (filter (\<lambda>r. run_id r \<noteq> i) rs) = length rs - (if i \<in> run_id ` set rs then 1 else 0)"
    if "distinct (map run_id rs)" for rs :: "run list"
    using that
  proof (induction rs)
    case (Cons r rs)
    then show ?case by (cases rs) auto
  qed simp
  with d have l: "length (filter (\<lambda>r. run_id r \<noteq> i) (runs s)) = length (runs s) - 1" by simp
  have ids: "run_id ` {r \<in> set (runs s). run_id r \<noteq> i} = run_id ` set (runs s) - {i}" by auto
  have "claims (s\<lparr>runs := filter (\<lambda>r. run_id r \<noteq> i) (runs s), activeWorkers := activeWorkers s - 1,
      activeJobId := (if activeJobId s = Some i then None else activeJobId s)\<rparr>)"
    using assms l ids unfolding running_def claims_def by (auto simp: distinct_map_filter)
  then show ?thesis unfolding end_run_def by (rule pump_serves)
qed

lemma updated_row:
  assumes "j \<in> set (jobs (updateJob i f s))" "dj_id j = i"
  obtains x where "j = f x"
  using assms by (auto simp: updateJob_def split: if_splits)

lemma running_finished:
  assumes "running i s" "\<And>j. dj_id (f j) = dj_id j" "\<And>j. dj_status (f j) \<in> {JComplete, JError}"
  shows "running i (updateJob i f s)"
proof -
  have "claims (updateJob i f s)"
    by (rule claims_finished[OF _ assms(2,3)]) (use assms(1) in \<open>simp add: running_def\<close>)
  moreover have "runs (updateJob i f s) = runs s" by (simp add: updateJob_def)
  ultimately show ?thesis using assms(1) by (simp add: running_def)
qed

lemma fail_serves:
  assumes "running i s"
  shows "served (fail_run i e s)"
proof -
  let ?f = "\<lambda>j. j\<lparr>dj_status := JError, dj_error := Some (normalizeStorageErrorMessage (de_message e)), dj_indeterminate := False\<rparr>"
  have "running i (s\<lparr>jobs := filter (\<lambda>j. dj_id j \<noteq> i) (jobs s)\<rparr>)"
    using assms by (simp add: running_def claims_filter)
  moreover have "running i (updateJob i ?f s)"
    using assms by (rule running_finished) simp_all
  moreover have "dj_status j \<noteq> JDownloading" if "j \<in> set (jobs (updateJob i ?f s))" "dj_id j = i" for j
    by (rule updated_row[OF that]) simp
  ultimately have "served (end_run i (s\<lparr>jobs := filter (\<lambda>j. dj_id j \<noteq> i) (jobs s)\<rparr>))" "served (end_run i (updateJob i ?f s))"
    by (auto intro: end_serves)
  then show ?thesis unfolding fail_run_def Let_def by simp
qed

lemma complete_serves:
  assumes "running i s"
  shows "served (complete_run i mt a s)"
proof -
  let ?f = "\<lambda>j. j\<lparr>dj_label := (case dj_payload j of FileJob _ \<Rightarrow> dj_label j | _ \<Rightarrow> a),
    dj_progress := 100, dj_phase := PSaving, dj_indeterminate := False, dj_status := JComplete, dj_method := Some mt\<rparr>"
  have "running i (updateJob i ?f s)"
    using assms by (rule running_finished) simp_all
  moreover have "dj_status j \<noteq> JDownloading" if "j \<in> set (jobs (updateJob i ?f s))" "dj_id j = i" for j
    by (rule updated_row[OF that]) simp
  ultimately show ?thesis unfolding complete_run_def by (rule end_serves)
qed

section \<open>Every step keeps the invariant\<close>

lemma served_running: "served s \<Longrightarrow> run_of s i = Some r \<Longrightarrow> running i s \<and> run_id r = i"
  by (auto simp: served_def running_def run_of_def dest!: find_SomeD)

lemma served_same: "served s \<Longrightarrow> same_claims s t \<Longrightarrow> served t"
  by (simp add: same_claims_keeps)

lemma transfer_done_serves: "running (run_id r) s \<Longrightarrow> served (transfer_done r src s)"
  unfolding transfer_done_def Let_def
  by (cases src) (auto intro!: complete_serves running_same[of _ s] same_intros same_refl)

lemma transfer_failed_serves:
  "running (run_id r) s \<Longrightarrow> served s \<Longrightarrow> served (transfer_failed r src e s)"
  unfolding transfer_failed_def Let_def
  by (cases src) (auto intro!: fail_serves complete_serves running_same[of _ s] same_intros same_refl intro: served_same[of s])

lemma archive_serves:
  "running (run_id r) s \<Longrightarrow> served s \<Longrightarrow> served (archive_polled r src again failure st s)"
  unfolding archive_polled_def Let_def
  by (auto intro!: fail_serves complete_serves running_same[of _ s] same_intros same_refl intro: served_same[of s])

lemma export_serves:
  "running (run_id r) s \<Longrightarrow> served s \<Longrightarrow> served (export_polled r f st s)"
  unfolding export_polled_def Let_def
  by (auto intro!: fail_serves running_same[of _ s] same_intros same_refl intro: served_same[of s])

lemma tray_step_serves:
  assumes "served s" "tray_enabled s e"
  shows "served (tray_step s e)"
proof (cases e)
  case (Enqueue i p)
  have "claims (s\<lparr>jobs := jobs s @ [new_job i p]\<rparr>)"
    using assms Enqueue by (auto simp: served_def claims_def new_job_def tray_enabled_def)
  then show ?thesis using Enqueue by (simp add: tray_step_def enqueueJobRow_def pump_serves)
next
  case (Dismiss i)
  then show ?thesis using assms(1) by (auto simp: tray_step_def dismissDownloadJob_def served_def claims_filter)
next
  case (Cancel i)
  define s' where "s' = (case find (\<lambda>j. dj_id j = i) (jobs s) of
                  None \<Rightarrow> s
                | Some j \<Rightarrow>
                    if dj_status j \<noteq> JDownloading then s
                    else let t = (case dj_payload j of
                                    FolderJob f \<Rightarrow> effect (CancelFolder (dd_id f)) s
                                  | BulkJob _ \<Rightarrow> if truthy (dj_bulk_id j) then effect (CancelBulk (the (dj_bulk_id j))) s else s
                                  | FileJob _ \<Rightarrow> s)
                         in if activeJobId t = Some i then (abortActiveDownload t)\<lparr>activeJobId := None\<rparr> else t)"
  have "same_claims s s'"
    by (auto simp: s'_def Let_def intro!: same_intros same_refl split: option.split payload.split)
  then have "claims s'" using assms(1) by (simp add: same_claims_keeps served_def)
  then show ?thesis using Cancel by (simp add: tray_step_def cancelDownloadJob_def s'_def[symmetric] pump_serves claims_filter)
next
  case (Started i a)
  then show ?thesis
    using assms(1) served_running[OF assms(1), of i]
    by (auto simp: tray_step_def with_run_def intro!: fail_serves same_intros same_refl same_ops intro: served_same[of s]
        split: option.split sum.split point.split)
next
  case (Polled i a)
  then show ?thesis
    using assms(1) served_running[OF assms(1), of i]
    by (auto simp: tray_step_def with_run_def intro!: fail_serves archive_serves export_serves
        split: option.split sum.split point.split payload.split)
next
  case (Timer i)
  then show ?thesis
    using assms(1)
    by (auto simp: tray_step_def with_run_def intro!: same_intros same_refl intro: served_same[of s] split: option.split point.split)
next
  case (FetchAnswer i a now)
  have "served (s\<lparr>activeDownloadAbort := None\<rparr>)"
    using assms(1) by (rule served_same) (intro same_intros same_refl)
  moreover have "running i (s\<lparr>activeDownloadAbort := None\<rparr>)" if "running i s"
    using that by (rule running_same) (intro same_intros same_refl)
  ultimately show ?thesis
    using FetchAnswer assms(1) served_running[OF assms(1), of i]
    by (auto simp: tray_step_def with_run_def fetch_answered_def intro!: transfer_failed_serves same_intros same_refl intro: served_same[of s]
        split: option.split sum.split point.split)
next
  case (Chunk i n now)
  then show ?thesis
    using assms(1)
    by (auto simp: tray_step_def with_run_def chunk_read_def Let_def intro!: same_intros same_refl intro: served_same[of s]
        split: option.split point.split)
next
  case (ReadDone i)
  then show ?thesis
    using assms(1) served_running[OF assms(1), of i]
    by (auto simp: tray_step_def with_run_def intro!: transfer_done_serves split: option.split point.split)
next
  case (ReadFailed i err)
  have "served (s\<lparr>activeDownloadAbort := None\<rparr>)"
    using assms(1) by (rule served_same) (intro same_intros same_refl)
  moreover have "running i (s\<lparr>activeDownloadAbort := None\<rparr>)" if "running i s"
    using that by (rule running_same) (intro same_intros same_refl)
  ultimately show ?thesis
    using ReadFailed assms(1) served_running[OF assms(1), of i]
    by (auto simp: tray_step_def with_run_def read_failed_def Let_def intro!: transfer_failed_serves
        split: option.split point.split)
next
  case (StallTick i now)
  then show ?thesis
    using assms(1)
    by (auto simp: tray_step_def with_run_def stall_ticked_def Let_def intro!: same_intros same_refl intro: served_same[of s]
        split: option.split point.split)
next
  case (UrlAnswer i a)
  then show ?thesis
    using assms(1) served_running[OF assms(1), of i]
    by (auto simp: tray_step_def with_run_def url_answered_def intro!: fail_serves same_intros same_refl intro: served_same[of s]
        split: option.split sum.split point.split)
qed

interpretation download_tray: machine tray_enabled tray_step empty_tray served
  by unfold_locales (simp add: served_def claims_def empty_tray_def, rule tray_step_serves)

section \<open>Properties\<close>

text \<open>C24. At most two downloads run, a row stays queued only while two run, and a row that is shown as downloading
  has a run behind it.\<close>

theorem downloads_are_served:
  assumes "reach tray_enabled tray_step empty_tray s"
  shows "length (runs s) \<le> 2 \<and> list_all (\<lambda>j. (dj_status j = JQueued \<longrightarrow> length (runs s) = 2) \<and>
    (dj_status j = JDownloading \<longrightarrow> dj_id j \<in> run_id ` set (runs s))) (jobs s)"
proof -
  have ok: "served s" using download_tray.reach_inv[OF assms] .
  have "length (runs s) = 2" if "j \<in> set (jobs s)" "dj_status j = JQueued" for j
    using ok that imageI[OF that(1), of dj_status] by (simp add: served_def claims_def MAX_CONCURRENT_DOWNLOADS_def)
  with ok show ?thesis by (auto simp: served_def claims_def MAX_CONCURRENT_DOWNLOADS_def list_all_iff)
qed

fun tray_admits :: "tray \<Rightarrow> devent list \<Rightarrow> bool" where
  "tray_admits s [] = True"
| "tray_admits s (e # es) = (tray_enabled s e \<and> tray_admits (tray_step s e) es)"

lemma tray_reach:
  "reach tray_enabled tray_step empty_tray s \<Longrightarrow> tray_admits s es \<Longrightarrow> reach tray_enabled tray_step empty_tray (foldl tray_step s es)"
  by (induction es arbitrary: s) (auto intro: reach_step)

definition text_file :: "string \<Rightarrow> payload" where
  "text_file i = FileJob \<lparr>df_id = i, df_name = i @ ''.txt'', df_size = 10, df_mime = None, df_hls_ready = None\<rparr>"

definition good_response :: fetch_response where "good_response = \<lparr>fr_ok = True, fr_status_text = ''OK'', fr_body = True\<rparr>"

definition reading_tray :: tray where
  "reading_tray = foldl tray_step empty_tray [Enqueue ''a'' (text_file ''a''), FetchAnswer ''a'' (Inl good_response) 5, Chunk ''a'' 4 7]"

lemma reading_tray_reach: "reach tray_enabled tray_step empty_tray reading_tray"
proof -
  have "tray_admits empty_tray [Enqueue ''a'' (text_file ''a''), FetchAnswer ''a'' (Inl good_response) 5, Chunk ''a'' 4 7]" by code_simp
  then show ?thesis unfolding reading_tray_def by (rule tray_reach[OF reach_init])
qed

theorem downloads_are_served_witness:
  "length (runs reading_tray) = 1 \<and> JQueued \<notin> dj_status ` set (jobs reading_tray)"
proof -
  have "length (runs reading_tray) = 1" by code_simp
  with downloads_are_served[OF reading_tray_reach] show ?thesis by (auto simp: list_all_iff)
qed




lemma none_queued: "JQueued \<notin> dj_status ` set xs \<Longrightarrow> find_index (\<lambda>j. dj_status j = JQueued) xs = None"
  by (auto simp: find_index_None_iff image_iff)

lemma pump_idle:
  assumes "JQueued \<notin> dj_status ` set (jobs s)"
  shows "pumpDownloadQueue s = s"
proof -
  note none_queued[OF assms]
  then show ?thesis by (subst pumpDownloadQueue.simps) (simp add: claimNextQueued_def)
qed


lemma fetch_simps:
  "aborted (downloadBytesWithFetch i src s) = (case activeDownloadAbort s of None \<Rightarrow> aborted s | Some c \<Rightarrow> c # aborted s)"
  "tray_effects (downloadBytesWithFetch i src s) = tray_effects s"
  "dj_status ` set (jobs (downloadBytesWithFetch i src s)) = dj_status ` set (jobs s)"
proof -
  have "map dj_status (jobs (downloadBytesWithFetch i src s)) = map dj_status (jobs s)"
    by (auto simp: downloadBytesWithFetch_def Let_def set_point_def report_def onProgress_def updateJob_def abortActiveDownload_def split: option.split)
  then show "dj_status ` set (jobs (downloadBytesWithFetch i src s)) = dj_status ` set (jobs s)" by (metis set_map)
qed (auto simp: downloadBytesWithFetch_def Let_def set_point_def report_def onProgress_def updateJob_def abortActiveDownload_def split: option.split)




lemma pump_effects: "tray_effects (pumpDownloadQueue s) = tray_effects s"
proof (induction s rule: pumpDownloadQueue.induct)
  case (1 s)
  have "tray_effects (start_run j t) = tray_effects t" for j t
    by (simp add: start_run_def Let_def fetch_simps set_point_def set_target_def split: payload.split)
  with 1 show ?case
    by (subst pumpDownloadQueue.simps) (auto simp: claimNextQueued_def Let_def split: option.splits)
qed

text \<open>Cancelling a download that is not the one started last does not stop it: the row disappears, the bytes keep
  coming, and the file is saved.\<close>

theorem cancelled_download_is_saved:
  assumes "reach tray_enabled tray_step empty_tray s"
    and "j \<in> set (jobs s)" "dj_id j = i" "dj_status j = JDownloading" "dj_payload j = FileJob f" "activeJobId s \<noteq> Some i"
    and "run_of s i = Some r" "run_point r = Reading src c l ll la sh" "c \<notin> set (aborted s)" "JQueued \<notin> dj_status ` set (jobs s)"
  shows "i \<notin> dj_id ` set (jobs (tray_step s (Cancel i))) \<and> tray_enabled (tray_step s (Cancel i)) (ReadDone i) \<and>
    Saved i (run_name r) \<in> set (tray_effects (tray_step (tray_step s (Cancel i)) (ReadDone i)))"
proof -
  have "distinct (map dj_id (jobs s))" using download_tray.reach_inv[OF assms(1)] by (simp add: served_def claims_def)
  then have "find (\<lambda>j. dj_id j = i) (jobs s) = Some j"
    using assms(2,3) by (induction "jobs s") (auto simp: find_Some_iff in_set_conv_nth distinct_conv_nth)
  moreover have "JQueued \<notin> dj_status ` set (filter (\<lambda>j. dj_id j \<noteq> i) (jobs s))" using assms(10) by auto
  ultimately have t: "tray_step s (Cancel i) = s\<lparr>jobs := filter (\<lambda>j. dj_id j \<noteq> i) (jobs s)\<rparr>"
    using assms(4-6) by (simp add: tray_step_def cancelDownloadJob_def Let_def pump_idle)
  have r: "run_of (tray_step s (Cancel i)) i = Some r" "run_id r = i"
    using assms(7) by (auto simp: t run_of_def dest!: find_SomeD)
  have "Saved i (run_name r) \<in> set (tray_effects (transfer_done r src u))" for u
    using r(2) by (cases src) (simp_all add: transfer_done_def Let_def complete_run_def end_run_def pump_effects updateJob_def
        report_def onProgress_def effect_def)
  then show ?thesis
    using r assms(8,9) by (auto simp: tray_enabled_def at_point_def tray_step_def[of _ "ReadDone i"] with_run_def t)
qed

definition two_downloads :: "devent list" where
  "two_downloads = [Enqueue ''a'' (text_file ''a''), FetchAnswer ''a'' (Inl good_response) 5,
     Enqueue ''z'' (FolderJob \<lparr>dd_id = ''d'', dd_name = ''Photos''\<rparr>)]"

theorem cancelled_download_is_saved_witness:
  "Saved ''a'' ''a.txt'' \<in> set (tray_effects (tray_step (tray_step (foldl tray_step empty_tray two_downloads) (Cancel ''a'')) (ReadDone ''a'')))"
proof -
  let ?s = "foldl tray_step empty_tray two_downloads"
  let ?f = "\<lparr>df_id = ''a'', df_name = ''a.txt'', df_size = 10, df_mime = None, df_hls_ready = None\<rparr>"
  have "tray_admits empty_tray two_downloads" by code_simp
  then have s: "reach tray_enabled tray_step empty_tray ?s" by (rule tray_reach[OF reach_init])
  obtain r where r: "run_of ?s ''a'' = Some r" "run_point r = Reading (FileUrl ''a'') 0 0 0 5 0" "run_name r = ''a.txt''"
    by (rule that[of "the (run_of ?s ''a'')"]) code_simp+
  obtain j where j: "j \<in> set (jobs ?s)" "dj_id j = ''a''" "dj_status j = JDownloading" "dj_payload j = FileJob ?f"
    by (rule that[of "hd (jobs ?s)"]) code_simp+
  have c: "activeJobId ?s \<noteq> Some ''a''" "0 \<notin> set (aborted ?s)" "JQueued \<notin> dj_status ` set (jobs ?s)" by code_simp+
  from cancelled_download_is_saved[OF s j c(1) r(1,2) c(2,3)] r(3) show ?thesis by simp
qed

end
