(* ===== verification/Thumbnails.thy ===== *)
theory Thumbnails
  imports Prelude "HOL-Library.AList"
begin

text \<open>
  Thumbnails of the file grid: the queue of loads
  (\<^verbatim>\<open>frontend/src/lib/explorer-thumbnail-queue.ts\<close>) and the cache of what was loaded
  (\<^verbatim>\<open>frontend/src/lib/explorer-thumbnail-cache.ts\<close>).

  A load is numbered by its call of \<open>runExplorerThumbnailLoad\<close>; the number also names its
  \<open>AbortController\<close> and its promise. A parent signal is a number too. The promise that \<open>job.run\<close>
  returns settles by the event \<open>Settle\<close>, which runs the handlers of \<open>then\<close>; the \<open>finally\<close> after them is
  the event \<open>Release\<close>, since a handler may run other code in between.
\<close>

section \<open>The cache\<close>

definition MAX_EXPLORER_THUMBNAIL_CACHE :: nat where "MAX_EXPLORER_THUMBNAIL_CACHE = 400"

record thumbnail_cache =
  entries :: "(string \<times> string) list"
  accessOrder :: "string list"

definition empty_cache :: thumbnail_cache where "empty_cache = \<lparr>entries = [], accessOrder = []\<rparr>"

definition makeExplorerThumbnailCacheKey :: "string \<Rightarrow> string \<Rightarrow> string" where
  "makeExplorerThumbnailCacheKey file_id updated_at = file_id @ '':'' @ updated_at"

definition touchKey :: "string \<Rightarrow> thumbnail_cache \<Rightarrow> thumbnail_cache" where
  "touchKey key c = c\<lparr>accessOrder := remove1 key (accessOrder c) @ [key]\<rparr>"

fun evict :: "string list \<Rightarrow> (string \<times> string) list \<Rightarrow> string list \<times> (string \<times> string) list" where
  "evict [] es = ([], es)"
| "evict (oldest # keys) es =
     (if length (oldest # keys) > MAX_EXPLORER_THUMBNAIL_CACHE
      then if oldest = [] then (keys, es) else evict keys (AList.delete oldest es)
      else (oldest # keys, es))"

definition evictIfNeeded :: "thumbnail_cache \<Rightarrow> thumbnail_cache" where
  "evictIfNeeded c = (let (keys, es) = evict (accessOrder c) (entries c) in c\<lparr>accessOrder := keys, entries := es\<rparr>)"

definition getCachedExplorerThumbnailBlob :: "string \<Rightarrow> thumbnail_cache \<Rightarrow> string option \<times> thumbnail_cache" where
  "getCachedExplorerThumbnailBlob key c =
     (case map_of (entries c) key of None \<Rightarrow> (None, c) | Some blob \<Rightarrow> (Some blob, touchKey key c))"

definition hasCachedExplorerThumbnailBlob :: "string \<Rightarrow> thumbnail_cache \<Rightarrow> bool" where
  "hasCachedExplorerThumbnailBlob key c \<longleftrightarrow> map_of (entries c) key \<noteq> None"

definition putCachedExplorerThumbnailBlob :: "string \<Rightarrow> string \<Rightarrow> thumbnail_cache \<Rightarrow> thumbnail_cache" where
  "putCachedExplorerThumbnailBlob key blob c =
     evictIfNeeded (touchKey key (c\<lparr>entries := AList.update key blob (entries c)\<rparr>))"

definition invalidateExplorerThumbnailCacheForFile :: "string \<Rightarrow> thumbnail_cache \<Rightarrow> thumbnail_cache" where
  "invalidateExplorerThumbnailCacheForFile file_id c =
     fold (\<lambda>key c. if js_starts_with (file_id @ '':'') key
             then c\<lparr>entries := AList.delete key (entries c), accessOrder := remove1 key (accessOrder c)\<rparr> else c)
       (map fst (entries c)) c"

section \<open>The queue\<close>

datatype thumbnail_priority = High | Low

record queue_job =
  qj_id :: nat
  qj_file :: string
  qj_priority :: thumbnail_priority
  qj_parent :: "nat option"

datatype load_outcome = Resolved string | Failed string | AbortError

definition MAX_CONCURRENT_THUMBNAIL_LOADS :: nat where "MAX_CONCURRENT_THUMBNAIL_LOADS = 6"

text \<open>
  \<open>running\<close> holds the jobs whose \<open>run\<close> was called and whose \<open>finally\<close> has not been reached;
  \<open>in_flight\<close> are those of them whose \<open>run\<close> has not settled.
\<close>

record thumbnail_queue =
  activeLoads :: nat
  pendingJobs :: "queue_job list"
  activeControllers :: "(string \<times> nat) list"
  running :: "queue_job list"
  in_flight :: "nat list"
  aborted :: "nat list"
  parent_listeners :: "(nat \<times> string \<times> nat) list"
  aborted_parents :: "nat list"
  settled :: "(nat \<times> load_outcome) list"
  next_load :: nat

definition empty_queue :: thumbnail_queue where
  "empty_queue = \<lparr>activeLoads = 0, pendingJobs = [], activeControllers = [], running = [], in_flight = [],
     aborted = [], parent_listeners = [], aborted_parents = [], settled = [], next_load = 0\<rparr>"

definition jobPriorityValue :: "thumbnail_priority \<Rightarrow> nat" where
  "jobPriorityValue p = (case p of High \<Rightarrow> 0 | Low \<Rightarrow> 1)"

definition sortPendingJobs :: "thumbnail_queue \<Rightarrow> thumbnail_queue" where
  "sortPendingJobs q = q\<lparr>pendingJobs := sort_key (\<lambda>j. jobPriorityValue (qj_priority j)) (pendingJobs q)\<rparr>"

text \<open>A promise keeps its first outcome.\<close>

definition settle :: "nat \<Rightarrow> load_outcome \<Rightarrow> thumbnail_queue \<Rightarrow> thumbnail_queue" where
  "settle i x q = (if i \<in> fst ` set (settled q) then q else q\<lparr>settled := settled q @ [(i, x)]\<rparr>)"

definition start_load :: "queue_job \<Rightarrow> thumbnail_queue \<Rightarrow> thumbnail_queue" where
  "start_load j q =
     q\<lparr>activeLoads := Suc (activeLoads q), activeControllers := AList.update (qj_file j) (qj_id j) (activeControllers q),
       running := running q @ [j], in_flight := in_flight q @ [qj_id j]\<rparr>"

function runNextQueuedThumbnailLoad :: "thumbnail_queue \<Rightarrow> thumbnail_queue" where
  "runNextQueuedThumbnailLoad q =
     (if activeLoads q < MAX_CONCURRENT_THUMBNAIL_LOADS \<and> pendingJobs q \<noteq> []
      then case find_index (\<lambda>j. qj_id j \<notin> set (aborted q)) (pendingJobs q) of
             None \<Rightarrow> q\<lparr>pendingJobs := []\<rparr>
           | Some k \<Rightarrow>
               runNextQueuedThumbnailLoad (start_load (pendingJobs q ! k)
                 (q\<lparr>pendingJobs := take k (pendingJobs q) @ drop (Suc k) (pendingJobs q)\<rparr>))
      else q)"
  by pat_completeness auto
termination
  by (relation "measure (\<lambda>q. MAX_CONCURRENT_THUMBNAIL_LOADS - activeLoads q)") (auto simp: start_load_def)

declare runNextQueuedThumbnailLoad.simps [simp del]

definition cancelExplorerThumbnailLoad :: "string \<Rightarrow> thumbnail_queue \<Rightarrow> thumbnail_queue" where
  "cancelExplorerThumbnailLoad f q =
     (let q = (case map_of (activeControllers q) f of
                 None \<Rightarrow> q
               | Some i \<Rightarrow> q\<lparr>aborted := i # aborted q, activeControllers := AList.delete f (activeControllers q)\<rparr>)
      in q\<lparr>aborted := map qj_id (filter (\<lambda>j. qj_file j = f) (pendingJobs q)) @ aborted q,
           pendingJobs := filter (\<lambda>j. qj_file j \<noteq> f) (pendingJobs q)\<rparr>)"

definition runExplorerThumbnailLoad :: "string \<Rightarrow> thumbnail_priority \<Rightarrow> nat option \<Rightarrow> thumbnail_queue \<Rightarrow> thumbnail_queue" where
  "runExplorerThumbnailLoad f p parent q =
     (let i = next_load q; q = q\<lparr>next_load := Suc i\<rparr>
      in if (case parent of None \<Rightarrow> False | Some a \<Rightarrow> a \<in> set (aborted_parents q)) then settle i AbortError q
         else
           let q = cancelExplorerThumbnailLoad f q;
               q = (case parent of None \<Rightarrow> q | Some a \<Rightarrow> q\<lparr>parent_listeners := parent_listeners q @ [(a, f, i)]\<rparr>);
               q = q\<lparr>pendingJobs := pendingJobs q @ [\<lparr>qj_id = i, qj_file = f, qj_priority = p, qj_parent = parent\<rparr>]\<rparr>
           in runNextQueuedThumbnailLoad (sortPendingJobs q))"

definition abortFromParent :: "string \<times> nat \<Rightarrow> thumbnail_queue \<Rightarrow> thumbnail_queue" where
  "abortFromParent l q =
     (let (f, i) = l in settle i AbortError (cancelExplorerThumbnailLoad f (q\<lparr>aborted := i # aborted q\<rparr>)))"

definition parent_aborts :: "nat \<Rightarrow> thumbnail_queue \<Rightarrow> thumbnail_queue" where
  "parent_aborts a q =
     (if a \<in> set (aborted_parents q) then q
      else fold abortFromParent (map snd (filter (\<lambda>l. fst l = a) (parent_listeners q)))
             (q\<lparr>aborted_parents := a # aborted_parents q, parent_listeners := filter (\<lambda>l. fst l \<noteq> a) (parent_listeners q)\<rparr>))"

text \<open>\<open>job.resolve\<close> and \<open>job.reject\<close>.\<close>

definition job_settles :: "queue_job \<Rightarrow> load_outcome \<Rightarrow> thumbnail_queue \<Rightarrow> thumbnail_queue" where
  "job_settles j x q =
     settle (qj_id j) x (case qj_parent j of
         None \<Rightarrow> q
       | Some a \<Rightarrow> q\<lparr>parent_listeners := filter (\<lambda>l. l \<noteq> (a, qj_file j, qj_id j)) (parent_listeners q)\<rparr>)"

definition job_released :: "queue_job \<Rightarrow> thumbnail_queue \<Rightarrow> thumbnail_queue" where
  "job_released j q =
     runNextQueuedThumbnailLoad (q\<lparr>activeLoads := activeLoads q - 1, running := filter (\<lambda>x. qj_id x \<noteq> qj_id j) (running q),
       activeControllers := (if map_of (activeControllers q) (qj_file j) = Some (qj_id j)
         then AList.delete (qj_file j) (activeControllers q) else activeControllers q)\<rparr>)"

datatype queue_event =
    LoadThumbnail string thumbnail_priority "nat option"
  | CancelThumbnail string
  | ParentAborts nat
  | Settle queue_job load_outcome
  | Release queue_job

fun queue_step :: "thumbnail_queue \<Rightarrow> queue_event \<Rightarrow> thumbnail_queue" where
  "queue_step q (LoadThumbnail f p parent) = runExplorerThumbnailLoad f p parent q"
| "queue_step q (CancelThumbnail f) = cancelExplorerThumbnailLoad f q"
| "queue_step q (ParentAborts a) = parent_aborts a q"
| "queue_step q (Settle j x) = job_settles j x (q\<lparr>in_flight := filter (\<lambda>i. i \<noteq> qj_id j) (in_flight q)\<rparr>)"
| "queue_step q (Release j) = job_released j q"

fun queue_enabled :: "thumbnail_queue \<Rightarrow> queue_event \<Rightarrow> bool" where
  "queue_enabled q (Settle j x) \<longleftrightarrow> j \<in> set (running q) \<and> qj_id j \<in> set (in_flight q)"
| "queue_enabled q (Release j) \<longleftrightarrow> j \<in> set (running q) \<and> qj_id j \<notin> set (in_flight q)"
| "queue_enabled q _ \<longleftrightarrow> True"

end
