(* ===== verification/ThumbnailProps.thy ===== *)
theory ThumbnailProps
  imports Thumbnails
begin

text \<open>
  Properties of the thumbnail queue and cache: the invariant of the queue over every event, loads
  that are cancelled without an answer, and the least-recently-used order of the cache.
\<close>

section \<open>The invariant of the queue\<close>

definition job_ids :: "queue_job list \<Rightarrow> nat set" where
  "job_ids js = qj_id ` set js"

lemma job_ids_simps [simp]:
  "job_ids [] = {}" "job_ids (j # js) = insert (qj_id j) (job_ids js)" "job_ids (js @ ks) = job_ids js \<union> job_ids ks"
  by (auto simp: job_ids_def)

lemma job_ids_iff: "i \<in> job_ids js \<longleftrightarrow> (\<exists>j \<in> set js. qj_id j = i)"
  by (auto simp: job_ids_def)

lemma job_ids_mem: "j \<in> set js \<Longrightarrow> qj_id j \<in> job_ids js"
  by (simp add: job_ids_def)

text \<open>What holds at every moment, also between the calls of \<open>runNextQueuedThumbnailLoad\<close>.\<close>

definition queue_core :: "thumbnail_queue \<Rightarrow> bool" where
  "queue_core q \<longleftrightarrow>
     activeLoads q = length (running q) \<and> distinct (map qj_id (running q)) \<and> distinct (map qj_id (pendingJobs q)) \<and>
     (\<forall>j \<in> set (running q). qj_id j < next_load q \<and>
        (qj_id j \<notin> set (aborted q) \<longrightarrow> map_of (activeControllers q) (qj_file j) = Some (qj_id j))) \<and>
     (\<forall>j \<in> set (pendingJobs q). qj_id j < next_load q \<and> qj_id j \<notin> job_ids (running q) \<and> qj_id j \<notin> set (aborted q) \<and>
        qj_id j \<notin> fst ` set (settled q) \<and> map_of (activeControllers q) (qj_file j) = None) \<and>
     (\<forall>i \<in> set (aborted q) \<union> fst ` set (settled q). i < next_load q) \<and>
     sorted (map (\<lambda>j. jobPriorityValue (qj_priority j)) (pendingJobs q)) \<and> distinct (map qj_file (pendingJobs q)) \<and>
     (\<forall>(a, f, i) \<in> set (parent_listeners q). i < next_load q \<and>
        (\<forall>j \<in> set (pendingJobs q). qj_id j = i \<longrightarrow> qj_file j = f \<and> qj_parent j = Some a)) \<and>
     (\<forall>f i. map_of (activeControllers q) f = Some i \<longrightarrow> i < next_load q \<and> i \<notin> job_ids (pendingJobs q))"

lemma core_facts:
  assumes "queue_core q"
  shows "activeLoads q = length (running q)" "distinct (map qj_id (running q))" "distinct (map qj_id (pendingJobs q))"
    "sorted (map (\<lambda>j. jobPriorityValue (qj_priority j)) (pendingJobs q))" "distinct (map qj_file (pendingJobs q))"
    "\<And>j. j \<in> set (running q) \<Longrightarrow> qj_id j < next_load q"
    "\<And>j. j \<in> set (running q) \<Longrightarrow> qj_id j \<notin> set (aborted q) \<Longrightarrow> map_of (activeControllers q) (qj_file j) = Some (qj_id j)"
    "\<And>j. j \<in> set (pendingJobs q) \<Longrightarrow> qj_id j < next_load q \<and> qj_id j \<notin> job_ids (running q) \<and> qj_id j \<notin> set (aborted q) \<and>
        qj_id j \<notin> fst ` set (settled q) \<and> map_of (activeControllers q) (qj_file j) = None"
    "\<And>i. i \<in> set (aborted q) \<or> i \<in> fst ` set (settled q) \<Longrightarrow> i < next_load q"
    "\<And>a f i. (a, f, i) \<in> set (parent_listeners q) \<Longrightarrow> i < next_load q"
    "\<And>a f i j. (a, f, i) \<in> set (parent_listeners q) \<Longrightarrow> j \<in> set (pendingJobs q) \<Longrightarrow> qj_id j = i \<Longrightarrow> qj_file j = f \<and> qj_parent j = Some a"
    "\<And>f i. map_of (activeControllers q) f = Some i \<Longrightarrow> i < next_load q \<and> i \<notin> job_ids (pendingJobs q)"
  using assms unfolding queue_core_def by blast+

lemma coreI:
  assumes "activeLoads q = length (running q)" "distinct (map qj_id (running q))" "distinct (map qj_id (pendingJobs q))"
    "sorted (map (\<lambda>j. jobPriorityValue (qj_priority j)) (pendingJobs q))" "distinct (map qj_file (pendingJobs q))"
    "\<And>j. j \<in> set (running q) \<Longrightarrow> qj_id j < next_load q"
    "\<And>j. j \<in> set (running q) \<Longrightarrow> qj_id j \<notin> set (aborted q) \<Longrightarrow> map_of (activeControllers q) (qj_file j) = Some (qj_id j)"
    "\<And>j. j \<in> set (pendingJobs q) \<Longrightarrow> qj_id j < next_load q \<and> qj_id j \<notin> job_ids (running q) \<and> qj_id j \<notin> set (aborted q) \<and>
        qj_id j \<notin> fst ` set (settled q) \<and> map_of (activeControllers q) (qj_file j) = None"
    "\<And>i. i \<in> set (aborted q) \<or> i \<in> fst ` set (settled q) \<Longrightarrow> i < next_load q"
    "\<And>a f i. (a, f, i) \<in> set (parent_listeners q) \<Longrightarrow> i < next_load q"
    "\<And>a f i j. (a, f, i) \<in> set (parent_listeners q) \<Longrightarrow> j \<in> set (pendingJobs q) \<Longrightarrow> qj_id j = i \<Longrightarrow> qj_file j = f \<and> qj_parent j = Some a"
    "\<And>f i. map_of (activeControllers q) f = Some i \<Longrightarrow> i < next_load q \<and> i \<notin> job_ids (pendingJobs q)"
  shows "queue_core q"
  unfolding queue_core_def
proof (intro conjI)
  show "\<forall>j \<in> set (running q). qj_id j < next_load q \<and>
      (qj_id j \<notin> set (aborted q) \<longrightarrow> map_of (activeControllers q) (qj_file j) = Some (qj_id j))"
    using assms(6,7) by blast
  show "\<forall>(a, f, i) \<in> set (parent_listeners q). i < next_load q \<and>
      (\<forall>j \<in> set (pendingJobs q). qj_id j = i \<longrightarrow> qj_file j = f \<and> qj_parent j = Some a)"
    using assms(10,11) by blast
  show "\<forall>j \<in> set (pendingJobs q). qj_id j < next_load q \<and> qj_id j \<notin> job_ids (running q) \<and> qj_id j \<notin> set (aborted q) \<and>
      qj_id j \<notin> fst ` set (settled q) \<and> map_of (activeControllers q) (qj_file j) = None"
    using assms(8) by blast
  show "\<forall>i \<in> set (aborted q) \<union> fst ` set (settled q). i < next_load q" using assms(9) by blast
  show "\<forall>f i. map_of (activeControllers q) f = Some i \<longrightarrow> i < next_load q \<and> i \<notin> job_ids (pendingJobs q)" using assms(12) by blast
qed (rule assms(1-5))+

definition queue_inv :: "thumbnail_queue \<Rightarrow> bool" where
  "queue_inv q \<longleftrightarrow> queue_core q \<and> activeLoads q \<le> MAX_CONCURRENT_THUMBNAIL_LOADS \<and>
     (pendingJobs q \<noteq> [] \<longrightarrow> activeLoads q = MAX_CONCURRENT_THUMBNAIL_LOADS)"

lemma map_of_alist [simp]:
  "map_of (AList.update k v al) x = (if x = k then Some v else map_of al x)"
  "map_of (AList.delete k al) x = (if x = k then None else map_of al x)"
  by (simp_all add: update_conv' delete_conv')

lemma first_pending:
  assumes "queue_core q" "pendingJobs q = j # js"
  shows "find_index (\<lambda>j. qj_id j \<notin> set (aborted q)) (pendingJobs q) = Some 0"
  using core_facts(8)[OF assms(1), of j] assms(2) by simp

lemma core_files:
  assumes "queue_core q" "j \<in> set (pendingJobs q)" "k \<in> set (running q)" "qj_file k = qj_file j"
  shows "qj_id k \<in> set (aborted q)"
  using core_facts(7)[OF assms(1,3)] core_facts(8)[OF assms(1,2)] assms(4) by auto

lemma core_start:
  assumes "queue_core q" "pendingJobs q = j # js"
  shows "queue_core (start_load j (q\<lparr>pendingJobs := js\<rparr>))"
proof -
  note core = core_facts[OF assms(1), unfolded assms(2)]
  have other: "qj_id k \<in> set (aborted q)" if "k \<in> set (running q)" "qj_file k = qj_file j" for k
    using core_files[OF assms(1) _ that] assms(2) by simp
  have id: "qj_id j < next_load q" "qj_id j \<notin> job_ids (running q)" "qj_id j \<notin> set (aborted q)" "qj_id j \<notin> job_ids js"
    using core(8)[of j] core(3) by (auto simp: job_ids_def)
  have files: "qj_file k \<noteq> qj_file j" if "k \<in> set js" for k
    using core(5) that by (simp add: image_iff) metis
  let ?q = "start_load j (q\<lparr>pendingJobs := js\<rparr>)"
  have q: "running ?q = running q @ [j]" "pendingJobs ?q = js" "aborted ?q = aborted q" "settled ?q = settled q"
    "next_load ?q = next_load q" "parent_listeners ?q = parent_listeners q" "activeLoads ?q = Suc (activeLoads q)"
    "map_of (activeControllers ?q) f = (if f = qj_file j then Some (qj_id j) else map_of (activeControllers q) f)" for f
    by (simp_all add: start_load_def)
  show ?thesis
  proof (rule coreI; unfold q)
    show "qj_id k < next_load q" if "k \<in> set (running q @ [j])" for k using core(6)[of k] id(1) that by auto
    show "(if qj_file k = qj_file j then Some (qj_id j) else map_of (activeControllers q) (qj_file k)) = Some (qj_id k)"
      if "k \<in> set (running q @ [j])" "qj_id k \<notin> set (aborted q)" for k
      using core(7)[of k] other[of k] that by auto
    show "qj_id k < next_load q \<and> qj_id k \<notin> job_ids (running q @ [j]) \<and> qj_id k \<notin> set (aborted q) \<and> qj_id k \<notin> fst ` set (settled q) \<and>
        (if qj_file k = qj_file j then Some (qj_id j) else map_of (activeControllers q) (qj_file k)) = None" if "k \<in> set js" for k
      using core(8)[of k] id(4) files[OF that] job_ids_mem[OF that] that by auto
    show "i < next_load q \<and> i \<notin> job_ids js"
      if "(if f = qj_file j then Some (qj_id j) else map_of (activeControllers q) f) = Some i" for f i
      using core(12)[of f i] id(1,4) that by (auto split: if_splits)
  qed (use core(1-5) id(2) core(9)  core(10) core(11) in \<open>auto simp: job_ids_def\<close>)
qed

lemma run_next_step:
  assumes "queue_core q"
  shows "runNextQueuedThumbnailLoad q =
    (case pendingJobs q of
       [] \<Rightarrow> q
     | j # js \<Rightarrow>
         if activeLoads q < MAX_CONCURRENT_THUMBNAIL_LOADS
         then runNextQueuedThumbnailLoad (start_load j (q\<lparr>pendingJobs := js\<rparr>)) else q)"
  using first_pending[OF assms]
  by (cases "pendingJobs q") (simp_all add: runNextQueuedThumbnailLoad.simps[of q])

lemma run_next_induct [consumes 1, case_names stop start]:
  assumes "queue_core q"
    and "\<And>q. queue_core q \<Longrightarrow> pendingJobs q = [] \<or> \<not> activeLoads q < MAX_CONCURRENT_THUMBNAIL_LOADS \<Longrightarrow> P q q"
    and "\<And>q j js r. queue_core q \<Longrightarrow> pendingJobs q = j # js \<Longrightarrow> activeLoads q < MAX_CONCURRENT_THUMBNAIL_LOADS \<Longrightarrow>
      P (start_load j (q\<lparr>pendingJobs := js\<rparr>)) r \<Longrightarrow> P q r"
  shows "P q (runNextQueuedThumbnailLoad q)"
  using assms(1)
proof (induction "length (pendingJobs q)" arbitrary: q)
  case 0
  then show ?case using assms(2) run_next_step[OF 0(2)] by simp
next
  case (Suc n)
  then obtain j js where p: "pendingJobs q = j # js" by (cases "pendingJobs q") auto
  show ?case
  proof (cases "activeLoads q < MAX_CONCURRENT_THUMBNAIL_LOADS")
    case True
    have core: "queue_core (start_load j (q\<lparr>pendingJobs := js\<rparr>))" using Suc.prems p by (rule core_start)
    have "length (pendingJobs (start_load j (q\<lparr>pendingJobs := js\<rparr>))) = n" using Suc.hyps(2) p by (simp add: start_load_def)
    then have "P (start_load j (q\<lparr>pendingJobs := js\<rparr>)) (runNextQueuedThumbnailLoad (start_load j (q\<lparr>pendingJobs := js\<rparr>)))"
      using Suc.hyps(1) core by blast
    then show ?thesis using assms(3)[OF Suc.prems p True] run_next_step[OF Suc.prems] p True by simp
  next
    case False
    then show ?thesis using assms(2)[OF Suc.prems] run_next_step[OF Suc.prems] p by simp
  qed
qed

lemma run_next_inv:
  assumes "queue_core q" "activeLoads q \<le> MAX_CONCURRENT_THUMBNAIL_LOADS"
  shows "queue_inv (runNextQueuedThumbnailLoad q)"
proof -
  have "activeLoads q \<le> MAX_CONCURRENT_THUMBNAIL_LOADS \<longrightarrow> queue_inv (runNextQueuedThumbnailLoad q)"
    using assms(1)
    by (induction rule: run_next_induct) (auto simp: queue_inv_def start_load_def)
  with assms(2) show ?thesis by simp
qed

section \<open>Each operation keeps it\<close>

lemma cancel_simps [simp]:
  "activeLoads (cancelExplorerThumbnailLoad f q) = activeLoads q" "running (cancelExplorerThumbnailLoad f q) = running q"
  "settled (cancelExplorerThumbnailLoad f q) = settled q" "parent_listeners (cancelExplorerThumbnailLoad f q) = parent_listeners q"
  "next_load (cancelExplorerThumbnailLoad f q) = next_load q" "in_flight (cancelExplorerThumbnailLoad f q) = in_flight q"
  "aborted_parents (cancelExplorerThumbnailLoad f q) = aborted_parents q"
  "pendingJobs (cancelExplorerThumbnailLoad f q) = filter (\<lambda>j. qj_file j \<noteq> f) (pendingJobs q)"
  "map_of (activeControllers (cancelExplorerThumbnailLoad f q)) x = (if x = f then None else map_of (activeControllers q) x)"
  "set (aborted (cancelExplorerThumbnailLoad f q)) =
     set (aborted q) \<union> set_option (map_of (activeControllers q) f) \<union> qj_id ` {j \<in> set (pendingJobs q). qj_file j = f}"
  by (auto simp: cancelExplorerThumbnailLoad_def Let_def split: option.splits)

lemma job_ids_filter: "job_ids (filter P js) \<subseteq> job_ids js"
  by (auto simp: job_ids_iff)

lemma core_cancel:
  assumes "queue_core q" "\<forall>i \<in> set xs. i < next_load q \<and> (\<forall>j \<in> set (pendingJobs q). qj_id j = i \<longrightarrow> qj_file j = f)"
  shows "queue_core (cancelExplorerThumbnailLoad f (q\<lparr>aborted := xs @ aborted q\<rparr>))"
proof -
  note core = core_facts[OF assms(1)]
  let ?ps = "filter (\<lambda>j. qj_file j \<noteq> f) (pendingJobs q)"
  have same: "j = k" if "j \<in> set (pendingJobs q)" "k \<in> set (pendingJobs q)" "qj_id j = qj_id k" for j k
    using core(3) that by (auto simp: distinct_map dest: inj_onD)
  have kept: "distinct (map qj_id ?ps)" "distinct (map qj_file ?ps)" "sorted (map (\<lambda>j. jobPriorityValue (qj_priority j)) ?ps)"
    using core(3-5) by (auto simp: distinct_map_filter sorted_filter)
  have new: "i < next_load q" "i \<notin> job_ids ?ps" if "i \<in> set xs" for i
    using that assms(2) by (auto simp: job_ids_iff)
  have old: "i < next_load q" "i \<notin> job_ids ?ps" if "map_of (activeControllers q) f = Some i" for i
    using core(12)[OF that] job_ids_filter by auto
  have gone: "qj_id k < next_load q" "qj_id k \<notin> job_ids ?ps" if "k \<in> set (pendingJobs q)" "qj_file k = f" for k
    using core(8)[OF that(1)] same[OF _ that(1)] that(2) by (auto simp: job_ids_iff)
  show ?thesis
  proof (rule coreI)
    fix j
    assume j: "j \<in> set (pendingJobs (cancelExplorerThumbnailLoad f (q\<lparr>aborted := xs @ aborted q\<rparr>)))" (is "j \<in> set (pendingJobs ?q)")
    then have "j \<in> set (pendingJobs q)" "qj_file j \<noteq> f" "qj_id j \<in> job_ids ?ps" by (auto intro: job_ids_mem)
    moreover have "qj_id j \<notin> set (aborted ?q)"
      using core(8)[OF \<open>j \<in> set (pendingJobs q)\<close>] new(2) old(2) gone(2) calculation(3) by auto
    ultimately show "qj_id j < next_load ?q \<and> qj_id j \<notin> job_ids (running ?q) \<and> qj_id j \<notin> set (aborted ?q) \<and>
        qj_id j \<notin> fst ` set (settled ?q) \<and> map_of (activeControllers ?q) (qj_file j) = None"
      using core(8)[of j] by simp
  next
    fix g i
    assume "map_of (activeControllers (cancelExplorerThumbnailLoad f (q\<lparr>aborted := xs @ aborted q\<rparr>))) g = Some i"
    then show "i < next_load (cancelExplorerThumbnailLoad f (q\<lparr>aborted := xs @ aborted q\<rparr>)) \<and>
        i \<notin> job_ids (pendingJobs (cancelExplorerThumbnailLoad f (q\<lparr>aborted := xs @ aborted q\<rparr>)))"
      using core(12)[of g i] job_ids_filter by (auto split: if_splits)
  next
    fix i
    let ?q = "cancelExplorerThumbnailLoad f (q\<lparr>aborted := xs @ aborted q\<rparr>)"
    assume "i \<in> set (aborted ?q) \<or> i \<in> fst ` set (settled ?q)"
    then have "i \<in> set xs \<or> (i \<in> set (aborted q) \<or> i \<in> fst ` set (settled q)) \<or> map_of (activeControllers q) f = Some i
        \<or> (\<exists>k \<in> set (pendingJobs q). qj_file k = f \<and> i = qj_id k)" by auto
    then show "i < next_load ?q" using core(9)[of i] new(1) old(1) gone(1) by auto
  qed (use core kept in auto)
qed

lemma free_after_cancel:
  assumes "queue_core q" "k \<in> set (running q)" "qj_file k = f"
  shows "qj_id k \<in> set (aborted (cancelExplorerThumbnailLoad f q))"
  using assms by (auto simp: queue_core_def)

lemma settle_simps [simp]:
  "activeLoads (settle i x q) = activeLoads q" "running (settle i x q) = running q" "pendingJobs (settle i x q) = pendingJobs q"
  "activeControllers (settle i x q) = activeControllers q" "aborted (settle i x q) = aborted q" "next_load (settle i x q) = next_load q"
  "parent_listeners (settle i x q) = parent_listeners q" "in_flight (settle i x q) = in_flight q"
  "fst ` set (settled (settle i x q)) = insert i (fst ` set (settled q))"
  by (auto simp: settle_def)

lemma core_settle:
  assumes "queue_core q" "i < next_load q" "i \<notin> job_ids (pendingJobs q)"
  shows "queue_core (settle i x q)"
proof -
  note core = core_facts[OF assms(1)]
  show ?thesis
  proof (rule coreI; unfold settle_simps)
    show "k < next_load q" if "k \<in> set (aborted q) \<or> k \<in> insert i (fst ` set (settled q))" for k
      using core(9)[of k] assms(2) that by auto
    show "qj_id j < next_load q \<and> qj_id j \<notin> job_ids (running q) \<and> qj_id j \<notin> set (aborted q) \<and>
        qj_id j \<notin> insert i (fst ` set (settled q)) \<and> map_of (activeControllers q) (qj_file j) = None" if "j \<in> set (pendingJobs q)" for j
      using core(8)[OF that] assms(3) job_ids_mem[OF that] by auto
  qed (fact core)+
qed

text \<open>Fields that the invariant does not read, or only to bound the numbers.\<close>

lemma core_cong:
  assumes "queue_core q" "activeLoads q' = activeLoads q" "running q' = running q" "pendingJobs q' = pendingJobs q"
    "activeControllers q' = activeControllers q" "aborted q' = aborted q" "settled q' = settled q"
    "set (parent_listeners q') \<subseteq> set (parent_listeners q)" "next_load q \<le> next_load q'"
  shows "queue_core q'"
proof -
  note core = core_facts[OF assms(1)]
  show ?thesis
  proof (rule coreI)
    fix j
    assume "j \<in> set (pendingJobs q')"
    then show "qj_id j < next_load q' \<and> qj_id j \<notin> job_ids (running q') \<and> qj_id j \<notin> set (aborted q') \<and>
        qj_id j \<notin> fst ` set (settled q') \<and> map_of (activeControllers q') (qj_file j) = None"
      using core(8)[of j] assms(2-9) by auto
  next
    fix i
    assume "i \<in> set (aborted q') \<or> i \<in> fst ` set (settled q')"
    then show "i < next_load q'" using core(9)[of i] assms(2-9) by auto
  next
    fix f i assume "map_of (activeControllers q') f = Some i"
    then show "i < next_load q' \<and> i \<notin> job_ids (pendingJobs q')" using core(12)[of f i] assms(2-9) by auto
  next
    fix a f i j assume "(a, f, i) \<in> set (parent_listeners q')" "j \<in> set (pendingJobs q')" "qj_id j = i"
    then show "qj_file j = f \<and> qj_parent j = Some a" using core(11)[of a f i j] assms(4,8) by auto
  next
    fix a f i assume "(a, f, i) \<in> set (parent_listeners q')"
    then show "i < next_load q'" using core(10)[of a f i] assms(8,9) by auto
  next
    fix j assume "j \<in> set (running q')"
    then show "qj_id j < next_load q'" using core(6)[of j] assms(3,9) by simp
  next
    fix j assume "j \<in> set (running q')" "qj_id j \<notin> set (aborted q')"
    then show "map_of (activeControllers q') (qj_file j) = Some (qj_id j)" using core(7)[of j] assms(3,5,6) by simp
  qed (simp_all add: core(1-5) assms(2-4))
qed

lemma core_abort_parent:
  assumes "queue_core q" "i < next_load q" "\<forall>j \<in> set (pendingJobs q). qj_id j = i \<longrightarrow> qj_file j = f"
  shows "queue_core (abortFromParent (f, i) q)"
proof -
  have "queue_core (cancelExplorerThumbnailLoad f (q\<lparr>aborted := [i] @ aborted q\<rparr>))"
    using assms by (intro core_cancel) auto
  then show ?thesis using assms(2,3) unfolding abortFromParent_def Let_def prod.case
    by (intro core_settle) (auto simp: job_ids_iff)
qed

lemma abort_parent_simps [simp]:
  "activeLoads (abortFromParent l q) = activeLoads q" "running (abortFromParent l q) = running q"
  "next_load (abortFromParent l q) = next_load q" "set (pendingJobs (abortFromParent l q)) \<subseteq> set (pendingJobs q)"
  by (auto simp: abortFromParent_def split: prod.splits)

lemma core_abort_parents:
  assumes "queue_core q" "\<forall>(f, i) \<in> set ls. i < next_load q \<and> (\<forall>j \<in> set (pendingJobs q). qj_id j = i \<longrightarrow> qj_file j = f)"
  shows "queue_core (fold abortFromParent ls q) \<and> activeLoads (fold abortFromParent ls q) = activeLoads q \<and>
    running (fold abortFromParent ls q) = running q \<and> set (pendingJobs (fold abortFromParent ls q)) \<subseteq> set (pendingJobs q)"
  using assms
proof (induction ls arbitrary: q)
  case (Cons l ls)
  obtain f i where l: "l = (f, i)" by fastforce
  have "queue_core (abortFromParent l q)" using Cons.prems unfolding l by (intro core_abort_parent) auto
  moreover have "\<forall>(f, i) \<in> set ls. i < next_load (abortFromParent l q) \<and>
      (\<forall>j \<in> set (pendingJobs (abortFromParent l q)). qj_id j = i \<longrightarrow> qj_file j = f)"
    using Cons.prems(2) abort_parent_simps(4)[of l q] abort_parent_simps(3)[of l q] by (simp only: list.set) blast
  ultimately have "queue_core (fold abortFromParent ls (abortFromParent l q)) \<and>
      activeLoads (fold abortFromParent ls (abortFromParent l q)) = activeLoads (abortFromParent l q) \<and>
      running (fold abortFromParent ls (abortFromParent l q)) = running (abortFromParent l q) \<and>
      set (pendingJobs (fold abortFromParent ls (abortFromParent l q))) \<subseteq> set (pendingJobs (abortFromParent l q))"
    by (rule Cons.IH)
  then show ?case by (simp only: fold_simps abort_parent_simps(1,2)) (blast dest: subsetD[OF abort_parent_simps(4)])
qed simp

lemma core_parent_aborts:
  assumes "queue_core q"
  shows "queue_core (parent_aborts a q)" "activeLoads (parent_aborts a q) = activeLoads q" "running (parent_aborts a q) = running q"
    "set (pendingJobs (parent_aborts a q)) \<subseteq> set (pendingJobs q)"
proof -
  note core = core_facts[OF assms]
  let ?q = "q\<lparr>aborted_parents := a # aborted_parents q, parent_listeners := filter (\<lambda>l. fst l \<noteq> a) (parent_listeners q)\<rparr>"
  let ?ls = "map snd (filter (\<lambda>l. fst l = a) (parent_listeners q))"
  have "queue_core ?q" using assms by (rule core_cong) auto
  moreover have "\<forall>(f, i) \<in> set ?ls. i < next_load ?q \<and> (\<forall>j \<in> set (pendingJobs ?q). qj_id j = i \<longrightarrow> qj_file j = f)"
    using core(10,11) by auto
  ultimately have "queue_core (fold abortFromParent ?ls ?q) \<and> activeLoads (fold abortFromParent ?ls ?q) = activeLoads ?q \<and>
      running (fold abortFromParent ?ls ?q) = running ?q \<and> set (pendingJobs (fold abortFromParent ?ls ?q)) \<subseteq> set (pendingJobs ?q)"
    by (rule core_abort_parents)
  then show "queue_core (parent_aborts a q)" "activeLoads (parent_aborts a q) = activeLoads q" "running (parent_aborts a q) = running q"
    "set (pendingJobs (parent_aborts a q)) \<subseteq> set (pendingJobs q)"
    using assms by (auto simp: parent_aborts_def)
qed

lemma core_push:
  assumes "queue_core q" "\<forall>j \<in> set (pendingJobs q). qj_file j \<noteq> f" "map_of (activeControllers q) f = None"
    and "qj_id j = next_load q" "qj_file j = f"
    and l: "ls = [] \<or> (\<exists>a. qj_parent j = Some a \<and> ls = [(a, f, qj_id j)])"
  shows "queue_core (sortPendingJobs (q\<lparr>next_load := Suc (next_load q), parent_listeners := parent_listeners q @ ls,
    pendingJobs := pendingJobs q @ [j]\<rparr>))" (is "queue_core ?q")
proof -
  note core = core_facts[OF assms(1)]
  have q: "running ?q = running q" "aborted ?q = aborted q" "settled ?q = settled q" "activeControllers ?q = activeControllers q"
    "next_load ?q = Suc (next_load q)" "parent_listeners ?q = parent_listeners q @ ls" "activeLoads ?q = activeLoads q"
    "pendingJobs ?q = sort_key (\<lambda>j. jobPriorityValue (qj_priority j)) (pendingJobs q @ [j])"
    by (simp_all add: sortPendingJobs_def)
  have ids: "qj_id k < next_load q" if "k \<in> set (pendingJobs q)" for k using core(8)[OF that] by simp
  have m: "mset (map h (pendingJobs ?q)) = mset (map h (pendingJobs q @ [j]))" for h :: "queue_job \<Rightarrow> 'b" by (simp add: q)
  have dist: "distinct (map h (pendingJobs ?q)) = distinct (map h (pendingJobs q @ [j]))" for h :: "queue_job \<Rightarrow> 'b"
    using m by (rule mset_eq_imp_distinct_iff)
  have mem: "set (pendingJobs ?q) = insert j (set (pendingJobs q))" by (simp add: q)
  show ?thesis
  proof (rule coreI)
    show "distinct (map qj_id (pendingJobs ?q))" unfolding dist using core(3) ids assms(4) by fastforce
    show "distinct (map qj_file (pendingJobs ?q))" unfolding dist using core(5) assms(2,5) by auto
    show "sorted (map (\<lambda>j. jobPriorityValue (qj_priority j)) (pendingJobs ?q))" unfolding q by (rule sorted_sort_key)
    fix k assume "k \<in> set (pendingJobs ?q)"
    then consider "k \<in> set (pendingJobs q)" | "k = j" using mem by auto
    then show "qj_id k < next_load ?q \<and> qj_id k \<notin> job_ids (running ?q) \<and> qj_id k \<notin> set (aborted ?q) \<and>
        qj_id k \<notin> fst ` set (settled ?q) \<and> map_of (activeControllers ?q) (qj_file k) = None"
    proof cases
      case 1
      then show ?thesis using core(8)[of k] unfolding q by auto
    next
      case 2
      have "next_load q \<notin> job_ids (running q)" using core(6) by (metis job_ids_iff less_irrefl)
      moreover have "next_load q \<notin> set (aborted q)" "next_load q \<notin> fst ` set (settled q)"
        using core(9)[of "next_load q"] by auto
      ultimately show ?thesis using 2 assms(3-5) unfolding q by simp
    qed
  next
    fix g i assume "map_of (activeControllers ?q) g = Some i"
    then show "i < next_load ?q \<and> i \<notin> job_ids (pendingJobs ?q)"
      using core(12)[of g i] assms(4) unfolding job_ids_iff mem q by auto
  next
    fix a g i k assume "(a, g, i) \<in> set (parent_listeners ?q)" "k \<in> set (pendingJobs ?q)" "qj_id k = i"
    then show "qj_file k = g \<and> qj_parent k = Some a"
      using core(10)[of a g i] core(11)[of a g i k] l assms(4,5) ids[of k] unfolding mem q by fastforce
  next
    fix a g i assume "(a, g, i) \<in> set (parent_listeners ?q)"
    then show "i < next_load ?q" using core(10)[of a g i] l assms(4) unfolding q by auto
  next
    fix i assume "i \<in> set (aborted ?q) \<or> i \<in> fst ` set (settled ?q)"
    then show "i < next_load ?q" using core(9)[of i] unfolding q by simp
  next
    fix k assume "k \<in> set (running ?q)"
    then show "qj_id k < next_load ?q" using core(6)[of k] unfolding q by simp
  next
    fix k assume "k \<in> set (running ?q)" "qj_id k \<notin> set (aborted ?q)"
    then show "map_of (activeControllers ?q) (qj_file k) = Some (qj_id k)" using core(7)[of k] unfolding q by simp
  qed (simp_all add: q(1,7) core(1,2))
qed

text \<open>What a call of \<open>runExplorerThumbnailLoad\<close> with a live parent has done when it starts the loop.\<close>

definition queued_load :: "string \<Rightarrow> thumbnail_priority \<Rightarrow> nat option \<Rightarrow> thumbnail_queue \<Rightarrow> thumbnail_queue" where
  "queued_load f p parent q =
     sortPendingJobs ((cancelExplorerThumbnailLoad f q)\<lparr>next_load := Suc (next_load q),
       parent_listeners := parent_listeners q @ (case parent of None \<Rightarrow> [] | Some a \<Rightarrow> [(a, f, next_load q)]),
       pendingJobs := filter (\<lambda>j. qj_file j \<noteq> f) (pendingJobs q) @
         [\<lparr>qj_id = next_load q, qj_file = f, qj_priority = p, qj_parent = parent\<rparr>]\<rparr>)"

lemma load_cases:
  "runExplorerThumbnailLoad f p parent q =
     (if (case parent of None \<Rightarrow> False | Some a \<Rightarrow> a \<in> set (aborted_parents q)) then settle (next_load q) AbortError (q\<lparr>next_load := Suc (next_load q)\<rparr>)
      else runNextQueuedThumbnailLoad (queued_load f p parent q))"
proof -
  have c: "cancelExplorerThumbnailLoad f (q\<lparr>next_load := n\<rparr>) = (cancelExplorerThumbnailLoad f q)\<lparr>next_load := n\<rparr>" for n
    by (rule thumbnail_queue.equality) (auto simp: cancelExplorerThumbnailLoad_def Let_def split: option.split)
  show ?thesis
    unfolding runExplorerThumbnailLoad_def queued_load_def Let_def c
    by (cases parent) (auto intro!: arg_cong[where f = "\<lambda>q. runNextQueuedThumbnailLoad (sortPendingJobs q)"] thumbnail_queue.equality)
qed

lemma core_queued:
  assumes "queue_core q"
  shows "queue_core (queued_load f p parent q)" "activeLoads (queued_load f p parent q) = activeLoads q"
proof -
  have "queue_core (cancelExplorerThumbnailLoad f (q\<lparr>aborted := [] @ aborted q\<rparr>))" using assms by (intro core_cancel) auto
  then have c: "queue_core (cancelExplorerThumbnailLoad f q)" by simp
  show "queue_core (queued_load f p parent q)"
    using core_push[OF c, of f "\<lparr>qj_id = next_load q, qj_file = f, qj_priority = p, qj_parent = parent\<rparr>"
        "case parent of None \<Rightarrow> [] | Some a \<Rightarrow> [(a, f, next_load q)]"]
    by (cases parent) (simp_all add: queued_load_def)
qed (simp add: queued_load_def sortPendingJobs_def)

lemma load_inv: "queue_inv q \<Longrightarrow> queue_inv (runExplorerThumbnailLoad f p parent q)"
proof -
  assume inv: "queue_inv q"
  then have core: "queue_core q" "activeLoads q \<le> MAX_CONCURRENT_THUMBNAIL_LOADS" by (simp_all add: queue_inv_def)
  have "next_load q \<notin> job_ids (pendingJobs q)" using core_facts(8)[OF core(1)] by (metis job_ids_iff less_irrefl)
  moreover have "queue_core (q\<lparr>next_load := Suc (next_load q)\<rparr>)" using core(1) by (rule core_cong) auto
  ultimately have "queue_core (settle (next_load q) AbortError (q\<lparr>next_load := Suc (next_load q)\<rparr>))" by (intro core_settle) auto
  then show ?thesis
    using inv run_next_inv[OF core_queued(1)[OF core(1)]] core(2) core_queued(2)[OF core(1)]
    by (auto simp: load_cases queue_inv_def)
qed

lemma cancel_inv: "queue_inv q \<Longrightarrow> queue_inv (cancelExplorerThumbnailLoad f q)"
  using core_cancel[of q "[]" f] by (auto simp: queue_inv_def)

lemma abort_inv: "queue_inv q \<Longrightarrow> queue_inv (parent_aborts a q)"
  using core_parent_aborts[of q a] by (auto simp: queue_inv_def)

lemma settle_inv:
  assumes "queue_inv q" "j \<in> set (running q)"
  shows "queue_inv (job_settles j x (q\<lparr>in_flight := is\<rparr>))"
proof -
  have core: "queue_core q" using assms(1) by (simp add: queue_inv_def)
  let ?q = "case qj_parent j of
      None \<Rightarrow> q\<lparr>in_flight := is\<rparr>
    | Some a \<Rightarrow> q\<lparr>in_flight := is, parent_listeners := filter (\<lambda>l. l \<noteq> (a, qj_file j, qj_id j)) (parent_listeners q)\<rparr>"
  have "queue_core ?q" using core by (rule core_cong) (auto split: option.splits)
  moreover have "pendingJobs ?q = pendingJobs q" "next_load ?q = next_load q" "activeLoads ?q = activeLoads q" by (auto split: option.splits)
  moreover have "qj_id j \<notin> job_ids (pendingJobs q)"
    using core_facts(8)[OF core] job_ids_mem[OF assms(2)] by (metis job_ids_iff)
  moreover have "job_settles j x (q\<lparr>in_flight := is\<rparr>) = settle (qj_id j) x ?q"
    by (auto simp: job_settles_def split: option.split)
  ultimately show ?thesis
    using core_settle[of ?q "qj_id j" x] core_facts(6)[OF core assms(2)] assms(1) by (simp add: queue_inv_def)
qed

definition after_load :: "queue_job \<Rightarrow> thumbnail_queue \<Rightarrow> thumbnail_queue" where
  "after_load j q = q\<lparr>activeLoads := activeLoads q - 1, running := filter (\<lambda>x. qj_id x \<noteq> qj_id j) (running q),
    activeControllers := (if map_of (activeControllers q) (qj_file j) = Some (qj_id j)
      then AList.delete (qj_file j) (activeControllers q) else activeControllers q)\<rparr>"

lemma job_released_eq: "job_released j q = runNextQueuedThumbnailLoad (after_load j q)"
  by (simp add: job_released_def after_load_def)

lemma after_load_simps [simp]:
  "activeLoads (after_load j q) = activeLoads q - 1" "running (after_load j q) = filter (\<lambda>x. qj_id x \<noteq> qj_id j) (running q)"
  "pendingJobs (after_load j q) = pendingJobs q" "aborted (after_load j q) = aborted q" "settled (after_load j q) = settled q"
  "next_load (after_load j q) = next_load q" "parent_listeners (after_load j q) = parent_listeners q"
  "map_of (activeControllers (after_load j q)) x =
     (if x = qj_file j \<and> map_of (activeControllers q) x = Some (qj_id j) then None else map_of (activeControllers q) x)"
  by (auto simp: after_load_def)

lemma core_release:
  assumes "queue_core q" "j \<in> set (running q)"
  shows "queue_core (after_load j q)"
proof -
  note facts = core_facts[OF assms(1)]
  have count: "length (filter (\<lambda>x. qj_id x \<noteq> qj_id j) xs) = length xs - 1" if "distinct (map qj_id xs)" "j \<in> set xs" for xs
  proof -
    have "filter (\<lambda>x. qj_id x = qj_id j) xs = [j]"
      using that by (induction xs) (auto simp: filter_empty_conv rev_image_eqI)
    then show ?thesis using sum_length_filter_compl[of "\<lambda>x. qj_id x = qj_id j" xs] by simp
  qed
  show ?thesis
  proof (rule coreI)
    show "activeLoads (after_load j q) = length (running (after_load j q))" using count[OF facts(2) assms(2)] facts(1) by simp
    show "distinct (map qj_id (running (after_load j q)))" using facts(2) by (simp add: distinct_map_filter)
    fix k assume k: "k \<in> set (running (after_load j q))"
    then show "qj_id k < next_load (after_load j q)" using facts(6)[of k] by simp
    assume "qj_id k \<notin> set (aborted (after_load j q))"
    then show "map_of (activeControllers (after_load j q)) (qj_file k) = Some (qj_id k)" using facts(7)[of k] k by auto
  next
    fix k assume "k \<in> set (pendingJobs (after_load j q))"
    then show "qj_id k < next_load (after_load j q) \<and> qj_id k \<notin> job_ids (running (after_load j q)) \<and> qj_id k \<notin> set (aborted (after_load j q)) \<and>
        qj_id k \<notin> fst ` set (settled (after_load j q)) \<and> map_of (activeControllers (after_load j q)) (qj_file k) = None"
      using facts(8)[of k] job_ids_filter[of _ "running q"] by auto
  next
    fix f i assume "map_of (activeControllers (after_load j q)) f = Some i"
    then show "i < next_load (after_load j q) \<and> i \<notin> job_ids (pendingJobs (after_load j q))" using facts(12)[of f i] by (auto split: if_splits)
  next
    fix i assume "i \<in> set (aborted (after_load j q)) \<or> i \<in> fst ` set (settled (after_load j q))"
    then show "i < next_load (after_load j q)" using facts(9)[of i] by simp
  next
    fix a f i assume "(a, f, i) \<in> set (parent_listeners (after_load j q))"
    then show "i < next_load (after_load j q)" using facts(10)[of a f i] by simp
  next
    fix a f i k assume "(a, f, i) \<in> set (parent_listeners (after_load j q))" "k \<in> set (pendingJobs (after_load j q))" "qj_id k = i"
    then show "qj_file k = f \<and> qj_parent k = Some a" using facts(11)[of a f i k] by simp
  qed (simp_all add: facts(3-5))
qed

lemma release_inv:
  assumes "queue_inv q" "j \<in> set (running q)"
  shows "queue_inv (job_released j q)"
  unfolding job_released_eq using assms core_release[of q j] by (intro run_next_inv) (auto simp: queue_inv_def)

lemma queue_inv_step: "queue_inv q \<Longrightarrow> queue_enabled q e \<Longrightarrow> queue_inv (queue_step q e)"
  by (cases e) (auto intro: load_inv cancel_inv abort_inv settle_inv release_inv)

lemma queue_inv_init: "queue_inv empty_queue"
  by (auto simp: queue_inv_def queue_core_def empty_queue_def)

interpretation thumbnail_loads: machine queue_enabled queue_step empty_queue queue_inv
  by unfold_locales (auto intro: queue_inv_init queue_inv_step)

text \<open>C20. In every reachable state at most six loads run, a load waits only while six run, loads of high
  priority wait before those of low priority, and no two loads of one file are alive: all but one are
  aborted.\<close>

theorem thumbnail_queue_fair:
  assumes "reach queue_enabled queue_step empty_queue q"
  shows "length (running q) \<le> 6 \<and> (pendingJobs q \<noteq> [] \<longrightarrow> length (running q) = 6) \<and>
    sorted (map (\<lambda>j. jobPriorityValue (qj_priority j)) (pendingJobs q)) \<and>
    (\<forall>j \<in> set (running q @ pendingJobs q). \<forall>k \<in> set (running q @ pendingJobs q).
       qj_file j = qj_file k \<and> qj_id j \<notin> set (aborted q) \<and> qj_id k \<notin> set (aborted q) \<longrightarrow> j = k)"
proof -
  have inv: "queue_inv q" using assms by (rule thumbnail_loads.reach_inv)
  then have core: "queue_core q" by (simp add: queue_inv_def)
  note facts = core_facts[OF core]
  have one: "j = k" if "j \<in> set xs" "k \<in> set xs" "h j = h k" "distinct (map h xs)" for j k :: queue_job and h :: "queue_job \<Rightarrow> 'b" and xs
    using that by (auto simp: distinct_map dest: inj_onD)
  have "j = k" if h: "j \<in> set (running q @ pendingJobs q)" "k \<in> set (running q @ pendingJobs q)" "qj_file j = qj_file k"
      "qj_id j \<notin> set (aborted q)" "qj_id k \<notin> set (aborted q)" for j k
  proof -
    consider "j \<in> set (running q)" "k \<in> set (running q)" | "j \<in> set (pendingJobs q)" "k \<in> set (pendingJobs q)"
      | "j \<in> set (running q)" "k \<in> set (pendingJobs q)" | "j \<in> set (pendingJobs q)" "k \<in> set (running q)"
      using h(1,2) unfolding set_append by blast
    then show ?thesis
    proof cases
      case 1
      then have "qj_id j = qj_id k" using facts(7)[of j] facts(7)[of k] h(3-5) by simp
      then show ?thesis using one[OF 1 _ facts(2)] by blast
    next
      case 2
      then show ?thesis using one[OF 2 h(3) facts(5)] by blast
    next
      case 3
      then show ?thesis using core_files[OF core 3(2,1) h(3)] h(4) by blast
    next
      case 4
      then show ?thesis using core_files[OF core 4(1,2) h(3)[symmetric]] h(5) by blast
    qed
  qed
  then show ?thesis
    using inv facts(1,4) by (auto simp: queue_inv_def MAX_CONCURRENT_THUMBNAIL_LOADS_def)
qed

definition loads :: "nat \<Rightarrow> queue_event list" where
  "loads n = map (\<lambda>i. LoadThumbnail [char_of i] Low None) [0..<n]"

lemma reach_loads:
  "reach queue_enabled queue_step empty_queue (foldl queue_step empty_queue (loads n))"
proof (induction n)
  case (Suc n)
  then show ?case using reach_step[OF Suc, of "LoadThumbnail [char_of n] Low None"] by (simp add: loads_def)
qed (simp add: loads_def reach_init)

theorem thumbnail_queue_fair_witness:
  "length (running (foldl queue_step empty_queue (loads 8))) = 6 \<and> pendingJobs (foldl queue_step empty_queue (loads 8)) \<noteq> []"
proof -
  have "pendingJobs (foldl queue_step empty_queue (loads 8)) \<noteq> []" by code_simp
  with thumbnail_queue_fair[OF reach_loads[of 8]] show ?thesis by blast
qed

section \<open>Loads that are never answered\<close>

text \<open>A load that is out of the queue and of whose parent nothing is listened to any more.\<close>

definition lost_load :: "nat \<Rightarrow> thumbnail_queue \<Rightarrow> bool" where
  "lost_load i q \<longleftrightarrow> i < next_load q \<and> i \<notin> job_ids (running q) \<and> i \<notin> job_ids (pendingJobs q) \<and>
     i \<notin> (\<lambda>l. snd (snd l)) ` set (parent_listeners q) \<and> i \<notin> fst ` set (settled q)"

lemma lost_start:
  "lost_load i q \<Longrightarrow> pendingJobs q = j # js \<Longrightarrow> lost_load i (start_load j (q\<lparr>pendingJobs := js\<rparr>))"
  by (simp add: lost_load_def start_load_def)

lemma lost_next:
  assumes "queue_core q" "lost_load i q"
  shows "lost_load i (runNextQueuedThumbnailLoad q)"
proof -
  have "lost_load i q \<longrightarrow> lost_load i (runNextQueuedThumbnailLoad q)"
    using assms(1) by (induction rule: run_next_induct) (blast intro: lost_start)+
  with assms(2) show ?thesis by simp
qed

lemma lost_cong:
  assumes "lost_load i q" "next_load q \<le> next_load q'" "job_ids (running q') \<subseteq> job_ids (running q)"
    "set (parent_listeners q') \<subseteq> set (parent_listeners q)" "job_ids (pendingJobs q') \<subseteq> job_ids (pendingJobs q)"
    "fst ` set (settled q') \<subseteq> insert k (fst ` set (settled q))" "k \<noteq> i"
  shows "lost_load i q'"
proof -
  have p: "i < next_load q" "i \<notin> job_ids (running q)" "i \<notin> job_ids (pendingJobs q)"
    "i \<notin> (\<lambda>l. snd (snd l)) ` set (parent_listeners q)" "i \<notin> fst ` set (settled q)"
    using iffD1[OF lost_load_def assms(1)] by - (elim conjE, assumption)+
  have "i < next_load q'" using p(1) assms(2) by simp
  moreover have "i \<notin> (\<lambda>l. snd (snd l)) ` set (parent_listeners q')" using p(4) image_mono[OF assms(4), of "\<lambda>l. snd (snd l)"] by (rule contra_subsetD[rotated])
  moreover have "i \<notin> job_ids (running q')" using p(2) assms(3) by blast
  moreover have "i \<notin> job_ids (pendingJobs q')" using p(3) assms(5) by blast
  moreover have "i \<notin> fst ` set (settled q')" using p(5) assms(6,7) by blast
  ultimately show ?thesis by (simp only: lost_load_def) simp
qed

lemma job_ids_set: "set xs \<subseteq> set ys \<Longrightarrow> job_ids xs \<subseteq> job_ids ys"
  by (auto simp: job_ids_def)

lemma lost_abort_parents:
  "lost_load i q \<Longrightarrow> i \<notin> snd ` set ls \<Longrightarrow> lost_load i (fold abortFromParent ls q)"
proof (induction ls arbitrary: q)
  case (Cons l ls)
  obtain f k where l: "l = (f, k)" by fastforce
  have "k \<noteq> i" using Cons.prems(2) l by auto
  then have "lost_load i (abortFromParent l q)"
    unfolding l by (intro lost_cong[OF Cons.prems(1), of _ k]) (simp_all add: abortFromParent_def job_ids_filter)
  then show ?case using Cons by simp
qed simp

lemma lost_parent:
  assumes "lost_load i q"
  shows "lost_load i (parent_aborts a q)"
proof -
  let ?q = "q\<lparr>aborted_parents := a # aborted_parents q, parent_listeners := filter (\<lambda>l. fst l \<noteq> a) (parent_listeners q)\<rparr>"
  have "lost_load i ?q" using assms by (auto simp: lost_load_def)
  moreover have "i \<notin> snd ` set (map snd (filter (\<lambda>l. fst l = a) (parent_listeners q)))"
    using assms by (force simp: lost_load_def)
  ultimately show ?thesis using assms lost_abort_parents by (simp add: parent_aborts_def)
qed

lemma lost_queued:
  "lost_load i q \<Longrightarrow> lost_load i (queued_load f p parent q)"
  by (auto simp: lost_load_def queued_load_def sortPendingJobs_def job_ids_iff split: option.splits)

lemma lost_step:
  assumes "queue_inv q" "queue_enabled q e" "lost_load i q"
  shows "lost_load i (queue_step q e)"
proof -
  have core: "queue_core q" using assms(1) by (simp add: queue_inv_def)
  show ?thesis
  proof (cases e)
    case (LoadThumbnail f p parent)
    have "lost_load i (settle (next_load q) AbortError (q\<lparr>next_load := Suc (next_load q)\<rparr>))"
      using assms(3) by (auto simp: lost_load_def settle_def)
    moreover have "lost_load i (runNextQueuedThumbnailLoad (queued_load f p parent q))"
      using lost_next[OF core_queued(1)[OF core] lost_queued[OF assms(3)]] .
    ultimately show ?thesis using LoadThumbnail by (simp add: load_cases)
  next
    case (CancelThumbnail f)
    then show ?thesis using assms(3) by (auto simp: lost_load_def job_ids_iff)
  next
    case (ParentAborts a)
    then show ?thesis using assms(3) lost_parent by simp
  next
    case (Settle j x)
    have "qj_id j \<noteq> i" using assms(2,3) Settle job_ids_mem[of j "running q"] by (auto simp: lost_load_def)
    then show ?thesis
      unfolding Settle queue_step.simps job_settles_def
      by (intro lost_cong[OF assms(3), of _ "qj_id j"]) (cases "qj_parent j"; auto simp del: set_map)+
  next
    case (Release j)
    have "lost_load i (after_load j q)" using assms(3) by (auto simp: lost_load_def job_ids_iff)
    then show ?thesis using core_release[OF core] assms(2) lost_next Release by (simp add: job_released_eq)
  qed
qed

lemma lost_reach:
  assumes "reach queue_enabled queue_step q0 q" "queue_inv q0" "lost_load i q0"
  shows "queue_inv q \<and> lost_load i q"
  using assms by (induction rule: reach.induct) (auto intro: queue_inv_step lost_step)

lemma superseded_is_lost:
  assumes "queue_inv q" "j \<in> set (pendingJobs q)" "qj_parent j = None"
  shows "lost_load (qj_id j) (cancelExplorerThumbnailLoad (qj_file j) q)"
proof -
  have core: "queue_core q" using assms(1) by (simp add: queue_inv_def)
  note facts = core_facts[OF core]
  have "k = j" if "k \<in> set (pendingJobs q)" "qj_id k = qj_id j" for k
    using facts(3) assms(2) that by (auto simp: distinct_map dest: inj_onD)
  then have "qj_id j \<notin> job_ids (filter (\<lambda>k. qj_file k \<noteq> qj_file j) (pendingJobs q))" by (auto simp: job_ids_iff)
  moreover have "qj_id j \<notin> (\<lambda>l. snd (snd l)) ` set (parent_listeners q)"
    using facts(11)[OF _ assms(2)] assms(3) by force
  ultimately show ?thesis using facts(8)[OF assms(2)] by (simp add: lost_load_def)
qed

text \<open>When a waiting load without a parent signal, such as a prefetch, is cancelled, or another load
  of its file is asked for (by a parent that has not aborted), its promise is never settled and its task
  never starts, whatever happens afterwards: whoever awaits it waits forever.\<close>

theorem superseded_load_never_answers:
  assumes "reach queue_enabled queue_step empty_queue q" "j \<in> set (pendingJobs q)" "qj_parent j = None"
    and "e = CancelThumbnail (qj_file j) \<or> e = LoadThumbnail (qj_file j) p parent \<and> (\<forall>a. parent = Some a \<longrightarrow> a \<notin> set (aborted_parents q))"
    and "reach queue_enabled queue_step (queue_step q e) q'"
  shows "qj_id j \<notin> fst ` set (settled q') \<and> j \<notin> set (running q')"
proof -
  have inv: "queue_inv q" using assms(1) by (rule thumbnail_loads.reach_inv)
  then have core: "queue_core q" by (simp add: queue_inv_def)
  have lost: "lost_load (qj_id j) (cancelExplorerThumbnailLoad (qj_file j) q)"
    using superseded_is_lost[OF inv assms(2,3)] .
  then have "lost_load (qj_id j) (queued_load (qj_file j) p parent q)"
    by (auto simp: lost_load_def queued_load_def sortPendingJobs_def job_ids_iff split: option.splits)
  then have "lost_load (qj_id j) (queue_step q e)"
    using assms(4) lost lost_next[OF core_queued(1)[OF core]] by (auto simp: load_cases split: option.splits)
  moreover have "queue_inv (queue_step q e)" using inv assms(4) by (intro queue_inv_step) auto
  ultimately have "lost_load (qj_id j) q'" using lost_reach[OF assms(5)] by blast
  then show ?thesis using job_ids_mem[of j "running q'"] by (auto simp: lost_load_def)
qed

theorem superseded_load_never_answers_witness:
  "6 \<notin> fst ` set (settled (queue_step (foldl queue_step empty_queue (loads 7)) (LoadThumbnail [CHR 0x06] High (Some 0))))"
proof -
  let ?q = "foldl queue_step empty_queue (loads 7)"
    and ?j = "\<lparr>qj_id = 6, qj_file = [CHR 0x06], qj_priority = Low, qj_parent = None\<rparr>"
  have fresh: "aborted_parents ?q = []" by code_simp
  have "pendingJobs ?q = [?j]" by code_simp
  then have "?j \<in> set (pendingJobs ?q)" by simp
  from superseded_load_never_answers[OF reach_loads this _ _ reach_init, of "LoadThumbnail [CHR 0x06] High (Some 0)" High "Some 0"]
  show ?thesis by (simp add: fresh)
qed

text \<open>The listener of a superseded load stays, and its abort cancels the newer load of the same file, whose own
  parent (2) has not aborted.\<close>

theorem stale_parent_aborts_newer_load:
  "let q = foldl queue_step empty_queue
       [LoadThumbnail ''f'' High (Some 1), LoadThumbnail ''f'' High (Some 2), ParentAborts 1]
   in map qj_parent (running q) = [Some 1, Some 2] \<and> 1 \<in> set (aborted q) \<and> 2 \<notin> set (aborted_parents q)"
  by code_simp

section \<open>The cache\<close>

definition cache_ok :: "thumbnail_cache \<Rightarrow> bool" where
  "cache_ok c \<longleftrightarrow> distinct (accessOrder c) \<and> set (accessOrder c) = dom (map_of (entries c)) \<and>
     length (accessOrder c) \<le> MAX_EXPLORER_THUMBNAIL_CACHE \<and> [] \<notin> set (accessOrder c)"

lemma evict_fits: "length keys \<le> MAX_EXPLORER_THUMBNAIL_CACHE \<Longrightarrow> evict keys es = (keys, es)"
  by (cases keys) auto

lemma evict_one:
  assumes "length keys = MAX_EXPLORER_THUMBNAIL_CACHE" "oldest \<noteq> []"
  shows "evict (oldest # keys) es = (keys, AList.delete oldest es)"
  using assms evict_fits[of keys] by simp

lemma cache_empty_ok: "cache_ok empty_cache"
  by (simp add: cache_ok_def empty_cache_def)

lemma cache_get_ok: "cache_ok c \<Longrightarrow> cache_ok (snd (getCachedExplorerThumbnailBlob key c))"
  using length_pos_if_in_set[of key "accessOrder c"]
  by (auto simp: cache_ok_def getCachedExplorerThumbnailBlob_def touchKey_def length_remove1 dom_def split: option.splits)

lemma cache_invalidate_ok: "cache_ok c \<Longrightarrow> cache_ok (invalidateExplorerThumbnailCacheForFile f c)"
proof -
  have "cache_ok (fold (\<lambda>key c. if js_starts_with (f @ '':'') key
      then c\<lparr>entries := AList.delete key (entries c), accessOrder := remove1 key (accessOrder c)\<rparr> else c) keys c)"
    if "cache_ok c" for keys c
    using that
  proof (induction keys arbitrary: c)
    case (Cons key keys)
    have "cache_ok (c\<lparr>entries := AList.delete key (entries c), accessOrder := remove1 key (accessOrder c)\<rparr>)"
      using Cons.prems by (auto simp: cache_ok_def length_remove1 dom_def)
    then show ?case using Cons by simp
  qed simp
  then show "cache_ok c \<Longrightarrow> ?thesis" unfolding invalidateExplorerThumbnailCacheForFile_def .
qed

text \<open>C35. The cache keeps at most 400 thumbnails and remembers the order of use of exactly those it has; a
  stored thumbnail is found, every other entry is kept, except that a new key in a full cache takes the
  place of the least recently used one.\<close>

theorem thumbnail_cache_put:
  fixes blob :: string
  assumes "cache_ok c" "key \<noteq> []"
  defines "c' \<equiv> putCachedExplorerThumbnailBlob key blob c"
  shows "cache_ok c' \<and>
    map_of (entries c') = (if key \<notin> set (accessOrder c) \<and> length (accessOrder c) = 400
       then (map_of (entries c))(hd (accessOrder c) := None) else map_of (entries c))(key \<mapsto> blob)"
proof (cases "key \<notin> set (accessOrder c) \<and> length (accessOrder c) = 400")
  case True
  then obtain oldest keys where o: "accessOrder c = oldest # keys" by (cases "accessOrder c") auto
  then have old: "oldest \<noteq> []" "oldest \<noteq> key" "length (keys @ [key]) = MAX_EXPLORER_THUMBNAIL_CACHE"
    using assms(1) True by (auto simp: cache_ok_def MAX_EXPLORER_THUMBNAIL_CACHE_def)
  have "remove1 key (accessOrder c) = accessOrder c" using True by (simp add: remove1_idem)
  then have c': "c' = c\<lparr>entries := AList.delete oldest (AList.update key blob (entries c)), accessOrder := keys @ [key]\<rparr>"
    using evict_one[OF old(3,1)] o
    by (simp add: c'_def putCachedExplorerThumbnailBlob_def evictIfNeeded_def touchKey_def)
  then have new: "accessOrder c' = keys @ [key]" "map_of (entries c') = (map_of (entries c))(oldest := None, key \<mapsto> blob)"
    using old(2) by (auto simp: delete_conv update_conv fun_eq_iff)
  have "cache_ok c'"
    using assms(1,2) True o old(3) unfolding cache_ok_def new by auto
  then show ?thesis using True o new(2) by simp
next
  case False
  have len: "length (remove1 key (accessOrder c) @ [key]) \<le> MAX_EXPLORER_THUMBNAIL_CACHE"
    using assms(1) False by (auto simp: cache_ok_def length_remove1 MAX_EXPLORER_THUMBNAIL_CACHE_def)
  then have c': "c' = c\<lparr>entries := AList.update key blob (entries c), accessOrder := remove1 key (accessOrder c) @ [key]\<rparr>"
    by (simp add: c'_def putCachedExplorerThumbnailBlob_def evictIfNeeded_def touchKey_def evict_fits)
  then have new: "accessOrder c' = remove1 key (accessOrder c) @ [key]" "map_of (entries c') = (map_of (entries c))(key \<mapsto> blob)"
    by (auto simp: update_conv fun_eq_iff)
  have "cache_ok c'"
    using assms(1,2) len unfolding cache_ok_def new by auto
  then show ?thesis using False new(2) by auto
qed

theorem thumbnail_cache_put_witness:
  "map_of (entries (putCachedExplorerThumbnailBlob ''f:1'' ''jpeg'' empty_cache)) ''f:1'' = Some ''jpeg''"
  using thumbnail_cache_put[OF cache_empty_ok, of "''f:1''" "''jpeg''"] by (simp add: empty_cache_def)

end
