(* ===== verification/ShareSelection.thy ===== *)
theory ShareSelection
  imports Prelude "HOL-Library.AList"
begin

text \<open>
  The rows selected on a public share and the files they stand for
  (\<^verbatim>\<open>frontend/src/lib/public-share-selection.ts\<close>). A JavaScript \<open>Set\<close> and the keys of a \<open>Map\<close> are lists
  in insertion order. Of the rows only the fields that are read are modelled; \<open>sf_rest\<close> stands for
  the others of a file.
\<close>

section \<open>The code\<close>

record folder_item =
  fo_id :: string
  fo_parent :: "string option"

record share_file =
  sf_id :: string
  sf_folder :: "string option"
  sf_rest :: string

definition parent_key :: "folder_item \<Rightarrow> string" where
  "parent_key f = (case fo_parent f of None \<Rightarrow> [] | Some p \<Rightarrow> p)"

definition add_child :: "folder_item \<Rightarrow> (string \<rightharpoonup> string list) \<Rightarrow> (string \<rightharpoonup> string list)" where
  "add_child f m = (let l = (case m (parent_key f) of None \<Rightarrow> [] | Some l \<Rightarrow> l) in m(parent_key f \<mapsto> l @ [fo_id f]))"

definition childrenByParent :: "folder_item list \<Rightarrow> string \<rightharpoonup> string list" where
  "childrenByParent folders = fold add_child folders Map.empty"

definition children_of :: "folder_item list \<Rightarrow> string \<Rightarrow> string list" where
  "children_of folders i = (case childrenByParent folders i of None \<Rightarrow> [] | Some l \<Rightarrow> l)"

fun visit_child :: "string \<Rightarrow> string list \<times> string list \<Rightarrow> string list \<times> string list" where
  "visit_child child (out, queue) = (if child \<in> set out then (out, queue) else (out @ [child], queue @ [child]))"

lemma visit_children:
  "\<exists>new. fold visit_child cs (out, queue) = (out @ new, queue @ new) \<and> distinct new \<and> set new = set cs - set out"
proof (induction cs arbitrary: out queue)
  case (Cons c cs)
  show ?case
  proof (cases "c \<in> set out")
    case True
    then show ?thesis using Cons.IH[of out queue] by auto
  next
    case False
    obtain new where "fold visit_child cs (out @ [c], queue @ [c]) = ((out @ [c]) @ new, (queue @ [c]) @ new)"
      "distinct new" "set new = set cs - set (out @ [c])" using Cons.IH[of "out @ [c]" "queue @ [c]"] by blast
    with False show ?thesis by (intro exI[of _ "c # new"]) auto
  qed
qed simp

lemma children_of_eq: "children_of folders i = map fo_id (filter (\<lambda>f. parent_key f = i) folders)"
proof -
  have "(case fold add_child folders m i of None \<Rightarrow> [] | Some l \<Rightarrow> l) =
      (case m i of None \<Rightarrow> [] | Some l \<Rightarrow> l) @ map fo_id (filter (\<lambda>f. parent_key f = i) folders)" for m
    by (induction folders arbitrary: m) (auto simp: add_child_def Let_def)
  from this[of Map.empty] show ?thesis by (simp add: children_of_def childrenByParent_def)
qed

function subtree_loop :: "folder_item list \<Rightarrow> string list \<Rightarrow> string list \<Rightarrow> string list" where
  "subtree_loop folders out [] = out"
| "subtree_loop folders out (current # queue) =
     (let (out, queue) = fold visit_child (children_of folders current) (out, queue) in subtree_loop folders out queue)"
  by pat_completeness auto
termination
proof (relation "measure (\<lambda>(folders, out, queue). 2 * card (fo_id ` set folders - set out) + length queue)", goal_cases)
  case (2 folders out current queue x out' queue')
  let ?F = "fo_id ` set folders"
  obtain new where new: "out' = out @ new" "queue' = queue @ new" "distinct new" "set new = set (children_of folders current) - set out"
    using visit_children[of "children_of folders current" out queue] 2 by auto
  have sub: "set new \<subseteq> ?F - set out" using new(4) by (auto simp: children_of_eq)
  have "card (?F - set out') = card (?F - set out) - card (set new)"
    using card_Diff_subset[OF _ sub] by (simp add: new(1) Diff_eq Int_assoc)
  moreover have "card (set new) \<le> card (?F - set out)" using sub by (intro card_mono) auto
  ultimately show ?case using new(2,3) by (simp add: distinct_card)
qed simp

definition folderSubtreeIds :: "folder_item list \<Rightarrow> string \<Rightarrow> string list" where
  "folderSubtreeIds folders root = subtree_loop folders [root] [root]"

definition fileById :: "share_file list \<Rightarrow> string \<rightharpoonup> share_file" where
  "fileById files = fold (\<lambda>f m. m(sf_id f \<mapsto> f)) files Map.empty"

definition choose_candidate :: "string list \<Rightarrow> share_file \<Rightarrow> (string \<times> share_file) list \<Rightarrow> (string \<times> share_file) list" where
  "choose_candidate folderIds c chosen =
     (case sf_folder c of
        None \<Rightarrow> chosen
      | Some d \<Rightarrow> if d \<noteq> [] \<and> d \<in> set folderIds then AList.update (sf_id c) c chosen else chosen)"

definition choose_row :: "share_file list \<Rightarrow> folder_item list \<Rightarrow> string \<Rightarrow> (string \<times> share_file) list \<Rightarrow> (string \<times> share_file) list" where
  "choose_row files folders i chosen =
     (case fileById files i of
        Some f \<Rightarrow> AList.update (sf_id f) f chosen
      | None \<Rightarrow> fold (choose_candidate (folderSubtreeIds folders i)) files chosen)"

definition expandShareSelectionToFiles :: "string list \<Rightarrow> share_file list \<Rightarrow> folder_item list \<Rightarrow> share_file list" where
  "expandShareSelectionToFiles selected files folders = map snd (fold (choose_row files folders) selected [])"

section \<open>The search finds the subtree\<close>

definition folder_edges :: "folder_item list \<Rightarrow> (string \<times> string) set" where
  "folder_edges folders = {(parent_key f, fo_id f) | f. f \<in> set folders}"

lemma folder_edges_iff: "(p, c) \<in> folder_edges folders \<longleftrightarrow> c \<in> set (children_of folders p)"
  by (auto simp: folder_edges_def children_of_eq)

lemma subtree_loop_set:
  assumes "root \<in> set out" "set out \<subseteq> (folder_edges folders)\<^sup>* `` {root}" "set queue \<subseteq> set out"
    "\<And>x. x \<in> set out - set queue \<Longrightarrow> set (children_of folders x) \<subseteq> set out"
  shows "set (subtree_loop folders out queue) = (folder_edges folders)\<^sup>* `` {root}"
  using assms
proof (induction folders out queue rule: subtree_loop.induct)
  case (1 folders out)
  have closed: "set (children_of folders x) \<subseteq> set out" if "x \<in> set out" for x using 1(4)[of x] that by simp
  have "folder_edges folders `` set out \<subseteq> set out"
    using closed by (fastforce simp: folder_edges_iff)
  then have "(folder_edges folders)\<^sup>* `` set out = set out" by (rule Image_closed_trancl)
  then have "(folder_edges folders)\<^sup>* `` {root} \<subseteq> set out" using 1(1) by blast
  then show ?case using 1(2) by simp
next
  case (2 folders out current queue)
  obtain new where new: "fold visit_child (children_of folders current) (out, queue) = (out @ new, queue @ new)"
    "set new = set (children_of folders current) - set out" using visit_children by blast
  have cur: "(root, current) \<in> (folder_edges folders)\<^sup>*" using 2(3,4) by auto
  have step: "set (out @ new) \<subseteq> (folder_edges folders)\<^sup>* `` {root}"
    using 2(3) new(2) cur by (auto simp: folder_edges_iff[symmetric] intro: rtrancl_into_rtrancl)
  have "set (subtree_loop folders (out @ new) (queue @ new)) = (folder_edges folders)\<^sup>* `` {root}"
  proof (rule 2(1)[OF new(1)[symmetric] refl])
    fix x assume "x \<in> set (out @ new) - set (queue @ new)"
    then have "x = current \<or> x \<in> set out - set (current # queue)" by auto
    then show "set (children_of folders x) \<subseteq> set (out @ new)" using 2(5)[of x] new(2) by auto
  qed (use 2(2,4) step in auto)
  then show ?case by (simp add: new(1))
qed

lemma folderSubtreeIds_set: "set (folderSubtreeIds folders root) = (folder_edges folders)\<^sup>* `` {root}"
  unfolding folderSubtreeIds_def by (rule subtree_loop_set) auto

section \<open>The chosen files\<close>

definition chosen_ok :: "share_file list \<Rightarrow> (string \<times> share_file) list \<Rightarrow> bool" where
  "chosen_ok files chosen \<longleftrightarrow> distinct (map fst chosen) \<and> (\<forall>(k, f) \<in> set chosen. f \<in> set files \<and> k = sf_id f)"

lemma chosen_okD: "chosen_ok files chosen \<Longrightarrow> (k, f) \<in> set chosen \<Longrightarrow> f \<in> set files \<and> k = sf_id f"
  unfolding chosen_ok_def by blast

lemma fileById_other: "i \<notin> sf_id ` set files \<Longrightarrow> fold (\<lambda>f m. m(sf_id f \<mapsto> f)) files m i = m i"
  by (induction files arbitrary: m) auto

lemma fileById_found:
  "distinct (map sf_id files) \<Longrightarrow> f \<in> set files \<Longrightarrow> fold (\<lambda>f m. m(sf_id f \<mapsto> f)) files m (sf_id f) = Some f"
  by (induction files arbitrary: m) (auto simp: fileById_other)

lemma file_unique:
  "distinct (map sf_id files) \<Longrightarrow> f \<in> set files \<Longrightarrow> g \<in> set files \<Longrightarrow> sf_id f = sf_id g \<Longrightarrow> f = g"
  by (rule inj_onD[of sf_id "set files"]) (simp_all add: distinct_map)

lemma fileById_iff:
  assumes "distinct (map sf_id files)"
  shows "fileById files i = Some f \<longleftrightarrow> f \<in> set files \<and> sf_id f = i"
proof (cases "i \<in> sf_id ` set files")
  case True
  then obtain g where g: "g \<in> set files" "sf_id g = i" by auto
  then have found: "fileById files i = Some g" using fileById_found[OF assms, of g Map.empty] by (simp add: fileById_def)
  show ?thesis
  proof
    assume "fileById files i = Some f"
    then have "f = g" using found by simp
    then show "f \<in> set files \<and> sf_id f = i" using g by simp
  next
    assume "f \<in> set files \<and> sf_id f = i"
    then have "f = g" using g by (intro file_unique[OF assms]) simp_all
    then show "fileById files i = Some f" using found by simp
  qed
next
  case False
  then show ?thesis using fileById_other[OF False, of Map.empty] by (auto simp: fileById_def)
qed

lemma choose_file:
  assumes "distinct (map sf_id files)" "chosen_ok files chosen" "f \<in> set files"
  shows "chosen_ok files (AList.update (sf_id f) f chosen) \<and>
    snd ` set (AList.update (sf_id f) f chosen) = insert f (snd ` set chosen)"
proof -
  let ?u = "AList.update (sf_id f) f chosen"
  have inj: "g = h" if "g \<in> set files" "h \<in> set files" "sf_id g = sf_id h" for g h
    using file_unique[OF assms(1) that] .
  have dist: "distinct (map fst ?u)" "distinct (map fst chosen)" using assms(2) by (auto simp: chosen_ok_def distinct_update)
  have mem: "(k, g) \<in> set ?u \<longleftrightarrow> (if k = sf_id f then g = f else (k, g) \<in> set chosen)" for k g
    unfolding map_of_eq_Some_iff[OF dist(1), symmetric] map_of_eq_Some_iff[OF dist(2), symmetric] update_conv'
    by (cases "k = sf_id f") auto
  have only: "g = f" if "(sf_id f, g) \<in> set chosen" for g
    using chosen_okD[OF assms(2) that] assms(3) by (intro inj) simp_all
  have img: "g \<in> snd ` set xs \<longleftrightarrow> (\<exists>k. (k, g) \<in> set xs)" for g :: share_file and xs :: "(string \<times> share_file) list" by force
  have "g \<in> snd ` set ?u \<longleftrightarrow> g = f \<or> (\<exists>k. (k, g) \<in> set chosen)" for g
    unfolding img mem using only by metis
  then have "snd ` set ?u = insert f (snd ` set chosen)" by (simp only: set_eq_iff img insert_iff) simp
  moreover have "g \<in> set files \<and> k = sf_id g" if "(k, g) \<in> set ?u" for k g
    using that chosen_okD[OF assms(2), of k g] assms(3) unfolding mem by (cases "k = sf_id f") simp_all
  then have "chosen_ok files ?u" using dist(1) unfolding chosen_ok_def by blast
  ultimately show ?thesis by blast
qed

lemma choose_candidates:
  assumes "distinct (map sf_id files)" "chosen_ok files chosen" "set cs \<subseteq> set files"
  shows "chosen_ok files (fold (choose_candidate ids) cs chosen) \<and> snd ` set (fold (choose_candidate ids) cs chosen) =
    snd ` set chosen \<union> {f \<in> set cs. \<exists>d. sf_folder f = Some d \<and> d \<noteq> [] \<and> d \<in> set ids}"
  using assms(2,3)
proof (induction cs arbitrary: chosen)
  case (Cons c cs)
  show ?case
  proof (cases "\<exists>d. sf_folder c = Some d \<and> d \<noteq> [] \<and> d \<in> set ids")
    case True
    then have "choose_candidate ids c chosen = AList.update (sf_id c) c chosen" by (auto simp: choose_candidate_def)
    then show ?thesis using Cons choose_file[OF assms(1) Cons.prems(1), of c] True by auto
  next
    case False
    then have "choose_candidate ids c chosen = chosen" by (auto simp: choose_candidate_def split: option.split)
    then show ?thesis using Cons False by auto
  qed
qed simp

definition stands_for :: "share_file list \<Rightarrow> folder_item list \<Rightarrow> string \<Rightarrow> share_file \<Rightarrow> bool" where
  "stands_for files folders i f \<longleftrightarrow> f \<in> set files \<and>
     (if i \<in> sf_id ` set files then sf_id f = i
      else \<exists>d. sf_folder f = Some d \<and> d \<noteq> [] \<and> (i, d) \<in> (folder_edges folders)\<^sup>*)"

lemma choose_row_set:
  assumes "distinct (map sf_id files)" "chosen_ok files chosen"
  shows "chosen_ok files (choose_row files folders i chosen) \<and>
    snd ` set (choose_row files folders i chosen) = snd ` set chosen \<union> {f. stands_for files folders i f}"
proof (cases "fileById files i")
  case None
  then have "i \<notin> sf_id ` set files" using fileById_iff[OF assms(1)] by (metis imageE option.distinct(1))
  then show ?thesis
    using choose_candidates[OF assms order_refl, of "folderSubtreeIds folders i"] None
    by (auto simp: choose_row_def stands_for_def folderSubtreeIds_set)
next
  case (Some f)
  then have f: "f \<in> set files" "sf_id f = i" using fileById_iff[OF assms(1)] by auto
  then have "{g. stands_for files folders i g} = {f}"
    using file_unique[OF assms(1)] by (auto simp: stands_for_def)
  then show ?thesis using choose_file[OF assms f(1)] Some by (simp add: choose_row_def)
qed

text \<open>C14. The selection stands for exactly the files that are selected themselves or lie, at any depth, in a
  selected folder, each once; the search ends even when the folders' parents form a cycle.\<close>

theorem expandShareSelection_correct:
  assumes "distinct (map sf_id files)"
  shows "set (expandShareSelectionToFiles selected files folders) = {f. \<exists>i \<in> set selected. stands_for files folders i f} \<and>
    distinct (map sf_id (expandShareSelectionToFiles selected files folders))"
proof -
  have rows: "chosen_ok files (fold (choose_row files folders) is chosen) \<and> snd ` set (fold (choose_row files folders) is chosen) =
      snd ` set chosen \<union> {f. \<exists>i \<in> set is. stands_for files folders i f}" if "chosen_ok files chosen" for chosen "is"
    using that by (induction "is" arbitrary: chosen) (auto simp: choose_row_set[OF assms])
  let ?c = "fold (choose_row files folders) selected []"
  have ok: "chosen_ok files ?c" and s: "snd ` set ?c = {f. \<exists>i \<in> set selected. stands_for files folders i f}"
    using rows[of "[]" selected] by (auto simp: chosen_ok_def)
  have "map sf_id (map snd ?c) = map fst ?c" using ok by (auto simp: chosen_ok_def)
  moreover have "distinct (map fst ?c)" using ok by (simp add: chosen_ok_def)
  ultimately show ?thesis using s unfolding expandShareSelectionToFiles_def by (metis set_map)
qed

theorem expandShareSelection_correct_witness:
  "let a = \<lparr>fo_id = ''a'', fo_parent = Some ''b''\<rparr>; b = \<lparr>fo_id = ''b'', fo_parent = Some ''a''\<rparr>;
       x = \<lparr>sf_id = ''x'', sf_folder = Some ''b'', sf_rest = []\<rparr>; y = \<lparr>sf_id = ''y'', sf_folder = None, sf_rest = []\<rparr>
   in set (expandShareSelectionToFiles [''a''] [x, y] [a, b]) = {x}"
proof -
  let ?a = "\<lparr>fo_id = ''a'', fo_parent = Some ''b''\<rparr>" and ?b = "\<lparr>fo_id = ''b'', fo_parent = Some ''a''\<rparr>"
  let ?x = "\<lparr>sf_id = ''x'', sf_folder = Some ''b'', sf_rest = []\<rparr>" and ?y = "\<lparr>sf_id = ''y'', sf_folder = None, sf_rest = []\<rparr>"
  have "(''a'', ''b'') \<in> folder_edges [?a, ?b]" by (auto simp: folder_edges_iff children_of_eq parent_key_def)
  then have "{f. \<exists>i \<in> set [''a'']. stands_for [?x, ?y] [?a, ?b] i f} = {?x}" by (auto simp: stands_for_def)
  moreover have "distinct (map sf_id [?x, ?y])" by simp
  ultimately show ?thesis using expandShareSelection_correct[of "[?x, ?y]" "[''a'']" "[?a, ?b]"] by (simp add: Let_def)
qed

end
