(* ===== verification/DeleteJobs.thy ===== *)
theory DeleteJobs
  imports UploadPlan
begin

text \<open>
  Deletions that run as jobs of the server (\<^verbatim>\<open>frontend/src/lib/delete-with-progress.ts\<close>). One call of
  \<open>runDeleteJobWithProgress\<close> or \<open>runRecycleBinEmptyDeleteJobWithProgress\<close> is a record \<open>delete_run\<close>; it
  awaits the answer to the start of a job or to a question for its status, and the answers are the
  events of \<open>delete_step\<close>. \<open>dr_asked\<close>, \<open>dr_answers\<close> and \<open>dr_ticks\<close> log the jobs asked for, what the
  server answered and the calls of \<open>onProgress\<close>; \<open>dr_ended\<close> has the answer with which each job ended.
\<close>

section \<open>The code\<close>

record delete_status =
  ds_job :: string
  ds_status :: string
  ds_progress :: rat
  ds_total_blobs :: int
  ds_deleted_blobs :: int
  ds_total_files :: int
  ds_deleted_files :: int
  ds_ready :: bool
  ds_error :: "string option"
  ds_ids :: "string list"

record delete_totals =
  dt_files :: int
  dt_blobs :: int

definition DELETE_JOB_BLOB_THRESHOLD :: int where "DELETE_JOB_BLOB_THRESHOLD = 10"
definition MAX_DELETE_FILES_PER_JOB :: nat where "MAX_DELETE_FILES_PER_JOB = 500"

function chunk_loop :: "string list \<Rightarrow> nat \<Rightarrow> string list list" where
  "chunk_loop ids offset =
     (if offset < length ids
      then take MAX_DELETE_FILES_PER_JOB (drop offset ids) # chunk_loop ids (offset + MAX_DELETE_FILES_PER_JOB)
      else [])"
  by pat_completeness auto
termination
  by (relation "measure (\<lambda>(ids, offset). length ids - offset)") (auto simp: MAX_DELETE_FILES_PER_JOB_def)

declare chunk_loop.simps [simp del]

definition chunkFileIds :: "string list \<Rightarrow> string list list" where
  "chunkFileIds ids = (if length ids \<le> MAX_DELETE_FILES_PER_JOB then [ids] else chunk_loop ids 0)"

definition percent_done :: "int \<Rightarrow> int \<Rightarrow> rat" where
  "percent_done n whole = min 100 (js_round (of_int n / of_int whole * 100))"

definition mergeDeleteJobProgress :: "delete_status \<Rightarrow> delete_totals \<Rightarrow> int \<Rightarrow> int \<Rightarrow> delete_status" where
  "mergeDeleteJobProgress st t prior_files prior_blobs =
     (let files = prior_files + ds_deleted_files st; blobs = prior_blobs + ds_deleted_blobs st
      in st\<lparr>ds_total_files := dt_files t, ds_total_blobs := dt_blobs t, ds_deleted_files := files, ds_deleted_blobs := blobs,
           ds_progress := (if dt_blobs t > 0 then percent_done blobs (dt_blobs t)
             else if dt_files t > 0 then percent_done files (dt_files t) else ds_progress st),
           ds_ready := False\<rparr>)"

definition shouldUseDeleteJob :: "int \<Rightarrow> int \<Rightarrow> bool" where
  "shouldUseDeleteJob file_count storage_object_count \<longleftrightarrow> file_count > 1 \<or> storage_object_count > DELETE_JOB_BLOB_THRESHOLD"

datatype delete_mode = SingleJob | ChunkedJobs | RecycleBin

datatype delete_failure = ServerFailed string | NoJobStarted

datatype delete_phase = StartingJob | PollingJob string | DeleteDone delete_status | DeleteThrew delete_failure

record delete_run =
  dr_mode :: delete_mode
  dr_totals :: delete_totals
  dr_left :: "string list list"
  dr_files :: int
  dr_blobs :: int
  dr_ids :: "string list"
  dr_last :: "delete_status option"
  dr_phase :: delete_phase
  dr_asked :: "string list list"
  dr_answers :: "delete_status list"
  dr_ticks :: "delete_status list"
  dr_ended :: "delete_status list"

definition after_jobs :: "delete_run \<Rightarrow> delete_phase" where
  "after_jobs r =
     (case dr_last r of
        None \<Rightarrow> DeleteThrew NoJobStarted
      | Some st \<Rightarrow>
          if dr_mode r = ChunkedJobs
          then DeleteDone (st\<lparr>ds_ready := True, ds_progress := 100, ds_status := ''complete'',
                 ds_total_files := dt_files (dr_totals r), ds_total_blobs := dt_blobs (dr_totals r),
                 ds_deleted_files := dr_files r, ds_deleted_blobs := dr_blobs r, ds_ids := dr_ids r\<rparr>)
          else DeleteDone st)"

definition next_chunk :: "delete_run \<Rightarrow> delete_run" where
  "next_chunk r =
     (case dr_left r of
        [] \<Rightarrow> r\<lparr>dr_phase := after_jobs r\<rparr>
      | c # cs \<Rightarrow> r\<lparr>dr_left := cs, dr_asked := dr_asked r @ [c], dr_phase := StartingJob\<rparr>)"

definition chunk_done :: "delete_status \<Rightarrow> delete_run \<Rightarrow> delete_run" where
  "chunk_done st r =
     (if dr_mode r = RecycleBin then r\<lparr>dr_phase := DeleteDone st, dr_ended := dr_ended r @ [st]\<rparr>
      else
        let r = r\<lparr>dr_files := dr_files r + ds_deleted_files st, dr_blobs := dr_blobs r + ds_deleted_blobs st,
                  dr_ids := dr_ids r @ ds_ids st, dr_last := Some st, dr_ended := dr_ended r @ [st]\<rparr>
        in if ds_status st \<noteq> ''complete''
           then r\<lparr>dr_phase := DeleteDone (if dr_mode r = ChunkedJobs
                  then st\<lparr>ds_total_files := dt_files (dr_totals r), ds_total_blobs := dt_blobs (dr_totals r),
                         ds_deleted_files := dr_files r, ds_deleted_blobs := dr_blobs r, ds_ids := dr_ids r\<rparr>
                  else st)\<rparr>
           else next_chunk r)"

definition merged_status :: "delete_run \<Rightarrow> delete_status \<Rightarrow> delete_status" where
  "merged_status r st =
     (if dr_mode r = ChunkedJobs then mergeDeleteJobProgress st (dr_totals r) (dr_files r) (dr_blobs r) else st)"

text \<open>One turn of \<open>pollDeleteJobUntilReady\<close>: \<open>onProgress\<close> is called, then a ready job ends.\<close>

definition poll_turn :: "delete_status \<Rightarrow> delete_run \<Rightarrow> delete_run" where
  "poll_turn st r =
     (let r = r\<lparr>dr_ticks := dr_ticks r @ [merged_status r st]\<rparr>
      in if ds_ready st then chunk_done st r else r\<lparr>dr_phase := PollingJob (ds_job st)\<rparr>)"

definition initial_status :: "delete_run \<Rightarrow> delete_status \<Rightarrow> delete_status" where
  "initial_status r st =
     (if dr_mode r = RecycleBin then st\<lparr>ds_total_files := dt_files (dr_totals r), ds_total_blobs := dt_blobs (dr_totals r)\<rparr>
      else merged_status r st)"

datatype delete_event = StartAnswered "string + delete_status" | StatusAnswered "string + delete_status"

fun delete_step :: "delete_run \<Rightarrow> delete_event \<Rightarrow> delete_run" where
  "delete_step r (StartAnswered (Inl e)) = r\<lparr>dr_phase := DeleteThrew (ServerFailed e)\<rparr>"
| "delete_step r (StartAnswered (Inr st)) = poll_turn (initial_status r st) (r\<lparr>dr_answers := dr_answers r @ [st]\<rparr>)"
| "delete_step r (StatusAnswered (Inl e)) = r\<lparr>dr_phase := DeleteThrew (ServerFailed e)\<rparr>"
| "delete_step r (StatusAnswered (Inr st)) = poll_turn st (r\<lparr>dr_answers := dr_answers r @ [st]\<rparr>)"

fun delete_enabled :: "delete_run \<Rightarrow> delete_event \<Rightarrow> bool" where
  "delete_enabled r (StartAnswered x) \<longleftrightarrow> dr_phase r = StartingJob"
| "delete_enabled r (StatusAnswered x) \<longleftrightarrow> (\<exists>j. dr_phase r = PollingJob j)"

definition new_run :: "delete_mode \<Rightarrow> delete_totals \<Rightarrow> string list list \<Rightarrow> delete_run" where
  "new_run mode t chunks = \<lparr>dr_mode = mode, dr_totals = t, dr_left = chunks, dr_files = 0, dr_blobs = 0, dr_ids = [],
     dr_last = None, dr_phase = StartingJob, dr_asked = [], dr_answers = [], dr_ticks = [], dr_ended = []\<rparr>"

definition runDeleteJobWithProgress :: "string list \<Rightarrow> delete_totals option \<Rightarrow> delete_run" where
  "runDeleteJobWithProgress ids preview =
     (let chunks = chunkFileIds ids;
          t = (case preview of Some t \<Rightarrow> t | None \<Rightarrow> \<lparr>dt_files = int (length ids), dt_blobs = 0\<rparr>)
      in next_chunk (new_run (if length chunks > 1 then ChunkedJobs else SingleJob) t chunks))"

definition runRecycleBinEmptyDeleteJobWithProgress :: "delete_totals \<Rightarrow> delete_run" where
  "runRecycleBinEmptyDeleteJobWithProgress t = new_run RecycleBin t []"

definition createStartingDeleteStatus :: "delete_totals \<Rightarrow> delete_status" where
  "createStartingDeleteStatus t = \<lparr>ds_job = [], ds_status = ''starting'', ds_progress = 0,
     ds_total_blobs = max 0 (dt_blobs t), ds_deleted_blobs = 0, ds_total_files = max 0 (dt_files t), ds_deleted_files = 0,
     ds_ready = False, ds_error = None, ds_ids = []\<rparr>"

definition createSequentialDeleteStatus :: "int \<Rightarrow> int \<Rightarrow> string list option \<Rightarrow> delete_status" where
  "createSequentialDeleteStatus completed whole ids =
     (let whole = max 0 whole; completed = min whole (max 0 completed); over = completed \<ge> whole \<and> whole > 0
      in \<lparr>ds_job = [], ds_status = (if over then ''complete'' else ''deleting''),
          ds_progress = (if whole > 0 then percent_done completed whole else 0),
          ds_total_blobs = 0, ds_deleted_blobs = 0, ds_total_files = whole, ds_deleted_files = completed,
          ds_ready = over, ds_error = None, ds_ids = (case ids of Some l \<Rightarrow> l | None \<Rightarrow> [])\<rparr>)"

section \<open>Chunks\<close>

lemma concat_chunk_loop: "concat (chunk_loop ids offset) = drop offset ids"
proof (induction ids offset rule: chunk_loop.induct)
  case (1 ids offset)
  have "take n (drop offset ids) @ drop (offset + n) ids = drop offset ids" for n
    by (metis append_take_drop_id drop_drop add.commute)
  with 1 show ?case by (subst chunk_loop.simps) simp
qed

lemma chunk_loop_short: "c \<in> set (chunk_loop ids offset) \<Longrightarrow> length c \<le> MAX_DELETE_FILES_PER_JOB"
proof (induction ids offset rule: chunk_loop.induct)
  case (1 ids offset)
  then show ?case by (subst (asm) (2) chunk_loop.simps) (auto split: if_splits)
qed

lemma chunkFileIds_facts:
  "concat (chunkFileIds ids) = ids" "c \<in> set (chunkFileIds ids) \<Longrightarrow> length c \<le> MAX_DELETE_FILES_PER_JOB" "chunkFileIds ids \<noteq> []"
proof -
  show "chunkFileIds ids \<noteq> []"
    using concat_chunk_loop[of ids 0] by (auto simp: chunkFileIds_def)
  show "c \<in> set (chunkFileIds ids) \<Longrightarrow> length c \<le> MAX_DELETE_FILES_PER_JOB"
    by (auto simp: chunkFileIds_def chunk_loop_short split: if_splits)
qed (simp add: chunkFileIds_def concat_chunk_loop)

section \<open>What a run adds up\<close>

text \<open>The sums of the final answers of the jobs, with the chunks that were asked for and those that are left.\<close>

definition delete_sums :: "delete_run \<Rightarrow> bool" where
  "delete_sums r \<longleftrightarrow> dr_ids r = concat (map ds_ids (dr_ended r)) \<and> dr_files r = sum_list (map ds_deleted_files (dr_ended r)) \<and>
     dr_blobs r = sum_list (map ds_deleted_blobs (dr_ended r)) \<and>
     dr_last r = (if dr_ended r = [] then None else Some (last (dr_ended r))) \<and>
     set (dr_ended r) \<subseteq> {st \<in> set (dr_answers r). ds_ready st} \<and> (dr_mode r = SingleJob \<longrightarrow> dr_left r = [])"

fun delete_shape :: "string list list \<Rightarrow> delete_run \<Rightarrow> bool" where
  "delete_shape chunks r \<longleftrightarrow> dr_mode r \<noteq> RecycleBin \<and> dr_asked r @ dr_left r = chunks \<and> delete_sums r \<and>
     (case dr_phase r of
        DeleteDone d \<Rightarrow> length (dr_ended r) = length (dr_asked r) \<and> dr_asked r \<noteq> [] \<and>
          ds_status d = ds_status (last (dr_ended r)) \<and> (ds_status d = ''complete'' \<longrightarrow> dr_left r = []) \<and>
          ds_ids d = dr_ids r \<and> ds_deleted_files d = dr_files r \<and> ds_deleted_blobs d = dr_blobs r
      | DeleteThrew f \<Rightarrow> f \<noteq> NoJobStarted
      | _ \<Rightarrow> length (dr_asked r) = Suc (length (dr_ended r)) \<and> (\<forall>st \<in> set (dr_ended r). ds_status st = ''complete'') \<and>
          (dr_mode r = SingleJob \<longrightarrow> dr_ended r = []))"

lemma delete_shape_start: "delete_shape (chunkFileIds ids) (runDeleteJobWithProgress ids preview)"
  using chunkFileIds_facts(3)[of ids]
  by (cases "chunkFileIds ids") (auto simp: runDeleteJobWithProgress_def next_chunk_def new_run_def delete_sums_def Let_def)

definition awaiting :: "delete_run \<Rightarrow> bool" where
  "awaiting r \<longleftrightarrow> dr_phase r = StartingJob \<or> (\<exists>j. dr_phase r = PollingJob j)"

lemma delete_shape_done:
  assumes "delete_shape chunks r" "awaiting r" "st \<in> set (dr_answers r)" "ds_ready st"
  shows "delete_shape chunks (chunk_done st r)"
proof -
  have r: "dr_mode r \<noteq> RecycleBin" "dr_asked r @ dr_left r = chunks" "delete_sums r" "length (dr_asked r) = Suc (length (dr_ended r))"
    "\<forall>st \<in> set (dr_ended r). ds_status st = ''complete''" "dr_mode r = SingleJob \<longrightarrow> dr_ended r = []"
    using assms(1,2) by (auto simp: awaiting_def)
  then have single: "dr_mode r = SingleJob \<Longrightarrow> dr_ids r = [] \<and> dr_files r = 0 \<and> dr_blobs r = 0 \<and> dr_left r = []"
    "dr_mode r = SingleJob \<or> dr_mode r = ChunkedJobs"
    by (simp_all add: delete_sums_def) (cases "dr_mode r"; simp)
  show ?thesis
    using r assms(3,4) single
    by (cases "dr_left r"; cases "ds_status st = ''complete''"; cases "dr_mode r")
      (auto simp: chunk_done_def next_chunk_def after_jobs_def delete_sums_def Let_def)
qed

lemma delete_shape_turn:
  assumes "delete_shape chunks r" "awaiting r" "ds_ready st \<Longrightarrow> st \<in> set (dr_answers r)"
  shows "delete_shape chunks (poll_turn st r)"
proof -
  let ?r = "r\<lparr>dr_ticks := dr_ticks r @ [merged_status r st]\<rparr>"
  have "delete_shape chunks ?r" "awaiting ?r" using assms(1,2) by (auto simp: awaiting_def delete_sums_def)
  then show ?thesis
    using delete_shape_done[of chunks ?r st] assms
    by (auto simp: poll_turn_def awaiting_def delete_sums_def Let_def)
qed

lemma delete_event_cases:
  obtains x where "e = StartAnswered (Inl x) \<or> e = StatusAnswered (Inl x)"
    | st where "e = StartAnswered (Inr st)" | st where "e = StatusAnswered (Inr st)"
proof (cases e)
  case (StartAnswered x)
  then show thesis using that by (cases x) auto
next
  case (StatusAnswered x)
  then show thesis using that by (cases x) auto
qed

lemma delete_shape_step:
  assumes "delete_shape chunks r" "delete_enabled r e"
  shows "delete_shape chunks (delete_step r e)"
proof -
  have aw: "awaiting r" using assms(2) by (cases e) (auto simp: awaiting_def)
  have more: "delete_shape chunks (r\<lparr>dr_answers := dr_answers r @ [st]\<rparr>)" "awaiting (r\<lparr>dr_answers := dr_answers r @ [st]\<rparr>)" for st
    using assms(1) aw by (auto simp: awaiting_def delete_sums_def)
  have first: "ds_ready (initial_status r st) \<Longrightarrow> initial_status r st = st" for st
    using assms(1) by (auto simp: initial_status_def merged_status_def mergeDeleteJobProgress_def Let_def split: if_splits)
  show ?thesis
  proof (cases e rule: delete_event_cases)
    case 1
    then show ?thesis using assms(1) by (auto simp: delete_sums_def)
  next
    case 2
    show ?thesis unfolding 2 delete_step.simps by (rule delete_shape_turn[OF more]) (simp add: first)
  next
    case 3
    show ?thesis unfolding 3 delete_step.simps by (rule delete_shape_turn[OF more]) simp
  qed
qed

interpretation delete_job: machine delete_enabled delete_step "runDeleteJobWithProgress ids preview" "delete_shape (chunkFileIds ids)" for ids preview
  by unfold_locales (auto intro: delete_shape_start delete_shape_step simp del: delete_shape.simps)

text \<open>C21. The ids are asked for in order and each once, in chunks of at most 500. A deletion that returns
  reports the deleted ids, files and blobs of exactly the final answers of the jobs it started. When it says
  complete, every id was asked for; otherwise it stopped at the job that did not complete, and the ids of
  the chunks after it were not asked for.\<close>

theorem delete_jobs_account:
  assumes "reach delete_enabled delete_step (runDeleteJobWithProgress ids preview) r" "dr_phase r = DeleteDone d"
  shows "(\<exists>rest. concat (dr_asked r) @ rest = ids \<and> (ds_status d = ''complete'' \<longrightarrow> rest = [])) \<and>
    (\<forall>c \<in> set (dr_asked r). length c \<le> 500) \<and>
    length (dr_ended r) = length (dr_asked r) \<and> set (dr_ended r) \<subseteq> {st \<in> set (dr_answers r). ds_ready st} \<and>
    ds_ids d = concat (map ds_ids (dr_ended r)) \<and> ds_deleted_files d = sum_list (map ds_deleted_files (dr_ended r)) \<and>
    ds_deleted_blobs d = sum_list (map ds_deleted_blobs (dr_ended r)) \<and> ds_status d = ds_status (last (dr_ended r))"
proof -
  have inv: "delete_shape (chunkFileIds ids) r" using assms(1) by (rule delete_job.reach_inv)
  then have chunks: "dr_asked r @ dr_left r = chunkFileIds ids" by simp
  have "concat (dr_asked r) @ concat (dr_left r) = ids"
    unfolding concat_append[symmetric] chunks by (rule chunkFileIds_facts(1))
  moreover have "length c \<le> 500" if "c \<in> set (dr_asked r)" for c
    using chunkFileIds_facts(2)[of c ids] that unfolding chunks[symmetric] MAX_DELETE_FILES_PER_JOB_def by simp
  ultimately show ?thesis using inv assms(2) by (auto simp: delete_sums_def)
qed

definition sample_answer :: "bool \<Rightarrow> delete_status" where
  "sample_answer ready = \<lparr>ds_job = ''j'', ds_status = (if ready then ''complete'' else ''running''), ds_progress = 0,
     ds_total_blobs = 0, ds_deleted_blobs = 0, ds_total_files = 2, ds_deleted_files = (if ready then 2 else 0),
     ds_ready = ready, ds_error = None, ds_ids = (if ready then [''a'', ''b''] else [])\<rparr>"

theorem delete_jobs_account_witness:
  "concat (dr_asked (foldl delete_step (runDeleteJobWithProgress [''a'', ''b''] None)
     [StartAnswered (Inr (sample_answer False)), StatusAnswered (Inr (sample_answer True))])) = [''a'', ''b'']"
proof -
  let ?r0 = "runDeleteJobWithProgress [''a'', ''b''] None"
  let ?r1 = "delete_step ?r0 (StartAnswered (Inr (sample_answer False)))"
  let ?r2 = "delete_step ?r1 (StatusAnswered (Inr (sample_answer True)))"
  have e: "delete_enabled ?r0 (StartAnswered (Inr (sample_answer False)))"
    "delete_enabled ?r1 (StatusAnswered (Inr (sample_answer True)))" "dr_phase ?r2 = DeleteDone (sample_answer True)"
    "ds_status (sample_answer True) = ''complete''"
    by (simp_all add: runDeleteJobWithProgress_def chunkFileIds_def MAX_DELETE_FILES_PER_JOB_def next_chunk_def new_run_def
        poll_turn_def initial_status_def merged_status_def sample_answer_def chunk_done_def after_jobs_def Let_def)
  have "reach delete_enabled delete_step ?r0 ?r2" by (intro reach_step[OF reach_step[OF reach_init]] e(1,2))
  from delete_jobs_account[OF this e(3)] e(4) show ?thesis by auto
qed

text \<open>The first tick of every later chunk counts what the earlier ones deleted twice.\<close>

theorem first_tick_counts_twice:
  assumes "dr_mode r = ChunkedJobs"
  shows "ds_deleted_files (last (dr_ticks (poll_turn (initial_status r st) r))) = 2 * dr_files r + ds_deleted_files st"
  using assms by (simp add: poll_turn_def initial_status_def merged_status_def mergeDeleteJobProgress_def chunk_done_def Let_def)

lemma js_round_nonneg: "0 \<le> x \<Longrightarrow> 0 \<le> js_round x"
  by (simp add: js_round_def)

lemma sequential_progress: "0 \<le> ds_progress (createSequentialDeleteStatus c t ids) \<and> ds_progress (createSequentialDeleteStatus c t ids) \<le> 100"
  by (auto simp: createSequentialDeleteStatus_def percent_done_def Let_def intro!: js_round_nonneg divide_nonneg_nonneg)

end
