(* ===== verification/Spec2Isabelle.thy ===== *)
theory Spec2Isabelle
  imports CollabProps SheetCollab SheetSpill FormulaProps UploadLive UploadLost UploadViews
    SheetAnalysis UploadPartsProps DownloadProps ThumbnailProps ShareSelection DeleteJobs
begin

text \<open>
  A verification development of the Ownly web client (TypeScript, under
  \<^verbatim>\<open>src/frontend/src\<close>): a file drive with co-edited documents, spreadsheets and an upload
  tray. The theories model the parts of the client that hold its own logic, in groups
  that share only \<open>Prelude\<close>. Paths below are relative to \<^verbatim>\<open>src/frontend/src\<close>.

  \<^bold>\<open>The program and the model.\<close>

  \<^item> Co-editing of text. \<open>OtText\<close> models \<^verbatim>\<open>lib/collab/ot/text.ts\<close> (replace operations, their
    application, transformation and computation from two texts). \<open>CollabClient\<close> models
    \<^verbatim>\<open>lib/collab/client.ts\<close> with \<^verbatim>\<open>lib/collab/types.ts\<close>: the record \<open>client\<close> holds the fields of the
    class, every socket message, timer, promise and public method is an event, and what the
    client sends is a list of effects.

  \<^item> Spreadsheets. \<open>SheetTypes\<close> (\<^verbatim>\<open>lib/spreadsheet/types.ts\<close>, the rules), \<open>SheetNumbers\<close>
    (\<^verbatim>\<open>number-formats.ts\<close>), \<open>SheetCells\<close> (\<^verbatim>\<open>cells.ts\<close>, \<^verbatim>\<open>selection.ts\<close>, \<^verbatim>\<open>merge-regions.ts\<close>,
    \<^verbatim>\<open>named-ranges.ts\<close>), \<open>SheetGrid\<close> (\<^verbatim>\<open>grid.ts\<close>, \<^verbatim>\<open>dimensions.ts\<close>), \<open>SheetOps\<close> and \<open>SheetEdits\<close>
    (\<^verbatim>\<open>workbook-ops.ts\<close>), \<open>SheetClipboard\<close> (\<^verbatim>\<open>clipboard.ts\<close>, \<^verbatim>\<open>fill-handle.ts\<close>, \<^verbatim>\<open>undo.ts\<close>),
    \<open>SheetCollab\<close> (\<^verbatim>\<open>collab-ops.ts\<close> and what it calls) and \<open>SheetSpill\<close> (dynamic arrays:
    \<^verbatim>\<open>formula-dynamic-arrays.ts\<close> and the spilling part of \<^verbatim>\<open>formulas.ts\<close>). A workbook is a record of sheets, a sheet a
    record with a list of rows of cells; a position outside a list is handled as JavaScript
    does.

  \<^item> Formulas. \<open>FormulaText\<close> holds what the code does with the text of a formula (the patterns of
    strings, calls, references and placeholders of \<^verbatim>\<open>lib/spreadsheet/formulas.ts\<close>,
    \<^verbatim>\<open>formula-sheet-refs.ts\<close> and \<^verbatim>\<open>formula-table-refs.ts\<close>, each regular expression as a function on
    lists of characters), \<open>JsNum\<close> the conversions of JavaScript between numbers and text, \<open>JsExpr\<close> the
    evaluation of the expression that the code hands to \<open>Function\<close>. \<open>FormulaDates\<close> and
    \<open>FormulaExtended\<close> model \<^verbatim>\<open>formula-extended.ts\<close>; \<open>FormulaEngine\<close> the evaluator of \<^verbatim>\<open>formulas.ts\<close>:
    \<open>evaluateExpression\<close> threads the cache of the \<open>EvalContext\<close> through a state of its own and carries
    the set of cells being visited, and the recalculation of a sheet and a workbook.

  \<^item> What a sheet shows. \<open>SheetRules\<close> models conditional formats (\<^verbatim>\<open>conditional-formatting.ts\<close>,
    \<^verbatim>\<open>cf-formula.ts\<close>): which rule paints a cell and what the ten kinds of rules compute from the
    cells of their range. \<open>SheetAnalysis\<close> has the status bar (\<^verbatim>\<open>stats.ts\<close>), pivot summaries
    (\<^verbatim>\<open>pivot-summary.ts\<close>), chart series (\<^verbatim>\<open>chart-data.ts\<close>), column filters
    (\<^verbatim>\<open>filter-values.ts\<close>), precedents and dependents (\<^verbatim>\<open>trace-precedents.ts\<close>,
    \<^verbatim>\<open>trace-dependents.ts\<close>).

  \<^item> Uploads. \<open>UploadPlan\<close> holds the decisions before an upload (\<^verbatim>\<open>lib/upload-conflicts.ts\<close>,
    \<^verbatim>\<open>upload-storage-capacity.ts\<close>, \<^verbatim>\<open>upload-folder-structure.ts\<close>) and the tuning by measured
    throughput (\<^verbatim>\<open>upload-adaptive.ts\<close>); \<open>UploadPipeline\<close> the slots of the post-upload stages
    (\<^verbatim>\<open>upload-pipeline.ts\<close>); \<open>UploadManager\<close> the tray itself (\<^verbatim>\<open>upload-manager.ts\<close>,
    \<^verbatim>\<open>upload-batch-snapshot.ts\<close>). Its record \<open>mgr\<close> has the module's variables, the entry of
    localStorage, the stages, the continuations of the asynchronous functions (\<open>tasks\<close>) and what
    the code asked of the server (\<open>effects\<close>). An event of \<open>handle\<close> is a click, a continuation, or
    a callback or result of the API client; \<open>enabled\<close> says when it can happen.

  \<^item> Transfers of bytes. \<open>UploadParts\<close> models \<^verbatim>\<open>lib/resumable-upload.ts\<close> with the error type of
    \<^verbatim>\<open>api/core.ts\<close>: one call of \<open>uploadFileResumableBytes\<close> is a record \<open>upload\<close> with the pool of runners of
    \<open>mapWithConcurrency\<close>, every await is a place where the runner rests, every answer of the server or
    the storage is an event of \<open>upload_step\<close>, and every request is an entry of the log. \<open>Downloads\<close>
    models \<^verbatim>\<open>lib/download-manager.ts\<close> and the download functions of \<^verbatim>\<open>api/client.ts\<close> (the byte
    transfer with its abort controller and stall timer, the fall-back to a direct link, the waiting for
    exports and archives): the record \<open>tray\<close> has the module's variables and the runs under way, and
    \<open>tray_step\<close> takes an event of the user, the network or the clock.

  \<^item> Files of the drive. \<open>Thumbnails\<close> models the queue of thumbnail loads
    (\<^verbatim>\<open>lib/explorer-thumbnail-queue.ts\<close>: the records \<open>thumbnail_queue\<close> and \<open>queue_job\<close>, the events of
    \<open>queue_step\<close>) and the cache (\<^verbatim>\<open>explorer-thumbnail-cache.ts\<close>); \<open>ShareSelection\<close> the files that a selection
    on a public share stands for (\<^verbatim>\<open>public-share-selection.ts\<close>); \<open>DeleteJobs\<close> deletions that run in chunks as
    jobs of the server (\<^verbatim>\<open>delete-with-progress.ts\<close>: the record \<open>delete_run\<close>, stepped by the answers).

  The groups meet outside the model: the drive page mounts the editors and the trays. Within a
  group the theories call each other as the modules do, through the imports.

  \<^bold>\<open>What the lemmas show.\<close>

  \<^item> \<open>OtText\<close>: transformed operations stay in range and converge outside a described set of
    clashes; two insertions at one place converge only when they commute; the diff of two texts
    produces the second.
  \<^item> \<open>CollabProps\<close>: remote operations are delivered in strictly increasing order, pending
    operations that do not clash with them are rebased to convergence, a stopped client is silent until the
    user calls it again; and where the code falls
    short (operations hidden by an answer, operations never sent).
  \<^item> \<open>SheetGrid\<close>, \<open>SheetProps\<close>, \<open>SheetClipboard\<close>, \<open>SheetCollab\<close>, \<open>SheetSpill\<close>: no operation loses content it
    should keep, merges stay disjoint, sorting is a stable permutation, pasting reproduces the
    copy, a remote edit touches one sheet, a spill overwrites nothing; and the cases in which the code does lose something.
  \<^item> \<open>FormulaDepth\<close>, \<open>FormulaHalting\<close>: the evaluator does not depend on the depth it is given once it
    answers, and formulas without underscores and LET always answer within a depth that is computed
    from the workbook. \<open>FormulaArith\<close>, \<open>FormulaRanges\<close>, \<open>FormulaCalendar\<close>, \<open>FormulaProps\<close>: arithmetic
    formulas have the value of their arithmetic expression over what their cells hold or compute, what the functions of a range give, the
    end of a month, the splitting of arguments, results that are finite numbers; and the cases in
    which the code errs (LET that never ends, AVERAGE of a range).
  \<^item> \<open>SheetRuleProps\<close>: the rule with the greatest priority number that paints anything wins, a top rule
    of rank \<open>k\<close> marks the cells with fewer than \<open>k\<close> greater values, empty cells count as zeros, a formula with a comma
    never holds. \<open>SheetAnalysis\<close>: a pivot has one row for every list of labels, with the aggregates of exactly the
    rows that have them.
  \<^item> \<open>UploadPipeline\<close>: a stage never holds more than two rows, a freed slot goes to the first
    waiter; a waiter that is released never resumes.
  \<^item> \<open>UploadProps\<close> proves the invariant of the tray over every event, on which \<open>UploadClosing\<close> (the
    batch status tells the truth), \<open>UploadLive\<close> (queued rows are served, at most three rows hold a
    slot), \<open>UploadLost\<close> (a re-attached file is never sent) and \<open>UploadViews\<close> (counts, reload,
    removal of a rebuild's row) rest. The bounds on slots and the service of the queue hold as long as no
    file is attached again to a row; \<open>UploadLost\<close> shows what happens then.
  \<^item> \<open>UploadPartsPool\<close> proves the invariants of the pool (what each runner holds, which parts are
    counted, which requests are in the log) over every answer; on them \<open>UploadPartsProps\<close> shows that
    completion is asked for only when every part has arrived, that every upload settles after a number
    of answers that its missing parts bound, that no part is sent twice, and what happens after a
    failure. \<open>DownloadProps\<close>: at most two downloads run and a row waits only while two do; and what the
    single abort controller of the module does to two transfers at once.
  \<^item> \<open>ThumbnailProps\<close>: at most six loads run, urgent ones wait in front, no two loads of a file are
    alive, the cache forgets the least recently used thumbnail; and which loads are never answered.
    \<open>ShareSelection\<close>: the selection stands for the files selected or below a selected folder.
    \<open>DeleteJobs\<close>: the ids are asked for in order, up to a job that does not complete, and what is reported is
    the sum of the final answers.

  The state machines use the locale \<open>machine\<close> of \<open>Prelude\<close> (an invariant of the initial state
  that every enabled event keeps holds in every reachable state), interpreted for the client, the
  stages, the tray, the pool of an upload, the download tray, the thumbnail queue and the deletion
  jobs; the structural workbook operations use a locale for an operation that acts on one sheet,
  interpreted on the operations of the code.

  \<^bold>\<open>Numbers, bounds and termination.\<close> JavaScript numbers are \<open>int\<close> where the code only counts and
  indexes, and exact rationals where it divides; rounding of doubles is not modelled. Strings are
  lists of 8-bit units, the Latin-1 part of JavaScript's strings; a literal character outside it
  stands by its UTF-8 bytes. Every loop is structural
  or has a measure (the claiming loop of the pump: the number of queued rows). Fuel appears in one
  place: the mutual recursion of the formula evaluator, which need not end, takes the depth of the
  call stack as an argument and reports that it ran out as a value of its own; \<open>stack_need\<close> computes
  a depth that is enough (formula cells can nest only as deep as there are formula cells, because a
  cell that is being visited is not entered again, and within a cell every call is made on a shorter
  text). What the environment provides is a
  parameter: number and date formatting of the host, text measurement, \<open>formatBytes\<close>, the folder
  API over an abstract server state, the stream of client ids (assumed to have no repetition where
  a theorem says so), the clock. The record \<open>formula_env\<close> holds what
  the formula functions take from the host: the functions of \<open>Math\<close> beyond arithmetic, fractional
  powers, random numbers, the parsing of dates and locale formats; \<open>cf_env\<close> the square root for
  conditional formats. A cell is taken to lie within the size of an Excel sheet (\<open>excel_sized\<close>) where a
  rule names whole columns.

  \<^bold>\<open>Not modelled.\<close> The rest of the HTTP client \<^verbatim>\<open>api/client.ts\<close> (its small-file upload protocol is the
  environment of the tray; its wire types, the progress mapping that the tray calls and its downloads are translated), React
  components, hooks and pages, viewers for video, PDF, EPUB and RTF, the xlsx reader and writer,
  the catalogue of formulas, and the Rust services.
  A stack overflow inside the generated JavaScript, which \<^verbatim>\<open>formulas.ts\<close> would catch there, is not
  told apart from one outside it.
\<close>

end
